(* ===== verification/Prelude.thy ===== *)
theory Prelude
  imports Main "HOL-Library.Multiset"
begin

text \<open>
  Shared material of the development: the errors a JavaScript routine can throw as values of a
  sum type, loops whose body may throw, JavaScript's insertion-ordered \<open>Map\<close> and \<open>Set\<close> as
  lists, the array operations the sources use (\<open>findIndex\<close>, \<open>splice\<close>), decimal printing,
  and two interface locales: a keyed store and a machine with an invariant.
\<close>

named_theorems jsmap "facts about insertion-ordered maps"
named_theorems jsset "facts about insertion-ordered sets"
named_theorems resI "rewrite rules for results that may be errors"
named_theorems resV "rules for what every returned result satisfies"
named_theorems resF "rules for computations that do not run out of fuel"

section \<open>Results that may be errors\<close>

text \<open>
  \<open>OutOfFuel\<close> is not an error of the program: it marks a recursion of the model that was given
  too little fuel, and every component proves that it never occurs.
\<close>

datatype js_error =
    AssertionError
  | TypeError
  | ApplicationError string
  | OutOfFuel

type_synonym 'a res = "js_error + 'a"

definition res_bind :: "'a res \<Rightarrow> ('a \<Rightarrow> 'b res) \<Rightarrow> 'b res" where
  "res_bind m f = (case m of Inl e \<Rightarrow> Inl e | Inr x \<Rightarrow> f x)"

lemma res_bind_simps [simp]:
  "res_bind (Inl e) f = Inl e"
  "res_bind (Inr x) f = f x"
  by (simp_all add: res_bind_def)

lemma res_bind_Inr_iff [resI]:
  "res_bind m f = Inr y \<longleftrightarrow> (\<exists>x. m = Inr x \<and> f x = Inr y)"
  by (cases m) auto

lemma res_bind_Inl_iff [resI]:
  "res_bind m f = Inl e \<longleftrightarrow> m = Inl e \<or> (\<exists>x. m = Inr x \<and> f x = Inl e)"
  by (cases m) auto

lemma res_bind_cong [fundef_cong]:
  "m = m' \<Longrightarrow> (\<And>x. m' = Inr x \<Longrightarrow> f x = g x) \<Longrightarrow> res_bind m f = res_bind m' g"
  by (cases m') auto

text \<open>A weakest precondition for partial results: whatever a computation returns satisfies \<open>P\<close>.\<close>

definition res_all :: "('a \<Rightarrow> bool) \<Rightarrow> 'a res \<Rightarrow> bool" where
  "res_all P m = (case m of Inl e \<Rightarrow> True | Inr x \<Rightarrow> P x)"

lemma res_all_simps [simp]: "res_all P (Inl e)" "res_all P (Inr x) = P x"
  by (simp_all add: res_all_def)

lemma res_all_bind [resV]: "(\<And>x. m = Inr x \<Longrightarrow> res_all P (f x)) \<Longrightarrow> res_all P (res_bind m f)"
  by (cases m) auto

lemma res_all_if [resV]:
  "(b \<Longrightarrow> res_all P m) \<Longrightarrow> (\<not> b \<Longrightarrow> res_all P n) \<Longrightarrow> res_all P (if b then m else n)"
  by simp

lemma res_all_option [resV]:
  "(x = None \<Longrightarrow> res_all P m) \<Longrightarrow> (\<And>y. x = Some y \<Longrightarrow> res_all P (f y)) \<Longrightarrow>
   res_all P (case x of None \<Rightarrow> m | Some y \<Rightarrow> f y)"
  by (cases x) auto

lemma res_all_prod [resV]: "(\<And>a b. x = (a, b) \<Longrightarrow> res_all P (f a b)) \<Longrightarrow> res_all P (case x of (a, b) \<Rightarrow> f a b)"
  by (cases x) auto

lemma res_allD: "res_all P m \<Longrightarrow> m = Inr x \<Longrightarrow> P x"
  by simp

text \<open>The fuel is enough.\<close>

definition fuelled :: "'a res \<Rightarrow> bool" where
  "fuelled m \<longleftrightarrow> m \<noteq> Inl OutOfFuel"

lemma fuelled_simps [simp, resF]: "fuelled (Inr x)" "fuelled (Inl TypeError)" "fuelled (Inl AssertionError)"
  "fuelled (Inl (ApplicationError message))"
  by (simp_all add: fuelled_def)

lemma fuelled_bind [resF]: "fuelled m \<Longrightarrow> (\<And>x. m = Inr x \<Longrightarrow> fuelled (f x)) \<Longrightarrow> fuelled (res_bind m f)"
  by (cases m) (auto simp: fuelled_def)

lemma fuelled_if [resF]: "(b \<Longrightarrow> fuelled m) \<Longrightarrow> (\<not> b \<Longrightarrow> fuelled n) \<Longrightarrow> fuelled (if b then m else n)"
  by simp

lemma fuelled_option [resF]:
  "(x = None \<Longrightarrow> fuelled m) \<Longrightarrow> (\<And>y. x = Some y \<Longrightarrow> fuelled (f y)) \<Longrightarrow>
   fuelled (case x of None \<Rightarrow> m | Some y \<Rightarrow> f y)"
  by (cases x) auto

lemma fuelled_list [resF]:
  "(x = [] \<Longrightarrow> fuelled m) \<Longrightarrow> (\<And>y ys. x = y # ys \<Longrightarrow> fuelled (f y ys)) \<Longrightarrow>
   fuelled (case x of [] \<Rightarrow> m | y # ys \<Rightarrow> f y ys)"
  by (cases x) auto

text \<open>\<open>assert.ok(b)\<close>.\<close>

definition assert_ok :: "bool \<Rightarrow> unit res" where
  "assert_ok b = (if b then Inr () else Inl AssertionError)"

lemma assert_ok_simps [simp]:
  "assert_ok True = Inr ()" "assert_ok False = Inl AssertionError"
  "assert_ok b = Inr u \<longleftrightarrow> b" "assert_ok b = Inl e \<longleftrightarrow> \<not> b \<and> e = AssertionError"
  by (auto simp: assert_ok_def)

text \<open>A \<open>for ... of\<close> loop whose body may throw: the loop stops at the first error.\<close>

fun fold_res :: "('s \<Rightarrow> 'a \<Rightarrow> 's res) \<Rightarrow> 's \<Rightarrow> 'a list \<Rightarrow> 's res" where
  "fold_res f s [] = Inr s"
| "fold_res f s (x # xs) = res_bind (f s x) (\<lambda>s'. fold_res f s' xs)"

lemma fold_res_append [simp]:
  "fold_res f s (xs @ ys) = res_bind (fold_res f s xs) (\<lambda>s'. fold_res f s' ys)"
  by (induction xs arbitrary: s) (auto simp: res_bind_def split: sum.splits)

lemma fold_res_cong [fundef_cong]:
  "s = s' \<Longrightarrow> xs = ys \<Longrightarrow> (\<And>t x. x \<in> set ys \<Longrightarrow> f t x = g t x) \<Longrightarrow>
   fold_res f s xs = fold_res g s' ys"
proof (induction xs arbitrary: s s' ys)
  case Nil
  then show ?case by simp
next
  case (Cons x xs)
  then show ?case by (cases "g s' x") auto
qed

lemma fold_res_invariant:
  assumes "fold_res f s xs = Inr t" and "I s"
    and "\<And>u x v. x \<in> set xs \<Longrightarrow> I u \<Longrightarrow> f u x = Inr v \<Longrightarrow> I v"
  shows "I t"
  using assms
proof (induction xs arbitrary: s)
  case Nil
  then show ?case by simp
next
  case (Cons x xs)
  from Cons.prems(1) obtain u where u: "f s x = Inr u" "fold_res f u xs = Inr t"
    by (auto simp: resI)
  have "I u" by (rule Cons.prems(3) [OF _ Cons.prems(2) u(1)]) simp
  with u(2) show ?case using Cons.prems(3) by (auto intro: Cons.IH)
qed

lemma fold_res_total:
  assumes "I s"
    and "\<And>u x. x \<in> set xs \<Longrightarrow> I u \<Longrightarrow> \<exists>v. f u x = Inr v \<and> I v"
  shows "\<exists>t. fold_res f s xs = Inr t \<and> I t"
  using assms
proof (induction xs arbitrary: s)
  case Nil
  then show ?case by simp
next
  case (Cons x xs)
  from Cons.prems(2) [OF _ Cons.prems(1), of x] obtain v where v: "f s x = Inr v" "I v"
    by auto
  have "\<exists>t. fold_res f v xs = Inr t \<and> I t"
    by (rule Cons.IH [OF v(2)]) (auto intro: Cons.prems(2))
  with v(1) show ?case by simp
qed

text \<open>
  A loop whose body grows the state (\<open>R\<close>, a preorder) and establishes for its element a fact \<open>Q\<close>
  that growing keeps: at the end the fact holds for every element.
\<close>

lemma fold_res_grow:
  assumes "I s"
    and step: "\<And>u x. x \<in> set xs \<Longrightarrow> I u \<Longrightarrow> \<exists>v. f u x = Inr v \<and> I v \<and> R u v \<and> Q x v"
    and refl: "\<And>u. R u u" and trans: "\<And>u v w. R u v \<Longrightarrow> R v w \<Longrightarrow> R u w"
    and keep: "\<And>x u v. Q x u \<Longrightarrow> R u v \<Longrightarrow> Q x v"
  shows "\<exists>t. fold_res f s xs = Inr t \<and> I t \<and> R s t \<and> (\<forall>x \<in> set xs. Q x t)"
  using assms(1,2)
proof (induction xs arbitrary: s)
  case Nil
  then show ?case using refl by simp
next
  case (Cons x xs)
  from Cons.prems(2) [of x s] Cons.prems(1) obtain v where
    v: "f s x = Inr v" "I v" "R s v" "Q x v" by auto
  from Cons.IH [OF v(2)] Cons.prems(2) obtain t where
    t: "fold_res f v xs = Inr t" "I t" "R v t" "\<forall>y \<in> set xs. Q y t" by auto
  with v trans [OF v(3) t(3)] keep [OF v(4) t(3)] show ?case by auto
qed

text \<open>A loop whose body adds a set of elements to a list, and so adds them all.\<close>

lemma fold_res_collect:
  assumes "\<And>x ret. x \<in> set xs \<Longrightarrow> \<exists>ret'. f ret x = Inr ret' \<and> set ret' = set ret \<union> G x"
  shows "\<exists>ret'. fold_res f ret xs = Inr ret' \<and> set ret' = set ret \<union> (\<Union>x \<in> set xs. G x)"
  using assms
proof (induction xs arbitrary: ret)
  case Nil
  then show ?case by simp
next
  case (Cons x xs)
  from Cons.prems [of x ret] obtain u where u: "f ret x = Inr u" "set u = set ret \<union> G x" by auto
  from Cons.IH [of u] Cons.prems obtain v where
    "fold_res f u xs = Inr v" "set v = set u \<union> (\<Union>x \<in> set xs. G x)" by auto
  with u show ?case by auto
qed

section \<open>Insertion-ordered maps\<close>

text \<open>
  A JavaScript \<open>Map\<close> (and an object used as a dictionary with string keys) keeps its entries in
  insertion order: \<open>set\<close> on an existing key replaces the value in place, on a new key appends.
  \<open>get\<close> is \<open>map_of\<close>. The lists of the model have distinct keys, which every operation keeps.
\<close>

type_synonym ('k, 'v) js_map = "('k \<times> 'v) list"

fun map_set :: "'k \<Rightarrow> 'v \<Rightarrow> ('k, 'v) js_map \<Rightarrow> ('k, 'v) js_map" where
  "map_set k v [] = [(k, v)]"
| "map_set k v ((k', v') # m) = (if k = k' then (k, v) # m else (k', v') # map_set k v m)"

definition map_delete :: "'k \<Rightarrow> ('k, 'v) js_map \<Rightarrow> ('k, 'v) js_map" where
  "map_delete k m = filter (\<lambda>e. fst e \<noteq> k) m"

definition map_has :: "('k, 'v) js_map \<Rightarrow> 'k \<Rightarrow> bool" where
  "map_has m k = (map_of m k \<noteq> None)"

abbreviation map_keys :: "('k, 'v) js_map \<Rightarrow> 'k list" where
  "map_keys m \<equiv> map fst m"

abbreviation map_values :: "('k, 'v) js_map \<Rightarrow> 'v list" where
  "map_values m \<equiv> map snd m"

lemma map_of_map_set [simp, jsmap]: "map_of (map_set k v m) = (map_of m)(k \<mapsto> v)"
  by (induction k v m rule: map_set.induct) auto

lemma keys_map_set [simp, jsmap]: "fst ` set (map_set k v m) = insert k (fst ` set m)"
  by (induction k v m rule: map_set.induct) auto

lemma distinct_map_set [simp, intro]:
  "distinct (map_keys m) \<Longrightarrow> distinct (map_keys (map_set k v m))"
proof (induction k v m rule: map_set.induct)
  case (1 k v)
  then show ?case by simp
next
  case (2 k v k' v' m)
  then show ?case using keys_map_set [of k v m] by auto
qed

lemma map_set_fresh: "k \<notin> fst ` set m \<Longrightarrow> map_set k v m = m @ [(k, v)]"
  by (induction k v m rule: map_set.induct) auto

lemma set_map_set_subset: "set (map_set k v m) \<subseteq> insert (k, v) (set m)"
  by (induction k v m rule: map_set.induct) auto

lemma set_map_set [jsmap]:
  "distinct (map_keys m) \<Longrightarrow> set (map_set k v m) = insert (k, v) {e \<in> set m. fst e \<noteq> k}"
  by (induction k v m rule: map_set.induct) (auto simp: image_iff)

lemma map_of_map_delete [simp, jsmap]: "map_of (map_delete k m) = (map_of m)(k := None)"
  by (induction m) (auto simp: map_delete_def)

lemma set_map_delete [simp, jsmap]: "set (map_delete k m) = {e \<in> set m. fst e \<noteq> k}"
  by (auto simp: map_delete_def)

lemma distinct_map_delete [simp, intro]:
  "distinct (map_keys m) \<Longrightarrow> distinct (map_keys (map_delete k m))"
  by (simp add: map_delete_def distinct_map_filter)

lemma keys_map_delete [simp, jsmap]: "fst ` set (map_delete k m) = fst ` set m - {k}"
  by auto

lemma map_has_iff [simp]: "map_has m k \<longleftrightarrow> k \<in> fst ` set m"
  by (simp add: map_has_def map_of_eq_None_iff)

lemma length_map_set [jsmap]:
  "length (map_set k v m) = (if k \<in> fst ` set m then length m else Suc (length m))"
  by (induction k v m rule: map_set.induct) auto

lemma length_map_delete [jsmap]:
  "length (map_delete k m) \<le> length m"
  "k \<in> fst ` set m \<Longrightarrow> length (map_delete k m) < length m"
  by (auto simp: map_delete_def image_iff intro: length_filter_less)

lemma map_of_Some_in: "map_of m k = Some v \<Longrightarrow> (k, v) \<in> set m"
  by (rule map_of_SomeD)

section \<open>Insertion-ordered sets\<close>

type_synonym 'a js_set = "'a list"

definition set_add :: "'a \<Rightarrow> 'a js_set \<Rightarrow> 'a js_set" where
  "set_add x s = (if x \<in> set s then s else s @ [x])"

definition set_delete :: "'a \<Rightarrow> 'a js_set \<Rightarrow> 'a js_set" where
  "set_delete x s = filter (\<lambda>y. y \<noteq> x) s"

definition js_set_of :: "'a list \<Rightarrow> 'a js_set" where
  "js_set_of xs = foldl (\<lambda>s x. set_add x s) [] xs"

lemma set_set_add [simp, jsset]: "set (set_add x s) = insert x (set s)"
  by (auto simp: set_add_def)

lemma distinct_set_add [simp, intro]: "distinct s \<Longrightarrow> distinct (set_add x s)"
  by (simp add: set_add_def)

lemma set_set_delete [simp, jsset]: "set (set_delete x s) = set s - {x}"
  by (auto simp: set_delete_def)

lemma distinct_set_delete [simp, intro]: "distinct s \<Longrightarrow> distinct (set_delete x s)"
  by (simp add: set_delete_def)

lemma set_foldl_set_add [simp]: "set (foldl (\<lambda>s x. set_add x s) s xs) = set s \<union> set xs"
  by (induction xs arbitrary: s) auto

lemma distinct_foldl_set_add [simp, intro]:
  "distinct s \<Longrightarrow> distinct (foldl (\<lambda>s x. set_add x s) s xs)"
  by (induction xs arbitrary: s) auto

lemma set_js_set_of [simp, jsset]: "set (js_set_of xs) = set xs"
  by (simp add: js_set_of_def)

lemma distinct_js_set_of [simp, intro]: "distinct (js_set_of xs)"
  by (simp add: js_set_of_def)

section \<open>Array operations\<close>

text \<open>\<open>findIndex\<close>: \<open>None\<close> is the source's \<open>-1\<close>.\<close>

fun find_index :: "('a \<Rightarrow> bool) \<Rightarrow> 'a list \<Rightarrow> nat option" where
  "find_index P [] = None"
| "find_index P (x # xs) = (if P x then Some 0 else map_option Suc (find_index P xs))"

text \<open>\<open>xs.splice(i, 1)\<close> for an index in range.\<close>

definition remove_at :: "nat \<Rightarrow> 'a list \<Rightarrow> 'a list" where
  "remove_at i xs = take i xs @ drop (Suc i) xs"

lemma find_index_None_iff [simp]: "find_index P xs = None \<longleftrightarrow> (\<forall>x \<in> set xs. \<not> P x)"
  by (induction xs) auto

lemma find_index_Some:
  "find_index P xs = Some i \<Longrightarrow> i < length xs \<and> P (xs ! i) \<and> (\<forall>j < i. \<not> P (xs ! j))"
proof (induction xs arbitrary: i)
  case Nil
  then show ?case by simp
next
  case (Cons x xs)
  then show ?case by (auto simp: nth_Cons split: if_splits nat.splits)
qed

lemma remove_at_Cons [simp]:
  "remove_at 0 (x # xs) = xs" "remove_at (Suc i) (x # xs) = x # remove_at i xs"
  by (simp_all add: remove_at_def)

lemma set_remove_at_subset: "set (remove_at i xs) \<subseteq> set xs"
  by (auto simp: remove_at_def dest: in_set_takeD in_set_dropD)

lemma length_remove_at [simp]: "i < length xs \<Longrightarrow> length (remove_at i xs) = length xs - 1"
  by (auto simp: remove_at_def)

lemma insert_remove_at: "i < length xs \<Longrightarrow> insert (xs ! i) (set (remove_at i xs)) = set xs"
proof (induction xs arbitrary: i)
  case (Cons x xs)
  then show ?case by (cases i) auto
qed simp

lemma remove_at_find_index:
  "find_index P xs = Some i \<Longrightarrow> remove_at i xs = takeWhile (\<lambda>x. \<not> P x) xs @ tl (dropWhile (\<lambda>x. \<not> P x) xs)"
  by (induction xs arbitrary: i) (auto split: if_splits)

text \<open>Taking an element out, as multisets.\<close>

lemma mset_map_delete:
  "map_of m k = Some v \<Longrightarrow> distinct (map_keys m) \<Longrightarrow> mset m = add_mset (k, v) (mset (map_delete k m))"
proof (induction m)
  case (Cons e m)
  show ?case
  proof (cases "fst e = k")
    case True
    with Cons.prems have "map_delete k m = m"
      by (auto simp: map_delete_def filter_id_conv image_iff)
    with True Cons.prems show ?thesis by (cases e) (auto simp: map_delete_def)
  next
    case False
    with Cons show ?thesis by (cases e) (auto simp: map_delete_def)
  qed
qed simp

lemma mset_remove_at: "i < length xs \<Longrightarrow> mset xs = add_mset (xs ! i) (mset (remove_at i xs))"
proof (induction xs arbitrary: i)
  case (Cons x xs)
  then show ?case by (cases i) auto
qed simp

lemma image_mset_remove_at:
  "i < length xs \<Longrightarrow> mset (map f xs) = add_mset (f (xs ! i)) (mset (map f (remove_at i xs)))"
  by (simp only: mset_map mset_remove_at [of i xs]) simp

lemma image_mset_delete:
  "map_of m k = Some v \<Longrightarrow> distinct (map_keys m) \<Longrightarrow> mset (map f m) = add_mset (f (k, v)) (mset (map f (map_delete k m)))"
  by (simp only: mset_map mset_map_delete [of m k v]) simp

section \<open>Decimal printing\<close>

text \<open>The decimal digits of a number, as template literals print a non-negative integer.\<close>

fun nat_str :: "nat \<Rightarrow> string" where
  "nat_str n = (if n < 10 then [char_of (48 + n)] else nat_str (n div 10) @ [char_of (48 + n mod 10)])"

declare nat_str.simps [simp del]

lemma nat_str_digits: "c \<in> set (nat_str n) \<Longrightarrow> \<exists>d < 10. c = char_of (48 + d :: nat)"
proof (induction n rule: nat_str.induct)
  case (1 n)
  show ?case
  proof (cases "n < 10")
    case True
    with "1.prems" show ?thesis by (subst (asm) nat_str.simps) auto
  next
    case False
    with "1.prems" have "c \<in> set (nat_str (n div 10)) \<or> c = char_of (48 + n mod 10)"
      by (subst (asm) nat_str.simps) auto
    moreover have "n mod 10 < 10" by simp
    ultimately show ?thesis using "1.IH" [OF False] by blast
  qed
qed

lemma nat_str_nonempty [simp]: "nat_str n \<noteq> []"
  by (subst nat_str.simps) simp

definition digits_val :: "string \<Rightarrow> nat" where
  "digits_val s = foldl (\<lambda>a c. 10 * a + (of_char c - 48)) 0 s"

lemma digits_val_nat_str: "digits_val (nat_str n) = n"
proof (induction n rule: nat_str.induct)
  case (1 n)
  then show ?case
    by (subst nat_str.simps) (auto simp: digits_val_def)
qed

lemma nat_str_inj [simp]: "nat_str m = nat_str n \<longleftrightarrow> m = n"
  using digits_val_nat_str by metis

definition int_str :: "int \<Rightarrow> string" where
  "int_str i = (if i < 0 then CHR ''-'' # nat_str (nat (- i)) else nat_str (nat i))"

section \<open>Text\<close>

fun js_join :: "string \<Rightarrow> string list \<Rightarrow> string" where
  "js_join sep [] = []"
| "js_join sep [s] = s"
| "js_join sep (s # t # ss) = s @ sep @ js_join sep (t # ss)"

definition starts_with :: "string \<Rightarrow> string \<Rightarrow> bool" where
  "starts_with s p = (take (length p) s = p)"

fun str_includes :: "string \<Rightarrow> string \<Rightarrow> bool" where
  "str_includes [] p = (p = [])"
| "str_includes (c # cs) p = (starts_with (c # cs) p \<or> str_includes cs p)"

definition ends_with :: "string \<Rightarrow> string \<Rightarrow> bool" where
  "ends_with suffix s = (length suffix \<le> length s \<and> drop (length s - length suffix) s = suffix)"

text \<open>Strings compared by their characters, as the default order of \<open>sort\<close> does.\<close>

fun str_less :: "string \<Rightarrow> string \<Rightarrow> bool" where
  "str_less s [] = False"
| "str_less [] (d # ds) = True"
| "str_less (c # cs) (d # ds) =
     (if c = d then str_less cs ds else (of_char c :: nat) < of_char d)"

text \<open>\<open>s.split(sep)\<close> for a separator of one character.\<close>

fun js_split :: "char \<Rightarrow> string \<Rightarrow> string list" where
  "js_split sep [] = [[]]"
| "js_split sep (c # cs) =
     (if c = sep then [] # js_split sep cs
      else case js_split sep cs of [] \<Rightarrow> [[c]] | s # ss \<Rightarrow> (c # s) # ss)"

definition is_js_space :: "char \<Rightarrow> bool" where
  "is_js_space c = ((of_char c :: nat) \<in> {9, 10, 11, 12, 13, 32, 160})"

definition js_trim :: "string \<Rightarrow> string" where
  "js_trim s = rev (dropWhile is_js_space (rev (dropWhile is_js_space s)))"

section \<open>A keyed store\<close>

text \<open>
  What the clients of an insertion-ordered map rely on: looking a key up after an update or a
  delete, and the keys an operation leaves.
\<close>

locale keyed_store =
  fixes lookup :: "'m \<Rightarrow> 'k \<Rightarrow> 'v option"
    and update :: "'k \<Rightarrow> 'v \<Rightarrow> 'm \<Rightarrow> 'm"
    and delete :: "'k \<Rightarrow> 'm \<Rightarrow> 'm"
    and ok :: "'m \<Rightarrow> bool"
  assumes lookup_update: "ok m \<Longrightarrow> lookup (update k v m) j = (if j = k then Some v else lookup m j)"
    and lookup_delete: "ok m \<Longrightarrow> lookup (delete k m) j = (if j = k then None else lookup m j)"
    and ok_update: "ok m \<Longrightarrow> ok (update k v m)"
    and ok_delete: "ok m \<Longrightarrow> ok (delete k m)"
begin

lemma update_update: "ok m \<Longrightarrow> lookup (update k w (update k v m)) j = lookup (update k w m) j"
  by (simp add: lookup_update ok_update)

lemma delete_update: "ok m \<Longrightarrow> lookup (delete k (update k v m)) j = lookup (delete k m) j"
  by (simp add: lookup_update lookup_delete ok_update)

lemma delete_list:
  "ok m \<Longrightarrow> lookup (foldl (\<lambda>n k. delete k n) m ks) j = (if j \<in> set ks then None else lookup m j)
   \<and> ok (foldl (\<lambda>n k. delete k n) m ks)"
  by (induction ks arbitrary: m) (auto simp: lookup_delete ok_delete)

end

interpretation js_store: keyed_store map_of map_set map_delete "\<lambda>m. distinct (map_keys m)"
  by unfold_locales (auto simp: fun_upd_def)

section \<open>Machines with an invariant\<close>

text \<open>
  A component that reacts to events: a step from a state and an event to the next state. Its runs
  fold the step over the events; an invariant that the steps keep holds after every run.
\<close>

locale invariant_machine =
  fixes step :: "'s \<Rightarrow> 'e \<Rightarrow> 's"
    and inv :: "'s \<Rightarrow> bool"
  assumes step_inv: "inv s \<Longrightarrow> inv (step s e)"
begin

lemma run_inv: "inv s \<Longrightarrow> inv (foldl step s es)"
  by (induction es arbitrary: s) (auto intro: step_inv)

lemma run_prefix_inv: "inv s \<Longrightarrow> inv (foldl step s (take n es))"
  by (rule run_inv)

end

end
