(* ===== verification/WorkflowTypes.thy ===== *)
theory WorkflowTypes
  imports Complex_Main Prelude
begin

text \<open>
  The data model the engine's components share, from \<open>packages/workflow/src/Interfaces.ts\<close>:
  nodes, connection types, the nested connection table of a workflow, and the run, pin and
  waiting data of an execution.

  Objects used as dictionaries are insertion-ordered maps. A node is a record that carries the
  address of its object (\<open>node_ref\<close>): two model nodes are equal exactly when they are the same
  object with the same contents, so that \<open>===\<close> on nodes is equality of records.
\<close>

section \<open>Connection types\<close>

datatype NodeConnectionType =
    AiAgent | AiChain | AiDocument | AiEmbedding | AiLanguageModel | AiMemory
  | AiOutputParser | AiRetriever | AiTextSplitter | AiTool | AiVectorStore | Main

fun conn_type_str :: "NodeConnectionType \<Rightarrow> string" where
  "conn_type_str AiAgent = ''ai_agent''"
| "conn_type_str AiChain = ''ai_chain''"
| "conn_type_str AiDocument = ''ai_document''"
| "conn_type_str AiEmbedding = ''ai_embedding''"
| "conn_type_str AiLanguageModel = ''ai_languageModel''"
| "conn_type_str AiMemory = ''ai_memory''"
| "conn_type_str AiOutputParser = ''ai_outputParser''"
| "conn_type_str AiRetriever = ''ai_retriever''"
| "conn_type_str AiTextSplitter = ''ai_textSplitter''"
| "conn_type_str AiTool = ''ai_tool''"
| "conn_type_str AiVectorStore = ''ai_vectorStore''"
| "conn_type_str Main = ''main''"

definition nodeConnectionTypes :: "NodeConnectionType list" where
  "nodeConnectionTypes =
     [AiAgent, AiChain, AiDocument, AiEmbedding, AiLanguageModel, AiMemory, AiOutputParser,
      AiRetriever, AiTextSplitter, AiTool, AiVectorStore, Main]"

lemma conn_type_str_inj: "conn_type_str s = conn_type_str t \<Longrightarrow> s = t"
  by (cases s; cases t; simp)

lemma conn_type_str_no_hyphen: "CHR ''-'' \<notin> set (conn_type_str t)"
  by (cases t) auto

section \<open>Values, nodes, connections\<close>

datatype json =
    JNull | JUndefined | JBool bool | JNum rat | JStr string
  | JArr "json list" | JObj "(string \<times> json) list"

datatype OnError = ContinueErrorOutput | ContinueRegularOutput | StopWorkflow

record INode =
  node_ref :: nat
  node_name :: string
  node_typeVersion :: rat
  node_type :: string
  node_position :: "int \<times> int"
  node_disabled :: "bool option"
  node_retryOnFail :: "bool option"
  node_maxTries :: "int option"
  node_waitBetweenTries :: "int option"
  node_alwaysOutputData :: "bool option"
  node_executeOnce :: "bool option"
  node_onError :: "OnError option"
  node_continueOnFail :: "bool option"
  node_webhookId :: "string option"
  node_parameters :: json

text \<open>A truthiness test of \<open>node.disabled\<close>, and the test \<open>node.disabled === true\<close>: both hold exactly of \<open>true\<close>.\<close>

definition is_disabled :: "INode \<Rightarrow> bool" where
  "is_disabled n = (node_disabled n = Some True)"

record IConnection =
  ic_node :: string
  ic_type :: NodeConnectionType
  ic_index :: nat

text \<open>First index: output (or input) index, an entry may be null; second: the connections there.\<close>

type_synonym NodeInputConnections = "IConnection list option list"
type_synonym INodeConnections = "(NodeConnectionType, NodeInputConnections) js_map"
type_synonym IConnections = "(string, INodeConnections) js_map"

record INodeConnection =
  nc_sourceIndex :: nat
  nc_destinationIndex :: nat

record IConnectedNode =
  cn_name :: string
  cn_indicies :: "nat list"
  cn_depth :: nat

section \<open>Execution data\<close>

text \<open>
  An entry of an array of inputs, outputs or sources: a hole (\<open>undefined\<close>, also what is read past
  the end), \<open>null\<close>, or a value. The engine tells \<open>null\<close> from \<open>undefined\<close> in some places and not
  in others.
\<close>

datatype 'a slot = Hole | Null | Filled 'a

fun slot_value :: "'a slot \<Rightarrow> 'a option" where
  "slot_value (Filled x) = Some x"
| "slot_value _ = None"

definition slot_at :: "'a slot list \<Rightarrow> nat \<Rightarrow> 'a slot" where
  "slot_at xs i = (if i < length xs then xs ! i else Hole)"

record ExecutionError =
  err_name :: string
  err_message :: string

datatype ExecutionStatus =
  Canceled | Crashed | ErrorStatus | NewStatus | Running | Success | UnknownStatus | Waiting

record INodeExecutionData =
  item_json :: json
  item_binary :: "json option"
  item_error :: "ExecutionError option"
  item_pairedItem :: "json option"

text \<open>The item \<open>{ json: {} }\<close> a node without input is started with.\<close>

definition empty_item :: INodeExecutionData where
  "empty_item = \<lparr>item_json = JObj [], item_binary = None, item_error = None, item_pairedItem = None\<rparr>"

type_synonym ITaskDataConnections =
  "(NodeConnectionType, INodeExecutionData list slot list) js_map"

record ISourceData =
  src_previousNode :: string
  src_previousNodeOutput :: "nat option"
  src_previousNodeRun :: "nat option"

type_synonym ITaskDataConnectionsSource =
  "(NodeConnectionType, ISourceData slot list) js_map"

type_synonym ITaskMetadata = "(string, json) js_map"

record ITaskData =
  task_startTime :: int
  task_executionTime :: int
  task_executionStatus :: "ExecutionStatus option"
  task_data :: "ITaskDataConnections option"
  task_error :: "ExecutionError option"
  task_hints :: "json list"
  task_source :: "ISourceData slot list"
  task_metadata :: "ITaskMetadata option"

type_synonym IRunData = "(string, ITaskData list) js_map"
type_synonym IPinData = "(string, INodeExecutionData list) js_map"

record IExecuteData =
  ex_node :: INode
  ex_data :: ITaskDataConnections
  ex_metadata :: "ITaskMetadata option"
  ex_source :: "ITaskDataConnectionsSource option"

text \<open>Node name, then run index.\<close>

type_synonym IWaitingForExecution = "(string, (nat, ITaskDataConnections) js_map) js_map"
type_synonym IWaitingForExecutionSource =
  "(string, (nat, ITaskDataConnectionsSource) js_map) js_map"

text \<open>How an execution was started (\<open>WorkflowExecuteMode\<close>).\<close>

datatype ExecutionMode =
    Mode_cli | Mode_error | Mode_integrated | Mode_internal | Mode_manual
  | Mode_retry | Mode_trigger | Mode_webhook | Mode_evaluation

section \<open>Array access\<close>

text \<open>\<open>xs.at(i)\<close>: a negative index counts from the end, out of range is \<open>undefined\<close>.\<close>

definition js_at :: "'a list \<Rightarrow> int \<Rightarrow> 'a option" where
  "js_at xs i =
     (let n = int (length xs); j = (if i < 0 then n + i else i)
      in if 0 \<le> j \<and> j < n then Some (xs ! nat j) else None)"

text \<open>\<open>xs[i]\<close>, \<open>None\<close> for \<open>undefined\<close>.\<close>

definition js_nth :: "'a list \<Rightarrow> nat \<Rightarrow> 'a option" where
  "js_nth xs i = (if i < length xs then Some (xs ! i) else None)"

text \<open>\<open>xs[i] = v\<close>: past the end the array grows, and the skipped entries are holes.\<close>

definition js_array_set :: "nat \<Rightarrow> 'a option \<Rightarrow> 'a option list \<Rightarrow> 'a option list" where
  "js_array_set i v xs =
     (if i < length xs then xs[i := v] else xs @ replicate (i - length xs) None @ [v])"

text \<open>The same on an array of slots, where \<open>null\<close> and \<open>undefined\<close> differ.\<close>

definition slot_set :: "nat \<Rightarrow> 'a slot \<Rightarrow> 'a slot list \<Rightarrow> 'a slot list" where
  "slot_set i v xs =
     (if i < length xs then xs[i := v] else xs @ replicate (i - length xs) Hole @ [v])"

lemma length_slot_set [simp]: "length (slot_set i v xs) = max (length xs) (Suc i)"
  by (auto simp: slot_set_def)

lemma slot_at_slot_set [simp]: "slot_at (slot_set i v xs) j = (if j = i then v else slot_at xs j)"
  by (auto simp: slot_at_def slot_set_def nth_append nth_Cons split: nat.splits)

lemma js_nth_Some_iff: "js_nth xs i = Some x \<longleftrightarrow> i < length xs \<and> xs ! i = x"
  by (auto simp: js_nth_def)

lemma length_js_array_set: "length (js_array_set i v xs) = max (length xs) (Suc i)"
  by (auto simp: js_array_set_def)

lemma nth_js_array_set:
  "j < length (js_array_set i v xs) \<Longrightarrow>
   js_array_set i v xs ! j = (if j = i then v else if j < length xs then xs ! j else None)"
  by (auto simp: js_array_set_def nth_append nth_list_update nth_Cons split: nat.splits)

lemma js_at_nonneg [simp]: "js_at xs (int i) = js_nth xs i"
  by (auto simp: js_at_def js_nth_def Let_def)

section \<open>Values of the language\<close>

text \<open>\<open>value[key]\<close>, which is \<open>undefined\<close> on a value that is no object.\<close>

definition json_get :: "json \<Rightarrow> string \<Rightarrow> json" where
  "json_get j key = (case j of
     JObj fs \<Rightarrow> (case map_of fs key of None \<Rightarrow> JUndefined | Some v \<Rightarrow> v)
   | _ \<Rightarrow> JUndefined)"

definition truthy :: "json \<Rightarrow> bool" where
  "truthy j = (case j of
     JNull \<Rightarrow> False | JUndefined \<Rightarrow> False | JBool b \<Rightarrow> b | JNum n \<Rightarrow> n \<noteq> 0 | JStr s \<Rightarrow> s \<noteq> []
   | JArr _ \<Rightarrow> True | JObj _ \<Rightarrow> True)"

end
