(* ===== verification/WorkflowGraph.thy ===== *)
theory WorkflowGraph
  imports WorkflowTypes "HOL-Library.Multiset"
begin

text \<open>
  The graph side of the class \<open>Workflow\<close> (\<open>packages/workflow/src/Workflow.ts\<close>): the table of
  connections by source node and its inversion by destination node, node queries, and the walks
  over the tables (connected nodes, highest nodes, breadth-first search, connection indexes,
  start node). The registry of node types is code outside the model and is a field of the
  record; only the parts of a node type that these operations read are kept.
\<close>

section \<open>The workflow object\<close>

text \<open>
  \<open>requiredInputs\<close> is a number of inputs, a list of their indexes, or an expression for one of these;
  \<open>nt_inputs\<close> is the length of \<open>inputs\<close> (an array, or the string of an expression).
\<close>

datatype required_inputs = RequiredCount nat | RequiredIndexes "nat list" | RequiredExpression string

record INodeType =
  nt_name :: string
  nt_group :: "string list"
  nt_trigger :: bool
  nt_poll :: bool
  nt_execute :: bool
  nt_webhook :: bool
  nt_requiredInputs :: "required_inputs option"
  nt_inputs :: nat

record Workflow =
  wf_nodes :: "(string, INode) js_map"
  wf_connectionsBySourceNode :: IConnections
  wf_connectionsByDestinationNode :: IConnections
  wf_nodeTypes :: "string \<Rightarrow> rat \<Rightarrow> INodeType option"
  wf_pinData :: "IPinData option"
  wf_executionOrder :: "string option"

text \<open>
  All connections of a table in the order in which the nested loops of the source meet them:
  key, type, index, connection. Null entries count as empty.
\<close>

definition flat_entry :: "'b list option \<Rightarrow> 'b list" where
  "flat_entry cs = (case cs of None \<Rightarrow> [] | Some l \<Rightarrow> l)"

definition flat_types :: "INodeConnections \<Rightarrow> (NodeConnectionType \<times> nat \<times> IConnection) list" where
  "flat_types tc =
     concat (map (\<lambda>(t, arr). concat (map (\<lambda>(i, cs). map (\<lambda>c. (t, i, c)) (flat_entry cs))
       (enumerate 0 arr))) tc)"

definition flat_connections ::
  "IConnections \<Rightarrow> (string \<times> NodeConnectionType \<times> nat \<times> IConnection) list" where
  "flat_connections conns = concat (map (\<lambda>(s, tc). map (\<lambda>e. (s, e)) (flat_types tc)) conns)"

text \<open>The body of the innermost loop of \<open>__getConnectionsByDestination\<close>.\<close>

definition pad_connections :: "nat \<Rightarrow> NodeInputConnections \<Rightarrow> NodeInputConnections" where
  "pad_connections i xs = xs @ replicate (Suc i - length xs) (Some [])"

definition push_at :: "nat \<Rightarrow> IConnection \<Rightarrow> NodeInputConnections \<Rightarrow> NodeInputConnections" where
  "push_at i c xs = (case js_nth xs i of Some (Some l) \<Rightarrow> xs[i := Some (l @ [c])] | _ \<Rightarrow> xs)"

definition add_by_destination ::
  "IConnections \<Rightarrow> string \<times> NodeConnectionType \<times> nat \<times> IConnection \<Rightarrow> IConnections" where
  "add_by_destination ret e =
     (case e of (sourceNode, type, inputIndex, connectionInfo) \<Rightarrow>
       let byType = (case map_of ret (ic_node connectionInfo) of None \<Rightarrow> [] | Some m \<Rightarrow> m);
           arr = (case map_of byType (ic_type connectionInfo) of None \<Rightarrow> [] | Some a \<Rightarrow> a);
           arr' = push_at (ic_index connectionInfo)
                    \<lparr>ic_node = sourceNode, ic_type = type, ic_index = inputIndex\<rparr>
                    (pad_connections (ic_index connectionInfo) arr)
       in map_set (ic_node connectionInfo) (map_set (ic_type connectionInfo) arr' byType) ret)"

definition getConnectionsByDestination :: "IConnections \<Rightarrow> IConnections" where
  "getConnectionsByDestination connections =
     foldl add_by_destination [] (flat_connections connections)"

section \<open>Node queries\<close>

definition queryNodes :: "Workflow \<Rightarrow> (INodeType \<Rightarrow> bool) \<Rightarrow> INode list" where
  "queryNodes w checkFunction =
     filter (\<lambda>node. node_disabled node \<noteq> Some True \<and>
       (case wf_nodeTypes w (node_type node) (node_typeVersion node) of
          None \<Rightarrow> False
        | Some nodeType \<Rightarrow> checkFunction nodeType))
       (map_values (wf_nodes w))"

definition getTriggerNodes :: "Workflow \<Rightarrow> INode list" where
  "getTriggerNodes w = queryNodes w nt_trigger"

definition getPollNodes :: "Workflow \<Rightarrow> INode list" where
  "getPollNodes w = queryNodes w nt_poll"

definition getNode :: "Workflow \<Rightarrow> string \<Rightarrow> INode option" where
  "getNode w nodeName = map_of (wf_nodes w) nodeName"

definition getPinDataOfNode :: "Workflow \<Rightarrow> string \<Rightarrow> INodeExecutionData list option" where
  "getPinDataOfNode w nodeName =
     (case wf_pinData w of None \<Rightarrow> None | Some pd \<Rightarrow> map_of pd nodeName)"

section \<open>Connected nodes\<close>

datatype connection_filter = AllTypes | AllNonMain | OfType NodeConnectionType

definition connections_at :: "IConnections \<Rightarrow> string \<Rightarrow> NodeConnectionType \<Rightarrow> NodeInputConnections option" where
  "connections_at connections nodeName type =
     (case map_of connections nodeName of None \<Rightarrow> None | Some tc \<Rightarrow> map_of tc type)"

definition filter_types :: "INodeConnections \<Rightarrow> connection_filter \<Rightarrow> NodeConnectionType list" where
  "filter_types tc connectionType =
     (case connectionType of
        AllTypes \<Rightarrow> map_keys tc
      | AllNonMain \<Rightarrow> filter (\<lambda>type. type \<noteq> Main) (map_keys tc)
      | OfType t \<Rightarrow> [t])"

text \<open>
  The loop \<open>for (i = addNodes.length; i--; i > 0)\<close>: from the last entry to the first, each is
  taken out of its present place and put at the front.
\<close>

definition move_to_front :: "'a \<Rightarrow> 'a list \<Rightarrow> 'a list" where
  "move_to_front x xs =
     x # (case find_index (\<lambda>y. y = x) xs of None \<Rightarrow> xs | Some i \<Rightarrow> remove_at i xs)"

definition add_nodes_front :: "'a list \<Rightarrow> 'a list \<Rightarrow> 'a list" where
  "add_nodes_front addNodes returnNodes = foldr move_to_front addNodes returnNodes"

text \<open>
  The copy of \<open>checkedNodes\<close> that each call makes grows along a path and never repeats a name
  that has connections, so a fuel of one more than the number of names with connections is enough.
\<close>

fun getConnectedNodes_fuel ::
  "nat \<Rightarrow> IConnections \<Rightarrow> string \<Rightarrow> connection_filter \<Rightarrow> int \<Rightarrow> string list \<Rightarrow> string list res" where
  "getConnectedNodes_fuel 0 connections nodeName connectionType depth checkedIn = Inl OutOfFuel"
| "getConnectedNodes_fuel (Suc fuel) connections nodeName connectionType depth checkedIn =
     (let newDepth = (if depth = -1 then depth else depth - 1) in
      if depth = 0 then Inr []
      else case map_of connections nodeName of
        None \<Rightarrow> Inr []
      | Some tc \<Rightarrow>
          fold_res (\<lambda>returnNodes type.
            case map_of tc type of
              None \<Rightarrow> Inr returnNodes
            | Some arr \<Rightarrow>
                if nodeName \<in> set checkedIn then Inr returnNodes
                else
                  fold_res (\<lambda>returnNodes connection.
                    if ic_node connection \<in> set (checkedIn @ [nodeName]) then Inr returnNodes
                    else res_bind
                      (getConnectedNodes_fuel fuel connections (ic_node connection)
                         connectionType newDepth (checkedIn @ [nodeName]))
                      (\<lambda>addNodes. Inr (add_nodes_front addNodes (ic_node connection # returnNodes))))
                  returnNodes (concat (map flat_entry arr)))
          [] (filter_types tc connectionType))"

definition getConnectedNodes ::
  "IConnections \<Rightarrow> string \<Rightarrow> connection_filter \<Rightarrow> int \<Rightarrow> string list res" where
  "getConnectedNodes connections nodeName connectionType depth =
     getConnectedNodes_fuel (Suc (Suc (length connections))) connections nodeName connectionType depth []"

definition getChildNodes :: "Workflow \<Rightarrow> string \<Rightarrow> connection_filter \<Rightarrow> int \<Rightarrow> string list res" where
  "getChildNodes w nodeName type depth =
     getConnectedNodes (wf_connectionsBySourceNode w) nodeName type depth"

definition getParentNodes :: "Workflow \<Rightarrow> string \<Rightarrow> connection_filter \<Rightarrow> int \<Rightarrow> string list res" where
  "getParentNodes w nodeName type depth =
     getConnectedNodes (wf_connectionsByDestinationNode w) nodeName type depth"

section \<open>Highest nodes\<close>

text \<open>
  The array \<open>checkedNodes\<close> is one object shared by the whole recursion, so the model passes it
  through: the result is the list returned and the array afterwards.
\<close>

fun getHighestNode_fuel ::
  "nat \<Rightarrow> Workflow \<Rightarrow> string \<Rightarrow> NodeConnectionType \<Rightarrow> nat option \<Rightarrow> string list \<Rightarrow>
   (string list \<times> string list) res" where
  "getHighestNode_fuel 0 w nodeName type nodeConnectionIndex checkedNodes = Inl OutOfFuel"
| "getHighestNode_fuel (Suc fuel) w nodeName type nodeConnectionIndex checkedNodes =
     (case map_of (wf_nodes w) nodeName of
        None \<Rightarrow> Inl TypeError
      | Some node \<Rightarrow>
          let currentHighest = (if node_disabled node = Some False then [nodeName] else []) in
          case connections_at (wf_connectionsByDestinationNode w) nodeName type of
            None \<Rightarrow> Inr (currentHighest, checkedNodes)
          | Some arr \<Rightarrow>
              if nodeName \<in> set checkedNodes then Inr (currentHighest, checkedNodes)
              else
                fold_res (\<lambda>(returnNodes, checked) connection.
                  if ic_node connection \<in> set checked then Inr (returnNodes, checked)
                  else res_bind
                    (getHighestNode_fuel fuel w (ic_node connection) type None checked)
                    (\<lambda>(addNodes, checked').
                      case map_of (wf_nodes w) (ic_node connection) of
                        None \<Rightarrow> Inl TypeError
                      | Some parent \<Rightarrow>
                          let addNodes' =
                                (if addNodes = [] \<and> node_disabled parent \<noteq> Some True
                                 then [ic_node connection] else addNodes)
                          in Inr (foldl (\<lambda>ret name. set_add name ret) returnNodes addNodes', checked')))
                ([], checkedNodes @ [nodeName])
                (concat (map (\<lambda>(connectionIndex, cs).
                   if nodeConnectionIndex \<noteq> None \<and> nodeConnectionIndex \<noteq> Some connectionIndex
                   then [] else flat_entry cs) (enumerate 0 arr))))"

definition getHighestNode ::
  "Workflow \<Rightarrow> string \<Rightarrow> NodeConnectionType \<Rightarrow> nat option \<Rightarrow> string list res" where
  "getHighestNode w nodeName type nodeConnectionIndex =
     res_bind (getHighestNode_fuel (Suc (Suc (length (wf_connectionsByDestinationNode w)))) w
                 nodeName type nodeConnectionIndex [])
       (\<lambda>(ret, _). Inr ret)"

section \<open>Breadth-first search\<close>

text \<open>
  \<open>visited\<close> maps a name to the queue entry first met for it. The same object is in the result
  list, and a later visit replaces its \<open>indicies\<close>: the model keeps the objects in \<open>visited\<close> and
  the result as a list of names, and reads the objects at the end.
\<close>

definition dedupe :: "'a list \<Rightarrow> 'a list" where
  "dedupe arr = js_set_of arr"

record bfs_state =
  bfs_queue :: "IConnectedNode list"
  bfs_visited :: "(string, IConnectedNode) js_map"
  bfs_return :: "string list"

definition bfs_visit ::
  "IConnections \<Rightarrow> string \<Rightarrow> nat \<Rightarrow> bfs_state \<Rightarrow> IConnectedNode \<Rightarrow> bfs_state" where
  "bfs_visit connections sourceNode depth st cur =
     (case map_of (bfs_visited st) (cn_name cur) of
        Some v \<Rightarrow>
          st\<lparr>bfs_visited := map_set (cn_name cur)
               (v\<lparr>cn_indicies := dedupe (cn_indicies v @ cn_indicies cur)\<rparr>) (bfs_visited st)\<rparr>
      | None \<Rightarrow>
          let st1 = st\<lparr>bfs_visited := map_set (cn_name cur) cur (bfs_visited st),
                       bfs_return := (if cn_name cur \<noteq> sourceNode
                                      then bfs_return st @ [cn_name cur] else bfs_return st)\<rparr>
          in case connections_at connections (cn_name cur) Main of
               None \<Rightarrow> st1
             | Some arr \<Rightarrow>
                 st1\<lparr>bfs_queue := bfs_queue st1 @
                   map (\<lambda>connection. \<lparr>cn_name = ic_node connection,
                          cn_indicies = [ic_index connection], cn_depth = depth\<rparr>)
                     (concat (map flat_entry arr))\<rparr>)"

fun bfs_loop :: "nat \<Rightarrow> IConnections \<Rightarrow> string \<Rightarrow> int \<Rightarrow> nat \<Rightarrow> bfs_state \<Rightarrow> bfs_state res" where
  "bfs_loop 0 connections sourceNode maxDepth depth st = Inl OutOfFuel"
| "bfs_loop (Suc fuel) connections sourceNode maxDepth depth st =
     (if bfs_queue st = [] then Inr st
      else if maxDepth \<noteq> -1 \<and> int depth > maxDepth then Inr st
      else bfs_loop fuel connections sourceNode maxDepth (Suc depth)
             (foldl (bfs_visit connections sourceNode (Suc depth)) (st\<lparr>bfs_queue := []\<rparr>)
                (bfs_queue st)))"

definition searchNodesBFS :: "IConnections \<Rightarrow> string \<Rightarrow> int \<Rightarrow> IConnectedNode list res" where
  "searchNodesBFS connections sourceNode maxDepth =
     res_bind
       (bfs_loop (length (flat_connections connections) + 3) connections sourceNode maxDepth 0
          \<lparr>bfs_queue = [\<lparr>cn_name = sourceNode, cn_indicies = [], cn_depth = 0\<rparr>],
           bfs_visited = [], bfs_return = []\<rparr>)
       (\<lambda>st. Inr (List.map_filter (\<lambda>name. map_of (bfs_visited st) name) (bfs_return st)))"

definition getParentNodesByDepth :: "Workflow \<Rightarrow> string \<Rightarrow> int \<Rightarrow> IConnectedNode list res" where
  "getParentNodesByDepth w nodeName maxDepth =
     searchNodesBFS (wf_connectionsByDestinationNode w) nodeName maxDepth"

section \<open>Connection indexes\<close>

text \<open>Again with the shared array \<open>checkedNodes\<close> passed through; the loops stop at the first hit.\<close>

fun getNodeConnectionIndexes_fuel ::
  "nat \<Rightarrow> Workflow \<Rightarrow> string \<Rightarrow> string \<Rightarrow> NodeConnectionType \<Rightarrow> int \<Rightarrow> string list \<Rightarrow>
   (INodeConnection option \<times> string list) res" where
  "getNodeConnectionIndexes_fuel 0 w nodeName parentNodeName type depth checkedNodes = Inl OutOfFuel"
| "getNodeConnectionIndexes_fuel (Suc fuel) w nodeName parentNodeName type depth checkedNodes =
     (if getNode w parentNodeName = None then Inr (None, checkedNodes)
      else
        let newDepth = (if depth = -1 then depth else depth - 1) in
        if depth = 0 then Inr (None, checkedNodes)
        else case connections_at (wf_connectionsByDestinationNode w) nodeName type of
          None \<Rightarrow> Inr (None, checkedNodes)
        | Some arr \<Rightarrow>
            if nodeName \<in> set checkedNodes then Inr (None, checkedNodes)
            else
              fold_res (\<lambda>(found, checked) (destinationIndex, connection).
                if found \<noteq> None then Inr (found, checked)
                else if parentNodeName = ic_node connection then
                  Inr (Some \<lparr>nc_sourceIndex = ic_index connection,
                             nc_destinationIndex = destinationIndex\<rparr>, checked)
                else if ic_node connection \<in> set checked then Inr (None, checked)
                else getNodeConnectionIndexes_fuel fuel w (ic_node connection) parentNodeName
                       type newDepth checked)
              (None, checkedNodes @ [nodeName])
              (concat (map (\<lambda>cs. enumerate 0 (flat_entry cs)) arr)))"

definition getNodeConnectionIndexes ::
  "Workflow \<Rightarrow> string \<Rightarrow> string \<Rightarrow> NodeConnectionType \<Rightarrow> int \<Rightarrow> INodeConnection option res" where
  "getNodeConnectionIndexes w nodeName parentNodeName type depth =
     res_bind (getNodeConnectionIndexes_fuel
                 (Suc (Suc (length (wf_connectionsByDestinationNode w)))) w
                 nodeName parentNodeName type depth [])
       (\<lambda>(found, _). Inr found)"

section \<open>Start node\<close>

definition STARTING_NODE_TYPES :: "string list" where
  "STARTING_NODE_TYPES =
     [''n8n-nodes-base.manualTrigger'', ''n8n-nodes-base.executeWorkflowTrigger'',
      ''n8n-nodes-base.errorTrigger'', ''n8n-nodes-base.start'']"

definition MANUAL_CHAT_TRIGGER_LANGCHAIN_NODE_TYPE :: string where
  "MANUAL_CHAT_TRIGGER_LANGCHAIN_NODE_TYPE = ''@n8n/n8n-nodes-langchain.manualChatTrigger''"

definition starting_rank :: "INode \<Rightarrow> int" where
  "starting_rank n =
     (case find_index (\<lambda>t. t = node_type n) STARTING_NODE_TYPES of None \<Rightarrow> -1 | Some i \<Rightarrow> int i)"

text \<open>The first loop of \<open>__getStartNode\<close>: \<open>Some node\<close> when it returns.\<close>

fun start_node_trigger :: "Workflow \<Rightarrow> bool \<Rightarrow> string list \<Rightarrow> INode option res" where
  "start_node_trigger w single [] = Inr None"
| "start_node_trigger w single (nodeName # rest) =
     (case map_of (wf_nodes w) nodeName of
        None \<Rightarrow> Inl TypeError
      | Some node \<Rightarrow>
          if single \<and> \<not> is_disabled node then Inr (Some node)
          else case wf_nodeTypes w (node_type node) (node_typeVersion node) of
            None \<Rightarrow> Inl TypeError
          | Some nodeType \<Rightarrow>
              if nt_name nodeType = MANUAL_CHAT_TRIGGER_LANGCHAIN_NODE_TYPE
              then start_node_trigger w single rest
              else if nt_trigger nodeType \<or> nt_poll nodeType then
                (if node_disabled node = Some True then start_node_trigger w single rest
                 else Inr (Some node))
              else start_node_trigger w single rest)"

fun start_node_by_type :: "Workflow \<Rightarrow> string list \<Rightarrow> INode option res" where
  "start_node_by_type w [] = Inr None"
| "start_node_by_type w (nodeName # rest) =
     (case map_of (wf_nodes w) nodeName of
        None \<Rightarrow> Inl TypeError
      | Some node \<Rightarrow>
          if node_type node \<in> set STARTING_NODE_TYPES then
            (if node_disabled node = Some True then start_node_by_type w rest
             else Inr (Some node))
          else start_node_by_type w rest)"

definition getStartNode_of :: "Workflow \<Rightarrow> string list \<Rightarrow> INode option res" where
  "getStartNode_of w nodeNames =
     res_bind (start_node_trigger w (length nodeNames = 1) nodeNames) (\<lambda>found.
       case found of Some node \<Rightarrow> Inr (Some node) | None \<Rightarrow>
         start_node_by_type w (map node_name (sort_key starting_rank (map_values (wf_nodes w)))))"

definition getStartNode :: "Workflow \<Rightarrow> string option \<Rightarrow> INode option res" where
  "getStartNode w destinationNode =
     (case destinationNode of
        Some dest \<Rightarrow>
          if dest = [] then getStartNode_of w (map_keys (wf_nodes w))
          else
            res_bind (getHighestNode w dest Main None) (\<lambda>highest.
              let nodeNames = (if highest = [] then [dest] else highest) in
              res_bind (getStartNode_of w nodeNames) (\<lambda>node.
                case node of
                  Some n \<Rightarrow> Inr (Some n)
                | None \<Rightarrow> Inr (map_of (wf_nodes w) (hd nodeNames))))
      | None \<Rightarrow> getStartNode_of w (map_keys (wf_nodes w)))"

end
