(* ===== verification/DirectedGraph.thy ===== *)
theory DirectedGraph
  imports WorkflowGraph
begin

text \<open>
  The class \<open>DirectedGraph\<close> (\<open>packages/core/src/execution-engine/partial-execution-utils/
  directed-graph.ts\<close>): a graph as a map of nodes by name and a map of connections by a key
  that is built from the connection. Failed assertions are the error \<open>AssertionError\<close>, reads
  of a property of \<open>undefined\<close> the error \<open>TypeError\<close>.

  Recursive walks take fuel; the public operations give them one more than the number of
  connections (or nodes), and the lemmas of \<open>GraphWalks\<close> show that this is enough.
\<close>

section \<open>Data and keys\<close>

record GraphConnection =
  gc_from :: INode
  gc_to :: INode
  gc_type :: NodeConnectionType
  gc_outputIndex :: nat
  gc_inputIndex :: nat

text \<open>The argument of \<open>addConnection\<close>: everything but the two nodes may be left out.\<close>

record ConnectionInput =
  ci_from :: INode
  ci_to :: INode
  ci_type :: "NodeConnectionType option"
  ci_outputIndex :: "nat option"
  ci_inputIndex :: "nat option"

definition input_of :: "GraphConnection \<Rightarrow> ConnectionInput" where
  "input_of c = \<lparr>ci_from = gc_from c, ci_to = gc_to c, ci_type = Some (gc_type c),
     ci_outputIndex = Some (gc_outputIndex c), ci_inputIndex = Some (gc_inputIndex c)\<rparr>"

record DirectedGraph =
  dg_nodes :: "(string, INode) js_map"
  dg_connections :: "(string, GraphConnection) js_map"

record RemoveNodeOptions =
  reconnectConnections :: bool
  skipConnectionFn :: "(GraphConnection \<Rightarrow> bool) option"

definition makeKey :: "GraphConnection \<Rightarrow> string" where
  "makeKey c = node_name (gc_from c) @ ''-'' @ conn_type_str (gc_type c) @ ''-'' @
     nat_str (gc_outputIndex c) @ ''-'' @ nat_str (gc_inputIndex c) @ ''-'' @
     node_name (gc_to c)"

definition empty_graph :: DirectedGraph where
  "empty_graph = \<lparr>dg_nodes = [], dg_connections = []\<rparr>"

section \<open>Nodes and connections\<close>

definition hasNode :: "DirectedGraph \<Rightarrow> string \<Rightarrow> bool" where
  "hasNode g nodeName = map_has (dg_nodes g) nodeName"

definition getNodes :: "DirectedGraph \<Rightarrow> (string, INode) js_map" where
  "getNodes g = dg_nodes g"

definition getConnections :: "DirectedGraph \<Rightarrow> INode option \<Rightarrow> GraphConnection list" where
  "getConnections g to_filter =
     filter (\<lambda>c. case to_filter of None \<Rightarrow> True | Some n \<Rightarrow> gc_to c = n)
       (map_values (dg_connections g))"

definition addNode :: "DirectedGraph \<Rightarrow> INode \<Rightarrow> DirectedGraph" where
  "addNode g node = g\<lparr>dg_nodes := map_set (node_name node) node (dg_nodes g)\<rparr>"

definition addNodes :: "DirectedGraph \<Rightarrow> INode list \<Rightarrow> DirectedGraph" where
  "addNodes g nodes = foldl addNode g nodes"

text \<open>\<open>this.nodes.get(node.name) === node\<close>.\<close>

definition node_in :: "DirectedGraph \<Rightarrow> INode \<Rightarrow> bool" where
  "node_in g node = (map_of (dg_nodes g) (node_name node) = Some node)"

definition put_connection :: "DirectedGraph \<Rightarrow> GraphConnection \<Rightarrow> DirectedGraph" where
  "put_connection g c = g\<lparr>dg_connections := map_set (makeKey c) c (dg_connections g)\<rparr>"

definition addConnection :: "DirectedGraph \<Rightarrow> ConnectionInput \<Rightarrow> DirectedGraph res" where
  "addConnection g ci =
     res_bind (assert_ok (node_in g (ci_from ci))) (\<lambda>_.
     res_bind (assert_ok (node_in g (ci_to ci))) (\<lambda>_.
       Inr (put_connection g
         \<lparr>gc_from = ci_from ci, gc_to = ci_to ci,
          gc_type = (case ci_type ci of None \<Rightarrow> Main | Some t \<Rightarrow> t),
          gc_outputIndex = (case ci_outputIndex ci of None \<Rightarrow> 0 | Some i \<Rightarrow> i),
          gc_inputIndex = (case ci_inputIndex ci of None \<Rightarrow> 0 | Some i \<Rightarrow> i)\<rparr>)))"

definition addConnections :: "DirectedGraph \<Rightarrow> ConnectionInput list \<Rightarrow> DirectedGraph res" where
  "addConnections g inputs = fold_res addConnection g inputs"

definition getDirectChildConnections :: "DirectedGraph \<Rightarrow> INode \<Rightarrow> GraphConnection list res" where
  "getDirectChildConnections g node =
     res_bind (assert_ok (node_in g node)) (\<lambda>_.
       Inr (filter (\<lambda>c. gc_from c = node) (map_values (dg_connections g))))"

definition getDirectParentConnections :: "DirectedGraph \<Rightarrow> INode \<Rightarrow> GraphConnection list res" where
  "getDirectParentConnections g node =
     res_bind (assert_ok (node_in g node)) (\<lambda>_.
       Inr (filter (\<lambda>c. gc_to c = node) (map_values (dg_connections g))))"

definition getConnection ::
  "DirectedGraph \<Rightarrow> INode \<Rightarrow> nat \<Rightarrow> NodeConnectionType \<Rightarrow> nat \<Rightarrow> INode \<Rightarrow> GraphConnection option" where
  "getConnection g frm outputIndex type inputIndex to_node =
     map_of (dg_connections g)
       (makeKey \<lparr>gc_from = frm, gc_to = to_node, gc_type = type,
                 gc_outputIndex = outputIndex, gc_inputIndex = inputIndex\<rparr>)"

section \<open>Removing a node\<close>

definition drop_connections_of :: "DirectedGraph \<Rightarrow> INode \<Rightarrow> DirectedGraph" where
  "drop_connections_of g node =
     g\<lparr>dg_connections :=
         filter (\<lambda>(key, c). \<not> (gc_to c = node \<or> gc_from c = node)) (dg_connections g)\<rparr>"

definition skips :: "RemoveNodeOptions \<Rightarrow> GraphConnection \<Rightarrow> bool" where
  "skips options c = (case skipConnectionFn options of None \<Rightarrow> False | Some f \<Rightarrow> f c)"

definition reconnections ::
  "RemoveNodeOptions \<Rightarrow> GraphConnection list \<Rightarrow> GraphConnection list \<Rightarrow> GraphConnection list" where
  "reconnections options incoming outgoing =
     concat (map (\<lambda>i. map (\<lambda>out. i\<lparr>gc_to := gc_to out, gc_inputIndex := gc_inputIndex out\<rparr>)
         (filter (\<lambda>out. \<not> skips options out) outgoing))
       (filter (\<lambda>i. \<not> skips options i) incoming))"

definition removeNode ::
  "DirectedGraph \<Rightarrow> INode \<Rightarrow> RemoveNodeOptions \<Rightarrow> (DirectedGraph \<times> GraphConnection list option) res" where
  "removeNode g node options =
     (if reconnectConnections options then
        res_bind (getDirectParentConnections g node) (\<lambda>incomingConnections.
        res_bind (getDirectChildConnections g node) (\<lambda>outgoingConnections.
          let newConnections = reconnections options incomingConnections outgoingConnections;
              g1 = drop_connections_of g node;
              g2 = foldl put_connection g1 newConnections;
              g3 = g2\<lparr>dg_nodes := map_delete (node_name node) (dg_nodes g2)\<rparr>
          in Inr (g3, Some newConnections)))
      else
        let g1 = drop_connections_of g node
        in Inr (g1\<lparr>dg_nodes := map_delete (node_name node) (dg_nodes g1)\<rparr>, None))"

section \<open>Walks\<close>

fun getChildrenRecursive ::
  "nat \<Rightarrow> DirectedGraph \<Rightarrow> INode \<Rightarrow> INode js_set \<Rightarrow> INode js_set res" where
  "getChildrenRecursive 0 g node children = Inl OutOfFuel"
| "getChildrenRecursive (Suc fuel) g node children =
     res_bind (getDirectChildConnections g node) (\<lambda>directChildren.
       fold_res (\<lambda>children directChild.
         if gc_to directChild \<in> set children then Inr children
         else getChildrenRecursive fuel g (gc_to directChild) (children @ [gc_to directChild]))
       children directChildren)"

definition getChildren :: "DirectedGraph \<Rightarrow> INode \<Rightarrow> INode js_set res" where
  "getChildren g node = getChildrenRecursive (Suc (length (dg_connections g))) g node []"

fun getParentConnectionsRecursive ::
  "nat \<Rightarrow> DirectedGraph \<Rightarrow> INode \<Rightarrow> GraphConnection js_set \<Rightarrow> GraphConnection js_set res" where
  "getParentConnectionsRecursive 0 g node connections = Inl OutOfFuel"
| "getParentConnectionsRecursive (Suc fuel) g node connections =
     res_bind (getDirectParentConnections g node) (\<lambda>parentConnections.
       fold_res (\<lambda>connections connection.
         if connection \<in> set connections then Inr connections
         else getParentConnectionsRecursive fuel g (gc_from connection) (connections @ [connection]))
       connections parentConnections)"

definition getParentConnections :: "DirectedGraph \<Rightarrow> INode \<Rightarrow> GraphConnection js_set res" where
  "getParentConnections g node =
     getParentConnectionsRecursive (Suc (length (dg_connections g))) g node []"

text \<open>
  The set \<open>seen\<close> is one object shared by the recursion, so it is passed through; the loop over
  the children stops at the first hit.
\<close>

fun depthFirstSearchRecursive ::
  "nat \<Rightarrow> DirectedGraph \<Rightarrow> INode \<Rightarrow> (INode \<Rightarrow> bool) \<Rightarrow> INode js_set \<Rightarrow> (INode option \<times> INode js_set) res" where
  "depthFirstSearchRecursive 0 g frm fn seen = Inl OutOfFuel"
| "depthFirstSearchRecursive (Suc fuel) g frm fn seen =
     (if frm \<in> set seen then Inr (None, seen)
      else if fn frm then Inr (Some frm, seen @ [frm])
      else res_bind (getDirectChildConnections g frm) (\<lambda>children.
        fold_res (\<lambda>(found, seen) childConnection.
          if found \<noteq> None then Inr (found, seen)
          else depthFirstSearchRecursive fuel g (gc_to childConnection) fn seen)
        (None, seen @ [frm]) children))"

definition depthFirstSearch ::
  "DirectedGraph \<Rightarrow> INode \<Rightarrow> (INode \<Rightarrow> bool) \<Rightarrow> INode option res" where
  "depthFirstSearch g frm fn =
     res_bind (depthFirstSearchRecursive (Suc (Suc (length (dg_nodes g)))) g frm fn [])
       (\<lambda>(found, _). Inr found)"

section \<open>Strongly connected components\<close>

text \<open>
  The variables that the closure \<open>followNode\<close> shares: the next id, the visited nodes, their ids
  and low-link values, the stack (its last element on top) and the components found so far.
\<close>

record scc_state =
  scc_id :: nat
  scc_visited :: "INode js_set"
  scc_ids :: "(INode, nat) js_map"
  scc_low :: "(INode, nat) js_map"
  scc_stack :: "INode list"
  scc_found :: "INode js_set list"

definition scc_init :: scc_state where
  "scc_init = \<lparr>scc_id = 0, scc_visited = [], scc_ids = [], scc_low = [],
               scc_stack = [], scc_found = []\<rparr>"

definition scc_enter :: "scc_state \<Rightarrow> INode \<Rightarrow> scc_state" where
  "scc_enter st node =
     st\<lparr>scc_visited := set_add node (scc_visited st),
        scc_low := map_set node (scc_id st) (scc_low st),
        scc_ids := map_set node (scc_id st) (scc_ids st),
        scc_id := Suc (scc_id st),
        scc_stack := scc_stack st @ [node]\<rparr>"

definition scc_min_low :: "scc_state \<Rightarrow> INode \<Rightarrow> INode \<Rightarrow> scc_state res" where
  "scc_min_low st node child =
     (if child \<in> set (scc_stack st) then
        (case (map_of (scc_low st) child, map_of (scc_low st) node) of
           (Some childLow, Some ownLow) \<Rightarrow>
             Inr (st\<lparr>scc_low := map_set node (min childLow ownLow) (scc_low st)\<rparr>)
         | _ \<Rightarrow> Inl AssertionError)
      else Inr st)"

text \<open>
  The loop that pops: it runs while the stack is not empty and the low-link value of its top is
  \<open>ownId\<close>. The first argument is the stack reversed, its top first.
\<close>

fun scc_pop :: "INode list \<Rightarrow> (INode, nat) js_map \<Rightarrow> nat \<Rightarrow> INode js_set \<Rightarrow> INode list \<times> INode js_set" where
  "scc_pop [] low ownId scc = ([], scc)"
| "scc_pop (next # rest) low ownId scc =
     (if map_of low next = Some ownId then scc_pop rest low ownId (set_add next scc)
      else (next # rest, scc))"

definition scc_finish :: "scc_state \<Rightarrow> INode \<Rightarrow> scc_state res" where
  "scc_finish st node =
     (case (map_of (scc_ids st) node, map_of (scc_low st) node) of
        (Some ownId, Some ownLow) \<Rightarrow>
          if ownId = ownLow then
            (case scc_pop (rev (scc_stack st)) (scc_low st) ownId [] of
               (rest, scc) \<Rightarrow>
                 Inr (st\<lparr>scc_stack := rev rest,
                         scc_found := (if length scc > 0 then scc_found st @ [scc]
                                       else scc_found st)\<rparr>))
          else Inr st
      | _ \<Rightarrow> Inl AssertionError)"

fun followNode :: "nat \<Rightarrow> DirectedGraph \<Rightarrow> scc_state \<Rightarrow> INode \<Rightarrow> scc_state res" where
  "followNode 0 g st node = Inl OutOfFuel"
| "followNode (Suc fuel) g st node =
     (if node \<in> set (scc_visited st) then Inr st
      else res_bind (getDirectChildConnections g node) (\<lambda>cs.
        res_bind
          (fold_res (\<lambda>st child.
              res_bind (followNode fuel g st child) (\<lambda>st'. scc_min_low st' node child))
            (scc_enter st node) (map gc_to cs))
          (\<lambda>st'. scc_finish st' node)))"

definition getStronglyConnectedComponents :: "DirectedGraph \<Rightarrow> INode js_set list res" where
  "getStronglyConnectedComponents g =
     res_bind (fold_res (followNode (Suc (Suc (length (dg_nodes g)))) g) scc_init (map_values (dg_nodes g)))
       (\<lambda>st. Inr (scc_found st))"

section \<open>Import and export\<close>

definition getNode_ok :: "Workflow \<Rightarrow> string \<Rightarrow> INode res" where
  "getNode_ok w nodeName = (case getNode w nodeName of None \<Rightarrow> Inl AssertionError | Some n \<Rightarrow> Inr n)"

definition fromWorkflow :: "Workflow \<Rightarrow> DirectedGraph res" where
  "fromWorkflow w =
     fold_res (\<lambda>g (fromNodeName, iConnection).
         res_bind (getNode_ok w fromNodeName) (\<lambda>from_node.
           fold_res (\<lambda>g (outputType, outputIndex, conn).
             res_bind (getNode_ok w (ic_node conn)) (\<lambda>to_node.
               addConnection g \<lparr>ci_from = from_node, ci_to = to_node, ci_type = Some outputType,
                 ci_outputIndex = Some outputIndex, ci_inputIndex = Some (ic_index conn)\<rparr>))
           g (flat_types iConnection)))
       (addNodes empty_graph (map_values (wf_nodes w)))
       (wf_connectionsBySourceNode w)"

text \<open>
  \<open>result[from.name] ?? { [type]: [] }\<close> gives a node without an entry a table with only the type
  of its first connection; a connection of another type then reads a property of \<open>undefined\<close>.
\<close>

definition toIConnections_step :: "IConnections \<Rightarrow> GraphConnection \<Rightarrow> IConnections res" where
  "toIConnections_step result c =
     (let fromName = node_name (gc_from c);
          resultConnection = (case map_of result fromName of
                                None \<Rightarrow> [(gc_type c, [])] | Some rc \<Rightarrow> rc)
      in case map_of resultConnection (gc_type c) of
           None \<Rightarrow> Inl TypeError
         | Some arr \<Rightarrow>
             let group = (case js_nth arr (gc_outputIndex c) of Some (Some grp) \<Rightarrow> grp | _ \<Rightarrow> []);
                 group' = group @ [\<lparr>ic_node = node_name (gc_to c), ic_type = gc_type c,
                                    ic_index = gc_inputIndex c\<rparr>]
             in Inr (map_set fromName
                  (map_set (gc_type c) (js_array_set (gc_outputIndex c) (Some group') arr)
                    resultConnection) result))"

definition toIConnections :: "DirectedGraph \<Rightarrow> IConnections res" where
  "toIConnections g = fold_res toIConnections_step [] (map_values (dg_connections g))"

text \<open>
  The constructor of \<open>Workflow\<close> as far as the graph goes: nodes by name, both connection tables.
  Filling in the default parameters of each node is left to the argument \<open>add_defaults\<close>.
\<close>

definition new_Workflow ::
  "(string \<Rightarrow> rat \<Rightarrow> INodeType option) \<Rightarrow> (INodeType \<Rightarrow> INode \<Rightarrow> INode) \<Rightarrow> IPinData option \<Rightarrow>
   string option \<Rightarrow> INode list \<Rightarrow> IConnections \<Rightarrow> Workflow" where
  "new_Workflow nodeTypes add_defaults pinData executionOrder nodes connections =
     \<lparr>wf_nodes = foldl (\<lambda>m node. map_set (node_name node)
          (case nodeTypes (node_type node) (node_typeVersion node) of
             None \<Rightarrow> node | Some nodeType \<Rightarrow> add_defaults nodeType node) m) [] nodes,
      wf_connectionsBySourceNode = connections,
      wf_connectionsByDestinationNode = getConnectionsByDestination connections,
      wf_nodeTypes = nodeTypes,
      wf_pinData = pinData,
      wf_executionOrder = executionOrder\<rparr>"

definition toWorkflow ::
  "(INodeType \<Rightarrow> INode \<Rightarrow> INode) \<Rightarrow> Workflow \<Rightarrow> DirectedGraph \<Rightarrow> Workflow res" where
  "toWorkflow add_defaults w g =
     res_bind (toIConnections g) (\<lambda>connections.
       Inr (new_Workflow (wf_nodeTypes w) add_defaults (wf_pinData w) (wf_executionOrder w)
              (map_values (dg_nodes g)) connections))"

definition clone :: "DirectedGraph \<Rightarrow> DirectedGraph res" where
  "clone g =
     addConnections (addNodes empty_graph (map_values (getNodes g)))
       (map input_of (getConnections g None))"

end
