(* ===== verification/GraphInvariant.thy ===== *)
theory GraphInvariant
  imports DirectedGraph
begin

text \<open>
  The representation invariant of \<open>DirectedGraph\<close>: nodes are stored under their names,
  connections under their keys, and both ends of every connection are nodes of the graph. Every
  operation that builds a graph keeps it; removing a node keeps it when the node has no
  connection to itself. The keys identify connections as long as node names have no hyphen.
\<close>

named_theorems wfg "facts about the representation invariant of graphs"

definition graph_edges :: "DirectedGraph \<Rightarrow> (INode \<times> INode) set" where
  "graph_edges g = (\<lambda>c. (gc_from c, gc_to c)) ` set (map_values (dg_connections g))"

definition wf_graph :: "DirectedGraph \<Rightarrow> bool" where
  "wf_graph g \<longleftrightarrow>
     distinct (map_keys (dg_nodes g)) \<and>
     (\<forall>(key, n) \<in> set (dg_nodes g). key = node_name n) \<and>
     distinct (map_keys (dg_connections g)) \<and>
     (\<forall>(key, c) \<in> set (dg_connections g).
        key = makeKey c \<and> node_in g (gc_from c) \<and> node_in g (gc_to c))"

lemma wf_graphI [intro]:
  assumes "distinct (map_keys (dg_nodes g))"
    and "\<And>key n. (key, n) \<in> set (dg_nodes g) \<Longrightarrow> key = node_name n"
    and "distinct (map_keys (dg_connections g))"
    and "\<And>key c. (key, c) \<in> set (dg_connections g) \<Longrightarrow>
           key = makeKey c \<and> node_in g (gc_from c) \<and> node_in g (gc_to c)"
  shows "wf_graph g"
  using assms unfolding wf_graph_def by fast

lemma wf_graphD:
  assumes "wf_graph g"
  shows "distinct (map_keys (dg_nodes g))"
    and "(key, n) \<in> set (dg_nodes g) \<Longrightarrow> key = node_name n"
    and "distinct (map_keys (dg_connections g))"
    and "(key, c) \<in> set (dg_connections g) \<Longrightarrow> key = makeKey c"
    and "(key, c) \<in> set (dg_connections g) \<Longrightarrow> node_in g (gc_from c)"
    and "(key, c) \<in> set (dg_connections g) \<Longrightarrow> node_in g (gc_to c)"
  using assms unfolding wf_graph_def by fast+

lemma node_in_iff: "wf_graph g \<Longrightarrow> node_in g n \<longleftrightarrow> n \<in> set (map_values (dg_nodes g))"
proof
  assume "wf_graph g" "node_in g n"
  then show "n \<in> set (map_values (dg_nodes g))"
    unfolding node_in_def by (force dest: map_of_SomeD)
next
  assume wf: "wf_graph g" and "n \<in> set (map_values (dg_nodes g))"
  then obtain key where k: "(key, n) \<in> set (dg_nodes g)" by auto
  moreover have "key = node_name n" using wf_graphD(2) [OF wf k] .
  ultimately show "node_in g n"
    unfolding node_in_def using wf_graphD(1) [OF wf] by (simp add: map_of_is_SomeI)
qed

lemma graph_edges_iff:
  "(a, b) \<in> graph_edges g \<longleftrightarrow> (\<exists>key c. (key, c) \<in> set (dg_connections g) \<and> gc_from c = a \<and> gc_to c = b)"
  by (force simp: graph_edges_def)

lemma edge_nodes [wfg]:
  assumes "wf_graph g" "(m, n) \<in> graph_edges g"
  shows "node_in g m" "node_in g n"
  using assms(2) wf_graphD(5,6) [OF assms(1)] by (auto simp: graph_edges_def)

lemma wf_empty_graph [simp, wfg]: "wf_graph empty_graph"
  by (simp add: wf_graph_def empty_graph_def)

section \<open>Building a graph\<close>

lemma node_in_addNode:
  "node_in (addNode g n) m \<longleftrightarrow> m = n \<or> (node_name m \<noteq> node_name n \<and> node_in g m)"
  by (auto simp: node_in_def addNode_def)

text \<open>
  \<open>addNode\<close> replaces a node of the same name, and the invariant is lost if the replaced node still
  has connections; a fresh name is what the callers use.
\<close>

lemma wf_addNode [wfg]:
  assumes wf: "wf_graph g"
    and fresh: "map_of (dg_nodes g) (node_name n) \<in> {None, Some n}"
  shows "wf_graph (addNode g n)"
proof (rule wf_graphI)
  fix key c
  assume "(key, c) \<in> set (dg_connections (addNode g n))"
  then have c: "(key, c) \<in> set (dg_connections g)" by (simp add: addNode_def)
  have "node_in (addNode g n) m" if "node_in g m" for m
    using that fresh by (auto simp: node_in_def addNode_def)
  with wf_graphD(4-6) [OF wf c]
  show "key = makeKey c \<and> node_in (addNode g n) (gc_from c) \<and> node_in (addNode g n) (gc_to c)"
    by blast
next
  fix key m
  assume "(key, m) \<in> set (dg_nodes (addNode g n))"
  then have "(key, m) \<in> insert (node_name n, n) (set (dg_nodes g))"
    unfolding addNode_def using set_map_set_subset by fastforce
  then show "key = node_name m" using wf_graphD(2) [OF wf] by auto
qed (use wf_graphD(1,3) [OF wf] in \<open>auto simp: addNode_def\<close>)

lemma wf_put_connection [wfg]:
  assumes wf: "wf_graph g" and "node_in g (gc_from c)" "node_in g (gc_to c)"
  shows "wf_graph (put_connection g c)"
proof (rule wf_graphI)
  fix key d
  assume "(key, d) \<in> set (dg_connections (put_connection g c))"
  then have "(key, d) \<in> insert (makeKey c, c) (set (dg_connections g))"
    unfolding put_connection_def using set_map_set_subset by fastforce
  moreover have "node_in (put_connection g c) m \<longleftrightarrow> node_in g m" for m
    by (simp add: node_in_def put_connection_def)
  ultimately show "key = makeKey d \<and> node_in (put_connection g c) (gc_from d) \<and>
      node_in (put_connection g c) (gc_to d)"
    using wf_graphD(4-6) [OF wf] assms(2,3) by auto
qed (use wf_graphD(1,3) [OF wf] wf_graphD(2) [OF wf] in \<open>auto simp: put_connection_def\<close>)

lemma wf_addConnection [wfg]:
  assumes "wf_graph g" "addConnection g ci = Inr h"
  shows "wf_graph h" "dg_nodes h = dg_nodes g"
  using assms by (auto simp: addConnection_def resI put_connection_def intro: wf_put_connection
      [unfolded put_connection_def])

lemma wf_addConnections [wfg]:
  assumes "wf_graph g" "addConnections g inputs = Inr h"
  shows "wf_graph h \<and> dg_nodes h = dg_nodes g"
  using assms(2) unfolding addConnections_def
  by (rule fold_res_invariant) (use assms(1) wf_addConnection in auto)

lemma addNodes_distinct:
  assumes "distinct (map node_name ns)"
    and "\<forall>n \<in> set ns. node_name n \<notin> fst ` set (dg_nodes g)"
  shows "addNodes g ns = g\<lparr>dg_nodes := dg_nodes g @ map (\<lambda>n. (node_name n, n)) ns\<rparr>"
  using assms
proof (induction ns arbitrary: g)
  case Nil
  then show ?case by (simp add: addNodes_def)
next
  case (Cons n ns)
  have 1: "addNode g n = g\<lparr>dg_nodes := dg_nodes g @ [(node_name n, n)]\<rparr>"
    using Cons.prems by (simp add: addNode_def map_set_fresh)
  have "addNodes (addNode g n) ns =
      (addNode g n)\<lparr>dg_nodes := dg_nodes (addNode g n) @ map (\<lambda>n. (node_name n, n)) ns\<rparr>"
    by (rule Cons.IH) (use Cons.prems 1 in \<open>auto simp: image_iff\<close>)
  then show ?case by (simp add: addNodes_def 1)
qed

definition wf_nodes_of :: "DirectedGraph \<Rightarrow> bool" where
  "wf_nodes_of g \<longleftrightarrow> distinct (map_keys (dg_nodes g)) \<and> (\<forall>e \<in> set (dg_nodes g). fst e = node_name (snd e))"

lemma wf_nodes_addNode: "wf_nodes_of g \<Longrightarrow> wf_nodes_of (addNode g n)"
  using set_map_set_subset [of "node_name n" n "dg_nodes g"]
  by (fastforce simp: wf_nodes_of_def addNode_def)

lemma wf_nodes_addNodes: "wf_nodes_of g \<Longrightarrow> wf_nodes_of (addNodes g ns)"
  by (induction ns arbitrary: g) (simp_all add: addNodes_def wf_nodes_addNode)

lemma dg_connections_addNodes [simp]: "dg_connections (addNodes g ns) = dg_connections g"
  by (induction ns arbitrary: g) (simp_all add: addNodes_def addNode_def)

lemma wf_addNodes_empty [wfg]: "wf_graph (addNodes empty_graph ns)"
proof -
  have "wf_nodes_of (addNodes empty_graph ns)"
    by (rule wf_nodes_addNodes) (simp add: wf_nodes_of_def empty_graph_def)
  then show ?thesis unfolding wf_graph_def wf_nodes_of_def
    by (force simp: empty_graph_def)
qed

lemma wf_fromWorkflow [wfg]:
  assumes "fromWorkflow w = Inr g"
  shows "wf_graph g"
  using assms unfolding fromWorkflow_def
proof (rule fold_res_invariant [where I = wf_graph])
  fix u x v
  assume "wf_graph u"
    and "(case x of (fromNodeName, iConnection) \<Rightarrow>
         res_bind (getNode_ok w fromNodeName) (\<lambda>from_node.
           fold_res (\<lambda>g (outputType, outputIndex, conn).
             res_bind (getNode_ok w (ic_node conn)) (\<lambda>to_node.
               addConnection g \<lparr>ci_from = from_node, ci_to = to_node, ci_type = Some outputType,
                 ci_outputIndex = Some outputIndex, ci_inputIndex = Some (ic_index conn)\<rparr>))
           u (flat_types iConnection))) = Inr v"
  then show "wf_graph v"
    by (auto simp: resI split: prod.splits
        elim!: fold_res_invariant [where I = wf_graph] dest: wf_addConnection(1))
qed (rule wfg)


section \<open>Keys\<close>

lemma nat_str_no_hyphen: "CHR ''-'' \<notin> set (nat_str n)"
proof
  assume "CHR ''-'' \<in> set (nat_str n)"
  then obtain d :: nat where "d < 10" "CHR ''-'' = char_of (48 + d)" using nat_str_digits by blast
  then have "(of_char (CHR ''-'') :: nat) = 48 + d" by simp
  then show False by simp
qed

lemma split_at_sep:
  assumes "xs @ c # ys = xs' @ c # ys'" "c \<notin> set xs" "c \<notin> set xs'"
  shows "xs = xs' \<and> ys = ys'"
  using assms
proof (induction xs arbitrary: xs')
  case Nil
  then show ?case by (cases xs') auto
next
  case (Cons x xs)
  then show ?case by (cases xs') auto
qed

definition key_safe :: "GraphConnection \<Rightarrow> bool" where
  "key_safe c = (CHR ''-'' \<notin> set (node_name (gc_from c)))"

lemma makeKey_eq:
  assumes "makeKey c = makeKey d" "key_safe c" "key_safe d"
  shows "node_name (gc_from c) = node_name (gc_from d)" "node_name (gc_to c) = node_name (gc_to d)"
    "gc_type c = gc_type d" "gc_outputIndex c = gc_outputIndex d" "gc_inputIndex c = gc_inputIndex d"
proof -
  have h: "makeKey e = node_name (gc_from e) @ CHR ''-'' # (conn_type_str (gc_type e) @ CHR ''-'' #
      (nat_str (gc_outputIndex e) @ CHR ''-'' # (nat_str (gc_inputIndex e) @ CHR ''-'' #
       node_name (gc_to e))))" for e
    by (simp add: makeKey_def)
  note e1 = split_at_sep [OF assms(1) [unfolded h] assms(2,3) [unfolded key_safe_def]]
  note e2 = split_at_sep [OF conjunct2 [OF e1] conn_type_str_no_hyphen conn_type_str_no_hyphen]
  note e3 = split_at_sep [OF conjunct2 [OF e2] nat_str_no_hyphen nat_str_no_hyphen]
  note e4 = split_at_sep [OF conjunct2 [OF e3] nat_str_no_hyphen nat_str_no_hyphen]
  show "node_name (gc_from c) = node_name (gc_from d)" "node_name (gc_to c) = node_name (gc_to d)"
    "gc_type c = gc_type d" "gc_outputIndex c = gc_outputIndex d" "gc_inputIndex c = gc_inputIndex d"
    using e1 e2 e3 e4 by (auto simp: conn_type_str_inj)
qed

lemma node_in_same_name: "node_in g m \<Longrightarrow> node_in g n \<Longrightarrow> node_name m = node_name n \<Longrightarrow> m = n"
  by (simp add: node_in_def)

text \<open>Two connections of one graph with the same key are the same connection.\<close>

lemma makeKey_inj_graph:
  assumes "makeKey c = makeKey d" "key_safe c" "key_safe d"
    and "node_in g (gc_from c)" "node_in g (gc_to c)" "node_in g (gc_from d)" "node_in g (gc_to d)"
  shows "c = d"
proof -
  note k = makeKey_eq [OF assms(1-3)]
  have "gc_from c = gc_from d" "gc_to c = gc_to d"
    using k(1,2) assms(4-7) node_in_same_name by blast+
  with k(3-5) show ?thesis by (intro GraphConnection.equality) auto
qed


section \<open>Removing a node\<close>

text \<open>No connection that would be reconnected leads from the node to itself.\<close>

definition no_self_connection :: "RemoveNodeOptions \<Rightarrow> DirectedGraph \<Rightarrow> INode \<Rightarrow> bool" where
  "no_self_connection options g n =
     (\<forall>c \<in> set (map_values (dg_connections g)). \<not> skips options c \<longrightarrow> \<not> (gc_from c = n \<and> gc_to c = n))"

definition drop_node :: "DirectedGraph \<Rightarrow> INode \<Rightarrow> DirectedGraph" where
  "drop_node g node = g\<lparr>dg_nodes := map_delete (node_name node) (dg_nodes g)\<rparr>"

lemma node_in_drop_node: "node_in (drop_node g n) m \<longleftrightarrow> node_in g m \<and> node_name m \<noteq> node_name n"
  by (auto simp: node_in_def drop_node_def)

lemma wf_drop_connections [wfg]: "wf_graph g \<Longrightarrow> wf_graph (drop_connections_of g n)"
  by (rule wf_graphI) (auto simp: drop_connections_of_def node_in_def distinct_map_filter
      dest: wf_graphD [unfolded node_in_def])

lemma node_in_put_connections [simp]: "node_in (foldl put_connection g cs) m = node_in g m"
  by (induction cs arbitrary: g) (simp_all add: node_in_def put_connection_def)

lemma node_in_drop_connections [simp]: "node_in (drop_connections_of g n) m = node_in g m"
  by (simp add: node_in_def drop_connections_of_def)

lemma wf_put_connections [wfg]:
  "wf_graph g \<Longrightarrow> \<forall>c \<in> set cs. node_in g (gc_from c) \<and> node_in g (gc_to c) \<Longrightarrow>
   wf_graph (foldl put_connection g cs)"
  by (induction cs arbitrary: g)
    (auto simp: wf_put_connection node_in_put_connections [of _ "[_]", simplified])

lemma wf_drop_node:
  assumes wf: "wf_graph g" and n: "node_in g n"
    and free: "\<forall>c \<in> set (map_values (dg_connections g)). gc_from c \<noteq> n \<and> gc_to c \<noteq> n"
  shows "wf_graph (drop_node g n)"
proof (rule wf_graphI)
  fix key c
  assume "(key, c) \<in> set (dg_connections (drop_node g n))"
  then have c: "(key, c) \<in> set (dg_connections g)" by (simp add: drop_node_def)
  then have "gc_from c \<noteq> n" "gc_to c \<noteq> n" using free by force+
  with wf_graphD(4-6) [OF wf c] n
  show "key = makeKey c \<and> node_in (drop_node g n) (gc_from c) \<and> node_in (drop_node g n) (gc_to c)"
    using node_in_same_name by (auto simp: node_in_drop_node)
qed (use wf_graphD(1,3) [OF wf] wf_graphD(2) [OF wf] in \<open>auto simp: drop_node_def\<close>)

lemma set_put_connections_subset:
  "snd ` set (dg_connections (foldl put_connection g cs)) \<subseteq> set cs \<union> snd ` set (dg_connections g)"
proof (induction cs arbitrary: g)
  case Nil
  then show ?case by simp
next
  case (Cons c cs)
  have "snd ` set (dg_connections (put_connection g c)) \<subseteq> insert c (snd ` set (dg_connections g))"
    using set_map_set_subset [of "makeKey c" c "dg_connections g"] by (auto simp: put_connection_def)
  with Cons.IH [of "put_connection g c"] show ?case by auto
qed

text \<open>The parts of \<open>removeNode\<close>, with the new connections taken together.\<close>

definition new_connections :: "DirectedGraph \<Rightarrow> INode \<Rightarrow> RemoveNodeOptions \<Rightarrow> GraphConnection list" where
  "new_connections g node options =
     (if reconnectConnections options then
        reconnections options (filter (\<lambda>c. gc_to c = node) (map_values (dg_connections g)))
          (filter (\<lambda>c. gc_from c = node) (map_values (dg_connections g)))
      else [])"

lemma removeNode_parts:
  assumes "removeNode g node options = Inr (h, cs)"
  shows "h = drop_node (foldl put_connection (drop_connections_of g node)
           (new_connections g node options)) node"
  using assms
  by (auto simp: removeNode_def new_connections_def drop_node_def resI Let_def
      getDirectParentConnections_def getDirectChildConnections_def split: if_splits)

lemma new_connections_iff:
  "c \<in> set (new_connections g node options) \<longleftrightarrow>
   reconnectConnections options \<and>
   (\<exists>i out. i \<in> set (map_values (dg_connections g)) \<and> out \<in> set (map_values (dg_connections g)) \<and>
      gc_to i = node \<and> gc_from out = node \<and> \<not> skips options i \<and> \<not> skips options out \<and>
      c = i\<lparr>gc_to := gc_to out, gc_inputIndex := gc_inputIndex out\<rparr>)"
  unfolding new_connections_def reconnections_def by (auto 0 4)

lemma new_connections_ends:
  assumes "wf_graph g" "no_self_connection options g node" "c \<in> set (new_connections g node options)"
  shows "node_in g (gc_from c)" "node_in g (gc_to c)" "gc_from c \<noteq> node" "gc_to c \<noteq> node"
  using assms(2,3) wf_graphD(5,6) [OF assms(1)]
  by (auto simp: new_connections_iff no_self_connection_def)

lemma removeNode_wf:
  assumes wf: "wf_graph g" and n: "node_in g node" and self: "no_self_connection options g node"
    and r: "removeNode g node options = Inr (h, cs)"
  shows "wf_graph h"
proof -
  let ?ns = "new_connections g node options"
  let ?g2 = "foldl put_connection (drop_connections_of g node) ?ns"
  note ends = new_connections_ends [OF wf self]
  have "wf_graph ?g2"
    by (rule wf_put_connections) (auto simp: wf_drop_connections wf ends)
  moreover have "\<forall>c \<in> set (map_values (dg_connections ?g2)). gc_from c \<noteq> node \<and> gc_to c \<noteq> node"
    using set_put_connections_subset [of "drop_connections_of g node" ?ns] ends
    by (fastforce simp: drop_connections_of_def)
  ultimately show ?thesis
    unfolding removeNode_parts [OF r] using n by (intro wf_drop_node) auto
qed


section \<open>Reconnecting keeps the reachability of the other nodes\<close>

definition all_key_safe :: "DirectedGraph \<Rightarrow> bool" where
  "all_key_safe g = (\<forall>c \<in> set (map_values (dg_connections g)). key_safe c)"

lemma values_put_connection:
  assumes wf: "wf_graph g" and "all_key_safe g" "key_safe c" "node_in g (gc_from c)" "node_in g (gc_to c)"
  shows "set (map_values (dg_connections (put_connection g c))) =
    insert c (set (map_values (dg_connections g)))"
proof -
  have "d = c" if d: "(makeKey c, d) \<in> set (dg_connections g)" for d
  proof (rule makeKey_inj_graph [of _ _ g])
    show "makeKey d = makeKey c" using wf_graphD(4) [OF wf d] by simp
  qed (use assms d wf_graphD(5,6) [OF wf d] in \<open>force simp: all_key_safe_def\<close>)+
  then show ?thesis
    using wf_graphD(3) [OF wf] by (force simp: put_connection_def set_map_set)
qed

lemma values_put_connections:
  assumes "wf_graph g" "all_key_safe g"
    and "\<forall>c \<in> set cs. key_safe c \<and> node_in g (gc_from c) \<and> node_in g (gc_to c)"
  shows "set (map_values (dg_connections (foldl put_connection g cs))) =
    set cs \<union> set (map_values (dg_connections g))"
  using assms
proof (induction cs arbitrary: g)
  case Nil
  then show ?case by simp
next
  case (Cons c cs)
  have v: "set (map_values (dg_connections (put_connection g c))) =
      insert c (set (map_values (dg_connections g)))"
    using Cons.prems by (intro values_put_connection) auto
  have "wf_graph (put_connection g c)" using Cons.prems by (intro wf_put_connection) auto
  moreover have "all_key_safe (put_connection g c)"
    using Cons.prems v unfolding all_key_safe_def by auto
  moreover have "node_in (put_connection g c) m = node_in g m" for m
    using node_in_put_connections [of g "[c]"] by simp
  ultimately have "set (map_values (dg_connections (foldl put_connection (put_connection g c) cs))) =
      set cs \<union> set (map_values (dg_connections (put_connection g c)))"
    using Cons.prems(3) by (intro Cons.IH) auto
  with v show ?case by auto
qed

lemma removeNode_values:
  assumes wf: "wf_graph g" and safe: "all_key_safe g" and self: "no_self_connection options g node"
    and r: "removeNode g node options = Inr (h, cs)"
  shows "set (map_values (dg_connections h)) = set (new_connections g node options) \<union>
    {c \<in> set (map_values (dg_connections g)). gc_from c \<noteq> node \<and> gc_to c \<noteq> node}"
proof -
  let ?g1 = "drop_connections_of g node"
  have v1: "set (map_values (dg_connections ?g1)) =
      {c \<in> set (map_values (dg_connections g)). gc_from c \<noteq> node \<and> gc_to c \<noteq> node}"
    by (force simp: drop_connections_of_def)
  have "key_safe c" if "c \<in> set (new_connections g node options)" for c
    using that safe by (auto simp: new_connections_iff all_key_safe_def key_safe_def)
  then have "set (map_values (dg_connections (foldl put_connection ?g1 (new_connections g node options)))) =
      set (new_connections g node options) \<union> set (map_values (dg_connections ?g1))"
    using safe v1 new_connections_ends [OF wf self]
    by (intro values_put_connections) (auto simp: wf_drop_connections wf all_key_safe_def)
  then show ?thesis unfolding removeNode_parts [OF r] v1 [symmetric] by (simp add: drop_node_def)
qed

lemma trancl_bypass:
  assumes E': "E' = {(a, b) \<in> E. a \<noteq> x \<and> b \<noteq> x} \<union> {(a, b). (a, x) \<in> E \<and> (x, b) \<in> E}"
    and xx: "(x, x) \<notin> E" and "m \<noteq> x" "n \<noteq> x"
  shows "(m, n) \<in> E'\<^sup>+ \<longleftrightarrow> (m, n) \<in> E\<^sup>+"
proof
  have "E' \<subseteq> E\<^sup>+" unfolding E' by (auto intro: trancl_into_trancl)
  then have "E'\<^sup>+ \<subseteq> (E\<^sup>+)\<^sup>+" by (rule trancl_mono_subset)
  then show "(m, n) \<in> E'\<^sup>+ \<Longrightarrow> (m, n) \<in> E\<^sup>+" by auto
next
  assume "(m, n) \<in> E\<^sup>+"
  then have "if n \<noteq> x then (m, n) \<in> E'\<^sup>+ else \<exists>p. p \<noteq> x \<and> (p, x) \<in> E \<and> (m = p \<or> (m, p) \<in> E'\<^sup>+)"
  proof (induction rule: trancl_induct)
    case (base y)
    then show ?case using \<open>m \<noteq> x\<close> by (auto simp: E')
  next
    case (step y z)
    show ?case
    proof (cases "y = x")
      case True
      with step.IH obtain p where p: "p \<noteq> x" "(p, x) \<in> E" "m = p \<or> (m, p) \<in> E'\<^sup>+" by auto
      have "z \<noteq> x" using step.hyps(2) True xx by auto
      have "(p, z) \<in> E'" using p(2) step.hyps(2) True by (auto simp: E')
      with p(3) \<open>z \<noteq> x\<close> show ?thesis by (auto intro: trancl_into_trancl)
    next
      case False
      with step.IH have my: "(m, y) \<in> E'\<^sup>+" by simp
      show ?thesis
      proof (cases "z = x")
        case True
        with False my step.hyps(2) show ?thesis by auto
      next
        case False
        with \<open>y \<noteq> x\<close> step.hyps(2) have "(y, z) \<in> E'" by (auto simp: E')
        with my False show ?thesis by (auto intro: trancl_into_trancl)
      qed
    qed
  qed
  with \<open>n \<noteq> x\<close> show "(m, n) \<in> E'\<^sup>+" by simp
qed

text \<open>The edges that \<open>removeNode\<close> reconnects: those of connections it does not skip.\<close>

definition kept_edges :: "RemoveNodeOptions \<Rightarrow> DirectedGraph \<Rightarrow> (INode \<times> INode) set" where
  "kept_edges options g = {(a, b). \<exists>c \<in> set (map_values (dg_connections g)).
     \<not> skips options c \<and> gc_from c = a \<and> gc_to c = b}"

lemma kept_edges_subset: "kept_edges options g \<subseteq> graph_edges g"
  unfolding kept_edges_def graph_edges_def by blast

text \<open>A predicate on connections that looks at their types only, like the one the callers use.\<close>

definition by_type :: "RemoveNodeOptions \<Rightarrow> bool" where
  "by_type options = (\<forall>c d. gc_type c = gc_type d \<longrightarrow> skips options c = skips options d)"

lemma removeNode_edges:
  assumes wf: "wf_graph g" and safe: "all_key_safe g" and self: "no_self_connection options g node"
    and rec: "reconnectConnections options" "by_type options"
    and r: "removeNode g node options = Inr (h, cs)"
  shows "kept_edges options h = {(a, b) \<in> kept_edges options g. a \<noteq> node \<and> b \<noteq> node} \<union>
    {(a, b). (a, node) \<in> kept_edges options g \<and> (node, b) \<in> kept_edges options g}"
proof -
  let ?new = "set (new_connections g node options)" and ?V = "set (map_values (dg_connections g))"
  have t: "skips options (i\<lparr>gc_to := n, gc_inputIndex := k\<rparr>) = skips options i" for i n k
    using rec(2) unfolding by_type_def by (metis GraphConnection.select_convs(3)
        GraphConnection.surjective GraphConnection.update_convs(2,5))
  have 1: "(a, b) \<in> kept_edges options h \<longleftrightarrow>
      (\<exists>c \<in> ?new. \<not> skips options c \<and> gc_from c = a \<and> gc_to c = b) \<or>
      ((a, b) \<in> kept_edges options g \<and> a \<noteq> node \<and> b \<noteq> node)" for a b
    using removeNode_values [OF wf safe self r] unfolding kept_edges_def by auto
  have 2: "(\<exists>c \<in> ?new. \<not> skips options c \<and> gc_from c = a \<and> gc_to c = b) \<longleftrightarrow>
      (a, node) \<in> kept_edges options g \<and> (node, b) \<in> kept_edges options g" for a b
  proof
    assume "\<exists>c \<in> ?new. \<not> skips options c \<and> gc_from c = a \<and> gc_to c = b"
    then obtain i out where "i \<in> ?V" "out \<in> ?V" "gc_to i = node" "gc_from out = node"
      "\<not> skips options i" "\<not> skips options out" "gc_from i = a" "gc_to out = b"
      unfolding Bex_def new_connections_iff by (auto simp del: set_map)
    then show "(a, node) \<in> kept_edges options g \<and> (node, b) \<in> kept_edges options g"
      unfolding kept_edges_def by blast
  next
    assume "(a, node) \<in> kept_edges options g \<and> (node, b) \<in> kept_edges options g"
    then obtain i out where "i \<in> ?V" "out \<in> ?V" "gc_from i = a" "gc_to i = node"
      "\<not> skips options i" "\<not> skips options out" "gc_from out = node" "gc_to out = b"
      unfolding kept_edges_def by (auto simp del: set_map)
    then show "\<exists>c \<in> ?new. \<not> skips options c \<and> gc_from c = a \<and> gc_to c = b"
      using rec(1) by (intro bexI [of _ "i\<lparr>gc_to := gc_to out, gc_inputIndex := gc_inputIndex out\<rparr>"])
        (auto simp: new_connections_iff t simp del: set_map)
  qed
  show ?thesis using 1 2 by auto
qed

lemma removeNode_nodes:
  assumes r: "removeNode g node options = Inr (h, cs)"
  shows "dg_nodes h = map_delete (node_name node) (dg_nodes g)"
proof -
  have "dg_nodes (foldl put_connection g' xs) = dg_nodes g'" for g' xs
    by (induction xs arbitrary: g') (simp_all add: put_connection_def)
  then show ?thesis unfolding removeNode_parts [OF r] by (simp add: drop_node_def drop_connections_of_def)
qed

lemma removeNode_total:
  assumes "node_in g node"
  shows "\<exists>h cs. removeNode g node options = Inr (h, cs)"
  using assms by (simp add: removeNode_def getDirectParentConnections_def
      getDirectChildConnections_def Let_def)

lemma removeNode_key_safe:
  assumes "all_key_safe g" and r: "removeNode g node options = Inr (h, cs)"
  shows "all_key_safe h"
proof -
  have "key_safe c" if "c \<in> set (new_connections g node options)" for c
    using that assms(1) by (auto simp: new_connections_iff all_key_safe_def key_safe_def)
  then show ?thesis
    using assms(1) set_put_connections_subset [of "drop_connections_of g node" "new_connections g node options"]
    unfolding all_key_safe_def removeNode_parts [OF r]
    by (fastforce simp: drop_node_def drop_connections_of_def)
qed

text \<open>
  A copy built from the nodes and connections of a well-formed graph with safe keys is the graph
  itself: re-adding a connection under its key appends it, as its key is not taken.
\<close>

lemma input_of_added:
  assumes "node_in g (gc_from c)" "node_in g (gc_to c)"
  shows "addConnection g (input_of c) = Inr (put_connection g c)"
proof -
  have c: "\<lparr>gc_from = gc_from c, gc_to = gc_to c, gc_type = gc_type c,
      gc_outputIndex = gc_outputIndex c, gc_inputIndex = gc_inputIndex c\<rparr> = c"
    by (rule GraphConnection.equality) simp_all
  show ?thesis using assms by (simp add: addConnection_def input_of_def c)
qed

lemma put_all:
  assumes "distinct (map_keys cs)" "\<forall>(key, c) \<in> set cs. key = makeKey c"
    and "\<forall>(key, c) \<in> set cs. node_in g (gc_from c) \<and> node_in g (gc_to c)"
    and "\<forall>(key, c) \<in> set cs. key \<notin> fst ` set (dg_connections g)"
  shows "addConnections g (map input_of (map snd cs)) =
    Inr (g\<lparr>dg_connections := dg_connections g @ cs\<rparr>)"
  using assms
proof (induction cs arbitrary: g)
  case Nil
  then show ?case by (simp add: addConnections_def)
next
  case (Cons e cs)
  obtain key c where e: "e = (key, c)" by (cases e)
  have k: "key = makeKey c" using Cons.prems(2) e by simp
  have p: "put_connection g c = g\<lparr>dg_connections := dg_connections g @ [e]\<rparr>"
    using Cons.prems(4) e k by (simp add: put_connection_def map_set_fresh)
  have "addConnections (put_connection g c) (map input_of (map snd cs)) =
      Inr ((put_connection g c)\<lparr>dg_connections := dg_connections (put_connection g c) @ cs\<rparr>)"
  proof (rule Cons.IH)
    show "\<forall>(key, c') \<in> set cs. node_in (put_connection g c) (gc_from c') \<and>
        node_in (put_connection g c) (gc_to c')"
      using Cons.prems(3) by (auto simp: node_in_def put_connection_def)
    show "\<forall>(key, c') \<in> set cs. key \<notin> fst ` set (dg_connections (put_connection g c))"
      using Cons.prems(1,4) unfolding p e by (fastforce simp: image_iff)
  qed (use Cons.prems in auto)
  moreover have "addConnection g (input_of c) = Inr (put_connection g c)"
    using Cons.prems(3) e by (intro input_of_added) auto
  ultimately show ?case using e by (simp add: addConnections_def p)
qed

lemma nodes_by_name:
  assumes "wf_graph g"
  shows "map (\<lambda>n. (node_name n, n)) (map_values (dg_nodes g)) = dg_nodes g"
  using wf_graphD(2) [OF assms] by (auto simp: comp_def intro!: map_idI)

lemma clone_graph:
  assumes wf: "wf_graph g"
  shows "clone g = Inr \<lparr>dg_nodes = dg_nodes g, dg_connections = dg_connections g\<rparr>"
proof -
  have names: "map node_name (map_values (dg_nodes g)) = map_keys (dg_nodes g)"
    using nodes_by_name [OF wf, THEN arg_cong [of _ _ "map fst"]] by (simp add: comp_def)
  have base: "addNodes empty_graph (map_values (dg_nodes g)) = empty_graph\<lparr>dg_nodes := dg_nodes g\<rparr>"
    by (subst addNodes_distinct)
      (simp_all only: names wf_graphD(1) [OF wf] nodes_by_name [OF wf], simp_all add: empty_graph_def)
  have "addConnections (empty_graph\<lparr>dg_nodes := dg_nodes g\<rparr>) (map input_of (map snd (dg_connections g))) =
      Inr ((empty_graph\<lparr>dg_nodes := dg_nodes g\<rparr>)\<lparr>dg_connections :=
        dg_connections (empty_graph\<lparr>dg_nodes := dg_nodes g\<rparr>) @ dg_connections g\<rparr>)"
    using wf_graphD(3-6) [OF wf]
    by (intro put_all) (auto simp: empty_graph_def node_in_def)
  then show ?thesis by (simp add: clone_def getNodes_def getConnections_def base) (simp add: empty_graph_def)
qed

end
