(* ===== verification/GraphWalks.thy ===== *)
theory GraphWalks
  imports GraphInvariant
begin

text \<open>
  The walks of \<open>DirectedGraph\<close>. The two that collect (children, parent connections) follow one
  contract: visit a node, mark what it leads to unless it is marked already, and go on from
  there. The locale \<open>marking_walk\<close> states that contract and proves that the walk ends and collects
  exactly what is reachable; it is interpreted on both. The depth-first search stops at its
  first hit and has a proof of its own.
\<close>

lemma fold_res_map: "fold_res f s (map h xs) = fold_res (\<lambda>t x. f t (h x)) s xs"
  by (induction xs arbitrary: s) (auto simp: res_bind_def split: sum.splits)

section \<open>Walks that mark\<close>

locale marking_walk =
  fixes visit :: "nat \<Rightarrow> 'n \<Rightarrow> 'm list \<Rightarrow> 'm list res"
    and marks :: "'n \<Rightarrow> 'm list"
    and target :: "'m \<Rightarrow> 'n"
    and ok :: "'n \<Rightarrow> bool"
    and universe :: "'m set"
  assumes finite_universe: "finite universe"
    and marks_universe: "ok n \<Longrightarrow> set (marks n) \<subseteq> universe"
    and target_ok: "m \<in> universe \<Longrightarrow> ok (target m)"
    and visit_Suc: "ok n \<Longrightarrow> visit (Suc fuel) n s =
      fold_res (\<lambda>s m. if m \<in> set s then Inr s else visit fuel (target m) (s @ [m])) s (marks n)"
begin

definition leads :: "('m \<times> 'm) set" where
  "leads = {(m, m'). m \<in> universe \<and> m' \<in> set (marks (target m))}"

definition reach :: "'n \<Rightarrow> 'm set" where
  "reach n = {m'. \<exists>m \<in> set (marks n). (m, m') \<in> leads\<^sup>*}"

definition walked :: "'m list \<Rightarrow> 'm set \<Rightarrow> 'm list \<Rightarrow> bool" where
  "walked s from t \<longleftrightarrow> distinct t \<and> set s \<subseteq> set t \<and> set t \<subseteq> universe \<and> from \<subseteq> set t \<and>
     (\<forall>m \<in> set t - set s. set (marks (target m)) \<subseteq> set t) \<and>
     (\<forall>m' \<in> set t - set s. \<exists>m \<in> from. (m, m') \<in> leads\<^sup>*)"

lemma leadsI: "m \<in> universe \<Longrightarrow> m' \<in> set (marks (target m)) \<Longrightarrow> (m, m') \<in> leads"
  by (simp add: leads_def)

lemma walked_trans:
  assumes "walked s a t" "walked t b u"
  shows "walked s (a \<union> b) u"
  using assms unfolding walked_def by blast

lemma visit_walked:
  assumes "ok n" "distinct s" "set s \<subseteq> universe" "card (universe - set s) < fuel"
  shows "\<exists>t. visit fuel n s = Inr t \<and> walked s (set (marks n)) t"
  using assms
proof (induction fuel arbitrary: n s)
  case 0
  then show ?case by simp
next
  case (Suc fuel)
  let ?f = "\<lambda>s m. if m \<in> set s then Inr s else visit fuel (target m) (s @ [m])"
  have loop: "\<exists>t. fold_res ?f s ms = Inr t \<and> walked s (set ms) t"
    if "distinct s" "set s \<subseteq> universe" "card (universe - set s) \<le> fuel" "set ms \<subseteq> universe" for ms s
    using that
  proof (induction ms arbitrary: s)
    case Nil
    then show ?case by (auto simp: walked_def)
  next
    case (Cons m ms)
    have "\<exists>t. ?f s m = Inr t \<and> walked s {m} t"
    proof (cases "m \<in> set s")
      case True
      with Cons.prems show ?thesis by (auto simp: walked_def)
    next
      case False
      have m: "m \<in> universe" using Cons.prems by simp
      have "card (universe - set (s @ [m])) < card (universe - set s)"
        using m False finite_universe by (intro psubset_card_mono) auto
      with Cons.prems(3) have "card (universe - set (s @ [m])) < fuel" by simp
      with Suc.IH [of "target m" "s @ [m]"] m target_ok Cons.prems(1,2) False
      obtain t where t: "visit fuel (target m) (s @ [m]) = Inr t"
        "walked (s @ [m]) (set (marks (target m))) t" by auto
      have "(m, m') \<in> leads\<^sup>*" if "m' \<in> set t - set (s @ [m])" for m'
        using that t(2) leadsI [OF m] unfolding walked_def
        by (meson converse_rtrancl_into_rtrancl)
      with t(2) have "walked s {m} t" unfolding walked_def by auto
      with t(1) False show ?thesis by auto
    qed
    then obtain t where t: "?f s m = Inr t" "walked s {m} t" by blast
    have "distinct t" "set t \<subseteq> universe" "set s \<subseteq> set t" using t(2) by (auto simp: walked_def)
    moreover have "card (universe - set t) \<le> card (universe - set s)"
      using \<open>set s \<subseteq> set t\<close> finite_universe by (intro card_mono) auto
    ultimately obtain u where u: "fold_res ?f t ms = Inr u" "walked t (set ms) u"
      using Cons.IH [of t] Cons.prems by auto
    have "walked s (set (m # ms)) u" using walked_trans [OF t(2) u(2)] by simp
    with t(1) u(1) show ?case by (simp del: if_split)
  qed
  have "\<exists>t. fold_res ?f s (marks n) = Inr t \<and> walked s (set (marks n)) t"
    using Suc.prems marks_universe by (intro loop) auto
  then show ?case using visit_Suc [OF Suc.prems(1)] by simp
qed

lemma closed_contains_reach:
  assumes "set (marks n) \<subseteq> T" "\<forall>m \<in> T. set (marks (target m)) \<subseteq> T"
  shows "reach n \<subseteq> T"
proof
  fix m'
  assume "m' \<in> reach n"
  then obtain m where "m \<in> T" "(m, m') \<in> leads\<^sup>*" using assms(1) by (auto simp: reach_def)
  from this(2,1) show "m' \<in> T"
    by (induction rule: rtrancl_induct) (use assms(2) in \<open>auto simp: leads_def\<close>)
qed

lemma visit_reach:
  assumes "ok n" "card universe < fuel"
  shows "\<exists>t. visit fuel n [] = Inr t \<and> distinct t \<and> set t = reach n"
proof -
  obtain t where t: "visit fuel n [] = Inr t" "walked [] (set (marks n)) t"
    using visit_walked [of n "[]" fuel] assms by auto
  have "reach n \<subseteq> set t" using t(2) by (intro closed_contains_reach) (auto simp: walked_def)
  moreover have "set t \<subseteq> reach n" using t(2) by (auto simp: walked_def reach_def)
  ultimately show ?thesis using t by (auto simp: walked_def)
qed

end

section \<open>The two walks\<close>

definition child_marks :: "DirectedGraph \<Rightarrow> INode \<Rightarrow> INode list" where
  "child_marks g n = map gc_to (filter (\<lambda>c. gc_from c = n) (map_values (dg_connections g)))"

definition parent_marks :: "DirectedGraph \<Rightarrow> INode \<Rightarrow> GraphConnection list" where
  "parent_marks g n = filter (\<lambda>c. gc_to c = n) (map_values (dg_connections g))"

lemma getChildrenRecursive_Suc:
  "node_in g n \<Longrightarrow> getChildrenRecursive (Suc fuel) g n s =
   fold_res (\<lambda>s m. if m \<in> set s then Inr s else getChildrenRecursive fuel g m (s @ [m])) s (child_marks g n)"
  by (simp add: getDirectChildConnections_def child_marks_def fold_res_map)

lemma getParentConnectionsRecursive_Suc:
  "node_in g n \<Longrightarrow> getParentConnectionsRecursive (Suc fuel) g n s =
   fold_res (\<lambda>s m. if m \<in> set s then Inr s
     else getParentConnectionsRecursive fuel g (gc_from m) (s @ [m])) s (parent_marks g n)"
  by (simp add: getDirectParentConnections_def parent_marks_def)

declare getChildrenRecursive.simps [simp del] getParentConnectionsRecursive.simps [simp del]

lemma parent_marks_iff:
  "c \<in> set (parent_marks g n) \<longleftrightarrow> c \<in> set (map_values (dg_connections g)) \<and> gc_to c = n"
  by (auto simp: parent_marks_def)

text \<open>
  Both walks are run on well-formed graphs only; on others the locale's universe is empty, so that
  one interpretation serves every graph.
\<close>

definition wf_ok :: "DirectedGraph \<Rightarrow> INode \<Rightarrow> bool" where
  "wf_ok g n = (wf_graph g \<and> node_in g n)"

definition wf_values :: "DirectedGraph \<Rightarrow> GraphConnection set" where
  "wf_values g = (if wf_graph g then set (map_values (dg_connections g)) else {})"

lemma wf_values_nodes:
  assumes "c \<in> wf_values g"
  shows "wf_ok g (gc_from c)" "wf_ok g (gc_to c)"
  using assms wf_graphD(5,6) unfolding wf_values_def wf_ok_def by (auto split: if_splits)

lemma finite_wf_values [simp]: "finite (wf_values g)"
  by (simp add: wf_values_def)

interpretation children_walk:
  marking_walk "\<lambda>fuel n s. getChildrenRecursive fuel g n s" "child_marks g" "\<lambda>n. n" "wf_ok g"
    "gc_to ` wf_values g" for g
proof
  show "finite (gc_to ` wf_values g)" by simp
next
  fix n
  assume "wf_ok g n"
  then show "set (child_marks g n) \<subseteq> gc_to ` wf_values g"
    by (auto simp: child_marks_def wf_values_def wf_ok_def)
next
  fix m
  assume "m \<in> gc_to ` wf_values g"
  then show "wf_ok g m" using wf_values_nodes by auto
next
  fix n fuel s
  assume "wf_ok g n"
  then show "getChildrenRecursive (Suc fuel) g n s =
      fold_res (\<lambda>s m. if m \<in> set s then Inr s else getChildrenRecursive fuel g m (s @ [m])) s (child_marks g n)"
    by (simp only: wf_ok_def getChildrenRecursive_Suc)
qed

interpretation parents_walk:
  marking_walk "\<lambda>fuel n s. getParentConnectionsRecursive fuel g n s" "parent_marks g" gc_from "wf_ok g"
    "wf_values g" for g
proof
  show "finite (wf_values g)" by simp
next
  fix n
  assume "wf_ok g n"
  then show "set (parent_marks g n) \<subseteq> wf_values g"
    by (auto simp: parent_marks_def wf_values_def wf_ok_def)
next
  fix m
  assume "m \<in> wf_values g"
  then show "wf_ok g (gc_from m)" by (rule wf_values_nodes)
next
  fix n fuel s
  assume "wf_ok g n"
  then show "getParentConnectionsRecursive (Suc fuel) g n s =
      fold_res (\<lambda>s m. if m \<in> set s then Inr s
        else getParentConnectionsRecursive fuel g (gc_from m) (s @ [m])) s (parent_marks g n)"
    by (simp only: wf_ok_def getParentConnectionsRecursive_Suc)
qed

lemma card_wf_values: "card (wf_values g) \<le> length (dg_connections g)"
  using card_length [of "map_values (dg_connections g)"] by (simp add: wf_values_def)

lemma child_marks_iff: "m \<in> set (child_marks g n) \<longleftrightarrow> (n, m) \<in> graph_edges g"
  by (auto simp: child_marks_def graph_edges_def)

lemma children_reach:
  assumes "wf_graph g"
  shows "children_walk.reach g n = {m. (n, m) \<in> (graph_edges g)\<^sup>+}"
proof -
  have leads: "children_walk.leads g = {(m, m') \<in> graph_edges g. m \<in> gc_to ` wf_values g}"
    unfolding children_walk.leads_def by (auto simp: child_marks_iff)
  have "(m, m') \<in> (children_walk.leads g)\<^sup>* \<longleftrightarrow> (m, m') \<in> (graph_edges g)\<^sup>*"
    if m: "(n, m) \<in> graph_edges g" for m m'
  proof
    show "(m, m') \<in> (children_walk.leads g)\<^sup>* \<Longrightarrow> (m, m') \<in> (graph_edges g)\<^sup>*"
      by (erule rtrancl_mono [THEN subsetD, rotated]) (auto simp: leads)
  next
    assume "(m, m') \<in> (graph_edges g)\<^sup>*"
    then have "(m, m') \<in> (children_walk.leads g)\<^sup>* \<and> m' \<in> gc_to ` wf_values g"
    proof (induction rule: rtrancl_induct)
      case base
      show ?case using m assms by (auto simp: graph_edges_def wf_values_def)
    next
      case (step y z)
      then have "(y, z) \<in> children_walk.leads g" by (auto simp: leads)
      moreover have "z \<in> gc_to ` wf_values g"
        using step.hyps(2) assms by (auto simp: graph_edges_def wf_values_def)
      ultimately show ?case using step.IH by (meson rtrancl_into_rtrancl)
    qed
    then show "(m, m') \<in> (children_walk.leads g)\<^sup>*" ..
  qed
  then have "m' \<in> children_walk.reach g n \<longleftrightarrow> (\<exists>m. (n, m) \<in> graph_edges g \<and> (m, m') \<in> (graph_edges g)\<^sup>*)" for m'
    unfolding children_walk.reach_def Bex_def child_marks_iff by blast
  then show ?thesis by (auto intro: rtrancl_into_trancl2 dest: tranclD)
qed

lemma getChildren_reachable:
  assumes "wf_graph g" "node_in g n"
  shows "\<exists>cs. getChildren g n = Inr cs \<and> distinct cs \<and> set cs = {m. (n, m) \<in> (graph_edges g)\<^sup>+}"
proof -
  have "card (gc_to ` wf_values g) < Suc (length (dg_connections g))"
    using card_image_le [of "wf_values g" gc_to] card_wf_values [of g] by simp
  then show ?thesis using children_walk.visit_reach [of g n] assms
    unfolding getChildren_def children_reach [OF assms(1), symmetric] by (simp add: wf_ok_def)
qed

lemma parents_reach:
  assumes "wf_graph g"
  shows "parents_walk.reach g n =
    {c \<in> set (map_values (dg_connections g)). (gc_to c, n) \<in> (graph_edges g)\<^sup>*}"
proof -
  have sound: "(m, c) \<in> (parents_walk.leads g)\<^sup>* \<Longrightarrow>
      m \<in> set (map_values (dg_connections g)) \<Longrightarrow>
      c \<in> set (map_values (dg_connections g)) \<and> (gc_to c, gc_to m) \<in> (graph_edges g)\<^sup>*" for m c
  proof (induction rule: rtrancl_induct)
    case base
    then show ?case by simp
  next
    case (step y z)
    have "gc_to z = gc_from y" "z \<in> set (map_values (dg_connections g))"
      using step.hyps(2) by (auto simp: parents_walk.leads_def parent_marks_def)
    moreover have "(gc_from y, gc_to y) \<in> graph_edges g"
      using step by (auto simp: graph_edges_def)
    ultimately show ?case using step by (auto intro: converse_rtrancl_into_rtrancl)
  qed
  have complete: "(a, n) \<in> (graph_edges g)\<^sup>* \<Longrightarrow> c \<in> set (map_values (dg_connections g)) \<Longrightarrow>
      gc_to c = a \<Longrightarrow> c \<in> parents_walk.reach g n" for a c
  proof (induction arbitrary: c rule: converse_rtrancl_induct)
    case base
    then have "c \<in> set (parent_marks g n)" by (simp add: parent_marks_iff)
    then show ?case unfolding parents_walk.reach_def by blast
  next
    case (step a b)
    from step.hyps(1) obtain d where
      d: "d \<in> set (map_values (dg_connections g))" "gc_from d = a" "gc_to d = b"
      unfolding graph_edges_def by (auto simp del: set_map)
    then have "d \<in> parents_walk.reach g n" using step by auto
    moreover have "(d, c) \<in> parents_walk.leads g"
      using d step.prems assms unfolding parents_walk.leads_def parent_marks_iff
      by (simp add: wf_values_def del: set_map)
    ultimately show ?case unfolding parents_walk.reach_def by (auto intro: rtrancl_into_rtrancl)
  qed
  show ?thesis
  proof (intro set_eqI iffI)
    fix c
    assume "c \<in> parents_walk.reach g n"
    then obtain m where m: "m \<in> set (map_values (dg_connections g))" "gc_to m = n"
      "(m, c) \<in> (parents_walk.leads g)\<^sup>*"
      unfolding parents_walk.reach_def parent_marks_def by auto
    with sound [OF m(3,1)]
    show "c \<in> {c \<in> set (map_values (dg_connections g)). (gc_to c, n) \<in> (graph_edges g)\<^sup>*}"
      by simp
  qed (use complete in auto)
qed

lemma getParentConnections_reachable:
  assumes "wf_graph g" "node_in g n"
  shows "\<exists>cs. getParentConnections g n = Inr cs \<and> distinct cs \<and>
    set cs = {c \<in> set (map_values (dg_connections g)). (gc_to c, n) \<in> (graph_edges g)\<^sup>*}"
  using parents_walk.visit_reach [of g n "Suc (length (dg_connections g))"] assms card_wf_values [of g]
  unfolding getParentConnections_def parents_reach [OF assms(1), symmetric] by (simp add: wf_ok_def)


section \<open>Depth-first search\<close>

definition graph_nodes :: "DirectedGraph \<Rightarrow> INode set" where
  "graph_nodes g = set (map_values (dg_nodes g))"

definition searched :: "DirectedGraph \<Rightarrow> (INode \<Rightarrow> bool) \<Rightarrow> INode set \<Rightarrow> INode list \<Rightarrow>
   INode option \<times> INode list \<Rightarrow> bool" where
  "searched g fn from seen r \<longleftrightarrow>
     distinct (snd r) \<and> set seen \<subseteq> set (snd r) \<and> set (snd r) \<subseteq> graph_nodes g \<and>
     (case fst r of
        Some m \<Rightarrow> fn m \<and> (\<exists>n \<in> from. (n, m) \<in> (graph_edges g)\<^sup>*)
      | None \<Rightarrow> from \<subseteq> set (snd r) \<and>
          (\<forall>x \<in> set (snd r) - set seen. \<not> fn x \<and> (\<forall>y. (x, y) \<in> graph_edges g \<longrightarrow> y \<in> set (snd r))))"

lemma searched_step:
  assumes "searched g fn a seen (None, t)" "searched g fn b t r"
  shows "searched g fn (a \<union> b) seen r"
  using assms unfolding searched_def by (cases "fst r") (simp, blast, auto)

lemma searched_enter:
  assumes "n \<notin> set seen" "\<not> fn n" "searched g fn {y. (n, y) \<in> graph_edges g} (seen @ [n]) r"
  shows "searched g fn {n} seen r"
proof (cases "fst r")
  case None
  with assms(3) have a: "distinct (snd r)" "set (seen @ [n]) \<subseteq> set (snd r)" "set (snd r) \<subseteq> graph_nodes g"
    and b: "\<And>y. (n, y) \<in> graph_edges g \<Longrightarrow> y \<in> set (snd r)"
    and c: "\<And>x y. x \<in> set (snd r) \<Longrightarrow> x \<notin> set seen \<Longrightarrow> x \<noteq> n \<Longrightarrow>
      \<not> fn x \<and> ((x, y) \<in> graph_edges g \<longrightarrow> y \<in> set (snd r))"
    unfolding searched_def by auto
  show ?thesis unfolding searched_def using a b c assms(2) None
    by (simp del: split_paired_All split_paired_Ex) (metis DiffD1 DiffD2)
next
  case (Some m)
  with assms(3) obtain y where "(n, y) \<in> graph_edges g" "(y, m) \<in> (graph_edges g)\<^sup>*"
    unfolding searched_def by auto
  then have "(n, m) \<in> (graph_edges g)\<^sup>*" by (rule converse_rtrancl_into_rtrancl)
  with assms(3) Some show ?thesis unfolding searched_def by auto
qed

lemma depthFirstSearchRecursive_searched:
  assumes wf: "wf_graph g" and "n \<in> graph_nodes g" "distinct seen" "set seen \<subseteq> graph_nodes g"
    and "card (graph_nodes g - set seen) < fuel"
  shows "\<exists>r. depthFirstSearchRecursive fuel g n fn seen = Inr r \<and> searched g fn {n} seen r"
  using assms(2-)
proof (induction fuel arbitrary: n seen)
  case 0
  then show ?case by simp
next
  case (Suc fuel)
  let ?f = "\<lambda>(found, seen) c. if found \<noteq> None then Inr (found, seen)
    else depthFirstSearchRecursive fuel g (gc_to c) fn seen"
  have stop: "fold_res ?f (Some m, t) cs = Inr (Some m, t)" for m t cs
    by (induction cs) auto
  have loop: "\<exists>r. fold_res ?f (None, seen) cs = Inr r \<and> searched g fn (gc_to ` set cs) seen r"
    if "gc_to ` set cs \<subseteq> graph_nodes g" "distinct seen" "set seen \<subseteq> graph_nodes g"
      "card (graph_nodes g - set seen) < fuel" for cs seen
    using that
  proof (induction cs arbitrary: seen)
    case Nil
    then show ?case by (auto simp: searched_def)
  next
    case (Cons c cs)
    then obtain found t where r: "depthFirstSearchRecursive fuel g (gc_to c) fn seen = Inr (found, t)"
      "searched g fn {gc_to c} seen (found, t)"
      using Suc.IH [of "gc_to c" seen] by auto
    show ?case
    proof (cases found)
      case (Some m)
      have "fold_res ?f (None, seen) (c # cs) = Inr (Some m, t)"
        using r(1) Some by (simp add: stop [simplified])
      moreover have "searched g fn (gc_to ` set (c # cs)) seen (Some m, t)"
        using r(2) Some by (auto simp: searched_def)
      ultimately show ?thesis by blast
    next
      case None
      have t: "distinct t" "set seen \<subseteq> set t" "set t \<subseteq> graph_nodes g"
        using r(2) by (auto simp: searched_def)
      have "card (graph_nodes g - set t) \<le> card (graph_nodes g - set seen)"
        using t(2) by (intro card_mono) (auto simp: graph_nodes_def)
      with Cons.IH [of t] Cons.prems t obtain u where
        "fold_res ?f (None, t) cs = Inr u" "searched g fn (gc_to ` set cs) t u" by auto
      with r None searched_step [of g fn "{gc_to c}" seen t "gc_to ` set cs" u]
      show ?thesis by auto
    qed
  qed
  show ?case
  proof (cases "n \<in> set seen \<or> fn n")
    case True
    with Suc.prems show ?thesis by (auto simp: searched_def)
  next
    case False
    let ?cs = "filter (\<lambda>c. gc_from c = n) (map_values (dg_connections g))"
    have n: "node_in g n" using Suc.prems(1) node_in_iff [OF wf] by (simp add: graph_nodes_def)
    have E: "(n, y) \<in> graph_edges g \<longleftrightarrow> y \<in> gc_to ` set ?cs" for y
      by (auto simp: graph_edges_def)
    have sub: "gc_to ` set ?cs \<subseteq> graph_nodes g"
      using edge_nodes(2) [OF wf] E node_in_iff [OF wf] unfolding graph_nodes_def by blast
    have "card (graph_nodes g - set (seen @ [n])) < card (graph_nodes g - set seen)"
      using Suc.prems(1) False by (intro psubset_card_mono) (auto simp: graph_nodes_def)
    then obtain r where r: "fold_res ?f (None, seen @ [n]) ?cs = Inr r"
      "searched g fn (gc_to ` set ?cs) (seen @ [n]) r"
      using loop [of ?cs "seen @ [n]"] sub Suc.prems False by auto
    have "gc_to ` set ?cs = {y. (n, y) \<in> graph_edges g}" using E by blast
    then have "searched g fn {n} seen r" using r(2) False by (intro searched_enter) auto
    moreover have "depthFirstSearchRecursive (Suc fuel) g n fn seen = Inr r"
      using False n r(1) by (simp add: getDirectChildConnections_def)
    ultimately show ?thesis by blast
  qed
qed

lemma depthFirstSearch_finds:
  assumes wf: "wf_graph g" and n: "node_in g n"
  shows "\<exists>r. depthFirstSearch g n fn = Inr r \<and>
    (case r of Some m \<Rightarrow> fn m \<and> (n, m) \<in> (graph_edges g)\<^sup>*
     | None \<Rightarrow> \<forall>m. (n, m) \<in> (graph_edges g)\<^sup>* \<longrightarrow> \<not> fn m)"
proof -
  have "card (graph_nodes g) < Suc (Suc (length (dg_nodes g)))"
    using card_length [of "map_values (dg_nodes g)"] by (simp add: graph_nodes_def)
  then obtain found t where r: "depthFirstSearchRecursive (Suc (Suc (length (dg_nodes g)))) g n fn [] =
      Inr (found, t)" "searched g fn {n} [] (found, t)"
    using depthFirstSearchRecursive_searched [OF wf, of n "[]" "Suc (Suc (length (dg_nodes g)))" fn]
      n node_in_iff [OF wf] by (auto simp: graph_nodes_def simp del: depthFirstSearchRecursive.simps)
  have "\<not> fn m" if "found = None" "(n, m) \<in> (graph_edges g)\<^sup>*" for m
  proof -
    from that(2) have "m \<in> set t"
      by (induction rule: rtrancl_induct) (use r(2) that(1) in \<open>auto simp: searched_def\<close>)
    with r(2) that(1) show ?thesis by (auto simp: searched_def)
  qed
  with r show ?thesis
    by (auto simp: depthFirstSearch_def searched_def split: option.splits
        simp del: depthFirstSearchRecursive.simps)
qed

end
