(* ===== verification/Samples.thy ===== *)
theory Samples
  imports GraphWalks
begin

text \<open>
  Small concrete inputs: three nodes in a row, the middle one optionally disabled, as nodes, as a
  graph and as a workflow. The theorems with hypotheses are applied to them.
\<close>

definition sample_node :: "nat \<Rightarrow> string \<Rightarrow> string \<Rightarrow> bool \<Rightarrow> INode" where
  "sample_node ref name type disabled =
     \<lparr>node_ref = ref, node_name = name, node_typeVersion = 1, node_type = type, node_position = (0, 0),
      node_disabled = (if disabled then Some True else Some False), node_retryOnFail = None,
      node_maxTries = None, node_waitBetweenTries = None, node_alwaysOutputData = None,
      node_executeOnce = None, node_onError = None, node_continueOnFail = None, node_webhookId = None,
      node_parameters = JObj []\<rparr>"

definition node_t :: INode where
  "node_t = sample_node 1 ''Trigger'' ''n8n-nodes-base.manualTrigger'' False"

definition node_a :: "bool \<Rightarrow> INode" where
  "node_a disabled = sample_node 2 ''A'' ''n8n-nodes-base.set'' disabled"

definition node_b :: INode where
  "node_b = sample_node 3 ''B'' ''n8n-nodes-base.set'' False"

definition main_connection :: "INode \<Rightarrow> INode \<Rightarrow> GraphConnection" where
  "main_connection m n = \<lparr>gc_from = m, gc_to = n, gc_type = Main, gc_outputIndex = 0, gc_inputIndex = 0\<rparr>"

definition sample_graph :: "bool \<Rightarrow> DirectedGraph" where
  "sample_graph disabled =
     foldl put_connection (addNodes empty_graph [node_t, node_a disabled, node_b])
       [main_connection node_t (node_a disabled), main_connection (node_a disabled) node_b]"

lemmas sample_nodes = node_t_def node_a_def node_b_def sample_node_def

lemma sample_graph_nodes [simp]:
  "node_in (sample_graph d) node_t" "node_in (sample_graph d) (node_a d)" "node_in (sample_graph d) node_b"
  by (simp_all add: sample_graph_def node_in_def addNodes_def addNode_def empty_graph_def sample_nodes
      put_connection_def)

lemma sample_graph_wf [simp]: "wf_graph (sample_graph d)"
  unfolding sample_graph_def
  by (intro wf_put_connections wf_addNodes_empty)
    (auto simp: main_connection_def node_in_def addNodes_def addNode_def empty_graph_def sample_nodes)

lemma sample_graph_values:
  "map_values (dg_nodes (sample_graph d)) = [node_t, node_a d, node_b]"
  "map_values (dg_connections (sample_graph d)) =
    [main_connection node_t (node_a d), main_connection (node_a d) node_b]"
  by (simp_all add: sample_graph_def addNodes_def addNode_def empty_graph_def sample_nodes
      put_connection_def makeKey_def main_connection_def)

lemma sample_graph_safe [simp]: "all_key_safe (sample_graph d)"
  unfolding all_key_safe_def sample_graph_values
  by (simp add: key_safe_def main_connection_def sample_nodes)

lemma edges_up_acyclic:
  assumes "\<forall>(a, b) \<in> r. node_ref a < node_ref b"
  shows "(n, n) \<notin> r\<^sup>+"
proof
  assume "(n, n) \<in> r\<^sup>+"
  moreover have "(a, b) \<in> r\<^sup>+ \<Longrightarrow> node_ref a < node_ref b" for a b
    by (induction rule: trancl_induct) (use assms in fastforce)+
  ultimately show False by fastforce
qed

lemma sample_graph_edges: "graph_edges (sample_graph d) = {(node_t, node_a d), (node_a d, node_b)}"
  unfolding graph_edges_def sample_graph_values by (simp add: main_connection_def)

lemma sample_graph_acyclic [simp]: "(n, n) \<notin> (graph_edges (sample_graph d))\<^sup>+"
  by (rule edges_up_acyclic) (simp add: sample_graph_edges sample_nodes)

end
