(* ===== verification/GraphProperties.thy ===== *)
theory GraphProperties
  imports Samples
begin

text \<open>
  The properties of \<open>DirectedGraph\<close>: what the walks collect, that copies are faithful, that keys
  identify connections under the condition stated, and where the code falls short of it.
\<close>

section \<open>Walks\<close>

text \<open>On a well-formed graph \<open>getChildren\<close> returns, and returns each node that can be reached
  from the given one by at least one connection exactly once.\<close>

theorem getChildren_exact:
  assumes "wf_graph g" "node_in g n"
  shows "\<exists>cs. getChildren g n = Inr cs \<and> distinct cs \<and> set cs = {m. (n, m) \<in> (graph_edges g)\<^sup>+}"
  using assms by (rule getChildren_reachable)

theorem getChildren_exact_witness:
  "\<exists>cs. getChildren (sample_graph False) node_t = Inr cs \<and> node_b \<in> set cs"
proof -
  have "(node_t, node_b) \<in> (graph_edges (sample_graph False))\<^sup>+"
    by (rule trancl_into_trancl [of _ "node_a False"]) (auto simp: sample_graph_edges)
  then show ?thesis using getChildren_exact [of "sample_graph False" node_t] by auto
qed

text \<open>On a well-formed graph \<open>getParentConnections\<close> returns, and returns each connection from
  whose end the given node can be reached (the node's own incoming connections included) exactly
  once.\<close>

theorem getParentConnections_exact:
  assumes "wf_graph g" "node_in g n"
  shows "\<exists>cs. getParentConnections g n = Inr cs \<and> distinct cs \<and>
    set cs = {c \<in> set (map_values (dg_connections g)). (gc_to c, n) \<in> (graph_edges g)\<^sup>*}"
  using assms by (rule getParentConnections_reachable)

theorem getParentConnections_exact_witness:
  "\<exists>cs. getParentConnections (sample_graph False) node_b = Inr cs \<and> distinct cs \<and>
     set cs = {main_connection node_t (node_a False), main_connection (node_a False) node_b}"
proof -
  have "(node_a False, node_b) \<in> (graph_edges (sample_graph False))\<^sup>*"
    by (rule r_into_rtrancl) (simp add: sample_graph_edges)
  then have "{c \<in> set (map_values (dg_connections (sample_graph False))).
      (gc_to c, node_b) \<in> (graph_edges (sample_graph False))\<^sup>*} =
      {main_connection node_t (node_a False), main_connection (node_a False) node_b}"
    unfolding sample_graph_values by (auto simp: main_connection_def)
  then show ?thesis using getParentConnections_exact [of "sample_graph False" node_b] by simp
qed

text \<open>The depth-first search returns, and returns a node satisfying the predicate that can be
  reached from the start (the start included) exactly when there is one.\<close>

theorem depthFirstSearch_complete:
  assumes "wf_graph g" "node_in g n"
  shows "\<exists>r. depthFirstSearch g n fn = Inr r \<and>
    (case r of Some m \<Rightarrow> fn m \<and> (n, m) \<in> (graph_edges g)\<^sup>*
     | None \<Rightarrow> \<not> (\<exists>m. (n, m) \<in> (graph_edges g)\<^sup>* \<and> fn m))"
  using depthFirstSearch_finds [OF assms, of fn] by (auto split: option.splits)

theorem depthFirstSearch_complete_witness:
  "\<exists>m. depthFirstSearch (sample_graph False) node_t (\<lambda>n. n = node_b) = Inr (Some m) \<and> m = node_b"
proof -
  have "(node_t, node_b) \<in> (graph_edges (sample_graph False))\<^sup>*"
    by (rule rtrancl_into_rtrancl [of _ "node_a False"]) (auto simp: sample_graph_edges)
  then show ?thesis
    using depthFirstSearch_complete [of "sample_graph False" node_t "\<lambda>n. n = node_b"]
    by (auto split: option.splits)
qed

section \<open>Copies, keys and removal\<close>

text \<open>\<open>clone\<close> of a well-formed graph succeeds and has the same nodes and connections, in the
  same order.\<close>

theorem clone_identity:
  assumes "wf_graph g"
  shows "clone g = Inr \<lparr>dg_nodes = dg_nodes g, dg_connections = dg_connections g\<rparr>"
  using assms by (rule clone_graph)

theorem clone_identity_witness:
  "clone (sample_graph True) = Inr \<lparr>dg_nodes = dg_nodes (sample_graph True),
     dg_connections = dg_connections (sample_graph True)\<rparr>"
  by (rule clone_identity) simp

text \<open>Removing a node, with or without reconnecting its neighbours, keeps the graph
  well-formed, provided none of the connections to be joined leads from the node to itself.\<close>

theorem removeNode_keeps_wf:
  assumes "wf_graph g" "node_in g n" "no_self_connection options g n"
  shows "\<exists>h cs. removeNode g n options = Inr (h, cs) \<and> wf_graph h \<and> \<not> node_in h n"
proof -
  obtain h cs where r: "removeNode g n options = Inr (h, cs)"
    using removeNode_total [OF assms(2)] by blast
  have "\<not> node_in h n" unfolding node_in_def removeNode_nodes [OF r] by simp
  with removeNode_wf [OF assms r] r show ?thesis by blast
qed

definition reconnect_all :: RemoveNodeOptions where
  "reconnect_all = \<lparr>reconnectConnections = True, skipConnectionFn = None\<rparr>"

theorem removeNode_keeps_wf_witness:
  "\<exists>h cs. removeNode (sample_graph False) (node_a False) reconnect_all = Inr (h, cs) \<and> wf_graph h \<and>
     \<not> node_in h (node_a False)"
proof (rule removeNode_keeps_wf)
  show "no_self_connection reconnect_all (sample_graph False) (node_a False)"
    unfolding no_self_connection_def sample_graph_values by (simp add: main_connection_def sample_nodes)
qed simp_all

definition self_loop_graph :: DirectedGraph where
  "self_loop_graph =
     foldl put_connection (addNodes empty_graph [node_t, node_b])
       [main_connection node_t node_b, main_connection node_b node_b]"

text \<open>The proviso is needed: when a node with a connection to itself is removed with
  reconnection, the graph keeps connections that lead to it although the node is gone.\<close>

theorem removeNode_self_loop_dangles:
  "case removeNode self_loop_graph node_b reconnect_all of
     Inl e \<Rightarrow> False
   | Inr (h, cs) \<Rightarrow> map gc_to (getConnections h None) = [node_b, node_b] \<and> \<not> hasNode h (node_name node_b)"
  by code_simp

text \<open>The key identifies a connection among the connections between nodes of one graph whose
  start node's name has no hyphen.\<close>

theorem makeKey_identifies:
  "inj_on makeKey {c. key_safe c \<and> node_in g (gc_from c) \<and> node_in g (gc_to c)}"
  by (rule inj_onI) (auto intro: makeKey_inj_graph [of _ _ g])

definition hyphen_nodes :: "INode list" where
  "hyphen_nodes = [sample_node 1 ''a'' ''x'' False, sample_node 2 ''b-main-0-0-c'' ''x'' False,
     sample_node 3 ''a-main-0-0-b'' ''x'' False, sample_node 4 ''c'' ''x'' False]"

text \<open>With hyphens in node names keys collide: of two connections between four different
  nodes, the graph keeps only the one added last.\<close>

theorem makeKey_collision:
  "map_values (dg_connections (foldl put_connection (addNodes empty_graph hyphen_nodes)
     [main_connection (hyphen_nodes ! 0) (hyphen_nodes ! 1),
      main_connection (hyphen_nodes ! 2) (hyphen_nodes ! 3)])) =
   [main_connection (hyphen_nodes ! 2) (hyphen_nodes ! 3)]"
  by code_simp

section \<open>Components and export\<close>

definition scc_node :: "nat \<Rightarrow> INode" where
  "scc_node i = sample_node i (nat_str i) ''x'' False"

definition scc_graph :: DirectedGraph where
  "scc_graph = foldl put_connection (addNodes empty_graph (map scc_node [0, 1, 2, 3]))
     (map (\<lambda>(i, j). main_connection (scc_node i) (scc_node j)) [(0, 1), (1, 2), (1, 3), (2, 1), (3, 0)])"

text \<open>The components found are not always the strongly connected components: here the four
  nodes form one component (each is a child of each), and only the singleton of the last is found.\<close>

theorem getStronglyConnectedComponents_incomplete:
  "getStronglyConnectedComponents scc_graph = Inr [[scc_node 3]] \<and>
   list_all (\<lambda>i. case getChildren scc_graph (scc_node i) of
       Inr cs \<Rightarrow> list_all (\<lambda>j. List.member cs (scc_node j)) [0, 1, 2, 3] | Inl e \<Rightarrow> False) [0, 1, 2, 3]"
  by code_simp

text \<open>A graph in which a node has outgoing connections of two types cannot be exported: the
  table created for the node's first connection has no entry for the second type.\<close>

theorem toIConnections_two_types:
  "toIConnections (foldl put_connection (addNodes empty_graph [node_t, node_a False, node_b])
     [main_connection node_t (node_a False),
      (main_connection node_t node_b)\<lparr>gc_type := AiTool\<rparr>]) = Inl TypeError"
  by code_simp

end
