(* ===== verification/PartialExecution.thy ===== *)
theory PartialExecution
  imports DirectedGraph
begin

text \<open>
  The steps of a partial execution (\<open>packages/core/src/execution-engine/partial-execution-utils\<close>):
  find the trigger, cut the subgraph between trigger and destination, find the start nodes, move
  them to the start of their cycle, clean the run data and rebuild the execution stack; and
  \<open>runPartialWorkflow2\<close> of \<open>workflow-execute.ts\<close>, which composes them.

  Two library functions are parameters: \<open>localeCompare\<close> of strings, whose order depends on the
  locale, and the sorting of an array with an inconsistent comparator, whose order the language
  leaves to the implementation.
\<close>

section \<open>Sorting with a comparator\<close>

text \<open>\<open>Array.prototype.sort\<close> is stable; for a consistent comparator its result is determined.\<close>

fun js_sort_insert :: "('a \<Rightarrow> 'a \<Rightarrow> int) \<Rightarrow> 'a \<Rightarrow> 'a list \<Rightarrow> 'a list" where
  "js_sort_insert cmp x [] = [x]"
| "js_sort_insert cmp x (y # ys) =
     (if cmp x y \<le> 0 then x # y # ys else y # js_sort_insert cmp x ys)"

definition js_sort :: "('a \<Rightarrow> 'a \<Rightarrow> int) \<Rightarrow> 'a list \<Rightarrow> 'a list" where
  "js_sort cmp xs = foldr (js_sort_insert cmp) xs []"

section \<open>Incoming data\<close>

definition getIncomingData ::
  "IRunData \<Rightarrow> string \<Rightarrow> int \<Rightarrow> NodeConnectionType \<Rightarrow> nat \<Rightarrow> INodeExecutionData list option res" where
  "getIncomingData runData nodeName runIndex connectionType outputIndex =
     (case map_of runData nodeName of
        None \<Rightarrow> Inr None
      | Some runs \<Rightarrow> case js_at runs runIndex of
          None \<Rightarrow> Inr None
        | Some taskData \<Rightarrow> case task_data taskData of
            None \<Rightarrow> Inr None
          | Some conns \<Rightarrow> case map_of conns connectionType of
              None \<Rightarrow> Inl TypeError
            | Some outputs \<Rightarrow> Inr (case js_at outputs (int outputIndex) of None \<Rightarrow> None | Some d \<Rightarrow> slot_value d))"

definition getRunIndexLength :: "IRunData \<Rightarrow> string \<Rightarrow> nat" where
  "getRunIndexLength runData nodeName =
     (case map_of runData nodeName of None \<Rightarrow> 0 | Some runs \<Rightarrow> length runs)"

fun any_run ::
  "IRunData \<Rightarrow> string \<Rightarrow> NodeConnectionType \<Rightarrow> nat \<Rightarrow> nat list \<Rightarrow>
   (INodeExecutionData list \<times> nat) option res" where
  "any_run runData nodeName connectionType outputIndex [] = Inr None"
| "any_run runData nodeName connectionType outputIndex (runIndex # rest) =
     res_bind (getIncomingData runData nodeName (int runIndex) connectionType outputIndex) (\<lambda>data.
       case data of
         Some items \<Rightarrow>
           if length items > 0 then Inr (Some (items, runIndex))
           else any_run runData nodeName connectionType outputIndex rest
       | None \<Rightarrow> any_run runData nodeName connectionType outputIndex rest)"

definition getIncomingDataFromAnyRun ::
  "IRunData \<Rightarrow> string \<Rightarrow> NodeConnectionType \<Rightarrow> nat \<Rightarrow> (INodeExecutionData list \<times> nat) option res" where
  "getIncomingDataFromAnyRun runData nodeName connectionType outputIndex =
     any_run runData nodeName connectionType outputIndex [0..<getRunIndexLength runData nodeName]"

section \<open>The trigger\<close>

fun trigger_candidates :: "Workflow \<Rightarrow> string list \<Rightarrow> (INode \<times> INodeType option) list res" where
  "trigger_candidates w [] = Inr []"
| "trigger_candidates w (name # names) =
     (case getNode w name of
        None \<Rightarrow> Inl AssertionError
      | Some node \<Rightarrow>
          res_bind (trigger_candidates w names) (\<lambda>rest.
            Inr ((node, wf_nodeTypes w (node_type node) (node_typeVersion node)) # rest)))"

text \<open>\<open>nodeType.description\<close> of an unknown type reads a property of \<open>undefined\<close>.\<close>

fun keep_triggers :: "(INode \<times> INodeType option) list \<Rightarrow> INode list res" where
  "keep_triggers [] = Inr []"
| "keep_triggers ((node, nodeType) # rest) =
     (case nodeType of
        None \<Rightarrow> Inl TypeError
      | Some ty \<Rightarrow>
          res_bind (keep_triggers rest) (\<lambda>nodes.
            Inr (if ''trigger'' \<in> set (nt_group ty) then node # nodes else nodes)))"

definition findAllParentTriggers :: "Workflow \<Rightarrow> string \<Rightarrow> INode list res" where
  "findAllParentTriggers w destinationNodeName =
     res_bind (getParentNodes w destinationNodeName (OfType Main) (-1)) (\<lambda>names.
     res_bind (trigger_candidates w names) (\<lambda>cands. keep_triggers cands))"

definition webhook_first :: "INode \<Rightarrow> INode \<Rightarrow> int" where
  "webhook_first n m = (if ends_with ''webhook'' (node_type n) then -1 else 1)"

definition findTriggerForPartialExecution ::
  "((INode \<Rightarrow> INode \<Rightarrow> int) \<Rightarrow> INode list \<Rightarrow> INode list) \<Rightarrow> Workflow \<Rightarrow> string \<Rightarrow> INode option res" where
  "findTriggerForPartialExecution sort_impl w destinationNodeName =
     res_bind (findAllParentTriggers w destinationNodeName) (\<lambda>triggers.
       let parentTriggers = filter (\<lambda>trigger. \<not> is_disabled trigger) triggers;
           pinnedTriggers = sort_impl webhook_first
             (filter (\<lambda>trigger. getPinDataOfNode w (node_name trigger) \<noteq> None) parentTriggers)
       in Inr (case pinnedTriggers of
                 p # _ \<Rightarrow> Some p
               | [] \<Rightarrow> (case parentTriggers of [] \<Rightarrow> None | t # _ \<Rightarrow> Some t)))"

section \<open>The subgraph\<close>

definition filterDisabledNodes :: "DirectedGraph \<Rightarrow> DirectedGraph res" where
  "filterDisabledNodes graph =
     res_bind (clone graph) (\<lambda>filteredGraph.
       fold_res (\<lambda>g node.
           if is_disabled node then
             res_bind (removeNode g node
                 \<lparr>reconnectConnections = True, skipConnectionFn = Some (\<lambda>c. gc_type c \<noteq> Main)\<rparr>)
               (\<lambda>(g', _). Inr g')
           else Inr g)
         filteredGraph (map_values (getNodes filteredGraph)))"

text \<open>\<open>newGraph.addNodes(c.from, c.to); newGraph.addConnection(c)\<close>.\<close>

definition keep_connection :: "DirectedGraph \<Rightarrow> GraphConnection \<Rightarrow> DirectedGraph res" where
  "keep_connection newGraph c =
     addConnection (addNodes newGraph [gc_from c, gc_to c]) (input_of c)"

fun findSubgraphRecursive ::
  "nat \<Rightarrow> DirectedGraph \<Rightarrow> INode \<Rightarrow> INode \<Rightarrow> INode \<Rightarrow> DirectedGraph \<Rightarrow> GraphConnection list \<Rightarrow>
   DirectedGraph res" where
  "findSubgraphRecursive 0 graph destinationNode current trigger newGraph currentBranch = Inl OutOfFuel"
| "findSubgraphRecursive (Suc fuel) graph destinationNode current trigger newGraph currentBranch =
     (if current = trigger then fold_res keep_connection newGraph currentBranch
      else res_bind (getDirectParentConnections graph current) (\<lambda>parentConnections.
        if length parentConnections = 0 then Inr newGraph
        else if current = destinationNode \<and> (\<exists>c \<in> set currentBranch. gc_to c = destinationNode)
        then Inr newGraph
        else if \<exists>c \<in> set currentBranch. gc_to c = current
        then fold_res keep_connection newGraph currentBranch
        else fold_res (\<lambda>newGraph parentConnection.
          if gc_type parentConnection \<noteq> Main then Inr newGraph
          else findSubgraphRecursive fuel graph destinationNode (gc_from parentConnection) trigger
                 newGraph (currentBranch @ [parentConnection]))
          newGraph parentConnections))"

definition add_utility_nodes :: "DirectedGraph \<Rightarrow> DirectedGraph \<Rightarrow> INode \<Rightarrow> DirectedGraph res" where
  "add_utility_nodes graph subgraph node =
     res_bind (getParentConnections graph node) (\<lambda>parentConnections.
       fold_res (\<lambda>subgraph connection.
           if gc_type connection = Main then Inr subgraph else keep_connection subgraph connection)
         subgraph parentConnections)"

text \<open>
  The loop of \<open>findSubgraph\<close> also visits the nodes that it adds itself. They change nothing: what leads to such
  a node leads to the node it was added for, and was added with it.
\<close>

definition findSubgraph :: "DirectedGraph \<Rightarrow> INode \<Rightarrow> INode \<Rightarrow> DirectedGraph res" where
  "findSubgraph graph destination trigger =
     res_bind (findSubgraphRecursive (Suc (Suc (length (dg_nodes graph)))) graph destination
                 destination trigger empty_graph [])
       (\<lambda>subgraph. fold_res (add_utility_nodes graph) subgraph (map_values (getNodes subgraph)))"

section \<open>Start nodes\<close>

definition isDirty :: "INode \<Rightarrow> IRunData \<Rightarrow> IPinData \<Rightarrow> bool" where
  "isDirty node runData pinData =
     (let propertiesOrOptionsChanged = False; parentNodeGotDisabled = False; hasAnError = False in
      if propertiesOrOptionsChanged then True
      else if parentNodeGotDisabled then True
      else if hasAnError then True
      else if map_of pinData (node_name node) \<noteq> None then False
      else if map_of runData (node_name node) \<noteq> None then False
      else True)"

text \<open>The set \<open>startNodes\<close> is shared by the recursion, \<open>seen\<close> is copied for each branch.\<close>

fun findStartNodesRecursive ::
  "nat \<Rightarrow> DirectedGraph \<Rightarrow> INode \<Rightarrow> INode \<Rightarrow> IRunData \<Rightarrow> IPinData \<Rightarrow> INode js_set \<Rightarrow> INode js_set \<Rightarrow>
   INode js_set res" where
  "findStartNodesRecursive 0 graph current destination runData pinData startNodes seen = Inl OutOfFuel"
| "findStartNodesRecursive (Suc fuel) graph current destination runData pinData startNodes seen =
     (if isDirty current runData pinData then Inr (set_add current startNodes)
      else if current = destination then Inr (set_add current startNodes)
      else
        res_bind
          (if node_type current = ''n8n-nodes-base.splitInBatches'' then
             res_bind (getIncomingData runData (node_name current) (-1) Main 0) (\<lambda>nodeRunData.
               Inr (case nodeRunData of None \<Rightarrow> True | Some items \<Rightarrow> length items = 0))
           else Inr False)
          (\<lambda>loopNotDone.
            if loopNotDone then Inr (set_add current startNodes)
            else if current \<in> set seen then Inr startNodes
            else res_bind (getDirectChildConnections graph current) (\<lambda>outGoingConnections.
              fold_res (\<lambda>startNodes outGoingConnection.
                res_bind (getIncomingDataFromAnyRun runData (node_name (gc_from outGoingConnection))
                    (gc_type outGoingConnection) (gc_outputIndex outGoingConnection)) (\<lambda>nodeRunData.
                  case nodeRunData of
                    None \<Rightarrow> Inr startNodes
                  | Some (data, _) \<Rightarrow>
                      if length data = 0 then Inr startNodes
                      else findStartNodesRecursive fuel graph (gc_to outGoingConnection) destination
                             runData pinData startNodes (set_add current seen)))
              startNodes outGoingConnections)))"

definition findStartNodes ::
  "DirectedGraph \<Rightarrow> INode \<Rightarrow> INode \<Rightarrow> IPinData \<Rightarrow> IRunData \<Rightarrow> INode js_set res" where
  "findStartNodes graph trigger destination pinData runData =
     findStartNodesRecursive (Suc (Suc (length (dg_nodes graph)))) graph trigger destination
       runData pinData [] []"

section \<open>Cycles\<close>

definition handleCycles :: "DirectedGraph \<Rightarrow> INode js_set \<Rightarrow> INode \<Rightarrow> INode js_set res" where
  "handleCycles graph startNodes trigger =
     res_bind (getStronglyConnectedComponents graph) (\<lambda>components.
       let cycles = filter (\<lambda>cycle. length cycle \<ge> 1) components;
           newStartNodes = startNodes
       in if length cycles = 0 then Inr newStartNodes
          else fold_res (\<lambda>newStartNodes (startNode, cycle).
            if startNode \<in> set cycle then
              res_bind (depthFirstSearch graph trigger (\<lambda>node. node \<in> set cycle)) (\<lambda>firstNode.
                case firstNode of
                  None \<Rightarrow> Inl AssertionError
                | Some n \<Rightarrow> Inr (set_add n (set_delete startNode newStartNodes)))
            else Inr newStartNodes)
          newStartNodes (List.product startNodes cycles))"

section \<open>Run data\<close>

definition clean_node :: "DirectedGraph \<Rightarrow> IRunData \<Rightarrow> INode \<Rightarrow> IRunData res" where
  "clean_node graph newRunData node =
     res_bind (getParentConnections graph node) (\<lambda>subNodeConnections.
       Inr (foldl (\<lambda>rd c. if gc_type c = Main then rd else map_delete (node_name (gc_from c)) rd)
         (map_delete (node_name node) newRunData) subNodeConnections))"

definition cleanRunData :: "IRunData \<Rightarrow> DirectedGraph \<Rightarrow> INode js_set \<Rightarrow> IRunData res" where
  "cleanRunData runData graph startNodes =
     res_bind
       (fold_res (\<lambda>newRunData startNode.
          let newRunData' = map_delete (node_name startNode) newRunData in
          res_bind (getChildren graph startNode) (\<lambda>children.
            fold_res (clean_node graph) newRunData' (startNode # children)))
        runData startNodes)
       (\<lambda>newRunData.
          Inr (foldl (\<lambda>rd nodeName. if hasNode graph nodeName then rd else map_delete nodeName rd)
            newRunData (map_keys newRunData)))"

end
