(* ===== verification/WorkflowFacts.thy ===== *)
theory WorkflowFacts
  imports WorkflowGraph
begin

text \<open>
  Facts about the connection tables of a workflow: the table by destination is the inversion of
  the table by source, connection by connection; and the walk over a table that copies the names
  met on its path (\<open>getConnectedNodes\<close>) returns exactly the names within the given distance.
\<close>

section \<open>The connections of a table\<close>

abbreviation entries :: "nat \<Rightarrow> 'c list option list \<Rightarrow> (nat \<times> 'c) list" where
  "entries n arr \<equiv> concat (map (\<lambda>(i, cs). map (Pair i) (flat_entry cs)) (enumerate n arr))"

lemma flat_types_entries:
  "flat_types tc = concat (map (\<lambda>(t, arr). map (Pair t) (entries 0 arr)) tc)"
  unfolding flat_types_def by (simp add: map_concat comp_def case_prod_unfold)

lemma entries_update:
  "i < length xs \<Longrightarrow> xs ! i = Some l \<Longrightarrow>
   mset (entries n (xs[i := Some (l @ [c])])) = mset (entries n xs) + {#(n + i, c)#}"
proof (induction xs arbitrary: n i)
  case Nil
  then show ?case by simp
next
  case (Cons x xs)
  show ?case
  proof (cases i)
    case 0
    with Cons.prems show ?thesis by (simp add: flat_entry_def)
  next
    case (Suc j)
    with Cons.prems have "mset (entries (Suc n) (xs[j := Some (l @ [c])])) =
        mset (entries (Suc n) xs) + {#(Suc n + j, c)#}" by (intro Cons.IH) auto
    with Suc show ?thesis by simp
  qed
qed

lemma entries_empty [simp]: "entries n (replicate k (Some [])) = []"
  by (induction k arbitrary: n) (simp_all add: flat_entry_def)

lemma entries_pad [simp]: "entries n (pad_connections i xs) = entries n xs"
  by (simp add: pad_connections_def enumerate_append_eq)

lemma length_pad: "i < length (pad_connections i xs)"
  by (simp add: pad_connections_def)

lemma pad_filled: "None \<notin> set xs \<Longrightarrow> None \<notin> set (pad_connections i xs)"
  by (simp add: pad_connections_def)

lemma push_at_filled:
  assumes "i < length xs" "None \<notin> set xs"
  shows "mset (entries n (push_at i c xs)) = mset (entries n xs) + {#(n + i, c)#}"
    and "None \<notin> set (push_at i c xs)"
proof -
  obtain l where l: "xs ! i = Some l" using assms by (metis not_None_eq nth_mem)
  then have "push_at i c xs = xs[i := Some (l @ [c])]"
    using assms(1) by (simp add: push_at_def js_nth_def)
  then show "mset (entries n (push_at i c xs)) = mset (entries n xs) + {#(n + i, c)#}"
    and "None \<notin> set (push_at i c xs)"
    using entries_update [OF assms(1) l] assms(2) set_update_subset_insert [of xs i "Some (l @ [c])"]
    by auto
qed

section \<open>Inversion\<close>

text \<open>Replacing the value of a key in a map changes the collected items of that key only.\<close>

lemma collect_map_set:
  "mset (concat (map (\<lambda>(k, v). f k v) (map_set k v m))) +
     mset (case map_of m k of None \<Rightarrow> [] | Some u \<Rightarrow> f k u) =
   mset (concat (map (\<lambda>(k, v). f k v) m)) + mset (f k v)"
  by (induction k v m rule: map_set.induct) auto

definition flip_connection ::
  "string \<times> NodeConnectionType \<times> nat \<times> IConnection \<Rightarrow> string \<times> NodeConnectionType \<times> nat \<times> IConnection" where
  "flip_connection e = (case e of (s, t, i, c) \<Rightarrow>
     (ic_node c, ic_type c, ic_index c, \<lparr>ic_node = s, ic_type = t, ic_index = i\<rparr>))"

lemma flip_flip [simp]: "flip_connection (flip_connection e) = e"
  by (cases e) (simp add: flip_connection_def)

text \<open>A table whose arrays have no null entry and whose keys are distinct.\<close>

definition filled_table :: "IConnections \<Rightarrow> bool" where
  "filled_table conns \<longleftrightarrow> distinct (map_keys conns) \<and>
     (\<forall>(s, tc) \<in> set conns. distinct (map_keys tc) \<and> (\<forall>(t, arr) \<in> set tc. None \<notin> set arr))"

lemma filled_tableD:
  assumes "filled_table conns"
  shows "distinct (map_keys conns)" and "(s, tc) \<in> set conns \<Longrightarrow> distinct (map_keys tc)"
    and "(s, tc) \<in> set conns \<Longrightarrow> (t, arr) \<in> set tc \<Longrightarrow> None \<notin> set arr"
  using assms unfolding filled_table_def by blast+

lemma add_by_destination_step:
  assumes "filled_table ret"
  shows "filled_table (add_by_destination ret e) \<and>
    mset (flat_connections (add_by_destination ret e)) = mset (flat_connections ret) + {#flip_connection e#}"
proof -
  obtain s t i c where e: "e = (s, t, i, c)" by (cases e)
  let ?d = "\<lparr>ic_node = s, ic_type = t, ic_index = i\<rparr>"
  define tc where "tc = (case map_of ret (ic_node c) of None \<Rightarrow> [] | Some m \<Rightarrow> m)"
  define arr where "arr = (case map_of tc (ic_type c) of None \<Rightarrow> [] | Some a \<Rightarrow> a)"
  define arr' where "arr' = push_at (ic_index c) ?d (pad_connections (ic_index c) arr)"
  define tc' where "tc' = map_set (ic_type c) arr' tc"
  have ret': "add_by_destination ret e = map_set (ic_node c) tc' ret"
    by (simp add: add_by_destination_def e tc_def arr_def arr'_def tc'_def Let_def)
  have tc: "distinct (map_keys tc)" "\<And>t arr. (t, arr) \<in> set tc \<Longrightarrow> None \<notin> set arr"
    using filled_tableD(2,3) [OF assms map_of_SomeD] unfolding tc_def
    by (cases "map_of ret (ic_node c)"; fastforce)+
  have arr: "None \<notin> set arr" using tc(2) [OF map_of_SomeD] unfolding arr_def
    by (cases "map_of tc (ic_type c)"; fastforce)
  have push: "mset (entries 0 arr') = mset (entries 0 arr) + {#(ic_index c, ?d)#}" "None \<notin> set arr'"
    using push_at_filled(1) [OF length_pad pad_filled [OF arr], of 0 "ic_index c"]
      push_at_filled(2) [OF length_pad pad_filled [OF arr], of "ic_index c"] unfolding arr'_def by auto
  have types: "mset (flat_types tc') = mset (flat_types tc) + {#(ic_type c, ic_index c, ?d)#}"
    using collect_map_set [of "\<lambda>t arr. map (Pair t) (entries 0 arr)" "ic_type c" arr' tc] push(1)
    unfolding flat_types_entries tc'_def [symmetric] arr_def
    by (auto simp: case_prod_unfold image_mset_union split: option.splits)
  have "mset (flat_connections (map_set (ic_node c) tc' ret)) =
      mset (flat_connections ret) + {#flip_connection e#}"
    using collect_map_set [of "\<lambda>s tc. map (Pair s) (flat_types tc)" "ic_node c" tc' ret] types
    unfolding flat_connections_def tc_def e flip_connection_def
    by (auto simp: flat_types_def split: option.splits)
  moreover have "filled_table (map_set (ic_node c) tc' ret)"
    unfolding filled_table_def
  proof (intro conjI ballI)
    show "distinct (map_keys (map_set (ic_node c) tc' ret))"
      using filled_tableD(1) [OF assms] by blast
    fix p
    assume "p \<in> set (map_set (ic_node c) tc' ret)"
    then have "p = (ic_node c, tc') \<or> p \<in> set ret" using set_map_set_subset by fastforce
    moreover have "distinct (map_keys tc')" using tc(1) unfolding tc'_def by blast
    moreover have "None \<notin> set a" if "(u, a) \<in> set tc'" for u a
      using that set_map_set_subset [of "ic_type c" arr' tc] tc(2) push(2) unfolding tc'_def by blast
    ultimately show "case p of (s, tc) \<Rightarrow> distinct (map_keys tc) \<and> (\<forall>(t, arr) \<in> set tc. None \<notin> set arr)"
      using assms unfolding filled_table_def by auto
  qed
  ultimately show ?thesis unfolding ret' by blast
qed

lemma getConnectionsByDestination_steps:
  "filled_table ret \<Longrightarrow> filled_table (foldl add_by_destination ret es) \<and>
   mset (flat_connections (foldl add_by_destination ret es)) =
     mset (flat_connections ret) + image_mset flip_connection (mset es)"
proof (induction es arbitrary: ret)
  case Nil
  then show ?case by simp
next
  case (Cons e es)
  then show ?case using add_by_destination_step [of ret e] by simp
qed

lemma getConnectionsByDestination_filled: "filled_table (getConnectionsByDestination conns)"
  using getConnectionsByDestination_steps [of "[]"]
  by (simp add: getConnectionsByDestination_def filled_table_def)

lemma inverted_mset:
  "mset (flat_connections (getConnectionsByDestination conns)) =
   image_mset flip_connection (mset (flat_connections conns))"
  using getConnectionsByDestination_steps [of "[]" "flat_connections conns"]
  by (simp add: getConnectionsByDestination_def filled_table_def flat_connections_def)

lemma inverted_set:
  "set (flat_connections (getConnectionsByDestination conns)) = flip_connection ` set (flat_connections conns)"
  using arg_cong [OF inverted_mset, of set_mset] by simp

text \<open>C11: the table by destination has exactly the connections of the table by source, each with
  its two ends exchanged and as often as it occurs there, whatever the table: null entries, several
  types per node, duplicates and connections to unknown nodes included.\<close>

theorem getConnectionsByDestination_inverts:
  "mset (flat_connections (getConnectionsByDestination conns)) =
   image_mset flip_connection (mset (flat_connections conns))"
  by (rule inverted_mset)

section \<open>Paths that avoid nodes\<close>

text \<open>
  A search that copies the nodes met on its path follows simple paths only. What it can reach is
  what the relation reaches over targets outside the avoided set, within the given distance.
\<close>

definition avoid :: "('a \<times> 'a) set \<Rightarrow> 'a set \<Rightarrow> ('a \<times> 'a) set" where
  "avoid r C = {(a, b) \<in> r. b \<notin> C}"

definition allowed :: "int \<Rightarrow> nat \<Rightarrow> bool" where
  "allowed depth k \<longleftrightarrow> depth < 0 \<or> int k \<le> depth"

definition in_reach :: "('a \<times> 'a) set \<Rightarrow> 'a set \<Rightarrow> int \<Rightarrow> 'a \<Rightarrow> 'a set" where
  "in_reach r C depth n = {m. \<exists>k > 0. allowed depth k \<and> (n, m) \<in> avoid r C ^^ k}"

lemma avoid_mono: "C \<subseteq> D \<Longrightarrow> avoid r D \<subseteq> avoid r C"
  by (auto simp: avoid_def)

lemma avoid_shorten:
  "(b, m) \<in> avoid r C ^^ k \<Longrightarrow> m \<noteq> b \<Longrightarrow> \<exists>j \<le> k. 0 < j \<and> (b, m) \<in> avoid r (insert b C) ^^ j"
proof (induction k arbitrary: m)
  case 0
  then show ?case by simp
next
  case (Suc k)
  from Suc.prems(1) obtain y where y: "(b, y) \<in> avoid r C ^^ k" "(y, m) \<in> avoid r C" by auto
  have last: "(y, m) \<in> avoid r (insert b C)" using y(2) Suc.prems(2) by (simp add: avoid_def)
  show ?case
  proof (cases "y = b")
    case True
    with last show ?thesis by (intro exI [of _ 1]) simp
  next
    case False
    with Suc.IH [OF y(1)] obtain j where "j \<le> k" "0 < j" "(b, y) \<in> avoid r (insert b C) ^^ j" by auto
    with last show ?thesis by (intro exI [of _ "Suc j"]) auto
  qed
qed

lemma relpow_mono_rel: "r \<subseteq> s \<Longrightarrow> r ^^ k \<subseteq> (s ^^ k :: ('a \<times> 'a) set)"
  by (induction k) auto

lemma in_reach_step:
  assumes "depth \<noteq> 0" "depth' = (if depth = -1 then depth else depth - 1)"
  shows "in_reach r C depth n =
    (\<Union>b \<in> {b. (n, b) \<in> r \<and> b \<notin> C}. insert b (in_reach r (insert b C) depth' b))"
proof (intro set_eqI iffI)
  fix m
  assume "m \<in> in_reach r C depth n"
  then obtain k where k: "allowed depth (Suc k)" "(n, m) \<in> avoid r C ^^ Suc k"
    unfolding in_reach_def by (auto simp: gr0_conv_Suc)
  from relpow_Suc_D2 [OF k(2)] obtain b where b: "(n, b) \<in> avoid r C" "(b, m) \<in> avoid r C ^^ k" by blast
  have "m = b \<or> m \<in> in_reach r (insert b C) depth' b"
  proof (cases "m = b")
    case False
    with avoid_shorten [OF b(2)] obtain j where
      "j \<le> k" "0 < j" "(b, m) \<in> avoid r (insert b C) ^^ j" by blast
    moreover have "allowed depth' j" using k(1) \<open>j \<le> k\<close> assms by (auto simp: allowed_def)
    ultimately show ?thesis by (auto simp: in_reach_def)
  qed simp
  with b(1) show "m \<in> (\<Union>b \<in> {b. (n, b) \<in> r \<and> b \<notin> C}. insert b (in_reach r (insert b C) depth' b))"
    by (auto simp: avoid_def)
next
  fix m
  assume "m \<in> (\<Union>b \<in> {b. (n, b) \<in> r \<and> b \<notin> C}. insert b (in_reach r (insert b C) depth' b))"
  then obtain b where b: "(n, b) \<in> avoid r C" "m = b \<or> m \<in> in_reach r (insert b C) depth' b"
    by (auto simp: avoid_def)
  from b(2) show "m \<in> in_reach r C depth n"
  proof
    assume "m = b"
    moreover have "allowed depth 1" using assms(1) by (auto simp: allowed_def)
    ultimately show ?thesis using b(1) unfolding in_reach_def
      by (intro CollectI exI [of _ 1]) simp
  next
    assume "m \<in> in_reach r (insert b C) depth' b"
    then obtain k where k: "allowed depth' k" "(b, m) \<in> avoid r (insert b C) ^^ k"
      by (auto simp: in_reach_def)
    have "(b, m) \<in> avoid r C ^^ k"
      using k(2) relpow_mono_rel [OF avoid_mono [of C "insert b C" r], of k] by blast
    with b(1) have "(n, m) \<in> avoid r C ^^ Suc k" by (rule relpow_Suc_I2)
    moreover have "allowed depth (Suc k)" using k(1) assms by (auto simp: allowed_def split: if_splits)
    ultimately show ?thesis unfolding in_reach_def by (intro CollectI exI [of _ "Suc k"]) simp
  qed
qed

lemma in_reach_zero [simp]: "in_reach r C 0 n = {}"
  by (auto simp: in_reach_def allowed_def)

lemma in_reach_no_edge: "(\<And>b. (n, b) \<notin> r) \<Longrightarrow> in_reach r C depth n = {}"
  by (auto simp: in_reach_def avoid_def gr0_conv_Suc dest!: relpow_Suc_D2)

text \<open>From a node that is itself avoided, avoiding it only loses the way back to it.\<close>

lemma in_reach_self:
  "in_reach r {n} depth n = {m. m \<noteq> n \<and> (\<exists>k > 0. allowed depth k \<and> (n, m) \<in> r ^^ k)}"
proof -
  have all: "avoid r {} = r" by (auto simp: avoid_def)
  have "m \<noteq> n" if "m \<in> in_reach r {n} depth n" for m
    using that by (auto simp: in_reach_def avoid_def gr0_conv_Suc)
  moreover have "(n, m) \<in> avoid r {n} ^^ k \<Longrightarrow> (n, m) \<in> r ^^ k" for m k
    using relpow_mono_rel [OF avoid_mono [of "{}" "{n}" r], of k] all by auto
  moreover have "m \<in> in_reach r {n} depth n"
    if "m \<noteq> n" "allowed depth k" "(n, m) \<in> r ^^ k" for m k
  proof -
    have "(n, m) \<in> avoid r {} ^^ k" using that(3) by (simp add: all)
    from avoid_shorten [OF this that(1)] obtain j where
      "j \<le> k" "0 < j" "(n, m) \<in> avoid r {n} ^^ j" by auto
    with that(2) show ?thesis by (auto simp: in_reach_def allowed_def)
  qed
  ultimately show ?thesis by (auto simp: in_reach_def)
qed

section \<open>Connected nodes\<close>

lemma set_move_to_front [simp]: "set (move_to_front x xs) = insert x (set xs)"
  using insert_remove_at [of _ xs] find_index_Some [of "\<lambda>y. y = x" xs]
  by (auto simp: move_to_front_def split: option.splits)

lemma set_add_nodes_front [simp]: "set (add_nodes_front ns ret) = set ns \<union> set ret"
  by (induction ns) (auto simp: add_nodes_front_def)

definition table_edges :: "IConnections \<Rightarrow> connection_filter \<Rightarrow> (string \<times> string) set" where
  "table_edges conns f = {(a, b). \<exists>tc t arr. map_of conns a = Some tc \<and> t \<in> set (filter_types tc f) \<and>
     map_of tc t = Some arr \<and> b \<in> ic_node ` set (concat (map flat_entry arr))}"

lemma union_over_types:
  "(\<Union>t \<in> T. case m t of None \<Rightarrow> {} | Some arr \<Rightarrow> (\<Union>c \<in> set (S arr). G (h c))) =
   (\<Union>b \<in> {b. \<exists>t \<in> T. \<exists>arr. m t = Some arr \<and> (\<exists>c \<in> set (S arr). h c = b)}. G b)"
  (is "?l = ?r")
proof (rule set_eqI)
  fix x
  have "x \<in> ?l \<longleftrightarrow> (\<exists>t \<in> T. \<exists>arr. m t = Some arr \<and> (\<exists>c \<in> set (S arr). x \<in> G (h c)))"
    by (force split: option.splits)
  also have "\<dots> \<longleftrightarrow> x \<in> ?r" by blast
  finally show "x \<in> ?l \<longleftrightarrow> x \<in> ?r" .
qed

lemma getConnectedNodes_fuel_reach:
  assumes "n \<notin> set checked" "card (fst ` set conns - set checked) < fuel"
  shows "\<exists>ns. getConnectedNodes_fuel fuel conns n f depth checked = Inr ns \<and>
    set ns = in_reach (table_edges conns f) (insert n (set checked)) depth n"
  using assms
proof (induction fuel arbitrary: n checked depth)
  case 0
  then show ?case by simp
next
  case (Suc fuel)
  show ?case
  proof (cases "depth = 0 \<or> map_of conns n = None")
    case True
    have "in_reach (table_edges conns f) (insert n (set checked)) depth n = {}" if "map_of conns n = None"
      by (rule in_reach_no_edge) (simp add: table_edges_def that)
    with True show ?thesis by (auto split: option.splits)
  next
    case False
    then obtain tc where tc: "map_of conns n = Some tc" and d: "depth \<noteq> 0" by auto
    let ?C = "insert n (set checked)"
    define depth' where "depth' = (if depth = -1 then depth else depth - 1)"
    let ?E = "table_edges conns f"
    let ?rec = "\<lambda>b. getConnectedNodes_fuel fuel conns b f depth' (checked @ [n])"
    let ?G = "\<lambda>b. if b \<in> ?C then {} else insert b (in_reach ?E (insert b ?C) depth' b)"
    let ?one = "\<lambda>ret c. if ic_node c \<in> set (checked @ [n]) then Inr ret
      else res_bind (?rec (ic_node c)) (\<lambda>add. Inr (add_nodes_front add (ic_node c # ret)))"
    have "n \<in> fst ` set conns" using tc by (force dest: map_of_SomeD)
    then have "card (fst ` set conns - set (checked @ [n])) < card (fst ` set conns - set checked)"
      using Suc.prems(1) by (intro psubset_card_mono) auto
    with Suc.prems(2) have small: "card (fst ` set conns - set (checked @ [n])) < fuel" by simp
    have one: "\<exists>ret'. ?one ret c = Inr ret' \<and> set ret' = set ret \<union> ?G (ic_node c)" for ret c
    proof (cases "ic_node c \<in> ?C")
      case False
      with Suc.IH [of "ic_node c" "checked @ [n]" depth'] small obtain ns where
        "?rec (ic_node c) = Inr ns" "set ns = in_reach ?E (insert (ic_node c) ?C) depth' (ic_node c)"
        by (auto simp: insert_commute)
      with False show ?thesis by auto
    qed auto
    have arr: "\<exists>ret'. fold_res ?one ret cs = Inr ret' \<and> set ret' = set ret \<union> (\<Union>c \<in> set cs. ?G (ic_node c))"
      for ret cs by (rule fold_res_collect) (rule one)
    let ?type = "\<lambda>ret t. case map_of tc t of None \<Rightarrow> Inr ret
      | Some arr \<Rightarrow> if n \<in> set checked then Inr ret else fold_res ?one ret (concat (map flat_entry arr))"
    let ?H = "\<lambda>t. case map_of tc t of None \<Rightarrow> {}
      | Some arr \<Rightarrow> (\<Union>c \<in> set (concat (map flat_entry arr)). ?G (ic_node c))"
    have "\<exists>ret'. ?type ret t = Inr ret' \<and> set ret' = set ret \<union> ?H t" for ret t
    proof (cases "map_of tc t")
      case (Some arr')
      show ?thesis unfolding Some option.case if_not_P [OF Suc.prems(1)] by (rule arr)
    qed simp
    then obtain ns where ns: "fold_res ?type [] (filter_types tc f) = Inr ns"
      "set ns = (\<Union>t \<in> set (filter_types tc f). ?H t)"
      using fold_res_collect [of "filter_types tc f" ?type ?H "[]"] by auto
    have edge: "(n, b) \<in> ?E \<longleftrightarrow> (\<exists>t \<in> set (filter_types tc f). \<exists>arr. map_of tc t = Some arr \<and>
        (\<exists>c \<in> set (concat (map flat_entry arr)). ic_node c = b))" for b
      unfolding table_edges_def using tc by auto
    have "(\<Union>t \<in> set (filter_types tc f). ?H t) = (\<Union>b \<in> {b. (n, b) \<in> ?E}. ?G b)"
      unfolding edge by (rule union_over_types)
    also have "\<dots> = (\<Union>b \<in> {b. (n, b) \<in> ?E \<and> b \<notin> ?C}. insert b (in_reach ?E (insert b ?C) depth' b))"
      by auto
    also have "\<dots> = in_reach ?E ?C depth n" by (rule in_reach_step [OF d depth'_def, symmetric])
    finally show ?thesis using ns tc d by (simp add: Let_def depth'_def [symmetric] del: set_append)
  qed
qed

lemma getConnectedNodes_reach:
  "\<exists>ns. getConnectedNodes conns n f depth = Inr ns \<and>
     set ns = {m. m \<noteq> n \<and> (\<exists>k > 0. (depth < 0 \<or> int k \<le> depth) \<and> (n, m) \<in> table_edges conns f ^^ k)}"
proof -
  have "card (fst ` set conns) < Suc (Suc (length conns))"
    using card_length [of "map fst conns"] by simp
  then show ?thesis
    using getConnectedNodes_fuel_reach [of n "[]" conns "Suc (Suc (length conns))" f depth]
    by (simp add: getConnectedNodes_def in_reach_self allowed_def del: getConnectedNodes_fuel.simps)
qed

text \<open>For every table, start, filter of types and depth (negative: no limit) the walk of
  \<open>getConnectedNodes\<close> ends, and the names it returns are exactly those other than the start that a
  path of at most that many connections of the wanted types leads to.\<close>

theorem getConnectedNodes_exact:
  "\<exists>ns. getConnectedNodes conns n f depth = Inr ns \<and>
     set ns = {m. m \<noteq> n \<and> (\<exists>k > 0. (depth < 0 \<or> int k \<le> depth) \<and> (n, m) \<in> table_edges conns f ^^ k)}"
  by (rule getConnectedNodes_reach)

lemma map_of_entry: "distinct (map_keys m) \<Longrightarrow> map_of m k = Some v \<longleftrightarrow> (k, v) \<in> set m"
  by simp

lemma flat_connections_iff:
  "(s, t, i, c) \<in> set (flat_connections conns) \<longleftrightarrow>
   (\<exists>tc arr. (s, tc) \<in> set conns \<and> (t, arr) \<in> set tc \<and> (i, c) \<in> set (entries 0 arr))"
  unfolding flat_connections_def flat_types_entries by force

lemma entries_items: "snd ` set (entries n arr) = set (concat (map flat_entry arr))"
proof (induction arr arbitrary: n)
  case (Cons x arr)
  then show ?case by (auto simp: image_Un image_image simp del: set_concat)
qed simp

lemma table_edges_flat:
  assumes "filled_table conns"
  shows "table_edges conns (OfType t) =
    {(a, b). \<exists>i c. (a, t, i, c) \<in> set (flat_connections conns) \<and> ic_node c = b}"
proof -
  have "(a, b) \<in> table_edges conns (OfType t) \<longleftrightarrow>
      (\<exists>i c. (a, t, i, c) \<in> set (flat_connections conns) \<and> ic_node c = b)" for a b
  proof -
    have "(a, b) \<in> table_edges conns (OfType t) \<longleftrightarrow> (\<exists>tc arr. (a, tc) \<in> set conns \<and> (t, arr) \<in> set tc \<and>
        b \<in> ic_node ` snd ` set (entries 0 arr))"
      unfolding table_edges_def entries_items [symmetric, of _ 0]
      using filled_tableD(1) [OF assms] map_of_entry [OF filled_tableD(2) [OF assms], of a _ t]
      by (simp add: filter_types_def del: set_concat image_image cong: conj_cong)
    then show ?thesis unfolding flat_connections_iff by force
  qed
  then show ?thesis by auto
qed

definition connection_edges :: "IConnections \<Rightarrow> NodeConnectionType \<Rightarrow> (string \<times> string) set" where
  "connection_edges conns t =
     {(a, b). \<exists>s i c. (a, s, i, c) \<in> set (flat_connections conns) \<and> ic_type c = t \<and> ic_node c = b}"

lemma inverted_edges:
  "table_edges (getConnectionsByDestination conns) (OfType t) = (connection_edges conns t)\<inverse>"
  unfolding table_edges_flat [OF getConnectionsByDestination_filled] connection_edges_def inverted_set
  by (force simp: flip_connection_def)

lemma relpow_pos_trancl: "(\<exists>k > 0. (a, b) \<in> r ^^ k) \<longleftrightarrow> (a, b) \<in> r\<^sup>+"
  by (auto simp: trancl_power)

lemma getParentNodes_names:
  assumes "wf_connectionsByDestinationNode w = getConnectionsByDestination (wf_connectionsBySourceNode w)"
  shows "\<exists>ns. getParentNodes w n (OfType t) (-1) = Inr ns \<and>
    set ns = {m. m \<noteq> n \<and> (m, n) \<in> (connection_edges (wf_connectionsBySourceNode w) t)\<^sup>+}"
proof -
  let ?D = "getConnectionsByDestination (wf_connectionsBySourceNode w)"
  have "card (fst ` set ?D) < Suc (Suc (length ?D))"
    using card_length [of "map fst ?D"] by simp
  then obtain ns where "getParentNodes w n (OfType t) (-1) = Inr ns"
    "set ns = {m. m \<noteq> n \<and> (n, m) \<in> (table_edges ?D (OfType t))\<^sup>+}"
    using getConnectedNodes_fuel_reach [of n "[]" ?D "Suc (Suc (length ?D))" "OfType t" "-1"]
    by (auto simp: getParentNodes_def assms getConnectedNodes_def in_reach_self allowed_def
        relpow_pos_trancl simp del: getConnectedNodes_fuel.simps)
  then show ?thesis by (simp add: inverted_edges trancl_converse)
qed

text \<open>In a workflow whose table by destination was built by the constructor,
  \<open>getParentNodes\<close> of a node for a type returns exactly the names of the other nodes from which
  a path of connections of that type in the table by source leads to the node.\<close>

theorem getParentNodes_exact:
  assumes "wf_connectionsByDestinationNode w = getConnectionsByDestination (wf_connectionsBySourceNode w)"
  shows "\<exists>ns. getParentNodes w n (OfType t) (-1) = Inr ns \<and>
    set ns = {m. m \<noteq> n \<and> (m, n) \<in> (connection_edges (wf_connectionsBySourceNode w) t)\<^sup>+}"
  by (rule getParentNodes_names [OF assms])

text \<open>A workflow of three nodes in a row: a trigger \<open>T\<close>, then \<open>A\<close>, then \<open>B\<close>.\<close>

definition sample_table :: IConnections where
  "sample_table =
     [(''T'', [(Main, [Some [\<lparr>ic_node = ''A'', ic_type = Main, ic_index = 0\<rparr>]])]),
      (''A'', [(Main, [None, Some [\<lparr>ic_node = ''B'', ic_type = Main, ic_index = 0\<rparr>]])])]"

definition sample_type :: "string \<Rightarrow> rat \<Rightarrow> INodeType option" where
  "sample_type name version = Some \<lparr>nt_name = name,
     nt_group = (if name = ''trigger'' then [''trigger''] else [''transform'']),
     nt_trigger = (name = ''trigger''), nt_poll = False,
     nt_execute = True, nt_webhook = False, nt_requiredInputs = None, nt_inputs = 1\<rparr>"

definition sample_workflow :: "INode list \<Rightarrow> Workflow" where
  "sample_workflow nodes = \<lparr>wf_nodes = map (\<lambda>n. (node_name n, n)) nodes,
     wf_connectionsBySourceNode = sample_table,
     wf_connectionsByDestinationNode = getConnectionsByDestination sample_table,
     wf_nodeTypes = sample_type, wf_pinData = None, wf_executionOrder = None\<rparr>"

lemma sample_table_edges: "connection_edges sample_table Main = {(''T'', ''A''), (''A'', ''B'')}"
  by (auto simp: connection_edges_def sample_table_def flat_connections_def flat_types_def flat_entry_def)

lemma sample_table_parents:
  "(m, ''B'') \<in> (connection_edges sample_table Main)\<^sup>+ \<longleftrightarrow> m = ''T'' \<or> m = ''A''"
proof -
  have "(''A'', ''B'') \<in> (connection_edges sample_table Main)\<^sup>+" by (rule r_into_trancl) (simp add: sample_table_edges)
  moreover then have "(''T'', ''B'') \<in> (connection_edges sample_table Main)\<^sup>+"
    by (rule trancl_into_trancl2 [rotated]) (simp add: sample_table_edges)
  moreover have "m = ''T'' \<or> m = ''A''" if "(m, ''B'') \<in> (connection_edges sample_table Main)\<^sup>+"
    using tranclD [OF that] by (auto simp: sample_table_edges)
  ultimately show ?thesis by blast
qed

theorem getParentNodes_exact_witness:
  "\<exists>ns. getParentNodes (sample_workflow []) ''B'' (OfType Main) (-1) = Inr ns \<and> set ns = {''T'', ''A''}"
proof -
  have "{m. m \<noteq> ''B'' \<and> (m, ''B'') \<in> (connection_edges sample_table Main)\<^sup>+} = {''T'', ''A''}"
    unfolding sample_table_parents by auto
  then show ?thesis using getParentNodes_exact [of "sample_workflow []" "''B''" Main]
    by (simp add: sample_workflow_def)
qed

end
