(* ===== verification/PartialStart.thy ===== *)
theory PartialStart
  imports Samples PartialExecution WorkflowFacts
begin

text \<open>
  Where a partial execution starts: the trigger it chooses, the start nodes between trigger and
  destination, and the run data that is kept.
\<close>

section \<open>The trigger\<close>

definition node_for :: "Workflow \<Rightarrow> string \<Rightarrow> INode" where
  "node_for w name = the (getNode w name)"

definition is_trigger :: "Workflow \<Rightarrow> INode \<Rightarrow> bool" where
  "is_trigger w node = (case wf_nodeTypes w (node_type node) (node_typeVersion node) of
     None \<Rightarrow> False | Some ty \<Rightarrow> ''trigger'' \<in> set (nt_group ty))"

definition known_name :: "Workflow \<Rightarrow> string \<Rightarrow> bool" where
  "known_name w name \<longleftrightarrow> (\<exists>node ty. getNode w name = Some node \<and>
     wf_nodeTypes w (node_type node) (node_typeVersion node) = Some ty)"

lemma trigger_candidates_known:
  "\<forall>name \<in> set names. known_name w name \<Longrightarrow>
   \<exists>cands. trigger_candidates w names = Inr cands \<and>
     keep_triggers cands = Inr (filter (is_trigger w) (map (node_for w) names))"
proof (induction names)
  case Nil
  then show ?case by simp
next
  case (Cons name names)
  then obtain cands where c: "trigger_candidates w names = Inr cands"
    "keep_triggers cands = Inr (filter (is_trigger w) (map (node_for w) names))" by auto
  obtain node ty where "getNode w name = Some node"
    "wf_nodeTypes w (node_type node) (node_typeVersion node) = Some ty"
    using Cons.prems by (auto simp: known_name_def)
  moreover then have "node_for w name = node" "is_trigger w node \<longleftrightarrow> ''trigger'' \<in> set (nt_group ty)"
    by (simp_all add: node_for_def is_trigger_def)
  ultimately show ?case using c by simp
qed

text \<open>The enabled triggers among the nodes that lead to the destination over main connections.\<close>

definition parent_triggers :: "Workflow \<Rightarrow> string \<Rightarrow> INode set" where
  "parent_triggers w destination = {node. is_trigger w node \<and> \<not> is_disabled node \<and>
     (\<exists>name. name \<noteq> destination \<and> getNode w name = Some node \<and>
       (name, destination) \<in> (connection_edges (wf_connectionsBySourceNode w) Main)\<^sup>+)}"

definition pinned_in :: "Workflow \<Rightarrow> INode \<Rightarrow> bool" where
  "pinned_in w node = (getPinDataOfNode w (node_name node) \<noteq> None)"

lemma findTrigger_choice:
  assumes sort: "\<And>cmp xs. mset (sort_impl cmp xs) = mset xs"
    and triggers: "findAllParentTriggers w destination = Inr triggers"
  shows "\<exists>r. findTriggerForPartialExecution sort_impl w destination = Inr r \<and>
    (case r of None \<Rightarrow> \<forall>t \<in> set triggers. is_disabled t
     | Some t \<Rightarrow> t \<in> set triggers \<and> \<not> is_disabled t \<and>
         ((\<exists>u \<in> set triggers. \<not> is_disabled u \<and> pinned_in w u) \<longrightarrow> pinned_in w t))"
proof -
  define parents where "parents = filter (\<lambda>trigger. \<not> is_disabled trigger) triggers"
  define pinned where "pinned = sort_impl webhook_first (filter (pinned_in w) parents)"
  have r: "findTriggerForPartialExecution sort_impl w destination =
      Inr (case pinned of p # _ \<Rightarrow> Some p | [] \<Rightarrow> (case parents of [] \<Rightarrow> None | t # _ \<Rightarrow> Some t))"
    unfolding findTriggerForPartialExecution_def pinned_def parents_def pinned_in_def [abs_def] triggers
    by (simp add: Let_def)
  have P: "set pinned = {t \<in> set parents. pinned_in w t}"
    using arg_cong [OF sort, of set_mset webhook_first "filter (pinned_in w) parents"]
    by (auto simp: pinned_def)
  have Q: "set parents = {t \<in> set triggers. \<not> is_disabled t}" by (auto simp: parents_def)
  have "pinned = [] \<Longrightarrow> t \<in> set parents \<Longrightarrow> \<not> pinned_in w t" for t using P by auto
  moreover have "p \<in> set pinned" if "pinned = p # ps" for p ps using that by simp
  moreover have "t \<in> set parents" if "parents = t # ts" for t ts using that by simp
  ultimately show ?thesis unfolding r P Q by (cases pinned; cases parents) (use Q in auto)
qed

lemma findAllParentTriggers_exact:
  assumes tables: "wf_connectionsByDestinationNode w = getConnectionsByDestination (wf_connectionsBySourceNode w)"
    and known: "\<And>name. (name, destination) \<in> (connection_edges (wf_connectionsBySourceNode w) Main)\<^sup>+ \<Longrightarrow> known_name w name"
  shows "\<exists>triggers. findAllParentTriggers w destination = Inr triggers \<and>
    {t \<in> set triggers. \<not> is_disabled t} = parent_triggers w destination"
proof -
  obtain names where names: "getParentNodes w destination (OfType Main) (-1) = Inr names"
    "set names = {m. m \<noteq> destination \<and> (m, destination) \<in> (connection_edges (wf_connectionsBySourceNode w) Main)\<^sup>+}"
    using getParentNodes_names [OF tables, of destination Main] by (elim exE conjE)
  then have known': "\<forall>name \<in> set names. known_name w name" using known by auto
  from trigger_candidates_known [OF this] obtain cands where
    "trigger_candidates w names = Inr cands"
    "keep_triggers cands = Inr (filter (is_trigger w) (map (node_for w) names))" by auto
  then have r: "findAllParentTriggers w destination = Inr (filter (is_trigger w) (map (node_for w) names))"
    by (simp add: findAllParentTriggers_def names(1))
  have "node_for w name = node \<longleftrightarrow> getNode w name = Some node" if "name \<in> set names" for name node
    using known' that by (auto simp: node_for_def known_name_def)
  then have "node \<in> node_for w ` set names \<longleftrightarrow> (\<exists>name \<in> set names. getNode w name = Some node)" for node
    unfolding image_iff by metis
  then have "{t \<in> set (filter (is_trigger w) (map (node_for w) names)). \<not> is_disabled t} = parent_triggers w destination"
    unfolding parent_triggers_def set_filter set_map Bex_def names(2) by auto
  with r show ?thesis by blast
qed

text \<open>In a workflow in which every name that leads to the destination over main connections
  belongs to a node of a known type, the choice of a trigger succeeds: it finds none exactly when no
  enabled trigger leads to the destination, and else an enabled trigger that does, with pinned data
  when one of them has any, whatever order the inconsistent comparator sorts them into.\<close>

theorem findTriggerForPartialExecution_choice:
  assumes tables: "wf_connectionsByDestinationNode w = getConnectionsByDestination (wf_connectionsBySourceNode w)"
    and known: "\<And>name. (name, destination) \<in> (connection_edges (wf_connectionsBySourceNode w) Main)\<^sup>+ \<Longrightarrow> known_name w name"
    and sort: "\<And>cmp xs. mset (sort_impl cmp xs) = mset xs"
  shows "\<exists>r. findTriggerForPartialExecution sort_impl w destination = Inr r \<and>
    (case r of None \<Rightarrow> parent_triggers w destination = {}
     | Some t \<Rightarrow> t \<in> parent_triggers w destination \<and>
         ((\<exists>u \<in> parent_triggers w destination. pinned_in w u) \<longrightarrow> pinned_in w t))"
proof -
  obtain triggers where t: "findAllParentTriggers w destination = Inr triggers"
    "{t \<in> set triggers. \<not> is_disabled t} = parent_triggers w destination"
    using findAllParentTriggers_exact [OF tables known] by blast
  from findTrigger_choice [of sort_impl w destination triggers, OF sort t(1)] obtain r where
    r: "findTriggerForPartialExecution sort_impl w destination = Inr r"
    "case r of None \<Rightarrow> \<forall>t \<in> set triggers. is_disabled t
     | Some t \<Rightarrow> t \<in> set triggers \<and> \<not> is_disabled t \<and>
         ((\<exists>u \<in> set triggers. \<not> is_disabled u \<and> pinned_in w u) \<longrightarrow> pinned_in w t)" by blast
  then show ?thesis unfolding t(2) [symmetric] by (intro exI [of _ r]) (auto split: option.splits)
qed

definition trigger_node :: INode where
  "trigger_node = sample_node 1 ''T'' ''trigger'' False"

theorem findTriggerForPartialExecution_choice_witness:
  "findTriggerForPartialExecution (\<lambda>cmp xs. xs) (sample_workflow [trigger_node, node_a False, node_b]) ''B'' =
     Inr (Some trigger_node)"
proof -
  define w where "w = sample_workflow [trigger_node, node_a False, node_b]"
  have nodes: "getNode w ''T'' = Some trigger_node" "getNode w ''A'' = Some (node_a False)"
    by (simp_all add: w_def getNode_def sample_workflow_def trigger_node_def sample_nodes)
  have w: "wf_connectionsBySourceNode w = sample_table" "wf_nodeTypes w = sample_type"
    "wf_connectionsByDestinationNode w = getConnectionsByDestination (wf_connectionsBySourceNode w)"
    by (simp_all add: w_def sample_workflow_def)
  have kinds: "is_trigger w trigger_node" "\<not> is_disabled trigger_node" "\<not> is_trigger w (node_a False)"
    by (simp_all add: is_trigger_def w(2) sample_type_def is_disabled_def trigger_node_def sample_nodes)
  have known: "known_name w name" if "(name, ''B'') \<in> (connection_edges (wf_connectionsBySourceNode w) Main)\<^sup>+" for name
    using that nodes by (auto simp: w sample_table_parents known_name_def sample_type_def)
  have only: "parent_triggers w ''B'' = {trigger_node}"
    unfolding parent_triggers_def w(1) sample_table_parents using nodes kinds
    by (auto intro: exI [of _ "''T''"])
  obtain r where "findTriggerForPartialExecution (\<lambda>cmp xs. xs) w ''B'' = Inr r"
    "case r of None \<Rightarrow> parent_triggers w ''B'' = {} | Some t \<Rightarrow> t \<in> parent_triggers w ''B''"
    using findTriggerForPartialExecution_choice [of w "''B''" "\<lambda>cmp xs. xs", OF w(3) known]
    by (auto split: option.splits)
  then show ?thesis unfolding w_def [symmetric] by (auto simp: only split: option.splits)
qed

section \<open>Start nodes\<close>

definition loop_open :: "IRunData \<Rightarrow> INode \<Rightarrow> bool" where
  "loop_open runData n \<longleftrightarrow> node_type n = ''n8n-nodes-base.splitInBatches'' \<and>
     getIncomingData runData (node_name n) (-1) Main 0 \<in> {Inr None, Inr (Some [])}"

text \<open>Where the search stops: a node without data, the destination, a loop that is not done.\<close>

definition stops :: "INode \<Rightarrow> IRunData \<Rightarrow> IPinData \<Rightarrow> INode \<Rightarrow> bool" where
  "stops destination runData pinData n \<longleftrightarrow>
     isDirty n runData pinData \<or> n = destination \<or> loop_open runData n"

definition carries :: "IRunData \<Rightarrow> GraphConnection \<Rightarrow> bool" where
  "carries runData c \<longleftrightarrow> (\<exists>items k. items \<noteq> [] \<and>
     getIncomingDataFromAnyRun runData (node_name (gc_from c)) (gc_type c) (gc_outputIndex c) = Inr (Some (items, k)))"

definition data_edges :: "DirectedGraph \<Rightarrow> INode \<Rightarrow> IRunData \<Rightarrow> IPinData \<Rightarrow> (INode \<times> INode) set" where
  "data_edges g destination runData pinData = {(a, b). \<not> stops destination runData pinData a \<and>
     (\<exists>c \<in> set (map_values (dg_connections g)). gc_from c = a \<and> gc_to c = b \<and> carries runData c)}"

text \<open>Reading the output data never reads a property of \<open>undefined\<close>.\<close>

definition readable :: "DirectedGraph \<Rightarrow> IRunData \<Rightarrow> bool" where
  "readable g runData \<longleftrightarrow>
     (\<forall>c \<in> set (map_values (dg_connections g)). \<exists>r.
        getIncomingDataFromAnyRun runData (node_name (gc_from c)) (gc_type c) (gc_outputIndex c) = Inr r) \<and>
     (\<forall>n \<in> set (map_values (dg_nodes g)). node_type n = ''n8n-nodes-base.splitInBatches'' \<longrightarrow>
        (\<exists>r. getIncomingData runData (node_name n) (-1) Main 0 = Inr r))"

lemma loop_check:
  assumes "readable g runData" "n \<in> graph_nodes g"
  shows "(if node_type n = ''n8n-nodes-base.splitInBatches'' then
      res_bind (getIncomingData runData (node_name n) (-1) Main 0) (\<lambda>nodeRunData.
        Inr (case nodeRunData of None \<Rightarrow> True | Some items \<Rightarrow> length items = 0))
    else Inr False) = Inr (loop_open runData n)"
proof (cases "node_type n = ''n8n-nodes-base.splitInBatches''")
  case True
  with assms obtain r where "getIncomingData runData (node_name n) (-1) Main 0 = Inr r"
    unfolding readable_def graph_nodes_def by blast
  with True show ?thesis by (cases r) (auto simp: loop_open_def)
qed (simp add: loop_open_def)

lemma findStartNodesRecursive_collects:
  assumes wf: "wf_graph g" and rd: "readable g runData"
    and "n \<in> graph_nodes g" "set seen \<subseteq> graph_nodes g" "card (graph_nodes g - set seen) < fuel"
    and "\<forall>m \<in> set seen. \<not> stops destination runData pinData m"
  shows "\<exists>t. findStartNodesRecursive fuel g n destination runData pinData s seen = Inr t \<and>
    set t = set s \<union> (if n \<in> set seen then {} else {m. stops destination runData pinData m \<and>
      (m = n \<or> m \<in> in_reach (data_edges g destination runData pinData) (insert n (set seen)) (-1) n)})"
  using assms(3-)
proof (induction fuel arbitrary: n s seen)
  case 0
  then show ?case by simp
next
  case (Suc fuel)
  let ?E = "data_edges g destination runData pinData"
  let ?stops = "stops destination runData pinData"
  note loop = loop_check [OF rd Suc.prems(1)]
  show ?case
  proof (cases "?stops n")
    case True
    then have "in_reach ?E (insert n (set seen)) (-1) n = {}"
      by (intro in_reach_no_edge) (simp add: data_edges_def)
    moreover have "findStartNodesRecursive (Suc fuel) g n destination runData pinData s seen = Inr (set_add n s)"
      using True unfolding stops_def findStartNodesRecursive.simps loop by auto
    ultimately show ?thesis using True Suc.prems(4) by auto
  next
    case False
    note go = False [unfolded stops_def]
    show ?thesis
    proof (cases "n \<in> set seen")
      case True
      then show ?thesis using go unfolding findStartNodesRecursive.simps loop by simp
    next
      case fresh: False
      let ?cs = "filter (\<lambda>c. gc_from c = n) (map_values (dg_connections g))"
      let ?any = "\<lambda>c. getIncomingDataFromAnyRun runData (node_name (gc_from c)) (gc_type c) (gc_outputIndex c)"
      let ?body = "\<lambda>s c. res_bind (?any c) (\<lambda>nodeRunData. case nodeRunData of None \<Rightarrow> Inr s
        | Some (data, _) \<Rightarrow> if data = [] then Inr s
            else findStartNodesRecursive fuel g (gc_to c) destination runData pinData s (set_add n seen))"
      let ?C = "insert n (set seen)"
      define G where "G b = (if b \<in> ?C then {} else
        {m. ?stops m \<and> (m = b \<or> m \<in> in_reach ?E (insert b ?C) (-1) b)})" for b
      have "card (graph_nodes g - set (set_add n seen)) < card (graph_nodes g - set seen)"
        using Suc.prems(1) fresh by (intro psubset_card_mono) (auto simp: graph_nodes_def)
      with Suc.prems(3) have small: "card (graph_nodes g - set (set_add n seen)) < fuel" by simp
      have body: "\<exists>t. ?body s c = Inr t \<and> set t = set s \<union> (if carries runData c then G (gc_to c) else {})"
        if c: "c \<in> set ?cs" for c s
      proof -
        have "c \<in> set (map_values (dg_connections g))" using c by auto
        then obtain r where r: "?any c = Inr r" using rd unfolding readable_def by blast
        have "node_in g (gc_to c)" using c wf_graphD(6) [OF wf] by auto
        then have "gc_to c \<in> graph_nodes g" using node_in_iff [OF wf] by (simp add: graph_nodes_def)
        then obtain t where "findStartNodesRecursive fuel g (gc_to c) destination runData pinData s (set_add n seen) = Inr t"
          "set t = set s \<union> G (gc_to c)"
          using Suc.IH [of "gc_to c" "set_add n seen" s] small Suc.prems False by (auto simp: G_def)
        with r show ?thesis by (auto simp: carries_def split: option.splits)
      qed
      obtain t where t: "fold_res ?body s ?cs = Inr t"
        "set t = set s \<union> (\<Union>c \<in> set ?cs. if carries runData c then G (gc_to c) else {})"
        using fold_res_collect [of ?cs ?body "\<lambda>c. if carries runData c then G (gc_to c) else {}", OF body] by blast
      have "node_in g n" using Suc.prems(1) node_in_iff [OF wf] by (simp add: graph_nodes_def)
      then have "findStartNodesRecursive (Suc fuel) g n destination runData pinData s seen = Inr t"
        using go fresh t(1) unfolding findStartNodesRecursive.simps loop
        by (simp add: getDirectChildConnections_def)
      moreover have "(\<Union>c \<in> set ?cs. if carries runData c then G (gc_to c) else {}) = (\<Union>b \<in> {b. (n, b) \<in> ?E}. G b)"
        using False by (force simp: data_edges_def split: if_splits)
      moreover have "(\<Union>b \<in> {b. (n, b) \<in> ?E}. G b) = {m. ?stops m \<and> m \<in> in_reach ?E ?C (-1) n}"
        unfolding in_reach_step [of "-1" "-1" ?E ?C n, simplified] G_def by auto
      ultimately show ?thesis using fresh False t(2) by auto
    qed
  qed
qed

lemma findStartNodesRecursive_distinct:
  "findStartNodesRecursive fuel g n destination runData pinData s seen = Inr t \<Longrightarrow> distinct s \<Longrightarrow> distinct t"
proof (induction fuel arbitrary: n s seen t)
  case 0
  then show ?case by simp
next
  case (Suc fuel)
  show ?case
  proof (cases "t = set_add n s \<or> t = s")
    case True
    with Suc.prems(2) show ?thesis by auto
  next
    case False
    let ?body = "\<lambda>s (c :: GraphConnection). res_bind (getIncomingDataFromAnyRun runData (node_name (gc_from c)) (gc_type c) (gc_outputIndex c))
      (\<lambda>nodeRunData. case nodeRunData of None \<Rightarrow> Inr s
        | Some (data, _) \<Rightarrow> if data = [] then Inr s
            else findStartNodesRecursive fuel g (gc_to c) destination runData pinData s (set_add n seen))"
    have "\<exists>cs. fold_res ?body s cs = Inr t"
      using Suc.prems(1) False by (auto simp: resI split: if_splits)
    then obtain cs where loop: "fold_res ?body s cs = Inr t" ..
    show ?thesis
    proof (rule fold_res_invariant [where I = distinct, OF loop Suc.prems(2)])
      fix u c v
      assume "distinct u" "?body u c = Inr v"
      then show "distinct v" using Suc.IH [of "gc_to c" u "set_add n seen" v]
        by (auto simp: resI split: option.splits if_splits)
    qed
  qed
qed

text \<open>C3: when the output data of the run can be read, \<open>findStartNodes\<close> ends, and the start nodes,
  each once, are exactly the nodes where the search stops (no data, the destination, a loop that is
  not done) that the trigger reaches over connections that carry data through nodes where it does
  not stop.\<close>

theorem findStartNodes_exact:
  assumes wf: "wf_graph g" and trigger: "node_in g trigger" and rd: "readable g runData"
  shows "\<exists>s. findStartNodes g trigger destination pinData runData = Inr s \<and> distinct s \<and>
    set s = {m. stops destination runData pinData m \<and>
                (trigger, m) \<in> (data_edges g destination runData pinData)\<^sup>*}"
proof -
  let ?E = "data_edges g destination runData pinData"
  have t: "trigger \<in> graph_nodes g" using trigger node_in_iff [OF wf] by (simp add: graph_nodes_def)
  have "card (graph_nodes g - set []) < Suc (Suc (length (dg_nodes g)))"
    using card_length [of "map_values (dg_nodes g)"] by (simp add: graph_nodes_def)
  then obtain s where s: "findStartNodes g trigger destination pinData runData = Inr s"
    "set s = {m. stops destination runData pinData m \<and> (m = trigger \<or> m \<in> in_reach ?E {trigger} (-1) trigger)}"
    using findStartNodesRecursive_collects [OF wf rd t, of "[]" _ destination pinData "[]"]
    unfolding findStartNodes_def by (auto simp del: findStartNodesRecursive.simps)
  have "m = trigger \<or> m \<in> in_reach ?E {trigger} (-1) trigger \<longleftrightarrow> (trigger, m) \<in> ?E\<^sup>*" for m
    unfolding in_reach_self rtrancl_eq_or_trancl by (auto simp: allowed_def relpow_pos_trancl)
  then show ?thesis using s findStartNodesRecursive_distinct [OF s(1) [unfolded findStartNodes_def]] by simp
qed

definition sample_task :: ITaskData where
  "sample_task = \<lparr>task_startTime = 0, task_executionTime = 1,
     task_executionStatus = Some Success, task_data = Some [(Main, [Filled [empty_item]])], task_error = None,
     task_hints = [], task_source = [], task_metadata = None\<rparr>"

theorem findStartNodes_exact_witness:
  "\<exists>s. findStartNodes (sample_graph False) node_t node_b [] [(''Trigger'', [sample_task])] = Inr s \<and>
     node_a False \<in> set s \<and> node_b \<notin> set s"
proof -
  let ?g = "sample_graph False" and ?rd = "[(''Trigger'', [sample_task])]"
  have any: "getIncomingDataFromAnyRun ?rd ''Trigger'' Main 0 = Inr (Some ([empty_item], 0))"
    "getIncomingDataFromAnyRun ?rd ''A'' Main 0 = Inr None"
    by (simp_all add: getIncomingDataFromAnyRun_def getRunIndexLength_def getIncomingData_def sample_task_def
        js_at_def upt_rec)
  have data: "readable ?g ?rd" "\<And>c. c \<in> set (map_values (dg_connections ?g)) \<Longrightarrow>
      carries ?rd c \<longleftrightarrow> gc_from c = node_t"
    unfolding readable_def sample_graph_values
    by (auto simp: carries_def main_connection_def sample_nodes any)
  have stops: "stops node_b ?rd [] node_b" "stops node_b ?rd [] (node_a False)" "\<not> stops node_b ?rd [] node_t"
    by (simp_all add: stops_def isDirty_def loop_open_def sample_nodes Let_def)
  then have E: "data_edges ?g node_b ?rd [] = {(node_t, node_a False)}"
    unfolding data_edges_def using data(2) by (auto simp: sample_graph_values main_connection_def)
  have "(node_t, node_b) \<notin> {(node_t, node_a False)}\<^sup>*"
    by (auto simp: rtrancl_eq_or_trancl sample_nodes dest: tranclD2)
  then show ?thesis
    using findStartNodes_exact [OF sample_graph_wf sample_graph_nodes(1) data(1), of node_b "[]"] stops
    by (auto simp: E)
qed

end
