(* ===== verification/ExecutionStack.thy ===== *)
theory ExecutionStack
  imports PartialExecution
begin

text \<open>
  Rebuilding the state of the engine for a partial execution: the grouping of incoming
  connections (\<open>get-source-data-groups.ts\<close>), the execution stack and the waiting data
  (\<open>recreate-node-execution-stack.ts\<close>), and the whole preparation \<open>runPartialWorkflow2\<close>
  (\<open>workflow-execute.ts\<close>).
\<close>

section \<open>Source data groups\<close>

definition sortByInputIndexThenByName ::
  "(string \<Rightarrow> string \<Rightarrow> int) \<Rightarrow> GraphConnection \<Rightarrow> GraphConnection \<Rightarrow> int" where
  "sortByInputIndexThenByName localeCompare c1 c2 =
     (if gc_inputIndex c1 = gc_inputIndex c2
      then localeCompare (node_name (gc_from c1)) (node_name (gc_from c2))
      else int (gc_inputIndex c1) - int (gc_inputIndex c2))"

record SourceConnectionGroup =
  scg_complete :: bool
  scg_connections :: "GraphConnection list"

definition newGroup :: SourceConnectionGroup where
  "newGroup = \<lparr>scg_complete = True, scg_connections = []\<rparr>"

text \<open>
  \<open>Math.min\<close> over both lists, minus one. Over no connection it is infinite; then the loop is over
  and the value is not read again (the model gives 0 there).
\<close>

definition start_index :: "GraphConnection list \<Rightarrow> GraphConnection list \<Rightarrow> int" where
  "start_index ws os =
     (case map (\<lambda>c. int (gc_inputIndex c)) (ws @ os) of
        [] \<Rightarrow> 0
      | i # is \<Rightarrow> foldl min i is - 1)"

definition at_index :: "int \<Rightarrow> GraphConnection \<Rightarrow> bool" where
  "at_index i c = (int (gc_inputIndex c) = i)"

text \<open>
  The loop: a step either moves one connection of the next input into the current group, first
  one with data, else one without; or closes the group and restarts at the smallest input left.
\<close>

function group_loop ::
  "GraphConnection list \<Rightarrow> GraphConnection list \<Rightarrow> SourceConnectionGroup \<Rightarrow> int \<Rightarrow>
   SourceConnectionGroup list \<Rightarrow> SourceConnectionGroup list" where
  "group_loop ws os currentGroup currentInputIndex groups =
     (if ws = [] \<and> os = [] then groups @ [currentGroup]
      else
        let idx = currentInputIndex + 1 in
        case find_index (at_index idx) ws of
          Some i \<Rightarrow>
            group_loop (remove_at i ws) os
              (currentGroup\<lparr>scg_connections := scg_connections currentGroup @ [ws ! i]\<rparr>) idx groups
        | None \<Rightarrow>
            (case find_index (at_index idx) os of
               Some i \<Rightarrow>
                 group_loop ws (remove_at i os)
                   (currentGroup\<lparr>scg_connections := scg_connections currentGroup @ [os ! i],
                                 scg_complete := False\<rparr>) idx groups
             | None \<Rightarrow>
                 group_loop ws os newGroup (start_index ws os) (groups @ [currentGroup])))"
  by pat_completeness auto

lemma foldl_min_in: "foldl min i is \<in> set ((i::int) # is)"
proof (induction "is" arbitrary: i)
  case Nil
  then show ?case by simp
next
  case (Cons j js)
  then have "foldl min (min i j) js \<in> set (min i j # js)" by blast
  moreover have "min i j = i \<or> min i j = j" by (simp add: min_def)
  ultimately show ?case by auto
qed

lemma start_index_hit:
  assumes "ws \<noteq> [] \<or> os \<noteq> []"
  shows "\<exists>c \<in> set ws \<union> set os. at_index (start_index ws os + 1) c"
proof -
  obtain i "is" where m: "map (\<lambda>c. int (gc_inputIndex c)) (ws @ os) = i # is"
    using assms by (cases "map (\<lambda>c. int (gc_inputIndex c)) (ws @ os)") auto
  then have "start_index ws os + 1 = foldl min i is"
    unfolding start_index_def m by simp
  moreover have "foldl min i is \<in> set (map (\<lambda>c. int (gc_inputIndex c)) (ws @ os))"
    unfolding m by (rule foldl_min_in)
  ultimately show ?thesis by (auto simp: at_index_def)
qed

text \<open>
  What shrinks: twice the number of connections left, plus one when the next step only closes the
  group. A step that closes a group restarts at an input that has a connection.
\<close>

definition group_measure :: "GraphConnection list \<Rightarrow> GraphConnection list \<Rightarrow> int \<Rightarrow> nat" where
  "group_measure ws os i =
     2 * (length ws + length os) +
     (if \<exists>c \<in> set ws \<union> set os. at_index (i + 1) c then 0 else 1)"

lemma group_measure_data:
  assumes "find_index (at_index (i + 1)) ws = Some k"
  shows "group_measure (remove_at k ws) os (i + 1) < group_measure ws os i"
proof -
  have k: "k < length ws" "at_index (i + 1) (ws ! k)"
    using find_index_Some [OF assms] by auto
  then have "\<exists>c \<in> set ws \<union> set os. at_index (i + 1) c" by (metis UnCI nth_mem)
  moreover obtain n where "length ws = Suc n" using k by (cases "length ws") auto
  ultimately show ?thesis using k by (simp add: group_measure_def)
qed

lemma group_measure_no_data:
  assumes "find_index (at_index (i + 1)) os = Some k"
  shows "group_measure ws (remove_at k os) (i + 1) < group_measure ws os i"
  using group_measure_data [OF assms, of ws] by (simp add: group_measure_def Un_commute add.commute)

lemma group_measure_close:
  assumes "find_index (at_index (i + 1)) ws = None" "find_index (at_index (i + 1)) os = None"
    and "ws \<noteq> [] \<or> os \<noteq> []"
  shows "group_measure ws os (start_index ws os) < group_measure ws os i"
  using start_index_hit [OF assms(3)] assms(1,2) by (auto simp: group_measure_def)

termination group_loop
  by (relation "measure (\<lambda>(ws, os, g, i, gs). group_measure ws os i)")
    (auto simp: Let_def group_measure_data group_measure_no_data group_measure_close)

declare group_loop.simps [simp del]

definition getSourceDataGroups ::
  "(string \<Rightarrow> string \<Rightarrow> int) \<Rightarrow> DirectedGraph \<Rightarrow> INode \<Rightarrow> IRunData \<Rightarrow> IPinData \<Rightarrow>
   SourceConnectionGroup list" where
  "getSourceDataGroups localeCompare graph node runData pinnedData =
     (let connections = getConnections graph (Some node);
          hasData = (\<lambda>c. map_of runData (node_name (gc_from c)) \<noteq> None \<or>
                         map_of pinnedData (node_name (gc_from c)) \<noteq> None);
          withData = filter hasData connections;
          withoutData = filter (\<lambda>c. \<not> hasData c) connections
      in if withData = [] \<and> withoutData = [] then []
         else
           let sortedWith = js_sort (sortByInputIndexThenByName localeCompare) withData;
               sortedWithout = js_sort (sortByInputIndexThenByName localeCompare) withoutData
           in group_loop sortedWith sortedWithout newGroup
                (start_index sortedWith sortedWithout) [])"

section \<open>The execution stack\<close>

definition addWaitingExecution ::
  "IWaitingForExecution \<Rightarrow> string \<Rightarrow> nat \<Rightarrow> NodeConnectionType \<Rightarrow> nat \<Rightarrow>
   INodeExecutionData list slot \<Rightarrow> IWaitingForExecution" where
  "addWaitingExecution waitingExecution nodeName runIndex inputType inputIndex executionData =
     (let obj = (case map_of waitingExecution nodeName of None \<Rightarrow> [] | Some m \<Rightarrow> m);
          conns = (case map_of obj runIndex of None \<Rightarrow> [] | Some m \<Rightarrow> m);
          dataList = (case map_of conns inputType of None \<Rightarrow> [] | Some l \<Rightarrow> l)
      in map_set nodeName
           (map_set runIndex
             (map_set inputType (slot_set inputIndex executionData dataList) conns) obj)
           waitingExecution)"

definition addWaitingExecutionSource ::
  "IWaitingForExecutionSource \<Rightarrow> string \<Rightarrow> nat \<Rightarrow> NodeConnectionType \<Rightarrow> nat \<Rightarrow>
   ISourceData slot \<Rightarrow> IWaitingForExecutionSource" where
  "addWaitingExecutionSource waitingExecutionSource nodeName runIndex inputType inputIndex sourceData =
     (let obj = (case map_of waitingExecutionSource nodeName of None \<Rightarrow> [] | Some m \<Rightarrow> m);
          conns = (case map_of obj runIndex of None \<Rightarrow> [] | Some m \<Rightarrow> m);
          sourceList = (case map_of conns inputType of None \<Rightarrow> [] | Some l \<Rightarrow> l)
      in map_set nodeName
           (map_set runIndex
             (map_set inputType (slot_set inputIndex sourceData sourceList) conns) obj)
           waitingExecutionSource)"

record stack_state =
  st_stack :: "IExecuteData list"
  st_waiting :: IWaitingForExecution
  st_waitingSource :: IWaitingForExecutionSource

text \<open>One connection of a complete group: the data and the source it adds to the entry.\<close>

definition complete_connection ::
  "IRunData \<Rightarrow> IPinData \<Rightarrow> INodeExecutionData list list \<times> ISourceData list \<Rightarrow> GraphConnection \<Rightarrow>
   (INodeExecutionData list list \<times> ISourceData list) res" where
  "complete_connection runData pinData acc c =
     (case acc of (incomingData, sources) \<Rightarrow>
        let sourceName = node_name (gc_from c);
            source = (\<lambda>runIndex. \<lparr>src_previousNode = sourceName,
                        src_previousNodeOutput = Some (gc_outputIndex c),
                        src_previousNodeRun = Some runIndex\<rparr>)
        in case map_of pinData sourceName of
             Some pinned \<Rightarrow> Inr (incomingData @ [pinned], sources @ [source 0])
           | None \<Rightarrow>
               res_bind (assert_ok (map_of runData sourceName \<noteq> None)) (\<lambda>_.
               res_bind (getIncomingDataFromAnyRun runData sourceName (gc_type c) (gc_outputIndex c))
                 (\<lambda>found. case found of
                    Some (data, runIndex) \<Rightarrow> Inr (incomingData @ [data], sources @ [source runIndex])
                  | None \<Rightarrow> Inr (incomingData, sources @ [source 0]))))"

definition waiting_connection ::
  "IRunData \<Rightarrow> string \<Rightarrow> nat \<Rightarrow> stack_state \<Rightarrow> GraphConnection \<Rightarrow> stack_state res" where
  "waiting_connection runData nodeName nextRunIndex st c =
     res_bind (getIncomingDataFromAnyRun runData (node_name (gc_from c)) (gc_type c) (gc_outputIndex c))
       (\<lambda>found. case found of
          None \<Rightarrow> Inr st
        | Some (data, _) \<Rightarrow>
            Inr (st\<lparr>st_waiting := addWaitingExecution (st_waiting st) nodeName nextRunIndex (gc_type c)
                      (gc_inputIndex c) (Filled data),
                    st_waitingSource := addWaitingExecutionSource (st_waitingSource st) nodeName
                      nextRunIndex (gc_type c) (gc_inputIndex c)
                      (Filled \<lparr>src_previousNode = node_name (gc_from c),
                             src_previousNodeOutput = Some (gc_outputIndex c),
                             src_previousNodeRun = Some nextRunIndex\<rparr>)\<rparr>))"

definition group_to_stack ::
  "IRunData \<Rightarrow> IPinData \<Rightarrow> INode \<Rightarrow> stack_state \<Rightarrow> SourceConnectionGroup \<Rightarrow> stack_state res" where
  "group_to_stack runData pinData startNode st sourceData =
     (if scg_complete sourceData then
        res_bind (fold_res (complete_connection runData pinData) ([], []) (scg_connections sourceData))
          (\<lambda>(incomingData, sources).
            Inr (st\<lparr>st_stack := st_stack st @
              [\<lparr>ex_node = startNode, ex_data = [(Main, map Filled incomingData)], ex_metadata = None,
                ex_source = Some [(Main, map Filled sources)]\<rparr>]\<rparr>))
      else
        let nodeName = node_name startNode;
            nextRunIndex = (case map_of (st_waiting st) nodeName of None \<Rightarrow> 0 | Some m \<Rightarrow> length m)
        in fold_res (waiting_connection runData nodeName nextRunIndex) st (scg_connections sourceData))"

definition start_node_to_stack ::
  "(string \<Rightarrow> string \<Rightarrow> int) \<Rightarrow> DirectedGraph \<Rightarrow> IRunData \<Rightarrow> IPinData \<Rightarrow> stack_state \<Rightarrow> INode \<Rightarrow>
   stack_state res" where
  "start_node_to_stack localeCompare graph runData pinData st startNode =
     res_bind (getDirectParentConnections graph startNode) (\<lambda>parents.
       if length (filter (\<lambda>c. gc_type c = Main) parents) = 0 then
         Inr (st\<lparr>st_stack := st_stack st @
           [\<lparr>ex_node = startNode, ex_data = [(Main, [Filled [empty_item]])], ex_metadata = None, ex_source = None\<rparr>]\<rparr>)
       else
         fold_res (group_to_stack runData pinData startNode) st
           (getSourceDataGroups localeCompare graph startNode runData pinData))"

definition recreateNodeExecutionStack ::
  "(string \<Rightarrow> string \<Rightarrow> int) \<Rightarrow> DirectedGraph \<Rightarrow> INode js_set \<Rightarrow> IRunData \<Rightarrow> IPinData \<Rightarrow> stack_state res" where
  "recreateNodeExecutionStack localeCompare graph startNodes runData pinData =
     res_bind (assert_ok (\<forall>node \<in> set (map_values (getNodes graph)). node_disabled node \<noteq> Some True)) (\<lambda>_.
       fold_res (start_node_to_stack localeCompare graph runData pinData)
         \<lparr>st_stack = [], st_waiting = [], st_waitingSource = []\<rparr> startNodes)"

section \<open>The preparation of a partial execution\<close>

record partial_run =
  pr_destinationNode :: string
  pr_runNodeFilter :: "string list"
  pr_runData :: IRunData
  pr_stack :: stack_state
  pr_graph :: DirectedGraph

text \<open>\<open>omit(runData, dirtyNodeNames)\<close> of lodash: a copy without these keys.\<close>

definition omit_keys :: "string list \<Rightarrow> (string, 'v) js_map \<Rightarrow> (string, 'v) js_map" where
  "omit_keys ks m = foldl (\<lambda>m k. map_delete k m) m ks"

definition runPartialWorkflow2 ::
  "((INode \<Rightarrow> INode \<Rightarrow> int) \<Rightarrow> INode list \<Rightarrow> INode list) \<Rightarrow> (string \<Rightarrow> string \<Rightarrow> int) \<Rightarrow> Workflow \<Rightarrow>
   IRunData \<Rightarrow> IPinData \<Rightarrow> string list \<Rightarrow> string option \<Rightarrow> partial_run res" where
  "runPartialWorkflow2 sort_impl localeCompare w runData pinData dirtyNodeNames destinationNodeName =
     (case destinationNodeName of
        None \<Rightarrow> Inl AssertionError
      | Some destName \<Rightarrow>
          if destName = [] then Inl AssertionError
          else case getNode w destName of
            None \<Rightarrow> Inl AssertionError
          | Some destination \<Rightarrow>
              res_bind (findTriggerForPartialExecution sort_impl w destName) (\<lambda>trigger_opt.
              case trigger_opt of
                None \<Rightarrow> Inl (ApplicationError ''The destination node is not connected to any trigger. Partial executions need a trigger.'')
              | Some trigger \<Rightarrow>
                  res_bind (fromWorkflow w) (\<lambda>graph0.
                  res_bind (filterDisabledNodes graph0) (\<lambda>graph1.
                  res_bind (findSubgraph graph1 destination trigger) (\<lambda>graph.
                    let runData1 = omit_keys dirtyNodeNames runData in
                    res_bind (findStartNodes graph trigger destination pinData runData1) (\<lambda>startNodes0.
                    res_bind (handleCycles graph startNodes0 trigger) (\<lambda>startNodes.
                    res_bind (cleanRunData runData1 graph startNodes) (\<lambda>runData2.
                    res_bind (recreateNodeExecutionStack localeCompare graph startNodes runData2 pinData)
                      (\<lambda>stack.
                        Inr \<lparr>pr_destinationNode = destName,
                             pr_runNodeFilter = map node_name (map_values (getNodes graph)),
                             pr_runData = runData2, pr_stack = stack, pr_graph = graph\<rparr>)))))))))"

end
