(* ===== verification/PartialData.thy ===== *)
theory PartialData
  imports Samples ExecutionStack
begin

text \<open>
  The data a partial execution starts with: \<open>cleanRunData\<close> keeps exactly the runs that stay valid,
  \<open>getSourceDataGroups\<close> splits the incoming connections of a node into groups, and the execution
  stack gets one entry per complete group.
\<close>

section \<open>Run data\<close>

definition without_keys :: "'k set \<Rightarrow> ('k \<times> 'v) list \<Rightarrow> ('k \<times> 'v) list" where
  "without_keys K m = filter (\<lambda>e. fst e \<notin> K) m"

lemma map_delete_without: "map_delete k m = without_keys {k} m"
  by (simp add: map_delete_def without_keys_def)

lemma without_without [simp]: "without_keys K (without_keys L m) = without_keys (K \<union> L) m"
  by (auto simp: without_keys_def intro: filter_cong)

lemma without_none [simp]: "without_keys {} m = m"
  by (simp add: without_keys_def)

lemma fold_without:
  assumes "\<And>x m. x \<in> set xs \<Longrightarrow> f m x = Inr (without_keys (K x) m)"
  shows "fold_res f m xs = Inr (without_keys (\<Union>x \<in> set xs. K x) m)"
  using assms by (induction xs arbitrary: m) (auto simp: Un_commute)

lemma foldl_without:
  assumes "\<And>x m. x \<in> set xs \<Longrightarrow> f m x = without_keys (K x) m"
  shows "foldl f m xs = without_keys (\<Union>x \<in> set xs. K x) m"
  using assms by (induction xs arbitrary: m) (auto simp: Un_commute)

text \<open>
  What runs again: the start nodes and what they reach; and the sub-nodes (sources of connections
  of another type than main) of anything that leads to a node that runs again.
\<close>

definition rerun :: "DirectedGraph \<Rightarrow> INode list \<Rightarrow> INode set" where
  "rerun g startNodes = {m. \<exists>s \<in> set startNodes. (s, m) \<in> (graph_edges g)\<^sup>*}"

definition sub_nodes :: "DirectedGraph \<Rightarrow> INode set \<Rightarrow> INode set" where
  "sub_nodes g M = {gc_from c | c. c \<in> set (map_values (dg_connections g)) \<and> gc_type c \<noteq> Main \<and>
     (\<exists>m \<in> M. (gc_to c, m) \<in> (graph_edges g)\<^sup>*)}"

lemma clean_node_without:
  assumes "wf_graph g" "node_in g n"
  shows "clean_node g rd n = Inr (without_keys (node_name ` insert n (sub_nodes g {n})) rd)"
proof -
  obtain cs where cs: "getParentConnections g n = Inr cs"
    "set cs = {c \<in> set (map_values (dg_connections g)). (gc_to c, n) \<in> (graph_edges g)\<^sup>*}"
    using getParentConnections_reachable [OF assms] by blast
  let ?K = "\<lambda>c. if gc_type c = Main then {} else {node_name (gc_from c)}"
  have "foldl (\<lambda>rd c. if gc_type c = Main then rd else map_delete (node_name (gc_from c)) rd) rd' cs =
      without_keys (\<Union>c \<in> set cs. ?K c) rd'" for rd' :: IRunData
    by (rule foldl_without) (simp add: map_delete_without)
  moreover have "(\<Union>c \<in> set cs. ?K c) = node_name ` sub_nodes g {n}"
    unfolding sub_nodes_def cs(2) by (auto split: if_splits)
  ultimately show ?thesis by (simp add: clean_node_def cs(1) map_delete_without insert_commute)
qed

lemma sub_nodes_Union: "(\<Union>n \<in> N. sub_nodes g {n}) = sub_nodes g N"
  unfolding sub_nodes_def by blast

lemma clean_start:
  assumes wf: "wf_graph g" and s: "node_in g s"
  shows "res_bind (getChildren g s) (\<lambda>children. fold_res (clean_node g) (map_delete (node_name s) rd) (s # children)) =
    Inr (without_keys (node_name ` (rerun g [s] \<union> sub_nodes g (rerun g [s]))) rd)"
proof -
  obtain cs where cs: "getChildren g s = Inr cs" "set cs = {m. (s, m) \<in> (graph_edges g)\<^sup>+}"
    using getChildren_reachable [OF assms] by blast
  have all: "set (s # cs) = rerun g [s]"
    by (auto simp: cs(2) rerun_def rtrancl_eq_or_trancl)
  have "node_in g m" if "m \<in> set (s # cs)" for m
    using that s by (auto simp: cs(2) dest!: tranclD2 intro: edge_nodes(2) [OF wf])
  then have "fold_res (clean_node g) rd' (s # cs) =
      Inr (without_keys (\<Union>m \<in> set (s # cs). node_name ` insert m (sub_nodes g {m})) rd')" for rd'
    by (intro fold_without clean_node_without [OF wf])
  moreover have "(\<Union>m \<in> set (s # cs). node_name ` insert m (sub_nodes g {m})) =
      node_name ` (rerun g [s] \<union> sub_nodes g (rerun g [s]))"
    unfolding all sub_nodes_Union [symmetric, of g "rerun g [s]"] by blast
  moreover have "node_name s \<in> node_name ` (rerun g [s] \<union> sub_nodes g (rerun g [s]))"
    using all by auto
  ultimately show ?thesis
    by (simp only: cs(1) res_bind_simps map_delete_without without_without)
      (simp add: insert_absorb)
qed

text \<open>C4: for start nodes of a well-formed graph \<open>cleanRunData\<close> succeeds and keeps, in order, exactly
  the runs of the nodes of the graph that neither run again (start nodes and everything they reach)
  nor are sub-nodes of something that leads to a node that runs again.\<close>

theorem cleanRunData_exact:
  assumes wf: "wf_graph g" and starts: "\<forall>s \<in> set startNodes. node_in g s"
  shows "cleanRunData runData g startNodes = Inr (filter (\<lambda>(name, runs). hasNode g name \<and>
    name \<notin> node_name ` (rerun g startNodes \<union> sub_nodes g (rerun g startNodes))) runData)"
proof -
  let ?K = "\<lambda>s. node_name ` (rerun g [s] \<union> sub_nodes g (rerun g [s]))"
  let ?N = "node_name ` (rerun g startNodes \<union> sub_nodes g (rerun g startNodes))"
  have "(\<Union>s \<in> set startNodes. ?K s) = ?N"
    unfolding rerun_def sub_nodes_def by auto
  then have one: "fold_res (\<lambda>rd s. let rd' = map_delete (node_name s) rd in
        res_bind (getChildren g s) (\<lambda>children. fold_res (clean_node g) rd' (s # children)))
      runData startNodes = Inr (without_keys ?N runData)"
    using fold_without [of startNodes _ ?K, OF clean_start [OF wf]] starts by (simp only: Let_def)
  have "foldl (\<lambda>rd name. if hasNode g name then rd else map_delete name rd) rd (map_keys rd) =
      without_keys (\<Union>name \<in> set (map_keys rd). if hasNode g name then {} else {name}) rd" for rd :: IRunData
    by (rule foldl_without) (simp add: map_delete_without)
  also have "\<dots> rd = filter (\<lambda>(name, runs). hasNode g name) rd" for rd :: IRunData
    by (force simp: without_keys_def intro: filter_cong split: if_splits)
  finally have two: "foldl (\<lambda>rd name. if hasNode g name then rd else map_delete name rd) rd (map_keys rd) =
      filter (\<lambda>(name, runs). hasNode g name) rd" for rd :: IRunData .
  show ?thesis unfolding cleanRunData_def one
    by (simp add: two) (auto simp: without_keys_def intro: filter_cong)
qed

theorem cleanRunData_exact_witness:
  "cleanRunData [(''Trigger'', []), (''A'', []), (''B'', []), (''Gone'', [])] (sample_graph False) [node_a False] =
   Inr [(''Trigger'', [])]"
proof -
  have E: "(node_a False, m) \<in> (graph_edges (sample_graph False))\<^sup>* \<longleftrightarrow> m = node_a False \<or> m = node_b" for m
  proof
    assume "(node_a False, m) \<in> (graph_edges (sample_graph False))\<^sup>*"
    then show "m = node_a False \<or> m = node_b"
      by (induction rule: rtrancl_induct) (auto simp: sample_graph_edges sample_nodes)
  qed (auto simp: sample_graph_edges)
  have "rerun (sample_graph False) [node_a False] = {node_a False, node_b}"
    unfolding rerun_def using E by auto
  moreover have "sub_nodes (sample_graph False) M = {}" for M
    unfolding sub_nodes_def sample_graph_values by (auto simp: main_connection_def)
  moreover have "hasNode (sample_graph False) name \<longleftrightarrow> name \<in> {''Trigger'', ''A'', ''B''}" for name
    by (auto simp: hasNode_def sample_graph_def addNodes_def addNode_def empty_graph_def sample_nodes put_connection_def)
  moreover have "\<forall>s \<in> set [node_a False]. node_in (sample_graph False) s" by simp
  note cleanRunData_exact [OF sample_graph_wf this]
  ultimately show ?thesis by (simp add: sample_nodes)
qed

section \<open>Source data groups\<close>

text \<open>
  A group holds connections for consecutive inputs, one each, and is complete exactly when all of
  them have data. \<open>hasData\<close> is the test by which the caller has split the connections.
\<close>

definition good_group :: "(GraphConnection \<Rightarrow> bool) \<Rightarrow> SourceConnectionGroup \<Rightarrow> bool" where
  "good_group hasData grp \<longleftrightarrow>
     (scg_complete grp \<longleftrightarrow> (\<forall>c \<in> set (scg_connections grp). hasData c)) \<and>
     successively (\<lambda>c d. gc_inputIndex d = Suc (gc_inputIndex c)) (scg_connections grp)"

definition group_ready ::
  "(GraphConnection \<Rightarrow> bool) \<Rightarrow> GraphConnection list \<Rightarrow> GraphConnection list \<Rightarrow> SourceConnectionGroup \<Rightarrow> int \<Rightarrow> bool" where
  "group_ready hasData ws os grp i \<longleftrightarrow> good_group hasData grp \<and>
     (\<forall>c \<in> set ws. hasData c) \<and> (\<forall>c \<in> set os. \<not> hasData c) \<and>
     (if scg_connections grp = [] then \<exists>c \<in> set ws \<union> set os. at_index (i + 1) c
      else at_index i (last (scg_connections grp)))"

abbreviation group_items :: "SourceConnectionGroup list \<Rightarrow> GraphConnection list" where
  "group_items grps \<equiv> concat (map scg_connections grps)"

lemma good_group_snoc:
  assumes "good_group hasData grp" "scg_connections grp \<noteq> [] \<Longrightarrow> at_index i (last (scg_connections grp))"
    and "at_index (i + 1) c"
  shows "hasData c \<Longrightarrow> good_group hasData (grp\<lparr>scg_connections := scg_connections grp @ [c]\<rparr>)"
    and "\<not> hasData c \<Longrightarrow>
      good_group hasData (grp\<lparr>scg_connections := scg_connections grp @ [c], scg_complete := False\<rparr>)"
  using assms by (cases "scg_connections grp = []"; auto simp: good_group_def successively_append_iff at_index_def)+

lemma group_ready_new:
  assumes "ws \<noteq> [] \<or> os \<noteq> []" "\<forall>c \<in> set ws. hasData c" "\<forall>c \<in> set os. \<not> hasData c"
  shows "group_ready hasData ws os newGroup (start_index ws os)"
  using start_index_hit [OF assms(1)] assms(2,3)
  by (auto simp: group_ready_def good_group_def newGroup_def)

lemma group_loop_steps:
  assumes more: "\<not> (ws = [] \<and> os = [])"
  shows "find_index (at_index (i + 1)) ws = Some k \<Longrightarrow> group_loop ws os grp i groups =
      group_loop (remove_at k ws) os (grp\<lparr>scg_connections := scg_connections grp @ [ws ! k]\<rparr>) (i + 1) groups"
    and "find_index (at_index (i + 1)) ws = None \<Longrightarrow> find_index (at_index (i + 1)) os = Some k \<Longrightarrow>
      group_loop ws os grp i groups = group_loop ws (remove_at k os)
        (grp\<lparr>scg_connections := scg_connections grp @ [os ! k], scg_complete := False\<rparr>) (i + 1) groups"
    and "find_index (at_index (i + 1)) ws = None \<Longrightarrow> find_index (at_index (i + 1)) os = None \<Longrightarrow>
      group_loop ws os grp i groups = group_loop ws os newGroup (start_index ws os) (groups @ [grp])"
  by (simp_all only: group_loop.simps [of ws os grp i groups] Let_def option.case if_not_P [OF more])

lemma group_loop_groups:
  assumes "group_ready hasData ws os grp i"
    and "\<forall>g \<in> set groups. good_group hasData g \<and> scg_connections g \<noteq> []"
  shows "mset (group_items (group_loop ws os grp i groups)) =
      mset (group_items groups) + mset (scg_connections grp) + mset ws + mset os \<and>
    (\<forall>g \<in> set (group_loop ws os grp i groups). good_group hasData g \<and> scg_connections g \<noteq> [])"
  using assms
proof (induction ws os grp i groups rule: group_loop.induct)
  case (1 ws os grp i groups)
  note ready = 1(4) [unfolded group_ready_def]
  have good: "good_group hasData grp"
    "scg_connections grp \<noteq> [] \<Longrightarrow> at_index i (last (scg_connections grp))"
    using ready by auto
  consider (finished) "ws = []" "os = []"
    | (data) k where "ws \<noteq> [] \<or> os \<noteq> []" "find_index (at_index (i + 1)) ws = Some k"
    | (nodata) k where "ws \<noteq> [] \<or> os \<noteq> []" "find_index (at_index (i + 1)) ws = None"
        "find_index (at_index (i + 1)) os = Some k"
    | (close) "ws \<noteq> [] \<or> os \<noteq> []" "find_index (at_index (i + 1)) ws = None"
        "find_index (at_index (i + 1)) os = None"
    by (cases "find_index (at_index (i + 1)) ws"; cases "find_index (at_index (i + 1)) os") auto
  then show ?case
  proof cases
    case finished
    with ready have "scg_connections grp \<noteq> []" by (auto split: if_splits)
    with finished 1(5) good(1) show ?thesis by (auto simp: group_loop.simps)
  next
    case (data k)
    let ?grp = "grp\<lparr>scg_connections := scg_connections grp @ [ws ! k]\<rparr>"
    have k: "k < length ws" "at_index (i + 1) (ws ! k)" using find_index_Some [OF data(2)] by auto
    then have "hasData (ws ! k)" using ready by simp
    then have "group_ready hasData (remove_at k ws) os ?grp (i + 1)"
      using good_group_snoc(1) [OF good k(2)] ready k set_remove_at_subset [of k ws]
      by (auto simp: group_ready_def)
    with 1(3) [OF _ refl data(2)] data(1) 1(5) show ?thesis
      using mset_remove_at [OF k(1)] group_loop_steps(1) [of ws os, OF _ data(2)] data(1) by simp
  next
    case (nodata k)
    let ?grp = "grp\<lparr>scg_connections := scg_connections grp @ [os ! k], scg_complete := False\<rparr>"
    have k: "k < length os" "at_index (i + 1) (os ! k)" using find_index_Some [OF nodata(3)] by auto
    then have "\<not> hasData (os ! k)" using ready by simp
    then have "group_ready hasData ws (remove_at k os) ?grp (i + 1)"
      using good_group_snoc(2) [OF good k(2)] ready k set_remove_at_subset [of k os]
      by (auto simp: group_ready_def)
    with 1(2) [OF _ refl nodata(2,3)] nodata(1) 1(5) show ?thesis
      using mset_remove_at [OF k(1)] group_loop_steps(2) [of ws os, OF _ nodata(2,3)] nodata(1) by simp
  next
    case close
    have "group_ready hasData ws os newGroup (start_index ws os)"
      using group_ready_new [OF close(1)] ready by blast
    moreover have "scg_connections grp \<noteq> []"
      using ready close(2,3) by (auto split: if_splits)
    ultimately show ?thesis using 1(1) [OF _ refl close(2,3)] close(1) 1(5) good(1) group_loop_steps(3) [of ws os, OF _ close(2,3)]
      by (simp add: newGroup_def)
  qed
qed

lemma mset_js_sort_insert: "mset (js_sort_insert cmp x ys) = add_mset x (mset ys)"
  by (induction ys) auto

lemma mset_js_sort [simp]: "mset (js_sort cmp xs) = mset xs"
  by (induction xs) (simp_all add: js_sort_def mset_js_sort_insert)

lemma set_js_sort [simp]: "set (js_sort cmp xs) = set xs"
  using mset_js_sort by (metis set_mset_mset)

lemma js_sort_Nil_iff [simp]: "js_sort cmp xs = [] \<longleftrightarrow> xs = []"
  using set_js_sort by (metis set_empty)

definition has_source_data :: "IRunData \<Rightarrow> IPinData \<Rightarrow> GraphConnection \<Rightarrow> bool" where
  "has_source_data runData pinData c \<longleftrightarrow>
     node_name (gc_from c) \<in> fst ` set runData \<or> node_name (gc_from c) \<in> fst ` set pinData"

text \<open>\<open>getSourceDataGroups\<close> puts every incoming connection of the node into exactly one group, as
  often as it occurs; no group is empty, each has connections for consecutive inputs, one each, and
  is complete exactly when all its sources have run or pinned data.\<close>

theorem getSourceDataGroups_partition:
  fixes localeCompare g node runData pinData
  defines "groups \<equiv> getSourceDataGroups localeCompare g node runData pinData"
  shows "mset (group_items groups) = mset (getConnections g (Some node)) \<and>
    (\<forall>grp \<in> set groups. scg_connections grp \<noteq> [] \<and>
       (scg_complete grp \<longleftrightarrow> (\<forall>c \<in> set (scg_connections grp). has_source_data runData pinData c)) \<and>
       successively (\<lambda>c d. gc_inputIndex d = Suc (gc_inputIndex c)) (scg_connections grp))"
proof -
  let ?cs = "getConnections g (Some node)"
  let ?has = "has_source_data runData pinData"
  let ?ws = "filter ?has ?cs" and ?os = "filter (\<lambda>c. \<not> ?has c) ?cs"
  let ?sort = "js_sort (sortByInputIndexThenByName localeCompare)"
  have has: "(\<lambda>c. map_of runData (node_name (gc_from c)) \<noteq> None \<or>
      map_of pinData (node_name (gc_from c)) \<noteq> None) = ?has"
    by (simp add: fun_eq_iff has_source_data_def map_of_eq_None_iff)
  have groups: "groups = (if ?ws = [] \<and> ?os = [] then []
      else group_loop (?sort ?ws) (?sort ?os) newGroup (start_index (?sort ?ws) (?sort ?os)) [])"
    unfolding groups_def getSourceDataGroups_def has Let_def ..
  have split: "mset ?ws + mset ?os = mset ?cs" by (simp add: mset_filter)
  show ?thesis
  proof (cases "?ws = [] \<and> ?os = []")
    case True
    then show ?thesis using split unfolding groups by auto
  next
    case False
    then have "?sort ?ws \<noteq> [] \<or> ?sort ?os \<noteq> []" by (simp only: js_sort_Nil_iff de_Morgan_conj)
    then have "group_ready ?has (?sort ?ws) (?sort ?os) newGroup (start_index (?sort ?ws) (?sort ?os))"
      by (intro group_ready_new) auto
    from group_loop_groups [OF this, of "[]"] False show ?thesis
      using split unfolding groups if_not_P [OF False] by (auto simp: good_group_def newGroup_def)
  qed
qed

theorem getSourceDataGroups_partition_witness:
  "\<exists>grp. getSourceDataGroups (\<lambda>x y. 0) (sample_graph False) node_b [] [] = [grp] \<and>
     \<not> scg_complete grp \<and> scg_connections grp = [main_connection (node_a False) node_b]"
proof -
  let ?groups = "getSourceDataGroups (\<lambda>x y. 0) (sample_graph False) node_b [] []"
  let ?c = "main_connection (node_a False) node_b"
  have c: "getConnections (sample_graph False) (Some node_b) = [?c]"
    unfolding getConnections_def sample_graph_values by (simp add: main_connection_def sample_nodes)
  note partition = getSourceDataGroups_partition [of "\<lambda>x y. 0" "sample_graph False" node_b "[]" "[]"]
  have items: "mset (group_items ?groups) = {#?c#}" using partition unfolding c by simp
  then obtain grp rest where grp: "?groups = grp # rest" by (cases ?groups) auto
  have full: "scg_connections g \<noteq> []" if "g \<in> set ?groups" for g using partition that by blast
  have "scg_connections grp \<noteq> []" "rest \<noteq> [] \<Longrightarrow> scg_connections (hd rest) \<noteq> []"
    using full unfolding grp by (auto intro: hd_in_set)
  moreover have "length (group_items ?groups) = 1" using arg_cong [OF items, of size] by simp
  ultimately have "rest = []" "length (scg_connections grp) = 1"
    unfolding grp by (cases rest; cases "scg_connections grp"; auto)+
  then obtain d where d: "scg_connections grp = [d]" by (cases "scg_connections grp") auto
  with items have "d = ?c" unfolding grp \<open>rest = []\<close> by simp
  then show ?thesis using partition d unfolding grp \<open>rest = []\<close> by (auto simp: has_source_data_def)
qed

section \<open>The execution stack\<close>

text \<open>How many entries a start node gets: one without main inputs, else one per complete group.\<close>

definition stack_entries ::
  "(string \<Rightarrow> string \<Rightarrow> int) \<Rightarrow> DirectedGraph \<Rightarrow> IRunData \<Rightarrow> IPinData \<Rightarrow> INode \<Rightarrow> nat" where
  "stack_entries localeCompare g runData pinData n =
     (if \<exists>c \<in> set (map_values (dg_connections g)). gc_to c = n \<and> gc_type c = Main
      then length (filter scg_complete (getSourceDataGroups localeCompare g n runData pinData)) else 1)"

definition has_open_group ::
  "(string \<Rightarrow> string \<Rightarrow> int) \<Rightarrow> DirectedGraph \<Rightarrow> IRunData \<Rightarrow> IPinData \<Rightarrow> INode \<Rightarrow> bool" where
  "has_open_group localeCompare g runData pinData n =
     (\<exists>grp \<in> set (getSourceDataGroups localeCompare g n runData pinData). \<not> scg_complete grp)"

lemma keys_addWaiting:
  "fst ` set (addWaitingExecution wait name k t i d) = insert name (fst ` set wait)"
  by (simp add: addWaitingExecution_def Let_def)

lemma waiting_connections:
  assumes "fold_res (waiting_connection runData name k) st cs = Inr st'"
  shows "st_stack st' = st_stack st \<and> fst ` set (st_waiting st') \<subseteq> insert name (fst ` set (st_waiting st))"
proof (rule fold_res_invariant [OF assms])
  fix u c v
  assume "st_stack u = st_stack st \<and> fst ` set (st_waiting u) \<subseteq> insert name (fst ` set (st_waiting st))"
    and "waiting_connection runData name k u c = Inr v"
  moreover from this(2) have "v = u \<or>
      st_stack v = st_stack u \<and> fst ` set (st_waiting v) = insert name (fst ` set (st_waiting u))"
    by (cases "getIncomingDataFromAnyRun runData (node_name (gc_from c)) (gc_type c) (gc_outputIndex c)")
      (auto simp: waiting_connection_def keys_addWaiting split: option.splits simp del: set_map del: equalityI)
  ultimately show "st_stack v = st_stack st \<and> fst ` set (st_waiting v) \<subseteq> insert name (fst ` set (st_waiting st))"
    by (elim disjE conjE) simp_all
qed (simp add: subset_insertI)

lemma group_to_stack_adds:
  assumes "group_to_stack runData pinData n st grp = Inr st'"
  shows "map ex_node (st_stack st') = map ex_node (st_stack st) @ (if scg_complete grp then [n] else [])"
    and "fst ` set (st_waiting st') \<subseteq>
      (if scg_complete grp then {} else {node_name n}) \<union> fst ` set (st_waiting st)"
  using assms waiting_connections [of runData "node_name n"]
  by (auto simp: group_to_stack_def resI Let_def split: if_splits)

lemma groups_to_stack_add:
  assumes "fold_res (group_to_stack runData pinData n) st grps = Inr st'"
  shows "map ex_node (st_stack st') = map ex_node (st_stack st) @ replicate (length (filter scg_complete grps)) n \<and>
    fst ` set (st_waiting st') \<subseteq>
      (if \<exists>grp \<in> set grps. \<not> scg_complete grp then {node_name n} else {}) \<union> fst ` set (st_waiting st)"
  using assms
proof (induction grps arbitrary: st)
  case Nil
  then show ?case by simp
next
  case (Cons grp grps)
  then obtain u where u: "group_to_stack runData pinData n st grp = Inr u"
    "fold_res (group_to_stack runData pinData n) u grps = Inr st'" by (auto simp: resI)
  note ih = Cons.IH [OF u(2)] and one = group_to_stack_adds [OF u(1)]
  have "map ex_node (st_stack st') = map ex_node (st_stack st) @ replicate (length (filter scg_complete (grp # grps))) n"
    using ih one(1) by (cases "scg_complete grp") auto
  moreover have "fst ` set (st_waiting st') \<subseteq>
      (if \<exists>grp \<in> set (grp # grps). \<not> scg_complete grp then {node_name n} else {}) \<union> fst ` set (st_waiting st)"
  proof -
    have "(if \<exists>grp \<in> set (grp # grps). \<not> scg_complete grp then {node_name n} else {}) =
        (if \<exists>grp \<in> set grps. \<not> scg_complete grp then {node_name n} else {}) \<union>
        (if scg_complete grp then {} else {node_name n})" by simp
    then show ?thesis using conjunct2 [OF ih] one(2) by (simp only: Un_assoc) (rule subset_trans, assumption, blast)
  qed
  ultimately show ?case ..
qed

lemma start_node_adds:
  assumes "start_node_to_stack localeCompare g runData pinData st n = Inr st'"
  shows "map ex_node (st_stack st') = map ex_node (st_stack st) @ replicate (stack_entries localeCompare g runData pinData n) n"
    and "fst ` set (st_waiting st') \<subseteq>
      (if has_open_group localeCompare g runData pinData n then {node_name n} else {}) \<union> fst ` set (st_waiting st)"
proof -
  let ?parents = "filter (\<lambda>c. gc_to c = n) (map_values (dg_connections g))"
  let ?groups = "getSourceDataGroups localeCompare g n runData pinData"
  have parents: "getDirectParentConnections g n = Inr ?parents"
    using assms by (auto simp: start_node_to_stack_def getDirectParentConnections_def resI)
  have main: "filter (\<lambda>c. gc_type c = Main) ?parents \<noteq> [] \<longleftrightarrow>
      (\<exists>c \<in> set (map_values (dg_connections g)). gc_to c = n \<and> gc_type c = Main)"
    by (auto simp: filter_empty_conv)
  show "map ex_node (st_stack st') = map ex_node (st_stack st) @ replicate (stack_entries localeCompare g runData pinData n) n"
    using assms groups_to_stack_add [of runData pinData n st ?groups st'] main
    unfolding start_node_to_stack_def parents stack_entries_def by (auto simp del: filter_filter split: if_splits)
  show "fst ` set (st_waiting st') \<subseteq>
      (if has_open_group localeCompare g runData pinData n then {node_name n} else {}) \<union> fst ` set (st_waiting st)"
    using assms groups_to_stack_add [of runData pinData n st ?groups st']
    unfolding start_node_to_stack_def parents has_open_group_def by (auto simp del: filter_filter split: if_splits)
qed

lemma recreate_entries:
  assumes r: "recreateNodeExecutionStack localeCompare g startNodes runData pinData = Inr st"
  shows "map ex_node (st_stack st) =
      concat (map (\<lambda>n. replicate (stack_entries localeCompare g runData pinData n) n) startNodes) \<and>
    fst ` set (st_waiting st) \<subseteq>
      node_name ` {n \<in> set startNodes. has_open_group localeCompare g runData pinData n} \<and>
    (\<forall>n \<in> set (map_values (dg_nodes g)). \<not> is_disabled n)"
proof -
  let ?add = "start_node_to_stack localeCompare g runData pinData"
  have loop: "fold_res ?add u ns = Inr v \<Longrightarrow>
      map ex_node (st_stack v) = map ex_node (st_stack u) @
        concat (map (\<lambda>n. replicate (stack_entries localeCompare g runData pinData n) n) ns) \<and>
      fst ` set (st_waiting v) \<subseteq> fst ` set (st_waiting u) \<union>
        node_name ` {n \<in> set ns. has_open_group localeCompare g runData pinData n}" for ns u v
  proof (induction ns arbitrary: u)
    case (Cons n ns)
    then obtain x where x: "?add u n = Inr x" "fold_res ?add x ns = Inr v" by (auto simp: resI)
    note ih = Cons.IH [OF x(2)] and one = start_node_adds [OF x(1)]
    have "node_name ` {m \<in> set (n # ns). has_open_group localeCompare g runData pinData m} =
        (if has_open_group localeCompare g runData pinData n then {node_name n} else {}) \<union>
        node_name ` {m \<in> set ns. has_open_group localeCompare g runData pinData m}" by auto
    then show ?case using ih one by (simp only: list.map concat.simps append_assoc) blast
  qed simp
  from r have enabled: "\<forall>n \<in> set (map_values (dg_nodes g)). \<not> is_disabled n"
    and run: "fold_res ?add \<lparr>st_stack = [], st_waiting = [], st_waitingSource = []\<rparr> startNodes = Inr st"
    by (auto simp: recreateNodeExecutionStack_def resI getNodes_def is_disabled_def)
  show ?thesis using loop [OF run] enabled by simp
qed

text \<open>The rebuilt stack has, start node by start node, exactly one entry for a start node without
  main inputs and one per complete group of source data for any other; waiting data is recorded only
  for start nodes that have an incomplete group; and a graph with a disabled node is refused.\<close>

theorem recreateNodeExecutionStack_entries:
  assumes r: "recreateNodeExecutionStack localeCompare g startNodes runData pinData = Inr st"
  shows "map ex_node (st_stack st) =
      concat (map (\<lambda>n. replicate (stack_entries localeCompare g runData pinData n) n) startNodes) \<and>
    fst ` set (st_waiting st) \<subseteq>
      node_name ` {n \<in> set startNodes. has_open_group localeCompare g runData pinData n} \<and>
    (\<forall>n \<in> set (map_values (dg_nodes g)). \<not> is_disabled n)"
  by (rule recreate_entries [OF r])

theorem recreateNodeExecutionStack_entries_witness:
  "\<exists>st. recreateNodeExecutionStack (\<lambda>x y. 0) (sample_graph False) [node_t] [] [] = Inr st \<and>
     map ex_node (st_stack st) = [node_t] \<and> st_waiting st = []"
proof -
  have parents: "filter (\<lambda>c. gc_to c = node_t) (map_values (dg_connections (sample_graph False))) = []"
    unfolding sample_graph_values by (simp add: main_connection_def sample_nodes)
  then have none: "getSourceDataGroups (\<lambda>x y. 0) (sample_graph False) node_t [] [] = []"
    by (simp add: getSourceDataGroups_def getConnections_def)
  obtain st where st: "recreateNodeExecutionStack (\<lambda>x y. 0) (sample_graph False) [node_t] [] [] = Inr st"
    using parents by (simp add: recreateNodeExecutionStack_def getNodes_def sample_graph_values
        start_node_to_stack_def getDirectParentConnections_def) (simp add: sample_nodes)
  have "stack_entries (\<lambda>x y. 0) (sample_graph False) [] [] node_t = 1"
    using parents by (auto simp: stack_entries_def filter_empty_conv)
  moreover have no: "{n \<in> set [node_t]. has_open_group (\<lambda>x y. 0) (sample_graph False) [] [] n} = {}"
    by (auto simp: has_open_group_def none)
  ultimately show ?thesis using recreateNodeExecutionStack_entries [OF st] st unfolding no by simp
qed

end
