(* ===== verification/PartialFacts.thy ===== *)
theory PartialFacts
  imports Samples ExecutionStack
begin

text \<open>
  What the steps of a partial execution achieve: \<open>filterDisabledNodes\<close> keeps what is reachable
  between enabled nodes, \<open>findSubgraph\<close> keeps the connections of the graph it is given, start nodes
  are dirty or the destination, and \<open>cleanRunData\<close> removes the data of what will run again.
\<close>

section \<open>Disabled nodes\<close>

definition filter_options :: RemoveNodeOptions where
  "filter_options = \<lparr>reconnectConnections = True, skipConnectionFn = Some (\<lambda>c. gc_type c \<noteq> Main)\<rparr>"

lemma skips_filter_options [simp]: "skips filter_options c \<longleftrightarrow> gc_type c \<noteq> Main"
  by (simp add: skips_def filter_options_def)

lemma filter_options_kind [simp]: "reconnectConnections filter_options" "by_type filter_options"
  by (simp_all add: filter_options_def by_type_def skips_def)

definition main_edges :: "DirectedGraph \<Rightarrow> (INode \<times> INode) set" where
  "main_edges g = {(a, b). \<exists>c \<in> set (map_values (dg_connections g)).
     gc_type c = Main \<and> gc_from c = a \<and> gc_to c = b}"

lemma kept_main: "kept_edges filter_options g = main_edges g"
  by (simp add: kept_edges_def main_edges_def)

lemma main_edges_subset: "main_edges g \<subseteq> graph_edges g"
  unfolding kept_main [symmetric] by (rule kept_edges_subset)

definition filter_step :: "DirectedGraph \<Rightarrow> INode \<Rightarrow> DirectedGraph res" where
  "filter_step g node =
     (if is_disabled node then res_bind (removeNode g node filter_options) (\<lambda>(g', _). Inr g') else Inr g)"

lemma filterDisabledNodes_eq:
  "wf_graph g \<Longrightarrow> filterDisabledNodes g =
   fold_res filter_step \<lparr>dg_nodes = dg_nodes g, dg_connections = dg_connections g\<rparr> (map_values (dg_nodes g))"
  unfolding filterDisabledNodes_def filter_step_def [abs_def] filter_options_def
  by (simp add: clone_graph getNodes_def)

definition gone :: "INode list \<Rightarrow> INode \<Rightarrow> bool" where
  "gone ns n \<longleftrightarrow> n \<in> set ns \<and> is_disabled n"

lemma gone_Cons: "gone (n # ns) m \<longleftrightarrow> (is_disabled n \<and> m = n) \<or> gone ns m"
  by (auto simp: gone_def)

text \<open>One disabled node taken out of the graph.\<close>

lemma remove_disabled:
  assumes wf: "wf_graph g" and safe: "all_key_safe g" and n: "node_in g n"
    and free: "(n, n) \<notin> (main_edges g)\<^sup>+"
  shows "\<exists>h cs. removeNode g n filter_options = Inr (h, cs) \<and> wf_graph h \<and> all_key_safe h \<and>
    dg_nodes h = map_delete (node_name n) (dg_nodes g) \<and>
    (\<forall>a b. a \<noteq> n \<longrightarrow> b \<noteq> n \<longrightarrow> ((a, b) \<in> (main_edges h)\<^sup>+ \<longleftrightarrow> (a, b) \<in> (main_edges g)\<^sup>+))"
proof -
  have self: "no_self_connection filter_options g n"
    using free unfolding no_self_connection_def main_edges_def by (auto simp del: set_map)
  obtain h cs where r: "removeNode g n filter_options = Inr (h, cs)" using removeNode_total [OF n] by blast
  have E: "main_edges h = {(a, b) \<in> main_edges g. a \<noteq> n \<and> b \<noteq> n} \<union>
      {(a, b). (a, n) \<in> main_edges g \<and> (n, b) \<in> main_edges g}"
    using removeNode_edges [OF wf safe self _ _ r] by (simp add: kept_main)
  have xx: "(n, n) \<notin> main_edges g" using free by blast
  have same: "\<forall>a b. a \<noteq> n \<longrightarrow> b \<noteq> n \<longrightarrow> ((a, b) \<in> (main_edges h)\<^sup>+ \<longleftrightarrow> (a, b) \<in> (main_edges g)\<^sup>+)"
    by (intro allI impI) (rule trancl_bypass [OF E xx])
  show ?thesis
    by (intro exI conjI) (rule r removeNode_wf [OF wf n self r] removeNode_key_safe [OF safe r]
        removeNode_nodes [OF r] same)+
qed

lemma filter_steps:
  assumes "wf_graph g" "all_key_safe g" "distinct ns" "\<forall>n \<in> set ns. node_in g n"
    and "\<forall>n \<in> set ns. is_disabled n \<longrightarrow> (n, n) \<notin> (main_edges g)\<^sup>+"
  shows "\<exists>h. fold_res filter_step g ns = Inr h \<and> wf_graph h \<and>
    dg_nodes h = filter (\<lambda>(key, n). \<not> gone ns n) (dg_nodes g) \<and>
    (\<forall>a b. \<not> gone ns a \<longrightarrow> \<not> gone ns b \<longrightarrow> ((a, b) \<in> (main_edges h)\<^sup>+ \<longleftrightarrow> (a, b) \<in> (main_edges g)\<^sup>+))"
  using assms
proof (induction ns arbitrary: g)
  case Nil
  then show ?case by (simp add: gone_def)
next
  case (Cons n ns)
  show ?case
  proof (cases "is_disabled n")
    case False
    then have "gone (n # ns) = gone ns" by (simp add: gone_Cons fun_eq_iff)
    moreover have "fold_res filter_step g (n # ns) = fold_res filter_step g ns"
      using False by (simp add: filter_step_def)
    moreover note Cons.IH [of g]
    ultimately show ?thesis using Cons.prems by simp
  next
    case True
    have n: "node_in g n" and free: "(n, n) \<notin> (main_edges g)\<^sup>+" using Cons.prems True by auto
    from remove_disabled [OF Cons.prems(1,2) n free] obtain h cs
      where H: "removeNode g n filter_options = Inr (h, cs) \<and> wf_graph h \<and> all_key_safe h \<and>
        dg_nodes h = map_delete (node_name n) (dg_nodes g) \<and>
        (\<forall>a b. a \<noteq> n \<longrightarrow> b \<noteq> n \<longrightarrow> ((a, b) \<in> (main_edges h)\<^sup>+ \<longleftrightarrow> (a, b) \<in> (main_edges g)\<^sup>+))"
      by (elim exE)
    note r = conjunct1 [OF H] conjunct1 [OF conjunct2 [OF H]]
      conjunct1 [OF conjunct2 [OF conjunct2 [OF H]]]
    note nodes = conjunct1 [OF conjunct2 [OF conjunct2 [OF conjunct2 [OF H]]]]
    note E = conjunct2 [OF conjunct2 [OF conjunct2 [OF conjunct2 [OF H]]], rule_format]
    have other: "node_in h m" if "m \<in> set ns" for m
    proof -
      have m: "node_in g m" "m \<noteq> n" using that Cons.prems(3,4) by auto
      then have "node_name m \<noteq> node_name n" using n node_in_same_name by blast
      with m(1) show ?thesis unfolding node_in_def nodes by simp
    qed
    have "\<forall>m \<in> set ns. is_disabled m \<longrightarrow> (m, m) \<notin> (main_edges h)\<^sup>+"
    proof (intro ballI impI)
      fix m
      assume m: "m \<in> set ns" "is_disabled m"
      then have "m \<noteq> n" using Cons.prems(3) by auto
      then show "(m, m) \<notin> (main_edges h)\<^sup>+" using E [of m m] Cons.prems(5) m by simp
    qed
    then obtain k where k: "fold_res filter_step h ns = Inr k" "wf_graph k"
      "dg_nodes k = filter (\<lambda>(key, m). \<not> gone ns m) (dg_nodes h)"
      "\<And>a b. \<not> gone ns a \<Longrightarrow> \<not> gone ns b \<Longrightarrow> (a, b) \<in> (main_edges k)\<^sup>+ \<longleftrightarrow> (a, b) \<in> (main_edges h)\<^sup>+"
      using Cons.IH [of h] r(2,3) Cons.prems(3) other by (simp, blast)
    have "fst e \<noteq> node_name n \<longleftrightarrow> snd e \<noteq> n" if "e \<in> set (dg_nodes g)" for e
    proof -
      have "node_in g (snd e)" using that node_in_iff [OF Cons.prems(1)] by auto
      moreover have "fst e = node_name (snd e)"
        using wf_graphD(2) [OF Cons.prems(1), of "fst e" "snd e"] that by simp
      ultimately show ?thesis using node_in_same_name [OF _ n] by metis
    qed
    then have "dg_nodes k = filter (\<lambda>(key, m). \<not> gone (n # ns) m) (dg_nodes g)"
      unfolding k(3) nodes map_delete_def filter_filter using True
      by (auto simp: gone_def intro!: filter_cong)
    moreover have "fold_res filter_step g (n # ns) = Inr k" using True r(1) k(1) by (simp add: filter_step_def)
    moreover have "(a, b) \<in> (main_edges k)\<^sup>+ \<longleftrightarrow> (a, b) \<in> (main_edges g)\<^sup>+"
      if "\<not> gone (n # ns) a" "\<not> gone (n # ns) b" for a b
    proof -
      have "a \<noteq> n" "b \<noteq> n" "\<not> gone ns a" "\<not> gone ns b" using that True by (auto simp: gone_Cons)
      then show ?thesis using k(4) [of a b] E [of a b] by simp
    qed
    ultimately show ?thesis using k(2) by blast
  qed
qed

lemma distinct_values_nodes:
  assumes "wf_graph g"
  shows "distinct (map_values (dg_nodes g))"
proof -
  have "map node_name (map_values (dg_nodes g)) = map_keys (dg_nodes g)"
    using nodes_by_name [OF assms, THEN arg_cong [of _ _ "map fst"]] by (simp add: comp_def)
  then show ?thesis using wf_graphD(1) [OF assms] by (metis distinct_map)
qed

text \<open>C15: on a well-formed graph in which no cycle of main connections runs through a disabled node,
  \<open>filterDisabledNodes\<close> succeeds; its result is well-formed, has exactly the enabled nodes in their
  order, and between them exactly the same nodes are reachable over main connections as before. The
  names of the nodes that connections leave may not have a hyphen, with which the keys of connections are
  joined: otherwise a connection that is added can replace another.\<close>

theorem filterDisabledNodes_reachability:
  assumes wf: "wf_graph g" and safe: "all_key_safe g"
    and free: "\<forall>n \<in> set (map_values (dg_nodes g)). is_disabled n \<longrightarrow> (n, n) \<notin> (main_edges g)\<^sup>+"
  shows "\<exists>h. filterDisabledNodes g = Inr h \<and> wf_graph h \<and>
    map_values (dg_nodes h) = filter (\<lambda>n. \<not> is_disabled n) (map_values (dg_nodes g)) \<and>
    (\<forall>a b. \<not> is_disabled a \<longrightarrow> \<not> is_disabled b \<longrightarrow>
       ((a, b) \<in> (main_edges h)\<^sup>+ \<longleftrightarrow> (a, b) \<in> (main_edges g)\<^sup>+))"
proof -
  let ?g = "\<lparr>dg_nodes = dg_nodes g, dg_connections = dg_connections g\<rparr>"
  let ?ns = "map_values (dg_nodes g)"
  have same: "?g = g" by simp
  obtain h where h: "fold_res filter_step g ?ns = Inr h" "wf_graph h"
    "dg_nodes h = filter (\<lambda>(key, n). \<not> gone ?ns n) (dg_nodes g)"
    "\<And>a b. \<not> gone ?ns a \<Longrightarrow> \<not> gone ?ns b \<Longrightarrow> (a, b) \<in> (main_edges h)\<^sup>+ \<longleftrightarrow> (a, b) \<in> (main_edges g)\<^sup>+"
    using filter_steps [OF wf safe distinct_values_nodes [OF wf]] free node_in_iff [OF wf] by blast
  have "map_values (dg_nodes h) = filter (\<lambda>n. \<not> is_disabled n) ?ns"
    unfolding h(3) filter_map by (intro arg_cong [of _ _ "map snd"] filter_cong) (force simp: gone_def)+
  moreover have "\<not> gone ?ns a" if "\<not> is_disabled a" for a using that by (simp add: gone_def)
  ultimately show ?thesis using h filterDisabledNodes_eq [OF wf] unfolding same
    by (intro exI [of _ h]) simp
qed

theorem filterDisabledNodes_reachability_witness:
  "\<exists>h. filterDisabledNodes (sample_graph True) = Inr h \<and> map_values (dg_nodes h) = [node_t, node_b] \<and>
     (node_t, node_b) \<in> (main_edges h)\<^sup>+"
proof -
  have main: "main_edges (sample_graph True) = {(node_t, node_a True), (node_a True, node_b)}"
    unfolding main_edges_def sample_graph_values by (auto simp: main_connection_def)
  have acyclic: "(n, n) \<notin> (main_edges (sample_graph True))\<^sup>+" for n
    by (rule edges_up_acyclic) (simp add: main sample_nodes)
  have "(node_t, node_b) \<in> (main_edges (sample_graph True))\<^sup>+"
    by (rule trancl_into_trancl [of _ "node_a True"]) (auto simp: main)
  moreover have dis: "\<not> is_disabled node_t" "\<not> is_disabled node_b" "is_disabled (node_a True)"
    by (simp_all add: is_disabled_def sample_nodes)
  moreover have "filter (\<lambda>n. \<not> is_disabled n) (map_values (dg_nodes (sample_graph True))) = [node_t, node_b]"
    unfolding sample_graph_values by (simp add: dis)
  ultimately show ?thesis
    using filterDisabledNodes_reachability [of "sample_graph True"] acyclic by auto
qed

end
