(* ===== verification/PartialSubgraph.thy ===== *)
theory PartialSubgraph
  imports PartialFacts
begin

text \<open>
  \<open>findSubgraph\<close>: the part of the graph between trigger and destination. The search from the
  destination against the main connections keeps the branches that end at the trigger or close a
  cycle; then the sub-nodes of what was kept are added.
\<close>

section \<open>Growing a subgraph\<close>

definition conns :: "DirectedGraph \<Rightarrow> GraphConnection set" where
  "conns g = set (map_values (dg_connections g))"

definition ends :: "GraphConnection set \<Rightarrow> INode set" where
  "ends C = gc_from ` C \<union> gc_to ` C"

lemma ends_simps [simp]:
  "ends {} = {}" "ends (insert c C) = {gc_from c, gc_to c} \<union> ends C" "ends (C \<union> D) = ends C \<union> ends D"
  by (auto simp: ends_def)

text \<open>A well-formed graph whose connections are among those of \<open>g\<close> and whose nodes are their ends.\<close>

definition subgraph_of :: "DirectedGraph \<Rightarrow> DirectedGraph \<Rightarrow> bool" where
  "subgraph_of g h \<longleftrightarrow> wf_graph h \<and> conns h \<subseteq> conns g \<and> graph_nodes h = ends (conns h)"

lemma conns_nodes: "wf_graph g \<Longrightarrow> c \<in> conns g \<Longrightarrow> node_in g (gc_from c) \<and> node_in g (gc_to c)"
  using wf_graphD(5,6) by (auto simp: conns_def)

lemma node_in_nodes: "wf_graph g \<Longrightarrow> node_in g n \<longleftrightarrow> n \<in> graph_nodes g"
  by (simp add: node_in_iff graph_nodes_def)

lemma subgraph_nodes:
  assumes "wf_graph g" "subgraph_of g h" "node_in h n"
  shows "node_in g n"
  using assms conns_nodes [OF assms(1)] node_in_nodes [of h]
  by (fastforce simp: subgraph_of_def ends_def)

lemma subgraph_empty: "subgraph_of g empty_graph"
  by (simp add: subgraph_of_def conns_def graph_nodes_def) (simp add: empty_graph_def)

lemma addNode_same:
  assumes wf: "wf_graph h" and same: "\<forall>m. node_in h m \<longrightarrow> node_name m = node_name n \<longrightarrow> m = n"
  shows "wf_graph (addNode h n)" "graph_nodes (addNode h n) = insert n (graph_nodes h)"
    "conns (addNode h n) = conns h"
proof -
  have "map_of (dg_nodes h) (node_name n) \<in> {None, Some n}"
  proof (cases "map_of (dg_nodes h) (node_name n)")
    case (Some m)
    then have "node_name m = node_name n" using wf_graphD(2) [OF wf map_of_SomeD] by metis
    with Some same show ?thesis by (auto simp: node_in_def)
  qed simp
  then show wf': "wf_graph (addNode h n)" by (rule wf_addNode [OF wf])
  show "graph_nodes (addNode h n) = insert n (graph_nodes h)"
    using same by (auto simp: node_in_nodes [OF wf', symmetric] node_in_nodes [OF wf, symmetric] node_in_addNode)
  show "conns (addNode h n) = conns h" by (simp add: conns_def addNode_def)
qed

text \<open>Connections of one graph have different keys, even if node names have hyphens.\<close>

lemma key_of_connection:
  assumes "wf_graph g" "d \<in> conns g" "c \<in> conns g" "makeKey d = makeKey c"
  shows "d = c"
proof -
  from assms(2,3) obtain k l where "(k, d) \<in> set (dg_connections g)" "(l, c) \<in> set (dg_connections g)" by (auto simp: conns_def)
  moreover from this have "k = l" using wf_graphD(4) [OF assms(1)] assms(4) by metis
  ultimately show ?thesis using wf_graphD(3) [OF assms(1)] by (metis eq_key_imp_eq_value)
qed

lemma put_new_connection:
  assumes "wf_graph h" "\<And>d. (makeKey c, d) \<in> set (dg_connections h) \<Longrightarrow> d = c"
  shows "conns (put_connection h c) = insert c (conns h)"
  using wf_graphD(3) [OF assms(1)] assms(2) by (force simp: conns_def put_connection_def set_map_set)

lemma keep_connection_grows:
  assumes g: "wf_graph g" and h: "subgraph_of g h" and c: "c \<in> conns g"
  shows "\<exists>k. keep_connection h c = Inr k \<and> subgraph_of g k \<and> conns k = insert c (conns h)"
proof -
  let ?h1 = "addNode h (gc_from c)" and ?h2 = "addNode (addNode h (gc_from c)) (gc_to c)"
  note cg = conns_nodes [OF g c]
  have wf: "wf_graph h" using h by (simp add: subgraph_of_def)
  have in_g: "node_in h m \<Longrightarrow> node_in g m" for m by (rule subgraph_nodes [OF g h])
  have same1: "\<forall>m. node_in h m \<longrightarrow> node_name m = node_name (gc_from c) \<longrightarrow> m = gc_from c"
    using in_g cg node_in_same_name by blast
  note one = addNode_same [OF wf same1]
  have same2: "\<forall>m. node_in ?h1 m \<longrightarrow> node_name m = node_name (gc_to c) \<longrightarrow> m = gc_to c"
    using in_g cg node_in_same_name by (metis node_in_addNode)
  note two = addNode_same [OF one(1) same2]
  have ends: "node_in ?h2 (gc_from c)" "node_in ?h2 (gc_to c)"
    using node_in_nodes [OF two(1)] two(2) one(2) by auto
  have k: "keep_connection h c = Inr (put_connection ?h2 c)"
    using input_of_added [OF ends] by (simp add: keep_connection_def addNodes_def)
  have "conns ?h2 = conns h" using one(3) two(3) by simp
  moreover have "d = c" if "(makeKey c, d) \<in> set (dg_connections ?h2)" for d
  proof (rule key_of_connection [OF g _ c])
    have "d \<in> conns ?h2" using that by (force simp: conns_def)
    then show "d \<in> conns g" using h \<open>conns ?h2 = conns h\<close> by (auto simp: subgraph_of_def)
    show "makeKey d = makeKey c" using wf_graphD(4) [OF two(1) that] by simp
  qed
  ultimately have conns: "conns (put_connection ?h2 c) = insert c (conns h)"
    using put_new_connection [OF two(1), of c] by simp
  have "graph_nodes (put_connection ?h2 c) = {gc_from c, gc_to c} \<union> graph_nodes h"
    using one(2) two(2) by (auto simp: graph_nodes_def put_connection_def)
  then have "subgraph_of g (put_connection ?h2 c)"
    using h c conns wf_put_connection [OF two(1) ends] by (auto simp: subgraph_of_def)
  with k conns show ?thesis by blast
qed

lemma keep_connections_grow:
  assumes g: "wf_graph g" and "subgraph_of g h" and "set cs \<subseteq> conns g"
  shows "\<exists>k. fold_res keep_connection h cs = Inr k \<and> subgraph_of g k \<and> conns k = set cs \<union> conns h"
  using assms(2,3)
proof (induction cs arbitrary: h)
  case (Cons c cs)
  then obtain k where k: "keep_connection h c = Inr k" "subgraph_of g k" "conns k = insert c (conns h)"
    using keep_connection_grows [OF g] by (metis insert_subset list.simps(15))
  with Cons.IH [OF k(2)] Cons.prems(2) show ?case by auto
qed simp

section \<open>The branches that are kept\<close>

text \<open>Main connections that lead to the destination and come from the trigger or from a cycle.\<close>

definition branch_conns :: "DirectedGraph \<Rightarrow> INode \<Rightarrow> INode \<Rightarrow> GraphConnection set" where
  "branch_conns g trigger destination = {c \<in> conns g. gc_type c = Main \<and>
     (gc_to c, destination) \<in> (main_edges g)\<^sup>* \<and>
     (\<exists>x. (x = trigger \<or> (x, x) \<in> (main_edges g)\<^sup>+) \<and> (x, gc_from c) \<in> (main_edges g)\<^sup>*)}"

text \<open>A branch: main connections on the way from the current node to the destination.\<close>

definition branch_ok :: "DirectedGraph \<Rightarrow> INode \<Rightarrow> INode \<Rightarrow> GraphConnection list \<Rightarrow> bool" where
  "branch_ok g destination n B \<longleftrightarrow> n \<in> graph_nodes g \<and> (n, destination) \<in> (main_edges g)\<^sup>* \<and>
     (\<forall>c \<in> set B. c \<in> conns g \<and> gc_type c = Main \<and> (gc_to c, destination) \<in> (main_edges g)\<^sup>* \<and>
        (n, gc_from c) \<in> (main_edges g)\<^sup>*)"

lemma main_edge: "c \<in> conns g \<Longrightarrow> gc_type c = Main \<Longrightarrow> (gc_from c, gc_to c) \<in> main_edges g"
  unfolding main_edges_def conns_def by blast

lemma branch_step:
  assumes wf: "wf_graph g" and B: "branch_ok g destination n B"
    and c: "c \<in> conns g" "gc_type c = Main" "gc_to c = n"
  shows "branch_ok g destination (gc_from c) (B @ [c])"
proof -
  have e: "(gc_from c, n) \<in> main_edges g" using main_edge [OF c(1,2)] c(3) by simp
  have "gc_from c \<in> graph_nodes g" using conns_nodes [OF wf c(1)] node_in_nodes [OF wf] by blast
  then show ?thesis using B c e unfolding branch_ok_def
    by (auto intro: converse_rtrancl_into_rtrancl)
qed

lemma branch_kept:
  assumes B: "branch_ok g destination n B" and n: "n = trigger \<or> (\<exists>c \<in> set B. gc_to c = n)"
  shows "set B \<subseteq> branch_conns g trigger destination"
proof -
  have "n = trigger \<or> (n, n) \<in> (main_edges g)\<^sup>+"
  proof (cases "n = trigger")
    case False
    with n obtain c where c: "c \<in> set B" "gc_to c = n" by blast
    then have "(gc_from c, n) \<in> main_edges g" "(n, gc_from c) \<in> (main_edges g)\<^sup>*"
      using B main_edge unfolding branch_ok_def by blast+
    then show ?thesis by (auto intro: rtrancl_into_trancl1)
  qed simp
  then show ?thesis using B unfolding branch_ok_def branch_conns_def by blast
qed

definition grows :: "GraphConnection set \<Rightarrow> DirectedGraph \<Rightarrow> DirectedGraph \<Rightarrow> bool" where
  "grows U h k \<longleftrightarrow> conns h \<subseteq> conns k \<and> conns k \<subseteq> U \<union> conns h"

text \<open>In a graph without main cycles, what a call for a node \<open>n\<close> and a branch must have kept.\<close>

definition covered :: "DirectedGraph \<Rightarrow> INode \<Rightarrow> INode \<Rightarrow> GraphConnection list \<Rightarrow> DirectedGraph \<Rightarrow> bool" where
  "covered g trigger n B h \<longleftrightarrow>
     ((trigger, n) \<in> (main_edges g)\<^sup>* \<longrightarrow> set B \<subseteq> conns h) \<and>
     (\<forall>c \<in> conns g. gc_type c = Main \<longrightarrow> (trigger, gc_from c) \<in> (main_edges g)\<^sup>* \<longrightarrow>
        (gc_to c, n) \<in> (main_edges g)\<^sup>* \<longrightarrow> c \<in> conns h)"

lemma covered_mono: "covered g trigger n B h \<Longrightarrow> grows U h k \<Longrightarrow> covered g trigger n B k"
  unfolding covered_def grows_def by blast

lemma last_main_edge:
  assumes "(a, n) \<in> (main_edges g)\<^sup>*" "a \<noteq> n"
  obtains c where "c \<in> conns g" "gc_type c = Main" "gc_to c = n" "(a, gc_from c) \<in> (main_edges g)\<^sup>*"
proof -
  from assms obtain y where "(a, y) \<in> (main_edges g)\<^sup>*" "(y, n) \<in> main_edges g" by (meson rtranclE)
  then show thesis using that unfolding main_edges_def conns_def by blast
qed

lemma covered_from_parents:
  assumes "n \<noteq> trigger"
    and parents: "\<And>c. c \<in> conns g \<Longrightarrow> gc_type c = Main \<Longrightarrow> gc_to c = n \<Longrightarrow> covered g trigger (gc_from c) (B @ [c]) h"
  shows "covered g trigger n B h"
  unfolding covered_def
proof (intro conjI impI ballI)
  assume "(trigger, n) \<in> (main_edges g)\<^sup>*"
  then obtain c where "c \<in> conns g" "gc_type c = Main" "gc_to c = n" "(trigger, gc_from c) \<in> (main_edges g)\<^sup>*"
    using assms(1) by (metis last_main_edge)
  with parents [of c] show "set B \<subseteq> conns h" by (auto simp: covered_def)
next
  fix c
  assume c: "c \<in> conns g" "gc_type c = Main" "(trigger, gc_from c) \<in> (main_edges g)\<^sup>*" "(gc_to c, n) \<in> (main_edges g)\<^sup>*"
  show "c \<in> conns h"
  proof (cases "gc_to c = n")
    case True
    with parents [of c] c show ?thesis by (auto simp: covered_def)
  next
    case False
    with c(4) obtain d where "d \<in> conns g" "gc_type d = Main" "gc_to d = n" "(gc_to c, gc_from d) \<in> (main_edges g)\<^sup>*"
      by (rule last_main_edge)
    with parents [of d] c show ?thesis by (auto simp: covered_def)
  qed
qed

lemma covered_at_trigger:
  assumes "\<forall>x. (x, x) \<notin> (main_edges g)\<^sup>+" "set B \<subseteq> conns h"
  shows "covered g trigger trigger B h"
proof -
  have False if "c \<in> conns g" "gc_type c = Main" "(trigger, gc_from c) \<in> (main_edges g)\<^sup>*"
    "(gc_to c, trigger) \<in> (main_edges g)\<^sup>*" for c
    using assms(1) main_edge [OF that(1,2)] that(3,4)
    by (meson rtrancl_into_trancl1 trancl_rtrancl_trancl)
  with assms(2) show ?thesis unfolding covered_def by blast
qed

lemma covered_no_parents:
  assumes "n \<noteq> trigger" "\<forall>c \<in> conns g. gc_to c \<noteq> n"
  shows "covered g trigger n B h"
  using assms(2) by (intro covered_from_parents [OF assms(1)]) blast

lemma no_revisit:
  assumes "\<forall>x. (x, x) \<notin> (main_edges g)\<^sup>+" "branch_ok g destination n B" "c \<in> set B"
  shows "gc_to c \<noteq> n"
  using assms main_edge [of c g] unfolding branch_ok_def
  by (metis rtrancl_into_trancl1)

lemma findSubgraphRecursive_grows:
  assumes g: "wf_graph g"
    and "subgraph_of g h" "branch_ok g destination n B" "card (graph_nodes g - gc_to ` set B) < fuel"
  shows "\<exists>k. findSubgraphRecursive fuel g destination n trigger h B = Inr k \<and> subgraph_of g k \<and>
    grows (branch_conns g trigger destination) h k \<and>
    ((\<forall>x. (x, x) \<notin> (main_edges g)\<^sup>+) \<longrightarrow> covered g trigger n B k)"
  using assms(2-)
proof (induction fuel arbitrary: n h B)
  case 0
  then show ?case by simp
next
  case (Suc fuel)
  let ?U = "branch_conns g trigger destination"
  let ?acyclic = "\<forall>x. (x, x) \<notin> (main_edges g)\<^sup>+"
  let ?revisit = "\<exists>c \<in> set B. gc_to c = n"
  let ?parents = "filter (\<lambda>c. gc_to c = n) (map_values (dg_connections g))"
  have n: "node_in g n" using Suc.prems(2) node_in_nodes [OF g] by (simp add: branch_ok_def)
  then have direct: "getDirectParentConnections g n = Inr ?parents"
    by (simp add: getDirectParentConnections_def)
  have B: "set B \<subseteq> conns g" using Suc.prems(2) by (auto simp: branch_ok_def)
  from keep_connections_grow [OF g Suc.prems(1) B] obtain k where
    k: "fold_res keep_connection h B = Inr k" "subgraph_of g k" "conns k = set B \<union> conns h" by blast
  have kept: "grows ?U h k" if "n = trigger \<or> ?revisit"
    using branch_kept [OF Suc.prems(2) that] k(3) by (auto simp: grows_def)
  have same: "grows ?U h h" by (simp add: grows_def)
  consider (trigger) "n = trigger" | (root) "n \<noteq> trigger" "?parents = []"
    | (again) "n \<noteq> trigger" "?parents \<noteq> []" "?revisit"
    | (up) "n \<noteq> trigger" "?parents \<noteq> []" "\<not> ?revisit" by blast
  then show ?case
  proof cases
    case trigger
    moreover have "?acyclic \<longrightarrow> covered g trigger n B k"
      using covered_at_trigger k(3) trigger by blast
    ultimately show ?thesis using k kept by auto
  next
    case root
    then have "\<forall>c \<in> conns g. gc_to c \<noteq> n" by (simp add: filter_empty_conv conns_def)
    with root(1) have "covered g trigger n B h" by (rule covered_no_parents)
    with root direct same Suc.prems(1) show ?thesis by simp
  next
    case again
    then have "\<not> ?acyclic" using no_revisit [OF _ Suc.prems(2)] by blast
    with again direct same kept k Suc.prems(1) show ?thesis
      by (cases "n = destination") auto
  next
    case up
    let ?step = "\<lambda>h c. if gc_type c \<noteq> Main then Inr h
      else findSubgraphRecursive fuel g destination (gc_from c) trigger h (B @ [c])"
    let ?Q = "\<lambda>c k. ?acyclic \<longrightarrow> gc_type c = Main \<longrightarrow> covered g trigger (gc_from c) (B @ [c]) k"
    have "card (graph_nodes g - insert n (gc_to ` set B)) < card (graph_nodes g - gc_to ` set B)"
    proof (intro psubset_card_mono psubsetI)
      have "n \<in> graph_nodes g - gc_to ` set B" using up(3) n node_in_nodes [OF g] by blast
      then show "graph_nodes g - insert n (gc_to ` set B) \<noteq> graph_nodes g - gc_to ` set B" by blast
    qed (auto simp: graph_nodes_def)
    with Suc.prems(3) have small: "card (graph_nodes g - insert n (gc_to ` set B)) < fuel" by simp
    have step: "\<exists>v. ?step u c = Inr v \<and> subgraph_of g v \<and> grows ?U u v \<and> ?Q c v"
      if c: "c \<in> set ?parents" and u: "subgraph_of g u" for u c
    proof (cases "gc_type c = Main")
      case True
      have c': "c \<in> conns g" "gc_to c = n" using c by (auto simp: conns_def)
      from Suc.IH [OF u branch_step [OF g Suc.prems(2) c'(1) True c'(2)]] small c' True
      show ?thesis by simp
    qed (simp add: grows_def u)
    have "\<exists>k. fold_res ?step h ?parents = Inr k \<and> subgraph_of g k \<and> grows ?U h k \<and> (\<forall>c \<in> set ?parents. ?Q c k)"
      by (rule fold_res_grow [where I = "subgraph_of g", OF Suc.prems(1) step])
        (auto simp: grows_def intro: covered_mono [of _ _ _ _ _ ?U, unfolded grows_def])
    then obtain k where k: "fold_res ?step h ?parents = Inr k" "subgraph_of g k" "grows ?U h k"
      "\<forall>c \<in> set ?parents. ?Q c k" by blast
    have "?acyclic \<longrightarrow> covered g trigger n B k"
      using k(4) by (intro impI covered_from_parents [OF up(1)]) (auto simp: conns_def)
    moreover have "findSubgraphRecursive (Suc fuel) g destination n trigger h B = Inr k"
      using up direct k(1) by auto
    ultimately show ?thesis using k by blast
  qed
qed

section \<open>Sub-nodes\<close>

text \<open>Connections of another type than main that lead, over any connections, to a node of a set.\<close>

definition utility_conns :: "DirectedGraph \<Rightarrow> INode set \<Rightarrow> GraphConnection set" where
  "utility_conns g M = {c \<in> conns g. gc_type c \<noteq> Main \<and> (\<exists>m \<in> M. (gc_to c, m) \<in> (graph_edges g)\<^sup>*)}"

lemma add_utility_nodes_adds:
  assumes g: "wf_graph g" and h: "subgraph_of g h" and n: "node_in g n"
  shows "\<exists>k. add_utility_nodes g h n = Inr k \<and> subgraph_of g k \<and> conns k = conns h \<union> utility_conns g {n}"
proof -
  obtain cs where cs: "getParentConnections g n = Inr cs"
    "set cs = {c \<in> conns g. (gc_to c, n) \<in> (graph_edges g)\<^sup>*}"
    using getParentConnections_reachable [OF g n] unfolding conns_def by blast
  have "fold_res (\<lambda>h c. if gc_type c = Main then Inr h else keep_connection h c) h cs =
      fold_res keep_connection h (filter (\<lambda>c. gc_type c \<noteq> Main) cs)" for cs
    by (induction cs arbitrary: h) (auto simp: res_bind_def split: sum.splits)
  moreover obtain k where "fold_res keep_connection h (filter (\<lambda>c. gc_type c \<noteq> Main) cs) = Inr k"
    "subgraph_of g k" "conns k = set (filter (\<lambda>c. gc_type c \<noteq> Main) cs) \<union> conns h"
    using keep_connections_grow [OF g h, of "filter (\<lambda>c. gc_type c \<noteq> Main) cs"] cs(2) by auto
  ultimately show ?thesis by (intro exI [of _ k]) (auto simp: add_utility_nodes_def cs utility_conns_def)
qed

lemma utility_loop:
  assumes g: "wf_graph g" and "subgraph_of g h" "\<forall>n \<in> set ns. node_in g n"
  shows "\<exists>k. fold_res (add_utility_nodes g) h ns = Inr k \<and> subgraph_of g k \<and>
    conns k = conns h \<union> utility_conns g (set ns)"
  using assms(2,3)
proof (induction ns arbitrary: h)
  case Nil
  then show ?case by (simp add: utility_conns_def)
next
  case (Cons n ns)
  from add_utility_nodes_adds [OF g Cons.prems(1), of n] Cons.prems(2) obtain k where
    k: "add_utility_nodes g h n = Inr k" "subgraph_of g k" "conns k = conns h \<union> utility_conns g {n}" by auto
  have "utility_conns g (set (n # ns)) = utility_conns g {n} \<union> utility_conns g (set ns)"
    unfolding utility_conns_def by auto
  with Cons.IH [OF k(2)] Cons.prems(2) k show ?case by auto
qed

text \<open>C2: on a well-formed graph \<open>findSubgraph\<close> ends without an error. Its result is a well-formed
  graph whose nodes are the ends of its connections; each main connection in it leads to the
  destination and comes from the trigger or from a cycle, and without main cycles these are exactly
  the main connections on a way from trigger to destination. Of the other connections it has exactly
  those from whose target an end of such a main connection can be reached over connections of any type:
  also those of nodes upstream of the trigger, which the comment of the loop does not ask for.\<close>

theorem findSubgraph_between:
  assumes g: "wf_graph g" and nodes: "node_in g trigger" "node_in g destination"
  shows "\<exists>h M. findSubgraph g destination trigger = Inr h \<and> wf_graph h \<and> graph_nodes h = ends (conns h) \<and>
    conns h = M \<union> utility_conns g (ends M) \<and> M \<subseteq> branch_conns g trigger destination \<and>
    ((\<forall>x. (x, x) \<notin> (main_edges g)\<^sup>+) \<longrightarrow> M = {c \<in> conns g. gc_type c = Main \<and>
        (trigger, gc_from c) \<in> (main_edges g)\<^sup>* \<and> (gc_to c, destination) \<in> (main_edges g)\<^sup>*})"
proof -
  have start: "branch_ok g destination destination []"
    using nodes(2) node_in_nodes [OF g] by (simp add: branch_ok_def)
  have "card (graph_nodes g - gc_to ` set []) < Suc (Suc (length (dg_nodes g)))"
    using card_length [of "map_values (dg_nodes g)"] by (simp add: graph_nodes_def)
  from findSubgraphRecursive_grows [OF g subgraph_empty start this, of trigger]
  obtain k where k: "findSubgraphRecursive (Suc (Suc (length (dg_nodes g)))) g destination destination trigger
      empty_graph [] = Inr k" "subgraph_of g k" "grows (branch_conns g trigger destination) empty_graph k"
    "(\<forall>x. (x, x) \<notin> (main_edges g)\<^sup>+) \<longrightarrow> covered g trigger destination [] k"
    by blast
  have "\<forall>n \<in> set (map_values (getNodes k)). node_in g n"
    using subgraph_nodes [OF g k(2)] node_in_nodes k(2)
    unfolding subgraph_of_def graph_nodes_def getNodes_def by blast
  from utility_loop [OF g k(2) this] obtain h where
    h: "fold_res (add_utility_nodes g) k (map_values (getNodes k)) = Inr h" "subgraph_of g h"
    "conns h = conns k \<union> utility_conns g (graph_nodes k)" by (auto simp: graph_nodes_def getNodes_def)
  have "graph_nodes k = ends (conns k)" using k(2) by (simp add: subgraph_of_def)
  moreover have "conns empty_graph = {}" by (simp add: conns_def empty_graph_def)
  with k(3) have sub: "conns k \<subseteq> branch_conns g trigger destination" by (auto simp: grows_def)
  moreover have "conns k = {c \<in> conns g. gc_type c = Main \<and>
        (trigger, gc_from c) \<in> (main_edges g)\<^sup>* \<and> (gc_to c, destination) \<in> (main_edges g)\<^sup>*}"
    if "\<forall>x. (x, x) \<notin> (main_edges g)\<^sup>+"
    using sub k(4) that unfolding covered_def branch_conns_def by blast
  moreover have "findSubgraph g destination trigger = Inr h"
    unfolding findSubgraph_def k(1) by (simp add: h(1))
  ultimately show ?thesis using h(2,3) unfolding subgraph_of_def
    by (intro exI [of _ h] exI [of _ "conns k"]) simp
qed

theorem findSubgraph_between_witness:
  "\<exists>h. findSubgraph (sample_graph False) node_b node_t = Inr h \<and>
     conns h = {main_connection node_t (node_a False), main_connection (node_a False) node_b}"
proof -
  let ?g = "sample_graph False"
  have C: "conns ?g = {main_connection node_t (node_a False), main_connection (node_a False) node_b}"
    unfolding conns_def sample_graph_values by simp
  have main: "\<forall>c \<in> conns ?g. gc_type c = Main" unfolding C by (simp add: main_connection_def)
  then have E: "main_edges ?g = graph_edges ?g" by (auto simp: main_edges_def graph_edges_def conns_def)
  have none: "utility_conns ?g N = {}" for N using main by (auto simp: utility_conns_def)
  have "(node_t, node_a False) \<in> (graph_edges ?g)\<^sup>*" "(node_a False, node_b) \<in> (graph_edges ?g)\<^sup>*"
    by (auto simp: sample_graph_edges)
  then have "{c \<in> conns ?g. gc_type c = Main \<and> (node_t, gc_from c) \<in> (main_edges ?g)\<^sup>* \<and>
      (gc_to c, node_b) \<in> (main_edges ?g)\<^sup>*} = conns ?g"
    unfolding C E by (auto simp: main_connection_def)
  then show ?thesis
    using findSubgraph_between [OF sample_graph_wf sample_graph_nodes(1,3), of False]
    by (auto simp: none E C)
qed

text \<open>
  The comment of the loop asks for the connections that lead to a node of the subgraph. The loop takes all
  connections upstream: a sub-node \<open>A\<close> of a node \<open>B\<close> before the trigger is kept, with \<open>B\<close>, which is not on
  the way from the trigger to the destination.
\<close>

definition upstream_graph :: DirectedGraph where
  "upstream_graph = foldl put_connection (addNodes empty_graph [node_t, node_a False, node_b, sample_node 4 ''D'' ''n8n-nodes-base.set'' False])
     [(main_connection (node_a False) node_b)\<lparr>gc_type := AiTool\<rparr>, main_connection node_b node_t,
      main_connection node_t (sample_node 4 ''D'' ''n8n-nodes-base.set'' False)]"

lemma upstream_subnodes_kept:
  "map_sum id (\<lambda>h. map_keys (dg_nodes h)) (findSubgraph upstream_graph (sample_node 4 ''D'' ''n8n-nodes-base.set'' False) node_t) =
     Inr [''Trigger'', ''D'', ''A'', ''B'']"
  by code_simp

end
