(* ===== verification/PartialRun.thy ===== *)
theory PartialRun
  imports PartialStart PartialData PartialSubgraph
begin

text \<open>
  The whole preparation of a partial execution, \<open>runPartialWorkflow2\<close>: what holds of the state it
  hands to the engine whenever it succeeds, whatever the workflow and the run data.
\<close>

lemma omit_keys_without: "omit_keys ks m = without_keys (set ks) m"
  unfolding omit_keys_def by (subst foldl_without [of ks _ "\<lambda>k. {k}"]) (auto simp: map_delete_without)

lemma fold_keeps_subset:
  assumes "fold_res f m xs = Inr m'" "\<And>u x v. f u x = Inr v \<Longrightarrow> set v \<subseteq> set (u :: ('k \<times> 'v) list)"
  shows "set m' \<subseteq> set m"
  using fold_res_invariant [of f m xs m' "\<lambda>u. set u \<subseteq> set m"] assms by blast

lemma clean_node_subset: "clean_node g rd n = Inr rd' \<Longrightarrow> set rd' \<subseteq> set rd - {e. fst e = node_name n}"
proof -
  assume "clean_node g rd n = Inr rd'"
  then obtain cs where rd': "rd' = foldl (\<lambda>rd (c :: GraphConnection). if gc_type c = Main then rd else map_delete (node_name (gc_from c)) rd)
      (map_delete (node_name n) rd) cs" by (auto simp: clean_node_def resI)
  let ?K = "\<lambda>c :: GraphConnection. if gc_type c = Main then {} else {node_name (gc_from c)}"
  have "rd' = without_keys (\<Union>c \<in> set cs. ?K c) (map_delete (node_name n) rd)"
    unfolding rd' by (rule foldl_without) (simp add: map_delete_without)
  then show ?thesis by (auto simp: without_keys_def map_delete_def)
qed

lemma cleanRunData_subset:
  assumes "cleanRunData rd g startNodes = Inr rd'"
  shows "set rd' \<subseteq> {e \<in> set rd. hasNode g (fst e) \<and> fst e \<notin> node_name ` set startNodes}"
proof -
  let ?step = "\<lambda>rd s. let rd' = map_delete (node_name s) rd in
    res_bind (getChildren g s) (\<lambda>children. fold_res (clean_node g) rd' (s # children))"
  from assms obtain m where m: "fold_res ?step rd startNodes = Inr m"
    "rd' = foldl (\<lambda>rd name. if hasNode g name then rd else map_delete name rd) m (map_keys m)"
    by (auto simp: cleanRunData_def resI)
  have step: "?step u s = Inr v \<Longrightarrow> set v \<subseteq> set u - {e. fst e = node_name s}" for u s v
  proof -
    assume "?step u s = Inr v"
    then obtain cs where "fold_res (clean_node g) (map_delete (node_name s) u) cs = Inr v"
      by (auto simp only: Let_def resI)
    then have "set v \<subseteq> set (map_delete (node_name s) u)"
      by (rule fold_keeps_subset) (use clean_node_subset in blast)
    then show "set v \<subseteq> set u - {e. fst e = node_name s}" by (auto simp: map_delete_def)
  qed
  have loop: "fold_res ?step u ss = Inr v \<Longrightarrow> set v \<subseteq> {e \<in> set u. fst e \<notin> node_name ` set ss}" for u ss v
  proof (induction ss arbitrary: u)
    case (Cons s ss)
    then obtain w where w: "?step u s = Inr w" "fold_res ?step w ss = Inr v" by (auto simp only: fold_res.simps resI)
    with step [OF w(1)] Cons.IH [OF w(2)] show ?case by auto
  qed simp
  have "rd' = without_keys (\<Union>name \<in> set (map_keys m). if hasNode g name then {} else {name}) m"
    unfolding m(2) by (rule foldl_without) (simp add: map_delete_without)
  then have "set rd' \<subseteq> {e \<in> set m. hasNode g (fst e)}" by (force simp: without_keys_def split: if_splits)
  with loop [OF m(1)] show ?thesis by auto
qed

lemma runPartialWorkflow2_facts:
  assumes "runPartialWorkflow2 sort_impl localeCompare w runData pinData dirty destination = Inr r"
  shows "pr_runNodeFilter r = map node_name (map_values (dg_nodes (pr_graph r))) \<and>
    \<not> list_ex is_disabled (map_values (dg_nodes (pr_graph r))) \<and>
    set (pr_runData r) \<subseteq> set runData \<and>
    fst ` set (pr_runData r) \<subseteq> set (map_keys (dg_nodes (pr_graph r))) - set dirty \<and>
    fst ` set (pr_runData r) \<inter> (node_name ` ex_node ` set (st_stack (pr_stack r)) \<union>
      fst ` set (st_waiting (pr_stack r))) = {}"
proof -
  from assms obtain graph startNodes rd st where
    clean: "cleanRunData (omit_keys dirty runData) graph startNodes = Inr rd"
    and stack: "recreateNodeExecutionStack localeCompare graph startNodes rd pinData = Inr st"
    and r: "pr_runNodeFilter r = map node_name (map_values (dg_nodes graph))" "pr_graph r = graph"
      "pr_runData r = rd" "pr_stack r = st"
    unfolding runPartialWorkflow2_def
    by (auto simp: resI Let_def getNodes_def split: option.splits if_splits)
  note rd = cleanRunData_subset [OF clean, unfolded omit_keys_without]
  note st = recreate_entries [OF stack]
  have "node_name ` ex_node ` set (st_stack st) \<subseteq> node_name ` set startNodes"
  proof -
    have "ex_node ` set (st_stack st) = set (map ex_node (st_stack st))" by simp
    also have "\<dots> \<subseteq> set startNodes" unfolding conjunct1 [OF st] by auto
    finally show ?thesis by (rule image_mono)
  qed
  moreover have "fst ` set (st_waiting st) \<subseteq> node_name ` set startNodes" using st by blast
  moreover have "fst ` set rd \<inter> node_name ` set startNodes = {}" using rd by blast
  ultimately have "fst ` set rd \<inter> (node_name ` ex_node ` set (st_stack st) \<union> fst ` set (st_waiting st)) = {}"
    by blast
  moreover have "set rd \<subseteq> set runData" "fst ` set rd \<subseteq> set (map_keys (dg_nodes graph)) - set dirty"
    using rd by (auto simp: without_keys_def hasNode_def)
  ultimately show ?thesis using st unfolding r list_ex_iff by simp
qed

text \<open>C1: whenever \<open>runPartialWorkflow2\<close> succeeds, the run filter has the names of the nodes of the
  subgraph and no node of it is disabled; the run data it hands on is part of the given run data,
  belongs to nodes of the filter, and has nothing of a dirty node; and no node on the execution stack
  or in the waiting data has run data left.\<close>

theorem runPartialWorkflow2_state:
  assumes "runPartialWorkflow2 sort_impl localeCompare w runData pinData dirty destination = Inr r"
  shows "pr_runNodeFilter r = map node_name (map_values (dg_nodes (pr_graph r))) \<and>
    \<not> list_ex is_disabled (map_values (dg_nodes (pr_graph r))) \<and>
    set (pr_runData r) \<subseteq> set runData \<and>
    fst ` set (pr_runData r) \<subseteq> set (map_keys (dg_nodes (pr_graph r))) - set dirty \<and>
    fst ` set (pr_runData r) \<inter> (node_name ` ex_node ` set (st_stack (pr_stack r)) \<union>
      fst ` set (st_waiting (pr_stack r))) = {}"
  using assms by (rule runPartialWorkflow2_facts)

definition sample_partial_run :: "partial_run res" where
  "sample_partial_run = runPartialWorkflow2 (\<lambda>cmp xs. xs) (\<lambda>x y. 0)
     (sample_workflow [trigger_node, node_a False, node_b]) [] [] [] (Some ''B'')"

theorem runPartialWorkflow2_state_witness:
  "\<exists>r. sample_partial_run = Inr r \<and> pr_runNodeFilter r = [''A'', ''B'', ''T''] \<and>
     fst ` set (pr_runData r) \<inter> node_name ` ex_node ` set (st_stack (pr_stack r)) = {}"
proof -
  have "case sample_partial_run of Inl e \<Rightarrow> False | Inr r \<Rightarrow> pr_runNodeFilter r = [''A'', ''B'', ''T'']"
    by code_simp
  then obtain r where r: "sample_partial_run = Inr r" "pr_runNodeFilter r = [''A'', ''B'', ''T'']"
    by (auto split: sum.splits)
  from runPartialWorkflow2_state [OF r(1) [unfolded sample_partial_run_def]]
  have "fst ` set (pr_runData r) \<inter> (node_name ` ex_node ` set (st_stack (pr_stack r)) \<union>
      fst ` set (st_waiting (pr_stack r))) = {}" by (elim conjE)
  with r show ?thesis by (intro exI [of _ r]) (simp add: Int_Un_distrib)
qed

end
