(* ===== verification/Engine.thy ===== *)
theory Engine
  imports WorkflowGraph
begin

text \<open>
  The state of a running execution and the routine that hands the output of a node to the next
  one (\<open>packages/core/src/execution-engine/workflow-execute.ts\<close>): a node with one input goes to
  the execution stack at once, a node with several waits until each input has its data.

  Arrays of inputs are lists of slots, because the engine tells \<open>null\<close> (no data yet) from
  \<open>undefined\<close>. An object with run indexes as keys is a map of numbers that is enumerated in
  ascending order, as JavaScript enumerates integer keys.
\<close>

section \<open>State\<close>

record IRunExecutionData =
  rx_destinationNode :: "string option"
  rx_runNodeFilter :: "string list option"
  rx_runData :: IRunData
  rx_pinData :: "IPinData option"
  rx_lastNodeExecuted :: "string option"
  rx_error :: "ExecutionError option"
  rx_stack :: "IExecuteData list"
  rx_metadata :: "(string, ITaskMetadata list) js_map"
  rx_waiting :: IWaitingForExecution
  rx_waitingSource :: IWaitingForExecutionSource
  rx_waitTill :: "int option"

definition initial_run ::
  "string option \<Rightarrow> string list option \<Rightarrow> IRunData \<Rightarrow> IPinData option \<Rightarrow> IExecuteData list \<Rightarrow>
   IWaitingForExecution \<Rightarrow> IWaitingForExecutionSource \<Rightarrow> IRunExecutionData" where
  "initial_run destinationNode runNodeFilter runData pinData stack waiting waitingSource =
     \<lparr>rx_destinationNode = destinationNode, rx_runNodeFilter = runNodeFilter, rx_runData = runData,
      rx_pinData = pinData, rx_lastNodeExecuted = None, rx_error = None, rx_stack = stack,
      rx_metadata = [], rx_waiting = waiting, rx_waitingSource = waitingSource, rx_waitTill = None\<rparr>"

definition int_keys :: "(nat \<times> 'v) list \<Rightarrow> nat list" where
  "int_keys m = sort (map_keys m)"

text \<open>\<open>obj[k]\<close> where a missing key is then dereferenced.\<close>

definition get_key :: "('k, 'v) js_map \<Rightarrow> 'k \<Rightarrow> 'v res" where
  "get_key m k = (case map_of m k of None \<Rightarrow> Inl TypeError | Some v \<Rightarrow> Inr v)"

definition forceInputNodeExecution :: "Workflow \<Rightarrow> bool" where
  "forceInputNodeExecution w = (wf_executionOrder w \<noteq> Some ''v1'')"

text \<open>\<open>nodeExecutionStack[enqueueFn](item)\<close>: to the front in version 1 of the order, else to the end.\<close>

definition enqueue_item :: "Workflow \<Rightarrow> IExecuteData \<Rightarrow> IRunExecutionData \<Rightarrow> IRunExecutionData" where
  "enqueue_item w item rx =
     rx\<lparr>rx_stack := (if wf_executionOrder w = Some ''v1'' then item # rx_stack rx
                     else rx_stack rx @ [item])\<rparr>"

text \<open>\<open>workflow.connectionsByDestinationNode[name].main\<close>.\<close>

definition main_inputs :: "Workflow \<Rightarrow> string \<Rightarrow> NodeInputConnections res" where
  "main_inputs w name =
     res_bind (get_key (wf_connectionsByDestinationNode w) name) (\<lambda>tc. get_key tc Main)"

definition main_outputs :: "Workflow \<Rightarrow> string \<Rightarrow> NodeInputConnections res" where
  "main_outputs w name =
     res_bind (get_key (wf_connectionsBySourceNode w) name) (\<lambda>tc. get_key tc Main)"

definition source_of :: "string \<Rightarrow> nat \<Rightarrow> nat \<Rightarrow> ISourceData" where
  "source_of parentNodeName outputIndex runIndex =
     \<lparr>src_previousNode = parentNodeName,
      src_previousNodeOutput = (if outputIndex = 0 then None else Some outputIndex),
      src_previousNodeRun = (if runIndex = 0 then None else Some runIndex)\<rparr>"

text \<open>What a node returned: \<open>undefined\<close>, \<open>null\<close>, or its outputs.\<close>

type_synonym node_outputs = "INodeExecutionData list slot list"

section \<open>Empty inputs\<close>

text \<open>\<open>get(runData, [node, runIndex, 'data', 'main', index])\<close>; \<open>null.length\<close> is an error.\<close>

definition incoming_slot :: "IRunData \<Rightarrow> nat \<Rightarrow> IConnection \<Rightarrow> INodeExecutionData list slot" where
  "incoming_slot runData runIndex c =
     (case map_of runData (ic_node c) of
        None \<Rightarrow> Hole
      | Some runs \<Rightarrow> case js_nth runs runIndex of
          None \<Rightarrow> Hole
        | Some taskData \<Rightarrow> case task_data taskData of
            None \<Rightarrow> Hole
          | Some conns \<Rightarrow> case map_of conns Main of
              None \<Rightarrow> Hole
            | Some outputs \<Rightarrow> slot_at outputs (ic_index c))"

fun incomingConnectionIsEmpty :: "IRunData \<Rightarrow> IConnection list \<Rightarrow> nat \<Rightarrow> bool res" where
  "incomingConnectionIsEmpty runData [] runIndex = Inr True"
| "incomingConnectionIsEmpty runData (c # cs) runIndex =
     (case incoming_slot runData runIndex c of
        Hole \<Rightarrow> incomingConnectionIsEmpty runData cs runIndex
      | Null \<Rightarrow> Inl TypeError
      | Filled items \<Rightarrow>
          if length items \<noteq> 0 then Inr False else incomingConnectionIsEmpty runData cs runIndex)"

text \<open>The same for \<open>connectionsByDestinationNode[name].main[0] ?? []\<close>.\<close>

definition first_input_empty :: "Workflow \<Rightarrow> IRunData \<Rightarrow> string \<Rightarrow> nat \<Rightarrow> bool res" where
  "first_input_empty w runData name runIndex =
     res_bind (main_inputs w name) (\<lambda>inputs.
       incomingConnectionIsEmpty runData
         (case js_nth inputs 0 of Some (Some cs) \<Rightarrow> cs | _ \<Rightarrow> []) runIndex)"

section \<open>Waiting data\<close>

definition or_empty :: "'v list option \<Rightarrow> 'v list" where
  "or_empty found = (case found of None \<Rightarrow> [] | Some v \<Rightarrow> v)"

definition prepareWaitingToExecution ::
  "string \<Rightarrow> nat \<Rightarrow> nat \<Rightarrow> IRunExecutionData \<Rightarrow> IRunExecutionData" where
  "prepareWaitingToExecution nodeName numberOfConnections runIndex rx =
     rx\<lparr>rx_waiting := map_set nodeName
          (map_set runIndex [(Main, replicate numberOfConnections Null)]
            (or_empty (map_of (rx_waiting rx) nodeName))) (rx_waiting rx),
        rx_waitingSource := map_set nodeName
          (map_set runIndex [(Main, replicate numberOfConnections Null)]
            (or_empty (map_of (rx_waitingSource rx) nodeName))) (rx_waitingSource rx)\<rparr>"

definition waiting_main :: "IRunExecutionData \<Rightarrow> string \<Rightarrow> nat \<Rightarrow> INodeExecutionData list slot list res" where
  "waiting_main rx name index =
     res_bind (get_key (rx_waiting rx) name) (\<lambda>entries.
     res_bind (get_key entries index) (\<lambda>entry. get_key entry Main))"

text \<open>
  The first waiting entry, in ascending order, that has no data for the input: \<open>null\<close> and
  \<open>undefined\<close> are both falsy.
\<close>

fun find_waiting ::
  "(nat, ITaskDataConnections) js_map \<Rightarrow> nat \<Rightarrow> nat list \<Rightarrow> nat option res" where
  "find_waiting entries inputIndex [] = Inr None"
| "find_waiting entries inputIndex (i # is) =
     res_bind (get_key entries i) (\<lambda>entry.
     res_bind (get_key entry Main) (\<lambda>arr.
       if slot_value (slot_at arr inputIndex) = None then Inr (Some i)
       else find_waiting entries inputIndex is))"

text \<open>\<open>waitingExecution[name][index].main[inputIndex] = v\<close>, and the same for the sources.\<close>

definition set_nested ::
  "string \<Rightarrow> nat \<Rightarrow> nat \<Rightarrow> 'a slot \<Rightarrow>
   (string, (nat, (NodeConnectionType, 'a slot list) js_map) js_map) js_map \<Rightarrow>
   (string, (nat, (NodeConnectionType, 'a slot list) js_map) js_map) js_map res" where
  "set_nested name index inputIndex v m =
     res_bind (get_key m name) (\<lambda>entries.
     res_bind (get_key entries index) (\<lambda>entry.
     res_bind (get_key entry Main) (\<lambda>arr.
       Inr (map_set name (map_set index (map_set Main (slot_set inputIndex v arr) entry) entries) m))))"

text \<open>\<open>delete obj[name][index]\<close>, and \<open>delete obj[name]\<close> when nothing is left there.\<close>

definition drop_nested :: "string \<Rightarrow> nat \<Rightarrow> bool \<Rightarrow> (string, (nat, 'e) js_map) js_map \<Rightarrow> (string, (nat, 'e) js_map) js_map" where
  "drop_nested name index none_left m =
     (if none_left then map_delete name m
      else map_set name (map_delete index (or_empty (map_of m name))) m)"

definition remove_waiting :: "string \<Rightarrow> nat \<Rightarrow> IRunExecutionData \<Rightarrow> IRunExecutionData" where
  "remove_waiting name index rx =
     (let none_left = (map_delete index (or_empty (map_of (rx_waiting rx) name)) = [])
      in rx\<lparr>rx_waiting := drop_nested name index none_left (rx_waiting rx),
            rx_waitingSource := drop_nested name index none_left (rx_waitingSource rx)\<rparr>)"

section \<open>Forcing the other inputs of a node\<close>

text \<open>
  The loop over a node's parents from the farthest to the node itself: the last one before a node
  that has already run is the one to start; \<open>None\<close> when one of them will run anyway.
\<close>

fun force_walk ::
  "string \<Rightarrow> string list \<Rightarrow> string list \<Rightarrow> IRunData \<Rightarrow> string option \<Rightarrow> string list \<Rightarrow> string option" where
  "force_walk inputNode checkOutputNodes stackNodes runData nodeToAdd [] = nodeToAdd"
| "force_walk inputNode checkOutputNodes stackNodes runData nodeToAdd (parentNode # rest) =
     (if inputNode \<noteq> parentNode \<and> parentNode \<in> set checkOutputNodes then None
      else if parentNode \<in> set stackNodes then None
      else if map_has runData parentNode then nodeToAdd
      else force_walk inputNode checkOutputNodes stackNodes runData (Some parentNode) rest)"

definition empty_start_item :: "string \<Rightarrow> nat \<Rightarrow> nat \<Rightarrow> INode \<Rightarrow> IExecuteData" where
  "empty_start_item parentNodeName outputIndex runIndex node =
     \<lparr>ex_node = node, ex_data = [(Main, [Filled [empty_item]])], ex_metadata = None,
      ex_source = Some [(Main, [Filled (source_of parentNodeName outputIndex runIndex)])]\<rparr>"

text \<open>\<open>getParentNodes\<close> of \<open>undefined\<close> finds no connections.\<close>

definition parents_of_option :: "Workflow \<Rightarrow> string option \<Rightarrow> string list res" where
  "parents_of_option w nodeName =
     (case nodeName of None \<Rightarrow> Inr [] | Some n \<Rightarrow> getParentNodes w n (OfType Main) (-1))"

definition force_input ::
  "Workflow \<Rightarrow> string list \<Rightarrow> nat \<Rightarrow> string \<Rightarrow> node_outputs \<Rightarrow> nat \<Rightarrow> IRunExecutionData \<Rightarrow> IConnection \<Rightarrow>
   IRunExecutionData res" where
  "force_input w checkOutputNodes outputIndex parentNodeName nodeSuccessData runIndex rx inputData =
     (if ic_node inputData = parentNodeName then Inr rx
      else
        let executionStackNodes = map (\<lambda>e. node_name (ex_node e)) (rx_stack rx);
            inputNode = ic_node inputData;
            runData = rx_runData rx
        in
        res_bind (if inputNode \<in> set checkOutputNodes
                  then res_bind (first_input_empty w runData inputNode runIndex) (\<lambda>empty. Inr (\<not> empty))
                  else Inr False) (\<lambda>willBeAdded.
        if willBeAdded then Inr rx
        else if inputNode \<in> set executionStackNodes then Inr rx
        else if map_has runData inputNode then Inr rx
        else if \<not> forceInputNodeExecution w then Inr rx
        else
          res_bind (getParentNodes w inputNode (OfType Main) (-1)) (\<lambda>parentNodes.
          let nodeToAdd = force_walk inputNode checkOutputNodes executionStackNodes runData
                            (Some inputNode) (rev (parentNodes @ [inputNode])) in
          res_bind (parents_of_option w nodeToAdd) (\<lambda>parentNodesNodeToAdd.
          res_bind (if parentNodeName \<in> set parentNodesNodeToAdd
                    then (case slot_at nodeSuccessData outputIndex of
                            Filled items \<Rightarrow> Inr (if length items = 0 then None else nodeToAdd)
                          | _ \<Rightarrow> Inl TypeError)
                    else Inr nodeToAdd) (\<lambda>nodeToAdd.
          case nodeToAdd of
            None \<Rightarrow> Inr rx
          | Some name \<Rightarrow>
              res_bind (if map_of (wf_connectionsByDestinationNode w) name = None then Inr True
                        else first_input_empty w runData name runIndex) (\<lambda>addEmptyItem.
              if \<not> addEmptyItem then Inr rx
              else case getNode w name of
                None \<Rightarrow> Inl TypeError
              | Some node \<Rightarrow>
                  Inr (enqueue_item w (empty_start_item parentNodeName outputIndex runIndex node) rx)))))))"

section \<open>Handing data to the next node\<close>

text \<open>The node of the connection: the caller has checked that the workflow has it.\<close>

definition target_node :: "Workflow \<Rightarrow> string \<Rightarrow> INode res" where
  "target_node w name = get_key (wf_nodes w) name"

definition output_slot :: "node_outputs option \<Rightarrow> nat \<Rightarrow> INodeExecutionData list slot" where
  "output_slot nodeSuccessData outputIndex =
     (case nodeSuccessData of None \<Rightarrow> Null | Some outs \<Rightarrow> slot_at outs outputIndex)"

definition output_source ::
  "node_outputs option \<Rightarrow> string \<Rightarrow> nat \<Rightarrow> nat \<Rightarrow> ISourceData slot" where
  "output_source nodeSuccessData parentNodeName outputIndex runIndex =
     (case nodeSuccessData of None \<Rightarrow> Null | Some _ \<Rightarrow> Filled (source_of parentNodeName outputIndex runIndex))"

text \<open>
  A node with several inputs: choose the waiting entry that still misses this input, or open a new
  one numbered by how many entries there are, and put the data there. The result is the entry's
  number, whether the node was waiting before, and the state.
\<close>

definition add_to_waiting ::
  "Workflow \<Rightarrow> IConnection \<Rightarrow> nat \<Rightarrow> string \<Rightarrow> node_outputs option \<Rightarrow> nat \<Rightarrow> nat \<Rightarrow> IRunExecutionData \<Rightarrow>
   (nat \<times> bool \<times> IRunExecutionData) res" where
  "add_to_waiting w connectionData outputIndex parentNodeName nodeSuccessData runIndex numberOfInputs rx =
     (let name = ic_node connectionData; input = ic_index connectionData;
          nodeWasWaiting = map_has (rx_waiting rx) name;
          rx1 = (if nodeWasWaiting then rx
                 else rx\<lparr>rx_waiting := map_set name [] (rx_waiting rx),
                         rx_waitingSource := map_set name [] (rx_waitingSource rx)\<rparr>);
          entries = or_empty (map_of (rx_waiting rx1) name)
      in res_bind (find_waiting entries input (int_keys entries)) (\<lambda>found.
           let waitingNodeIndex = (case found of Some i \<Rightarrow> i | None \<Rightarrow> length entries);
               rx2 = (if found = None
                      then prepareWaitingToExecution name numberOfInputs waitingNodeIndex rx1 else rx1)
           in res_bind (set_nested name waitingNodeIndex input (output_slot nodeSuccessData outputIndex)
                          (rx_waiting rx2)) (\<lambda>waiting.
              res_bind (set_nested name waitingNodeIndex input
                          (output_source nodeSuccessData parentNodeName outputIndex runIndex)
                          (rx_waitingSource rx2)) (\<lambda>waitingSource.
                Inr (waitingNodeIndex, nodeWasWaiting,
                     rx2\<lparr>rx_waiting := waiting, rx_waitingSource := waitingSource\<rparr>)))))"

text \<open>All data is there: the waiting entry becomes an item of the execution stack.\<close>

definition release_waiting ::
  "Workflow \<Rightarrow> string \<Rightarrow> nat \<Rightarrow> IRunExecutionData \<Rightarrow> IRunExecutionData res" where
  "release_waiting w name index rx =
     res_bind (target_node w name) (\<lambda>node.
     res_bind (get_key (rx_waiting rx) name) (\<lambda>entries.
     res_bind (get_key entries index) (\<lambda>entry.
     res_bind (get_key (rx_waitingSource rx) name) (\<lambda>sources.
       Inr (remove_waiting name index
             (enqueue_item w \<lparr>ex_node = node, ex_data = entry, ex_metadata = None,
                              ex_source = map_of sources index\<rparr> rx))))))"

text \<open>
  Data is still missing: the entry is prepared again, gets its data back, and the source of the
  present input (the sources of the other inputs are lost with the preparation).
\<close>

definition keep_waiting ::
  "string \<Rightarrow> nat \<Rightarrow> nat \<Rightarrow> nat \<Rightarrow> INodeExecutionData list slot \<Rightarrow> ISourceData \<Rightarrow> IRunExecutionData \<Rightarrow>
   IRunExecutionData res" where
  "keep_waiting name index input numberOfInputs data source rx =
     res_bind (waiting_main rx name index) (\<lambda>arr.
       let rx1 = prepareWaitingToExecution name numberOfInputs index rx;
           entries = or_empty (map_of (rx_waiting rx1) name)
       in res_bind (set_nested name index input (Filled source) (rx_waitingSource rx1)) (\<lambda>waitingSource.
            Inr (rx1\<lparr>rx_waiting := map_set name (map_set index [(Main, slot_set input data arr)] entries)
                                   (rx_waiting rx1),
                     rx_waitingSource := waitingSource\<rparr>)))"

definition addNodeToBeExecuted ::
  "Workflow \<Rightarrow> IConnection \<Rightarrow> nat \<Rightarrow> string \<Rightarrow> node_outputs option \<Rightarrow> nat \<Rightarrow> IRunExecutionData \<Rightarrow>
   IRunExecutionData res" where
  "addNodeToBeExecuted w connectionData outputIndex parentNodeName nodeSuccessData runIndex rx =
     (let name = ic_node connectionData; input = ic_index connectionData;
          data = output_slot nodeSuccessData outputIndex;
          source = source_of parentNodeName outputIndex runIndex
      in res_bind (main_inputs w name) (\<lambda>inputs.
         if length inputs > 1 then
           res_bind (add_to_waiting w connectionData outputIndex parentNodeName nodeSuccessData runIndex
                       (length inputs) rx) (\<lambda>(index, nodeWasWaiting, rx1).
           res_bind (waiting_main rx1 name index) (\<lambda>arr.
             if Null \<notin> set arr then release_waiting w name index rx1
             else res_bind
               (if nodeWasWaiting then Inr rx1
                else res_bind (main_outputs w parentNodeName) (\<lambda>outputs.
                  let checkOutputNodes = map ic_node (concat (map flat_entry outputs))
                  in fold_res (force_input w checkOutputNodes outputIndex parentNodeName
                                 (case nodeSuccessData of None \<Rightarrow> [] | Some outs \<Rightarrow> outs) runIndex)
                       rx1 (concat (map flat_entry inputs))))
               (\<lambda>rx2. keep_waiting name index input (length inputs) data source rx2)))
         else
           res_bind (target_node w name) (\<lambda>node.
             Inr (enqueue_item w
               \<lparr>ex_node = node,
                ex_data = [(Main, slot_set input data (replicate (Suc input) Null))],
                ex_metadata = None, ex_source = Some [(Main, [Filled source])]\<rparr> rx))))"

end
