(* ===== verification/EngineNode.thy ===== *)
theory EngineNode
  imports Engine
begin

text \<open>
  Running one node (\<open>workflow-execute.ts\<close>): the input it is given, the tries it gets, the pairing
  of its output items with input items, and the outcome the engine acts on.

  The code of the nodes, the evaluation of expressions, the clock and the cancellation of an
  execution are outside the repository's engine: they are the fields of \<open>engine_env\<close>. A call of a
  node is numbered, so that a node may return something else each time it is called.
\<close>

section \<open>The environment\<close>

datatype node_data = DataUndefined | DataNull | Data node_outputs

record node_outcome =
  oc_result :: "ExecutionError + node_data"
  oc_hints :: "json list"
  oc_waitTill :: "int option"

record engine_env =
  ev_execute :: "nat \<Rightarrow> INode \<Rightarrow> ITaskDataConnections \<Rightarrow> INodeExecutionData list \<Rightarrow> nat \<Rightarrow> node_outcome"
  ev_canceled :: "nat \<Rightarrow> bool"
  ev_startTime :: "nat \<Rightarrow> int"
  ev_executionTime :: "nat \<Rightarrow> int"
  ev_issues :: "INode \<Rightarrow> INodeType \<Rightarrow> bool"
  ev_requiredInputs :: "INode \<Rightarrow> string \<Rightarrow> required_inputs option"
  ev_mainOutputs :: "INode \<Rightarrow> INodeType \<Rightarrow> nat"
  ev_pairedItem :: "IRunExecutionData \<Rightarrow> ISourceData slot \<Rightarrow> json \<Rightarrow> INodeExecutionData option res"
  ev_sort :: "((int \<times> int) \<times> nat \<times> IConnection \<Rightarrow> (int \<times> int) \<times> nat \<times> IConnection \<Rightarrow> int) \<Rightarrow>
    ((int \<times> int) \<times> nat \<times> IConnection) list \<Rightarrow> ((int \<times> int) \<times> nat \<times> IConnection) list"

text \<open>Errors of the language that the code of a try runs into are caught as errors of the node.\<close>

fun caught :: "js_error \<Rightarrow> ExecutionError" where
  "caught AssertionError = \<lparr>err_name = ''AssertionError'', err_message = []\<rparr>"
| "caught TypeError = \<lparr>err_name = ''TypeError'', err_message = []\<rparr>"
| "caught (ApplicationError m) = \<lparr>err_name = ''ApplicationError'', err_message = m\<rparr>"
| "caught OutOfFuel = \<lparr>err_name = ''OutOfFuel'', err_message = []\<rparr>"

section \<open>Input of a node\<close>

definition paired :: "nat \<Rightarrow> nat \<Rightarrow> json" where
  "paired itemIndex inputIndex =
     JObj [(''item'', JNum (of_nat itemIndex)),
           (''input'', if inputIndex = 0 then JUndefined else JNum (of_nat inputIndex))]"

definition pair_input :: "nat \<Rightarrow> INodeExecutionData list slot \<Rightarrow> INodeExecutionData list slot" where
  "pair_input inputIndex input =
     (case input of
        Filled items \<Rightarrow>
          Filled (map (\<lambda>(itemIndex, item). item\<lparr>item_pairedItem := Some (paired itemIndex inputIndex)\<rparr>)
                    (enumerate 0 items))
      | other \<Rightarrow> other)"

definition pair_inputs :: "ITaskDataConnections \<Rightarrow> ITaskDataConnections" where
  "pair_inputs data =
     map (\<lambda>(type, inputs). (type, map (\<lambda>(i, input). pair_input i input) (enumerate 0 inputs))) data"

text \<open>
  \<open>input && input.slice(0, 1)\<close> on every input.
\<close>

definition first_items :: "ITaskDataConnections \<Rightarrow> ITaskDataConnections" where
  "first_items data =
     map (\<lambda>(type, inputs). (type, map (\<lambda>input. case input of
        Filled items \<Rightarrow> Filled (take 1 items) | other \<Rightarrow> other) inputs)) data"

fun first_with_items :: "INodeExecutionData list slot list \<Rightarrow> INodeExecutionData list option" where
  "first_with_items [] = None"
| "first_with_items (Filled items # rest) = (if items \<noteq> [] then Some items else first_with_items rest)"
| "first_with_items (_ # rest) = first_with_items rest"

text \<open>The items a node is called with: those of the first input, in version 1 of the first that has any.\<close>

definition connection_input :: "Workflow \<Rightarrow> ITaskDataConnections \<Rightarrow> INodeExecutionData list slot res" where
  "connection_input w inputData =
     (let first = (case map_of inputData Main of Some (input # _) \<Rightarrow> input | _ \<Rightarrow> Filled []) in
      if forceInputNodeExecution w then Inr first
      else case map_of inputData Main of
        None \<Rightarrow> Inl TypeError
      | Some inputs \<Rightarrow>
          (case first_with_items inputs of Some items \<Rightarrow> Inr (Filled items) | None \<Rightarrow> Inr first))"

section \<open>Running the node\<close>

definition outcome :: "node_data \<Rightarrow> node_outcome" where
  "outcome d = \<lparr>oc_result = Inr d, oc_hints = [], oc_waitTill = None\<rparr>"

definition thrown :: "ExecutionError \<Rightarrow> node_outcome" where
  "thrown e = \<lparr>oc_result = Inl e, oc_hints = [], oc_waitTill = None\<rparr>"

definition pass_through :: "ITaskDataConnections \<Rightarrow> node_data" where
  "pass_through inputData = (case map_of inputData Main of None \<Rightarrow> DataUndefined | Some inputs \<Rightarrow> Data inputs)"

text \<open>
  The dispatch on the kind of node. In manual mode the poll and the trigger function are node code
  like \<open>execute\<close>; else polls, triggers and webhooks pass their input through.
\<close>

definition call_node ::
  "engine_env \<Rightarrow> nat \<Rightarrow> ExecutionMode \<Rightarrow> INodeType \<Rightarrow> INode \<Rightarrow> ITaskDataConnections \<Rightarrow>
   INodeExecutionData list \<Rightarrow> nat \<Rightarrow> node_outcome" where
  "call_node env call mode nodeType node inputData connectionInputData runIndex =
     (let run = ev_execute env call node inputData connectionInputData runIndex in
      if nt_execute nodeType then run
      else if nt_poll nodeType then
        (if mode = Mode_manual then run else outcome (pass_through inputData))
      else if nt_trigger nodeType then
        (if mode = Mode_manual then run else outcome (pass_through inputData))
      else if nt_webhook nodeType then outcome (pass_through inputData)
      else run)"

text \<open>An error the node failed with before is thrown again; only two kinds keep their class.\<close>

definition rethrown :: "ExecutionError \<Rightarrow> ExecutionError" where
  "rethrown e = (if err_name e \<in> {''NodeOperationError'', ''NodeApiError''} then e
     else \<lparr>err_name = ''Error'', err_message = err_message e\<rparr>)"

definition runNode ::
  "engine_env \<Rightarrow> Workflow \<Rightarrow> ExecutionMode \<Rightarrow> nat \<Rightarrow> IExecuteData \<Rightarrow> IRunExecutionData \<Rightarrow> nat \<Rightarrow> node_outcome" where
  "runNode env w mode call executionData rx runIndex =
     (let node = ex_node executionData; inputData = ex_data executionData in
      if node_disabled node = Some True then
        (case map_of inputData Main of
           Some (input # _) \<Rightarrow>
             outcome (if input = Null then DataUndefined else Data [input])
         | _ \<Rightarrow> outcome DataUndefined)
      else case wf_nodeTypes w (node_type node) (node_typeVersion node) of
        None \<Rightarrow> thrown (caught TypeError)
      | Some nodeType \<Rightarrow>
          let needsInput = (nt_execute nodeType \<or>
                (\<not> nt_poll nodeType \<and> \<not> nt_trigger nodeType \<and> \<not> nt_webhook nodeType));
              input = (if needsInput then connection_input w inputData else Inr (Filled []))
          in case input of
            Inl e \<Rightarrow> thrown (caught e)
          | Inr Null \<Rightarrow> thrown (caught TypeError)
          | Inr Hole \<Rightarrow> thrown (caught TypeError)
          | Inr (Filled connectionInputData) \<Rightarrow>
              if needsInput \<and> connectionInputData = [] then outcome DataUndefined
              else if rx_lastNodeExecuted rx = Some (node_name node) \<and> rx_error rx \<noteq> None
              then thrown (rethrown (the (rx_error rx)))
              else call_node env call mode nodeType node
                     (if node_executeOnce node = Some True then first_items inputData else inputData)
                     connectionInputData runIndex)"

section \<open>Pairing the output\<close>

definition slot_length_is :: "nat \<Rightarrow> 'a list slot \<Rightarrow> bool" where
  "slot_length_is n s = (case s of Filled items \<Rightarrow> length items = n | _ \<Rightarrow> False)"

definition fill_pairs :: "(nat \<Rightarrow> nat) \<Rightarrow> INodeExecutionData list slot \<Rightarrow> INodeExecutionData list slot" where
  "fill_pairs index out =
     (case out of
        Filled items \<Rightarrow>
          Filled (map (\<lambda>(i, item). if item_pairedItem item = None
            then item\<lparr>item_pairedItem := Some (JObj [(''item'', JNum (of_nat (index i)))])\<rparr> else item)
            (enumerate 0 items))
      | other \<Rightarrow> other)"

text \<open>
  The items without a pairing get one when there is a single input item, or as many output as
  input items; else the loop stops at the first item that has none.
\<close>

fun assign_pairs :: "bool \<Rightarrow> bool \<Rightarrow> node_outputs \<Rightarrow> node_outputs res" where
  "assign_pairs single same [] = Inr []"
| "assign_pairs single same (Hole # outs) = Inl TypeError"
| "assign_pairs single same (Null # outs) =
     res_bind (assign_pairs single same outs) (\<lambda>outs'. Inr (Null # outs'))"
| "assign_pairs single same (Filled items # outs) =
     (if \<not> single \<and> \<not> same \<and> list_ex (\<lambda>item. item_pairedItem item = None) items
      then Inr (Filled items # outs)
      else res_bind (assign_pairs single same outs) (\<lambda>outs'.
        Inr (fill_pairs (\<lambda>i. if single then 0 else i) (Filled items) # outs')))"

definition assignPairedItems :: "node_outputs \<Rightarrow> IExecuteData \<Rightarrow> node_outputs res" where
  "assignPairedItems outs executionData =
     (if outs = [] then Inr outs
      else res_bind (get_key (ex_data executionData) Main) (\<lambda>inputs.
        res_bind
          (if length outs = 1 \<and> length inputs = 1 then
             (case slot_at outs 0 of
                Filled items \<Rightarrow> Inr (slot_length_is (length items) (slot_at inputs 0))
              | _ \<Rightarrow> Inl TypeError)
           else Inr False)
          (\<lambda>same. assign_pairs (length inputs = 1 \<and> slot_length_is 1 (slot_at inputs 0)) same outs)))"

section \<open>Items with errors\<close>

text \<open>
  The error of an item: its \<open>error\<close> field, or an \<open>error\<close> in a JSON object that has nothing else,
  or nothing but \<open>error\<close> and \<open>message\<close>. The field is taken off the item.
\<close>

definition json_size :: "json \<Rightarrow> nat" where
  "json_size j = (case j of JObj fs \<Rightarrow> length fs | _ \<Rightarrow> 0)"

definition split_error :: "INodeExecutionData \<Rightarrow> INodeExecutionData \<times> bool" where
  "split_error item =
     (let err = json_get (item_json item) ''error'' in
      if item_error item \<noteq> None then (item\<lparr>item_error := None\<rparr>, True)
      else (item, truthy err \<and> (json_size (item_json item) = 1 \<or>
        truthy (json_get (item_json item) ''message'') \<and> json_size (item_json item) = 2)))"

text \<open>\<open>{ ...a, ...b }\<close> on JSON objects.\<close>

definition json_spread :: "json \<Rightarrow> json \<Rightarrow> json" where
  "json_spread a b = (case (a, b) of
     (JObj fs, JObj gs) \<Rightarrow> JObj (foldl (\<lambda>m (k, v). map_set k v m) fs gs)
   | (JObj fs, _) \<Rightarrow> JObj fs
   | (_, b) \<Rightarrow> b)"

definition paired_data :: "INodeExecutionData \<Rightarrow> json option" where
  "paired_data item = (case item_pairedItem item of
     Some (JArr (p # _)) \<Rightarrow> Some p
   | Some (JArr []) \<Rightarrow> None
   | Some (JObj fs) \<Rightarrow> Some (JObj fs)
   | _ \<Rightarrow> None)"

definition paired_input_index :: "json \<Rightarrow> nat" where
  "paired_input_index p = (case json_get p ''input'' of JNum n \<Rightarrow> nat \<lfloor>n\<rfloor> | _ \<Rightarrow> 0)"

text \<open>The error item with the JSON of the item it comes from merged in, when that can be found.\<close>

definition error_item ::
  "engine_env \<Rightarrow> IRunExecutionData \<Rightarrow> IExecuteData \<Rightarrow> INodeExecutionData \<Rightarrow> INodeExecutionData res" where
  "error_item env rx executionData item =
     (case (ex_source executionData, paired_data item) of
        (Some sources, Some p) \<Rightarrow>
          if p = JUndefined then Inr item
          else
          res_bind (get_key sources Main) (\<lambda>arr.
            case slot_at arr (paired_input_index p) of
              Filled source \<Rightarrow>
                res_bind (ev_pairedItem env rx (Filled source) p) (\<lambda>found.
                  case found of
                    None \<Rightarrow> Inr item
                  | Some origin \<Rightarrow>
                      Inr (item\<lparr>item_json := json_spread (item_json origin) (item_json item)\<rparr>))
            | _ \<Rightarrow> Inl TypeError)
      | _ \<Rightarrow> Inr item)"

definition split_output ::
  "engine_env \<Rightarrow> IRunExecutionData \<Rightarrow> IExecuteData \<Rightarrow> INodeExecutionData list \<Rightarrow>
   (INodeExecutionData list \<times> INodeExecutionData list) res" where
  "split_output env rx executionData items =
     fold_res (\<lambda>(success, errors) item.
       case split_error item of
         (item', True) \<Rightarrow>
           res_bind (error_item env rx executionData item') (\<lambda>e. Inr (success, errors @ [e]))
       | (item', False) \<Rightarrow> Inr (success @ [item'], errors)) ([], []) items"

text \<open>
  The outputs before the last are split; the last one gets the items with errors. Without any main
  output they are stored at the index \<open>-1\<close>, which is not an entry of the array.
\<close>

definition handleNodeErrorOutput ::
  "engine_env \<Rightarrow> Workflow \<Rightarrow> IRunExecutionData \<Rightarrow> IExecuteData \<Rightarrow> node_outputs \<Rightarrow> node_outputs res" where
  "handleNodeErrorOutput env w rx executionData outs =
     (let node = ex_node executionData in
      case wf_nodeTypes w (node_type node) (node_typeVersion node) of
        None \<Rightarrow> Inl TypeError
      | Some nodeType \<Rightarrow>
          let n = ev_mainOutputs env node nodeType in
          res_bind
            (fold_res (\<lambda>(outs, errors) outputIndex.
               let items = (case slot_at outs outputIndex of Filled items \<Rightarrow> items | _ \<Rightarrow> []) in
               res_bind (split_output env rx executionData items) (\<lambda>(success, errs).
                 Inr (slot_set outputIndex (Filled success) outs, errors @ errs)))
             (outs, []) [0..<n - 1])
            (\<lambda>(outs, errors). Inr (if n = 0 then outs else slot_set (n - 1) (Filled errors) outs)))"

end
