(* ===== verification/EngineLoop.thy ===== *)
theory EngineLoop
  imports EngineNode
begin

text \<open>
  The execution loop (\<open>processRunExecutionData\<close> of \<open>workflow-execute.ts\<close>): the tries of a node, what
  becomes of its outcome, the nodes that follow, the release of waiting nodes when the stack is
  empty, and the result of the whole execution. Hooks are calls to the outside that are assumed to
  return; a workflow may run forever, so the loop takes fuel and returns \<open>None\<close> when it is used up.
\<close>

section \<open>The tries of a node\<close>

text \<open>
  What the loop over the tries keeps: the run data, the number of calls so far, the output
  (\<open>None\<close> is \<open>null\<close>), the error and the hints.
\<close>

record attempt =
  at_rx :: IRunExecutionData
  at_calls :: nat
  at_data :: "node_outputs option"
  at_error :: "ExecutionError option"
  at_hints :: "json list"

datatype attempt_end = Retry | Finished | NextNode

definition maxTries :: "INode \<Rightarrow> nat" where
  "maxTries node =
     (if node_retryOnFail node = Some True
      then nat (min 5 (max 2 (case node_maxTries node of None \<Rightarrow> 3 | Some n \<Rightarrow> if n = 0 then 3 else n)))
      else 1)"

definition waitBetweenTries :: "INode \<Rightarrow> int" where
  "waitBetweenTries node =
     (if node_retryOnFail node = Some True
      then min 5000 (max 0 (case node_waitBetweenTries node of None \<Rightarrow> 1000 | Some n \<Rightarrow> if n = 0 then 1000 else n))
      else 0)"

text \<open>A call is counted, and the node may have asked for the execution to wait.\<close>

definition note_call :: "node_outcome \<Rightarrow> attempt \<Rightarrow> attempt" where
  "note_call oc a =
     a\<lparr>at_calls := Suc (at_calls a),
       at_rx := (case oc_waitTill oc of None \<Rightarrow> at_rx a | Some t \<Rightarrow> (at_rx a)\<lparr>rx_waitTill := Some t\<rparr>)\<rparr>"

definition fail_attempt :: "string \<Rightarrow> ExecutionError \<Rightarrow> attempt \<Rightarrow> attempt" where
  "fail_attempt name e a =
     a\<lparr>at_error := Some e, at_rx := (at_rx a)\<lparr>rx_lastNodeExecuted := Some name\<rparr>\<rparr>"

text \<open>\<open>nodeSuccessData?.[0]?.[0]\<close>.\<close>

definition first_item :: "node_outputs option \<Rightarrow> INodeExecutionData option" where
  "first_item d = (case d of
     Some outs \<Rightarrow> (case slot_at outs 0 of Filled (item # _) \<Rightarrow> Some item | _ \<Rightarrow> None)
   | None \<Rightarrow> None)"

definition continued_on_fail :: "node_outputs option \<Rightarrow> bool" where
  "continued_on_fail d = (case first_item d of
     None \<Rightarrow> False | Some item \<Rightarrow> json_get (item_json item) ''error'' \<noteq> JUndefined)"

text \<open>
  A node that went on after a failure of its own is run again while tries are left. The output of
  these runs is not looked at: only their hints and their errors matter. The result has the tries
  left and the error thrown.
\<close>

fun retry_calls ::
  "engine_env \<Rightarrow> Workflow \<Rightarrow> ExecutionMode \<Rightarrow> IExecuteData \<Rightarrow> nat \<Rightarrow> nat \<Rightarrow> json list \<Rightarrow> attempt \<Rightarrow>
   attempt \<times> nat \<times> json list \<times> ExecutionError option" where
  "retry_calls env w mode ex runIndex 0 hints a = (a, 0, hints, None)"
| "retry_calls env w mode ex runIndex (Suc n) hints a =
     (let oc = runNode env w mode (at_calls a) ex (at_rx a) runIndex; a' = note_call oc a in
      case oc_result oc of
        Inl e \<Rightarrow> (a', Suc n, hints, Some e)
      | Inr _ \<Rightarrow> retry_calls env w mode ex runIndex n (oc_hints oc) a')"

definition all_pairs :: "INodeExecutionData list slot list \<Rightarrow> json list" where
  "all_pairs inputs = concat (map (\<lambda>(inputIndex, input). case input of
     Filled items \<Rightarrow> map (\<lambda>itemIndex.
         JObj [(''item'', JNum (of_nat itemIndex)), (''input'', JNum (of_nat inputIndex))]) [0..<length items]
   | _ \<Rightarrow> []) (enumerate 0 inputs))"

text \<open>After the node has returned: pair the items, see to \<open>alwaysOutputData\<close>, end the branch on \<open>null\<close>.\<close>

definition always_output :: "IExecuteData \<Rightarrow> node_outputs option \<Rightarrow> node_outputs option res" where
  "always_output ex d =
     (if first_item d = None \<and> node_alwaysOutputData (ex_node ex) = Some True then
        res_bind (get_key (ex_data ex) Main) (\<lambda>inputs.
          Inr (Some (slot_set 0
            (Filled [\<lparr>item_json = JObj [], item_binary = None, item_error = None,
                      item_pairedItem = Some (JArr (all_pairs inputs))\<rparr>])
            (case d of None \<Rightarrow> [] | Some outs \<Rightarrow> outs))))
      else Inr d)"

definition finish_attempt :: "IExecuteData \<Rightarrow> node_data \<Rightarrow> attempt \<Rightarrow> attempt \<times> attempt_end" where
  "finish_attempt ex d a =
     (let name = node_name (ex_node ex);
          paired = (case d of Data outs \<Rightarrow> res_bind (assignPairedItems outs ex) (\<lambda>o1. Inr (Some o1))
                    | _ \<Rightarrow> Inr None)
      in case paired of
        Inl e \<Rightarrow> (fail_attempt name (caught e) a, Retry)
      | Inr d1 \<Rightarrow>
          let a1 = a\<lparr>at_data := d1,
                at_rx := (if d = DataUndefined then at_rx a
                          else (at_rx a)\<lparr>rx_lastNodeExecuted := Some name\<rparr>)\<rparr>
          in case always_output ex d1 of
            Inl e \<Rightarrow> (fail_attempt name (caught e) a1, Retry)
          | Inr d2 \<Rightarrow>
              (a1\<lparr>at_data := d2\<rparr>,
               if d2 = None \<and> rx_waitTill (at_rx a1) = None then NextNode else Finished))"

definition outputs_of :: "node_data \<Rightarrow> node_outputs option" where
  "outputs_of d = (case d of Data outs \<Rightarrow> Some outs | _ \<Rightarrow> None)"

text \<open>One pass through the body of the loop over the tries; \<open>n\<close> tries are left after it.\<close>

definition one_attempt ::
  "engine_env \<Rightarrow> Workflow \<Rightarrow> ExecutionMode \<Rightarrow> IExecuteData \<Rightarrow> nat \<Rightarrow> nat \<Rightarrow> attempt \<Rightarrow>
   attempt \<times> nat \<times> attempt_end" where
  "one_attempt env w mode ex runIndex n a =
     (let node = ex_node ex; name = node_name node;
          pinned = (case rx_pinData (at_rx a) of
            None \<Rightarrow> None | Some pd \<Rightarrow> if is_disabled node then None else map_of pd name)
      in case pinned of
        Some items \<Rightarrow>
          (case finish_attempt ex (Data [Filled items]) (a\<lparr>at_data := Some [Filled items]\<rparr>) of
             (a', e) \<Rightarrow> (a', n, e))
      | None \<Rightarrow>
          let oc = runNode env w mode (at_calls a) ex (at_rx a) runIndex;
              a1 = note_call oc a
          in case oc_result oc of
            Inl e \<Rightarrow> (fail_attempt name e a1, n, Retry)
          | Inr d \<Rightarrow>
              let a2 = a1\<lparr>at_data := outputs_of d\<rparr> in
              case (if continued_on_fail (outputs_of d)
                    then retry_calls env w mode ex runIndex n (oc_hints oc) a2
                    else (a2, n, oc_hints oc, None)) of
                (a3, m, hints, Some e) \<Rightarrow> (fail_attempt name e a3, m, Retry)
              | (a3, m, hints, None) \<Rightarrow>
                  let a4 = a3\<lparr>at_hints := at_hints a3 @ hints\<rparr> in
                  (case (if node_onError node = Some ContinueErrorOutput then
                           (case d of
                              Data outs \<Rightarrow> res_bind (handleNodeErrorOutput env w (at_rx a4) ex outs)
                                             (\<lambda>outs'. Inr (Data outs'))
                            | _ \<Rightarrow> Inr d)
                         else Inr d) of
                     Inl e \<Rightarrow> (fail_attempt name (caught e) a4, m, Retry)
                   | Inr d' \<Rightarrow>
                       (case finish_attempt ex d' (a4\<lparr>at_data := outputs_of d'\<rparr>) of
                          (a', e) \<Rightarrow> (a', m, e))))"

lemma retry_calls_left: "retry_calls env w mode ex runIndex n hints a = (a', m, h, e) \<Longrightarrow> m \<le> n"
  by (induction n arbitrary: hints a) (auto simp: Let_def le_SucI split: sum.splits)

lemma one_attempt_left: "one_attempt env w mode ex runIndex n a = (a', m, e) \<Longrightarrow> m \<le> n"
  unfolding one_attempt_def Let_def
  by (auto split: option.splits sum.splits prod.splits if_splits dest: retry_calls_left)

text \<open>The loop over the tries, \<open>n\<close> of them left. The result says whether to go on to the next node.\<close>

function try_loop ::
  "engine_env \<Rightarrow> Workflow \<Rightarrow> ExecutionMode \<Rightarrow> IExecuteData \<Rightarrow> nat \<Rightarrow> nat \<Rightarrow> attempt \<Rightarrow> attempt \<times> bool" where
  "try_loop env w mode ex runIndex 0 a = (a, False)"
| "try_loop env w mode ex runIndex (Suc n) a =
     (case one_attempt env w mode ex runIndex n (a\<lparr>at_error := None\<rparr>) of
        (a', m, Retry) \<Rightarrow> try_loop env w mode ex runIndex m a'
      | (a', m, Finished) \<Rightarrow> (a', False)
      | (a', m, NextNode) \<Rightarrow> (a', True))"
  by pat_completeness auto

termination try_loop
  by (relation "measure (\<lambda>(env, w, mode, ex, runIndex, n, a). n)")
    (auto simp: less_Suc_eq_le dest: one_attempt_left [OF sym])

section \<open>Output that reports errors\<close>

definition json_error :: "json \<Rightarrow> ExecutionError" where
  "json_error j =
     \<lparr>err_name = (case json_get j ''name'' of JStr s \<Rightarrow> s | _ \<Rightarrow> []),
      err_message = (case json_get j ''message'' of JStr s \<Rightarrow> s | _ \<Rightarrow> [])\<rparr>"

definition merge_error :: "INodeExecutionData \<Rightarrow> INodeExecutionData" where
  "merge_error item =
     (let err = json_get (item_json item) ''$error'' in
      if err \<noteq> JUndefined \<and> json_get (item_json item) ''$json'' \<noteq> JUndefined then
        item\<lparr>item_error := Some (json_error err),
             item_json := JObj [(''error'', json_get err ''message'')]\<rparr>
      else case item_error item of
        Some e \<Rightarrow> item\<lparr>item_json := JObj [(''error'', JStr (err_message e))]\<rparr>
      | None \<Rightarrow> item)"

text \<open>Iterating over an output that is \<open>null\<close> or \<open>undefined\<close> throws.\<close>

fun merge_errors :: "node_outputs \<Rightarrow> node_outputs res" where
  "merge_errors [] = Inr []"
| "merge_errors (Filled items # rest) =
     res_bind (merge_errors rest) (\<lambda>outs. Inr (Filled (map merge_error items) # outs))"
| "merge_errors (_ # rest) = Inl TypeError"

section \<open>The nodes that follow\<close>

definition child_connections :: "Workflow \<Rightarrow> string \<Rightarrow> (nat \<times> IConnection) list" where
  "child_connections w name =
     (case connections_at (wf_connectionsBySourceNode w) name Main of
        None \<Rightarrow> []
      | Some arr \<Rightarrow> concat (map (\<lambda>(outputIndex, cs). map (Pair outputIndex) (flat_entry cs)) (enumerate 0 arr)))"

definition has_output :: "Workflow \<Rightarrow> node_outputs \<Rightarrow> nat \<Rightarrow> IConnection \<Rightarrow> bool" where
  "has_output w outs outputIndex connectionData =
     (case slot_at outs outputIndex of
        Filled items \<Rightarrow> items \<noteq> [] \<or> (ic_index connectionData > 0 \<and> forceInputNodeExecution w)
      | _ \<Rightarrow> False)"

definition child_node :: "Workflow \<Rightarrow> IConnection \<Rightarrow> INode res" where
  "child_node w c = (case map_of (wf_nodes w) (ic_node c) of
     None \<Rightarrow> Inl (ApplicationError ''Destination node not found'') | Some node \<Rightarrow> Inr node)"

text \<open>
  In version 1 the children are sorted so that the one at the top left comes last, and is put on
  the stack on top of the others. The comparator never says that a node is to the right of another.
\<close>

definition top_left_last :: "(int \<times> int) \<times> nat \<times> IConnection \<Rightarrow> (int \<times> int) \<times> nat \<times> IConnection \<Rightarrow> int" where
  "top_left_last a b =
     (if snd (fst a) < snd (fst b) then 1
      else if snd (fst a) > snd (fst b) then -1
      else if fst (fst a) > fst (fst b) then -1
      else 0)"

definition add_children ::
  "engine_env \<Rightarrow> Workflow \<Rightarrow> string \<Rightarrow> node_outputs \<Rightarrow> nat \<Rightarrow> IRunExecutionData \<Rightarrow> IRunExecutionData res" where
  "add_children env w name outs runIndex rx =
     (let add = (\<lambda>rx (outputIndex, c). addNodeToBeExecuted w c outputIndex name (Some outs) runIndex rx) in
      if forceInputNodeExecution w then
        fold_res (\<lambda>rx (outputIndex, c).
            res_bind (child_node w c) (\<lambda>node.
              if has_output w outs outputIndex c then add rx (outputIndex, c) else Inr rx))
          rx (child_connections w name)
      else
        res_bind
          (fold_res (\<lambda>nodesToAdd (outputIndex, c).
              res_bind (child_node w c) (\<lambda>node.
                Inr (if has_output w outs outputIndex c
                     then nodesToAdd @ [(node_position node, outputIndex, c)] else nodesToAdd)))
            [] (child_connections w name))
          (\<lambda>nodesToAdd. fold_res (\<lambda>rx (position, outputIndex, c). add rx (outputIndex, c)) rx
             (ev_sort env top_left_last nodesToAdd)))"

section \<open>Waiting nodes\<close>

text \<open>\<open>parseInt(Object.keys(entries).sort()[0])\<close>: the keys are sorted as strings.\<close>

definition first_run_index :: "(nat \<times> 'v) list \<Rightarrow> nat res" where
  "first_run_index entries =
     (case int_keys entries of
        [] \<Rightarrow> Inl TypeError
      | i # is \<Rightarrow> Inr (foldl (\<lambda>a b. if str_less (nat_str b) (nat_str a) then b else a) i is))"

definition inputs_with_data :: "INodeExecutionData list slot list \<Rightarrow> nat list" where
  "inputs_with_data arr =
     map fst (filter (\<lambda>(i, data). slot_value data \<noteq> None) (enumerate 0 arr))"

definition null_to_empty :: "'a list slot \<Rightarrow> 'a list slot" where
  "null_to_empty data = (if data = Null then Filled [] else data)"

definition any_items :: "'a list slot list \<Rightarrow> bool" where
  "any_items arr = (\<exists>data \<in> set arr. \<exists>items \<in> set_option (slot_value data). items \<noteq> [])"

text \<open>The inputs a node requires: only asked for in version 1.\<close>

definition required_of :: "engine_env \<Rightarrow> Workflow \<Rightarrow> INode \<Rightarrow> INodeType option \<Rightarrow> required_inputs option res" where
  "required_of env w node nodeType =
     (if wf_executionOrder w \<noteq> Some ''v1'' then Inr None
      else case nodeType of
        None \<Rightarrow> Inl TypeError
      | Some ty \<Rightarrow> Inr (case nt_requiredInputs ty of
            Some (RequiredExpression e) \<Rightarrow> ev_requiredInputs env node e
          | r \<Rightarrow> r))"

definition all_required :: "required_inputs option \<Rightarrow> INodeType option \<Rightarrow> bool" where
  "all_required required nodeType =
     (case (required, nodeType) of
        (Some (RequiredIndexes is), Some ty) \<Rightarrow> length is = nt_inputs ty
      | (Some (RequiredCount n), Some ty) \<Rightarrow> n = nt_inputs ty
      | _ \<Rightarrow> False)"

definition required_missing :: "required_inputs option \<Rightarrow> nat list \<Rightarrow> bool" where
  "required_missing required inputsWithData =
     (case required of
        Some (RequiredIndexes is) \<Rightarrow> \<not> list_all (\<lambda>i. i \<in> set inputsWithData) is
      | Some (RequiredCount n) \<Rightarrow> length inputsWithData < n
      | _ \<Rightarrow> False)"

datatype release = Skipped | Pushed IRunExecutionData | Dropped IRunExecutionData

definition pad_inputs :: "nat \<Rightarrow> 'a list slot list \<Rightarrow> 'a list slot list" where
  "pad_inputs n arr = arr @ replicate (n - length arr) (Filled [])"

definition release_node ::
  "engine_env \<Rightarrow> Workflow \<Rightarrow> string list \<Rightarrow> IRunExecutionData \<Rightarrow> string \<Rightarrow> release res" where
  "release_node env w waitingNodes rx nodeName =
     (case getNode w nodeName of
        None \<Rightarrow> Inr Skipped
      | Some checkNode \<Rightarrow>
          let nodeType = wf_nodeTypes w (node_type checkNode) (node_typeVersion checkNode) in
          res_bind (required_of env w checkNode nodeType) (\<lambda>required.
          if all_required required nodeType then Inr Skipped
          else res_bind (getParentNodes w nodeName (OfType Main) (-1)) (\<lambda>parentNodes.
          if \<exists>p \<in> set parentNodes. p \<in> set waitingNodes then Inr Skipped
          else res_bind (get_key (rx_waiting rx) nodeName) (\<lambda>entries.
          res_bind (first_run_index entries) (\<lambda>firstRunIndex.
          res_bind (waiting_main rx nodeName firstRunIndex) (\<lambda>arr.
          if required_missing required (inputs_with_data arr) then Inr Skipped
          else
            let taskDataMain = map null_to_empty arr in
            if any_items taskDataMain then
              (case nodeType of
                 None \<Rightarrow> Inl TypeError
               | Some ty \<Rightarrow>
                   res_bind (get_key (rx_waitingSource rx) nodeName) (\<lambda>sources.
                   let item = \<lparr>ex_node = checkNode,
                         ex_data = [(Main, pad_inputs (nt_inputs ty) taskDataMain)],
                         ex_metadata = None, ex_source = map_of sources firstRunIndex\<rparr>
                   in Inr (Pushed (remove_waiting nodeName firstRunIndex
                        (rx\<lparr>rx_stack := rx_stack rx @ [item]\<rparr>)))))
            else Inr (Dropped (remove_waiting nodeName firstRunIndex rx))))))))"

fun release_scan ::
  "engine_env \<Rightarrow> Workflow \<Rightarrow> string list \<Rightarrow> IRunExecutionData \<Rightarrow> string list \<Rightarrow> release res" where
  "release_scan env w waitingNodes rx [] = Inr Skipped"
| "release_scan env w waitingNodes rx (nodeName # rest) =
     res_bind (release_node env w waitingNodes rx nodeName) (\<lambda>r.
       case r of Skipped \<Rightarrow> release_scan env w waitingNodes rx rest | _ \<Rightarrow> Inr r)"

definition waiting_entries :: "IRunExecutionData \<Rightarrow> nat" where
  "waiting_entries rx = sum_list (map (\<lambda>(name, entries). length entries) (rx_waiting rx))"

text \<open>The search starts again whenever an entry without any data was removed.\<close>

fun release_loop ::
  "nat \<Rightarrow> engine_env \<Rightarrow> Workflow \<Rightarrow> IRunExecutionData \<Rightarrow> IRunExecutionData res" where
  "release_loop 0 env w rx = Inl OutOfFuel"
| "release_loop (Suc fuel) env w rx =
     res_bind (release_scan env w (map_keys (rx_waiting rx)) rx (map_keys (rx_waiting rx))) (\<lambda>r.
       case r of
         Skipped \<Rightarrow> Inr rx
       | Pushed rx' \<Rightarrow> Inr rx'
       | Dropped rx' \<Rightarrow> release_loop fuel env w rx')"

definition release_waiting_nodes :: "engine_env \<Rightarrow> Workflow \<Rightarrow> IRunExecutionData \<Rightarrow> IRunExecutionData res" where
  "release_waiting_nodes env w rx =
     (if rx_stack rx = [] \<and> rx_waiting rx \<noteq> [] then release_loop (Suc (waiting_entries rx)) env w rx
      else Inr rx)"

end
