(* ===== verification/EngineRun.thy ===== *)
theory EngineRun
  imports EngineLoop ExecutionStack
begin

text \<open>
  One iteration of the execution loop, the loop, the checks before it and the result after it, and
  the three ways to start an execution (\<open>run\<close>, \<open>runPartialWorkflow\<close>, \<open>runPartialWorkflow2\<close>).
\<close>

section \<open>One iteration\<close>

text \<open>
  What the loop keeps besides the run data: the number of calls of nodes, the node and run that
  was put back last (\<open>lastExecutionTry\<close>), whether the execution has been cancelled, and the
  variable \<open>executionError\<close>, which is reset when the next item is taken off the stack and
  therefore outlives the last iteration.
\<close>

record engine =
  en_rx :: IRunExecutionData
  en_calls :: nat
  en_lastTry :: string
  en_status :: ExecutionStatus
  en_error :: "ExecutionError option"

text \<open>A step goes on, ends the loop, or throws.\<close>

datatype loop_step =
    Continue engine
  | Halt engine
  | Throw engine js_error

definition upd_rx :: "(IRunExecutionData \<Rightarrow> IRunExecutionData) \<Rightarrow> engine \<Rightarrow> engine" where
  "upd_rx f en = en\<lparr>en_rx := f (en_rx en)\<rparr>"

definition run_count :: "IRunExecutionData \<Rightarrow> string \<Rightarrow> nat" where
  "run_count rx name = length (or_empty (map_of (rx_runData rx) name))"

definition execution_try :: "string \<Rightarrow> nat \<Rightarrow> string" where
  "execution_try name runIndex = name @ '':'' @ nat_str runIndex"

text \<open>Is the data of every input with a possible sender there? If not the item goes back to the stack.\<close>

fun inputs_ready ::
  "Workflow \<Rightarrow> string \<Rightarrow> ITaskDataConnections \<Rightarrow> nat list \<Rightarrow> bool res" where
  "inputs_ready w name data [] = Inr True"
| "inputs_ready w name data (connectionIndex # rest) =
     res_bind (getHighestNode w name Main (Some connectionIndex)) (\<lambda>highest.
       if highest = [] then inputs_ready w name data rest
       else case map_of data Main of
         None \<Rightarrow> Inr False
       | Some inputs \<Rightarrow>
           if forceInputNodeExecution w \<and>
              (length inputs < connectionIndex \<or> slot_at inputs connectionIndex = Null)
           then Inr False
           else inputs_ready w name data rest)"

definition item_ready :: "Workflow \<Rightarrow> IExecuteData \<Rightarrow> bool res" where
  "item_ready w ex =
     (let name = node_name (ex_node ex) in
      case connections_at (wf_connectionsByDestinationNode w) name Main of
        None \<Rightarrow> Inr True
      | Some inputConnections \<Rightarrow> inputs_ready w name (ex_data ex) [0..<length inputConnections])"

definition push_task :: "string \<Rightarrow> ITaskData \<Rightarrow> IRunExecutionData \<Rightarrow> IRunExecutionData" where
  "push_task name task rx =
     rx\<lparr>rx_runData := map_set name (or_empty (map_of (rx_runData rx) name) @ [task]) (rx_runData rx)\<rparr>"

definition new_task :: "engine_env \<Rightarrow> nat \<Rightarrow> IExecuteData \<Rightarrow> attempt \<Rightarrow> ITaskData" where
  "new_task env n ex a =
     \<lparr>task_startTime = ev_startTime env n, task_executionTime = ev_executionTime env n,
      task_executionStatus = Some (if at_error a \<noteq> None then ErrorStatus
        else if rx_waitTill (at_rx a) \<noteq> None then Waiting else Success),
      task_data = None, task_error = at_error a, task_hints = at_hints a,
      task_source = (case ex_source ex of None \<Rightarrow> []
        | Some sources \<Rightarrow> or_empty (map_of sources Main)),
      task_metadata = ex_metadata ex\<rparr>"

definition continues_on_error :: "INode \<Rightarrow> bool" where
  "continues_on_error node \<longleftrightarrow> node_continueOnFail node = Some True \<or>
     node_onError node \<in> {Some ContinueRegularOutput, Some ContinueErrorOutput}"

text \<open>The output that goes on: the node's own, or on an error that is to be ignored its first input.\<close>

definition surviving_output :: "IExecuteData \<Rightarrow> attempt \<Rightarrow> node_outputs option" where
  "surviving_output ex a =
     (if at_error a = None then at_data a
      else case map_of (ex_data ex) Main of
        Some (input # _) \<Rightarrow> if input = Null then at_data a else Some [input]
      | _ \<Rightarrow> at_data a)"

text \<open>After the tries: record the run, then stop, wait, or hand the output on.\<close>

definition after_tries ::
  "engine_env \<Rightarrow> Workflow \<Rightarrow> nat \<Rightarrow> IExecuteData \<Rightarrow> nat \<Rightarrow> attempt \<Rightarrow> engine \<Rightarrow> loop_step" where
  "after_tries env w n ex runIndex a en0 =
     (let node = ex_node ex; name = node_name node;
          en = en0\<lparr>en_rx := at_rx a, en_calls := at_calls a, en_error := at_error a\<rparr>;
          task = new_task env n ex a;
          rx = (at_rx a)\<lparr>rx_runData := (if map_has (rx_runData (at_rx a)) name then rx_runData (at_rx a)
                                        else map_set name [] (rx_runData (at_rx a)))\<rparr>
      in if at_error a \<noteq> None \<and> \<not> continues_on_error node then
           Halt (en\<lparr>en_rx := (push_task name task rx)\<lparr>rx_stack := ex # rx_stack rx\<rparr>\<rparr>)
         else case surviving_output ex a of
           None \<Rightarrow> Throw (en\<lparr>en_rx := rx\<rparr>) TypeError
         | Some outs0 \<Rightarrow>
             (case merge_errors outs0 of
                Inl e \<Rightarrow> Throw (en\<lparr>en_rx := rx\<rparr>) e
              | Inr outs \<Rightarrow>
                  let rx1 = push_task name (task\<lparr>task_data := Some [(Main, outs)]\<rparr>) rx in
                  if rx_waitTill rx1 \<noteq> None then
                    Halt (en\<lparr>en_rx := rx1\<lparr>rx_stack := ex # rx_stack rx1\<rparr>\<rparr>)
                  else if rx_destinationNode rx1 = Some name \<and> name \<noteq> [] then
                    Continue (en\<lparr>en_rx := rx1\<rparr>)
                  else
                    (case res_bind (add_children env w name outs runIndex rx1) (release_waiting_nodes env w) of
                       Inl e \<Rightarrow> Throw (en\<lparr>en_rx := rx1\<rparr>) e
                     | Inr rx2 \<Rightarrow> Continue (en\<lparr>en_rx := rx2\<rparr>))))"

definition execute_item ::
  "engine_env \<Rightarrow> Workflow \<Rightarrow> ExecutionMode \<Rightarrow> nat \<Rightarrow> IExecuteData \<Rightarrow> engine \<Rightarrow> loop_step" where
  "execute_item env w mode n ex en =
     (let name = node_name (ex_node ex); runIndex = run_count (en_rx en) name in
      case try_loop env w mode ex runIndex (maxTries (ex_node ex))
             \<lparr>at_rx = en_rx en, at_calls = en_calls en, at_data = None, at_error = None, at_hints = []\<rparr> of
        (a, True) \<Rightarrow> Continue (en\<lparr>en_rx := at_rx a, en_calls := at_calls a, en_error := at_error a\<rparr>)
      | (a, False) \<Rightarrow> after_tries env w n ex runIndex a en)"

definition iteration ::
  "engine_env \<Rightarrow> Workflow \<Rightarrow> ExecutionMode \<Rightarrow> nat \<Rightarrow> engine \<Rightarrow> loop_step" where
  "iteration env w mode n en =
     (if ev_canceled env n \<or> en_status en = Canceled then Halt (en\<lparr>en_status := Canceled\<rparr>)
      else case rx_stack (en_rx en) of
        [] \<Rightarrow> Halt en
      | item # rest \<Rightarrow>
          let ex = item\<lparr>ex_data := pair_inputs (ex_data item)\<rparr>;
              name = node_name (ex_node ex);
              en1 = upd_rx (\<lambda>rx. rx\<lparr>rx_stack := rest\<rparr>) (en\<lparr>en_error := None\<rparr>);
              currentTry = execution_try name (run_count (en_rx en1) name)
          in if currentTry = en_lastTry en1 then
               Throw en1 (ApplicationError ''Stopped execution because it seems to be in an endless loop'')
             else if \<not> (case rx_runNodeFilter (en_rx en1) of None \<Rightarrow> True | Some names \<Rightarrow> name \<in> set names)
             then Continue en1
             else case item_ready w ex of
               Inl e \<Rightarrow> Throw en1 e
             | Inr False \<Rightarrow>
                 Continue (upd_rx (\<lambda>rx. rx\<lparr>rx_stack := rx_stack rx @ [ex]\<rparr>) en1\<lparr>en_lastTry := currentTry\<rparr>)
             | Inr True \<Rightarrow> execute_item env w mode n ex en1)"

section \<open>The loop and its result\<close>

text \<open>\<open>None\<close>: the loop is still running after this many iterations.\<close>

fun exec_loop ::
  "nat \<Rightarrow> engine_env \<Rightarrow> Workflow \<Rightarrow> ExecutionMode \<Rightarrow> nat \<Rightarrow> engine \<Rightarrow> loop_step option" where
  "exec_loop 0 env w mode n en = None"
| "exec_loop (Suc fuel) env w mode n en =
     (if rx_stack (en_rx en) = [] then Some (Halt en)
      else case iteration env w mode n en of
        Continue en' \<Rightarrow> exec_loop fuel env w mode (Suc n) en'
      | r \<Rightarrow> Some r)"

record IRun =
  run_data :: IRunExecutionData
  run_finished :: bool
  run_status :: ExecutionStatus
  run_waitTill :: "int option"

text \<open>\<open>{ ...(old ?? {}), ...new }\<close> for each run that left metadata behind.\<close>

definition spread_map :: "('k, 'v) js_map \<Rightarrow> ('k, 'v) js_map \<Rightarrow> ('k, 'v) js_map" where
  "spread_map a b = foldl (\<lambda>m (k, v). map_set k v m) a b"

definition move_metadata_entry :: "IRunData \<Rightarrow> string \<times> nat \<times> ITaskMetadata \<Rightarrow> IRunData res" where
  "move_metadata_entry runData e =
     (case e of (name, index, metadata) \<Rightarrow>
        res_bind (get_key runData name) (\<lambda>runs.
          case js_nth runs index of
            None \<Rightarrow> Inl TypeError
          | Some task \<Rightarrow>
              Inr (map_set name (runs[index := task\<lparr>task_metadata :=
                Some (spread_map (or_empty (task_metadata task)) metadata)\<rparr>]) runData)))"

definition moveNodeMetadata :: "IRunExecutionData \<Rightarrow> IRunExecutionData res" where
  "moveNodeMetadata rx =
     res_bind (fold_res move_metadata_entry (rx_runData rx)
         (concat (map (\<lambda>(name, ms). map (\<lambda>(i, m). (name, i, m)) (enumerate 0 ms)) (rx_metadata rx))))
       (\<lambda>runData. Inr (rx\<lparr>rx_runData := runData\<rparr>))"

definition processSuccessExecution ::
  "ExecutionStatus \<Rightarrow> IRunExecutionData \<Rightarrow> ExecutionError option \<Rightarrow> IRun res" where
  "processSuccessExecution status rx executionError =
     res_bind (moveNodeMetadata rx) (\<lambda>rx1. Inr
       (case executionError of
          Some e \<Rightarrow> \<lparr>run_data = rx1\<lparr>rx_error := Some e\<rparr>, run_finished = False,
             run_status = (if str_includes (err_message e) ''canceled'' then Canceled else status),
             run_waitTill = None\<rparr>
        | None \<Rightarrow>
            if rx_waitTill rx1 \<noteq> None then
              \<lparr>run_data = rx1, run_finished = False, run_status = Waiting, run_waitTill = rx_waitTill rx1\<rparr>
            else \<lparr>run_data = rx1, run_finished = True, run_status = Success, run_waitTill = None\<rparr>))"

definition ExecutionCancelledError :: ExecutionError where
  "ExecutionCancelledError =
     \<lparr>err_name = ''ExecutionCancelledError'', err_message = ''The execution was cancelled''\<rparr>"

text \<open>
  What the promise of the loop resolves to: a loop that ended goes through
  \<open>processSuccessExecution\<close>; one that threw keeps its status and gets the error.
\<close>

definition run_result :: "loop_step \<Rightarrow> IRun res" where
  "run_result r =
     (case r of
        Continue en \<Rightarrow> Inl OutOfFuel
      | Halt en \<Rightarrow>
          processSuccessExecution (en_status en) (en_rx en)
            (if en_status en = Canceled \<and> en_error en = None then Some ExecutionCancelledError
             else en_error en)
      | Throw en e \<Rightarrow>
          res_bind (moveNodeMetadata ((en_rx en)\<lparr>rx_error := Some (caught e)\<rparr>)) (\<lambda>rx. Inr
            \<lparr>run_data = rx, run_finished = False, run_status = en_status en, run_waitTill = None\<rparr>))"

text \<open>The status that the server stores for a result.\<close>

definition determineFinalExecutionStatus :: "IRun \<Rightarrow> ExecutionStatus" where
  "determineFinalExecutionStatus r =
     (let workflowDidSucceed = (rx_error (run_data r) = None \<and> run_status r \<noteq> Crashed \<and>
            run_status r \<noteq> Canceled \<and> run_status r \<noteq> ErrorStatus)
      in if run_waitTill r \<noteq> None then Waiting
         else if run_status r = Canceled then Canceled
         else if run_status r = Crashed then Crashed
         else if workflowDidSucceed then Success else ErrorStatus)"

section \<open>Before the loop\<close>

text \<open>The names with issues: of an unknown type, or with issues in their parameters.\<close>

definition node_has_issues :: "engine_env \<Rightarrow> Workflow \<Rightarrow> string \<Rightarrow> bool res" where
  "node_has_issues env w name =
     res_bind (get_key (wf_nodes w) name) (\<lambda>node.
       Inr (node_disabled node \<noteq> Some True \<and>
         (case wf_nodeTypes w (node_type node) (node_typeVersion node) of
            None \<Rightarrow> True | Some ty \<Rightarrow> ev_issues env node ty)))"

definition checkReadyForExecution ::
  "engine_env \<Rightarrow> Workflow \<Rightarrow> string option \<Rightarrow> string option \<Rightarrow> string list res" where
  "checkReadyForExecution env w startNode destinationNode =
     res_bind
       (case destinationNode of
          Some d \<Rightarrow> if d \<noteq> [] then res_bind (getParentNodes w d (OfType Main) (-1)) (\<lambda>ns. Inr (ns @ [d]))
                     else Inr []
        | None \<Rightarrow> (case startNode of
            Some s \<Rightarrow> if s \<noteq> [] then res_bind (getChildNodes w s (OfType Main) (-1)) (\<lambda>ns. Inr (ns @ [s]))
                       else Inr []
          | None \<Rightarrow> Inr []))
       (\<lambda>checkNodes. fold_res (\<lambda>issues name.
          res_bind (node_has_issues env w name) (\<lambda>b. Inr (if b then set_add name issues else issues)))
        [] checkNodes)"

text \<open>
  An execution that had been waiting: its first item is disabled, so that it passes its data on, and
  the run that put the execution to sleep is taken back.
\<close>

definition resume_waiting :: "IRunExecutionData \<Rightarrow> IRunExecutionData res" where
  "resume_waiting rx =
     (if rx_waitTill rx = None then Inr rx
      else case (rx_stack rx, rx_lastNodeExecuted rx) of
        (item # rest, Some lastNode) \<Rightarrow>
          res_bind (get_key (rx_runData rx) lastNode) (\<lambda>runs.
            Inr (rx\<lparr>rx_stack := item\<lparr>ex_node := (ex_node item)\<lparr>node_disabled := Some True\<rparr>\<rparr> # rest,
                    rx_waitTill := None,
                    rx_runData := map_set lastNode (butlast runs) (rx_runData rx)\<rparr>))
      | _ \<Rightarrow> Inl TypeError)"

definition processRunExecutionData ::
  "nat \<Rightarrow> engine_env \<Rightarrow> Workflow \<Rightarrow> ExecutionMode \<Rightarrow> IRunExecutionData \<Rightarrow> IRun res option" where
  "processRunExecutionData fuel env w mode rx =
     (let startNode = (case rx_stack rx of [] \<Rightarrow> None | item # _ \<Rightarrow> Some (node_name (ex_node item))) in
      case checkReadyForExecution env w startNode (rx_destinationNode rx) of
        Inl e \<Rightarrow> Some (Inl e)
      | Inr (name # names) \<Rightarrow> Some (Inl (ApplicationError ''WorkflowHasIssuesError''))
      | Inr [] \<Rightarrow>
          (case resume_waiting rx of
             Inl e \<Rightarrow> Some (Inl e)
           | Inr rx1 \<Rightarrow>
               map_option run_result (exec_loop fuel env w mode 0
                 \<lparr>en_rx = rx1, en_calls = 0, en_lastTry = [], en_status = Running,
                  en_error = None\<rparr>)))"

section \<open>Starting an execution\<close>

text \<open>Only the nodes that lead to the destination are run.\<close>

definition parents_filter :: "Workflow \<Rightarrow> string option \<Rightarrow> string list option res" where
  "parents_filter w destinationNode =
     (case destinationNode of
        None \<Rightarrow> Inr None
      | Some d \<Rightarrow> if d = [] then Inr None
          else res_bind (getParentNodes w d (OfType Main) (-1)) (\<lambda>names. Inr (Some (names @ [d]))))"

definition start_item :: "INode \<Rightarrow> IExecuteData" where
  "start_item node =
     \<lparr>ex_node = node, ex_data = [(Main, [Filled [empty_item]])], ex_metadata = None, ex_source = None\<rparr>"

definition run ::
  "nat \<Rightarrow> engine_env \<Rightarrow> Workflow \<Rightarrow> ExecutionMode \<Rightarrow> INode option \<Rightarrow> string option \<Rightarrow> IPinData option \<Rightarrow>
   IRun res option" where
  "run fuel env w mode startNode destinationNode pinData =
     (case (case startNode of Some node \<Rightarrow> Inr (Some node) | None \<Rightarrow> getStartNode w destinationNode) of
        Inl e \<Rightarrow> Some (Inl e)
      | Inr None \<Rightarrow> Some (Inl (ApplicationError ''No node to start the workflow from could be found''))
      | Inr (Some node) \<Rightarrow>
          (case parents_filter w destinationNode of
             Inl e \<Rightarrow> Some (Inl e)
           | Inr runNodeFilter \<Rightarrow>
               processRunExecutionData fuel env w mode
                 (initial_run destinationNode runNodeFilter [] pinData [start_item node] [] [])))"

section \<open>The first version of partial executions\<close>

record StartNodeData =
  sn_name :: string
  sn_sourceData :: "ISourceData option"

text \<open>\<open>runData[node]?.[0]?.data?.[type]?.[index]\<close>, where the node has run data.\<close>

definition first_run_slot :: "IRunData \<Rightarrow> IConnection \<Rightarrow> INodeExecutionData list slot" where
  "first_run_slot runData c =
     (case map_of runData (ic_node c) of
        Some (task # _) \<Rightarrow>
          (case task_data task of
             None \<Rightarrow> Hole
           | Some conns \<Rightarrow> (case map_of conns (ic_type c) of
               None \<Rightarrow> Hole | Some outputs \<Rightarrow> slot_at outputs (ic_index c)))
      | _ \<Rightarrow> Hole)"

definition start_connection ::
  "Workflow \<Rightarrow> IRunData \<Rightarrow> IPinData option \<Rightarrow> ISourceData option \<Rightarrow>
   INodeExecutionData list slot list \<times> ISourceData slot list \<Rightarrow> IConnection \<Rightarrow>
   INodeExecutionData list slot list \<times> ISourceData slot list" where
  "start_connection w runData pinData sourceData acc c =
     (case acc of (incomingData, sources) \<Rightarrow>
        let node = getNode w (ic_node c);
            source = Filled (case sourceData of Some s \<Rightarrow> s
              | None \<Rightarrow> \<lparr>src_previousNode = ic_node c, src_previousNodeOutput = None,
                         src_previousNodeRun = None\<rparr>)
        in if (case node of Some n \<Rightarrow> is_disabled n | None \<Rightarrow> False) then acc
           else case (case (node, pinData) of
               (Some n, Some pd) \<Rightarrow> map_of pd (node_name n) | _ \<Rightarrow> None) of
             Some items \<Rightarrow> (incomingData @ [Filled items], sources @ [source])
           | None \<Rightarrow>
               if \<not> map_has runData (ic_node c) then acc
               else ((case first_run_slot runData c of
                        Filled items \<Rightarrow> incomingData @ [Filled items] | _ \<Rightarrow> incomingData),
                     sources @ [source]))"

text \<open>The item of a start node; a start node that the workflow does not have is an error.\<close>

definition partial_start_item ::
  "Workflow \<Rightarrow> IRunData \<Rightarrow> IPinData option \<Rightarrow> StartNodeData \<Rightarrow> IExecuteData res" where
  "partial_start_item w runData pinData startNode =
     res_bind (case getNode w (sn_name startNode) of None \<Rightarrow> Inl TypeError | Some node \<Rightarrow> Inr node) (\<lambda>node.
       case map_of (wf_connectionsByDestinationNode w) (sn_name startNode) of
         None \<Rightarrow> Inr (start_item node)
       | Some incoming \<Rightarrow>
           res_bind (get_key incoming Main) (\<lambda>inputs.
             case foldl (start_connection w runData pinData (sn_sourceData startNode)) ([], [])
                    (concat (map flat_entry inputs)) of
               (incomingData, sources) \<Rightarrow>
                 Inr \<lparr>ex_node = node, ex_data = [(Main, incomingData)], ex_metadata = None,
                      ex_source = Some [(Main, sources)]\<rparr>))"

text \<open>\<open>runData[node][0].data![type][index]\<close>.\<close>

definition strict_slot :: "ITaskData list \<Rightarrow> IConnection \<Rightarrow> INodeExecutionData list slot res" where
  "strict_slot runs c =
     (case runs of
        [] \<Rightarrow> Inl TypeError
      | task # _ \<Rightarrow> (case task_data task of
          None \<Rightarrow> Inl TypeError
        | Some conns \<Rightarrow> res_bind (get_key conns (ic_type c)) (\<lambda>outputs.
            Inr (slot_at outputs (ic_index c)))))"

definition push_nested ::
  "string \<Rightarrow> NodeConnectionType \<Rightarrow> 'a slot \<Rightarrow>
   (string, (nat, (NodeConnectionType, 'a slot list) js_map) js_map) js_map \<Rightarrow>
   (string, (nat, (NodeConnectionType, 'a slot list) js_map) js_map) js_map" where
  "push_nested name type v m =
     (let entries = or_empty (map_of m name); entry = or_empty (map_of entries 0)
      in map_set name (map_set 0 (map_set type (or_empty (map_of entry type) @ [v]) entry) entries) m)"

definition destination_waiting ::
  "string \<Rightarrow> IRunData \<Rightarrow> IWaitingForExecution \<times> IWaitingForExecutionSource \<Rightarrow> IConnection \<Rightarrow>
   (IWaitingForExecution \<times> IWaitingForExecutionSource) res" where
  "destination_waiting destinationNode runData acc c =
     (case acc of (waiting, waitingSource) \<Rightarrow>
        case map_of runData (ic_node c) of
          Some runs \<Rightarrow>
            res_bind (strict_slot runs c) (\<lambda>data.
              Inr (push_nested destinationNode (ic_type c) data waiting,
                   push_nested destinationNode (ic_type c)
                     (Filled (source_of (ic_node c) (ic_index c) 0)) waitingSource))
        | None \<Rightarrow>
            Inr (push_nested destinationNode (ic_type c) Null waiting,
                 push_nested destinationNode (ic_type c) Null waitingSource))"

text \<open>
  One start node: its item, and, for each of them again, the data that the destination has already.
\<close>

definition partial_start ::
  "Workflow \<Rightarrow> IRunData \<Rightarrow> IPinData option \<Rightarrow> string option \<Rightarrow> stack_state \<Rightarrow> StartNodeData \<Rightarrow>
   stack_state res" where
  "partial_start w runData pinData destinationNode st startNode =
     res_bind (partial_start_item w runData pinData startNode) (\<lambda>item.
     res_bind
       (case destinationNode of
          None \<Rightarrow> Inr (st_waiting st, st_waitingSource st)
        | Some d \<Rightarrow> (case (if d = [] then None else map_of (wf_connectionsByDestinationNode w) d) of
            None \<Rightarrow> Inr (st_waiting st, st_waitingSource st)
          | Some incoming \<Rightarrow>
              res_bind (get_key incoming Main) (\<lambda>inputs.
                fold_res (destination_waiting d runData) (st_waiting st, st_waitingSource st)
                  (concat (map flat_entry inputs)))))
       (\<lambda>(waiting, waitingSource).
          Inr \<lparr>st_stack = st_stack st @ [item], st_waiting = waiting, st_waitingSource = waitingSource\<rparr>))"

definition enabled_parents_filter :: "Workflow \<Rightarrow> string option \<Rightarrow> string list option res" where
  "enabled_parents_filter w destinationNode =
     (case destinationNode of
        None \<Rightarrow> Inr None
      | Some d \<Rightarrow> if d = [] then Inr None
          else res_bind (getParentNodes w d (OfType Main) (-1)) (\<lambda>names.
            Inr (Some (filter (\<lambda>name. case getNode w name of
              Some node \<Rightarrow> \<not> is_disabled node | None \<Rightarrow> True) names @ [d]))))"

definition runPartialWorkflow ::
  "nat \<Rightarrow> engine_env \<Rightarrow> Workflow \<Rightarrow> ExecutionMode \<Rightarrow> IRunData \<Rightarrow> StartNodeData list \<Rightarrow> string option \<Rightarrow>
   IPinData option \<Rightarrow> IRun res option" where
  "runPartialWorkflow fuel env w mode runData startNodes destinationNode pinData =
     (case res_bind (fold_res (partial_start w runData pinData destinationNode)
               \<lparr>st_stack = [], st_waiting = [], st_waitingSource = []\<rparr> startNodes) (\<lambda>st.
             res_bind (if startNodes = [] then Inr None else enabled_parents_filter w destinationNode)
               (\<lambda>runNodeFilter. Inr (st, runNodeFilter))) of
        Inl e \<Rightarrow> Some (Inl e)
      | Inr (st, runNodeFilter) \<Rightarrow>
          processRunExecutionData fuel env w mode
            (initial_run destinationNode runNodeFilter runData pinData (st_stack st) (st_waiting st)
              (st_waitingSource st)))"

section \<open>The second version\<close>

text \<open>
  Step 8 of \<open>runPartialWorkflow2\<close>: the state it has prepared is executed on the workflow of the
  subgraph, which keeps the settings of the original one.
\<close>

definition prepared_run :: "partial_run \<Rightarrow> IPinData \<Rightarrow> IRunExecutionData" where
  "prepared_run r pinData =
     initial_run (Some (pr_destinationNode r)) (Some (pr_runNodeFilter r)) (pr_runData r) (Some pinData)
       (st_stack (pr_stack r)) (st_waiting (pr_stack r)) (st_waitingSource (pr_stack r))"

definition executePartialWorkflow2 ::
  "nat \<Rightarrow> engine_env \<Rightarrow> ((INode \<Rightarrow> INode \<Rightarrow> int) \<Rightarrow> INode list \<Rightarrow> INode list) \<Rightarrow> (string \<Rightarrow> string \<Rightarrow> int) \<Rightarrow>
   (INodeType \<Rightarrow> INode \<Rightarrow> INode) \<Rightarrow> Workflow \<Rightarrow> ExecutionMode \<Rightarrow> IRunData \<Rightarrow> IPinData \<Rightarrow> string list \<Rightarrow>
   string option \<Rightarrow> IRun res option" where
  "executePartialWorkflow2 fuel env sort_impl localeCompare add_defaults w mode runData pinData dirty
     destinationNodeName =
     (case res_bind (runPartialWorkflow2 sort_impl localeCompare w runData pinData dirty destinationNodeName)
             (\<lambda>r. res_bind (toWorkflow add_defaults w (pr_graph r)) (\<lambda>w'. Inr (r, w'))) of
        Inl e \<Rightarrow> Some (Inl e)
      | Inr (r, w') \<Rightarrow> processRunExecutionData fuel env w' mode (prepared_run r pinData))"

end
