(* ===== verification/EngineWaiting.thy ===== *)
theory EngineWaiting
  imports EngineLoop
begin

text \<open>
  What \<open>addNodeToBeExecuted\<close> does to the stack and to the waiting data, as three cases: the data
  goes to the stack at once, it completes a waiting entry, or it is kept there. The invariant of the
  waiting data and the conservation of data rest on these cases.
\<close>

section \<open>Maps and slots\<close>

lemma map_set_map_set [simp]: "map_set k v (map_set k u m) = map_set k v m"
  by (induction k u m rule: map_set.induct) auto

lemma map_delete_map_set [simp]: "map_delete k (map_set k v m) = map_delete k m"
  by (induction k v m rule: map_set.induct) (auto simp: map_delete_def)

lemma slot_set_slot_set [simp]: "slot_set i v (slot_set i u xs) = slot_set i v xs"
  by (auto simp: slot_set_def list_update_append)

lemma slot_set_neq_Nil [simp]: "slot_set i v xs \<noteq> []"
  by (auto simp: slot_set_def)

lemma get_key_Inr [simp]: "get_key m k = Inr v \<longleftrightarrow> map_of m k = Some v"
  by (auto simp: get_key_def split: option.splits)

lemma or_empty_simps [simp]: "or_empty None = []" "or_empty (Some v) = v"
  by (simp_all add: or_empty_def)

lemma set_int_keys [simp]: "set (int_keys m) = fst ` set m"
  by (simp add: int_keys_def)

lemma map_set_neq_Nil [simp]: "map_set k v m \<noteq> []"
  by (induction k v m rule: map_set.induct) auto

section \<open>The chosen entry\<close>

lemma find_waiting_Some:
  "find_waiting entries input is = Inr (Some i) \<Longrightarrow>
   i \<in> set is \<and> (\<exists>entry arr. map_of entries i = Some entry \<and> map_of entry Main = Some arr \<and>
     slot_value (slot_at arr input) = None)"
  by (induction "is") (auto simp: resI split: if_splits)

lemma find_waiting_None:
  "find_waiting entries input is = Inr None \<Longrightarrow> i \<in> set is \<Longrightarrow>
   \<exists>entry arr. map_of entries i = Some entry \<and> map_of entry Main = Some arr \<and>
     slot_value (slot_at arr input) \<noteq> None"
  by (induction "is") (auto simp: resI split: if_splits)

lemma set_nested_Inr [simp]:
  "set_nested name index input v m = Inr m' \<longleftrightarrow>
   (\<exists>entries entry arr. map_of m name = Some entries \<and> map_of entries index = Some entry \<and>
      map_of entry Main = Some arr \<and>
      m' = map_set name (map_set index (map_set Main (slot_set input v arr) entry) entries) m)"
  by (auto simp: set_nested_def resI)

text \<open>
  The entry the data goes to: the first one that misses the input, or a new one numbered by how
  many there are.
\<close>

definition entry_for ::
  "(nat, ITaskDataConnections) js_map \<Rightarrow> nat \<Rightarrow> nat \<Rightarrow> nat \<Rightarrow> INodeExecutionData list slot list \<Rightarrow> bool" where
  "entry_for entries input numberOfInputs index arr \<longleftrightarrow>
     (\<exists>entry. map_of entries index = Some entry \<and> map_of entry Main = Some arr \<and>
        slot_value (slot_at arr input) = None) \<or>
     (index = length entries \<and> arr = replicate numberOfInputs Null \<and>
        (\<forall>(i, entry) \<in> set entries. \<exists>arr e. map_of entries i = Some e \<and> map_of e Main = Some arr \<and>
           slot_value (slot_at arr input) \<noteq> None))"

text \<open>Only the waiting data differ.\<close>

definition same_but_waiting :: "IRunExecutionData \<Rightarrow> IRunExecutionData \<Rightarrow> bool" where
  "same_but_waiting rx rx' \<longleftrightarrow>
     rx' = rx\<lparr>rx_waiting := rx_waiting rx', rx_waitingSource := rx_waitingSource rx'\<rparr>"

lemma same_but_waiting_refl [simp]: "same_but_waiting rx rx"
  by (simp add: same_but_waiting_def)

lemma same_but_waiting_upd [simp]:
  "same_but_waiting rx rx' \<Longrightarrow> same_but_waiting rx (rx'\<lparr>rx_waiting := a, rx_waitingSource := b\<rparr>)"
  by (cases rx; cases rx') (simp add: same_but_waiting_def)

lemma same_but_waiting_stack: "same_but_waiting rx rx' \<Longrightarrow> rx_stack rx' = rx_stack rx"
  by (cases rx; cases rx') (simp add: same_but_waiting_def)

lemma same_but_waiting_trans:
  "same_but_waiting rx rx' \<Longrightarrow> same_but_waiting rx' rx'' \<Longrightarrow> same_but_waiting rx rx''"
  by (cases rx; cases rx'; cases rx'') (simp add: same_but_waiting_def)

lemma add_to_waiting_cases:
  assumes add: "add_to_waiting w c outputIndex parent d runIndex n rx = Inr (index, was, rx')"
  defines "entries \<equiv> or_empty (map_of (rx_waiting rx) (ic_node c))"
  obtains arr entry where "entry_for entries (ic_index c) n index arr"
    "map_of entry Main = Some (slot_set (ic_index c) (output_slot d outputIndex) arr)"
    "rx_waiting rx' = map_set (ic_node c) (map_set index entry entries) (rx_waiting rx)"
    "same_but_waiting rx rx'" "was = map_has (rx_waiting rx) (ic_node c)"
proof -
  define rx1 where "rx1 = (if map_has (rx_waiting rx) (ic_node c) then rx
    else rx\<lparr>rx_waiting := map_set (ic_node c) [] (rx_waiting rx),
            rx_waitingSource := map_set (ic_node c) [] (rx_waitingSource rx)\<rparr>)"
  have rx1: "same_but_waiting rx rx1" "map_of (rx_waiting rx1) (ic_node c) = Some entries"
    "map_set (ic_node c) e (rx_waiting rx1) = map_set (ic_node c) e (rx_waiting rx)" for e
    by (cases "map_of (rx_waiting rx) (ic_node c)",
        auto simp: rx1_def entries_def map_has_def simp del: map_has_iff)
  note unfold = add_to_waiting_def Let_def rx1_def [symmetric]
  from add obtain found where found: "find_waiting entries (ic_index c) (int_keys entries) = Inr found"
    unfolding unfold by (auto simp: resI rx1)
  show ?thesis
  proof (cases found)
    case (Some i)
    with found obtain entry arr where e: "map_of entries i = Some entry" "map_of entry Main = Some arr"
      "slot_value (slot_at arr (ic_index c)) = None" by (auto dest: find_waiting_Some)
    let ?entry = "map_set Main (slot_set (ic_index c) (output_slot d outputIndex) arr) entry"
    from add found Some e have "index = i" "was = map_has (rx_waiting rx) (ic_node c)"
      "rx_waiting rx' = map_set (ic_node c) (map_set index ?entry entries) (rx_waiting rx)"
      "same_but_waiting rx rx'"
      unfolding unfold by (auto simp: resI rx1 simp del: map_has_iff)
    with e show ?thesis
      by (intro that [of arr ?entry]) (auto simp: entry_for_def)
  next
    case None
    let ?arr = "slot_set (ic_index c) (output_slot d outputIndex) (replicate n Null)"
    from add found None have r: "index = length entries" "was = map_has (rx_waiting rx) (ic_node c)"
      "rx_waiting rx' = map_set (ic_node c) (map_set index [(Main, ?arr)] entries) (rx_waiting rx)"
      "same_but_waiting rx rx'"
      unfolding unfold by (auto simp: resI rx1 prepareWaitingToExecution_def simp del: map_has_iff)
    have "entry_for entries (ic_index c) n index (replicate n Null)"
      using find_waiting_None [OF found [unfolded None]] r(1) by (fastforce simp: entry_for_def)
    with r show ?thesis by (intro that [of "replicate n Null" "[(Main, ?arr)]"]) auto
  qed
qed

section \<open>The three cases\<close>

text \<open>Only the queues differ: the stack and the waiting data.\<close>

definition same_but_queues :: "IRunExecutionData \<Rightarrow> IRunExecutionData \<Rightarrow> bool" where
  "same_but_queues rx rx' \<longleftrightarrow>
     rx' = rx\<lparr>rx_stack := rx_stack rx', rx_waiting := rx_waiting rx',
             rx_waitingSource := rx_waitingSource rx'\<rparr>"

lemma same_but_queues_refl [simp]: "same_but_queues rx rx"
  by (simp add: same_but_queues_def)

lemma same_but_queues_trans:
  "same_but_queues rx rx' \<Longrightarrow> same_but_queues rx' rx'' \<Longrightarrow> same_but_queues rx rx''"
  by (cases rx; cases rx'; cases rx'') (simp add: same_but_queues_def)

lemma same_but_waiting_queues: "same_but_waiting rx rx' \<Longrightarrow> same_but_queues rx rx'"
  by (cases rx; cases rx') (simp add: same_but_waiting_def same_but_queues_def)

lemma same_but_queues_upd:
  "same_but_queues rx (rx\<lparr>rx_stack := a\<rparr>)"
  "same_but_queues rx (rx\<lparr>rx_waiting := b, rx_waitingSource := c\<rparr>)"
  by (cases rx, simp add: same_but_queues_def)+

lemma same_but_queues_fields:
  assumes "same_but_queues rx rx'"
  shows "rx_runData rx' = rx_runData rx" "rx_runNodeFilter rx' = rx_runNodeFilter rx"
    "rx_destinationNode rx' = rx_destinationNode rx" "rx_waitTill rx' = rx_waitTill rx"
    "rx_pinData rx' = rx_pinData rx" "rx_metadata rx' = rx_metadata rx" "rx_error rx' = rx_error rx"
  using assms by (cases rx; cases rx'; simp add: same_but_queues_def)+

lemma enqueue_item_simps [simp]:
  "rx_waiting (enqueue_item w item rx) = rx_waiting rx"
  "rx_stack (enqueue_item w item rx) =
     (if forceInputNodeExecution w then rx_stack rx @ [item] else item # rx_stack rx)"
  "same_but_queues rx (enqueue_item w item rx)"
  by (auto simp: enqueue_item_def forceInputNodeExecution_def same_but_queues_upd)

text \<open>Nodes are forced only before version 1, with an item of their own at the end of the stack.\<close>

definition forced_item :: "IExecuteData \<Rightarrow> bool" where
  "forced_item item \<longleftrightarrow> ex_data item = [(Main, [Filled [empty_item]])]"

definition forces :: "Workflow \<Rightarrow> IRunExecutionData \<Rightarrow> IRunExecutionData \<Rightarrow> bool" where
  "forces w rx rx' \<longleftrightarrow> (\<exists>items. rx' = rx\<lparr>rx_stack := rx_stack rx @ items\<rparr> \<and> (\<forall>item \<in> set items. forced_item item) \<and>
     (\<not> forceInputNodeExecution w \<longrightarrow> items = []))"

lemma forces_refl [simp]: "forces w rx rx"
  by (auto simp: forces_def intro: exI [of _ "[]"])

lemma forces_trans: "forces w rx rx' \<Longrightarrow> forces w rx' rx'' \<Longrightarrow> forces w rx rx''"
  unfolding forces_def by (elim exE conjE) (rule_tac x = "items @ itemsa" in exI, auto)

lemma forces_enqueue:
  "forceInputNodeExecution w \<Longrightarrow> forces w rx (enqueue_item w (empty_start_item p out r node) rx)"
  by (auto simp: forces_def enqueue_item_def forceInputNodeExecution_def empty_start_item_def
      forced_item_def intro!: exI [of _ "[empty_start_item p out r node]"])

lemma force_input_forces: "res_all (forces w rx) (force_input w outs outputIndex parent d runIndex rx c)"
  unfolding force_input_def Let_def by (intro resV) (simp_all add: forces_enqueue)

lemma forces_queues: "forces w rx rx' \<Longrightarrow> same_but_queues rx rx' \<and> rx_waiting rx' = rx_waiting rx"
  by (auto simp: forces_def same_but_queues_upd)

lemma keep_waiting_Inr:
  assumes "keep_waiting name index input n data source rx = Inr rx'"
    "waiting_main rx name index = Inr arr"
  shows "same_but_waiting rx rx'"
    "rx_waiting rx' = map_set name (map_set index [(Main, slot_set input data arr)]
       (or_empty (map_of (rx_waiting rx) name))) (rx_waiting rx)"
  using assms by (auto simp: keep_waiting_def prepareWaitingToExecution_def resI Let_def)

lemma release_waiting_Inr:
  assumes "release_waiting w name index rx = Inr rx'" "map_of (rx_waiting rx) name = Some entries"
    "map_of entries index = Some entry"
  shows "\<exists>item. map_of (wf_nodes w) name = Some (ex_node item) \<and> ex_data item = entry \<and>
    rx' = remove_waiting name index (enqueue_item w item rx)"
  using assms by (force simp: release_waiting_def target_node_def resI)

lemma remove_waiting_simps [simp]:
  "rx_stack (remove_waiting name index rx) = rx_stack rx"
  "rx_waiting (remove_waiting name index rx) =
     (if map_delete index (or_empty (map_of (rx_waiting rx) name)) = [] then map_delete name (rx_waiting rx)
      else map_set name (map_delete index (or_empty (map_of (rx_waiting rx) name))) (rx_waiting rx))"
  "same_but_queues rx (remove_waiting name index rx)"
  by (auto simp: remove_waiting_def drop_nested_def Let_def same_but_queues_upd)

text \<open>
  Handing data over: directly to the stack, or completing the chosen waiting entry, or kept there.
\<close>

abbreviation entries_of :: "IRunExecutionData \<Rightarrow> string \<Rightarrow> (nat, ITaskDataConnections) js_map" where
  "entries_of rx name \<equiv> or_empty (map_of (rx_waiting rx) name)"

inductive handover ::
  "Workflow \<Rightarrow> IConnection \<Rightarrow> nat \<Rightarrow> INodeExecutionData list slot \<Rightarrow> IRunExecutionData \<Rightarrow> IRunExecutionData \<Rightarrow> bool"
  for w c n data rx where
  direct: "n \<le> 1 \<Longrightarrow> map_of (wf_nodes w) (ic_node c) = Some (ex_node item) \<Longrightarrow>
     ex_data item = [(Main, slot_set (ic_index c) data (replicate (Suc (ic_index c)) Null))] \<Longrightarrow>
     handover w c n data rx (enqueue_item w item rx)"
| released: "1 < n \<Longrightarrow> entry_for (entries_of rx (ic_node c)) (ic_index c) n index arr \<Longrightarrow>
     Null \<notin> set (slot_set (ic_index c) data arr) \<Longrightarrow>
     map_of (wf_nodes w) (ic_node c) = Some (ex_node item) \<Longrightarrow>
     map_of (ex_data item) Main = Some (slot_set (ic_index c) data arr) \<Longrightarrow>
     rx_stack rx' = rx_stack (enqueue_item w item rx) \<Longrightarrow>
     rx_waiting rx' = (if map_delete index (entries_of rx (ic_node c)) = [] then map_delete (ic_node c) (rx_waiting rx)
        else map_set (ic_node c) (map_delete index (entries_of rx (ic_node c))) (rx_waiting rx)) \<Longrightarrow>
     same_but_queues rx rx' \<Longrightarrow> handover w c n data rx rx'"
| kept: "1 < n \<Longrightarrow> entry_for (entries_of rx (ic_node c)) (ic_index c) n index arr \<Longrightarrow>
     Null \<in> set (slot_set (ic_index c) data arr) \<Longrightarrow> forces w rx rx1 \<Longrightarrow> rx_stack rx' = rx_stack rx1 \<Longrightarrow>
     rx_waiting rx' = map_set (ic_node c) (map_set index [(Main, slot_set (ic_index c) data arr)]
        (entries_of rx (ic_node c))) (rx_waiting rx) \<Longrightarrow>
     same_but_queues rx rx' \<Longrightarrow> handover w c n data rx rx'"

lemma forces_loop: "fold_res (force_input w outs outputIndex parent d runIndex) rx cs = Inr rx' \<Longrightarrow> forces w rx rx'"
  by (rule fold_res_invariant [where I = "forces w rx"])
    (auto intro: forces_trans res_allD [OF force_input_forces])

lemma same_but_waiting_forces:
  assumes "same_but_waiting rx rx1" "forces w rx1 rx2" "same_but_waiting rx2 rx3"
  shows "same_but_queues rx rx3" "\<exists>rx'. forces w rx rx' \<and> rx_stack rx3 = rx_stack rx'"
proof -
  show "same_but_queues rx rx3"
    using assms by (blast intro: same_but_queues_trans same_but_waiting_queues dest: forces_queues)
  from assms(2) obtain items where items: "rx2 = rx1\<lparr>rx_stack := rx_stack rx1 @ items\<rparr>"
    "\<forall>item \<in> set items. forced_item item" "\<not> forceInputNodeExecution w \<longrightarrow> items = []" by (auto simp: forces_def)
  have "rx_stack rx1 = rx_stack rx" "rx_stack rx3 = rx_stack rx2"
    using assms(1,3) by (blast intro: same_but_waiting_stack)+
  with items show "\<exists>rx'. forces w rx rx' \<and> rx_stack rx3 = rx_stack rx'"
    by (intro exI [of _ "rx\<lparr>rx_stack := rx_stack rx @ items\<rparr>"]) (auto simp: forces_def)
qed

lemma addNodeToBeExecuted_handover:
  assumes add: "addNodeToBeExecuted w c outputIndex parent d runIndex rx = Inr rx'"
  shows "\<exists>inputs. main_inputs w (ic_node c) = Inr inputs \<and>
    handover w c (length inputs) (output_slot d outputIndex) rx rx'"
proof -
  from add obtain inputs where inputs: "main_inputs w (ic_node c) = Inr inputs"
    by (cases "main_inputs w (ic_node c)") (simp_all add: addNodeToBeExecuted_def Let_def)
  let ?data = "output_slot d outputIndex" and ?entries = "entries_of rx (ic_node c)"
  have "handover w c (length inputs) ?data rx rx'"
  proof (cases "length inputs > 1")
    case False
    with add inputs show ?thesis
      by (auto simp: addNodeToBeExecuted_def target_node_def resI Let_def intro!: handover.direct)
  next
    case True
    with add inputs obtain index was rx1 arr1 where
      a: "add_to_waiting w c outputIndex parent d runIndex (length inputs) rx = Inr (index, was, rx1)"
      "waiting_main rx1 (ic_node c) index = Inr arr1" and
      rest: "(if Null \<notin> set arr1 then release_waiting w (ic_node c) index rx1
             else res_bind
               (if was then Inr rx1
                else res_bind (main_outputs w parent) (\<lambda>outputs.
                  let checkOutputNodes = map ic_node (concat (map flat_entry outputs))
                  in fold_res (force_input w checkOutputNodes outputIndex parent
                                 (case d of None \<Rightarrow> [] | Some outs \<Rightarrow> outs) runIndex)
                       rx1 (concat (map flat_entry inputs))))
               (\<lambda>rx2. keep_waiting (ic_node c) index (ic_index c) (length inputs) ?data
                  (source_of parent outputIndex runIndex) rx2)) = Inr rx'"
      by (auto simp: addNodeToBeExecuted_def resI Let_def)
    from add_to_waiting_cases [OF a(1)] obtain arr entry where
      e: "entry_for ?entries (ic_index c) (length inputs) index arr"
      "map_of entry Main = Some (slot_set (ic_index c) ?data arr)"
      "rx_waiting rx1 = map_set (ic_node c) (map_set index entry ?entries) (rx_waiting rx)"
      "same_but_waiting rx rx1" by metis
    from a(2) e(2,3) have arr1: "arr1 = slot_set (ic_index c) ?data arr" by (auto simp: waiting_main_def resI)
    have stack1: "rx_stack rx1 = rx_stack rx" by (rule same_but_waiting_stack [OF e(4)])
    show ?thesis
    proof (cases "Null \<in> set arr1")
      case False
      with rest obtain item where item: "map_of (wf_nodes w) (ic_node c) = Some (ex_node item)"
        "ex_data item = entry" "rx' = remove_waiting (ic_node c) index (enqueue_item w item rx1)"
        using release_waiting_Inr [of w "ic_node c" index rx1 rx' _ entry] e(3) by auto
      have q: "same_but_queues rx rx'" unfolding item(3)
        by (blast intro: same_but_queues_trans same_but_waiting_queues [OF e(4)] enqueue_item_simps(3) remove_waiting_simps(3))
      show ?thesis
        by (rule handover.released [OF True e(1) _ item(1) _ _ _ q])
          (use False e item stack1 arr1 in auto)
    next
      case True2: True
      with rest obtain rx2 where rx2: "forces w rx1 rx2"
        "keep_waiting (ic_node c) index (ic_index c) (length inputs) ?data
           (source_of parent outputIndex runIndex) rx2 = Inr rx'"
        by (auto simp: resI Let_def intro: that [OF forces_refl] that [OF forces_loop] split: if_splits)
      with a(2) have "waiting_main rx2 (ic_node c) index = Inr arr1"
        using forces_queues [OF rx2(1)] by (simp add: waiting_main_def)
      note keep = keep_waiting_Inr [OF rx2(2) this]
      note q = same_but_waiting_forces [OF e(4) rx2(1) keep(1)]
      from q(2) obtain rx3 where "forces w rx rx3" "rx_stack rx' = rx_stack rx3" by blast
      with q(1) keep(2) e True2 True arr1 forces_queues [OF rx2(1)] show ?thesis
        by (intro handover.kept) auto
    qed
  qed
  with inputs show ?thesis by blast
qed

end
