(* ===== verification/EngineSteps.thy ===== *)
theory EngineSteps
  imports EngineRun EngineWaiting
begin

text \<open>
  What one iteration of the execution loop changes, and the loop as a sequence of such steps. The
  tries of a node touch nothing but the two marks of the run (the time to wait for, the last node
  executed) and call the node a bounded number of times; what follows adds one task to the run data
  and changes the queues.
\<close>

section \<open>The tries\<close>

definition same_but_marks :: "IRunExecutionData \<Rightarrow> IRunExecutionData \<Rightarrow> bool" where
  "same_but_marks rx rx' \<longleftrightarrow>
     rx' = rx\<lparr>rx_waitTill := rx_waitTill rx', rx_lastNodeExecuted := rx_lastNodeExecuted rx'\<rparr>"

lemma same_but_marks_refl [simp]: "same_but_marks rx rx"
  by (simp add: same_but_marks_def)

lemma same_but_marks_trans:
  "same_but_marks rx rx' \<Longrightarrow> same_but_marks rx' rx'' \<Longrightarrow> same_but_marks rx rx''"
  by (cases rx; cases rx'; cases rx'') (simp add: same_but_marks_def)

lemma same_but_marks_upd [simp]:
  "same_but_marks rx (rx\<lparr>rx_waitTill := t\<rparr>)" "same_but_marks rx (rx\<lparr>rx_lastNodeExecuted := l\<rparr>)"
  by (cases rx, simp add: same_but_marks_def)+

lemma same_but_marks_fields:
  assumes "same_but_marks rx rx'"
  shows "rx_stack rx' = rx_stack rx" "rx_waiting rx' = rx_waiting rx" "rx_runData rx' = rx_runData rx"
  using assms by (cases rx; cases rx'; simp add: same_but_marks_def)+

text \<open>What a piece of the loop over the tries does: at most \<open>k\<close> calls, and only the marks change.\<close>

definition tried :: "nat \<Rightarrow> attempt \<Rightarrow> attempt \<Rightarrow> bool" where
  "tried k a a' \<longleftrightarrow> same_but_marks (at_rx a) (at_rx a') \<and> at_calls a \<le> at_calls a' \<and> at_calls a' \<le> at_calls a + k"

lemma tried_trans: "tried j a a' \<Longrightarrow> tried k a' a'' \<Longrightarrow> j + k \<le> m \<Longrightarrow> tried m a a''"
  by (auto simp: tried_def intro: same_but_marks_trans)

lemma tried_upd [simp]:
  "tried k a (a'\<lparr>at_data := d\<rparr>) = tried k a a'" "tried k (a\<lparr>at_data := d\<rparr>) a' = tried k a a'"
  "tried k a (a'\<lparr>at_hints := h\<rparr>) = tried k a a'" "tried k (a\<lparr>at_hints := h\<rparr>) a' = tried k a a'"
  "tried k a (a'\<lparr>at_error := e\<rparr>) = tried k a a'" "tried k (a\<lparr>at_error := e\<rparr>) a' = tried k a a'"
  by (simp_all add: tried_def)

lemma tried_refl [simp]: "tried k a a"
  by (simp add: tried_def)

lemma tried_note_call: "tried 1 a (note_call oc a)"
  by (simp add: tried_def note_call_def split: option.splits)

lemma tried_fail_attempt: "tried 0 a (fail_attempt name e a)"
  by (simp add: tried_def fail_attempt_def)

lemma tried_finish_attempt: "finish_attempt ex d a = (a', e) \<Longrightarrow> tried 0 a a'"
  unfolding finish_attempt_def Let_def
  by (auto split: sum.splits if_splits simp: tried_def fail_attempt_def)

lemma tried_retry_calls:
  "retry_calls env w mode ex runIndex n hints a = (a', m, h, e) \<Longrightarrow>
   tried (n - m + (if e = None then 0 else 1)) a a' \<and> (e \<noteq> None \<longrightarrow> 0 < m)"
proof (induction n arbitrary: hints a)
  case (Suc n)
  let ?oc = "runNode env w mode (at_calls a) ex (at_rx a) runIndex"
  show ?case
  proof (cases "oc_result ?oc")
    case (Inl err)
    with Suc.prems show ?thesis using tried_note_call [of a ?oc] by (auto simp: Let_def)
  next
    case (Inr d)
    with Suc.prems have r: "retry_calls env w mode ex runIndex n (oc_hints ?oc) (note_call ?oc a) = (a', m, h, e)"
      by (simp add: Let_def)
    note IH = Suc.IH [OF this] and left = retry_calls_left [OF r]
    have "tried (Suc n - m + (if e = None then 0 else 1)) a a'"
      by (rule tried_trans [OF tried_note_call conjunct1 [OF IH]]) (use left in auto)
    with IH show ?thesis by blast
  qed
qed simp

lemma tried_mono: "tried j a a' \<Longrightarrow> j \<le> k \<Longrightarrow> tried k a a'"
  by (auto simp: tried_def)

lemma tried_one_attempt:
  assumes "one_attempt env w mode ex runIndex n a = (a', m, e)"
  shows "tried (1 + (n - m) + (if 0 < m then 1 else 0)) a a'"
proof -
  let ?name = "node_name (ex_node ex)" and ?oc = "runNode env w mode (at_calls a) ex (at_rx a) runIndex"
  let ?a1 = "note_call ?oc a"
  let ?pinned = "case rx_pinData (at_rx a) of None \<Rightarrow> None
    | Some pd \<Rightarrow> if is_disabled (ex_node ex) then None else map_of pd ?name"
  note call = tried_note_call [of a ?oc]
  show ?thesis
  proof (cases ?pinned)
    case (Some items)
    with assms have "finish_attempt ex (Data [Filled items]) (a\<lparr>at_data := Some [Filled items]\<rparr>) = (a', e)"
      by (auto simp: one_attempt_def Let_def split: prod.splits)
    from tried_finish_attempt [OF this] show ?thesis by (auto intro: tried_mono)
  next
    case pinned: None
    show ?thesis
    proof (cases "oc_result ?oc")
      case (Inl err)
      with assms pinned have "a' = fail_attempt ?name err ?a1" "m = n" by (simp_all add: one_attempt_def Let_def)
      with tried_trans [OF call tried_fail_attempt] show ?thesis by simp
    next
      case (Inr d)
      let ?a2 = "?a1\<lparr>at_data := outputs_of d\<rparr>"
      obtain a3 k h err where r: "(if continued_on_fail (outputs_of d)
            then retry_calls env w mode ex runIndex n (oc_hints ?oc) ?a2
            else (?a2, n, oc_hints ?oc, None)) = (a3, k, h, err)" by (metis surj_pair)
      have k: "k \<le> n" using r by (auto split: if_splits dest: retry_calls_left)
      have a3: "tried (1 + (n - k) + (if err = None then 0 else 1)) a a3 \<and> (err \<noteq> None \<longrightarrow> 0 < k)"
      proof (cases "continued_on_fail (outputs_of d)")
        case True
        with r have "retry_calls env w mode ex runIndex n (oc_hints ?oc) ?a2 = (a3, k, h, err)" by simp
        from tried_retry_calls [OF this] have "tried (n - k + (if err = None then 0 else 1)) ?a1 a3"
          "err \<noteq> None \<longrightarrow> 0 < k" by auto
        with tried_trans [OF call this(1)] show ?thesis by simp
      next
        case False
        with r call show ?thesis by auto
      qed
      have m: "m = k \<and> tried 0 a3 a'"
      proof (cases err)
        case (Some x)
        with assms pinned Inr r show ?thesis
          by (auto simp: one_attempt_def Let_def tried_fail_attempt)
      next
        case None
        with assms pinned Inr r show ?thesis
          by (auto simp: one_attempt_def Let_def split: sum.splits prod.splits
              dest!: tried_finish_attempt intro: tried_trans [OF _ tried_fail_attempt, of 0] simp: tried_fail_attempt [THEN tried_trans])
      qed
      show ?thesis by (rule tried_trans [OF conjunct1 [OF a3] conjunct2 [OF m]]) (use m a3 k in auto)
    qed
  qed
qed

lemma tried_try_loop:
  "try_loop env w mode ex runIndex n a = (a', next) \<Longrightarrow> tried (2 * n - 1) a a'"
proof (induction env w mode ex runIndex n a arbitrary: a' "next" rule: try_loop.induct)
  case (2 env w mode ex runIndex n a)
  obtain b m e where o: "one_attempt env w mode ex runIndex n (a\<lparr>at_error := None\<rparr>) = (b, m, e)"
    by (metis surj_pair)
  note b = tried_one_attempt [OF o] and m = one_attempt_left [OF o]
  show ?case
  proof (cases e)
    case Retry
    with 2 o have "tried (2 * m - 1) b a'" by (auto simp: o)
    from tried_trans [OF b this, of "2 * Suc n - 1"] m show ?thesis by (simp split: if_splits)
  qed (use "2.prems" o b m in \<open>auto elim!: tried_mono split: if_splits\<close>)
qed simp

lemma maxTries_bounds: "1 \<le> maxTries node" "maxTries node \<le> 5"
  by (auto simp: maxTries_def split: option.splits)

section \<open>One iteration\<close>

definition engine_of :: "loop_step \<Rightarrow> engine" where
  "engine_of r = (case r of Continue en \<Rightarrow> en | Halt en \<Rightarrow> en | Throw en e \<Rightarrow> en)"

lemma engine_of_simps [simp]: "engine_of (Continue en) = en" "engine_of (Halt en) = en" "engine_of (Throw en e) = en"
  by (simp_all add: engine_of_def)

text \<open>The runs of a node so far.\<close>

abbreviation runs_of :: "IRunExecutionData \<Rightarrow> string \<Rightarrow> ITaskData list" where
  "runs_of rx name \<equiv> or_empty (map_of (rx_runData rx) name)"

definition with_runs :: "string \<Rightarrow> ITaskData list \<Rightarrow> IRunExecutionData \<Rightarrow> IRunExecutionData" where
  "with_runs name tasks rx = rx\<lparr>rx_runData := map_set name (runs_of rx name @ tasks) (rx_runData rx)\<rparr>"

lemma with_runs_simps [simp]:
  "rx_stack (with_runs name tasks rx) = rx_stack rx" "rx_waiting (with_runs name tasks rx) = rx_waiting rx"
  by (simp_all add: with_runs_def)

text \<open>
  How an item that is executed changes the run: the tries leave their marks (\<open>rx1\<close>); then the branch
  ends, or tasks are recorded and the item goes back to the stack, the queues are left alone, or
  the output is handed on. Only an item that goes back stops the loop.
\<close>

inductive executed ::
  "engine_env \<Rightarrow> Workflow \<Rightarrow> IExecuteData \<Rightarrow> nat \<Rightarrow> IRunExecutionData \<Rightarrow> bool \<Rightarrow> IRunExecutionData \<Rightarrow> bool"
  for env w ex runIndex rx where
  ended: "same_but_marks rx rx1 \<Longrightarrow> executed env w ex runIndex rx False rx1"
| recorded: "same_but_marks rx rx1 \<Longrightarrow>
     executed env w ex runIndex rx False (with_runs (node_name (ex_node ex)) tasks rx1)"
| put_back: "same_but_marks rx rx1 \<Longrightarrow> rx2 = with_runs (node_name (ex_node ex)) tasks rx1 \<Longrightarrow>
     executed env w ex runIndex rx True (rx2\<lparr>rx_stack := ex # rx_stack rx2\<rparr>)"
| handed_on: "same_but_marks rx rx1 \<Longrightarrow> rx2 = with_runs (node_name (ex_node ex)) [task] rx1 \<Longrightarrow>
     task_data task = Some [(Main, outs)] \<Longrightarrow>
     add_children env w (node_name (ex_node ex)) outs runIndex rx2 = Inr rx3 \<Longrightarrow>
     release_waiting_nodes env w rx3 = Inr rx' \<Longrightarrow> executed env w ex runIndex rx False rx'"

definition stops :: "loop_step \<Rightarrow> bool" where
  "stops r = (case r of Halt en \<Rightarrow> True | _ \<Rightarrow> False)"

lemma stops_simps [simp]: "\<not> stops (Continue en)" "stops (Halt en)" "\<not> stops (Throw en e)"
  by (simp_all add: stops_def)

lemma push_task_with_runs:
  "push_task name task (rx\<lparr>rx_runData := (if map_has (rx_runData rx) name then rx_runData rx
      else map_set name [] (rx_runData rx))\<rparr>) = with_runs name [task] rx"
  by (cases "map_of (rx_runData rx) name")
    (auto simp: push_task_def with_runs_def map_has_def simp del: map_has_iff)

lemma no_task_with_runs:
  "rx\<lparr>rx_runData := (if map_has (rx_runData rx) name then rx_runData rx
      else map_set name [] (rx_runData rx))\<rparr> = (if map_has (rx_runData rx) name then rx else with_runs name [] rx)"
  by (auto simp: with_runs_def map_has_def map_of_eq_None_iff [symmetric] simp del: map_has_iff)

lemma after_tries_executed:
  assumes "same_but_marks rx (at_rx a)"
  shows "executed env w ex runIndex rx (stops (after_tries env w n ex runIndex a en))
    (en_rx (engine_of (after_tries env w n ex runIndex a en)))"
proof -
  let ?name = "node_name (ex_node ex)"
  define rx0 where "rx0 = (at_rx a)\<lparr>rx_runData := (if map_has (rx_runData (at_rx a)) ?name then rx_runData (at_rx a)
      else map_set ?name [] (rx_runData (at_rx a)))\<rparr>"
  have thrown: "executed env w ex runIndex rx False rx0"
    unfolding rx0_def no_task_with_runs using assms by (auto intro: executed.intros)
  have push: "push_task ?name t rx0 = with_runs ?name [t] (at_rx a)" for t
    unfolding rx0_def by (rule push_task_with_runs)
  have stack: "rx_stack (push_task ?name t rx0) = rx_stack rx0" for t by (simp add: push_task_def)
  have rec: "executed env w ex runIndex rx False (push_task ?name t rx0)" for t
    unfolding push by (rule executed.recorded [OF assms])
  have again: "executed env w ex runIndex rx True ((push_task ?name t rx0)\<lparr>rx_stack := ex # rx_stack rx0\<rparr>)" for t
    unfolding stack [of t, symmetric] push by (rule executed.put_back [OF assms refl])
  have on: "executed env w ex runIndex rx False rx'"
    if "res_bind (add_children env w ?name outs runIndex (push_task ?name (t\<lparr>task_data := Some [(Main, outs)]\<rparr>) rx0))
      (release_waiting_nodes env w) = Inr rx'" for t outs rx'
  proof -
    from that obtain rx3 where "add_children env w ?name outs runIndex
        (with_runs ?name [t\<lparr>task_data := Some [(Main, outs)]\<rparr>] (at_rx a)) = Inr rx3"
      "release_waiting_nodes env w rx3 = Inr rx'" unfolding push by (auto simp: resI)
    then show ?thesis by (rule executed.handed_on [OF assms refl, rotated]) simp
  qed
  note unfold = after_tries_def Let_def rx0_def [symmetric]
  show ?thesis
  proof (cases "at_error a \<noteq> None \<and> \<not> continues_on_error (ex_node ex)")
    case True
    then show ?thesis unfolding unfold by (simp only: if_True simp_thms engine_of_simps) (simp add: again)
  next
    case False
    then have no_stop: "(at_error a \<noteq> None \<and> \<not> continues_on_error (ex_node ex)) = False" by simp
    show ?thesis
    proof (cases "surviving_output ex a")
      case None
      with no_stop show ?thesis unfolding unfold by (auto simp: thrown)
    next
      case out: (Some outs0)
      show ?thesis
      proof (cases "merge_errors outs0")
        case (Inl e)
        with no_stop out show ?thesis unfolding unfold by (auto simp: thrown)
      next
        case (Inr outs)
        let ?t = "(new_task env n ex a)\<lparr>task_data := Some [(Main, outs)]\<rparr>"
        define r where "r = res_bind (add_children env w ?name outs runIndex (push_task ?name ?t rx0)) (release_waiting_nodes env w)"
        have "after_tries env w n ex runIndex a en = (let en1 = en\<lparr>en_rx := at_rx a, en_calls := at_calls a, en_error := at_error a\<rparr>;
            rx1 = push_task ?name ?t rx0 in
          if rx_waitTill rx1 \<noteq> None then Halt (en1\<lparr>en_rx := rx1\<lparr>rx_stack := ex # rx_stack rx1\<rparr>\<rparr>)
          else if rx_destinationNode rx1 = Some ?name \<and> ?name \<noteq> [] then Continue (en1\<lparr>en_rx := rx1\<rparr>)
          else case r of Inl e \<Rightarrow> Throw (en1\<lparr>en_rx := rx1\<rparr>) e | Inr rx2 \<Rightarrow> Continue (en1\<lparr>en_rx := rx2\<rparr>))"
          using no_stop unfolding unfold r_def
          by (simp only: out Inr if_False option.case sum.case)
        then show ?thesis using again [of ?t] rec [of ?t] on [of outs "new_task env n ex a"]
          unfolding r_def [symmetric] stack by (cases r) (auto simp: Let_def stack)
      qed
    qed
  qed
qed

lemma execute_item_executed:
  "executed env w ex (run_count (en_rx en) (node_name (ex_node ex))) (en_rx en)
     (stops (execute_item env w mode n ex en)) (en_rx (engine_of (execute_item env w mode n ex en)))"
proof -
  let ?k = "run_count (en_rx en) (node_name (ex_node ex))"
  obtain a stop where t: "try_loop env w mode ex ?k (maxTries (ex_node ex))
      \<lparr>at_rx = en_rx en, at_calls = en_calls en, at_data = None, at_error = None, at_hints = []\<rparr> = (a, stop)"
    by (metis surj_pair)
  have "same_but_marks (en_rx en) (at_rx a)" using tried_try_loop [OF t] by (simp add: tried_def)
  then show ?thesis using t
    by (cases stop) (auto simp: execute_item_def Let_def intro: executed.ended after_tries_executed)
qed

definition paired_item :: "IExecuteData \<Rightarrow> IExecuteData" where
  "paired_item item = item\<lparr>ex_data := pair_inputs (ex_data item)\<rparr>"

lemma paired_item_node [simp]: "ex_node (paired_item item) = ex_node item"
  by (simp add: paired_item_def)

definition in_filter :: "IRunExecutionData \<Rightarrow> string \<Rightarrow> bool" where
  "in_filter rx name \<longleftrightarrow> (case rx_runNodeFilter rx of None \<Rightarrow> True | Some names \<Rightarrow> name \<in> set names)"

text \<open>How an iteration changes the run: an item is dropped, put back, or executed.\<close>

inductive advanced :: "engine_env \<Rightarrow> Workflow \<Rightarrow> IRunExecutionData \<Rightarrow> bool \<Rightarrow> IRunExecutionData \<Rightarrow> bool"
  for env w rx where
  idle: "advanced env w rx True rx"
| taken: "rx_stack rx = item # rest \<Longrightarrow> advanced env w rx False (rx\<lparr>rx_stack := rest\<rparr>)"
| requeued: "rx_stack rx = item # rest \<Longrightarrow> item_ready w (paired_item item) = Inr False \<Longrightarrow>
     advanced env w rx False (rx\<lparr>rx_stack := rest @ [paired_item item]\<rparr>)"
| run: "rx_stack rx = item # rest \<Longrightarrow> in_filter rx (node_name (ex_node item)) \<Longrightarrow>
     item_ready w (paired_item item) = Inr True \<Longrightarrow>
     executed env w (paired_item item) (run_count rx (node_name (ex_node item))) (rx\<lparr>rx_stack := rest\<rparr>) stop rx' \<Longrightarrow>
     advanced env w rx stop rx'"

lemma iteration_advanced:
  "advanced env w (en_rx en) (stops (iteration env w mode n en)) (en_rx (engine_of (iteration env w mode n en)))"
proof (cases "rx_stack (en_rx en)")
  case Nil
  then show ?thesis by (auto simp: iteration_def intro: advanced.idle)
next
  case (Cons item rest)
  define en1 where "en1 = upd_rx (\<lambda>rx. rx\<lparr>rx_stack := rest\<rparr>) (en\<lparr>en_error := None\<rparr>)"
  have rx1: "en_rx en1 = (en_rx en)\<lparr>rx_stack := rest\<rparr>" by (simp add: en1_def upd_rx_def)
  have count: "run_count (en_rx en1) name = run_count (en_rx en) name" for name
    by (simp add: rx1 run_count_def)
  have filter: "in_filter (en_rx en1) name = in_filter (en_rx en) name" for name
    by (simp add: rx1 in_filter_def)
  have it: "iteration env w mode n en =
     (if ev_canceled env n \<or> en_status en = Canceled then Halt (en\<lparr>en_status := Canceled\<rparr>)
      else let ex = paired_item item; name = node_name (ex_node ex);
          currentTry = execution_try name (run_count (en_rx en1) name)
       in if currentTry = en_lastTry en1 then
            Throw en1 (ApplicationError ''Stopped execution because it seems to be in an endless loop'')
          else if \<not> in_filter (en_rx en1) name then Continue en1
          else case item_ready w ex of
            Inl e \<Rightarrow> Throw en1 e
          | Inr False \<Rightarrow> Continue (upd_rx (\<lambda>rx. rx\<lparr>rx_stack := rx_stack rx @ [ex]\<rparr>) en1\<lparr>en_lastTry := currentTry\<rparr>)
          | Inr True \<Rightarrow> execute_item env w mode n ex en1)"
    unfolding iteration_def Let_def paired_item_def in_filter_def en1_def by (simp only: Cons list.case)
  show ?thesis
  proof (cases "item_ready w (paired_item item)")
    case (Inl e)
    then show ?thesis unfolding it by (auto simp: Let_def rx1 intro: advanced.idle advanced.taken [OF Cons])
  next
    case (Inr b)
    then show ?thesis
      using advanced.taken [OF Cons, of env w] advanced.requeued [OF Cons, of w env]
        advanced.run [OF Cons, of w env] execute_item_executed [of env w "paired_item item" en1 mode n]
      unfolding it by (cases b) (auto simp: Let_def rx1 upd_rx_def filter [unfolded rx1] count [unfolded rx1] intro: advanced.idle)
  qed
qed

section \<open>The loop as a run of steps\<close>

definition engine_step :: "engine_env \<Rightarrow> Workflow \<Rightarrow> ExecutionMode \<Rightarrow> engine \<Rightarrow> nat \<Rightarrow> engine" where
  "engine_step env w mode en n = engine_of (iteration env w mode n en)"

lemma exec_loop_steps:
  "exec_loop fuel env w mode n en = Some r \<Longrightarrow>
   \<exists>k. engine_of r = foldl (engine_step env w mode) en [n..<n + k]"
proof (induction fuel arbitrary: n en)
  case (Suc fuel)
  show ?case
  proof (cases "rx_stack (en_rx en) = []")
    case True
    with Suc.prems have "engine_of r = en" by auto
    then show ?thesis by (intro exI [of _ 0]) simp
  next
    case False
    show ?thesis
    proof (cases "iteration env w mode n en")
      case (Continue en')
      with Suc.prems False have "exec_loop fuel env w mode (Suc n) en' = Some r" by simp
      from Suc.IH [OF this] obtain k where
        "engine_of r = foldl (engine_step env w mode) en' [Suc n..<Suc n + k]" by blast
      moreover have "[n..<n + Suc k] = n # [Suc n..<Suc n + k]" by (simp add: upt_conv_Cons del: upt_Suc)
      moreover from Continue have "engine_step env w mode en n = en'" by (simp add: engine_step_def)
      ultimately show ?thesis by (intro exI [of _ "Suc k"]) (simp del: upt_Suc)
    qed (use Suc.prems False in \<open>auto simp: engine_step_def intro!: exI [of _ 1]\<close>)
  qed
qed simp

end
