(* ===== verification/EngineSamples.thy ===== *)
theory EngineSamples
  imports EngineRun Samples
begin

text \<open>
  Concrete executions: workflows whose nodes are of one type, run in an environment where only the
  code of the nodes is chosen. The theorems about the engine are applied to them.
\<close>

definition code_type :: "string \<Rightarrow> rat \<Rightarrow> INodeType option" where
  "code_type name version = Some \<lparr>nt_name = name, nt_group = [], nt_trigger = False, nt_poll = False, nt_execute = True,
     nt_webhook = False, nt_requiredInputs = None, nt_inputs = 1\<rparr>"

definition engine_workflow :: "INode list \<Rightarrow> IConnections \<Rightarrow> Workflow" where
  "engine_workflow nodes table = \<lparr>wf_nodes = map (\<lambda>n. (node_name n, n)) nodes,
     wf_connectionsBySourceNode = table, wf_connectionsByDestinationNode = getConnectionsByDestination table,
     wf_nodeTypes = code_type, wf_pinData = None, wf_executionOrder = Some ''v1''\<rparr>"

definition to_input :: "string \<Rightarrow> nat \<Rightarrow> IConnection" where
  "to_input name input = \<lparr>ic_node = name, ic_type = Main, ic_index = input\<rparr>"

definition code_env :: "(nat \<Rightarrow> INode \<Rightarrow> INodeExecutionData list \<Rightarrow> node_outcome) \<Rightarrow> engine_env" where
  "code_env code = \<lparr>ev_execute = (\<lambda>call node data items runIndex. code call node items),
     ev_canceled = (\<lambda>n. False), ev_startTime = (\<lambda>n. 0), ev_executionTime = (\<lambda>n. 0),
     ev_issues = (\<lambda>node ty. False), ev_requiredInputs = (\<lambda>node e. None), ev_mainOutputs = (\<lambda>node ty. 1),
     ev_pairedItem = (\<lambda>rx source item. Inr None), ev_sort = (\<lambda>compare xs. xs)\<rparr>"

definition returns :: "INodeExecutionData list \<Rightarrow> node_outcome" where
  "returns items = outcome (Data [Filled items])"

definition fails :: node_outcome where
  "fails = thrown \<lparr>err_name = ''NodeOperationError'', err_message = ''no''\<rparr>"

definition code_node :: "nat \<Rightarrow> string \<Rightarrow> INode" where
  "code_node ref name = sample_node ref name ''code'' False"

text \<open>A node that passes its input on and a node after it.\<close>

definition pair_workflow :: "INode \<Rightarrow> Workflow" where
  "pair_workflow second = engine_workflow [code_node 1 ''T'', second]
     [(''T'', [(Main, [Some [to_input (node_name second) 0]])])]"

end
