(* ===== verification/EngineConservation.thy ===== *)
theory EngineConservation
  imports EngineWaiting EngineSamples "HOL-Library.Multiset"
begin

text \<open>
  An abstract view of the queues of a running execution: the multiset of the data that still has to
  be consumed, each with the node and the input it is for. Handing data over adds exactly that data
  to the multiset; the numbering of waiting entries is the one place where data can be lost.
\<close>

section \<open>Sums over maps\<close>

definition sum_over :: "('k \<Rightarrow> 'v \<Rightarrow> 'a :: comm_monoid_add) \<Rightarrow> ('k, 'v) js_map \<Rightarrow> 'a" where
  "sum_over f m = sum_list (map (\<lambda>(k, v). f k v) m)"

lemma sum_over_simps [simp]: "sum_over f [] = 0" "sum_over f ((k, v) # m) = f k v + sum_over f m"
  by (simp_all add: sum_over_def)

lemma sum_over_set_new: "map_of m k = None \<Longrightarrow> sum_over f (map_set k v m) = sum_over f m + f k v"
  by (induction k v m rule: map_set.induct) (auto simp: ac_simps)

lemma sum_over_set_old: "map_of m k = Some u \<Longrightarrow> sum_over f (map_set k v m) + f k u = sum_over f m + f k v"
proof (induction k v m rule: map_set.induct)
  case (2 k v k' v' m)
  show ?case
  proof (cases "k = k'")
    case False
    with 2 have "sum_over f (map_set k v m) + f k u = sum_over f m + f k v" by auto
    then have "f k' v' + (sum_over f (map_set k v m) + f k u) = f k' v' + (sum_over f m + f k v)" by simp
    with False show ?thesis by (simp add: add.assoc)
  qed (use 2 in \<open>auto simp: ac_simps\<close>)
qed simp

lemma map_delete_absent: "map_of m k = None \<Longrightarrow> map_delete k m = m"
  by (induction m) (auto simp: map_delete_def split: if_splits)

lemma sum_over_delete:
  "distinct (map_keys m) \<Longrightarrow> map_of m k = Some u \<Longrightarrow> sum_over f (map_delete k m) + f k u = sum_over f m"
proof (induction m)
  case (Cons e m)
  obtain j v where e: "e = (j, v)" by fastforce
  show ?case
  proof (cases "j = k")
    case True
    with Cons.prems e have "map_delete k (e # m) = m" "u = v"
      by (auto simp: map_delete_def intro!: filter_True)
    with e True show ?thesis by (simp add: ac_simps)
  next
    case False
    with Cons e have "sum_over f (map_delete k m) + f k u = sum_over f m" by auto
    with False e show ?thesis by (simp add: map_delete_def ac_simps)
  qed
qed simp

section \<open>The data that is held\<close>

text \<open>The data for an input of a node, if there is any: \<open>null\<close> and empty lists carry nothing.\<close>

type_synonym token = "string \<times> nat \<times> INodeExecutionData list"

definition tok :: "string \<Rightarrow> nat \<Rightarrow> INodeExecutionData list slot \<Rightarrow> token multiset" where
  "tok name input data =
     (case data of Filled items \<Rightarrow> (if items = [] then {#} else {#(name, input, items)#}) | _ \<Rightarrow> {#})"

definition arr_tokens :: "string \<Rightarrow> INodeExecutionData list slot list \<Rightarrow> token multiset" where
  "arr_tokens name arr = sum_list (map (\<lambda>i. tok name i (slot_at arr i)) [0..<length arr])"

definition entry_tokens :: "string \<Rightarrow> ITaskDataConnections \<Rightarrow> token multiset" where
  "entry_tokens name entry = arr_tokens name (or_empty (map_of entry Main))"

definition node_tokens :: "string \<Rightarrow> (nat, ITaskDataConnections) js_map \<Rightarrow> token multiset" where
  "node_tokens name entries = sum_over (\<lambda>i. entry_tokens name) entries"

definition item_tokens :: "IExecuteData \<Rightarrow> token multiset" where
  "item_tokens item = entry_tokens (node_name (ex_node item)) (ex_data item)"

definition held :: "IRunExecutionData \<Rightarrow> token multiset" where
  "held rx = sum_list (map item_tokens (rx_stack rx)) + sum_over node_tokens (rx_waiting rx)"

lemma tok_simps [simp]: "tok name i Null = {#}" "tok name i Hole = {#}" "tok name i (Filled []) = {#}"
  by (simp_all add: tok_def)

lemma tok_no_value: "slot_value s = None \<Longrightarrow> tok name i s = {#}"
  by (cases s) auto

lemma arr_tokens_sum:
  assumes "length arr \<le> n"
  shows "arr_tokens name arr = (\<Sum>i < n. tok name i (slot_at arr i))"
proof -
  have "(\<Sum>i < n. tok name i (slot_at arr i)) = (\<Sum>i < length arr. tok name i (slot_at arr i))"
    using assms by (intro sum.mono_neutral_right) (auto simp: slot_at_def)
  then show ?thesis
    by (simp add: arr_tokens_def interv_sum_list_conv_sum_set_nat atLeast0LessThan)
qed

lemma arr_tokens_slot_set:
  "arr_tokens name (slot_set i v arr) + tok name i (slot_at arr i) = arr_tokens name arr + tok name i v"
proof -
  let ?n = "max (length arr) (Suc i)"
  have "arr_tokens name (slot_set i v arr) = (\<Sum>j < ?n. tok name j (if j = i then v else slot_at arr j))"
    by (subst arr_tokens_sum [where n = ?n]) auto
  moreover have "arr_tokens name arr = (\<Sum>j < ?n. tok name j (slot_at arr j))"
    by (rule arr_tokens_sum) simp
  moreover have "sum g {..<?n} = g i + sum g ({..<?n} - {i})" for g :: "nat \<Rightarrow> token multiset"
    by (rule sum.remove) auto
  moreover have "(\<Sum>j \<in> {..<?n} - {i}. tok name j (if j = i then v else slot_at arr j)) =
      (\<Sum>j \<in> {..<?n} - {i}. tok name j (slot_at arr j))" by (rule sum.cong) auto
  ultimately show ?thesis by (simp add: ac_simps)
qed

lemma arr_tokens_replicate [simp]: "arr_tokens name (replicate n Null) = {#}"
  by (auto simp: arr_tokens_sum [OF order_refl] slot_at_def)

lemma arr_tokens_slot_set_new:
  "slot_value (slot_at arr i) = None \<Longrightarrow> arr_tokens name (slot_set i v arr) = arr_tokens name arr + tok name i v"
  using arr_tokens_slot_set [of name i v arr] by (simp add: tok_no_value)

section \<open>Handing data over keeps the data\<close>

definition waiting_maps :: "IRunExecutionData \<Rightarrow> bool" where
  "waiting_maps rx \<longleftrightarrow> distinct (map_keys (rx_waiting rx)) \<and>
     (\<forall>(name, entries) \<in> set (rx_waiting rx). distinct (map_keys entries))"

text \<open>The nodes of a workflow are stored under their names.\<close>

definition named :: "Workflow \<Rightarrow> bool" where
  "named w \<longleftrightarrow> (\<forall>(name, node) \<in> set (wf_nodes w). node_name node = name)"

text \<open>The number a new waiting entry would get is free.\<close>

definition number_free :: "(nat, 'e) js_map \<Rightarrow> bool" where
  "number_free entries \<longleftrightarrow> map_of entries (length entries) = None"

lemma entry_tokens_main: "map_of entry Main = Some arr \<Longrightarrow> entry_tokens name entry = arr_tokens name arr"
  by (simp add: entry_tokens_def)

lemma node_tokens_Nil [simp]: "node_tokens name [] = {#}"
  by (simp add: node_tokens_def)

lemma node_tokens_set:
  "node_tokens name (map_set i entry entries) + (case map_of entries i of None \<Rightarrow> {#} | Some e \<Rightarrow> entry_tokens name e)
   = node_tokens name entries + entry_tokens name entry"
  using sum_over_set_new [of entries i "\<lambda>i. entry_tokens name"] sum_over_set_old [of entries i _ "\<lambda>i. entry_tokens name"]
  by (cases "map_of entries i") (simp_all add: node_tokens_def)

lemma node_tokens_delete:
  "distinct (map_keys entries) \<Longrightarrow>
   node_tokens name (map_delete i entries) + (case map_of entries i of None \<Rightarrow> {#} | Some e \<Rightarrow> entry_tokens name e)
   = node_tokens name entries"
  using sum_over_delete [of entries i _ "\<lambda>i. entry_tokens name"]
  by (cases "map_of entries i") (simp_all add: node_tokens_def map_delete_absent)

lemma waiting_tokens_set:
  "sum_over node_tokens (map_set name e m) + node_tokens name (or_empty (map_of m name))
   = sum_over node_tokens m + node_tokens name e"
  by (cases "map_of m name") (simp_all add: sum_over_set_new sum_over_set_old)

lemma waiting_tokens_delete:
  "distinct (map_keys m) \<Longrightarrow>
   sum_over node_tokens (map_delete name m) + node_tokens name (or_empty (map_of m name)) = sum_over node_tokens m"
  by (cases "map_of m name") (simp_all add: map_delete_absent sum_over_delete)

text \<open>
  What was stored under the number of the chosen entry is the entry itself, or data that a new entry
  overwrites.
\<close>

definition overwritten :: "string \<Rightarrow> (nat, ITaskDataConnections) js_map \<Rightarrow> nat \<Rightarrow> nat \<Rightarrow> token multiset" where
  "overwritten name entries input index =
     (case map_of entries index of
        None \<Rightarrow> {#}
      | Some e \<Rightarrow> if slot_value (slot_at (or_empty (map_of e Main)) input) = None then {#}
                  else entry_tokens name e)"

abbreviation stored :: "string \<Rightarrow> (nat, ITaskDataConnections) js_map \<Rightarrow> nat \<Rightarrow> token multiset" where
  "stored name entries index \<equiv> (case map_of entries index of None \<Rightarrow> {#} | Some e \<Rightarrow> entry_tokens name e)"

lemma entry_for_tokens:
  assumes "entry_for entries input n index arr"
  shows "arr_tokens name (slot_set input data arr) + overwritten name entries input index
    = stored name entries index + tok name input data"
  using assms unfolding entry_for_def
proof (elim disjE exE conjE)
  fix entry
  assume "map_of entries index = Some entry" "map_of entry Main = Some arr" "slot_value (slot_at arr input) = None"
  then show ?thesis by (simp add: overwritten_def entry_tokens_main arr_tokens_slot_set_new)
next
  assume new: "index = length entries" "arr = replicate n Null"
    "\<forall>(i, entry) \<in> set entries. \<exists>arr e. map_of entries i = Some e \<and> map_of e Main = Some arr \<and>
       slot_value (slot_at arr input) \<noteq> None"
  have "overwritten name entries input index = stored name entries index"
  proof (cases "map_of entries index")
    case (Some e)
    with new(3) map_of_SomeD [OF Some] obtain arr where "map_of e Main = Some arr" "slot_value (slot_at arr input) \<noteq> None"
      by auto
    with Some show ?thesis by (auto simp: overwritten_def)
  qed (simp add: overwritten_def)
  moreover have "arr_tokens name (slot_set input data (replicate n Null)) = tok name input data"
    by (subst arr_tokens_slot_set_new) (auto simp: slot_at_def)
  ultimately show ?thesis using new(2) by simp
qed

lemma overwritten_cases:
  assumes "entry_for entries input n index arr"
  shows "overwritten name entries input index \<in> {{#}, stored name entries (length entries)}"
  using assms by (auto simp: entry_for_def overwritten_def split: option.splits)

text \<open>What is held in the waiting data after data was put into the chosen entry, or an entry taken out.\<close>

lemma waiting_put_tokens:
  assumes "entry_for entries input n index arr" "entries = or_empty (map_of m name)"
  shows "sum_over node_tokens (map_set name (map_set index [(Main, slot_set input data arr)] entries) m) +
      overwritten name entries input index = sum_over node_tokens m + tok name input data"
proof -
  let ?e = "map_set index [(Main, slot_set input data arr)] entries"
  have "node_tokens name ?e + stored name entries index
      = node_tokens name entries + arr_tokens name (slot_set input data arr)"
    using node_tokens_set [of name index "[(Main, slot_set input data arr)]" entries]
    by (simp add: entry_tokens_main)
  with entry_for_tokens [OF assms(1), of name data]
  have "(node_tokens name ?e + stored name entries index) +
      (arr_tokens name (slot_set input data arr) + overwritten name entries input index)
    = (node_tokens name entries + arr_tokens name (slot_set input data arr)) +
      (stored name entries index + tok name input data)" by simp
  then have "node_tokens name ?e + overwritten name entries input index = node_tokens name entries + tok name input data"
    by (simp add: ac_simps)
  with waiting_tokens_set [of name ?e m] assms(2)
  have "(sum_over node_tokens (map_set name ?e m) + node_tokens name entries) +
      (node_tokens name ?e + overwritten name entries input index)
    = (sum_over node_tokens m + node_tokens name ?e) + (node_tokens name entries + tok name input data)" by simp
  then show ?thesis by (simp add: ac_simps)
qed

lemma waiting_take_tokens:
  assumes "waiting_maps rx"
    and "m = (if map_delete index (entries_of rx name) = [] then map_delete name (rx_waiting rx)
        else map_set name (map_delete index (entries_of rx name)) (rx_waiting rx))"
  shows "sum_over node_tokens m + stored name (entries_of rx name) index = sum_over node_tokens (rx_waiting rx)"
proof -
  let ?entries = "entries_of rx name"
  have "distinct (map_keys ?entries)" using assms(1)
    by (cases "map_of (rx_waiting rx) name") (auto simp: waiting_maps_def dest: map_of_SomeD)
  note del = node_tokens_delete [OF this, of name index]
  have "distinct (map_keys (rx_waiting rx))" using assms(1) by (simp add: waiting_maps_def)
  note wdel = waiting_tokens_delete [OF this, of name]
  show ?thesis
  proof (cases "map_delete index ?entries = []")
    case True
    with del wdel assms(2) show ?thesis by simp
  next
    case False
    with waiting_tokens_set [of name "map_delete index ?entries" "rx_waiting rx"] assms(2)
    have "sum_over node_tokens m + node_tokens name ?entries
        = sum_over node_tokens (rx_waiting rx) + node_tokens name (map_delete index ?entries)" by simp
    then show ?thesis unfolding del [symmetric] by (simp add: ac_simps)
  qed
qed

text \<open>
  The token of the data handed over is added to what is held; the other side of the equation has
  what was overwritten and, before version 1, the items of forced nodes.
\<close>

lemma handover_held:
  assumes "handover w c n data rx rx'" "waiting_maps rx" "named w"
  shows "\<exists>lost forced. held rx' + lost = held rx + tok (ic_node c) (ic_index c) data + sum_list (map item_tokens forced) \<and>
    lost \<in> {{#}, stored (ic_node c) (entries_of rx (ic_node c)) (length (entries_of rx (ic_node c)))} \<and>
    set forced \<subseteq> set (rx_stack rx') \<and> (\<forall>item \<in> set forced. forced_item item) \<and>
    (\<not> forceInputNodeExecution w \<longrightarrow> forced = [])"
  using assms
proof cases
  case (direct item)
  then have "node_name (ex_node item) = ic_node c" using assms(3) by (auto simp: named_def dest: map_of_SomeD)
  with direct have "item_tokens item = tok (ic_node c) (ic_index c) data"
    by (simp add: item_tokens_def entry_tokens_main arr_tokens_slot_set_new slot_at_def del: replicate_Suc)
  with direct show ?thesis by (intro exI [of _ "{#}"] exI [of _ "[]"]) (auto simp: held_def ac_simps)
next
  case (released index arr item)
  let ?name = "ic_node c" let ?entries = "entries_of rx ?name"
  let ?lost = "overwritten ?name ?entries (ic_index c) index"
  have "node_name (ex_node item) = ?name" using assms(3) released by (auto simp: named_def dest: map_of_SomeD)
  then have "item_tokens item + ?lost = stored ?name ?entries index + tok ?name (ic_index c) data"
    using entry_for_tokens [OF released(2)] released(5) by (simp add: item_tokens_def entry_tokens_main)
  with waiting_take_tokens [OF assms(2) released(7)]
  have "(item_tokens item + ?lost) + (sum_over node_tokens (rx_waiting rx') + stored ?name ?entries index)
      = (stored ?name ?entries index + tok ?name (ic_index c) data) + sum_over node_tokens (rx_waiting rx)" by simp
  then have "held rx' + ?lost = held rx + tok ?name (ic_index c) data"
    by (simp add: held_def released(6) ac_simps)
  with overwritten_cases [OF released(2), of ?name] show ?thesis
    by (intro exI [of _ ?lost] exI [of _ "[]"]) simp
next
  case (kept index arr rx1)
  let ?name = "ic_node c"
  let ?lost = "overwritten ?name (entries_of rx ?name) (ic_index c) index"
  from kept(4) obtain items where items: "rx_stack rx1 = rx_stack rx @ items"
    "\<forall>item \<in> set items. forced_item item" "\<not> forceInputNodeExecution w \<longrightarrow> items = []" by (auto simp: forces_def)
  from waiting_put_tokens [OF kept(2) refl, of data] kept(6) items(1) kept(5)
  have "held rx' + ?lost = held rx + tok ?name (ic_index c) data + sum_list (map item_tokens items)"
    by (simp add: held_def ac_simps)
  with overwritten_cases [OF kept(2), of ?name] items kept(5) show ?thesis
    by (intro exI [of _ ?lost] exI [of _ items]) simp
qed

text \<open>C6: handing the output of a node over adds exactly that data to the multiset of the data that is on its way
  (the data in the items of the stack and in the waiting entries), and copies nothing. Only what is
  stored under the number of a new waiting entry, if that number is in use already, can be lost; while the
  number is free nothing is. Before version 1 the items of nodes that are forced to run come on top. (The
  waiting data has distinct keys and the nodes are stored under their names.)\<close>

theorem addNodeToBeExecuted_conserves:
  assumes "addNodeToBeExecuted w c outputIndex parentNodeName nodeSuccessData runIndex rx = Inr rx'"
    and "waiting_maps rx" "named w"
  shows "\<exists>lost forced.
    held rx' + lost = held rx + tok (ic_node c) (ic_index c) (output_slot nodeSuccessData outputIndex) +
      sum_list (map item_tokens forced) \<and>
    lost \<in> {{#}, stored (ic_node c) (entries_of rx (ic_node c)) (length (entries_of rx (ic_node c)))} \<and>
    (number_free (entries_of rx (ic_node c)) \<longrightarrow> lost = {#}) \<and>
    set forced \<subseteq> set (rx_stack rx') \<and> (\<forall>item \<in> set forced. forced_item item) \<and>
    (\<not> forceInputNodeExecution w \<longrightarrow> forced = [])"
proof -
  from addNodeToBeExecuted_handover [OF assms(1)] obtain n where
    "handover w c n (output_slot nodeSuccessData outputIndex) rx rx'" by blast
  from handover_held [OF this assms(2,3)] obtain lost forced where
    h: "held rx' + lost = held rx + tok (ic_node c) (ic_index c) (output_slot nodeSuccessData outputIndex) +
      sum_list (map item_tokens forced)"
    "lost \<in> {{#}, stored (ic_node c) (entries_of rx (ic_node c)) (length (entries_of rx (ic_node c)))}"
    "set forced \<subseteq> set (rx_stack rx')" "\<forall>item \<in> set forced. forced_item item"
    "\<not> forceInputNodeExecution w \<longrightarrow> forced = []" by blast
  moreover from h(2) have "number_free (entries_of rx (ic_node c)) \<longrightarrow> lost = {#}" by (auto simp: number_free_def)
  ultimately show ?thesis by blast
qed

definition join_workflow :: Workflow where
  "join_workflow = engine_workflow [code_node 1 ''A'', code_node 2 ''B'', code_node 3 ''M'']
     [(''A'', [(Main, [Some [to_input ''M'' 0]])]), (''B'', [(Main, [Some [to_input ''M'' 1]])])]"

lemma addNodeToBeExecuted_conserves_witness:
  "\<exists>rx'. held rx' = held (initial_run None None [] None [] [] []) + {#(''M'', 0, [empty_item])#}"
proof -
  let ?rx = "initial_run None None [] None [] [] []"
  let ?r = "addNodeToBeExecuted join_workflow (to_input ''M'' 0) 0 ''A'' (Some [Filled [empty_item]]) 0 ?rx"
  have "\<not> isl ?r" by code_simp
  then obtain rx' where "?r = Inr rx'" by (cases ?r) simp_all
  from addNodeToBeExecuted_conserves [OF this] have "held rx' = held ?rx + {#(''M'', 0, [empty_item])#}"
    by (auto simp: waiting_maps_def named_def number_free_def initial_run_def join_workflow_def engine_workflow_def
      forceInputNodeExecution_def output_slot_def slot_at_def tok_def to_input_def code_node_def sample_node_def)
  then show ?thesis ..
qed

end
