(* ===== verification/EngineInvariants.thy ===== *)
theory EngineInvariants
  imports EngineSteps EngineConservation "HOL-Library.Sublist"
begin

text \<open>
  Properties of the run that hold at every moment of an execution. The locale states what a
  property has to be kept by (taking an item, recording a run, handing data over, releasing a
  waiting node); its theorem is that the whole loop keeps it then. It is interpreted for the
  invariant of the waiting data, for the run data and its filter, and for the items on the stack.
\<close>

section \<open>Properties kept by the loop\<close>

lemma add_children_step:
  assumes "\<And>rx c n data rx'. Q rx \<Longrightarrow> handover w c n data rx rx' \<Longrightarrow> Q rx'"
    and "add_children env w name outs runIndex rx = Inr rx'" "Q rx"
  shows "Q rx'"
proof -
  have add: "Q v" if "Q u" "addNodeToBeExecuted w c outputIndex name (Some outs) runIndex u = Inr v" for u v c outputIndex
    using addNodeToBeExecuted_handover [OF that(2)] assms(1) [OF that(1)] by blast
  show ?thesis
  proof (cases "forceInputNodeExecution w")
    case True
    with assms(2) have "fold_res (\<lambda>rx (outputIndex, c). res_bind (child_node w c) (\<lambda>node.
          if has_output w outs outputIndex c
          then addNodeToBeExecuted w c outputIndex name (Some outs) runIndex rx else Inr rx))
        rx (child_connections w name) = Inr rx'" by (simp add: add_children_def split_def cong: if_cong)
    then show ?thesis using assms(3)
      by (rule fold_res_invariant) (auto simp: resI intro: add split: prod.splits if_splits)
  next
    case False
    with assms(2) obtain nodesToAdd :: "((int \<times> int) \<times> nat \<times> IConnection) list" where
      "fold_res (\<lambda>rx (position, outputIndex, c). addNodeToBeExecuted w c outputIndex name (Some outs) runIndex rx)
         rx nodesToAdd = Inr rx'"
      by (auto simp: add_children_def Let_def resI)
    then show ?thesis using assms(3)
      by (rule fold_res_invariant) (auto intro: add split: prod.splits)
  qed
qed

lemma release_scan_cases:
  "release_scan env w waitingNodes rx names = Inr r \<Longrightarrow>
   r = Skipped \<or> (\<exists>name \<in> set names. release_node env w waitingNodes rx name = Inr r)"
proof (induction names)
  case (Cons name names)
  then obtain x where "release_node env w waitingNodes rx name = Inr x" by (auto simp: resI)
  with Cons show ?case by (cases x) auto
qed simp

lemma release_loop_step:
  assumes "\<And>rx waitingNodes name rx'. Q rx \<Longrightarrow> release_node env w waitingNodes rx name = Inr (Pushed rx') \<Longrightarrow> Q rx'"
    "\<And>rx waitingNodes name rx'. Q rx \<Longrightarrow> release_node env w waitingNodes rx name = Inr (Dropped rx') \<Longrightarrow> Q rx'"
  shows "release_loop fuel env w rx = Inr rx' \<Longrightarrow> Q rx \<Longrightarrow> Q rx'"
proof (induction fuel arbitrary: rx)
  case (Suc fuel)
  from Suc.prems(1) obtain r where
    r: "release_scan env w (map_keys (rx_waiting rx)) rx (map_keys (rx_waiting rx)) = Inr r"
    by (auto simp: resI)
  with release_scan_cases [OF r] Suc show ?case
    by (cases r) (auto dest: assms)
qed simp

locale run_property =
  fixes env :: engine_env and w :: Workflow
    and Q :: "IRunExecutionData \<Rightarrow> bool" and good :: "IExecuteData \<Rightarrow> bool"
  assumes marks: "Q rx \<Longrightarrow> same_but_marks rx rx' \<Longrightarrow> Q rx'"
    and record_run: "Q rx \<Longrightarrow> in_filter rx name \<Longrightarrow> Q (with_runs name tasks rx)"
    and take: "Q rx \<Longrightarrow> rx_stack rx = item # rest \<Longrightarrow> Q (rx\<lparr>rx_stack := rest\<rparr>) \<and> good (paired_item item)"
    and put: "Q rx \<Longrightarrow> good item \<Longrightarrow> Q (rx\<lparr>rx_stack := item # rx_stack rx\<rparr>) \<and> Q (rx\<lparr>rx_stack := rx_stack rx @ [item]\<rparr>)"
    and hand_over: "Q rx \<Longrightarrow> handover w c n data rx rx' \<Longrightarrow> Q rx'"
    and released: "Q rx \<Longrightarrow> release_node env w waitingNodes rx name = Inr (Pushed rx') \<Longrightarrow> Q rx'"
    and dropped: "Q rx \<Longrightarrow> release_node env w waitingNodes rx name = Inr (Dropped rx') \<Longrightarrow> Q rx'"
begin

lemma executed_kept:
  assumes "executed env w ex runIndex rx stop rx'" "Q rx" "good ex" "in_filter rx (node_name (ex_node ex))"
  shows "Q rx'"
proof -
  have run: "Q (with_runs (node_name (ex_node ex)) tasks rx1)" if "same_but_marks rx rx1" for rx1 tasks
  proof (rule record_run)
    show "Q rx1" using assms(2) that by (rule marks)
    show "in_filter rx1 (node_name (ex_node ex))" using assms(4) that
      by (cases rx; cases rx1) (simp add: in_filter_def same_but_marks_def)
  qed
  from assms(1) show ?thesis
  proof cases
    case ended
    with assms(2) show ?thesis by (blast intro: marks)
  next
    case (recorded rx1 tasks)
    with run show ?thesis by simp
  next
    case (put_back rx1 rx2 tasks)
    with run put assms(3) show ?thesis by blast
  next
    case (handed_on rx1 rx2 task outs rx3)
    have "Q rx3" by (rule add_children_step [OF hand_over handed_on(5)]) (use handed_on run in auto)
    with handed_on(6) show ?thesis
      by (auto simp: release_waiting_nodes_def simp del: release_loop.simps split: if_splits
          intro: release_loop_step [of Q env w, OF released dropped])
  qed
qed

lemma advanced_kept: "advanced env w rx stop rx' \<Longrightarrow> Q rx \<Longrightarrow> Q rx'"
proof (induction rule: advanced.induct)
  case (requeued item rest)
  with take have "Q (rx\<lparr>rx_stack := rest\<rparr>)" "good (paired_item item)" by blast+
  from put [OF this] show ?case by simp
next
  case (run item rest stop rx')
  with take have "Q (rx\<lparr>rx_stack := rest\<rparr>)" "good (paired_item item)" by blast+
  with run show ?case by (auto intro: executed_kept simp: in_filter_def)
qed (use take in blast)+

end

text \<open>A property that the locale describes is an invariant of the loop as a machine.\<close>

sublocale run_property \<subseteq> machine: invariant_machine "engine_step env w mode" "\<lambda>en. Q (en_rx en)" for mode
  by unfold_locales (auto simp: engine_step_def intro: advanced_kept [OF iteration_advanced])

context run_property
begin

lemma exec_loop_kept: "exec_loop fuel env w mode n en = Some r \<Longrightarrow> Q (en_rx en) \<Longrightarrow> Q (en_rx (engine_of r))"
  using exec_loop_steps [of fuel env w mode n en r] machine.run_inv by force

end

section \<open>Releasing a waiting node\<close>

lemma first_run_index_in: "first_run_index entries = Inr i \<Longrightarrow> i \<in> fst ` set entries"
proof -
  assume first: "first_run_index entries = Inr i"
  then obtain k ks where k: "int_keys entries = k # ks" by (auto simp: first_run_index_def split: list.splits)
  have "foldl (\<lambda>a b. if str_less (nat_str b) (nat_str a) then b else a) j js \<in> set (j # js)" for j js
    by (induction js arbitrary: j) (auto split: if_splits)
  from this [of k ks] first k have "i \<in> set (int_keys entries)" by (simp add: first_run_index_def)
  then show ?thesis by simp
qed

text \<open>The entry that is released, and the item made of it.\<close>

inductive releases :: "Workflow \<Rightarrow> string list \<Rightarrow> IRunExecutionData \<Rightarrow> string \<Rightarrow> release \<Rightarrow> bool"
  for w waitingNodes rx name where
  pushed: "map_of (rx_waiting rx) name = Some entries \<Longrightarrow> map_of entries i = Some entry \<Longrightarrow>
     map_of entry Main = Some arr \<Longrightarrow> any_items (map null_to_empty arr) \<Longrightarrow>
     getNode w name = Some (ex_node item) \<Longrightarrow>
     ex_data item = [(Main, pad_inputs n (map null_to_empty arr))] \<Longrightarrow>
     releases w waitingNodes rx name (Pushed (remove_waiting name i (rx\<lparr>rx_stack := rx_stack rx @ [item]\<rparr>)))"
| dropped: "map_of (rx_waiting rx) name = Some entries \<Longrightarrow> map_of entries i = Some entry \<Longrightarrow>
     map_of entry Main = Some arr \<Longrightarrow> \<not> any_items (map null_to_empty arr) \<Longrightarrow>
     releases w waitingNodes rx name (Dropped (remove_waiting name i rx))"
| skipped: "releases w waitingNodes rx name Skipped"

lemma release_node_releases:
  "res_all (releases w waitingNodes rx name) (release_node env w waitingNodes rx name)"
  unfolding release_node_def Let_def
  by (intro resV) (auto simp: waiting_main_def resI intro!: releases.intros)

section \<open>The invariant of the waiting data\<close>

text \<open>Every node that waits has an entry, and every entry still misses the data of an input.\<close>

definition entries_inv :: "(nat, ITaskDataConnections) js_map \<Rightarrow> bool" where
  "entries_inv entries \<longleftrightarrow> distinct (map_keys entries) \<and>
     (\<forall>e \<in> set entries. Null \<in> set (or_empty (map_of (snd e) Main)))"

definition waiting_inv_map :: "IWaitingForExecution \<Rightarrow> bool" where
  "waiting_inv_map m \<longleftrightarrow> distinct (map_keys m) \<and> (\<forall>e \<in> set m. snd e \<noteq> [] \<and> entries_inv (snd e))"

definition waiting_inv :: "IRunExecutionData \<Rightarrow> bool" where
  "waiting_inv rx \<longleftrightarrow> waiting_inv_map (rx_waiting rx)"

lemma waiting_inv_maps: "waiting_inv rx \<Longrightarrow> waiting_maps rx"
  by (auto simp: waiting_inv_def waiting_inv_map_def waiting_maps_def entries_inv_def)

lemma waiting_inv_entries: "waiting_inv_map m \<Longrightarrow> entries_inv (or_empty (map_of m name))"
  by (cases "map_of m name") (auto simp: waiting_inv_map_def entries_inv_def dest: map_of_SomeD)

lemma waiting_inv_map_set:
  "waiting_inv_map m \<Longrightarrow> entries_inv entries \<Longrightarrow> entries \<noteq> [] \<Longrightarrow> waiting_inv_map (map_set name entries m)"
  by (auto simp: waiting_inv_map_def dest!: subsetD [OF set_map_set_subset])

lemma waiting_inv_map_delete: "waiting_inv_map m \<Longrightarrow> waiting_inv_map (map_delete name m)"
  by (auto simp: waiting_inv_map_def)

lemma entries_inv_delete: "entries_inv entries \<Longrightarrow> entries_inv (map_delete i entries)"
  by (auto simp: entries_inv_def)

lemma entries_inv_set:
  "entries_inv entries \<Longrightarrow> Null \<in> set arr \<Longrightarrow> entries_inv (map_set i [(Main, arr)] entries)"
  by (auto simp: entries_inv_def dest!: subsetD [OF set_map_set_subset])

lemmas waiting_inv_intros = waiting_inv_map_set waiting_inv_map_delete entries_inv_delete entries_inv_set
  waiting_inv_entries

lemma handover_waiting_inv: "handover w c n data rx rx' \<Longrightarrow> waiting_inv rx \<Longrightarrow> waiting_inv rx'"
  unfolding waiting_inv_def
  by (induction rule: handover.induct) (simp_all add: waiting_inv_intros)

lemma remove_waiting_inv: "waiting_inv rx \<Longrightarrow> waiting_inv (remove_waiting name i rx)"
  unfolding waiting_inv_def by (simp add: waiting_inv_intros)

lemma release_node_waiting_inv:
  "release_node env w waitingNodes rx name = Inr r \<Longrightarrow> waiting_inv rx \<Longrightarrow>
   case r of Pushed rx' \<Rightarrow> waiting_inv rx' | Dropped rx' \<Rightarrow> waiting_inv rx' | Skipped \<Rightarrow> True"
proof -
  assume "release_node env w waitingNodes rx name = Inr r" "waiting_inv rx"
  from res_allD [OF release_node_releases this(1)] show ?thesis
  proof cases
    case (pushed entries i entry arr item n)
    have "waiting_inv (rx\<lparr>rx_stack := rx_stack rx @ [item]\<rparr>)" using \<open>waiting_inv rx\<close> by (simp add: waiting_inv_def)
    with pushed show ?thesis by (simp add: remove_waiting_inv del: remove_waiting_simps)
  qed (use \<open>waiting_inv rx\<close> in \<open>simp_all add: remove_waiting_inv del: remove_waiting_simps\<close>)
qed

interpretation waiting_property: run_property env w waiting_inv "\<lambda>item. True" for env w
proof unfold_locales
  fix rx rx' assume "waiting_inv rx" "same_but_marks rx rx'"
  then show "waiting_inv rx'" by (cases rx; cases rx') (simp add: waiting_inv_def same_but_marks_def)
qed (simp_all add: waiting_inv_def with_runs_def handover_waiting_inv [unfolded waiting_inv_def]
    release_node_waiting_inv [unfolded waiting_inv_def, where r = "Pushed _", simplified]
    release_node_waiting_inv [unfolded waiting_inv_def, where r = "Dropped _", simplified])

section \<open>The run data and its filter\<close>

text \<open>Runs are only added, and only to nodes of the filter.\<close>

definition runs_within :: "IRunData \<Rightarrow> string list \<Rightarrow> IRunExecutionData \<Rightarrow> bool" where
  "runs_within runData names rx \<longleftrightarrow> rx_runNodeFilter rx = Some names \<and> rx_metadata rx = [] \<and>
     (\<forall>name. prefix (or_empty (map_of runData name)) (runs_of rx name)) \<and>
     (\<forall>name. name \<notin> set names \<longrightarrow> runs_of rx name = or_empty (map_of runData name))"

lemma handover_queues: "handover w c n data rx rx' \<Longrightarrow> same_but_queues rx rx'"
  by (induction rule: handover.induct) simp_all

lemma release_node_queues:
  "release_node env w waitingNodes rx name = Inr r \<Longrightarrow>
   case r of Pushed rx' \<Rightarrow> same_but_queues rx rx' | Dropped rx' \<Rightarrow> same_but_queues rx rx' | Skipped \<Rightarrow> True"
proof -
  assume "release_node env w waitingNodes rx name = Inr r"
  from res_allD [OF release_node_releases this] show ?thesis
    by cases (auto intro: same_but_queues_trans [OF same_but_queues_upd(1) remove_waiting_simps(3)])
qed

lemma runs_within_queues:
  "same_but_queues rx rx' \<Longrightarrow> runs_within runData names rx \<Longrightarrow> runs_within runData names rx'"
  by (simp add: runs_within_def same_but_queues_fields)

interpretation run_data_property: run_property env w "runs_within runData names" "\<lambda>item. True"
  for env w runData names
proof unfold_locales
  fix rx rx' assume "runs_within runData names rx" "same_but_marks rx rx'"
  then show "runs_within runData names rx'"
    by (cases rx; cases rx') (simp add: runs_within_def same_but_marks_def)
next
  fix rx name tasks assume "runs_within runData names rx" "in_filter rx name"
  then show "runs_within runData names (with_runs name tasks rx)"
    by (auto simp: runs_within_def with_runs_def in_filter_def intro: prefix_order.trans)
next
  fix waitingNodes rx name rx'
  assume "runs_within runData names rx" "release_node env w waitingNodes rx name = Inr (Pushed rx')"
  then show "runs_within runData names rx'" using release_node_queues runs_within_queues by fastforce
next
  fix waitingNodes rx name rx'
  assume "runs_within runData names rx" "release_node env w waitingNodes rx name = Inr (Dropped rx')"
  then show "runs_within runData names rx'" using release_node_queues runs_within_queues by fastforce
qed (auto intro: runs_within_queues handover_queues same_but_queues_upd)

text \<open>The error of the run is only set at the end.\<close>

interpretation error_property: run_property env w "\<lambda>rx. rx_error rx = err" "\<lambda>item. True" for env w err
proof unfold_locales
  fix rx rx' assume "rx_error rx = err" "same_but_marks rx rx'"
  then show "rx_error rx' = err" by (cases rx; cases rx') (simp add: same_but_marks_def)
next
  fix waitingNodes rx name rx'
  assume "rx_error rx = err" "release_node env w waitingNodes rx name = Inr (Pushed rx')"
  then show "rx_error rx' = err" using release_node_queues same_but_queues_fields(7) by fastforce
next
  fix waitingNodes rx name rx'
  assume "rx_error rx = err" "release_node env w waitingNodes rx name = Inr (Dropped rx')"
  then show "rx_error rx' = err" using release_node_queues same_but_queues_fields(7) by fastforce
qed (auto simp: with_runs_def dest: handover_queues same_but_queues_fields)

end
