(* ===== verification/EngineResults.thy ===== *)
theory EngineResults
  imports EngineInvariants PartialRun
begin

text \<open>
  Properties of the result of an execution: the invariants of the loop carried through the start and
  the end of \<open>processRunExecutionData\<close>, and what the status of the result says.
\<close>

section \<open>From the loop to the result\<close>

definition start_engine :: "IRunExecutionData \<Rightarrow> engine" where
  "start_engine rx = \<lparr>en_rx = rx, en_calls = 0, en_lastTry = [], en_status = Running, en_error = None\<rparr>"

lemma start_engine_rx [simp]: "en_rx (start_engine rx) = rx"
  by (simp add: start_engine_def)

lemma processRunExecutionData_Inr:
  assumes "processRunExecutionData fuel env w mode rx = Some (Inr r)"
  obtains rx1 res where "resume_waiting rx = Inr rx1"
    "exec_loop fuel env w mode 0 (start_engine rx1) = Some res" "run_result res = Inr r"
  using assms
  by (auto simp: processRunExecutionData_def start_engine_def Let_def split: sum.splits list.splits)

lemma moveNodeMetadata_Inr:
  "moveNodeMetadata rx = Inr rx' \<Longrightarrow> (\<exists>rd. rx' = rx\<lparr>rx_runData := rd\<rparr>) \<and> (rx_metadata rx = [] \<longrightarrow> rx' = rx)"
  by (auto simp: moveNodeMetadata_def resI)

lemma processSuccessExecution_data:
  "processSuccessExecution status rx err = Inr r \<Longrightarrow>
   \<exists>rx1 e. moveNodeMetadata rx = Inr rx1 \<and> run_data r = rx1\<lparr>rx_error := e\<rparr>"
proof -
  assume "processSuccessExecution status rx err = Inr r"
  moreover have "\<exists>e. rx1 = rx1\<lparr>rx_error := e\<rparr>" for rx1 by (rule exI [of _ "rx_error rx1"]) simp
  ultimately show ?thesis
    by (cases err) (auto simp: processSuccessExecution_def resI split: if_splits)
qed

lemma run_result_data:
  assumes "run_result res = Inr r"
  obtains rd e where "run_data r = (en_rx (engine_of res))\<lparr>rx_runData := rd, rx_error := e\<rparr>"
    "rx_metadata (en_rx (engine_of res)) = [] \<Longrightarrow> rd = rx_runData (en_rx (engine_of res))"
proof (cases res)
  case (Continue en)
  with assms show ?thesis by (simp add: run_result_def)
next
  case (Halt en)
  with assms obtain err where "processSuccessExecution (en_status en) (en_rx en) err = Inr r"
    by (auto simp: run_result_def)
  from processSuccessExecution_data [OF this] obtain rx1 e where
    "moveNodeMetadata (en_rx en) = Inr rx1" "run_data r = rx1\<lparr>rx_error := e\<rparr>" by blast
  with moveNodeMetadata_Inr [OF this(1)] Halt show ?thesis
    by (cases "en_rx en") (auto intro: that)
next
  case (Throw en e)
  with assms obtain rx1 where "moveNodeMetadata ((en_rx en)\<lparr>rx_error := Some (caught e)\<rparr>) = Inr rx1" "run_data r = rx1"
    by (auto simp: run_result_def resI)
  with moveNodeMetadata_Inr [OF this(1)] Throw show ?thesis
    by (cases "en_rx en") (auto intro: that)
qed

lemma run_processes:
  assumes "run fuel env w mode startNode destinationNode pinData = Some (Inr r)"
  obtains rx where "processRunExecutionData fuel env w mode rx = Some (Inr r)" "rx_waiting rx = []"
    "rx_waitTill rx = None" "rx_metadata rx = []" "rx_runData rx = []"
    "parents_filter w destinationNode = Inr (rx_runNodeFilter rx)"
  using assms
  by (auto simp: run_def initial_run_def split: sum.splits option.splits)

section \<open>Waiting nodes\<close>

text \<open>C9: when an execution has ended, for whatever reason, every node that still waits misses the data
  of an input: data that was complete was never left in the waiting data.\<close>

theorem waiting_nodes_miss_data:
  assumes "run fuel env w mode startNode destinationNode pinData = Some (Inr r)"
    and "(name, waits) \<in> set (rx_waiting (run_data r))"
  shows "waits \<noteq> [] \<and> (\<forall>(i, entry) \<in> set waits. Null \<in> set (or_empty (map_of entry Main)))"
proof -
  from run_processes [OF assms(1)] obtain rx where
    rx: "processRunExecutionData fuel env w mode rx = Some (Inr r)" "rx_waiting rx = []" "rx_waitTill rx = None" .
  from processRunExecutionData_Inr [OF rx(1)] obtain rx1 res where
    l: "resume_waiting rx = Inr rx1" "exec_loop fuel env w mode 0 (start_engine rx1) = Some res" "run_result res = Inr r" .
  have "waiting_inv rx1" using l(1) rx by (simp add: resume_waiting_def waiting_inv_def waiting_inv_map_def)
  then have "waiting_inv (en_rx (engine_of res))" using waiting_property.exec_loop_kept [OF l(2)] by simp
  moreover have "rx_waiting (run_data r) = rx_waiting (en_rx (engine_of res))"
    using run_result_data [OF l(3)] by (metis (no_types, lifting) IRunExecutionData.select_convs(9)
      IRunExecutionData.surjective IRunExecutionData.update_convs(3,6))
  ultimately show ?thesis using assms(2)
    by (fastforce simp: waiting_inv_def waiting_inv_map_def entries_inv_def)
qed

section \<open>The run filter\<close>

lemma filtered_runs:
  assumes "processRunExecutionData fuel env w mode
      (initial_run destination (Some names) runData pinData stack waiting waitingSource) = Some (Inr r)"
  shows "prefix (or_empty (map_of runData name)) (runs_of (run_data r) name)"
    and "name \<notin> set names \<Longrightarrow> runs_of (run_data r) name = or_empty (map_of runData name)"
proof -
  let ?rx = "initial_run destination (Some names) runData pinData stack waiting waitingSource"
  from processRunExecutionData_Inr [OF assms] obtain rx1 res where
    l: "resume_waiting ?rx = Inr rx1" "exec_loop fuel env w mode 0 (start_engine rx1) = Some res" "run_result res = Inr r" .
  have "runs_within runData names rx1" using l(1)
    by (auto simp: resume_waiting_def initial_run_def runs_within_def)
  then have q: "runs_within runData names (en_rx (engine_of res))"
    using run_data_property.exec_loop_kept [OF l(2)] by simp
  from run_result_data [OF l(3)] obtain rd e where
    "run_data r = (en_rx (engine_of res))\<lparr>rx_runData := rd, rx_error := e\<rparr>"
    "rx_metadata (en_rx (engine_of res)) = [] \<Longrightarrow> rd = rx_runData (en_rx (engine_of res))" by blast
  with q show "prefix (or_empty (map_of runData name)) (runs_of (run_data r) name)"
    "name \<notin> set names \<Longrightarrow> runs_of (run_data r) name = or_empty (map_of runData name)"
    by (auto simp: runs_within_def)
qed

text \<open>C10: a partial execution only runs nodes of the subgraph it has computed: every other node has no
  run in the result, and the runs that were reused are kept as they were, at the front of their list.\<close>

theorem partial_execution_within_subgraph:
  assumes "executePartialWorkflow2 fuel env sort_impl localeCompare add_defaults w mode runData pinData dirty
      destination = Some (Inr r)"
  shows "\<exists>p. runPartialWorkflow2 sort_impl localeCompare w runData pinData dirty destination = Inr p \<and>
    (\<forall>name. name \<notin> set (map_keys (dg_nodes (pr_graph p))) \<union> set (pr_runNodeFilter p) \<longrightarrow>
      runs_of (run_data r) name = []) \<and>
    (\<forall>name. prefix (or_empty (map_of (pr_runData p) name)) (runs_of (run_data r) name))"
proof -
  from assms obtain p w' where p: "runPartialWorkflow2 sort_impl localeCompare w runData pinData dirty destination = Inr p"
    "processRunExecutionData fuel env w' mode (prepared_run p pinData) = Some (Inr r)"
    by (auto simp: executePartialWorkflow2_def resI split: sum.splits)
  note runs = filtered_runs [OF p(2) [unfolded prepared_run_def]]
  have keys: "fst ` set (pr_runData p) \<subseteq> set (map_keys (dg_nodes (pr_graph p)))"
    using runPartialWorkflow2_facts [OF p(1)] by blast
  have "runs_of (run_data r) name = []"
    if "name \<notin> set (map_keys (dg_nodes (pr_graph p))) \<union> set (pr_runNodeFilter p)" for name
  proof -
    from that keys have "map_of (pr_runData p) name = None" by (auto simp: map_of_eq_None_iff)
    with runs(2) [of name] that show ?thesis by simp
  qed
  with p(1) runs(1) show ?thesis by blast
qed

section \<open>Why an execution ends\<close>

text \<open>The item the loop stopped at is back on the stack and its last run is the one that stopped it.\<close>

definition stopped_at :: "engine \<Rightarrow> bool" where
  "stopped_at en \<longleftrightarrow> (\<exists>item rest prev task. rx_stack (en_rx en) = item # rest \<and>
     runs_of (en_rx en) (node_name (ex_node item)) = prev @ [task] \<and> task_error task = en_error en \<and>
     (en_error en \<noteq> None \<and> \<not> continues_on_error (ex_node item) \<or> rx_waitTill (en_rx en) \<noteq> None))"

lemma after_tries_Halt:
  assumes "after_tries env w n ex runIndex a en = Halt en'"
  shows "stopped_at en'"
proof -
  let ?name = "node_name (ex_node ex)"
  define rx0 where "rx0 = (at_rx a)\<lparr>rx_runData := (if map_has (rx_runData (at_rx a)) ?name then rx_runData (at_rx a)
      else map_set ?name [] (rx_runData (at_rx a)))\<rparr>"
  have push: "runs_of (push_task ?name t rx0) ?name = runs_of rx0 ?name @ [t]"
    "rx_waitTill (push_task ?name t rx0) = rx_waitTill rx0" for t by (simp_all add: push_task_def)
  show ?thesis
  proof (cases "at_error a \<noteq> None \<and> \<not> continues_on_error (ex_node ex)")
    case True
    with assms have "en_rx en' = (push_task ?name (new_task env n ex a) rx0)\<lparr>rx_stack := ex # rx_stack rx0\<rparr>"
      "en_error en' = at_error a"
      unfolding after_tries_def Let_def rx0_def [symmetric] by auto
    with True push [of "new_task env n ex a"] show ?thesis by (auto simp: stopped_at_def new_task_def)
  next
    case False
    with assms obtain outs0 outs where "surviving_output ex a = Some outs0" "merge_errors outs0 = Inr outs"
      unfolding after_tries_def Let_def rx0_def [symmetric]
      by (auto split: option.splits sum.splits if_splits)
    with False assms push [of "(new_task env n ex a)\<lparr>task_data := Some [(Main, outs)]\<rparr>"]
    have "rx_waitTill rx0 \<noteq> None" "en_error en' = at_error a"
      "en_rx en' = (push_task ?name ((new_task env n ex a)\<lparr>task_data := Some [(Main, outs)]\<rparr>) rx0)
        \<lparr>rx_stack := ex # rx_stack (push_task ?name ((new_task env n ex a)\<lparr>task_data := Some [(Main, outs)]\<rparr>) rx0)\<rparr>"
      unfolding after_tries_def Let_def rx0_def [symmetric]
      by (auto split: if_splits sum.splits)
    with push [of "(new_task env n ex a)\<lparr>task_data := Some [(Main, outs)]\<rparr>"] show ?thesis
      by (auto simp: stopped_at_def new_task_def)
  qed
qed

lemma iteration_Halt:
  assumes "iteration env w mode n en = Halt en'" "rx_stack (en_rx en) \<noteq> []"
  shows "en_status en' = Canceled \<or> stopped_at en'"
  using assms
  by (auto simp: iteration_def execute_item_def Let_def intro: after_tries_Halt
      split: if_splits list.splits sum.splits bool.splits prod.splits)

lemma iteration_status_exact:
  "en_status (engine_of (iteration env w mode n en)) =
     (if ev_canceled env n then Canceled else en_status en)"
proof -
  have "en_status (engine_of (after_tries env w n ex runIndex a en1)) = en_status en1" for ex runIndex a en1
    by (auto simp: after_tries_def Let_def split: option.split sum.split)
  then have "en_status (engine_of (execute_item env w mode n ex en1)) = en_status en1" for ex en1
    by (auto simp: execute_item_def Let_def split: prod.split bool.split)
  then show ?thesis
    by (auto simp: iteration_def Let_def upd_rx_def split: list.split sum.split bool.split)
qed

lemma iteration_status:
  "en_status (engine_of (iteration env w mode n en)) \<in> {en_status en, Canceled}"
  by (simp add: iteration_status_exact)

lemma exec_loop_Halt:
  "exec_loop fuel env w mode n en = Some (Halt en') \<Longrightarrow>
   rx_stack (en_rx en') = [] \<or> en_status en' = Canceled \<or> stopped_at en'"
proof (induction fuel arbitrary: n en)
  case (Suc fuel)
  then show ?case
    by (cases "iteration env w mode n en") (auto dest: iteration_Halt split: if_splits)
qed simp

lemma iteration_Throw:
  "iteration env w mode n en = Throw en' e \<Longrightarrow> en_status en' \<noteq> Canceled"
  using iteration_status_exact [of env w mode n en] by (auto simp: iteration_def split: if_splits)

lemma exec_loop_Throw: "exec_loop fuel env w mode n en = Some (Throw en' e) \<Longrightarrow> en_status en' \<noteq> Canceled"
proof (induction fuel arbitrary: n en)
  case (Suc fuel)
  then show ?case
    by (cases "iteration env w mode n en") (auto dest: iteration_Throw split: if_splits)
qed simp

lemma exec_loop_canceled:
  "exec_loop fuel env w mode n en = Some (Halt en') \<Longrightarrow> en_status en' = Canceled \<Longrightarrow> en_status en \<noteq> Canceled \<Longrightarrow>
   \<exists>m \<ge> n. ev_canceled env m"
proof (induction fuel arbitrary: n en)
  case (Suc fuel)
  show ?case
  proof (cases "ev_canceled env n")
    case False
    with Suc.prems(3) have status: "en_status (engine_of (iteration env w mode n en)) \<noteq> Canceled"
      by (simp add: iteration_status_exact)
    then obtain en1 where "iteration env w mode n en = Continue en1" "en_status en1 \<noteq> Canceled"
      using Suc.prems by (cases "iteration env w mode n en") (auto split: if_splits)
    with Suc.prems have "\<exists>m \<ge> Suc n. ev_canceled env m"
      by (intro Suc.IH [of "Suc n" en1]) (auto split: if_splits)
    then show ?thesis by (meson Suc_leD)
  qed blast
qed simp

lemma exec_loop_not_Continue: "exec_loop fuel env w mode n en \<noteq> Some (Continue en')"
  by (induction fuel arbitrary: n en) (auto split: loop_step.splits)

text \<open>C7: an execution loop that ends does so in one of four ways: the stack is empty; the execution was cancelled
  while it ran; an error was thrown, which does not cancel it; or it stopped at an item, which is then
  back on top of the stack so that it can be executed again, and whose last recorded run has the error
  that stopped it (which the node was not to ignore) or belongs to a node that waits.\<close>

theorem loop_stops_at_item:
  "case exec_loop fuel env w mode n en of
     None \<Rightarrow> True
   | Some (Continue en') \<Rightarrow> False
   | Some (Throw en' e) \<Rightarrow> en_status en' \<noteq> Canceled
   | Some (Halt en') \<Rightarrow>
       rx_stack (en_rx en') = [] \<or>
       en_status en' = Canceled \<and> (en_status en = Canceled \<or> (\<exists>m \<ge> n. ev_canceled env m)) \<or>
       (\<exists>item rest prev task. rx_stack (en_rx en') = item # rest \<and>
          map_of (rx_runData (en_rx en')) (node_name (ex_node item)) = Some (prev @ [task]) \<and>
          task_error task = en_error en' \<and>
          (en_error en' \<noteq> None \<and> \<not> continues_on_error (ex_node item) \<or> rx_waitTill (en_rx en') \<noteq> None))"
proof (cases "exec_loop fuel env w mode n en")
  case (Some r)
  show ?thesis
  proof (cases r)
    case (Halt en')
    note l = Some [unfolded Halt]
    have "\<exists>item rest prev task. rx_stack (en_rx en') = item # rest \<and>
        map_of (rx_runData (en_rx en')) (node_name (ex_node item)) = Some (prev @ [task]) \<and>
        task_error task = en_error en' \<and>
        (en_error en' \<noteq> None \<and> \<not> continues_on_error (ex_node item) \<or> rx_waitTill (en_rx en') \<noteq> None)"
      if "stopped_at en'"
    proof -
      from that obtain item rest prev task where
        s: "rx_stack (en_rx en') = item # rest" "runs_of (en_rx en') (node_name (ex_node item)) = prev @ [task]"
        "task_error task = en_error en'"
        "en_error en' \<noteq> None \<and> \<not> continues_on_error (ex_node item) \<or> rx_waitTill (en_rx en') \<noteq> None"
        by (auto simp: stopped_at_def)
      then have "map_of (rx_runData (en_rx en')) (node_name (ex_node item)) = Some (prev @ [task])"
        by (cases "map_of (rx_runData (en_rx en')) (node_name (ex_node item))") auto
      with s show ?thesis by blast
    qed
    with exec_loop_Halt [OF l] exec_loop_canceled [OF l] show ?thesis
      by (simp only: l option.case loop_step.case) blast
  next
    case (Throw en' e)
    with Some exec_loop_Throw show ?thesis by simp
  next
    case (Continue en')
    with Some exec_loop_not_Continue show ?thesis by simp
  qed
qed simp

section \<open>The status of a result\<close>

interpretation status_machine: invariant_machine "engine_step env w mode" "\<lambda>en :: engine. en_status en \<in> {Running, Canceled}"
  for env w mode
proof unfold_locales
  fix en :: engine and n assume "en_status en \<in> {Running, Canceled}"
  with iteration_status [of env w mode n en] show "en_status (engine_step env w mode en n) \<in> {Running, Canceled}"
    by (auto simp: engine_step_def)
qed

lemma loop_status:
  assumes "exec_loop fuel env w mode 0 (start_engine rx) = Some res"
  shows "en_status (engine_of res) \<in> {Running, Canceled}"
  using exec_loop_steps [OF assms] status_machine.run_inv [of "start_engine rx"]
  by (force simp: start_engine_def)

lemma processSuccessExecution_cases:
  assumes "processSuccessExecution status rx err = Inr r"
  shows "case err of
      Some e \<Rightarrow> \<not> run_finished r \<and> run_status r \<in> {status, Canceled} \<and> run_waitTill r = None \<and>
        rx_error (run_data r) = Some e
    | None \<Rightarrow> rx_error (run_data r) = rx_error rx \<and> rx_waitTill (run_data r) = rx_waitTill rx \<and>
        rx_stack (run_data r) = rx_stack rx \<and>
        (if rx_waitTill rx = None then run_finished r \<and> run_status r = Success \<and> run_waitTill r = None
         else \<not> run_finished r \<and> run_status r = Waiting \<and> run_waitTill r = rx_waitTill rx)"
  using assms
  by (auto simp: processSuccessExecution_def resI dest!: moveNodeMetadata_Inr split: option.split if_splits)

text \<open>C8: the status of a result is exact: an execution is stored as successful if and only if it is
  marked as finished, which means that the stack is empty, nothing is waited for and no error is
  reported; it is stored as waiting if and only if the result says until when.\<close>

theorem execution_status_exact:
  assumes "processRunExecutionData fuel env w mode rx = Some (Inr r)" "rx_error rx = None"
  shows "(determineFinalExecutionStatus r = Success \<longleftrightarrow> run_finished r) \<and>
    (run_finished r \<longrightarrow> run_status r = Success \<and> rx_stack (run_data r) = [] \<and>
       rx_waitTill (run_data r) = None \<and> rx_error (run_data r) = None) \<and>
    (determineFinalExecutionStatus r = Waiting \<longleftrightarrow> run_status r = Waiting) \<and>
    (run_status r = Waiting \<longrightarrow> run_waitTill r = rx_waitTill (run_data r) \<and> run_waitTill r \<noteq> None)"
proof -
  from processRunExecutionData_Inr [OF assms(1)] obtain rx1 res where
    l: "resume_waiting rx = Inr rx1" "exec_loop fuel env w mode 0 (start_engine rx1) = Some res" "run_result res = Inr r" .
  have "rx_error rx1 = None" using l(1) assms(2)
    by (auto simp: resume_waiting_def resI split: if_splits list.splits option.splits)
  then have error: "rx_error (en_rx (engine_of res)) = None" using error_property.exec_loop_kept [OF l(2)] by simp
  note status = loop_status [OF l(2)]
  show ?thesis
  proof (cases res)
    case (Continue en)
    with l(3) show ?thesis by (simp add: run_result_def)
  next
    case (Throw en e)
    with l(3) status show ?thesis
      by (auto simp: run_result_def resI determineFinalExecutionStatus_def Let_def dest!: moveNodeMetadata_Inr)
  next
    case (Halt en)
    let ?err = "if en_status en = Canceled \<and> en_error en = None then Some ExecutionCancelledError else en_error en"
    from l(3) Halt have "processSuccessExecution (en_status en) (en_rx en) ?err = Inr r" by (simp add: run_result_def)
    note c = processSuccessExecution_cases [OF this]
    show ?thesis
    proof (cases ?err)
      case None
      with exec_loop_Halt [OF l(2) [unfolded Halt]] have "rx_waitTill (en_rx en) = None \<longrightarrow> rx_stack (en_rx en) = []"
        by (auto simp: stopped_at_def split: if_splits)
      with c None error Halt show ?thesis
        by (cases "rx_waitTill (en_rx en)") (auto simp: determineFinalExecutionStatus_def)
    next
      case (Some e)
      with c status Halt show ?thesis by (auto simp: determineFinalExecutionStatus_def)
    qed
  qed
qed

end
