(* ===== verification/EngineTermination.thy ===== *)
theory EngineTermination
  imports EngineInvariants WorkflowFacts
begin

text \<open>
  Termination. The release of waiting nodes ends because it removes an entry each time it starts
  over. The execution loop ends, in version 1 of the order, on every workflow without cycles of main
  connections: each item on the stack stands for all the runs it can cause, and an iteration
  replaces it by items that stand for fewer.
\<close>

section \<open>Releasing waiting nodes\<close>

lemma fuelled_get_key [resF]: "fuelled (get_key m k)"
  unfolding get_key_def by (intro resF)

lemma fuelled_getParentNodes [resF]: "fuelled (getParentNodes w n f depth)"
proof -
  obtain ns where "getConnectedNodes (wf_connectionsByDestinationNode w) n f depth = Inr ns"
    using getConnectedNodes_reach by blast
  then show ?thesis by (simp add: getParentNodes_def)
qed

lemma fuelled_release_node: "fuelled (release_node env w waitingNodes rx nodeName)"
  unfolding release_node_def required_of_def first_run_index_def waiting_main_def Let_def
  by (intro resF)

lemma fuelled_release_scan: "fuelled (release_scan env w waitingNodes rx names)"
  by (induction names) (auto intro!: resF fuelled_release_node split: release.split)

definition entry_count :: "IWaitingForExecution \<Rightarrow> nat" where
  "entry_count m = sum_over (\<lambda>name. length) m"

lemma waiting_entries_count: "waiting_entries rx = entry_count (rx_waiting rx)"
  by (simp add: waiting_entries_def entry_count_def sum_over_def)

lemma entry_count_delete: "map_of m name = Some e \<Longrightarrow> entry_count (map_delete name m) + length e \<le> entry_count m"
proof -
  have "entry_count (map_delete name m) \<le> entry_count m" for m
    unfolding entry_count_def by (induction m) (auto simp: map_delete_def le_SucI trans_le_add2)
  then show "map_of m name = Some e \<Longrightarrow> entry_count (map_delete name m) + length e \<le> entry_count m"
    by (induction m) (auto simp: entry_count_def map_delete_def)
qed

lemma dropped_fewer:
  assumes "release_node env w waitingNodes rx name = Inr (Dropped rx')"
  shows "waiting_entries rx' < waiting_entries rx"
  using res_allD [OF release_node_releases assms]
proof cases
  case (dropped entries i entry arr)
  have fewer: "length (map_delete i entries) < length entries"
    by (rule length_map_delete(2)) (use dropped(3) in \<open>force dest: map_of_SomeD\<close>)
  show ?thesis
  proof (cases "map_delete i entries = []")
    case True
    from entry_count_delete [OF dropped(2)] fewer
    have "entry_count (map_delete name (rx_waiting rx)) < entry_count (rx_waiting rx)" by linarith
    with True dropped(1,2) show ?thesis by (simp add: waiting_entries_count)
  next
    case False
    with sum_over_set_old [OF dropped(2), of "\<lambda>name. length" "map_delete i entries"] fewer dropped(1,2)
    show ?thesis by (simp add: waiting_entries_count entry_count_def)
  qed
qed

lemma release_loop_fuelled: "waiting_entries rx < fuel \<Longrightarrow> fuelled (release_loop fuel env w rx)"
proof (induction fuel arbitrary: rx)
  case (Suc fuel)
  show ?case
  proof (cases "release_scan env w (map_keys (rx_waiting rx)) rx (map_keys (rx_waiting rx))")
    case (Inl e)
    with fuelled_release_scan show ?thesis by (metis fuelled_def release_loop.simps(2) res_bind_simps(1))
  next
    case (Inr r)
    show ?thesis
    proof (cases r)
      case (Dropped rx')
      with release_scan_cases [OF Inr] have "waiting_entries rx' < waiting_entries rx"
        by (auto dest: dropped_fewer)
      with Suc Inr Dropped show ?thesis by simp
    qed (use Inr in simp_all)
  qed
qed simp

text \<open>The search for a waiting node that can be executed with what it has got ends: it starts over only
  after it has removed a waiting entry, so as many rounds as there are entries, and one more, are
  enough.\<close>

theorem release_waiting_nodes_ends:
  "release_waiting_nodes env w rx \<noteq> Inl OutOfFuel"
  using release_loop_fuelled [of rx "Suc (waiting_entries rx)" env w]
  by (auto simp: release_waiting_nodes_def fuelled_def simp del: release_loop.simps)

section \<open>The nodes that follow\<close>

lemma add_children_v1:
  assumes "add_children env w name outs runIndex rx = Inr rx'" "\<not> forceInputNodeExecution w"
    and sort: "\<And>f xs. mset (ev_sort env f xs) = mset xs"
  obtains nodes :: "((int \<times> int) \<times> nat \<times> IConnection) list" where
    "fold_res (\<lambda>rx (position, outputIndex, c). addNodeToBeExecuted w c outputIndex name (Some outs) runIndex rx)
       rx nodes = Inr rx'"
    "mset (map snd nodes) = mset (filter (\<lambda>(outputIndex, c). has_output w outs outputIndex c) (child_connections w name))"
proof -
  let ?step = "\<lambda>nodesToAdd (outputIndex, c). res_bind (child_node w c) (\<lambda>node.
     Inr (if has_output w outs outputIndex c then nodesToAdd @ [(node_position node, outputIndex, c)] else nodesToAdd))"
  let ?has = "\<lambda>(outputIndex, c). has_output w outs outputIndex c"
  from assms(1,2) obtain nodes0 :: "((int \<times> int) \<times> nat \<times> IConnection) list" where
    n: "fold_res ?step [] (child_connections w name) = Inr nodes0"
    "fold_res (\<lambda>rx (position, outputIndex, c). addNodeToBeExecuted w c outputIndex name (Some outs) runIndex rx)
       rx (ev_sort env top_left_last nodes0) = Inr rx'"
    by (auto simp: add_children_def Let_def resI)
  have "map snd nodes0 = map snd acc @ filter ?has cs" if "fold_res ?step acc cs = Inr nodes0" for acc cs
    using that by (induction cs arbitrary: acc) (auto simp: resI split: prod.splits if_splits)
  from this [OF n(1)] have "mset (map snd (ev_sort env top_left_last nodes0)) = mset (filter ?has (child_connections w name))"
    using sort by (metis append_Nil list.map(1) mset_map)
  with n(2) show ?thesis by (rule that)
qed

section \<open>Weights\<close>

text \<open>
  How many items the execution of a node can cause at most, itself included, when every path of
  connections from it is shorter than the fuel.
\<close>

fun weight :: "Workflow \<Rightarrow> nat \<Rightarrow> string \<Rightarrow> nat" where
  "weight w 0 name = 1"
| "weight w (Suc k) name = 1 + sum_list (map (\<lambda>(outputIndex, c). weight w k (ic_node c)) (child_connections w name))"

lemma weight_mono: "j \<le> k \<Longrightarrow> weight w j name \<le> weight w k name"
proof (induction k arbitrary: j name)
  case (Suc k)
  show ?case
  proof (cases j)
    case (Suc i)
    with Suc.prems Suc.IH [of i] show ?thesis
      by (auto intro!: sum_list_mono split: prod.splits)
  qed simp
qed simp

text \<open>No cycles of main connections: every connection leads to a node of a lower rank.\<close>

definition ranked :: "Workflow \<Rightarrow> (string \<Rightarrow> nat) \<Rightarrow> bool" where
  "ranked w rank \<longleftrightarrow>
     (\<forall>name. \<forall>(outputIndex, c) \<in> set (child_connections w name). rank (ic_node c) < rank name)"

abbreviation cost :: "Workflow \<Rightarrow> (string \<Rightarrow> nat) \<Rightarrow> string \<Rightarrow> nat" where
  "cost w rank name \<equiv> weight w (rank name) name"

lemma cost_positive: "0 < cost w rank name"
  by (cases "rank name") auto

lemma cost_children:
  assumes "ranked w rank"
  shows "sum_list (map (\<lambda>(outputIndex, c). cost w rank (ic_node c)) (child_connections w name)) < cost w rank name"
proof (cases "rank name")
  case 0
  then have "child_connections w name = []" using assms
    unfolding ranked_def by (metis (mono_tags, lifting) list.set_intros(1) not_less0 neq_Nil_conv split_conv surj_pair)
  then show ?thesis by (simp add: cost_positive)
next
  case (Suc k)
  have "sum_list (map (\<lambda>(outputIndex, c). cost w rank (ic_node c)) (child_connections w name))
      \<le> sum_list (map (\<lambda>(outputIndex, c). weight w k (ic_node c)) (child_connections w name))"
    using assms Suc unfolding ranked_def
    by (intro sum_list_mono) (fastforce intro: weight_mono)
  then show ?thesis using Suc by simp
qed

section \<open>The measure\<close>

definition token_cost :: "Workflow \<Rightarrow> (string \<Rightarrow> nat) \<Rightarrow> token multiset \<Rightarrow> nat" where
  "token_cost w rank ts = (\<Sum>(name, input, items) \<in># ts. cost w rank name)"

definition item_cost :: "Workflow \<Rightarrow> (string \<Rightarrow> nat) \<Rightarrow> IExecuteData \<Rightarrow> nat" where
  "item_cost w rank item = cost w rank (node_name (ex_node item))"

definition run_cost :: "Workflow \<Rightarrow> (string \<Rightarrow> nat) \<Rightarrow> IRunExecutionData \<Rightarrow> nat" where
  "run_cost w rank rx = sum_list (map (item_cost w rank) (rx_stack rx)) +
     token_cost w rank (sum_over node_tokens (rx_waiting rx))"

lemma token_cost_add [simp]: "token_cost w rank (a + b) = token_cost w rank a + token_cost w rank b"
  by (simp add: token_cost_def)

lemma token_cost_tok: "token_cost w rank (tok name input data) \<le> cost w rank name"
  by (cases data) (auto simp: token_cost_def tok_def)

lemma token_cost_le: "a + b = c + d \<Longrightarrow> token_cost w rank a \<le> token_cost w rank c + token_cost w rank d"
  by (metis le_add1 token_cost_add)

lemma handover_cost:
  assumes "handover w c n data rx rx'" "waiting_maps rx" "named w" "\<not> forceInputNodeExecution w"
  shows "run_cost w rank rx' \<le> run_cost w rank rx + cost w rank (ic_node c)"
  using assms
proof cases
  case (direct item)
  then have "node_name (ex_node item) = ic_node c" using assms(3) by (auto simp: named_def dest: map_of_SomeD)
  with direct assms(4) show ?thesis by (simp add: run_cost_def item_cost_def)
next
  case (released index arr item)
  then have "node_name (ex_node item) = ic_node c" using assms(3) by (auto simp: named_def dest: map_of_SomeD)
  moreover have "token_cost w rank (sum_over node_tokens (rx_waiting rx')) \<le> token_cost w rank (sum_over node_tokens (rx_waiting rx))"
    using token_cost_le [of _ _ _ "{#}"] waiting_take_tokens [OF assms(2) released(7)] by (fastforce simp: token_cost_def)
  ultimately show ?thesis using released(6) assms(4) by (simp add: run_cost_def item_cost_def)
next
  case (kept index arr rx1)
  from kept(4) assms(4) have "rx_stack rx1 = rx_stack rx" by (auto simp: forces_def)
  moreover have "token_cost w rank (sum_over node_tokens (rx_waiting rx'))
      \<le> token_cost w rank (sum_over node_tokens (rx_waiting rx)) + cost w rank (ic_node c)"
    unfolding kept(6)
    by (rule order_trans [OF token_cost_le [OF waiting_put_tokens [OF kept(2) refl]]]) (simp add: token_cost_tok)
  ultimately show ?thesis using kept(5) by (simp add: run_cost_def)
qed

lemma any_items_tokens:
  assumes "any_items (map null_to_empty arr)"
  shows "arr_tokens name arr \<noteq> {#}" "set_mset (arr_tokens name arr) \<subseteq> {t. fst t = name}"
proof -
  from assms obtain s items where s: "s \<in> set arr" "slot_value (null_to_empty s) = Some items" "items \<noteq> []"
    by (auto simp: any_items_def)
  from s(2,3) have "s = Filled items" by (cases s) (auto simp: null_to_empty_def)
  with s(1) obtain i where i: "i < length arr" "arr ! i = Filled items" by (auto simp: in_set_conv_nth)
  have "tok name i (slot_at arr i) \<noteq> {#}" using i s(3) by (simp add: slot_at_def tok_def)
  then show "arr_tokens name arr \<noteq> {#}"
    using i(1) by (auto simp: arr_tokens_sum [OF order_refl] sum_eq_empty_iff)
  show "set_mset (arr_tokens name arr) \<subseteq> {t. fst t = name}"
    by (auto simp: arr_tokens_sum [OF order_refl] set_mset_sum tok_def split: slot.splits if_splits)
qed

lemma release_node_cost:
  assumes "release_node env w waitingNodes rx name = Inr r" "waiting_maps rx" "named w"
  shows "case r of Pushed rx' \<Rightarrow> run_cost w rank rx' \<le> run_cost w rank rx
    | Dropped rx' \<Rightarrow> run_cost w rank rx' \<le> run_cost w rank rx | Skipped \<Rightarrow> True"
  using res_allD [OF release_node_releases assms(1)]
proof cases
  case (pushed entries i entry arr item n)
  let ?rx = "rx\<lparr>rx_stack := rx_stack rx @ [item]\<rparr>" and ?rx' = "remove_waiting name i (rx\<lparr>rx_stack := rx_stack rx @ [item]\<rparr>)"
  have name: "node_name (ex_node item) = name" using pushed(6) assms(3)
    by (auto simp: named_def getNode_def dest: map_of_SomeD)
  have stored: "stored name (entries_of rx name) i = arr_tokens name arr" using pushed by (simp add: entry_tokens_main)
  from any_items_tokens [OF pushed(5)] obtain t where t: "t \<in># arr_tokens name arr" "fst t = name" by fastforce
  then obtain ts where "arr_tokens name arr = add_mset t ts" by (meson mset_add)
  with t(2) have "cost w rank name \<le> token_cost w rank (arr_tokens name arr)"
    by (cases t) (simp add: token_cost_def)
  moreover have "token_cost w rank (sum_over node_tokens (rx_waiting ?rx')) + token_cost w rank (arr_tokens name arr)
      = token_cost w rank (sum_over node_tokens (rx_waiting rx))"
  proof -
    have "rx_waiting ?rx' = (if map_delete i (entries_of rx name) = [] then map_delete name (rx_waiting rx)
        else map_set name (map_delete i (entries_of rx name)) (rx_waiting rx))" by simp
    from waiting_take_tokens [OF assms(2) this] show ?thesis unfolding stored by (metis token_cost_add)
  qed
  ultimately show ?thesis using pushed(1) name by (simp add: run_cost_def item_cost_def del: remove_waiting_simps(2))
next
  case (dropped entries i entry arr)
  have "token_cost w rank (sum_over node_tokens (rx_waiting (remove_waiting name i rx)))
      \<le> token_cost w rank (sum_over node_tokens (rx_waiting rx))"
    by (metis le_add1 token_cost_add waiting_take_tokens [OF assms(2) remove_waiting_simps(2)])
  with dropped(1) show ?thesis by (simp add: run_cost_def del: remove_waiting_simps(2))
qed simp

section \<open>An iteration lowers the measure\<close>

definition has_main :: "IExecuteData \<Rightarrow> bool" where
  "has_main item \<longleftrightarrow> map_of (ex_data item) Main \<noteq> None"

definition stack_main :: "IRunExecutionData \<Rightarrow> bool" where
  "stack_main rx \<longleftrightarrow> (\<forall>item \<in> set (rx_stack rx). has_main item)"

lemma has_main_paired: "has_main item \<Longrightarrow> has_main (paired_item item)"
proof -
  have "map_of (pair_inputs m) k \<noteq> None" if "map_of m k \<noteq> None" for m k
    using that by (induction m) (auto simp: pair_inputs_def)
  then show "has_main item \<Longrightarrow> has_main (paired_item item)" by (simp add: has_main_def paired_item_def)
qed

lemma handover_stack_main: "handover w c n data rx rx' \<Longrightarrow> stack_main rx \<Longrightarrow> stack_main rx'"
proof (induction rule: handover.induct)
  case (kept index arr rx1 rx')
  then show ?case by (auto simp: stack_main_def forces_def forced_item_def has_main_def)
qed (auto simp: stack_main_def has_main_def)

lemma release_node_stack_main:
  "release_node env w waitingNodes rx name = Inr r \<Longrightarrow> stack_main rx \<Longrightarrow>
   case r of Pushed rx' \<Rightarrow> stack_main rx' | Dropped rx' \<Rightarrow> stack_main rx' | Skipped \<Rightarrow> True"
  using res_allD [OF release_node_releases, of env w waitingNodes rx name r]
  by (auto simp: stack_main_def has_main_def elim!: releases.cases)

interpretation stack_property: run_property env w stack_main has_main for env w
proof unfold_locales
  fix rx rx' assume "stack_main rx" "same_but_marks rx rx'"
  then show "stack_main rx'" by (cases rx; cases rx') (simp add: stack_main_def same_but_marks_def)
next
  fix waitingNodes rx name rx'
  assume "stack_main rx" "release_node env w waitingNodes rx name = Inr (Pushed rx')"
  then show "stack_main rx'" using release_node_stack_main by fastforce
next
  fix waitingNodes rx name rx'
  assume "stack_main rx" "release_node env w waitingNodes rx name = Inr (Dropped rx')"
  then show "stack_main rx'" using release_node_stack_main by fastforce
qed (auto simp: stack_main_def with_runs_def has_main_paired intro: handover_stack_main [unfolded stack_main_def, rule_format])

lemma item_ready_v1:
  assumes "\<not> forceInputNodeExecution w" "has_main item"
  shows "item_ready w item \<noteq> Inr False"
proof -
  have "inputs_ready w name (ex_data item) is \<noteq> Inr False" for name "is"
    using assms by (induction "is") (auto simp: resI has_main_def split: if_splits)
  then show ?thesis by (auto simp: item_ready_def Let_def split: option.splits)
qed

lemma add_loop_cost:
  fixes nodes :: "((int \<times> int) \<times> nat \<times> IConnection) list"
  assumes "named w" "\<not> forceInputNodeExecution w"
  shows "fold_res (\<lambda>rx (position, outputIndex, c). addNodeToBeExecuted w c outputIndex name (Some outs) runIndex rx)
       rx nodes = Inr rx' \<Longrightarrow> waiting_inv rx \<Longrightarrow>
     waiting_inv rx' \<and> run_cost w rank rx' \<le> run_cost w rank rx +
       sum_list (map (\<lambda>(outputIndex, c). cost w rank (ic_node c)) (map snd nodes))"
proof (induction nodes arbitrary: rx)
  case (Cons node nodes)
  obtain position outputIndex c where node: "node = (position, outputIndex, c)" by (metis surj_pair)
  from Cons.prems(1) node obtain rx1 where
    rx1: "addNodeToBeExecuted w c outputIndex name (Some outs) runIndex rx = Inr rx1"
    "fold_res (\<lambda>rx (position, outputIndex, c). addNodeToBeExecuted w c outputIndex name (Some outs) runIndex rx)
       rx1 nodes = Inr rx'" by (auto simp: resI)
  from addNodeToBeExecuted_handover [OF rx1(1)] obtain n where
    h: "handover w c n (output_slot (Some outs) outputIndex) rx rx1" by blast
  have inv1: "waiting_inv rx1" using handover_waiting_inv [OF h Cons.prems(2)] .
  from Cons.IH [OF rx1(2) inv1] handover_cost [OF h waiting_inv_maps [OF Cons.prems(2)] assms, of rank] node
  show ?case by simp
qed simp

lemma release_loop_cost:
  assumes "named w" "release_loop fuel env w rx = Inr rx'" "waiting_inv rx"
  shows "run_cost w rank rx' \<le> run_cost w rank rx"
proof -
  let ?Q = "\<lambda>u. waiting_inv u \<and> run_cost w rank u \<le> run_cost w rank rx"
  have step: "case r of Pushed v \<Rightarrow> ?Q v | Dropped v \<Rightarrow> ?Q v | Skipped \<Rightarrow> True"
    if "?Q u" "release_node env w waitingNodes u name = Inr r" for u waitingNodes name r
    using release_node_cost [OF that(2) waiting_inv_maps assms(1), of rank]
      release_node_waiting_inv [OF that(2)] that(1) by (cases r) auto
  have "?Q rx'"
  proof (rule release_loop_step [where Q = ?Q, OF _ _ assms(2)])
    fix u waitingNodes name v
    assume "?Q u" "release_node env w waitingNodes u name = Inr (Pushed v)"
    from step [OF this] show "?Q v" by simp
  next
    fix u waitingNodes name v
    assume "?Q u" "release_node env w waitingNodes u name = Inr (Dropped v)"
    from step [OF this] show "?Q v" by simp
  qed (use assms(3) in simp)
  then show ?thesis by blast
qed

lemma sum_list_map_mset: "mset xs = mset ys \<Longrightarrow> sum_list (map f xs) = (sum_list (map f ys) :: nat)"
  by (metis mset_map sum_mset_sum_list)

lemma run_cost_cong:
  "rx_stack rx' = rx_stack rx \<Longrightarrow> rx_waiting rx' = rx_waiting rx \<Longrightarrow> run_cost w rank rx' = run_cost w rank rx"
  by (simp add: run_cost_def)

lemma advanced_cost:
  assumes adv: "advanced env w rx False rx'" and inv: "waiting_inv rx" "stack_main rx"
    and w: "named w" "\<not> forceInputNodeExecution w" "ranked w rank"
    and sort: "\<And>f xs. mset (ev_sort env f xs) = mset xs"
  shows "run_cost w rank rx' < run_cost w rank rx"
  using adv
proof cases
  case (taken item rest)
  then show ?thesis using cost_positive by (simp add: run_cost_def item_cost_def)
next
  case (requeued item rest)
  then have "has_main (paired_item item)" using inv(2) by (auto simp: stack_main_def intro: has_main_paired)
  with requeued item_ready_v1 [OF w(2)] show ?thesis by blast
next
  case (run item rest)
  let ?name = "node_name (ex_node item)"
  let ?rx0 = "rx\<lparr>rx_stack := rest\<rparr>"
  have cost0: "run_cost w rank ?rx0 + cost w rank ?name = run_cost w rank rx"
    using run by (simp add: run_cost_def item_cost_def)
  have same: "run_cost w rank rx2 = run_cost w rank ?rx0 \<and> waiting_inv rx2"
    if "same_but_marks ?rx0 rx1" "rx2 = rx1 \<or> (\<exists>name tasks. rx2 = with_runs name tasks rx1)" for rx1 rx2
  proof -
    have "rx_stack rx2 = rx_stack ?rx0" "rx_waiting rx2 = rx_waiting ?rx0"
      using that same_but_marks_fields [OF that(1)] by auto
    with inv(1) run_cost_cong [of rx2 ?rx0 w rank] show ?thesis by (simp add: waiting_inv_def)
  qed
  from run(4) show ?thesis
  proof cases
    case ended
    then have "run_cost w rank rx' = run_cost w rank ?rx0" using same [of rx' rx'] by simp
    with cost0 cost_positive [of w rank ?name] show ?thesis by simp
  next
    case (recorded rx1 tasks)
    then have "run_cost w rank rx' = run_cost w rank ?rx0" using same [of rx1 rx'] by blast
    with cost0 cost_positive [of w rank ?name] show ?thesis by simp
  next
    case (handed_on rx1 rx2 task outs rx3)
    have rx2: "run_cost w rank rx2 = run_cost w rank ?rx0" "waiting_inv rx2"
      using same [OF handed_on(1), of rx2] handed_on(2) by auto
    obtain nodes :: "((int \<times> int) \<times> nat \<times> IConnection) list" where
      nodes: "fold_res (\<lambda>u (position, outputIndex, c). addNodeToBeExecuted w c outputIndex ?name (Some outs)
          (run_count rx ?name) u) rx2 nodes = Inr rx3"
      "mset (map snd nodes) = mset (filter (\<lambda>(outputIndex, c). has_output w outs outputIndex c) (child_connections w ?name))"
      by (rule add_children_v1 [OF handed_on(4) [unfolded paired_item_node] w(2) sort])
    note loop = add_loop_cost [OF w(1,2) nodes(1) rx2(2), of rank]
    have "sum_list (map (\<lambda>(outputIndex, c). cost w rank (ic_node c)) (map snd nodes))
        = sum_list (map (\<lambda>(outputIndex, c). cost w rank (ic_node c))
            (filter (\<lambda>(outputIndex, c). has_output w outs outputIndex c) (child_connections w ?name)))"
      by (rule sum_list_map_mset [OF nodes(2)])
    also have "\<dots> \<le> sum_list (map (\<lambda>(outputIndex, c). cost w rank (ic_node c)) (child_connections w ?name))"
      by (rule sum_list_filter_le_nat)
    also have "\<dots> < cost w rank ?name" by (rule cost_children [OF w(3)])
    finally have rx3: "run_cost w rank rx3 < run_cost w rank rx" "waiting_inv rx3"
      using loop rx2(1) cost0 by auto
    from handed_on(5) have "rx' = rx3 \<or> release_loop (Suc (waiting_entries rx3)) env w rx3 = Inr rx'"
      by (auto simp: release_waiting_nodes_def simp del: release_loop.simps split: if_splits)
    with release_loop_cost [OF w(1) _ rx3(2), of "Suc (waiting_entries rx3)" env rx' rank] rx3(1) show ?thesis
      by (auto simp del: release_loop.simps)
  qed simp
qed simp

section \<open>The execution ends\<close>

lemma exec_loop_ends:
  assumes w: "named w" "\<not> forceInputNodeExecution w" "ranked w rank"
    and sort: "\<And>f xs. mset (ev_sort env f xs) = mset xs"
  shows "waiting_inv (en_rx en) \<Longrightarrow> stack_main (en_rx en) \<Longrightarrow> run_cost w rank (en_rx en) < fuel \<Longrightarrow>
    exec_loop fuel env w mode n en \<noteq> None"
proof (induction fuel arbitrary: n en)
  case (Suc fuel)
  show ?case
  proof (cases "iteration env w mode n en")
    case (Continue en')
    then have adv: "advanced env w (en_rx en) False (en_rx en')"
      using iteration_advanced [of env w en mode n] by simp
    have "exec_loop fuel env w mode (Suc n) en' \<noteq> None"
    proof (rule Suc.IH)
      show "waiting_inv (en_rx en')" using adv Suc.prems(1) by (rule waiting_property.advanced_kept)
      show "stack_main (en_rx en')" using adv Suc.prems(2) by (rule stack_property.advanced_kept)
      show "run_cost w rank (en_rx en') < fuel"
        using advanced_cost [OF adv Suc.prems(1,2) w sort] Suc.prems(3) by simp
    qed
    with Continue show ?thesis by simp
  qed simp_all
qed simp

text \<open>C5: in version 1 of the order, an execution of a workflow whose main connections form no cycle always
  ends, whatever the nodes do, within a number of iterations that only depends on the workflow: one
  for each path of connections from the start node.\<close>

theorem execution_terminates:
  assumes "wf_executionOrder w = Some ''v1''" "named w" "ranked w rank"
    and "\<And>f xs. mset (ev_sort env f xs) = mset xs"
    and "weight w (rank (node_name node)) (node_name node) < fuel"
  shows "run fuel env w mode (Some node) destinationNode pinData \<noteq> None"
proof -
  have v1: "\<not> forceInputNodeExecution w" using assms(1) by (simp add: forceInputNodeExecution_def)
  have "processRunExecutionData fuel env w mode
      (initial_run destinationNode runNodeFilter [] pinData [start_item node] [] []) \<noteq> None" for runNodeFilter
  proof -
    let ?rx = "initial_run destinationNode runNodeFilter [] pinData [start_item node] [] []"
    have "resume_waiting ?rx = Inr ?rx" by (simp add: resume_waiting_def initial_run_def)
    moreover have "exec_loop fuel env w mode 0 \<lparr>en_rx = ?rx, en_calls = 0, en_lastTry = [], en_status = Running, en_error = None\<rparr> \<noteq> None"
      by (rule exec_loop_ends [OF assms(2) v1 assms(3,4)])
        (use assms(5) in \<open>simp_all add: initial_run_def waiting_inv_def waiting_inv_map_def stack_main_def has_main_def
          start_item_def run_cost_def item_cost_def token_cost_def\<close>)
    ultimately show ?thesis
      by (auto simp: processRunExecutionData_def Let_def split: sum.split list.split)
  qed
  then show ?thesis by (auto simp: run_def split: sum.split)
qed

end
