(* ===== verification/EngineItems.thy ===== *)
theory EngineItems
  imports EngineSteps EngineSamples
begin

text \<open>
  What happens to the items a node returns: the pairing with input items and the split into regular
  and error output keep every item, and the loop over the tries is bounded.
\<close>

section \<open>Pairing\<close>

text \<open>An item as it was, or with a pairing where it had none.\<close>

definition paired_version :: "INodeExecutionData \<Rightarrow> INodeExecutionData \<Rightarrow> bool" where
  "paired_version a b \<longleftrightarrow> b = a \<or> item_pairedItem a = None \<and> (\<exists>p. b = a\<lparr>item_pairedItem := Some p\<rparr>)"

definition paired_slot :: "INodeExecutionData list slot \<Rightarrow> INodeExecutionData list slot \<Rightarrow> bool" where
  "paired_slot s t \<longleftrightarrow> (case (s, t) of
     (Filled items, Filled items') \<Rightarrow> list_all2 paired_version items items'
   | _ \<Rightarrow> s = t)"

lemma paired_version_refl [simp]: "paired_version a a"
  by (simp add: paired_version_def)

lemma paired_slot_refl [simp]: "paired_slot s s"
  by (cases s) (auto simp: paired_slot_def intro: list_all2_refl)

lemma fill_pairs_paired: "paired_slot (Filled items) (fill_pairs index (Filled items))"
  by (auto simp: paired_slot_def fill_pairs_def list_all2_conv_all_nth nth_enumerate_eq paired_version_def)

lemma assign_pairs_paired: "assign_pairs single same outs = Inr outs' \<Longrightarrow> list_all2 paired_slot outs outs'"
proof (induction single same outs arbitrary: outs' rule: assign_pairs.induct)
  case (4 single same items outs)
  then show ?case using fill_pairs_paired
    by (fastforce simp: resI intro: list_all2_refl split: if_splits)
qed (auto simp: resI)

lemma assign_pairs_single:
  "assign_pairs True same outs = Inr outs' \<Longrightarrow> Filled items \<in> set outs' \<Longrightarrow> item \<in> set items \<Longrightarrow>
   item_pairedItem item \<noteq> None"
proof (induction "True" same outs arbitrary: outs' rule: assign_pairs.induct)
  case (4 same items' outs)
  then show ?case by (auto simp: resI fill_pairs_def split: if_splits)
qed (auto simp: resI)

section \<open>The error output\<close>

abbreviation items_at :: "node_outputs \<Rightarrow> nat \<Rightarrow> INodeExecutionData list" where
  "items_at outs i \<equiv> (case slot_at outs i of Filled items \<Rightarrow> items | _ \<Rightarrow> [])"

definition regular_items :: "INodeExecutionData list \<Rightarrow> INodeExecutionData list" where
  "regular_items items = filter (\<lambda>item. \<not> snd (split_error item)) items"

lemma split_error_regular: "split_error item = (item', False) \<Longrightarrow> item' = item"
  by (auto simp: split_error_def Let_def split: if_splits)

lemma split_output_exact:
  assumes "split_output env rx ex items = Inr (success, errors)"
  shows "success = regular_items items \<and> length errors + length success = length items"
proof -
  have "s' = s @ regular_items items \<and> length e' + length s' = length e + length s + length items"
    if "fold_res (\<lambda>(success, errors) item. case split_error item of
         (item', True) \<Rightarrow> res_bind (error_item env rx ex item') (\<lambda>e. Inr (success, errors @ [e]))
       | (item', False) \<Rightarrow> Inr (success @ [item'], errors)) (s, e) items = Inr (s', e')" for s e s' e'
    using that
  proof (induction items arbitrary: s e)
    case (Cons item items)
    obtain item' b where b: "split_error item = (item', b)" by fastforce
    show ?case
    proof (cases b)
      case True
      with Cons.prems b obtain x where "error_item env rx ex item' = Inr x" by (auto simp: resI)
      with Cons.IH [of s "e @ [x]"] Cons.prems b True show ?thesis by (auto simp: regular_items_def)
    next
      case False
      with b have "item' = item" using split_error_regular by simp
      with Cons.IH [of "s @ [item]" e] Cons.prems b False show ?thesis
        by (auto simp: regular_items_def)
    qed
  qed (simp add: regular_items_def)
  from this [of "[]" "[]" success errors] assms show ?thesis by (auto simp: split_output_def)
qed

lemma handleNodeErrorOutput_exact:
  assumes "handleNodeErrorOutput env w rx ex outs = Inr outs'"
    and "wf_nodeTypes w (node_type (ex_node ex)) (node_typeVersion (ex_node ex)) = Some nodeType"
    and n: "ev_mainOutputs env (ex_node ex) nodeType = Suc n"
  shows "(\<forall>i < n. slot_at outs' i = Filled (regular_items (items_at outs i))) \<and>
    (\<exists>errors. slot_at outs' n = Filled errors \<and>
       length errors + (\<Sum>i < n. length (regular_items (items_at outs i))) = (\<Sum>i < n. length (items_at outs i))) \<and>
    (\<forall>i > n. slot_at outs' i = slot_at outs i)"
proof -
  let ?step = "\<lambda>(outs, errors) outputIndex.
     res_bind (split_output env rx ex (items_at outs outputIndex)) (\<lambda>(success, errs).
       Inr (slot_set outputIndex (Filled success) outs, errors @ errs))"
  from assms obtain outs1 errors where
    loop: "fold_res ?step (outs, []) [0..<n] = Inr (outs1, errors)" and
    outs': "outs' = slot_set n (Filled errors) outs1"
    by (auto simp: handleNodeErrorOutput_def Let_def resI)
  have "(\<forall>i < k. slot_at o1 i = Filled (regular_items (items_at outs i))) \<and>
      (\<forall>i \<ge> k. slot_at o1 i = slot_at outs i) \<and>
      length e1 + (\<Sum>i < k. length (regular_items (items_at outs i))) = (\<Sum>i < k. length (items_at outs i))"
    if "fold_res ?step (outs, []) [0..<k] = Inr (o1, e1)" for k o1 e1
    using that
  proof (induction k arbitrary: o1 e1)
    case (Suc k)
    from Suc.prems have "fold_res ?step (outs, []) ([0..<k] @ [k]) = Inr (o1, e1)" by simp
    then obtain o2 e2 where 2: "fold_res ?step (outs, []) [0..<k] = Inr (o2, e2)"
      and 3: "?step (o2, e2) k = Inr (o1, e1)"
      unfolding fold_res_append by (auto simp: resI)
    from 3 obtain success errs where 4: "split_output env rx ex (items_at o2 k) = Inr (success, errs)"
      and 5: "o1 = slot_set k (Filled success) o2" "e1 = e2 @ errs"
      by (auto simp: resI)
    from Suc.IH [OF 2] have same: "slot_at o2 k = slot_at outs k" by simp
    from split_output_exact [OF 4] same have success: "success = regular_items (items_at outs k)"
      and errs: "length errs + length success = length (items_at outs k)" by auto
    from Suc.IH [OF 2] success errs 5 show ?case by (auto simp: less_Suc_eq)
  qed simp
  from this [OF loop] outs' show ?thesis by auto
qed

section \<open>Properties\<close>

text \<open>Pairing the output of a node with its input changes nothing but missing pairings: no output or
  item is lost, moved or added, and a pairing that the node has set is kept; and when the node was
  given a single item, every item it returns ends up paired.\<close>

theorem assignPairedItems_keeps_items:
  assumes "assignPairedItems outs ex = Inr outs'"
  shows "list_all2 paired_slot outs outs' \<and>
    (\<forall>item items. map_of (ex_data ex) Main = Some [Filled [item]] \<longrightarrow> Filled items \<in> set outs' \<longrightarrow>
      (\<forall>out \<in> set items. item_pairedItem out \<noteq> None))"
proof (cases "outs = []")
  case True
  with assms show ?thesis by (simp add: assignPairedItems_def)
next
  case False
  with assms obtain inputs same where
    "map_of (ex_data ex) Main = Some inputs"
    "assign_pairs (length inputs = 1 \<and> slot_length_is 1 (slot_at inputs 0)) same outs = Inr outs'"
    by (auto simp: assignPairedItems_def resI get_key_def split: option.splits)
  then show ?thesis
    by (auto simp: slot_length_is_def slot_at_def dest: assign_pairs_paired assign_pairs_single)
qed

lemma assignPairedItems_keeps_items_witness:
  "list_all2 paired_slot [Filled [empty_item]] [Filled [empty_item\<lparr>item_pairedItem := Some (JObj [(''item'', JNum 0)])\<rparr>]]"
  by (rule assignPairedItems_keeps_items [where ex = "\<lparr>ex_node = code_node 1 ''A'', ex_data = [(Main, [Filled [empty_item]])],
      ex_metadata = None, ex_source = None\<rparr>", THEN conjunct1])
    (simp add: assignPairedItems_def get_key_def slot_length_is_def slot_at_def fill_pairs_def empty_item_def)

text \<open>A node that sends its failed items to an error output loses none: each regular output keeps
  exactly its items without an error, in their order, and the last output gets one item for each
  of the others.\<close>

theorem handleNodeErrorOutput_partition:
  assumes "handleNodeErrorOutput env w rx ex outs = Inr outs'"
    and "wf_nodeTypes w (node_type (ex_node ex)) (node_typeVersion (ex_node ex)) = Some nodeType"
    and "ev_mainOutputs env (ex_node ex) nodeType = Suc n"
  shows "(\<forall>i < n. slot_at outs' i = Filled (regular_items (items_at outs i))) \<and>
    (\<exists>errors. slot_at outs' n = Filled errors \<and>
       length errors + (\<Sum>i < n. length (regular_items (items_at outs i))) = (\<Sum>i < n. length (items_at outs i))) \<and>
    (\<forall>i > n. slot_at outs' i = slot_at outs i)"
  using assms by (rule handleNodeErrorOutput_exact)

definition bad_item :: INodeExecutionData where
  "bad_item = empty_item\<lparr>item_json := JObj [(''error'', JStr ''no'')]\<rparr>"

definition two_outputs :: engine_env where
  "two_outputs = (code_env (\<lambda>call node items. returns items))\<lparr>ev_mainOutputs := \<lambda>node ty. 2\<rparr>"

lemma handleNodeErrorOutput_partition_witness:
  "\<exists>errors. slot_at [Filled [empty_item], Filled [bad_item]] 1 = Filled errors \<and>
     length errors + (\<Sum>i < 1. length (regular_items (items_at [Filled [bad_item, empty_item]] i)))
       = (\<Sum>i < 1. length (items_at [Filled [bad_item, empty_item]] i))"
proof -
  let ?ex = "\<lparr>ex_node = code_node 1 ''A'', ex_data = [(Main, [Filled [empty_item]])], ex_metadata = None, ex_source = None\<rparr>"
  let ?w = "engine_workflow [code_node 1 ''A''] []"
  have "handleNodeErrorOutput two_outputs ?w (initial_run None None [] None [] [] []) ?ex
      [Filled [bad_item, empty_item]] = Inr [Filled [empty_item], Filled [bad_item]]"
    by code_simp
  from handleNodeErrorOutput_partition [OF this, of "the (code_type ''code'' 1)" 1] show ?thesis
    by (auto simp: engine_workflow_def code_type_def two_outputs_def code_node_def sample_node_def)
qed

text \<open>C12: the loop over the tries of a node, of which there are between one and five, calls the node at most
  twice for each try but the last, and once for the last. (The number of tries in the parameters of the
  node is a whole number.)\<close>

theorem tries_bounded:
  "at_calls (fst (try_loop env w mode ex runIndex (maxTries (ex_node ex)) a)) \<le> at_calls a + (2 * maxTries (ex_node ex) - 1) \<and>
   maxTries (ex_node ex) \<in> {1..5}"
proof -
  obtain a' b where t: "try_loop env w mode ex runIndex (maxTries (ex_node ex)) a = (a', b)" by fastforce
  from tried_try_loop [OF this] t show ?thesis using maxTries_bounds by (simp add: tried_def)
qed

end
