(* ===== verification/EngineExamples.thy ===== *)
theory EngineExamples
  imports EngineResults EngineTermination EngineItems EngineConservation
begin

text \<open>
  The theorems about whole executions applied to concrete ones, and three behaviours of the engine
  at the edges, shown by running it.
\<close>

section \<open>Concrete executions\<close>

text \<open>\<open>A\<close> hands its data to one input of \<open>M\<close>, then \<open>F\<close> fails: \<open>M\<close> still waits for the other input.\<close>

definition interrupted_run :: "IRun res option" where
  "interrupted_run = run 10
     (code_env (\<lambda>call node items. if node_name node = ''F'' then fails else returns [empty_item]))
     (engine_workflow (map (code_node 1) [''T'', ''A'', ''F'', ''M'', ''B''])
       [(''T'', [(Main, [Some [to_input ''F'' 0, to_input ''A'' 0]])]),
        (''A'', [(Main, [Some [to_input ''M'' 0]])]), (''B'', [(Main, [Some [to_input ''M'' 1]])])])
     Mode_trigger (Some (code_node 1 ''T'')) None None"

lemma waiting_nodes_miss_data_witness:
  "\<exists>r waits. interrupted_run = Some (Inr r) \<and> (''M'', waits) \<in> set (rx_waiting (run_data r)) \<and> waits \<noteq> [] \<and>
     (\<forall>(i, entry) \<in> set waits. Null \<in> set (or_empty (map_of entry Main)))"
proof -
  have "case interrupted_run of Some (Inr r) \<Rightarrow> map fst (rx_waiting (run_data r)) = [''M''] | _ \<Rightarrow> False"
    by code_simp
  then obtain r where r: "interrupted_run = Some (Inr r)" "map fst (rx_waiting (run_data r)) = [''M'']"
    by (auto split: option.splits sum.splits)
  from r(2) obtain waits where w: "(''M'', waits) \<in> set (rx_waiting (run_data r))" by (auto simp: map_eq_Cons_conv)
  from waiting_nodes_miss_data [OF r(1) [unfolded interrupted_run_def] w] r(1) w show ?thesis by blast
qed

text \<open>\<open>T\<close>, and \<open>A\<close>, which is given.\<close>

definition pair_env :: engine_env where
  "pair_env = code_env (\<lambda>call node items. if node_name node = ''T'' then returns [empty_item] else fails)"

definition pair_start :: "INode \<Rightarrow> IRunExecutionData" where
  "pair_start second = initial_run None None [] None [start_item (code_node 1 ''T'')] [] []"

lemma loop_stops_at_item_witness:
  "\<exists>en item rest prev task. exec_loop 10 pair_env (pair_workflow (code_node 2 ''A'')) Mode_trigger 0
       (start_engine (pair_start (code_node 2 ''A''))) = Some (Halt en) \<and>
     rx_stack (en_rx en) = item # rest \<and>
     map_of (rx_runData (en_rx en)) (node_name (ex_node item)) = Some (prev @ [task]) \<and> task_error task = en_error en"
proof -
  let ?loop = "exec_loop 10 pair_env (pair_workflow (code_node 2 ''A'')) Mode_trigger 0
    (start_engine (pair_start (code_node 2 ''A'')))"
  have "case ?loop of Some (Halt en) \<Rightarrow> length (rx_stack (en_rx en)) > 0 \<and> en_status en = Running | _ \<Rightarrow> False"
    by code_simp
  then obtain en where en: "?loop = Some (Halt en)" "rx_stack (en_rx en) \<noteq> []" "en_status en \<noteq> Canceled"
    by (auto split: option.splits loop_step.splits)
  moreover have "en_status (start_engine (pair_start (code_node 2 ''A''))) = Running" by (simp add: start_engine_def)
  ultimately show ?thesis
    using loop_stops_at_item [where fuel = 10 and env = pair_env and w = "pair_workflow (code_node 2 ''A'')"
        and mode = Mode_trigger and n = 0 and en = "start_engine (pair_start (code_node 2 ''A''))"]
    by (simp only: en(1) option.case loop_step.case) blast
qed

lemma execution_status_exact_witness:
  "\<exists>r. processRunExecutionData 10 (code_env (\<lambda>call node items. returns items)) (pair_workflow (code_node 2 ''A''))
       Mode_trigger (pair_start (code_node 2 ''A'')) = Some (Inr r) \<and>
     run_finished r \<and> determineFinalExecutionStatus r = Success \<and> rx_stack (run_data r) = []"
proof -
  let ?run = "processRunExecutionData 10 (code_env (\<lambda>call node items. returns items)) (pair_workflow (code_node 2 ''A''))
    Mode_trigger (pair_start (code_node 2 ''A''))"
  have "case ?run of Some (Inr r) \<Rightarrow> run_finished r | _ \<Rightarrow> False" by code_simp
  then obtain r where r: "?run = Some (Inr r)" "run_finished r" by (auto split: option.splits sum.splits)
  from execution_status_exact [OF r(1)] r show ?thesis by (auto simp: pair_start_def initial_run_def)
qed

lemma execution_terminates_witness:
  "run 3 pair_env (pair_workflow (code_node 2 ''A'')) Mode_trigger (Some (code_node 1 ''T'')) None None \<noteq> None"
  by (rule execution_terminates [where rank = "\<lambda>name. if name = ''T'' then 1 else 0"])
    (auto simp: pair_workflow_def engine_workflow_def named_def ranked_def child_connections_def connections_at_def
      to_input_def code_node_def sample_node_def pair_env_def code_env_def flat_entry_def
      split: option.splits if_splits)

definition partial_sample :: "IRun res option" where
  "partial_sample = executePartialWorkflow2 10
     (code_env (\<lambda>call node items. outcome (Data [Filled items, Filled items]))) (\<lambda>cmp xs. xs) (\<lambda>x y. 0)
     (\<lambda>ty node. node) (sample_workflow [trigger_node, node_a False, node_b]) Mode_manual [] [] [] (Some ''B'')"

lemma partial_execution_within_subgraph_witness:
  "\<exists>r. partial_sample = Some (Inr r) \<and> map fst (rx_runData (run_data r)) = [''T'', ''A'', ''B''] \<and>
    runs_of (run_data r) ''C'' = []"
proof -
  have "case partial_sample of Some (Inr r) \<Rightarrow> map fst (rx_runData (run_data r)) = [''T'', ''A'', ''B''] | _ \<Rightarrow> False"
    by code_simp
  then obtain r where r: "partial_sample = Some (Inr r)" "map fst (rx_runData (run_data r)) = [''T'', ''A'', ''B'']"
    by (auto split: option.splits sum.splits)
  define prepared where "prepared = runPartialWorkflow2 (\<lambda>cmp xs. xs) (\<lambda>x y. 0) (sample_workflow [trigger_node, node_a False, node_b]) [] [] []
    (Some ''B'')"
  have names: "case prepared of Inl e \<Rightarrow> False | Inr p \<Rightarrow> map_keys (dg_nodes (pr_graph p)) = [''A'', ''B'', ''T''] \<and>
      pr_runNodeFilter p = [''A'', ''B'', ''T'']"
    unfolding prepared_def by code_simp
  from partial_execution_within_subgraph [OF r(1) [unfolded partial_sample_def], folded prepared_def] obtain p where p: "prepared = Inr p"
    "\<And>name. name \<notin> set (map_keys (dg_nodes (pr_graph p))) \<union> set (pr_runNodeFilter p) \<Longrightarrow> runs_of (run_data r) name = []"
    by blast
  from names p(1) have "''C'' \<notin> set (map_keys (dg_nodes (pr_graph p))) \<union> set (pr_runNodeFilter p)"
    by simp
  then have "runs_of (run_data r) ''C'' = []" by (rule p(2))
  with r show ?thesis by (intro exI conjI)
qed

section \<open>Behaviour at the edges\<close>

definition item_of :: "string \<Rightarrow> INodeExecutionData" where
  "item_of name = \<lparr>item_json = JObj [(''from'', JStr name)], item_binary = None, item_error = None, item_pairedItem = None\<rparr>"

text \<open>The JSON of the items in the outputs of the runs of a node.\<close>

definition run_jsons :: "IRunExecutionData \<Rightarrow> string \<Rightarrow> json list list list" where
  "run_jsons rx name = map (\<lambda>task. map (\<lambda>out. map item_json (or_empty (slot_value out)))
     (or_empty (map_of (or_empty (task_data task)) Main))) (or_empty (map_of (rx_runData rx) name))"

definition three_to_one_input :: Workflow where
  "three_to_one_input = engine_workflow (map (code_node 1) [''T'', ''A1'', ''A2'', ''A3'', ''B'', ''M''])
     [(''T'', [(Main, [Some [to_input ''A3'' 0, to_input ''B'' 0, to_input ''A2'' 0, to_input ''A1'' 0]])]),
      (''A1'', [(Main, [Some [to_input ''M'' 0]])]), (''A2'', [(Main, [Some [to_input ''M'' 0]])]),
      (''A3'', [(Main, [Some [to_input ''M'' 0]])]), (''B'', [(Main, [Some [to_input ''M'' 1]])])]"

definition merge_run :: "IRun res option" where
  "merge_run = run 10
     (code_env (\<lambda>call node items. returns (if node_name node = ''M'' then items else [item_of (node_name node)])))
     three_to_one_input Mode_trigger (Some (code_node 1 ''T'')) None None"

text \<open>The proviso of the conservation of data is needed: when three nodes feed one input of a node and
  its other input is served once between them, the number for the third waiting entry is the number
  of the second, whose data is overwritten: the execution succeeds, and the data of one node never
  reaches the node it was handed to.\<close>

theorem merge_data_lost:
  "\<exists>r. merge_run = Some (Inr r) \<and> run_finished r \<and> rx_waiting (run_data r) = [] \<and>
     run_jsons (run_data r) ''A2'' = [[[item_json (item_of ''A2'')]]] \<and>
     run_jsons (run_data r) ''M'' = [[[item_json (item_of ''A1'')]], [[item_json (item_of ''A3'')]]]"
proof -
  have "case merge_run of Some (Inr r) \<Rightarrow> run_finished r \<and> map fst (rx_waiting (run_data r)) = [] \<and>
     run_jsons (run_data r) ''A2'' = [[[item_json (item_of ''A2'')]]] \<and>
     run_jsons (run_data r) ''M'' = [[[item_json (item_of ''A1'')]], [[item_json (item_of ''A3'')]]] | _ \<Rightarrow> False"
    by code_simp
  then show ?thesis by (auto split: option.splits sum.splits)
qed

text \<open>The output of a retry is not used: a node that is tried twice, reports an error in its first item
  the first time and succeeds the second time, is recorded with the output of the first call.\<close>

theorem retry_output_dropped:
  "\<exists>r. run 10 (code_env (\<lambda>call node items. returns [if call = 1 then bad_item else item_of (node_name node)]))
       (pair_workflow ((code_node 2 ''A'')\<lparr>node_retryOnFail := Some True, node_maxTries := Some 2\<rparr>))
       Mode_trigger (Some (code_node 1 ''T'')) None None = Some (Inr r) \<and>
     run_finished r \<and> run_jsons (run_data r) ''A'' = [[[item_json bad_item]]]"
proof -
  let ?run = "run 10 (code_env (\<lambda>call node items. returns [if call = 1 then bad_item else item_of (node_name node)]))
    (pair_workflow ((code_node 2 ''A'')\<lparr>node_retryOnFail := Some True, node_maxTries := Some 2\<rparr>))
    Mode_trigger (Some (code_node 1 ''T'')) None None"
  have "case ?run of Some (Inr r) \<Rightarrow> run_finished r \<and> run_jsons (run_data r) ''A'' = [[[item_json bad_item]]] | _ \<Rightarrow> False"
    by code_simp
  then show ?thesis by (auto split: option.splits sum.splits)
qed

text \<open>The variable that holds the error of an iteration outlives the last one: an execution whose last
  node fails, but goes on regardless, has done all its work and still ends without being finished,
  with the status \<open>running\<close> and the error of that node, and is stored as failed.\<close>

theorem ignored_last_error_fails:
  "\<exists>r. run 10 pair_env (pair_workflow ((code_node 2 ''A'')\<lparr>node_onError := Some ContinueRegularOutput\<rparr>))
       Mode_trigger (Some (code_node 1 ''T'')) None None = Some (Inr r) \<and>
     rx_stack (run_data r) = [] \<and> \<not> run_finished r \<and> run_status r = Running \<and>
     rx_error (run_data r) \<noteq> None \<and> determineFinalExecutionStatus r = ErrorStatus"
proof -
  let ?run = "run 10 pair_env (pair_workflow ((code_node 2 ''A'')\<lparr>node_onError := Some ContinueRegularOutput\<rparr>))
    Mode_trigger (Some (code_node 1 ''T'')) None None"
  have "case ?run of Some (Inr r) \<Rightarrow> length (rx_stack (run_data r)) = 0 \<and> \<not> run_finished r \<and> run_status r = Running \<and>
     determineFinalExecutionStatus r = ErrorStatus | _ \<Rightarrow> False"
    by code_simp
  then show ?thesis
    by (auto simp: determineFinalExecutionStatus_def Let_def split: option.splits sum.splits if_splits)
qed

end
