(* ===== verification/NodeParameters.thy ===== *)
theory NodeParameters
  imports WorkflowTypes
begin

text \<open>
  The parameters of a node (\<open>packages/workflow/src/NodeHelpers.ts\<close>): when a parameter is displayed, in
  which order parameters are resolved, and which values a node keeps (\<open>getNodeParameters\<close>).

  The functions of lodash and the regular expressions of the runtime are the fields of \<open>js_library\<close>.
  The order of numbers does not know \<open>NaN\<close>; an array or object compared with a number is unequal.
\<close>

section \<open>Properties of a node type\<close>

datatype DisplayCondition =
    CndEq json | CndNot json
  | CndGte json | CndLte json | CndGt json | CndLt json
  | CndBetween json json
  | CndStartsWith string | CndEndsWith string | CndIncludes string | CndRegex string
  | CndExists

text \<open>An entry of a display rule: a value, or a condition (an object with the one key \<open>_cnd\<close>).\<close>

datatype condition = Plain json | Cnd DisplayCondition

record IDisplayOptions =
  do_show :: "(string, condition list) js_map option"
  do_hide :: "(string, condition list) js_map option"

text \<open>
  The options of a property are absent, the properties of a collection, the named groups of a fixed
  collection, or the choices of a list.
\<close>

datatype INodeProperties = NodeProperty
  (np_name: string)
  (np_type: string)
  (np_default: json)
  (np_displayOptions: "IDisplayOptions option")
  (np_multipleValues: "bool option")
  (np_options: property_options)
and property_options =
    NoOptions
  | PropertyList "INodeProperties list"
  | PropertyCollections "property_collection list"
  | Choices "string list"
and property_collection = PropertyCollection (pc_name: string) (pc_values: "INodeProperties list")

record js_library =
  lib_get :: "json \<Rightarrow> string \<Rightarrow> json"
  lib_isEqual :: "json \<Rightarrow> json \<Rightarrow> bool"
  lib_regex :: "string \<Rightarrow> json \<Rightarrow> bool"

section \<open>Comparing values\<close>

fun leading_digits :: "string \<Rightarrow> nat list \<times> string" where
  "leading_digits [] = ([], [])"
| "leading_digits (c # cs) =
     (if c \<in> set ''0123456789''
      then (case leading_digits cs of (ds, rest) \<Rightarrow> ((of_char c - 48) # ds, rest))
      else ([], c # cs))"

definition digits_value :: "nat list \<Rightarrow> nat" where
  "digits_value ds = foldl (\<lambda>v d. 10 * v + d) 0 ds"

definition take_sign :: "string \<Rightarrow> bool \<times> string" where
  "take_sign s = (case s of
     c # cs \<Rightarrow> if c = CHR ''-'' then (True, cs) else if c = CHR ''+'' then (False, cs) else (False, s)
   | [] \<Rightarrow> (False, s))"

definition exponent_part :: "string \<Rightarrow> rat option" where
  "exponent_part s = (case s of
     [] \<Rightarrow> Some 1
   | e # s1 \<Rightarrow>
       if e \<notin> set ''eE'' then None
       else case take_sign s1 of (negative, s2) \<Rightarrow>
         (case leading_digits s2 of
            (d # ds, []) \<Rightarrow> Some (if negative then 1 / 10 ^ digits_value (d # ds) else 10 ^ digits_value (d # ds))
          | _ \<Rightarrow> None))"

definition is_space :: "char \<Rightarrow> bool" where
  "is_space c \<longleftrightarrow> (of_char c :: nat) \<in> {9, 10, 11, 12, 13, 32, 160}"

definition trim :: "string \<Rightarrow> string" where
  "trim s = rev (dropWhile is_space (rev (dropWhile is_space s)))"

text \<open>\<open>Number(s)\<close> on decimal literals; the empty string is 0, and anything else not a number.\<close>

definition str_number :: "string \<Rightarrow> rat option" where
  "str_number s0 =
     (case take_sign (trim s0) of (negative, s) \<Rightarrow>
        if trim s0 = [] then Some 0
        else case leading_digits s of (ds, rest) \<Rightarrow>
          (case (case rest of
                   c # s1 \<Rightarrow> if c = CHR ''.'' then leading_digits s1 else ([], rest)
                 | [] \<Rightarrow> ([], [])) of (fs, rest') \<Rightarrow>
             if ds = [] \<and> fs = [] then None
             else case exponent_part rest' of
               None \<Rightarrow> None
             | Some e \<Rightarrow>
                 let v = (of_nat (digits_value ds) + of_nat (digits_value fs) / 10 ^ length fs) * e
                 in Some (if negative then - v else v)))"

fun js_number :: "json \<Rightarrow> rat option" where
  "js_number JNull = Some 0"
| "js_number JUndefined = None"
| "js_number (JBool b) = Some (if b then 1 else 0)"
| "js_number (JNum n) = Some n"
| "js_number (JStr s) = str_number s"
| "js_number (JArr _) = None"
| "js_number (JObj _) = None"

text \<open>\<open>a < b\<close>: undefined (\<open>None\<close>) when one of them is not a number.\<close>

definition js_less :: "json \<Rightarrow> json \<Rightarrow> bool option" where
  "js_less a b =
     (case (a, b) of
        (JStr s, JStr t) \<Rightarrow> Some (str_less s t)
      | _ \<Rightarrow> (case (js_number a, js_number b) of (Some x, Some y) \<Rightarrow> Some (x < y) | _ \<Rightarrow> None))"

text \<open>\<open>a === b\<close>: arrays and objects are compared by identity, and are different here.\<close>

fun strict_eq :: "json \<Rightarrow> json \<Rightarrow> bool" where
  "strict_eq (JArr _) b = False"
| "strict_eq (JObj _) b = False"
| "strict_eq a b = (a = b)"

definition is_object :: "json \<Rightarrow> bool" where
  "is_object v = (case v of JNull \<Rightarrow> True | JArr _ \<Rightarrow> True | JObj _ \<Rightarrow> True | _ \<Rightarrow> False)"

section \<open>Display rules\<close>

text \<open>The values a rule is about: of the root, the version of the node, or of the current level.\<close>

definition getPropertyValues :: "js_library \<Rightarrow> json \<Rightarrow> string \<Rightarrow> rat option \<Rightarrow> json \<Rightarrow> json list" where
  "getPropertyValues lib nodeValues propertyName version nodeValuesRoot =
     (let value =
            (if starts_with propertyName ''/'' then lib_get lib nodeValuesRoot (drop 1 propertyName)
             else if propertyName = ''@version'' then
               JNum (case version of Some v \<Rightarrow> v | None \<Rightarrow> 0)
             else lib_get lib nodeValues propertyName);
          value' = (if truthy (json_get value ''__rl'') then json_get value ''value'' else value)
      in case value' of JArr vs \<Rightarrow> vs | v \<Rightarrow> [v])"

text \<open>The methods of strings: another receiver throws, but an array has \<open>includes\<close> as well.\<close>

definition on_string :: "(string \<Rightarrow> bool) \<Rightarrow> json \<Rightarrow> bool res" where
  "on_string f v = (case v of JStr s \<Rightarrow> Inr (f s) | _ \<Rightarrow> Inl TypeError)"

fun holds :: "js_library \<Rightarrow> DisplayCondition \<Rightarrow> json \<Rightarrow> bool res" where
  "holds lib (CndEq t) v = Inr (lib_isEqual lib v t)"
| "holds lib (CndNot t) v = Inr (\<not> lib_isEqual lib v t)"
| "holds lib (CndGte t) v = Inr (js_less v t = Some False)"
| "holds lib (CndLte t) v = Inr (js_less t v = Some False)"
| "holds lib (CndGt t) v = Inr (js_less t v = Some True)"
| "holds lib (CndLt t) v = Inr (js_less v t = Some True)"
| "holds lib (CndBetween from to) v = Inr (js_less v from = Some False \<and> js_less to v = Some False)"
| "holds lib (CndIncludes t) v =
     (case v of JArr vs \<Rightarrow> Inr (JStr t \<in> set vs) | _ \<Rightarrow> on_string (\<lambda>s. str_includes s t) v)"
| "holds lib (CndStartsWith t) v = on_string (\<lambda>s. starts_with s t) v"
| "holds lib (CndEndsWith t) v = on_string (\<lambda>s. ends_with t s) v"
| "holds lib (CndRegex t) v = Inr (lib_regex lib t v)"
| "holds lib CndExists v = Inr (v \<noteq> JNull \<and> v \<noteq> JUndefined \<and> v \<noteq> JStr [])"

text \<open>\<open>every\<close> and \<open>some\<close> with a test that may throw: the first value that decides ends the search.\<close>

fun every_res :: "('a \<Rightarrow> bool res) \<Rightarrow> 'a list \<Rightarrow> bool res" where
  "every_res f [] = Inr True"
| "every_res f (x # xs) = res_bind (f x) (\<lambda>b. if b then every_res f xs else Inr False)"

fun some_res :: "('a \<Rightarrow> bool res) \<Rightarrow> 'a list \<Rightarrow> bool res" where
  "some_res f [] = Inr False"
| "some_res f (x # xs) = res_bind (f x) (\<lambda>b. if b then Inr True else some_res f xs)"

definition checkConditions :: "js_library \<Rightarrow> condition list \<Rightarrow> json list \<Rightarrow> bool res" where
  "checkConditions lib conditions actualValues =
     some_res (\<lambda>condition. case condition of
         Cnd c \<Rightarrow> every_res (holds lib c) actualValues
       | Plain v \<Rightarrow> Inr (list_ex (strict_eq v) actualValues)) conditions"

definition is_expression :: "json \<Rightarrow> bool" where
  "is_expression v = (case v of JStr s \<Rightarrow> starts_with s ''='' | _ \<Rightarrow> False)"

text \<open>
  All rules under \<open>show\<close> have to match; a value that is an expression ends the check with \<open>true\<close>.
  \<open>None\<close>: no rule has decided.
\<close>

fun check_show ::
  "js_library \<Rightarrow> json \<Rightarrow> rat option \<Rightarrow> json \<Rightarrow> (string, condition list) js_map \<Rightarrow> bool option res" where
  "check_show lib nodeValues version nroot [] = Inr None"
| "check_show lib nodeValues version nroot ((propertyName, conditions) # rest) =
     (let values = getPropertyValues lib nodeValues propertyName version nroot in
      if list_ex is_expression values then Inr (Some True)
      else if values = [] then Inr (Some False)
      else res_bind (checkConditions lib conditions values) (\<lambda>b.
        if b then check_show lib nodeValues version nroot rest else Inr (Some False)))"

fun check_hide ::
  "js_library \<Rightarrow> json \<Rightarrow> rat option \<Rightarrow> json \<Rightarrow> (string, condition list) js_map \<Rightarrow> bool res" where
  "check_hide lib nodeValues version nroot [] = Inr True"
| "check_hide lib nodeValues version nroot ((propertyName, conditions) # rest) =
     (let values = getPropertyValues lib nodeValues propertyName version nroot in
      if values = [] then check_hide lib nodeValues version nroot rest
      else res_bind (checkConditions lib conditions values) (\<lambda>b.
        if b then Inr False else check_hide lib nodeValues version nroot rest))"

definition displayParameter ::
  "js_library \<Rightarrow> json \<Rightarrow> INodeProperties \<Rightarrow> rat option \<Rightarrow> json option \<Rightarrow> bool res" where
  "displayParameter lib nodeValues parameter version nodeValuesRoot =
     (case np_displayOptions parameter of
        None \<Rightarrow> Inr True
      | Some options \<Rightarrow>
          let nroot = (case nodeValuesRoot of Some r \<Rightarrow> r | None \<Rightarrow> nodeValues) in
          res_bind (case do_show options of
              None \<Rightarrow> Inr None | Some show \<Rightarrow> check_show lib nodeValues version nroot show) (\<lambda>decided.
          case decided of
            Some b \<Rightarrow> Inr b
          | None \<Rightarrow> (case do_hide options of
                None \<Rightarrow> Inr True | Some hide \<Rightarrow> check_hide lib nodeValues version nroot hide)))"

definition path_head :: "string \<Rightarrow> string" where
  "path_head path = takeWhile (\<lambda>c. c \<noteq> CHR ''.'') path"

definition displayParameterPath ::
  "js_library \<Rightarrow> json \<Rightarrow> INodeProperties \<Rightarrow> string \<Rightarrow> rat option \<Rightarrow> bool res" where
  "displayParameterPath lib nodeValues parameter path version =
     (let resolved = (if path \<noteq> [] then lib_get lib nodeValues path else nodeValues);
          nroot = (if path \<noteq> [] \<and> path_head path = ''parameters''
                  then lib_get lib nodeValues ''parameters'' else nodeValues)
      in displayParameter lib resolved parameter version (if truthy nroot then Some nroot else None))"

section \<open>The order of resolution\<close>

text \<open>\<open>dependencies[name].push(parameterName)\<close> for the keys of a display rule.\<close>

definition add_dependencies :: "string list \<Rightarrow> (string, condition list) js_map option \<Rightarrow> string list" where
  "add_dependencies deps rule =
     foldl (\<lambda>deps parameterName.
         if parameterName \<in> set deps \<or> starts_with parameterName ''@'' then deps else deps @ [parameterName])
       deps (case rule of None \<Rightarrow> [] | Some m \<Rightarrow> map_keys m)"

text \<open>
  The rules are visited in the order of the keys of \<open>displayOptions\<close>; here first what shows a
  parameter, then what hides it.
\<close>

definition getParameterDependencies :: "INodeProperties list \<Rightarrow> (string, string list) js_map" where
  "getParameterDependencies nodePropertiesArray =
     foldl (\<lambda>dependencies p.
         let deps = (case map_of dependencies (np_name p) of None \<Rightarrow> [] | Some ds \<Rightarrow> ds) in
         map_set (np_name p)
           (case np_displayOptions p of
              None \<Rightarrow> deps
            | Some options \<Rightarrow> add_dependencies (add_dependencies deps (do_show options)) (do_hide options))
           dependencies)
       [] nodePropertiesArray"

text \<open>
  The loop of \<open>getParameterResolveOrder\<close>. A property is added to the order even when dependencies are
  missing; it is then queued again, once for each of them. The loop gives up when the queue has not
  become shorter for as many iterations as there are properties.
\<close>

record resolving =
  rs_order :: "nat list"
  rs_queue :: "nat list"
  rs_resolved :: "string list"
  rs_lastLength :: nat
  rs_lastReduction :: int
  rs_iterations :: nat

definition missing_dependencies :: "string list \<Rightarrow> string list \<Rightarrow> string list" where
  "missing_dependencies resolved dependencies =
     filter (\<lambda>d. d \<notin> set resolved \<and> \<not> starts_with d ''/'') dependencies"

fun resolve_loop ::
  "nat \<Rightarrow> INodeProperties list \<Rightarrow> (string, string list) js_map \<Rightarrow> resolving \<Rightarrow> nat list res" where
  "resolve_loop 0 props dependencies s = Inl OutOfFuel"
| "resolve_loop (Suc fuel) props dependencies s =
     (case rs_queue s of
        [] \<Rightarrow> Inr (rs_order s)
      | index # queue \<Rightarrow>
          let name = np_name (props ! index);
              s1 = s\<lparr>rs_order := rs_order s @ [index], rs_queue := queue,
                     rs_resolved := rs_resolved s @ [name], rs_iterations := Suc (rs_iterations s)\<rparr>
          in case map_of dependencies name of
            None \<Rightarrow> Inl TypeError
          | Some [] \<Rightarrow> resolve_loop fuel props dependencies s1
          | Some ds \<Rightarrow>
              let queue' = queue @ map (\<lambda>d. index) (missing_dependencies (rs_resolved s) ds);
                  reduction = (if length queue' < rs_lastLength s then int (Suc (rs_iterations s))
                               else rs_lastReduction s)
              in if int (Suc (rs_iterations s)) > reduction + int (length props)
                 then Inl (ApplicationError ''Could not resolve parameter dependencies. Max iterations reached!'')
                 else resolve_loop fuel props dependencies
                   (s1\<lparr>rs_queue := queue', rs_lastLength := length queue', rs_lastReduction := reduction\<rparr>))"

definition dependency_count :: "INodeProperties list \<Rightarrow> (string, string list) js_map \<Rightarrow> nat" where
  "dependency_count props dependencies =
     sum_list (map (\<lambda>p. case map_of dependencies (np_name p) of None \<Rightarrow> 0 | Some ds \<Rightarrow> length ds) props)"

definition start_resolving :: "nat \<Rightarrow> resolving" where
  "start_resolving n = \<lparr>rs_order = [], rs_queue = [0..<n], rs_resolved = [], rs_lastLength = n,
     rs_lastReduction = -1, rs_iterations = 0\<rparr>"

definition getParameterResolveOrder ::
  "INodeProperties list \<Rightarrow> (string, string list) js_map \<Rightarrow> nat list res" where
  "getParameterResolveOrder props dependencies =
     resolve_loop (2 * length props + dependency_count props dependencies + 4) props dependencies
       (start_resolving (length props))"

section \<open>The parameters of a node\<close>

text \<open>\<open>Object.keys\<close>, and \<open>value[key]\<close> for one of these keys.\<close>

definition object_keys :: "json \<Rightarrow> string list" where
  "object_keys v = (case v of
     JObj fs \<Rightarrow> map_keys fs | JArr vs \<Rightarrow> map nat_str [0..<length vs]
   | JStr s \<Rightarrow> map nat_str [0..<length s] | _ \<Rightarrow> [])"

definition json_at :: "json \<Rightarrow> string \<Rightarrow> json" where
  "json_at v key = (case v of
     JArr vs \<Rightarrow> (case map_of (map (\<lambda>(i, x). (nat_str i, x)) (enumerate 0 vs)) key of
                   None \<Rightarrow> JUndefined | Some x \<Rightarrow> x)
   | JStr s \<Rightarrow> (case map_of (map (\<lambda>(i, c). (nat_str i, JStr [c])) (enumerate 0 s)) key of
                   None \<Rightarrow> JUndefined | Some x \<Rightarrow> x)
   | _ \<Rightarrow> json_get v key)"

text \<open>The values a \<open>for ... of\<close> loop goes through.\<close>

definition iterate :: "json \<Rightarrow> json list res" where
  "iterate v = (case v of
     JArr vs \<Rightarrow> Inr vs | JStr s \<Rightarrow> Inr (map (\<lambda>c. JStr [c]) s) | _ \<Rightarrow> Inl TypeError)"

fun map_res :: "('a \<Rightarrow> 'b res) \<Rightarrow> 'a list \<Rightarrow> 'b list res" where
  "map_res f [] = Inr []"
| "map_res f (x # xs) = res_bind (f x) (\<lambda>y. res_bind (map_res f xs) (\<lambda>ys. Inr (y # ys)))"

definition duplicate_names :: "INodeProperties list \<Rightarrow> string list" where
  "duplicate_names props =
     snd (foldl (\<lambda>(names, dups) p.
         if np_name p \<in> set names then (names, if np_name p \<in> set dups then dups else dups @ [np_name p])
         else (names @ [np_name p], dups)) ([], []) props)"

text \<open>\<open>{ __rl: true, ...default }\<close>.\<close>

definition with_rl :: "json \<Rightarrow> json" where
  "with_rl d = JObj (foldl (\<lambda>m (k, v). map_set k v m) [(''__rl'', JBool True)]
     (case d of JObj fs \<Rightarrow> fs | _ \<Rightarrow> []))"

text \<open>The value a simple property gets, if any.\<close>

definition simple_value ::
  "js_library \<Rightarrow> INodeProperties \<Rightarrow> json \<Rightarrow> bool \<Rightarrow> string option \<Rightarrow> json option" where
  "simple_value lib p v returnDefaults parentType =
     (if returnDefaults then Some
        (if np_type p \<in> {''boolean'', ''number'', ''options''} then
           (if v \<noteq> JUndefined then v else np_default p)
         else if np_type p = ''resourceLocator'' \<and> is_object (np_default p) then
           (if v \<noteq> JUndefined then v else with_rl (np_default p))
         else if v = JNull \<or> v = JUndefined then np_default p else v)
      else if \<not> strict_eq v (np_default p) \<and> \<not> is_object v \<or>
              is_object v \<and> \<not> lib_isEqual lib v (np_default p) \<or>
              v \<noteq> JUndefined \<and> parentType = Some ''collection''
      then Some v else None)"

text \<open>What the loop builds: the parameters, and those that display rules may refer to; or an early return.\<close>

datatype gathered = Gathering "(string, json) js_map" "(string, json) js_map" | Returned json

definition set_both :: "string \<Rightarrow> json \<Rightarrow> (string, json) js_map \<Rightarrow> (string, json) js_map \<Rightarrow> gathered" where
  "set_both name v params full = Gathering (map_set name v params) (map_set name v full)"

text \<open>The recursive calls: the properties and values of a lower level, the values of the root, the type of the parent.\<close>

type_synonym lower = "INodeProperties list \<Rightarrow> json \<Rightarrow> json \<Rightarrow> string \<Rightarrow> json res"

definition collection_step ::
  "lower \<Rightarrow> INodeProperties \<Rightarrow> json \<Rightarrow> bool \<Rightarrow> json \<Rightarrow> (string, json) js_map \<Rightarrow> (string, json) js_map \<Rightarrow>
   gathered res" where
  "collection_step lower p v returnDefaults nroot params full =
     (if np_multipleValues p = Some True then
        (let params' =
           (if v \<noteq> JUndefined then map_set (np_name p) v params
            else if returnDefaults then
              map_set (np_name p) (case np_default p of JArr vs \<Rightarrow> JArr vs | _ \<Rightarrow> JArr []) params
            else params)
         in Inr (Gathering params' (map_set (np_name p) (json_get (JObj params') (np_name p)) full)))
      else if v \<noteq> JUndefined then
        (case np_options p of
           PropertyList props \<Rightarrow>
             res_bind (lower props v nroot (np_type p)) (\<lambda>t. Inr (set_both (np_name p) t params full))
         | _ \<Rightarrow> Inl TypeError)
      else if returnDefaults then Inr (set_both (np_name p) (np_default p) params full)
      else Inr (Gathering params full))"

text \<open>\<open>options.find(...)\<close>, and the \<open>values\<close> of what is found.\<close>

definition find_collection :: "INodeProperties \<Rightarrow> string \<Rightarrow> INodeProperties list option res" where
  "find_collection p itemName =
     (case np_options p of
        PropertyCollections cs \<Rightarrow> Inr (map_option pc_values (find (\<lambda>c. pc_name c = itemName) cs))
      | _ \<Rightarrow> Inl TypeError)"

definition fixed_item ::
  "lower \<Rightarrow> INodeProperties \<Rightarrow> json \<Rightarrow> json \<Rightarrow> json \<Rightarrow> (string, json) js_map \<Rightarrow> string \<Rightarrow>
   (string, json) js_map res" where
  "fixed_item lower p v propertyValues nroot collectionValues itemName =
     (if np_multipleValues p = Some True then
        res_bind (iterate (json_at propertyValues itemName)) (\<lambda>items.
        res_bind (map_res (\<lambda>item. res_bind (find_collection p itemName) (\<lambda>found.
            case found of
              None \<Rightarrow> Inl (ApplicationError ''Could not find property option'')
            | Some props \<Rightarrow> lower props item nroot (np_type p))) items) (\<lambda>ts.
          Inr (map_set itemName (JArr ts) collectionValues)))
      else
        res_bind (find_collection p itemName) (\<lambda>found.
          case found of
            None \<Rightarrow> Inr collectionValues
          | Some props \<Rightarrow>
              if v = JUndefined then Inl TypeError
              else res_bind (lower props (json_at v itemName) nroot (np_type p)) (\<lambda>t.
                Inr (if object_keys t = [] then collectionValues else map_set itemName t collectionValues))))"

definition fixed_collection_step ::
  "lower \<Rightarrow> INodeProperties \<Rightarrow> json \<Rightarrow> json \<Rightarrow> bool \<Rightarrow> json \<Rightarrow> (string, json) js_map \<Rightarrow>
   (string, json) js_map \<Rightarrow> gathered res" where
  "fixed_collection_step lower p nodeValues v returnDefaults nroot params full =
     (let propertyValues = (if returnDefaults \<and> v = JUndefined then np_default p else v);
          keys = (if truthy propertyValues then object_keys propertyValues else []);
          single_empty = (\<lambda>empty. \<not> returnDefaults \<and> np_multipleValues p = Some False \<and> truthy propertyValues \<and> empty)
      in if single_empty (keys = []) then Inr (Returned nodeValues)
         else res_bind (fold_res (fixed_item lower p v propertyValues nroot) [] keys) (\<lambda>collectionValues.
           let params1 =
             (if single_empty (collectionValues = [] \<and> keys \<noteq> [] \<and> (case propertyValues of JObj _ \<Rightarrow> True | _ \<Rightarrow> False))
              then map_set (np_name p) (JObj (map (\<lambda>k. (k, JObj [])) keys)) params else params)
           in Inr (if collectionValues \<noteq> [] \<or> returnDefaults
                   then set_both (np_name p) (JObj collectionValues) params1 full
                   else Gathering params1 full)))"

text \<open>
  One property. The values that display rules are checked against are given, or are those gathered so
  far; the root is given, or the same.
\<close>

record gathering =
  ga_values :: json
  ga_returnDefaults :: bool
  ga_returnNoneDisplayed :: bool
  ga_version :: "rat option"
  ga_onlySimpleTypes :: bool
  ga_check :: "json option"
  ga_root :: "json option"
  ga_parentType :: "string option"

definition parameter_step ::
  "js_library \<Rightarrow> lower \<Rightarrow> string list \<Rightarrow> gathering \<Rightarrow> gathered \<Rightarrow> INodeProperties \<Rightarrow> gathered res" where
  "parameter_step lib lower duplicates g st p =
     (case st of
        Returned _ \<Rightarrow> Inr st
      | Gathering params full \<Rightarrow>
          let name = np_name p; v = json_get (ga_values g) name;
              check = (case ga_check g of Some c \<Rightarrow> c | None \<Rightarrow> JObj full);
              nroot = (case ga_root g of Some r \<Rightarrow> r | None \<Rightarrow> check);
              displayed = displayParameter lib check p (ga_version g) (Some nroot)
          in if \<not> truthy (ga_values g) \<or>
                (v = JUndefined \<and> (\<not> ga_returnDefaults g \<or> ga_parentType g = Some ''collection''))
             then Inr st
             else res_bind (if ga_returnNoneDisplayed g then Inr True else displayed) (\<lambda>shown.
               if \<not> shown then Inr st
               else if np_type p \<notin> {''collection'', ''fixedCollection''} then
                 res_bind (if name \<in> set duplicates then displayed else Inr True) (\<lambda>shown.
                   if \<not> shown then Inr st
                   else case simple_value lib p v (ga_returnDefaults g) (ga_parentType g) of
                     None \<Rightarrow> Inr st
                   | Some x \<Rightarrow> Inr (set_both name x params full))
               else if ga_onlySimpleTypes g then Inr st
               else if np_type p = ''collection'' then
                 collection_step lower p v (ga_returnDefaults g) nroot params full
               else fixed_collection_step lower p (ga_values g) v (ga_returnDefaults g) nroot params full))"

definition gather :: "js_library \<Rightarrow> lower \<Rightarrow> INodeProperties list \<Rightarrow> gathering \<Rightarrow> json res" where
  "gather lib lower props g =
     res_bind (getParameterResolveOrder props (getParameterDependencies props)) (\<lambda>order.
     res_bind (fold_res (\<lambda>st i. parameter_step lib lower (duplicate_names props) g st (props ! i))
         (Gathering [] []) order) (\<lambda>st.
       Inr (case st of Gathering params full \<Rightarrow> JObj params | Returned v \<Rightarrow> v)))"

text \<open>
  The whole function. Unless everything is displayed anyway, the simple values with their defaults
  are gathered first: display rules are checked against them. Only simple types are resolved there,
  so that pass has no lower level.
\<close>

definition no_lower :: lower where
  "no_lower props v nroot parentType = Inl OutOfFuel"

fun getNodeParameters_fuel ::
  "nat \<Rightarrow> js_library \<Rightarrow> INodeProperties list \<Rightarrow> json \<Rightarrow> bool \<Rightarrow> bool \<Rightarrow> rat option \<Rightarrow> bool \<Rightarrow> bool \<Rightarrow>
   json option \<Rightarrow> string option \<Rightarrow> json res" where
  "getNodeParameters_fuel 0 lib props nodeValues returnDefaults returnNoneDisplayed version
     onlySimpleTypes dataIsResolved nodeValuesRoot parentType = Inl OutOfFuel"
| "getNodeParameters_fuel (Suc fuel) lib props nodeValues returnDefaults returnNoneDisplayed version
     onlySimpleTypes dataIsResolved nodeValuesRoot parentType =
     (let g = \<lparr>ga_values = nodeValues, ga_returnDefaults = returnDefaults,
            ga_returnNoneDisplayed = returnNoneDisplayed, ga_version = version,
            ga_onlySimpleTypes = onlySimpleTypes, ga_check = None, ga_root = nodeValuesRoot,
            ga_parentType = parentType\<rparr>;
          lower = (\<lambda>props v nroot parentType. getNodeParameters_fuel fuel lib props v returnDefaults
            returnNoneDisplayed version False False (Some nroot) (Some parentType))
      in res_bind
          (if \<not> dataIsResolved \<and> \<not> returnNoneDisplayed then
             res_bind (gather lib no_lower props (g\<lparr>ga_returnDefaults := True, ga_returnNoneDisplayed := True,
                 ga_onlySimpleTypes := True\<rparr>)) (\<lambda>c. Inr (Some c))
           else Inr None)
          (\<lambda>check. gather lib lower props (g\<lparr>ga_check := check\<rparr>)))"

primrec property_depth :: "INodeProperties \<Rightarrow> nat"
  and options_depth :: "property_options \<Rightarrow> nat"
  and collection_depth :: "property_collection \<Rightarrow> nat" where
  "property_depth (NodeProperty name type def dops multiple options) = options_depth options"
| "options_depth NoOptions = 0"
| "options_depth (PropertyList ps) = Suc (foldr max (map property_depth ps) 0)"
| "options_depth (PropertyCollections cs) = foldr max (map collection_depth cs) 0"
| "options_depth (Choices xs) = 0"
| "collection_depth (PropertyCollection name ps) = Suc (foldr max (map property_depth ps) 0)"

definition properties_depth :: "INodeProperties list \<Rightarrow> nat" where
  "properties_depth props = foldr max (map property_depth props) 0"

definition getNodeParameters ::
  "js_library \<Rightarrow> INodeProperties list \<Rightarrow> json \<Rightarrow> bool \<Rightarrow> bool \<Rightarrow> rat option \<Rightarrow> json res" where
  "getNodeParameters lib props nodeValues returnDefaults returnNoneDisplayed version =
     getNodeParameters_fuel (Suc (properties_depth props)) lib props nodeValues returnDefaults
       returnNoneDisplayed version False False None None"

end
