(* ===== verification/NodeParameterFacts.thy ===== *)
theory NodeParameterFacts
  imports NodeParameters Samples
begin

text \<open>
  Facts about the parameters of a node: the search for an order of resolution ends and respects the
  dependencies, the recursion over nested properties has enough fuel, and on simple properties the
  values gathered are known exactly, so that leaving defaults out loses nothing.
\<close>

section \<open>The order of resolution\<close>

definition dependencies_of :: "INodeProperties list \<Rightarrow> (string, string list) js_map \<Rightarrow> nat \<Rightarrow> string list" where
  "dependencies_of props deps i = (case map_of deps (np_name (props ! i)) of None \<Rightarrow> [] | Some ds \<Rightarrow> ds)"

abbreviation names_at :: "INodeProperties list \<Rightarrow> nat list \<Rightarrow> string list" where
  "names_at props is \<equiv> map (\<lambda>i. np_name (props ! i)) is"

text \<open>One iteration, apart from the counters.\<close>

lemma missing_dependencies_Nil [simp]: "missing_dependencies resolved [] = []"
  by (simp add: missing_dependencies_def)

definition next_queue :: "INodeProperties list \<Rightarrow> (string, string list) js_map \<Rightarrow> string list \<Rightarrow> nat \<Rightarrow> nat list \<Rightarrow> nat list" where
  "next_queue props deps resolved i queue =
     queue @ map (\<lambda>d. i) (missing_dependencies resolved (dependencies_of props deps i))"

lemma resolve_loop_visit:
  assumes "rs_queue s = i # queue" "resolve_loop (Suc fuel) props deps s = r"
  obtains (no_entry) "r = Inl TypeError"
  | (gave_up) "r = Inl (ApplicationError ''Could not resolve parameter dependencies. Max iterations reached!'')"
  | (visited) s' where "resolve_loop fuel props deps s' = r"
      "rs_order s' = rs_order s @ [i]" "rs_resolved s' = rs_resolved s @ [np_name (props ! i)]"
      "rs_queue s' = next_queue props deps (rs_resolved s) i queue"
  using assms
  by (auto simp: Let_def next_queue_def dependencies_of_def split: option.splits list.splits if_splits)

text \<open>What the loop has established about an index that is not waiting in the queue any more.\<close>

definition placed :: "INodeProperties list \<Rightarrow> (string, string list) js_map \<Rightarrow> nat list \<Rightarrow> nat \<Rightarrow> bool" where
  "placed props deps order i \<longleftrightarrow> (\<exists>pre post. order = pre @ i # post \<and> i \<notin> set post \<and>
     (\<forall>d \<in> set (dependencies_of props deps i). starts_with d ''/'' \<or> d \<in> set (names_at props pre)))"

definition resolve_inv :: "INodeProperties list \<Rightarrow> (string, string list) js_map \<Rightarrow> resolving \<Rightarrow> bool" where
  "resolve_inv props deps s \<longleftrightarrow>
     rs_resolved s = names_at props (rs_order s) \<and>
     set (rs_order s) \<union> set (rs_queue s) = {..<length props} \<and>
     (\<forall>i < length props. i \<in> set (rs_queue s) \<or> placed props deps (rs_order s) i)"

lemma placed_append: "placed props deps order j \<Longrightarrow> j \<noteq> i \<Longrightarrow> placed props deps (order @ [i]) j"
  unfolding placed_def by (metis Un_iff append.assoc append_Cons empty_iff list.set(1) set_ConsD set_append)

lemma placed_last:
  "missing_dependencies (names_at props order) (dependencies_of props deps i) = [] \<Longrightarrow> placed props deps (order @ [i]) i"
  unfolding placed_def by (rule exI [of _ order], rule exI [of _ "[]"])
    (auto simp: missing_dependencies_def filter_empty_conv)

lemma resolve_loop_placed:
  "resolve_inv props deps s \<Longrightarrow> resolve_loop fuel props deps s = Inr order \<Longrightarrow>
   set order = {..<length props} \<and> (\<forall>i < length props. placed props deps order i)"
proof (induction fuel arbitrary: s)
  case (Suc fuel)
  show ?case
  proof (cases "rs_queue s")
    case Nil
    with Suc.prems show ?thesis by (simp add: resolve_inv_def)
  next
    case (Cons i queue)
    from resolve_loop_visit [OF this Suc.prems(2)] obtain s' where s':
      "resolve_loop fuel props deps s' = Inr order" "rs_order s' = rs_order s @ [i]"
      "rs_resolved s' = rs_resolved s @ [np_name (props ! i)]" "rs_queue s' = next_queue props deps (rs_resolved s) i queue"
      by auto
    have "placed props deps (rs_order s @ [i]) j" if "j < length props" "j \<notin> set (rs_queue s')" for j
    proof (cases "j = i")
      case True
      with that s'(4) have "missing_dependencies (rs_resolved s) (dependencies_of props deps i) = []"
        by (cases "missing_dependencies (rs_resolved s) (dependencies_of props deps i)") (auto simp: next_queue_def)
      with Suc.prems(1) True show ?thesis by (simp add: placed_last resolve_inv_def)
    next
      case False
      with that s'(4) Cons Suc.prems(1) have "placed props deps (rs_order s) j" by (auto simp: resolve_inv_def next_queue_def)
      with False show ?thesis by (simp add: placed_append)
    qed
    moreover have "set (rs_order s') \<union> set (rs_queue s') = {..<length props}"
      using Suc.prems(1) Cons s'(2,4) by (auto simp: resolve_inv_def next_queue_def)
    ultimately have "resolve_inv props deps s'" using Suc.prems(1) s' by (auto simp: resolve_inv_def)
    from Suc.IH [OF this s'(1)] show ?thesis .
  qed
qed simp

lemma resolve_inv_start: "resolve_inv props deps (start_resolving (length props))"
  by (auto simp: resolve_inv_def start_resolving_def)

text \<open>
  The loop ends. After each property has been visited once, every name of a property is resolved, and
  only properties with a dependency that is no property are queued again (\<open>stuck\<close>); once the queue
  has no others, it does not become shorter, and the loop gives up.
\<close>

definition stuck :: "INodeProperties list \<Rightarrow> (string, string list) js_map \<Rightarrow> nat \<Rightarrow> bool" where
  "stuck props deps i \<longleftrightarrow>
     (\<exists>d \<in> set (dependencies_of props deps i). \<not> starts_with d ''/'' \<and> d \<notin> np_name ` set props)"

definition counters_ok :: "INodeProperties list \<Rightarrow> resolving \<Rightarrow> resolving \<Rightarrow> bool" where
  "counters_ok props s s' \<longleftrightarrow> rs_iterations s' = Suc (rs_iterations s) \<and>
     (rs_lastReduction s' = (if length (rs_queue s') < rs_lastLength s then int (rs_iterations s') else rs_lastReduction s) \<and>
        rs_lastLength s' = length (rs_queue s') \<and> int (rs_iterations s') \<le> rs_lastReduction s' + int (length props))"

lemma resolve_loop_step_fuelled:
  assumes "rs_queue s = i # queue"
    and "\<And>s'. rs_resolved s' = rs_resolved s @ [np_name (props ! i)] \<Longrightarrow>
      rs_queue s' = next_queue props deps (rs_resolved s) i queue \<Longrightarrow>
      rs_iterations s' = Suc (rs_iterations s) \<Longrightarrow>
      rs_lastReduction s \<le> int (rs_iterations s) \<Longrightarrow> rs_lastReduction s' \<le> int (rs_iterations s') \<Longrightarrow>
      dependencies_of props deps i \<noteq> [] \<longrightarrow> counters_ok props s s' \<Longrightarrow> fuelled (resolve_loop fuel props deps s')"
    and "rs_lastReduction s \<le> int (rs_iterations s)"
  shows "fuelled (resolve_loop (Suc fuel) props deps s)"
proof (cases "map_of deps (np_name (props ! i))")
  case None
  with assms(1) show ?thesis by simp
next
  case (Some ds)
  with assms show ?thesis
    by (cases ds) (simp_all add: Let_def next_queue_def counters_ok_def dependencies_of_def)
qed

lemma stuck_queued:
  assumes "stuck props deps i" "set resolved \<subseteq> np_name ` set props"
  shows "dependencies_of props deps i \<noteq> []" "length queue < length (next_queue props deps resolved i queue)"
proof -
  from assms obtain d where d: "d \<in> set (dependencies_of props deps i)" "\<not> starts_with d ''/''" "d \<notin> set resolved"
    by (auto simp: stuck_def)
  then show "dependencies_of props deps i \<noteq> []" by auto
  from d have "d \<in> set (missing_dependencies resolved (dependencies_of props deps i))"
    by (simp add: missing_dependencies_def)
  then have "missing_dependencies resolved (dependencies_of props deps i) \<noteq> []" by auto
  then show "length queue < length (next_queue props deps resolved i queue)" by (simp add: next_queue_def)
qed

abbreviation known :: "INodeProperties list \<Rightarrow> resolving \<Rightarrow> bool" where
  "known props s \<equiv> set (rs_resolved s) \<subseteq> np_name ` set props \<and> set (rs_queue s) \<subseteq> {..<length props}"

lemma known_next: "rs_queue s = i # queue \<Longrightarrow> known props s \<Longrightarrow>
    rs_resolved s' = rs_resolved s @ [np_name (props ! i)] \<Longrightarrow>
    rs_queue s' = next_queue props deps (rs_resolved s) i queue \<Longrightarrow> known props s'"
  by (auto simp: next_queue_def)

lemma resolve_loop_gives_up:
  assumes "\<forall>i \<in> set (rs_queue s). stuck props deps i" "known props s"
    and "rs_lastLength s \<le> length (rs_queue s)" "rs_lastReduction s \<le> int (rs_iterations s)"
    and "rs_lastReduction s + int (length props) - int (rs_iterations s) < int fuel" "0 < fuel"
  shows "fuelled (resolve_loop fuel props deps s)"
  using assms
proof (induction fuel arbitrary: s)
  case (Suc fuel)
  show ?case
  proof (cases "rs_queue s")
    case (Cons i queue)
    show ?thesis
    proof (rule resolve_loop_step_fuelled [OF Cons _ Suc.prems(4)])
      fix s' :: resolving
      assume s': "rs_resolved s' = rs_resolved s @ [np_name (props ! i)]"
        "rs_queue s' = next_queue props deps (rs_resolved s) i queue" "rs_iterations s' = Suc (rs_iterations s)"
        "rs_lastReduction s' \<le> int (rs_iterations s')" "dependencies_of props deps i \<noteq> [] \<longrightarrow> counters_ok props s s'"
      from Suc.prems(1) Cons have i: "stuck props deps i" by simp
      have known: "known props s'" using known_next [OF Cons Suc.prems(2) s'(1,2)] .
      note stuck = stuck_queued [OF i conjunct1 [OF Suc.prems(2)]]
      from stuck(1) s'(5) have c: "counters_ok props s s'" by simp
      have grows: "\<not> length (rs_queue s') < rs_lastLength s"
        using stuck(2) [of queue] s'(2) Suc.prems(3) Cons by simp
      from c grows have r: "rs_lastReduction s' = rs_lastReduction s" "int (rs_iterations s') \<le> rs_lastReduction s' + int (length props)"
        unfolding counters_ok_def by simp_all
      show "fuelled (resolve_loop fuel props deps s')"
      proof (rule Suc.IH)
        show "\<forall>i \<in> set (rs_queue s'). stuck props deps i" using Suc.prems(1) Cons s'(2) i by (auto simp: next_queue_def)
        show "rs_lastLength s' \<le> length (rs_queue s')" using c by (simp add: counters_ok_def)
        show "rs_lastReduction s' + int (length props) - int (rs_iterations s') < int fuel" "0 < fuel"
          using r s'(3) Suc.prems(5) by auto
      qed (use known s'(4) in auto)
    qed
  qed simp
qed simp

lemma resolve_loop_revisits:
  assumes "rs_queue s = old @ new" "\<forall>i \<in> set new. stuck props deps i" "known props s"
    and "np_name ` set props \<subseteq> set (rs_resolved s)"
    and "rs_lastReduction s \<le> int (rs_iterations s)" "length old + length props + 3 \<le> fuel"
  shows "fuelled (resolve_loop fuel props deps s)"
  using assms
proof (induction old arbitrary: s new fuel)
  case Nil
  then obtain fuel' where f: "fuel = Suc fuel'" by (cases fuel) auto
  show ?case
  proof (cases "rs_queue s")
    case (Cons i queue)
    show ?thesis unfolding f
    proof (rule resolve_loop_step_fuelled [OF Cons _ Nil.prems(5)])
      fix s' :: resolving
      assume s': "rs_resolved s' = rs_resolved s @ [np_name (props ! i)]"
        "rs_queue s' = next_queue props deps (rs_resolved s) i queue" "rs_iterations s' = Suc (rs_iterations s)"
        "rs_lastReduction s' \<le> int (rs_iterations s')" "dependencies_of props deps i \<noteq> [] \<longrightarrow> counters_ok props s s'"
      from Nil.prems(1,2) Cons have i: "stuck props deps i" by (metis append_Nil list.set_intros(1))
      from stuck_queued(1) [OF i conjunct1 [OF Nil.prems(3)]] s'(5) have c: "counters_ok props s s'" by simp
      show "fuelled (resolve_loop fuel' props deps s')"
      proof (rule resolve_loop_gives_up)
        show "\<forall>i \<in> set (rs_queue s'). stuck props deps i" using Nil.prems(1,2) Cons s'(2) i by (auto simp: next_queue_def)
        show "known props s'" using known_next [OF Cons Nil.prems(3) s'(1,2)] .
      qed (use c s'(4) Nil.prems(6) f in \<open>auto simp: counters_ok_def\<close>)
    qed
  qed (simp add: f)
next
  case (Cons i old)
  then obtain fuel' where f: "fuel = Suc fuel'" by (cases fuel) auto
  have q: "rs_queue s = i # (old @ new)" using Cons.prems(1) by simp
  show ?case unfolding f
  proof (rule resolve_loop_step_fuelled [OF q _ Cons.prems(5)])
    fix s' :: resolving
    assume s': "rs_resolved s' = rs_resolved s @ [np_name (props ! i)]"
      "rs_queue s' = next_queue props deps (rs_resolved s) i (old @ new)" "rs_lastReduction s' \<le> int (rs_iterations s')"
    let ?again = "map (\<lambda>d. i) (missing_dependencies (rs_resolved s) (dependencies_of props deps i))"
    have "stuck props deps i" if "d \<in> set (missing_dependencies (rs_resolved s) (dependencies_of props deps i))" for d
      using that Cons.prems(4) by (auto simp: missing_dependencies_def stuck_def)
    then have new: "\<forall>j \<in> set (new @ ?again). stuck props deps j" using Cons.prems(2) by auto
    show "fuelled (resolve_loop fuel' props deps s')"
      by (rule Cons.IH [OF _ new known_next [OF q Cons.prems(3) s'(1,2)]])
        (use s' Cons.prems(4,6) f in \<open>auto simp: next_queue_def\<close>)
  qed
qed

lemma resolve_loop_first_visits:
  assumes "rs_queue s = [k..<length props] @ pushed" "k \<le> length props" "known props s"
    and "\<forall>i < k. np_name (props ! i) \<in> set (rs_resolved s)" "rs_lastReduction s \<le> int (rs_iterations s)"
    and "(length props - k) + length pushed +
      sum_list (map (\<lambda>i. length (dependencies_of props deps i)) [k..<length props]) + length props + 3 \<le> fuel"
  shows "fuelled (resolve_loop fuel props deps s)"
  using assms
proof (induction "length props - k" arbitrary: k s pushed fuel)
  case 0
  then have k: "k = length props" by simp
  show ?case
  proof (rule resolve_loop_revisits [where old = pushed and new = "[]"])
    show "np_name ` set props \<subseteq> set (rs_resolved s)" using 0(5) k by (auto simp: in_set_conv_nth)
  qed (use 0 k in auto)
next
  case (Suc m)
  then have k: "k < length props" by simp
  then have q: "rs_queue s = k # ([Suc k..<length props] @ pushed)" using Suc.prems(1) by (simp add: upt_conv_Cons)
  obtain fuel' where f: "fuel = Suc fuel'" using Suc.prems(6) by (cases fuel) auto
  show ?case unfolding f
  proof (rule resolve_loop_step_fuelled [OF q _ Suc.prems(5)])
    fix s' :: resolving
    assume s': "rs_resolved s' = rs_resolved s @ [np_name (props ! k)]"
      "rs_queue s' = next_queue props deps (rs_resolved s) k ([Suc k..<length props] @ pushed)"
      "rs_lastReduction s' \<le> int (rs_iterations s')"
    let ?again = "map (\<lambda>d. k) (missing_dependencies (rs_resolved s) (dependencies_of props deps k))"
    have len: "length ?again \<le> length (dependencies_of props deps k)"
      by (simp add: missing_dependencies_def)
    show "fuelled (resolve_loop fuel' props deps s')"
    proof (rule Suc.hyps(1) [of "Suc k" s' "pushed @ ?again"])
      show "\<forall>i < Suc k. np_name (props ! i) \<in> set (rs_resolved s')"
        using Suc.prems(4) s'(1) by (auto simp: less_Suc_eq)
      show "length props - Suc k + length (pushed @ ?again) +
          sum_list (map (\<lambda>i. length (dependencies_of props deps i)) [Suc k..<length props]) + length props + 3 \<le> fuel'"
        using Suc.prems(6) f len k by (simp add: upt_conv_Cons)
    qed (use Suc.hyps(2) k s' known_next [OF q Suc.prems(3) s'(1,2)] in \<open>auto simp: next_queue_def\<close>)
  qed
qed

lemma getParameterResolveOrder_fuelled [resF]: "fuelled (getParameterResolveOrder props deps)"
proof -
  have "sum_list (map (\<lambda>i. length (dependencies_of props deps i)) [0..<length props])
      = dependency_count props deps"
    unfolding dependency_count_def
    by (rule arg_cong [where f = sum_list], rule nth_equalityI) (auto simp: dependencies_of_def split: option.splits)
  then show ?thesis unfolding getParameterResolveOrder_def
    by (intro resolve_loop_first_visits [where k = 0 and pushed = "[]"]) (auto simp: start_resolving_def)
qed

text \<open>C13: the search for an order in which the parameters of a node are resolved ends; and when it finds
  one, the order has every parameter, and none is resolved for the last time before all the
  parameters it depends on have been resolved (those of the root level apart).\<close>

theorem getParameterResolveOrder_respects:
  "getParameterResolveOrder props deps \<noteq> Inl OutOfFuel \<and>
   (\<forall>order. getParameterResolveOrder props deps = Inr order \<longrightarrow>
      set order = {..<length props} \<and> (\<forall>i < length props. placed props deps order i))"
  using getParameterResolveOrder_fuelled [of props deps] resolve_loop_placed [OF resolve_inv_start [of props deps]]
  by (simp add: fuelled_def getParameterResolveOrder_def del: resolve_loop.simps)

section \<open>Simple properties\<close>

definition simple_properties :: "INodeProperties list \<Rightarrow> bool" where
  "simple_properties props \<longleftrightarrow> distinct (map np_name props) \<and>
     (\<forall>p \<in> set props. np_type p \<notin> {''collection'', ''fixedCollection''})"

lemma duplicate_names_distinct:
  assumes "distinct (map np_name props)"
  shows "duplicate_names props = []"
proof -
  have "foldl (\<lambda>(names, dups) p.
      if np_name p \<in> set names then (names, if np_name p \<in> set dups then dups else dups @ [np_name p])
      else (names @ [np_name p], dups)) (names, []) props = (names @ map np_name props, [])"
    if "distinct (names @ map np_name props)" for names
    using that by (induction props arbitrary: names) auto
  from this [of "[]"] assms show ?thesis by (simp add: duplicate_names_def)
qed

definition skipped :: "gathering \<Rightarrow> INodeProperties \<Rightarrow> bool" where
  "skipped g p \<longleftrightarrow> json_get (ga_values g) (np_name p) = JUndefined \<and>
     (\<not> ga_returnDefaults g \<or> ga_parentType g = Some ''collection'')"

text \<open>The values the display rules are checked against, and the check.\<close>

definition display_of :: "js_library \<Rightarrow> gathering \<Rightarrow> json \<Rightarrow> INodeProperties \<Rightarrow> bool res" where
  "display_of lib g c p =
     displayParameter lib c p (ga_version g) (Some (case ga_root g of Some r \<Rightarrow> r | None \<Rightarrow> c))"

definition value_of :: "js_library \<Rightarrow> gathering \<Rightarrow> json \<Rightarrow> INodeProperties \<Rightarrow> json option" where
  "value_of lib g c p =
     (if \<not> skipped g p \<and> (ga_returnNoneDisplayed g \<or> display_of lib g c p = Inr True)
      then simple_value lib p (json_get (ga_values g) (np_name p)) (ga_returnDefaults g) (ga_parentType g)
      else None)"

definition put_value :: "(INodeProperties \<Rightarrow> json option) \<Rightarrow> (string, json) js_map \<Rightarrow> INodeProperties \<Rightarrow> (string, json) js_map" where
  "put_value val m p = (case val p of None \<Rightarrow> m | Some x \<Rightarrow> map_set (np_name p) x m)"

lemma parameter_step_simple:
  assumes "np_type p \<notin> {''collection'', ''fixedCollection''}" "truthy (ga_values g)"
    and "ga_returnNoneDisplayed g \<or> ga_check g = Some c"
    and "parameter_step lib lower [] g (Gathering m m) p = Inr st"
  shows "st = Gathering (put_value (value_of lib g c) m p) (put_value (value_of lib g c) m p) \<and>
    (skipped g p \<or> ga_returnNoneDisplayed g \<or> (\<exists>b. display_of lib g c p = Inr b))"
  using assms
  by (auto simp: parameter_step_def Let_def skipped_def value_of_def put_value_def display_of_def set_both_def resI
      split: if_splits option.splits)

lemma gather_simple:
  assumes "simple_properties props" "truthy (ga_values g)" "ga_returnNoneDisplayed g \<or> ga_check g = Some c"
    and "gather lib lower props g = Inr r"
  obtains order where "getParameterResolveOrder props (getParameterDependencies props) = Inr order"
    "r = JObj (foldl (put_value (value_of lib g c)) [] (map ((!) props) order))"
    "\<And>p. p \<in> set props \<Longrightarrow> skipped g p \<or> ga_returnNoneDisplayed g \<or> (\<exists>b. display_of lib g c p = Inr b)"
proof -
  from assms(1) have dups: "duplicate_names props = []" by (simp add: simple_properties_def duplicate_names_distinct)
  from assms(4) obtain order st where
    order: "getParameterResolveOrder props (getParameterDependencies props) = Inr order" and
    st: "fold_res (\<lambda>st i. parameter_step lib lower [] g st (props ! i)) (Gathering [] []) order = Inr st" and
    r: "r = (case st of Gathering params full \<Rightarrow> JObj params | Returned v \<Rightarrow> v)"
    by (auto simp: gather_def dups resI)
  from order getParameterResolveOrder_respects have idx: "set order = {..<length props}" by blast
  have "st = Gathering (foldl (put_value (value_of lib g c)) m (map ((!) props) is))
        (foldl (put_value (value_of lib g c)) m (map ((!) props) is)) \<and>
      (\<forall>i \<in> set is. skipped g (props ! i) \<or> ga_returnNoneDisplayed g \<or> (\<exists>b. display_of lib g c (props ! i) = Inr b))"
    if "fold_res (\<lambda>st i. parameter_step lib lower [] g st (props ! i)) (Gathering m m) is = Inr st"
      "set is \<subseteq> {..<length props}" for m "is"
    using that
  proof (induction "is" arbitrary: m)
    case (Cons i "is")
    from Cons.prems assms(1) have simple: "np_type (props ! i) \<notin> {''collection'', ''fixedCollection''}"
      by (auto simp: simple_properties_def)
    from Cons.prems(1) obtain st1 where st1: "parameter_step lib lower [] g (Gathering m m) (props ! i) = Inr st1"
      "fold_res (\<lambda>st i. parameter_step lib lower [] g st (props ! i)) st1 is = Inr st"
      by (auto simp: resI)
    from parameter_step_simple [OF simple assms(2,3) st1(1)] Cons.IH st1(2) Cons.prems(2) show ?case by auto
  qed simp
  from this [OF st] idx r order show thesis by (intro that) (auto simp: in_set_conv_nth)
qed

lemma map_of_put_value:
  "map_of (put_value val m p) k = (if np_name p = k \<and> val p \<noteq> None then val p else map_of m k)"
  by (auto simp: put_value_def split: option.splits)

lemma map_of_put_values:
  assumes "\<And>q. q \<in> set ps \<Longrightarrow> np_name q = k \<Longrightarrow> val q = v"
  shows "map_of (foldl (put_value val) m ps) k =
    (if v \<noteq> None \<and> k \<in> np_name ` set ps then v else map_of m k)"
  using assms
proof (induction ps arbitrary: m)
  case (Cons p ps)
  have "map_of (foldl (put_value val) (put_value val m p) ps) k =
    (if v \<noteq> None \<and> k \<in> np_name ` set ps then v else map_of (put_value val m p) k)"
    by (rule Cons.IH) (simp add: Cons.prems)
  with Cons.prems [of p] show ?case unfolding map_of_put_value by auto
qed simp

lemma value_gathered:
  assumes "simple_properties props" "set order = {..<length props}"
  shows "p \<in> set props \<Longrightarrow> map_of (foldl (put_value val) [] (map ((!) props) order)) (np_name p) = val p"
    "k \<notin> np_name ` set props \<Longrightarrow> map_of (foldl (put_value val) [] (map ((!) props) order)) k = None"
proof -
  have ps: "set (map ((!) props) order) = set props"
    unfolding set_map assms(2) by (auto simp: in_set_conv_nth)
  have inj: "inj_on np_name (set props)" using assms(1) by (simp add: simple_properties_def distinct_map)
  show "map_of (foldl (put_value val) [] (map ((!) props) order)) (np_name p) = val p" if "p \<in> set props"
  proof -
    have "val q = val p" if "q \<in> set (map ((!) props) order)" "np_name q = np_name p" for q
      using that \<open>p \<in> set props\<close> inj_onD [OF inj] unfolding ps by metis
    from map_of_put_values [OF this, of "map ((!) props) order"] that ps show ?thesis by simp
  qed
  show "map_of (foldl (put_value val) [] (map ((!) props) order)) k = None" if "k \<notin> np_name ` set props"
    by (subst map_of_put_values [where v = None]) (use that ps in auto)
qed

text \<open>On simple properties a pass that resolves only simple types does the same.\<close>

lemma gather_simple_cong:
  assumes "simple_properties props"
  shows "gather lib lower props (g\<lparr>ga_onlySimpleTypes := b\<rparr>) = gather lib lower' props (g\<lparr>ga_onlySimpleTypes := b'\<rparr>)"
proof -
  have step: "parameter_step lib lower dups (g\<lparr>ga_onlySimpleTypes := b\<rparr>) st p
      = parameter_step lib lower' dups (g\<lparr>ga_onlySimpleTypes := b'\<rparr>) st p" if "p \<in> set props" for p dups st
    using assms that by (cases st) (simp_all add: simple_properties_def parameter_step_def Let_def cong: if_cong)
  show ?thesis unfolding gather_def
  proof (rule res_bind_cong [OF refl])
    fix order
    assume "getParameterResolveOrder props (getParameterDependencies props) = Inr order"
    then have "set order = {..<length props}" using getParameterResolveOrder_respects by blast
    then show "res_bind (fold_res (\<lambda>st i. parameter_step lib lower (duplicate_names props) (g\<lparr>ga_onlySimpleTypes := b\<rparr>) st (props ! i))
          (Gathering [] []) order) (\<lambda>st. Inr (case st of Gathering params full \<Rightarrow> JObj params | Returned v \<Rightarrow> v))
      = res_bind (fold_res (\<lambda>st i. parameter_step lib lower' (duplicate_names props) (g\<lparr>ga_onlySimpleTypes := b'\<rparr>) st (props ! i))
          (Gathering [] []) order) (\<lambda>st. Inr (case st of Gathering params full \<Rightarrow> JObj params | Returned v \<Rightarrow> v))"
      by (intro arg_cong [where f = "\<lambda>m. res_bind m (\<lambda>st. Inr (case st of Gathering params full \<Rightarrow> JObj params | Returned v \<Rightarrow> v))"]
        fold_res_cong [OF refl refl] step) auto
  qed
qed

definition top_level :: "json \<Rightarrow> bool \<Rightarrow> bool \<Rightarrow> rat option \<Rightarrow> gathering" where
  "top_level nodeValues returnDefaults returnNoneDisplayed version =
     \<lparr>ga_values = nodeValues, ga_returnDefaults = returnDefaults, ga_returnNoneDisplayed = returnNoneDisplayed,
      ga_version = version, ga_onlySimpleTypes = False, ga_check = None, ga_root = None, ga_parentType = None\<rparr>"

lemma getNodeParameters_gather:
  assumes "simple_properties props"
    and "getNodeParameters lib props nodeValues rd rnd version = Inr r"
  obtains lower c where
    "rnd \<or> getNodeParameters lib props nodeValues True True version = Inr c"
    "gather lib lower props ((top_level nodeValues rd rnd version)\<lparr>ga_check := (if rnd then None else Some c)\<rparr>) = Inr r"
proof -
  let ?lower = "\<lambda>rd rnd props v nroot parentType. getNodeParameters_fuel (properties_depth props) lib props v rd rnd
    version False False (Some nroot) (Some parentType)"
  have all: "getNodeParameters lib props nodeValues rd True version
      = gather lib (\<lambda>ps v nroot parentType. getNodeParameters_fuel (properties_depth props) lib ps v rd True version
          False False (Some nroot) (Some parentType)) props (top_level nodeValues rd True version)" for rd
    by (simp add: getNodeParameters_def top_level_def)
  show thesis
  proof (cases rnd)
    case True
    with assms(2) all show thesis by (intro that) (auto simp: top_level_def)
  next
    case False
    with assms(2) obtain c where
      c: "gather lib no_lower props ((top_level nodeValues True True version)\<lparr>ga_onlySimpleTypes := True\<rparr>) = Inr c" and
      r: "gather lib (\<lambda>ps v nroot parentType. getNodeParameters_fuel (properties_depth props) lib ps v rd False version
          False False (Some nroot) (Some parentType)) props ((top_level nodeValues rd False version)\<lparr>ga_check := Some c\<rparr>) = Inr r"
      by (auto simp: getNodeParameters_def top_level_def resI Let_def)
    have "(top_level nodeValues True True version)\<lparr>ga_onlySimpleTypes := False\<rparr> = top_level nodeValues True True version"
      by (simp add: top_level_def)
    with c have "getNodeParameters lib props nodeValues True True version = Inr c"
      unfolding all using gather_simple_cong [OF assms(1)] by metis
    with r False show thesis by (intro that) auto
  qed
qed

text \<open>Which parameters of a node are kept, for properties without lower levels: the value of a property
  is kept exactly if it is given or defaults are wanted, it is displayed (when the values are checked
  with all the defaults filled in), and it differs from the default (or defaults are wanted); and
  nothing else is.\<close>

theorem getNodeParameters_simple:
  assumes "simple_properties props" "truthy nodeValues"
    and "getNodeParameters lib props nodeValues returnDefaults returnNoneDisplayed version = Inr r"
  shows "\<exists>fields c. r = JObj fields \<and>
    (returnNoneDisplayed \<or> getNodeParameters lib props nodeValues True True version = Inr c) \<and>
    (\<forall>k. k \<notin> np_name ` set props \<longrightarrow> map_of fields k = None) \<and>
    (\<forall>p \<in> set props. map_of fields (np_name p) =
      (if (json_get nodeValues (np_name p) = JUndefined \<and> \<not> returnDefaults) \<or>
          (\<not> returnNoneDisplayed \<and> displayParameter lib c p version (Some c) \<noteq> Inr True) then None
       else simple_value lib p (json_get nodeValues (np_name p)) returnDefaults None))"
proof -
  from getNodeParameters_gather [OF assms(1,3)] obtain lower c where
    c: "returnNoneDisplayed \<or> getNodeParameters lib props nodeValues True True version = Inr c" and
    g: "gather lib lower props ((top_level nodeValues returnDefaults returnNoneDisplayed version)
      \<lparr>ga_check := (if returnNoneDisplayed then None else Some c)\<rparr>) = Inr r" .
  let ?g = "(top_level nodeValues returnDefaults returnNoneDisplayed version)
    \<lparr>ga_check := (if returnNoneDisplayed then None else Some c)\<rparr>"
  have "truthy (ga_values ?g)" "ga_returnNoneDisplayed ?g \<or> ga_check ?g = Some c"
    using assms(2) by (simp_all add: top_level_def)
  from gather_simple [OF assms(1) this g] obtain order where
    order: "getParameterResolveOrder props (getParameterDependencies props) = Inr order" and
    r: "r = JObj (foldl (put_value (value_of lib ?g c)) [] (map ((!) props) order))" .
  from order getParameterResolveOrder_respects have "set order = {..<length props}" by blast
  note fields = value_gathered [OF assms(1) this, of _ "value_of lib ?g c"]
  have "value_of lib ?g c p = (if (json_get nodeValues (np_name p) = JUndefined \<and> \<not> returnDefaults) \<or>
          (\<not> returnNoneDisplayed \<and> displayParameter lib c p version (Some c) \<noteq> Inr True) then None
       else simple_value lib p (json_get nodeValues (np_name p)) returnDefaults None)" for p
    by (simp add: value_of_def skipped_def display_of_def top_level_def)
  with fields c r show ?thesis by (intro exI conjI) auto
qed

section \<open>Leaving defaults out\<close>

lemma strict_eq_imp_eq: "strict_eq a b \<Longrightarrow> a = b"
  by (cases a) auto

text \<open>Equal, or equal for lodash.\<close>

definition same_value :: "js_library \<Rightarrow> string \<times> json \<Rightarrow> string \<times> json \<Rightarrow> bool" where
  "same_value lib e e' \<longleftrightarrow> fst e = fst e' \<and> (snd e' = snd e \<or> lib_isEqual lib (snd e) (snd e'))"

lemma restored_value:
  assumes "np_type p \<noteq> ''resourceLocator''"
    and "v' = (case if v = JUndefined then None else simple_value lib p v False None of None \<Rightarrow> JUndefined | Some x \<Rightarrow> x)"
  obtains x x' where "simple_value lib p v True None = Some x" "simple_value lib p v' True None = Some x'"
    "same_value lib (k, x) (k, x')"
proof (cases "v' = v")
  case True
  with assms(1) show thesis by (cases "simple_value lib p v True None") (auto intro: that simp: simple_value_def same_value_def)
next
  case False
  with assms(2) have v: "v' = JUndefined" "v \<noteq> JUndefined"
    "if is_object v then lib_isEqual lib v (np_default p) else strict_eq v (np_default p)"
    by (auto simp: simple_value_def split: if_splits)
  have "simple_value lib p v' True None = Some (np_default p)" using v(1) assms(1) by (simp add: simple_value_def)
  moreover obtain x where x: "simple_value lib p v True None = Some x" "x = v \<or> x = np_default p"
    using assms(1) v(2) by (auto simp: simple_value_def)
  moreover have "same_value lib (k, x) (k, np_default p)"
    using x(2) v(3) strict_eq_imp_eq by (auto simp: same_value_def split: if_splits)
  ultimately show thesis by (intro that)
qed

lemma same_value_set:
  "list_all2 (same_value lib) m m' \<Longrightarrow> same_value lib (k, x) (k, x') \<Longrightarrow>
   list_all2 (same_value lib) (map_set k x m) (map_set k x' m')"
proof (induction m m' rule: list_all2_induct)
  case (Cons e m e' m')
  then show ?case by (cases e; cases e') (auto simp: same_value_def)
qed simp

lemma same_values_put:
  assumes "\<And>p. p \<in> set ps \<Longrightarrow> \<exists>x x'. val p = Some x \<and> val' p = Some x' \<and> same_value lib (np_name p, x) (np_name p, x')"
    and "list_all2 (same_value lib) m m'"
  shows "list_all2 (same_value lib) (foldl (put_value val) m ps) (foldl (put_value val') m' ps)"
  using assms
proof (induction ps arbitrary: m m')
  case (Cons p ps)
  from Cons.prems(1) obtain x x' where "val p = Some x" "val' p = Some x'" "same_value lib (np_name p, x) (np_name p, x')"
    by force
  with Cons show ?case by (auto simp: put_value_def intro!: same_value_set)
qed simp

lemma getNodeParameters_all:
  assumes "simple_properties props" "truthy nodeValues" "getNodeParameters lib props nodeValues rd True version = Inr r"
    "getParameterResolveOrder props (getParameterDependencies props) = Inr order"
  shows "r = JObj (foldl (put_value (\<lambda>p. if json_get nodeValues (np_name p) = JUndefined \<and> \<not> rd then None
    else simple_value lib p (json_get nodeValues (np_name p)) rd None)) [] (map ((!) props) order))"
proof -
  from getNodeParameters_gather [OF assms(1,3)] obtain lower where
    g: "gather lib lower props ((top_level nodeValues rd True version)\<lparr>ga_check := None\<rparr>) = Inr r" by auto
  let ?g = "(top_level nodeValues rd True version)\<lparr>ga_check := None\<rparr>"
  have "truthy (ga_values ?g)" "ga_returnNoneDisplayed ?g \<or> ga_check ?g = Some c" for c
    using assms(2) by (simp_all add: top_level_def)
  from gather_simple [OF assms(1) this(1) this(2) g] assms(4) have
    "r = JObj (foldl (put_value (value_of lib ?g c)) [] (map ((!) props) order))" for c by auto
  moreover have "value_of lib ?g c = (\<lambda>p. if json_get nodeValues (np_name p) = JUndefined \<and> \<not> rd then None
    else simple_value lib p (json_get nodeValues (np_name p)) rd None)" for c
    by (rule ext) (simp add: value_of_def skipped_def top_level_def)
  ultimately show ?thesis by simp
qed

text \<open>C14: for properties with distinct names, none of which is a collection, a fixed collection or a resource
  locator, and with those that are not displayed returned as well: leaving the defaults of a node out and
  filling them in again gives back the parameters that one would have had with all defaults, the same
  names in the same order, each with the same value or one that is equal to it as a structure. (For fixed
  collections this fails: \<open>empty_fixed_collection_keeps_defaults\<close>, \<open>fixed_collection_default_throws\<close>.)\<close>

theorem defaults_roundtrip:
  assumes "simple_properties props" "\<forall>p \<in> set props. np_type p \<noteq> ''resourceLocator''" "truthy nodeValues"
    and "getNodeParameters lib props nodeValues False True version = Inr stripped"
    and "getNodeParameters lib props stripped True True version = Inr restored"
    and "getNodeParameters lib props nodeValues True True version = Inr full"
  shows "\<exists>fields fields'. full = JObj fields \<and> restored = JObj fields' \<and> list_all2 (same_value lib) fields fields'"
proof -
  from getNodeParameters_gather [OF assms(1,4)] obtain lower g where "gather lib lower props g = Inr stripped" by metis
  then obtain order where order: "getParameterResolveOrder props (getParameterDependencies props) = Inr order"
    by (auto simp: gather_def resI)
  then have idx: "set order = {..<length props}" using getParameterResolveOrder_respects by blast
  let ?ps = "map ((!) props) order"
  have ps: "set ?ps = set props" unfolding set_map idx by (auto simp: in_set_conv_nth)
  let ?strip = "\<lambda>p. if json_get nodeValues (np_name p) = JUndefined then None
    else simple_value lib p (json_get nodeValues (np_name p)) False None"
  note all = getNodeParameters_all [OF assms(1) _ _ order]
  have stripped: "stripped = JObj (foldl (put_value ?strip) [] ?ps)" using all [OF assms(3,4)] by simp
  have v': "json_get stripped (np_name p) = (case ?strip p of None \<Rightarrow> JUndefined | Some x \<Rightarrow> x)" if "p \<in> set props" for p
    using value_gathered(1) [OF assms(1) idx that, of ?strip] by (simp add: stripped json_get_def)
  have full: "full = JObj (foldl (put_value (\<lambda>p. simple_value lib p (json_get nodeValues (np_name p)) True None)) [] ?ps)"
    using all [OF assms(3,6)] by simp
  have restored: "restored = JObj (foldl (put_value (\<lambda>p. simple_value lib p (json_get stripped (np_name p)) True None)) [] ?ps)"
    using all [OF _ assms(5)] by (simp add: stripped truthy_def)
  have "list_all2 (same_value lib)
    (foldl (put_value (\<lambda>p. simple_value lib p (json_get nodeValues (np_name p)) True None)) [] ?ps)
    (foldl (put_value (\<lambda>p. simple_value lib p (json_get stripped (np_name p)) True None)) [] ?ps)"
  proof (rule same_values_put)
    fix p
    assume "p \<in> set ?ps"
    then have p: "p \<in> set props" unfolding ps .
    with assms(2) have "np_type p \<noteq> ''resourceLocator''" by blast
    from restored_value [OF this v' [OF p], where k = "np_name p"]
    show "\<exists>x x'. simple_value lib p (json_get nodeValues (np_name p)) True None = Some x \<and>
      simple_value lib p (json_get stripped (np_name p)) True None = Some x' \<and> same_value lib (np_name p, x) (np_name p, x')"
      by blast
  qed simp
  with full restored show ?thesis by blast
qed

section \<open>The recursion ends\<close>

lemma fuelled_fold_res [resF]: "(\<And>s x. x \<in> set xs \<Longrightarrow> fuelled (f s x)) \<Longrightarrow> fuelled (fold_res f s xs)"
proof (induction xs arbitrary: s)
  case (Cons x xs)
  then show ?case by (simp add: fuelled_bind)
qed simp

lemma fuelled_map_res [resF]: "(\<And>x. x \<in> set xs \<Longrightarrow> fuelled (f x)) \<Longrightarrow> fuelled (map_res f xs)"
  by (induction xs) (simp_all add: fuelled_bind)

lemma fuelled_every_res [resF]: "(\<And>x. x \<in> set xs \<Longrightarrow> fuelled (f x)) \<Longrightarrow> fuelled (every_res f xs)"
  by (induction xs) (simp_all add: fuelled_bind)

lemma fuelled_some_res [resF]: "(\<And>x. x \<in> set xs \<Longrightarrow> fuelled (f x)) \<Longrightarrow> fuelled (some_res f xs)"
  by (induction xs) (simp_all add: fuelled_bind)

lemma fuelled_holds [resF]: "fuelled (holds lib c v)"
  by (cases c) (simp_all add: on_string_def split: json.splits)

lemma fuelled_checkConditions [resF]: "fuelled (checkConditions lib conditions values)"
  unfolding checkConditions_def by (intro fuelled_some_res) (auto split: condition.splits intro: fuelled_every_res fuelled_holds)

lemma fuelled_check_show [resF]: "fuelled (check_show lib values version vroot rules)"
  by (induction rules) (auto simp: Let_def intro!: fuelled_bind fuelled_checkConditions)

lemma fuelled_check_hide [resF]: "fuelled (check_hide lib values version vroot rules)"
  by (induction rules) (auto simp: Let_def intro!: fuelled_bind fuelled_checkConditions)

lemma fuelled_displayParameter [resF]: "fuelled (displayParameter lib values p version vroot)"
  unfolding displayParameter_def Let_def
  by (auto split: option.splits intro!: fuelled_bind fuelled_check_show fuelled_check_hide)

text \<open>The properties one level below.\<close>

definition below :: "INodeProperties list \<Rightarrow> INodeProperties \<Rightarrow> bool" where
  "below props p \<longleftrightarrow> (case np_options p of
     PropertyList ps \<Rightarrow> props = ps | PropertyCollections cs \<Rightarrow> props \<in> pc_values ` set cs | _ \<Rightarrow> False)"

lemma foldr_max_le: "x \<in> set xs \<Longrightarrow> x \<le> foldr max xs (0 :: nat)"
  by (induction xs) auto

lemma below_depth:
  assumes "below props p"
  shows "properties_depth props < property_depth p"
proof (cases p)
  case (NodeProperty name type def dops multiple options)
  show ?thesis
  proof (cases options)
    case (PropertyCollections cs)
    with assms NodeProperty obtain c where c: "c \<in> set cs" "props = pc_values c" by (auto simp: below_def)
    have "Suc (properties_depth props) = collection_depth c" using c(2) by (cases c) (simp add: properties_depth_def)
    also have "\<dots> \<le> foldr max (map collection_depth cs) 0" using c(1) by (intro foldr_max_le) simp
    finally show ?thesis using NodeProperty PropertyCollections by simp
  qed (use assms NodeProperty in \<open>simp_all add: below_def properties_depth_def\<close>)
qed

lemma find_collection_below: "find_collection p name = Inr (Some props) \<Longrightarrow> below props p"
  by (auto simp: find_collection_def below_def find_Some_iff split: property_options.splits)

lemma fuelled_find_collection [resF]: "fuelled (find_collection p name)"
  by (simp add: find_collection_def split: property_options.splits)

lemma fuelled_iterate [resF]: "fuelled (iterate v)"
  by (simp add: iterate_def split: json.splits)

lemma fuelled_parameter_step:
  assumes "ga_onlySimpleTypes g \<or> (\<forall>props v nroot ty. below props p \<longrightarrow> fuelled (lower props v nroot ty))"
  shows "fuelled (parameter_step lib lower dups g st p)"
proof -
  have item: "fuelled (fixed_item lower p v pv nroot cv name)"
    if "\<forall>props v nroot ty. below props p \<longrightarrow> fuelled (lower props v nroot ty)" for v pv nroot cv name
    using that unfolding fixed_item_def
    by (auto split: option.splits intro!: fuelled_bind fuelled_map_res fuelled_find_collection fuelled_iterate
        dest!: find_collection_below)
  have "fuelled (collection_step lower p v rd nroot params full)" "fuelled (fixed_collection_step lower p vs v rd nroot params full)"
    if "\<forall>props v nroot ty. below props p \<longrightarrow> fuelled (lower props v nroot ty)" for v vs rd nroot params full
    using that item [OF that]
    by (auto simp: collection_step_def fixed_collection_step_def Let_def below_def split: property_options.splits
        intro!: fuelled_bind fuelled_fold_res)
  with assms show ?thesis unfolding parameter_step_def Let_def
    by (auto split: gathered.splits option.splits intro!: fuelled_bind fuelled_displayParameter)
qed

lemma fuelled_gather:
  assumes "ga_onlySimpleTypes g \<or> (\<forall>p \<in> set props. \<forall>ps v nroot ty. below ps p \<longrightarrow> fuelled (lower ps v nroot ty))"
  shows "fuelled (gather lib lower props g)"
  unfolding gather_def
proof (intro fuelled_bind getParameterResolveOrder_fuelled fuelled_fold_res fuelled_simps(1))
  fix order st i
  assume "getParameterResolveOrder props (getParameterDependencies props) = Inr order" "i \<in> set order"
  then have "props ! i \<in> set props" using getParameterResolveOrder_respects by auto
  with assms show "fuelled (parameter_step lib lower (duplicate_names props) g st (props ! i))"
    by (intro fuelled_parameter_step) blast
qed

lemma getNodeParameters_fuelled:
  "properties_depth props < fuel \<Longrightarrow>
   fuelled (getNodeParameters_fuel fuel lib props values rd rnd version only resolved vroot parentType)"
proof (induction fuel arbitrary: props "values" rd rnd only resolved vroot parentType)
  case (Suc fuel)
  have lower: "fuelled (getNodeParameters_fuel fuel lib ps v rd rnd version False False (Some nroot) (Some ty))"
    if "p \<in> set props" "below ps p" for p ps v rd rnd nroot ty
  proof -
    have "property_depth p \<le> properties_depth props"
      unfolding properties_depth_def by (rule foldr_max_le) (simp add: that(1))
    with below_depth [OF that(2)] have "Suc (properties_depth ps) \<le> properties_depth props" by simp
    with Suc.prems Suc.IH show ?thesis by simp
  qed
  show ?case unfolding getNodeParameters_fuel.simps Let_def
    by (auto intro!: fuelled_bind fuelled_gather lower)
qed simp

text \<open>Collecting the parameters of a node ends, whatever properties, nested in each other, and values it
  is called with: one level of recursion for each level of nesting is enough.\<close>

theorem getNodeParameters_ends:
  "getNodeParameters lib props nodeValues returnDefaults returnNoneDisplayed version \<noteq> Inl OutOfFuel"
  using getNodeParameters_fuelled [of props "Suc (properties_depth props)"]
  by (simp add: getNodeParameters_def fuelled_def del: getNodeParameters_fuel.simps)

section \<open>Concrete nodes\<close>

text \<open>Without paths and patterns, lodash and the runtime do what these functions do.\<close>

definition plain_library :: js_library where
  "plain_library = \<lparr>lib_get = json_get, lib_isEqual = (=), lib_regex = (\<lambda>r v. False)\<rparr>"

definition show_when :: "string \<Rightarrow> json \<Rightarrow> IDisplayOptions option" where
  "show_when name v = Some \<lparr>do_show = Some [(name, [Plain v])], do_hide = None\<rparr>"

text \<open>A URL that is shown for one mode, the mode, and a number with a default.\<close>

definition request_properties :: "INodeProperties list" where
  "request_properties =
     [NodeProperty ''url'' ''string'' (JStr []) (show_when ''mode'' (JStr ''http'')) None NoOptions,
      NodeProperty ''mode'' ''options'' (JStr ''http'') None None (Choices [''http'', ''file'']),
      NodeProperty ''limit'' ''number'' (JNum 50) None None NoOptions]"

lemma request_simple: "simple_properties request_properties"
  by (simp add: simple_properties_def request_properties_def)

lemma getParameterResolveOrder_respects_witness:
  "getParameterResolveOrder request_properties (getParameterDependencies request_properties) = Inr [0, 1, 2, 0] \<and>
   placed request_properties (getParameterDependencies request_properties) [0, 1, 2, 0] 0"
proof -
  have order: "getParameterResolveOrder request_properties (getParameterDependencies request_properties) = Inr [0, 1, 2, 0]"
    by code_simp
  from getParameterResolveOrder_respects [of request_properties "getParameterDependencies request_properties"] order
  show ?thesis by (simp add: request_properties_def)
qed

definition request_values :: json where
  "request_values = JObj [(''limit'', JNum 50), (''mode'', JStr ''file''), (''url'', JStr ''x'')]"

lemma getNodeParameters_simple_witness:
  "\<exists>fields. getNodeParameters plain_library request_properties request_values False False None = Inr (JObj fields) \<and>
     map_of fields ''limit'' = None \<and> map_of fields ''mode'' = Some (JStr ''file'')"
proof -
  have r: "getNodeParameters plain_library request_properties request_values False False None
    = Inr (JObj [(''mode'', JStr ''file'')])" by code_simp
  have "truthy request_values" by (simp add: request_values_def truthy_def)
  from getNodeParameters_simple [OF request_simple this r] r show ?thesis by auto
qed

lemma defaults_roundtrip_witness:
  "\<exists>fields fields'. getNodeParameters plain_library request_properties request_values True True None = Inr (JObj fields) \<and>
     getNodeParameters plain_library request_properties
       (JObj [(''url'', JStr ''x''), (''mode'', JStr ''file'')]) True True None = Inr (JObj fields') \<and>
     list_all2 (same_value plain_library) fields fields'"
proof -
  let ?full = "JObj [(''url'', JStr ''x''), (''mode'', JStr ''file''), (''limit'', JNum 50)]"
  have r: "getNodeParameters plain_library request_properties request_values False True None
      = Inr (JObj [(''url'', JStr ''x''), (''mode'', JStr ''file'')])"
    "getNodeParameters plain_library request_properties (JObj [(''url'', JStr ''x''), (''mode'', JStr ''file'')]) True True None
      = Inr ?full"
    "getNodeParameters plain_library request_properties request_values True True None = Inr ?full"
    by code_simp+
  have "truthy request_values" "\<forall>p \<in> set request_properties. np_type p \<noteq> ''resourceLocator''"
    by (simp_all add: request_values_def truthy_def request_properties_def)
  from defaults_roundtrip [OF request_simple this(2,1) r] r show ?thesis by blast
qed

text \<open>
  Two edges of fixed collections with a single value. An empty value ends the collection early and
  returns all values of the node as they are, the defaults among them.
\<close>

definition option_properties :: "json \<Rightarrow> INodeProperties list" where
  "option_properties batching =
     [NodeProperty ''limit'' ''number'' (JNum 50) None None NoOptions,
      NodeProperty ''batching'' ''fixedCollection'' batching None (Some False)
        (PropertyCollections [PropertyCollection ''batch''
          [NodeProperty ''size'' ''number'' (JNum 10) None None NoOptions]])]"

theorem empty_fixed_collection_keeps_defaults:
  "getNodeParameters plain_library (option_properties (JObj []))
     (JObj [(''limit'', JNum 50), (''batching'', JObj [])]) False True None
   = Inr (JObj [(''limit'', JNum 50), (''batching'', JObj [])]) \<and>
   getNodeParameters plain_library (option_properties (JObj []))
     (JObj [(''limit'', JNum 50), (''batching'', JObj [(''batch'', JObj [(''size'', JNum 10)])])]) False True None
   = Inr (JObj [(''batching'', JObj [(''batch'', JObj [])])])"
  by code_simp

text \<open>Filling in a default that has a value reads the missing value instead of the default, and throws.\<close>

theorem fixed_collection_default_throws:
  "getNodeParameters plain_library (option_properties (JObj [(''batch'', JObj [])])) (JObj [(''limit'', JNum 5)]) True True None
   = Inl TypeError"
  by code_simp

end
