(* ===== verification/Concurrency.thy ===== *)
theory Concurrency
  imports WorkflowTypes
begin

text \<open>
  Concurrency control of executions (\<open>packages/cli/src/concurrency\<close>): the queue that holds
  executions back when its capacity is used up, and the service that chooses a queue by the
  mode of an execution.

  A call of \<open>enqueue\<close> returns a promise. What the operations do besides changing the state is a
  list of effects: events emitted, and \<open>Proceed id\<close> when the promise of the execution \<open>id\<close> is
  resolved, so that it starts to run (at once, or when \<open>resolve\<close> is called later).
\<close>

section \<open>The queue\<close>

datatype queue_effect =
    ConcurrencyCheck int
  | ExecutionThrottled string
  | ExecutionReleased string
  | Proceed string

record ConcurrencyQueue =
  cq_capacity :: int
  cq_queue :: "string list"
  cq_effects :: "queue_effect list"

definition new_queue :: "int \<Rightarrow> ConcurrencyQueue" where
  "new_queue capacity = \<lparr>cq_capacity = capacity, cq_queue = [], cq_effects = []\<rparr>"

definition cq_emit :: "queue_effect list \<Rightarrow> ConcurrencyQueue \<Rightarrow> ConcurrencyQueue" where
  "cq_emit es q = q\<lparr>cq_effects := cq_effects q @ es\<rparr>"

definition enqueue :: "ConcurrencyQueue \<Rightarrow> string \<Rightarrow> ConcurrencyQueue" where
  "enqueue q executionId =
     (let q1 = q\<lparr>cq_capacity := cq_capacity q - 1\<rparr>;
          q2 = cq_emit [ConcurrencyCheck (cq_capacity q1)] q1
      in if cq_capacity q2 < 0 then
           (cq_emit [ExecutionThrottled executionId] q2)\<lparr>cq_queue := cq_queue q2 @ [executionId]\<rparr>
         else cq_emit [Proceed executionId] q2)"

definition currentCapacity :: "ConcurrencyQueue \<Rightarrow> int" where
  "currentCapacity q = cq_capacity q"

definition resolveNext :: "ConcurrencyQueue \<Rightarrow> ConcurrencyQueue" where
  "resolveNext q =
     (case cq_queue q of
        [] \<Rightarrow> q
      | executionId # rest \<Rightarrow>
          cq_emit [ExecutionReleased executionId, Proceed executionId] (q\<lparr>cq_queue := rest\<rparr>))"

definition dequeue :: "ConcurrencyQueue \<Rightarrow> ConcurrencyQueue" where
  "dequeue q = resolveNext (q\<lparr>cq_capacity := cq_capacity q + 1\<rparr>)"

definition remove_execution :: "ConcurrencyQueue \<Rightarrow> string \<Rightarrow> ConcurrencyQueue" where
  "remove_execution q executionId =
     (case find_index (\<lambda>item. item = executionId) (cq_queue q) of
        None \<Rightarrow> q
      | Some index \<Rightarrow>
          resolveNext (q\<lparr>cq_queue := remove_at index (cq_queue q),
                         cq_capacity := cq_capacity q + 1\<rparr>))"

definition cq_getAll :: "ConcurrencyQueue \<Rightarrow> string js_set" where
  "cq_getAll q = js_set_of (cq_queue q)"

definition cq_has :: "ConcurrencyQueue \<Rightarrow> string \<Rightarrow> bool" where
  "cq_has q executionId = (\<exists>item \<in> set (cq_queue q). item = executionId)"

section \<open>The service\<close>


datatype ConcurrencyQueueType = Production | Evaluation

definition CLOUD_TEMP_PRODUCTION_LIMIT :: int where
  "CLOUD_TEMP_PRODUCTION_LIMIT = 999"

definition CLOUD_TEMP_REPORTABLE_THRESHOLDS :: "int list" where
  "CLOUD_TEMP_REPORTABLE_THRESHOLDS = [5, 10, 20, 50, 100, 200]"

definition limitsToReport :: "int list" where
  "limitsToReport = map (\<lambda>t. CLOUD_TEMP_PRODUCTION_LIMIT - t) CLOUD_TEMP_REPORTABLE_THRESHOLDS"

text \<open>The settings the constructor reads.\<close>

record concurrency_config =
  cc_productionLimit :: int
  cc_evaluationLimit :: int
  cc_queueMode :: bool
  cc_cloud :: bool

record ConcurrencyControlService =
  ccs_isEnabled :: bool
  ccs_limits :: "(ConcurrencyQueueType, int) js_map"
  ccs_queues :: "(ConcurrencyQueueType, ConcurrencyQueue) js_map"
  ccs_cancelled :: "string list"

fun normalise_limits ::
  "(ConcurrencyQueueType, int) js_map \<Rightarrow> (ConcurrencyQueueType, int) js_map res" where
  "normalise_limits [] = Inr []"
| "normalise_limits ((type, limit) # rest) =
     (if limit = 0 then Inl (ApplicationError ''Concurrency limit set to invalid value'')
      else res_bind (normalise_limits rest) (\<lambda>rest'.
        Inr ((type, if limit < -1 then -1 else limit) # rest')))"

definition new_service :: "concurrency_config \<Rightarrow> ConcurrencyControlService res" where
  "new_service cfg =
     res_bind (normalise_limits [(Production, cc_productionLimit cfg), (Evaluation, cc_evaluationLimit cfg)])
       (\<lambda>limits.
         if (\<forall>limit \<in> set (map_values limits). limit = -1) \<or> cc_queueMode cfg then
           Inr \<lparr>ccs_isEnabled = False, ccs_limits = limits, ccs_queues = [], ccs_cancelled = []\<rparr>
         else
           Inr \<lparr>ccs_isEnabled = True, ccs_limits = limits,
                ccs_queues = map (\<lambda>(type, limit). (type, new_queue limit))
                               (filter (\<lambda>(type, limit). limit > 0) limits),
                ccs_cancelled = []\<rparr>)"

definition shouldReport :: "concurrency_config \<Rightarrow> int \<Rightarrow> bool" where
  "shouldReport cfg capacity = (cc_cloud cfg \<and> capacity \<in> set limitsToReport)"

fun queue_type_of :: "ExecutionMode \<Rightarrow> ConcurrencyQueueType option" where
  "queue_type_of Mode_error = None"
| "queue_type_of Mode_integrated = None"
| "queue_type_of Mode_cli = None"
| "queue_type_of Mode_internal = None"
| "queue_type_of Mode_manual = None"
| "queue_type_of Mode_retry = None"
| "queue_type_of Mode_webhook = Some Production"
| "queue_type_of Mode_trigger = Some Production"
| "queue_type_of Mode_evaluation = Some Evaluation"

definition getQueue :: "ConcurrencyControlService \<Rightarrow> ExecutionMode \<Rightarrow> ConcurrencyQueue option" where
  "getQueue s mode =
     (case queue_type_of mode of None \<Rightarrow> None | Some type \<Rightarrow> map_of (ccs_queues s) type)"

definition isUnlimited :: "ConcurrencyControlService \<Rightarrow> ExecutionMode \<Rightarrow> bool" where
  "isUnlimited s mode = (getQueue s mode = None)"

definition ccs_has :: "ConcurrencyControlService \<Rightarrow> string \<Rightarrow> bool" where
  "ccs_has s executionId =
     (if \<not> ccs_isEnabled s then False
      else \<exists>queue \<in> set (map_values (ccs_queues s)). cq_has queue executionId)"

text \<open>An operation on the queue of a mode, with the guard all three public operations share.\<close>

definition on_queue ::
  "(ConcurrencyQueue \<Rightarrow> ConcurrencyQueue) \<Rightarrow> ConcurrencyControlService \<Rightarrow> ExecutionMode \<Rightarrow>
   ConcurrencyControlService" where
  "on_queue f s mode =
     (if \<not> ccs_isEnabled s \<or> isUnlimited s mode then s
      else case (queue_type_of mode, getQueue s mode) of
        (Some type, Some queue) \<Rightarrow> s\<lparr>ccs_queues := map_set type (f queue) (ccs_queues s)\<rparr>
      | _ \<Rightarrow> s)"

definition throttle ::
  "ConcurrencyControlService \<Rightarrow> ExecutionMode \<Rightarrow> string \<Rightarrow> ConcurrencyControlService" where
  "throttle s mode executionId = on_queue (\<lambda>q. enqueue q executionId) s mode"

definition release :: "ConcurrencyControlService \<Rightarrow> ExecutionMode \<Rightarrow> ConcurrencyControlService" where
  "release s mode = on_queue dequeue s mode"

definition ccs_remove ::
  "ConcurrencyControlService \<Rightarrow> ExecutionMode \<Rightarrow> string \<Rightarrow> ConcurrencyControlService" where
  "ccs_remove s mode executionId = on_queue (\<lambda>q. remove_execution q executionId) s mode"

definition empty_queue :: "ConcurrencyQueue \<Rightarrow> ConcurrencyQueue" where
  "empty_queue queue = foldl remove_execution queue (cq_getAll queue)"

definition removeAll_executions ::
  "ConcurrencyControlService \<Rightarrow> string list \<Rightarrow> ConcurrencyControlService" where
  "removeAll_executions s executionIdsToCancel =
     (if \<not> ccs_isEnabled s then s
      else
        let s1 = s\<lparr>ccs_queues := map (\<lambda>(type, queue). (type, empty_queue queue)) (ccs_queues s)\<rparr>
        in if length executionIdsToCancel = 0 then s1
           else s1\<lparr>ccs_cancelled := ccs_cancelled s1 @ executionIdsToCancel\<rparr>)"

definition disable :: "ConcurrencyControlService \<Rightarrow> ConcurrencyControlService" where
  "disable s = s\<lparr>ccs_isEnabled := False\<rparr>"


section \<open>The queue respects its limit\<close>

text \<open>
  A run of the queue: executions are enqueued, and each that finishes is reported by \<open>dequeue\<close>. The
  state counts the finished ones; running are those that were let proceed and have not finished.
\<close>

datatype queue_event = Enqueue string | Dequeue

definition queue_step :: "ConcurrencyQueue \<times> nat \<Rightarrow> queue_event \<Rightarrow> ConcurrencyQueue \<times> nat" where
  "queue_step s e =
     (case (s, e) of
        ((q, finished), Enqueue executionId) \<Rightarrow> (enqueue q executionId, finished)
      | ((q, finished), Dequeue) \<Rightarrow> (dequeue q, Suc finished))"

definition queue_run :: "int \<Rightarrow> queue_event list \<Rightarrow> ConcurrencyQueue \<times> nat" where
  "queue_run limit es = foldl queue_step (new_queue limit, 0) es"

fun proceeded_of :: "queue_effect list \<Rightarrow> string list" where
  "proceeded_of [] = []"
| "proceeded_of (Proceed executionId # es) = executionId # proceeded_of es"
| "proceeded_of (_ # es) = proceeded_of es"

definition proceeded :: "ConcurrencyQueue \<Rightarrow> string list" where
  "proceeded q = proceeded_of (cq_effects q)"

definition running :: "ConcurrencyQueue \<times> nat \<Rightarrow> int" where
  "running s = int (length (proceeded (fst s))) - int (snd s)"

definition queue_inv :: "int \<Rightarrow> ConcurrencyQueue \<times> nat \<Rightarrow> bool" where
  "queue_inv limit s \<longleftrightarrow>
     cq_capacity (fst s) = limit - running s - int (length (cq_queue (fst s))) \<and>
     running s \<le> limit \<and> (cq_queue (fst s) = [] \<or> running s = limit)"

lemma proceeded_append [simp]: "proceeded_of (xs @ ys) = proceeded_of xs @ proceeded_of ys"
  by (induction xs rule: proceeded_of.induct) auto

lemma enqueue_queue:
  "cq_queue (enqueue q i) = (if cq_capacity q \<le> 0 then cq_queue q @ [i] else cq_queue q)"
  "proceeded (enqueue q i) = (if cq_capacity q \<le> 0 then proceeded q else proceeded q @ [i])"
  "cq_capacity (enqueue q i) = cq_capacity q - 1"
  by (auto simp: enqueue_def cq_emit_def Let_def proceeded_def)

lemma dequeue_queue:
  "cq_queue (dequeue q) = tl (cq_queue q)"
  "proceeded (dequeue q) = proceeded q @ take 1 (cq_queue q)"
  "cq_capacity (dequeue q) = cq_capacity q + 1"
  by (auto simp: dequeue_def resolveNext_def cq_emit_def proceeded_def split: list.splits)

lemmas queue_simps = enqueue_queue dequeue_queue running_def queue_inv_def queue_step_def

text \<open>
  Executions that wait can also be removed. Removing one lets the next one through although no place
  became free, so after \<open>r\<close> removals up to \<open>r\<close> executions more than the limit run.
\<close>

definition queue_over :: "int \<Rightarrow> nat \<Rightarrow> ConcurrencyQueue \<times> nat \<Rightarrow> bool" where
  "queue_over limit r s \<longleftrightarrow>
     cq_capacity (fst s) = limit - running s - int (length (cq_queue (fst s))) \<and>
     running s \<le> limit + int r \<and> (cq_queue (fst s) = [] \<or> limit \<le> running s)"

lemma queue_over_zero: "queue_over limit 0 s \<longleftrightarrow> queue_inv limit s"
  by (auto simp: queue_over_def queue_inv_def)

lemma queue_step_over: "queue_over limit r s \<Longrightarrow> queue_over limit r (queue_step s e)"
proof (cases s; cases e)
  fix q finished i
  assume "s = (q, finished)" "e = Enqueue i" "queue_over limit r s"
  then show "queue_over limit r (queue_step s e)"
    by (auto simp: queue_simps queue_over_def)
next
  fix q finished
  assume s: "s = (q, finished)" "e = Dequeue" "queue_over limit r s"
  then show "queue_over limit r (queue_step s e)"
    by (cases "cq_queue q") (auto simp: queue_simps queue_over_def)
qed

lemma queue_step_inv: "queue_inv limit s \<Longrightarrow> queue_inv limit (queue_step s e)"
  using queue_step_over [of limit 0] by (simp add: queue_over_zero)

lemma remove_at_first:
  assumes "find_index (\<lambda>item. item = i) xs = Some k"
  shows "remove_at k xs = remove1 i xs"
proof -
  from find_index_Some [OF assms] have k: "k < length xs" "xs ! k = i" "\<forall>j<k. xs ! j \<noteq> i" by auto
  then have xs: "xs = take k xs @ i # drop (Suc k) xs" and first: "i \<notin> set (take k xs)"
    using id_take_nth_drop [of k xs] by (simp, auto simp: in_set_conv_nth)
  from first have "remove1 i (take k xs @ i # drop (Suc k) xs) = take k xs @ drop (Suc k) xs"
    by (simp add: remove1_append)
  then show ?thesis using xs by (simp add: remove_at_def)
qed

lemma remove_queue:
  "i \<notin> set (cq_queue q) \<Longrightarrow> remove_execution q i = q"
  "i \<in> set (cq_queue q) \<Longrightarrow> cq_queue (remove_execution q i) = tl (remove1 i (cq_queue q)) \<and>
     proceeded (remove_execution q i) = proceeded q @ take 1 (remove1 i (cq_queue q)) \<and>
     cq_capacity (remove_execution q i) = cq_capacity q + 1"
proof -
  show "remove_execution q i = q" if "i \<notin> set (cq_queue q)"
  proof -
    from that have "find_index (\<lambda>item. item = i) (cq_queue q) = None" by auto
    then show ?thesis by (simp only: remove_execution_def option.case)
  qed
  assume "i \<in> set (cq_queue q)"
  then obtain k where k: "find_index (\<lambda>item. item = i) (cq_queue q) = Some k"
    by (cases "find_index (\<lambda>item. item = i) (cq_queue q)") auto
  show "cq_queue (remove_execution q i) = tl (remove1 i (cq_queue q)) \<and>
     proceeded (remove_execution q i) = proceeded q @ take 1 (remove1 i (cq_queue q)) \<and>
     cq_capacity (remove_execution q i) = cq_capacity q + 1"
    by (simp add: remove_execution_def k remove_at_first [OF k] resolveNext_def cq_emit_def proceeded_def
        split: list.split)
qed

lemma remove_over:
  assumes "queue_over limit r (q, n)"
  shows "queue_over limit (Suc r) (remove_execution q i, n)"
proof (cases "i \<in> set (cq_queue q)")
  case True
  then have "0 < length (cq_queue q)" by (rule length_pos_if_in_set)
  then have one: "int (length (cq_queue q)) = 1 + int (length (remove1 i (cq_queue q)))"
    using length_remove1 [of i "cq_queue q"] True by (simp only: if_True)
  show ?thesis using remove_queue(2) [OF True] assms one True
    by (cases "remove1 i (cq_queue q)") (auto simp: queue_over_def running_def)
next
  case False
  with assms show ?thesis by (simp add: remove_queue(1) queue_over_def)
qed

interpretation queue_machine: invariant_machine queue_step "queue_inv limit" for limit
  by unfold_locales (rule queue_step_inv)

lemma queue_run_inv: "0 \<le> limit \<Longrightarrow> queue_inv limit (queue_run limit es)"
  unfolding queue_run_def
  by (rule queue_machine.run_inv) (simp add: queue_inv_def running_def new_queue_def proceeded_def)

fun enqueued :: "queue_event list \<Rightarrow> string list" where
  "enqueued [] = []"
| "enqueued (Enqueue i # es) = i # enqueued es"
| "enqueued (Dequeue # es) = enqueued es"

lemma enqueued_append [simp]: "enqueued (xs @ ys) = enqueued xs @ enqueued ys"
  by (induction xs rule: enqueued.induct) auto

lemma queue_run_fifo:
  assumes "0 \<le> limit"
  shows "proceeded (fst (queue_run limit es)) @ cq_queue (fst (queue_run limit es)) = enqueued es"
proof (induction es rule: rev_induct)
  case Nil
  then show ?case by (simp add: queue_run_def new_queue_def proceeded_def)
next
  case (snoc e es)
  obtain q k where qk: "queue_run limit es = (q, k)" by (cases "queue_run limit es")
  have run: "queue_run limit (es @ [e]) = queue_step (q, k) e"
    using qk by (simp add: queue_run_def)
  have inv: "queue_inv limit (q, k)" using queue_run_inv [OF assms, of es] qk by simp
  show ?case
  proof (cases e)
    case (Enqueue i)
    have "cq_queue q = []" if "\<not> cq_capacity q \<le> 0"
      using inv that by (auto simp: queue_inv_def)
    with snoc.IH qk Enqueue show ?thesis unfolding run by (auto simp: queue_step_def enqueue_queue)
  next
    case Dequeue
    with snoc.IH qk show ?thesis unfolding run
      by (cases "cq_queue q") (auto simp: queue_step_def dequeue_queue)
  qed
qed

text \<open>Whatever is enqueued and dequeued in whatever order, at most \<open>limit\<close> executions run at a
  time, none waits while fewer than that run, and the capacity counts exactly the free places less
  the waiting executions.\<close>

theorem queue_respects_limit:
  assumes "0 \<le> limit"
  shows "running (queue_run limit es) \<le> limit \<and>
    (cq_queue (fst (queue_run limit es)) = [] \<or> running (queue_run limit es) = limit) \<and>
    currentCapacity (fst (queue_run limit es)) =
      limit - running (queue_run limit es) - int (length (cq_queue (fst (queue_run limit es))))"
  using queue_run_inv [OF assms, of es] by (simp add: queue_inv_def currentCapacity_def)

definition sample_events :: "queue_event list" where
  "sample_events = [Enqueue ''1'', Enqueue ''2'', Enqueue ''3'', Dequeue]"

theorem queue_respects_limit_witness:
  "running (queue_run 1 sample_events) \<le> 1 \<and> running (queue_run 1 sample_events) = 1"
proof
  show "running (queue_run 1 sample_events) \<le> 1"
    using queue_respects_limit [of 1 sample_events] by simp
  show "running (queue_run 1 sample_events) = 1" by code_simp
qed

text \<open>Executions proceed in the order in which they were enqueued: those that proceeded,
  followed by those that wait, are the enqueued ones in order.\<close>

theorem queue_is_fifo:
  assumes "0 \<le> limit"
  shows "proceeded (fst (queue_run limit es)) @ cq_queue (fst (queue_run limit es)) = enqueued es"
  using assms by (rule queue_run_fifo)

theorem queue_is_fifo_witness:
  "proceeded (fst (queue_run 1 sample_events)) @ cq_queue (fst (queue_run 1 sample_events)) =
   [''1'', ''2'', ''3'']"
  using queue_is_fifo [of 1 sample_events] by (simp add: sample_events_def)

text \<open>Removing a waiting execution (it was cancelled) lets the next waiting one proceed although
  no running execution has finished: with limit 1 two executions run.\<close>

theorem remove_exceeds_limit:
  "proceeded (remove_execution (fst (queue_run 1 [Enqueue ''1'', Enqueue ''2'', Enqueue ''3''])) ''2'') =
     [''1'', ''3''] \<and>
   running (remove_execution (fst (queue_run 1 [Enqueue ''1'', Enqueue ''2'', Enqueue ''3''])) ''2'', 0) = 2"
  by code_simp

section \<open>The service routes by mode\<close>

text \<open>\<open>throttle\<close> enqueues in the queue of the execution's mode if the service is enabled and has
  that queue, and changes no other queue: executions of the modes without a queue (manual, retry,
  error and the like) are never held back.\<close>

theorem throttle_routes:
  "map_of (ccs_queues (throttle s mode executionId)) type =
     (if ccs_isEnabled s \<and> queue_type_of mode = Some type
      then map_option (\<lambda>q. enqueue q executionId) (map_of (ccs_queues s) type)
      else map_of (ccs_queues s) type)"
  by (auto simp: throttle_def on_queue_def isUnlimited_def getQueue_def split: option.splits)

text \<open>The service refuses a limit of 0; otherwise it is enabled exactly when some limit is
  positive and the instance does not run in queue mode, and it then has a queue of full capacity
  for each positive limit and none for a negative one.\<close>

theorem new_service_queues:
  "case new_service cfg of
     Inl e \<Rightarrow> cc_productionLimit cfg = 0 \<or> cc_evaluationLimit cfg = 0
   | Inr s \<Rightarrow>
       cc_productionLimit cfg \<noteq> 0 \<and> cc_evaluationLimit cfg \<noteq> 0 \<and>
       (ccs_isEnabled s \<longleftrightarrow>
          \<not> cc_queueMode cfg \<and> (cc_productionLimit cfg > 0 \<or> cc_evaluationLimit cfg > 0)) \<and>
       map_of (ccs_queues s) Production =
         (if \<not> cc_queueMode cfg \<and> cc_productionLimit cfg > 0
          then Some (new_queue (cc_productionLimit cfg)) else None) \<and>
       map_of (ccs_queues s) Evaluation =
         (if \<not> cc_queueMode cfg \<and> cc_evaluationLimit cfg > 0
          then Some (new_queue (cc_evaluationLimit cfg)) else None)"
  by (auto simp: new_service_def split: sum.splits)

end
