(* ===== verification/ActiveExecutions.thy ===== *)
theory ActiveExecutions
  imports Concurrency
begin

text \<open>
  The executions that are active in a process (\<open>packages/cli/src/active-executions.ts\<close>): registering
  them when the concurrency control lets them through, stopping and finalizing them, and the shutdown.

  Executions are objects with an address: the callback that runs when the promise of an execution
  settles holds on to its object, while the map may already have another one for the same id.
  \<open>add\<close> is suspended until the concurrency control resolves its promise, so it is two operations,
  \<open>add_execution\<close> and \<open>register\<close>; the callback is a third, \<open>run_finally\<close>. What happens outside (the
  database, promises of others, the cancelled workflow) is a list of effects.
\<close>

section \<open>State\<close>

datatype settlement = ResolvedWith "json option" | RejectedCancelled

record IExecutingWorkflowData =
  ae_id :: string
  ae_mode :: ExecutionMode
  ae_startedAt :: int
  ae_status :: ExecutionStatus
  ae_workflowExecution :: "nat option"
  ae_responsePromise :: "nat option"
  ae_postExecute :: "settlement option"
  ae_finally :: bool

record pending_add =
  pa_id :: string
  pa_mode :: ExecutionMode
  pa_resuming :: bool
  pa_go :: bool

datatype active_effect =
    CreateNewExecution string ExecutionMode
  | SetRunning string
  | UpdateExisting string
  | CancelWorkflow nat
  | ResolveResponse nat json
  | RejectResponse nat

record ActiveExecutions =
  ax_regular :: bool
  ax_concurrency :: ConcurrencyControlService
  ax_pending :: "pending_add list"
  ax_objects :: "IExecutingWorkflowData list"
  ax_map :: "(string, nat) js_map"
  ax_effects :: "active_effect list"

definition new_active :: "bool \<Rightarrow> ConcurrencyControlService \<Rightarrow> ActiveExecutions" where
  "new_active regular service = \<lparr>ax_regular = regular, ax_concurrency = service, ax_pending = [],
     ax_objects = [], ax_map = [], ax_effects = []\<rparr>"

definition ax_emit :: "active_effect list \<Rightarrow> ActiveExecutions \<Rightarrow> ActiveExecutions" where
  "ax_emit es x = x\<lparr>ax_effects := ax_effects x @ es\<rparr>"

section \<open>Calls of the concurrency control\<close>

text \<open>The executions that were let through by an operation, with the type of their queue.\<close>

definition new_proceeds ::
  "ConcurrencyControlService \<Rightarrow> ConcurrencyControlService \<Rightarrow> (ConcurrencyQueueType \<times> string) list" where
  "new_proceeds s s' = concat (map (\<lambda>(type, q').
     case map_of (ccs_queues s) type of
       None \<Rightarrow> []
     | Some q \<Rightarrow> map (Pair type) (drop (length (proceeded q)) (proceeded q'))) (ccs_queues s'))"

definition waits_for :: "ConcurrencyQueueType \<Rightarrow> pending_add \<Rightarrow> bool" where
  "waits_for type p \<longleftrightarrow> queue_type_of (pa_mode p) = Some type \<and> \<not> pa_go p"

fun mark_go :: "pending_add list \<Rightarrow> ConcurrencyQueueType \<times> string \<Rightarrow> pending_add list" where
  "mark_go [] e = []"
| "mark_go (p # ps) (type, executionId) =
     (if waits_for type p \<and> pa_id p = executionId then p\<lparr>pa_go := True\<rparr> # ps
      else p # mark_go ps (type, executionId))"

definition call_concurrency ::
  "(ConcurrencyControlService \<Rightarrow> ConcurrencyControlService) \<Rightarrow> ActiveExecutions \<Rightarrow> ActiveExecutions" where
  "call_concurrency f x =
     (let s = ax_concurrency x; s' = f s in
      x\<lparr>ax_concurrency := s', ax_pending := foldl mark_go (ax_pending x) (new_proceeds s s')\<rparr>)"

text \<open>Is a call of \<open>throttle\<close> held back at all?\<close>

definition throttles :: "ConcurrencyControlService \<Rightarrow> ExecutionMode \<Rightarrow> bool" where
  "throttles s mode \<longleftrightarrow> ccs_isEnabled s \<and> \<not> isUnlimited s mode"

section \<open>Operations\<close>

definition ax_has :: "ActiveExecutions \<Rightarrow> string \<Rightarrow> bool" where
  "ax_has x executionId \<longleftrightarrow> map_of (ax_map x) executionId \<noteq> None"

text \<open>
  \<open>add\<close> up to its promise. A new execution is created in the database, which gives it its id; only in
  regular mode is it throttled. An execution that is resumed keeps its id.
\<close>

definition add_execution :: "ExecutionMode \<Rightarrow> string \<Rightarrow> bool \<Rightarrow> ActiveExecutions \<Rightarrow> ActiveExecutions" where
  "add_execution mode executionId resuming x =
     (let x1 = (if resuming then x else ax_emit [CreateNewExecution executionId mode] x);
          throttled = (resuming \<or> ax_regular x) \<and> throttles (ax_concurrency x) mode;
          x2 = x1\<lparr>ax_pending := ax_pending x1 @ [\<lparr>pa_id = executionId, pa_mode = mode,
                   pa_resuming = resuming, pa_go = \<not> throttled\<rparr>]\<rparr>
      in if throttled then call_concurrency (\<lambda>s. throttle s mode executionId) x2 else x2)"

definition object_at :: "ActiveExecutions \<Rightarrow> string \<Rightarrow> IExecutingWorkflowData option" where
  "object_at x executionId = (case map_of (ax_map x) executionId of
     None \<Rightarrow> None | Some a \<Rightarrow> Some (ax_objects x ! a))"

text \<open>The rest of \<open>add\<close>, for the first call that may go on.\<close>

definition register :: "string \<Rightarrow> int \<Rightarrow> ActiveExecutions \<Rightarrow> ActiveExecutions" where
  "register executionId now x =
     (case find_index (\<lambda>p. pa_id p = executionId \<and> pa_go p) (ax_pending x) of
        None \<Rightarrow> x
      | Some i \<Rightarrow>
          let p = ax_pending x ! i;
              resumingExecution = object_at x executionId;
              execution = \<lparr>ae_id = executionId, ae_mode = pa_mode p,
                ae_startedAt = (case resumingExecution of Some o1 \<Rightarrow> ae_startedAt o1 | None \<Rightarrow> now),
                ae_status = Running, ae_workflowExecution = None,
                ae_responsePromise = (case resumingExecution of Some o1 \<Rightarrow> ae_responsePromise o1 | None \<Rightarrow> None),
                ae_postExecute = None, ae_finally = False\<rparr>
          in ax_emit (if pa_resuming p then [UpdateExisting executionId]
                      else if ax_regular x then [SetRunning executionId] else [])
               (x\<lparr>ax_pending := remove_at i (ax_pending x),
                  ax_objects := ax_objects x @ [execution],
                  ax_map := map_set executionId (length (ax_objects x)) (ax_map x)\<rparr>))"

definition update_object ::
  "nat \<Rightarrow> (IExecutingWorkflowData \<Rightarrow> IExecutingWorkflowData) \<Rightarrow> ActiveExecutions \<Rightarrow> ActiveExecutions" where
  "update_object a f x = x\<lparr>ax_objects := (ax_objects x)[a := f (ax_objects x ! a)]\<rparr>"

definition getExecutionOrFail :: "ActiveExecutions \<Rightarrow> string \<Rightarrow> nat res" where
  "getExecutionOrFail x executionId =
     (case map_of (ax_map x) executionId of
        None \<Rightarrow> Inl (ApplicationError ''No active execution found'') | Some a \<Rightarrow> Inr a)"

definition attachWorkflowExecution :: "string \<Rightarrow> nat \<Rightarrow> ActiveExecutions \<Rightarrow> ActiveExecutions res" where
  "attachWorkflowExecution executionId workflowExecution x =
     res_bind (getExecutionOrFail x executionId) (\<lambda>a.
       Inr (update_object a (\<lambda>e. e\<lparr>ae_workflowExecution := Some workflowExecution\<rparr>) x))"

definition attachResponsePromise :: "string \<Rightarrow> nat \<Rightarrow> ActiveExecutions \<Rightarrow> ActiveExecutions res" where
  "attachResponsePromise executionId responsePromise x =
     res_bind (getExecutionOrFail x executionId) (\<lambda>a.
       Inr (update_object a (\<lambda>e. e\<lparr>ae_responsePromise := Some responsePromise\<rparr>) x))"

definition resolveResponsePromise :: "string \<Rightarrow> json \<Rightarrow> ActiveExecutions \<Rightarrow> ActiveExecutions" where
  "resolveResponsePromise executionId response x =
     (case object_at x executionId of
        None \<Rightarrow> x
      | Some e \<Rightarrow> (case ae_responsePromise e of None \<Rightarrow> x | Some p \<Rightarrow> ax_emit [ResolveResponse p response] x))"

text \<open>A promise settles once.\<close>

definition settle_with :: "settlement \<Rightarrow> IExecutingWorkflowData \<Rightarrow> IExecutingWorkflowData" where
  "settle_with r e = (if ae_postExecute e = None then e\<lparr>ae_postExecute := Some r\<rparr> else e)"

definition stopExecution :: "string \<Rightarrow> ActiveExecutions \<Rightarrow> ActiveExecutions" where
  "stopExecution executionId x =
     (case map_of (ax_map x) executionId of
        None \<Rightarrow> x
      | Some a \<Rightarrow>
          let execution = ax_objects x ! a;
              x1 = ax_emit (case ae_responsePromise execution of None \<Rightarrow> [] | Some p \<Rightarrow> [RejectResponse p]) x
          in if ae_status execution = Waiting then
               x1\<lparr>ax_map := map_delete executionId (ax_map x1)\<rparr>
             else update_object a (settle_with RejectedCancelled)
               (ax_emit (case ae_workflowExecution execution of None \<Rightarrow> [] | Some w \<Rightarrow> [CancelWorkflow w]) x1))"

definition finalizeExecution :: "string \<Rightarrow> json option \<Rightarrow> ActiveExecutions \<Rightarrow> ActiveExecutions" where
  "finalizeExecution executionId fullRunData x =
     (case map_of (ax_map x) executionId of
        None \<Rightarrow> x
      | Some a \<Rightarrow> update_object a (settle_with (ResolvedWith fullRunData)) x)"

text \<open>\<open>finally\<close>: runs once, after the promise of the object has settled.\<close>

definition run_finally :: "nat \<Rightarrow> ActiveExecutions \<Rightarrow> ActiveExecutions" where
  "run_finally a x =
     (if a < length (ax_objects x) \<and> ae_postExecute (ax_objects x ! a) \<noteq> None \<and> \<not> ae_finally (ax_objects x ! a)
      then
        let execution = ax_objects x ! a;
            x1 = update_object a (\<lambda>e. e\<lparr>ae_finally := True\<rparr>)
                   (call_concurrency (\<lambda>s. release s (ae_mode execution)) x)
        in if ae_status execution = Waiting then update_object a (\<lambda>e. e\<lparr>ae_workflowExecution := None\<rparr>) x1
           else x1\<lparr>ax_map := map_delete (ae_id execution) (ax_map x1)\<rparr>
      else x)"

definition setStatus :: "string \<Rightarrow> ExecutionStatus \<Rightarrow> ActiveExecutions \<Rightarrow> ActiveExecutions res" where
  "setStatus executionId status x =
     res_bind (getExecutionOrFail x executionId) (\<lambda>a. Inr (update_object a (\<lambda>e. e\<lparr>ae_status := status\<rparr>) x))"

definition getStatus :: "ActiveExecutions \<Rightarrow> string \<Rightarrow> ExecutionStatus res" where
  "getStatus x executionId = res_bind (getExecutionOrFail x executionId) (\<lambda>a. Inr (ae_status (ax_objects x ! a)))"

text \<open>The summary of an execution: id, start, mode and status.\<close>

definition getActiveExecutions :: "ActiveExecutions \<Rightarrow> (string \<times> int \<times> ExecutionMode \<times> ExecutionStatus) list" where
  "getActiveExecutions x = map (\<lambda>(executionId, a). let e = ax_objects x ! a in
     (executionId, ae_startedAt e, ae_mode e, ae_status e)) (ax_map x)"

section \<open>Shutdown\<close>

definition shutdown_one ::
  "bool \<Rightarrow> ActiveExecutions \<times> string list \<Rightarrow> string \<Rightarrow> (ActiveExecutions \<times> string list) res" where
  "shutdown_one cancelAll s executionId =
     (case s of (x, toCancel) \<Rightarrow>
        (case object_at x executionId of
           None \<Rightarrow> Inl TypeError
         | Some e \<Rightarrow>
             if ae_responsePromise e \<noteq> None \<or> ax_regular x \<and> cancelAll then
               Inr (stopExecution executionId x, toCancel @ [executionId])
             else if ae_status e = Waiting \<or> ae_status e = NewStatus then
               Inr (x\<lparr>ax_map := map_delete executionId (ax_map x)\<rparr>, toCancel)
             else Inr (x, toCancel)))"

text \<open>\<open>shutdown\<close> up to its loop, which then waits until the map is empty.\<close>

definition shutdown :: "bool \<Rightarrow> ActiveExecutions \<Rightarrow> ActiveExecutions res" where
  "shutdown cancelAll x =
     (let x1 = (if ax_regular x then x\<lparr>ax_concurrency := disable (ax_concurrency x)\<rparr> else x) in
      res_bind (fold_res (shutdown_one cancelAll) (x1, []) (map_keys (ax_map x1))) (\<lambda>(x2, toCancel).
        Inr (call_concurrency (\<lambda>s. removeAll_executions s toCancel) x2)))"

definition shutdown_done :: "ActiveExecutions \<Rightarrow> bool" where
  "shutdown_done x \<longleftrightarrow> ax_map x = []"

section \<open>Stopping an execution that is held back\<close>

text \<open>
  \<open>stopInRegularMode\<close> of \<open>executions/execution.service.ts\<close> starts with the executions that the
  concurrency control holds back: they are removed from their queue. The promise of the removed call is
  never settled, so its \<open>add\<close> stays suspended for good: the call is dropped.
\<close>

fun drop_call :: "ConcurrencyQueueType \<Rightarrow> string \<Rightarrow> pending_add list \<Rightarrow> pending_add list" where
  "drop_call type executionId [] = []"
| "drop_call type executionId (p # ps) =
     (if waits_for type p \<and> pa_id p = executionId then ps else p # drop_call type executionId ps)"

definition removeHeldBack :: "ExecutionMode \<Rightarrow> string \<Rightarrow> ActiveExecutions \<Rightarrow> ActiveExecutions" where
  "removeHeldBack mode executionId x =
     (if ccs_has (ax_concurrency x) executionId then
        call_concurrency (\<lambda>s. ccs_remove s mode executionId)
          (case queue_type_of mode of
             None \<Rightarrow> x | Some type \<Rightarrow> x\<lparr>ax_pending := drop_call type executionId (ax_pending x)\<rparr>)
      else x)"

section \<open>Events\<close>

datatype active_event =
    AddNew ExecutionMode string
  | Resume ExecutionMode string
  | Register string int
  | AttachWorkflow string nat
  | AttachResponse string nat
  | Respond string json
  | Stop string
  | Finalize string "json option"
  | FinallyRuns nat
  | SetStatus string ExecutionStatus
  | StopHeldBack ExecutionMode string
  | Shutdown bool

text \<open>An operation that throws leaves the state as it is.\<close>

definition or_unchanged :: "ActiveExecutions \<Rightarrow> ActiveExecutions res \<Rightarrow> ActiveExecutions" where
  "or_unchanged x r = (case r of Inl e \<Rightarrow> x | Inr x' \<Rightarrow> x')"

fun active_step :: "ActiveExecutions \<Rightarrow> active_event \<Rightarrow> ActiveExecutions" where
  "active_step x (AddNew mode i) = add_execution mode i False x"
| "active_step x (Resume mode i) = add_execution mode i True x"
| "active_step x (Register i now) = register i now x"
| "active_step x (AttachWorkflow i w) = or_unchanged x (attachWorkflowExecution i w x)"
| "active_step x (AttachResponse i p) = or_unchanged x (attachResponsePromise i p x)"
| "active_step x (Respond i r) = resolveResponsePromise i r x"
| "active_step x (Stop i) = stopExecution i x"
| "active_step x (Finalize i r) = finalizeExecution i r x"
| "active_step x (FinallyRuns a) = run_finally a x"
| "active_step x (SetStatus i st) = or_unchanged x (setStatus i st x)"
| "active_step x (StopHeldBack mode i) = removeHeldBack mode i x"
| "active_step x (Shutdown cancelAll) = or_unchanged x (shutdown cancelAll x)"

end
