(* ===== verification/ActiveFacts.thy ===== *)
theory ActiveFacts
  imports ActiveExecutions
begin

text \<open>
  The concurrency control and the active executions together: the executions in progress never exceed
  the limit of their queue, and none is held back while there is a free place. After the synchronous
  part of a shutdown only executions that end by themselves or were cancelled are left.
\<close>

section \<open>What is in progress\<close>

definition of_type :: "ConcurrencyQueueType \<Rightarrow> IExecutingWorkflowData \<Rightarrow> bool" where
  "of_type type e \<longleftrightarrow> queue_type_of (ae_mode e) = Some type"

definition let_through :: "ConcurrencyQueueType \<Rightarrow> pending_add list \<Rightarrow> nat" where
  "let_through type ps = length (filter (\<lambda>p. queue_type_of (pa_mode p) = Some type \<and> pa_go p) ps)"

definition unfinished :: "ConcurrencyQueueType \<Rightarrow> IExecutingWorkflowData list \<Rightarrow> nat" where
  "unfinished type es = length (filter (\<lambda>e. of_type type e \<and> \<not> ae_finally e) es)"

definition finished :: "ConcurrencyQueueType \<Rightarrow> IExecutingWorkflowData list \<Rightarrow> nat" where
  "finished type es = length (filter (\<lambda>e. of_type type e \<and> ae_finally e) es)"

text \<open>Executions of a type that were let through and whose place has not been given back.\<close>

definition in_progress :: "ConcurrencyQueueType \<Rightarrow> ActiveExecutions \<Rightarrow> nat" where
  "in_progress type x = unfinished type (ax_objects x) + let_through type (ax_pending x)"

definition held_back :: "ConcurrencyQueueType \<Rightarrow> ActiveExecutions \<Rightarrow> string list" where
  "held_back type x = map pa_id (filter (waits_for type) (ax_pending x))"

section \<open>Letting through\<close>

lemma mark_go_first:
  assumes "filter (waits_for type) ps = p # rest" "pa_id p = i"
  shows "filter (waits_for type) (mark_go ps (type, i)) = rest"
    "let_through type (mark_go ps (type, i)) = Suc (let_through type ps)"
    "type' \<noteq> type \<Longrightarrow> filter (waits_for type') (mark_go ps (type, i)) = filter (waits_for type') ps"
    "type' \<noteq> type \<Longrightarrow> let_through type' (mark_go ps (type, i)) = let_through type' ps"
proof -
  have "filter (waits_for type) (mark_go ps (type, i)) = rest \<and>
    let_through type (mark_go ps (type, i)) = Suc (let_through type ps) \<and>
    (type' \<noteq> type \<longrightarrow> filter (waits_for type') (mark_go ps (type, i)) = filter (waits_for type') ps \<and>
      let_through type' (mark_go ps (type, i)) = let_through type' ps)"
    using assms
  proof (induction ps)
    case (Cons q ps)
    show ?case
    proof (cases "waits_for type q")
      case True
      with Cons.prems have "q = p" "rest = filter (waits_for type) ps" by auto
      with True Cons.prems show ?thesis by (auto simp: waits_for_def let_through_def)
    next
      case False
      with Cons show ?thesis by (auto simp: let_through_def)
    qed
  qed simp
  then show "filter (waits_for type) (mark_go ps (type, i)) = rest"
    "let_through type (mark_go ps (type, i)) = Suc (let_through type ps)"
    "type' \<noteq> type \<Longrightarrow> filter (waits_for type') (mark_go ps (type, i)) = filter (waits_for type') ps"
    "type' \<noteq> type \<Longrightarrow> let_through type' (mark_go ps (type, i)) = let_through type' ps"
    by auto
qed





lemma new_proceeds_same: "distinct (map_keys (ccs_queues s)) \<Longrightarrow> new_proceeds s s = []"
  by (auto simp: new_proceeds_def split: option.splits)

lemma drop_call_same:
  "let_through type (drop_call type i ps) = let_through type ps"
  "map pa_id (filter (waits_for type) (drop_call type i ps)) = remove1 i (map pa_id (filter (waits_for type) ps))"
  by (induction ps) (auto simp: let_through_def waits_for_def)


section \<open>The interface of an admission queue\<close>

text \<open>
  What the executions rely on: entering lets through at once or appends to those who wait, and never
  overtakes them; leaving lets the first of them through; discarding one who waits does, too. The
  count \<open>r\<close> in the invariant is the number of those discarded.
\<close>

locale admission_queue =
  fixes enter :: "'q \<Rightarrow> string \<Rightarrow> 'q"
    and leave :: "'q \<Rightarrow> 'q"
    and discard :: "'q \<Rightarrow> string \<Rightarrow> 'q"
    and admitted :: "'q \<Rightarrow> string list"
    and waiting :: "'q \<Rightarrow> string list"
    and ok :: "nat \<Rightarrow> 'q \<Rightarrow> nat \<Rightarrow> bool"
  assumes enter_ok: "ok r q n \<Longrightarrow> ok r (enter q i) n"
    and leave_ok: "ok r q n \<Longrightarrow> ok r (leave q) (Suc n)"
    and discard_ok: "ok r q n \<Longrightarrow> ok (Suc r) (discard q i) n"
    and ok_mono: "ok r q n \<Longrightarrow> ok (Suc r) q n"
    and enter_cases: "ok r q n \<Longrightarrow>
      admitted (enter q i) = admitted q \<and> waiting (enter q i) = waiting q @ [i] \<or>
      waiting q = [] \<and> admitted (enter q i) = admitted q @ [i] \<and> waiting (enter q i) = []"
    and leave_admits: "admitted (leave q) = admitted q @ take 1 (waiting q)" "waiting (leave q) = tl (waiting q)"
    and discard_absent: "i \<notin> set (waiting q) \<Longrightarrow> discard q i = q"
    and discard_admits: "i \<in> set (waiting q) \<Longrightarrow> admitted (discard q i) = admitted q @ take 1 (remove1 i (waiting q))"
      "i \<in> set (waiting q) \<Longrightarrow> waiting (discard q i) = tl (remove1 i (waiting q))"
begin

text \<open>The calls of a type agree with the queue, \<open>k\<close> of those let through being registered, \<open>n\<close> done.\<close>

definition tracks :: "nat \<Rightarrow> ConcurrencyQueueType \<Rightarrow> pending_add list \<Rightarrow> nat \<Rightarrow> nat \<Rightarrow> 'q \<Rightarrow> bool" where
  "tracks r type ps k n q \<longleftrightarrow> ok r q n \<and> map pa_id (filter (waits_for type) ps) = waiting q \<and>
     let_through type ps + k = length (admitted q)"

definition news :: "'q \<Rightarrow> 'q \<Rightarrow> string list" where
  "news q q' = drop (length (admitted q)) (admitted q')"

lemma enter_tracks:
  assumes "tracks r type ps k n q" "waits_for type p" "pa_id p = i"
  shows "tracks r type (foldl mark_go (ps @ [p]) (map (Pair type) (news q (enter q i)))) k n (enter q i)"
proof -
  have p: "let_through type [p] = 0" "filter (waits_for type) [p] = [p]"
    using assms(2) by (auto simp: let_through_def waits_for_def)
  from assms(1) have ok: "ok r q n" by (simp add: tracks_def)
  from enter_cases [OF this] show ?thesis
  proof
    assume "admitted (enter q i) = admitted q \<and> waiting (enter q i) = waiting q @ [i]"
    with assms(1,3) p enter_ok [OF ok] show ?thesis by (simp add: tracks_def news_def let_through_def)
  next
    assume e: "waiting q = [] \<and> admitted (enter q i) = admitted q @ [i] \<and> waiting (enter q i) = []"
    with assms(1) have none: "filter (waits_for type) ps = []" by (simp add: tracks_def)
    then have "filter (waits_for type) (ps @ [p]) = p # []" using p by simp
    note marked = mark_go_first(1,2) [OF this assms(3)]
    from e assms(1,3) p none marked enter_ok [OF ok] show ?thesis
      by (simp add: tracks_def news_def let_through_def)
  qed
qed

lemma leave_tracks:
  assumes "tracks r type ps k n q"
  shows "tracks r type (foldl mark_go ps (map (Pair type) (news q (leave q)))) k (Suc n) (leave q)"
proof (cases "filter (waits_for type) ps")
  case Nil
  with assms leave_admits [of q] leave_ok show ?thesis by (simp add: tracks_def news_def)
next
  case (Cons p rest)
  with assms have w: "waiting q = pa_id p # map pa_id rest" by (simp add: tracks_def)
  note marked = mark_go_first(1,2) [OF Cons refl]
  from w assms marked leave_admits [of q] leave_ok show ?thesis by (simp add: tracks_def news_def)
qed

lemma tracks_mono: "tracks r type ps k n q \<Longrightarrow> tracks (Suc r) type ps k n q"
  by (simp add: tracks_def ok_mono)

lemma discard_tracks:
  assumes "tracks r type ps k n q"
  shows "tracks (Suc r) type (foldl mark_go (drop_call type i ps) (map (Pair type) (news q (discard q i)))) k n (discard q i)"
proof -
  from assms have ps: "ok r q n" "map pa_id (filter (waits_for type) ps) = waiting q"
    "let_through type ps + k = length (admitted q)" by (simp_all add: tracks_def)
  have dropped: "let_through type (drop_call type i ps) = let_through type ps"
    "map pa_id (filter (waits_for type) (drop_call type i ps)) = remove1 i (waiting q)"
    using drop_call_same [of type i ps] ps(2) by auto
  show ?thesis
  proof (cases "i \<in> set (waiting q)")
    case False
    with dropped ps discard_absent [OF False] ok_mono [OF ps(1)] show ?thesis
      by (simp add: tracks_def news_def remove1_idem)
  next
    case True
    note d = discard_admits(1) [OF True] discard_admits(2) [OF True] discard_ok [OF ps(1), of i]
    show ?thesis
    proof (cases "filter (waits_for type) (drop_call type i ps)")
      case Nil
      with dropped(2) have "remove1 i (waiting q) = []" by simp
      with Nil dropped(1) ps(3) d show ?thesis by (simp add: tracks_def news_def)
    next
      case (Cons p rest)
      with dropped(2) have w: "remove1 i (waiting q) = pa_id p # map pa_id rest" by simp
      note marked = mark_go_first(1,2) [OF Cons refl]
      from w marked dropped(1) ps(3) d show ?thesis by (simp add: tracks_def news_def)
    qed
  qed
qed

end

lemma queue_admits:
  assumes "queue_over limit r (q, n)"
  shows "proceeded (enqueue q i) = proceeded q \<and> cq_queue (enqueue q i) = cq_queue q @ [i] \<or>
    cq_queue q = [] \<and> proceeded (enqueue q i) = proceeded q @ [i] \<and> cq_queue (enqueue q i) = []"
  using assms by (auto simp: enqueue_queue queue_over_def)

interpretation queue_admission: admission_queue enqueue dequeue remove_execution proceeded cq_queue
  "\<lambda>r q n. queue_over limit r (q, n)" for limit
proof unfold_locales
  show "queue_over limit r (q, n) \<Longrightarrow> queue_over limit r (enqueue q i, n)" for r q n i
    using queue_step_over [of limit r "(q, n)" "Enqueue i"] by (simp add: queue_step_def)
  show "queue_over limit r (q, n) \<Longrightarrow> queue_over limit r (dequeue q, Suc n)" for r q n
    using queue_step_over [of limit r "(q, n)" Dequeue] by (simp add: queue_step_def)
  show "queue_over limit r (q, n) \<Longrightarrow> queue_over limit (Suc r) (q, n)" for r q n
    by (auto simp: queue_over_def)
qed (use queue_admits dequeue_queue remove_over remove_queue in auto)

section \<open>Executions in progress\<close>


definition registered :: "ConcurrencyQueueType \<Rightarrow> IExecutingWorkflowData list \<Rightarrow> nat" where
  "registered type es = length (filter (of_type type) es)"


text \<open>The calls and the objects agree with the queues of the service, which is not disabled.\<close>

definition active_inv :: "(ConcurrencyQueueType \<Rightarrow> int) \<Rightarrow> (ConcurrencyQueueType \<Rightarrow> nat) \<Rightarrow> ActiveExecutions \<Rightarrow> bool" where
  "active_inv limit over x \<longleftrightarrow> ax_regular x \<and> ccs_isEnabled (ax_concurrency x) \<and>
     distinct (map_keys (ccs_queues (ax_concurrency x))) \<and>
     (\<forall>type q. map_of (ccs_queues (ax_concurrency x)) type = Some q \<longrightarrow>
        queue_admission.tracks (limit type) (over type) type (ax_pending x) (registered type (ax_objects x))
          (finished type (ax_objects x)) q) \<and>
     (\<forall>(i, a) \<in> set (ax_map x). a < length (ax_objects x))"











lemma emit_inv [simp]: "active_inv limit over (ax_emit es x) = active_inv limit over x"
  by (simp add: active_inv_def ax_emit_def)



lemma settle_with_keeps [simp]: "ae_mode (settle_with r e) = ae_mode e" "ae_finally (settle_with r e) = ae_finally e"
  by (simp_all add: settle_with_def)




lemma map_set_within: "set (map_set k v m) \<subseteq> insert (k, v) (set m)"
  by (induction k v m rule: map_set.induct) auto



lemma call_concurrency_free:
  assumes "distinct (map_keys (ccs_queues (ax_concurrency x)))"
  shows "call_concurrency (\<lambda>s. s) x = x"
  using new_proceeds_same [OF assms] by (simp add: call_concurrency_def)



text \<open>Events that take an execution of a type out of its queue.\<close>

definition takes_out :: "ConcurrencyQueueType \<Rightarrow> active_event \<Rightarrow> bool" where
  "takes_out type e \<longleftrightarrow> (case e of StopHeldBack mode i \<Rightarrow> queue_type_of mode = Some type | _ \<Rightarrow> False)"






text \<open>The number of events that take an execution of a type out of its queue.\<close>

definition removals :: "ConcurrencyQueueType \<Rightarrow> active_event list \<Rightarrow> nat" where
  "removals type es = length (filter (takes_out type) es)"




section \<open>Addresses\<close>

definition active_wf :: "ActiveExecutions \<Rightarrow> bool" where
  "active_wf x \<longleftrightarrow> distinct (map_keys (ax_map x)) \<and>
     (\<forall>(i, a) \<in> set (ax_map x). a < length (ax_objects x) \<and> ae_id (ax_objects x ! a) = i)"

lemma update_object_wf: "active_wf x \<Longrightarrow> (\<And>e. ae_id (f e) = ae_id e) \<Longrightarrow> active_wf (update_object a f x)"
  by (cases "a < length (ax_objects x)") (auto simp: active_wf_def update_object_def nth_list_update list_update_beyond)

lemma emit_wf [simp]: "active_wf (ax_emit es x) = active_wf x"
  by (simp add: active_wf_def ax_emit_def)

lemma call_wf [simp]: "active_wf (call_concurrency f x) = active_wf x"
  by (simp add: active_wf_def call_concurrency_def Let_def)

lemma delete_wf: "active_wf x \<Longrightarrow> active_wf (x\<lparr>ax_map := map_delete i (ax_map x)\<rparr>)"
  by (auto simp: active_wf_def map_delete_def distinct_map_filter)

lemma add_execution_wf: "active_wf x \<Longrightarrow> active_wf (add_execution mode i resuming x)"
  by (simp add: add_execution_def Let_def) (simp add: active_wf_def ax_emit_def)

lemma ball_subset: "A \<subseteq> B \<Longrightarrow> \<forall>x \<in> B. P x \<Longrightarrow> \<forall>x \<in> A. P x"
  by blast

lemma register_wf:
  assumes "active_wf x"
  shows "active_wf (register i now x)"
proof (cases "find_index (\<lambda>p. pa_id p = i \<and> pa_go p) (ax_pending x)")
  case None
  then show ?thesis by (simp only: register_def None option.case assms)
next
  case (Some k)
  have "active_wf (x\<lparr>ax_pending := ps, ax_objects := ax_objects x @ [e], ax_map := map_set i (length (ax_objects x)) (ax_map x)\<rparr>)"
    if "ae_id e = i" for ps e
  proof -
    let ?es = "ax_objects x @ [e]" let ?m = "map_set i (length (ax_objects x)) (ax_map x)"
    have "\<forall>(j, a) \<in> insert (i, length (ax_objects x)) (set (ax_map x)). a < length ?es \<and> ae_id (?es ! a) = j"
      using assms that by (auto simp: active_wf_def nth_append)
    then have "\<forall>(j, a) \<in> set ?m. a < length ?es \<and> ae_id (?es ! a) = j" by (rule ball_subset [OF map_set_within])
    with assms show ?thesis by (simp add: active_wf_def)
  qed
  then show ?thesis using Some by (simp add: register_def Let_def)
qed

lemma settle_with_id [simp]: "ae_id (settle_with r e) = ae_id e"
  by (simp add: settle_with_def)

lemma stopExecution_wf: "active_wf x \<Longrightarrow> active_wf (stopExecution i x)"
  by (auto simp: stopExecution_def Let_def split: option.splits intro!: update_object_wf delete_wf)

section \<open>Shutdown\<close>

text \<open>What may be left: an execution that will be deleted when its promise settles, or has settled.\<close>

definition may_remain :: "bool \<Rightarrow> bool \<Rightarrow> IExecutingWorkflowData \<Rightarrow> bool" where
  "may_remain regular cancelAll e \<longleftrightarrow> ae_status e \<noteq> Waiting \<and>
     (ae_postExecute e \<noteq> None \<or>
      ae_status e \<noteq> NewStatus \<and> ae_responsePromise e = None \<and> \<not> (regular \<and> cancelAll))"

definition same_calls :: "ActiveExecutions \<Rightarrow> ActiveExecutions \<Rightarrow> bool" where
  "same_calls x x' \<longleftrightarrow> ax_regular x' = ax_regular x \<and> ax_concurrency x' = ax_concurrency x \<and>
     ax_pending x' = ax_pending x \<and> length (ax_objects x') = length (ax_objects x)"

lemma may_remain_settle [simp]: "may_remain r c e \<Longrightarrow> may_remain r c (settle_with s e)"
  by (auto simp: may_remain_def settle_with_def)

lemma shutdown_one_step:
  assumes "active_wf x" "map_of (ax_map x) i = Some a"
  shows "\<exists>x' toCancel'. shutdown_one cancelAll (x, toCancel) i = Inr (x', toCancel') \<and> active_wf x' \<and> same_calls x x' \<and>
    (\<forall>j b. map_of (ax_map x') j = Some b \<longrightarrow> map_of (ax_map x) j = Some b) \<and>
    (\<forall>j. j \<noteq> i \<longrightarrow> map_of (ax_map x') j = map_of (ax_map x) j) \<and>
    (\<forall>b. map_of (ax_map x') i = Some b \<longrightarrow> may_remain (ax_regular x) cancelAll (ax_objects x' ! b)) \<and>
    (\<forall>b. may_remain (ax_regular x) cancelAll (ax_objects x ! b) \<longrightarrow> may_remain (ax_regular x) cancelAll (ax_objects x' ! b))"
proof -
  let ?e = "ax_objects x ! a"
  have a: "a < length (ax_objects x)" "object_at x i = Some ?e"
    using assms map_of_SomeD [OF assms(2)] by (auto simp: active_wf_def object_at_def)
  have dropped: "map_of (map_delete i (ax_map x)) j = (if j = i then None else map_of (ax_map x) j)" for j
    by (simp add: jsmap)
  have stop: "active_wf (stopExecution i x)" by (rule stopExecution_wf [OF assms(1)])
  consider (stop_waiting) "ae_responsePromise ?e \<noteq> None \<or> ax_regular x \<and> cancelAll" "ae_status ?e = Waiting"
    | (stop) "ae_responsePromise ?e \<noteq> None \<or> ax_regular x \<and> cancelAll" "ae_status ?e \<noteq> Waiting"
    | (drop) "ae_responsePromise ?e = None" "\<not> (ax_regular x \<and> cancelAll)" "ae_status ?e = Waiting \<or> ae_status ?e = NewStatus"
    | (keep) "ae_responsePromise ?e = None" "\<not> (ax_regular x \<and> cancelAll)" "ae_status ?e \<noteq> Waiting" "ae_status ?e \<noteq> NewStatus"
    by blast
  then show ?thesis
  proof cases
    case stop_waiting
    with assms(2) stop show ?thesis
      by (auto simp: shutdown_one_def a(2) stopExecution_def Let_def ax_emit_def dropped same_calls_def split: if_splits)
  next
    case stop
    have settled: "may_remain r cancelAll (settle_with RejectedCancelled ?e)" for r
      using stop(2) by (auto simp: may_remain_def settle_with_def)
    have objects: "ax_objects (stopExecution i x) = (ax_objects x)[a := settle_with RejectedCancelled ?e]"
      "ax_map (stopExecution i x) = ax_map x" "same_calls x (stopExecution i x)"
      using stop(2) assms(2) by (simp_all add: stopExecution_def update_object_def ax_emit_def Let_def same_calls_def)
    have "may_remain r cancelAll (ax_objects x ! b) \<Longrightarrow> may_remain r cancelAll (ax_objects (stopExecution i x) ! b)" for r b
      using settled a(1) by (cases "b = a") (simp_all add: objects)
    moreover have "may_remain r cancelAll (ax_objects (stopExecution i x) ! a)" for r
      using settled a(1) by (simp add: objects)
    moreover have "shutdown_one cancelAll (x, toCancel) i = Inr (stopExecution i x, toCancel @ [i])"
      using stop(1) by (simp add: shutdown_one_def a(2))
    ultimately show ?thesis using assms(2) \<open>active_wf (stopExecution i x)\<close> objects(2,3) by auto
  next
    case drop
    with assms delete_wf [OF assms(1), of i] show ?thesis
      by (auto simp: shutdown_one_def a(2) dropped same_calls_def split: if_splits)
  next
    case keep
    with assms show ?thesis by (auto simp: shutdown_one_def a(2) same_calls_def may_remain_def)
  qed
qed

lemma shutdown_loop:
  assumes "active_wf x" "distinct ks" "\<forall>i \<in> set ks. map_of (ax_map x) i \<noteq> None"
  shows "\<exists>x' toCancel'. fold_res (shutdown_one cancelAll) (x, toCancel) ks = Inr (x', toCancel') \<and> same_calls x x' \<and> active_wf x' \<and>
    (\<forall>j b. map_of (ax_map x') j = Some b \<longrightarrow> map_of (ax_map x) j = Some b) \<and>
    (\<forall>j \<in> set ks. \<forall>b. map_of (ax_map x') j = Some b \<longrightarrow> may_remain (ax_regular x) cancelAll (ax_objects x' ! b)) \<and>
    (\<forall>b. may_remain (ax_regular x) cancelAll (ax_objects x ! b) \<longrightarrow> may_remain (ax_regular x) cancelAll (ax_objects x' ! b))"
  using assms
proof (induction ks arbitrary: x toCancel)
  case Nil
  then show ?case by (simp add: same_calls_def)
next
  case (Cons i ks)
  from Cons.prems(3) obtain a where "map_of (ax_map x) i = Some a" by auto
  from shutdown_one_step [OF Cons.prems(1) this, of cancelAll toCancel] obtain x1 c1 where
    one: "shutdown_one cancelAll (x, toCancel) i = Inr (x1, c1)" "active_wf x1" "same_calls x x1"
      "\<And>j b. map_of (ax_map x1) j = Some b \<Longrightarrow> map_of (ax_map x) j = Some b"
      "\<And>j. j \<noteq> i \<Longrightarrow> map_of (ax_map x1) j = map_of (ax_map x) j"
      "\<And>b. map_of (ax_map x1) i = Some b \<Longrightarrow> may_remain (ax_regular x) cancelAll (ax_objects x1 ! b)"
      "\<And>b. may_remain (ax_regular x) cancelAll (ax_objects x ! b) \<Longrightarrow> may_remain (ax_regular x) cancelAll (ax_objects x1 ! b)"
    by blast
  have regular: "ax_regular x1 = ax_regular x" using one(3) by (simp add: same_calls_def)
  have "\<forall>j \<in> set ks. map_of (ax_map x1) j \<noteq> None" using Cons.prems(2,3) one(5)
    by (metis distinct.simps(2) list.set_intros(2))
  with Cons.IH [OF one(2), of c1] Cons.prems(2) obtain x2 c2 where
    rest: "fold_res (shutdown_one cancelAll) (x1, c1) ks = Inr (x2, c2)" "same_calls x1 x2" "active_wf x2"
      "\<And>j b. map_of (ax_map x2) j = Some b \<Longrightarrow> map_of (ax_map x1) j = Some b"
      "\<And>j b. j \<in> set ks \<Longrightarrow> map_of (ax_map x2) j = Some b \<Longrightarrow> may_remain (ax_regular x) cancelAll (ax_objects x2 ! b)"
      "\<And>b. may_remain (ax_regular x) cancelAll (ax_objects x1 ! b) \<Longrightarrow> may_remain (ax_regular x) cancelAll (ax_objects x2 ! b)"
    unfolding regular by auto
  have "same_calls x x2" using one(3) rest(2) by (simp add: same_calls_def)
  moreover have "may_remain (ax_regular x) cancelAll (ax_objects x2 ! b)" if "j \<in> set (i # ks)" "map_of (ax_map x2) j = Some b" for j b
    using that rest(4,5,6) one(6) by auto
  ultimately show ?case using one(1,4,7) rest(1,3,4,6) by auto
qed


lemma shutdown_wf:
  assumes "active_wf x" "shutdown cancelAll x = Inr x'"
  shows "active_wf x'"
proof -
  define x1 where "x1 = (if ax_regular x then x\<lparr>ax_concurrency := disable (ax_concurrency x)\<rparr> else x)"
  have x1: "active_wf x1" using assms(1) by (simp add: x1_def active_wf_def)
  then have "distinct (map_keys (ax_map x1))" by (simp add: active_wf_def)
  from shutdown_loop [OF x1 this, of cancelAll "[]"] obtain x2 c where
    "fold_res (shutdown_one cancelAll) (x1, []) (map_keys (ax_map x1)) = Inr (x2, c)" "active_wf x2"
    by (auto simp: map_of_eq_None_iff)
  with assms(2) show ?thesis by (auto simp: shutdown_def x1_def [symmetric])
qed

lemma removeHeldBack_wf: "active_wf x \<Longrightarrow> active_wf (removeHeldBack mode i x)"
  by (simp add: removeHeldBack_def split: option.split) (simp add: active_wf_def)

lemma active_step_wf: "active_wf x \<Longrightarrow> active_wf (active_step x e)"
  by (cases e) (auto simp: add_execution_wf register_wf finalizeExecution_def run_finally_def Let_def
      or_unchanged_def attachWorkflowExecution_def attachResponsePromise_def resolveResponsePromise_def setStatus_def
      stopExecution_wf shutdown_wf removeHeldBack_wf
      resI split: sum.splits option.splits intro!: update_object_wf delete_wf)

interpretation address_machine: invariant_machine active_step active_wf
  by unfold_locales (rule active_step_wf)


text \<open>The mode of the process and the types of its queues never change.\<close>

definition has_queues :: "bool \<Rightarrow> ConcurrencyQueueType list \<Rightarrow> ActiveExecutions \<Rightarrow> bool" where
  "has_queues regular types x \<longleftrightarrow> ax_regular x = regular \<and> map_keys (ccs_queues (ax_concurrency x)) = types"

lemma map_set_keys: "map_of m k \<noteq> None \<Longrightarrow> map_keys (map_set k v m) = map_keys m"
  by (induction k v m rule: map_set.induct) auto

lemma has_queues_call: "has_queues r ts x \<Longrightarrow> has_queues r ts (call_concurrency (\<lambda>s. on_queue f s mode) x)"
  by (auto simp: has_queues_def call_concurrency_def Let_def on_queue_def getQueue_def map_set_keys split: option.splits)

lemma has_queues_other [simp]:
  "has_queues r ts (ax_emit es x) = has_queues r ts x" "has_queues r ts (update_object a f x) = has_queues r ts x"
  "has_queues r ts (x\<lparr>ax_pending := ps\<rparr>) = has_queues r ts x" "has_queues r ts (x\<lparr>ax_map := m\<rparr>) = has_queues r ts x"
  "has_queues r ts (x\<lparr>ax_objects := es'\<rparr>) = has_queues r ts x"
  by (simp_all add: has_queues_def ax_emit_def update_object_def)

lemma has_queues_stop: "has_queues r ts x \<Longrightarrow> has_queues r ts (stopExecution i x)"
  by (simp add: stopExecution_def Let_def split: option.split)

lemma has_queues_remove: "has_queues r ts x \<Longrightarrow> has_queues r ts (removeHeldBack mode i x)"
  by (simp add: removeHeldBack_def ccs_remove_def has_queues_call split: option.split)

lemma has_queues_shutdown:
  assumes "has_queues r ts x" "shutdown cancelAll x = Inr x'"
  shows "has_queues r ts x'"
proof -
  define x1 where "x1 = (if ax_regular x then x\<lparr>ax_concurrency := disable (ax_concurrency x)\<rparr> else x)"
  from assms(2) obtain x2 c where loop: "fold_res (shutdown_one cancelAll) (x1, []) (map_keys (ax_map x1)) = Inr (x2, c)"
    and x': "x' = call_concurrency (\<lambda>s. removeAll_executions s c) x2"
    by (auto simp: shutdown_def x1_def [symmetric] resI)
  have "has_queues r ts (fst (x2, c))"
  proof (rule fold_res_invariant [OF loop, of "\<lambda>s. has_queues r ts (fst s)"])
    show "has_queues r ts (fst (x1, []))" using assms(1) by (simp add: x1_def has_queues_def disable_def)
    show "has_queues r ts (fst u)" if "has_queues r ts (fst s)" "shutdown_one cancelAll s i = Inr u" for s i u
      using that by (auto simp: shutdown_one_def has_queues_stop split: prod.splits option.splits if_splits)
  qed
  then show ?thesis
    by (auto simp: x' has_queues_def call_concurrency_def Let_def removeAll_executions_def comp_def case_prod_unfold)
qed

lemma active_step_queues: "has_queues r ts x \<Longrightarrow> has_queues r ts (active_step x e)"
  by (cases e) (auto simp: add_execution_def register_def stopExecution_def finalizeExecution_def run_finally_def Let_def
      or_unchanged_def attachWorkflowExecution_def attachResponsePromise_def resolveResponsePromise_def setStatus_def
      throttle_def release_def has_queues_remove has_queues_shutdown resI simp del: find_index_None_iff split: sum.splits option.splits intro!: has_queues_call)

interpretation queues_machine: invariant_machine active_step "has_queues regular types" for regular types
  by unfold_locales (rule active_step_queues)

lemma new_service_distinct: "new_service cfg = Inr s \<Longrightarrow> distinct (map_keys (ccs_queues s))"
  by (auto simp: new_service_def resI split: if_splits)

section \<open>Properties\<close>

definition run_active :: "bool \<Rightarrow> ConcurrencyControlService \<Rightarrow> active_event list \<Rightarrow> ActiveExecutions" where
  "run_active regular s es = foldl active_step (new_active regular s) es"

lemma run_active_wf: "active_wf (run_active regular s es)"
  unfolding run_active_def by (rule address_machine.run_inv) (simp add: active_wf_def new_active_def)

lemma run_active_queues: "has_queues regular (map_keys (ccs_queues s)) (run_active regular s es)"
  unfolding run_active_def by (rule queues_machine.run_inv) (simp add: has_queues_def new_active_def)


definition sample_concurrency :: concurrency_config where
  "sample_concurrency = \<lparr>cc_productionLimit = 1, cc_evaluationLimit = -1, cc_queueMode = False, cc_cloud = False\<rparr>"

definition sample_service :: ConcurrencyControlService where
  "sample_service = \<lparr>ccs_isEnabled = True, ccs_limits = [(Production, 1), (Evaluation, -1)],
     ccs_queues = [(Production, new_queue 1)], ccs_cancelled = []\<rparr>"

definition sample_active :: "active_event list" where
  "sample_active = [AddNew Mode_webhook ''1'', Register ''1'' 5, AddNew Mode_trigger ''2'', AddNew Mode_manual ''3'']"


text \<open>
  The bound is reached: when the execution \<open>2\<close>, which is held back, is stopped, the execution \<open>3\<close> that
  waits behind it is let through although \<open>1\<close> still runs and the limit is 1.
\<close>

definition stopped_while_held_back :: "active_event list" where
  "stopped_while_held_back = [AddNew Mode_webhook ''1'', Register ''1'' 5, AddNew Mode_webhook ''2'',
     AddNew Mode_webhook ''3'', StopHeldBack Mode_webhook ''2'']"

theorem stopped_while_held_back_exceeds_limit:
  "in_progress Production (run_active True sample_service stopped_while_held_back) = 2 \<and>
   removals Production stopped_while_held_back = 1 \<and>
   map (\<lambda>p. (pa_id p, pa_go p)) (ax_pending (run_active True sample_service stopped_while_held_back)) = [(''3'', True)]"
  by code_simp

text \<open>The map of active executions has one entry per id, and every entry is the address of an
  object of that id, in every state that the operations reach.\<close>

theorem active_map_well_formed:
  "distinct (map_keys (ax_map (run_active regular s es))) \<and>
   list_all (\<lambda>(i, a). a < length (ax_objects (run_active regular s es)) \<and>
     ae_id (ax_objects (run_active regular s es) ! a) = i) (ax_map (run_active regular s es))"
  using run_active_wf [of regular s es] by (auto simp: active_wf_def list_all_iff)

text \<open>C34: \<open>shutdown\<close> never throws, lets no throttled execution through, and leaves in the map only
  executions that are not waiting and either have been settled, so that their callback deletes them,
  or run and have neither a response promise nor been asked to be cancelled.\<close>

theorem shutdown_leaves_running:
  assumes "new_service cfg = Inr s"
  shows "\<exists>x'. shutdown cancelAll (run_active True s es) = Inr x' \<and>
    ax_pending x' = ax_pending (run_active True s es) \<and>
    ax_concurrency x' = disable (ax_concurrency (run_active True s es)) \<and>
    list_all (\<lambda>(i, a). may_remain (ax_regular x') cancelAll (ax_objects x' ! a)) (ax_map x')"
proof -
  let ?x = "run_active True s es"
  let ?x1 = "?x\<lparr>ax_concurrency := disable (ax_concurrency ?x)\<rparr>"
  from run_active_queues [of True s es] have regular: "ax_regular ?x"
    and queues: "distinct (map_keys (ccs_queues (disable (ax_concurrency ?x))))"
    using new_service_distinct [OF assms] by (simp_all add: has_queues_def disable_def)
  have wf: "active_wf ?x1" using run_active_wf [of True s es] by (simp add: active_wf_def)
  have "\<forall>i \<in> set (map_keys (ax_map ?x1)). map_of (ax_map ?x1) i \<noteq> None" by (simp add: map_of_eq_None_iff)
  moreover have "distinct (map_keys (ax_map ?x1))" using wf by (simp add: active_wf_def)
  ultimately obtain x2 c where
    loop: "fold_res (shutdown_one cancelAll) (?x1, []) (map_keys (ax_map ?x1)) = Inr (x2, c)" "same_calls ?x1 x2"
      "active_wf x2" "\<And>j b. map_of (ax_map x2) j = Some b \<Longrightarrow> map_of (ax_map ?x1) j = Some b"
      "\<And>j b. j \<in> set (map_keys (ax_map ?x1)) \<Longrightarrow> map_of (ax_map x2) j = Some b \<Longrightarrow>
         may_remain (ax_regular ?x1) cancelAll (ax_objects x2 ! b)"
    using shutdown_loop [OF wf, of "map_keys (ax_map ?x1)" cancelAll "[]"] by blast
  have same: "ax_regular x2" "ax_concurrency x2 = disable (ax_concurrency ?x)" "ax_pending x2 = ax_pending ?x"
    using loop(2) regular by (simp_all add: same_calls_def)
  then have "removeAll_executions (ax_concurrency x2) c = ax_concurrency x2"
    by (simp add: removeAll_executions_def disable_def)
  then have "call_concurrency (\<lambda>s. removeAll_executions s c) x2 = x2"
    using call_concurrency_free [of x2] queues same(2) by (simp add: call_concurrency_def)
  then have "shutdown cancelAll ?x = Inr x2" using regular loop(1) by (simp add: shutdown_def)
  moreover have "may_remain (ax_regular x2) cancelAll (ax_objects x2 ! b)" if "(j, b) \<in> set (ax_map x2)" for j b
  proof -
    from that loop(3) have "map_of (ax_map x2) j = Some b" by (simp add: active_wf_def)
    with loop(5) [OF _ this] loop(4) [OF this] regular same(1) show ?thesis by (force dest: map_of_SomeD)
  qed
  ultimately show ?thesis using same by (auto simp: list_all_iff)
qed

theorem shutdown_leaves_running_witness:
  "\<exists>x'. shutdown True (run_active True sample_service sample_active) = Inr x' \<and>
    map pa_id (ax_pending x') = [''2'', ''3''] \<and>
    list_all (\<lambda>(i, a). may_remain (ax_regular x') True (ax_objects x' ! a)) (ax_map x')"
proof -
  have "new_service sample_concurrency = Inr sample_service" by code_simp
  from shutdown_leaves_running [OF this, of True sample_active] obtain x' where
    "shutdown True (run_active True sample_service sample_active) = Inr x'"
    "ax_pending x' = ax_pending (run_active True sample_service sample_active)"
    "list_all (\<lambda>(i, a). may_remain (ax_regular x') True (ax_objects x' ! a)) (ax_map x')" by blast
  moreover have "map pa_id (ax_pending (run_active True sample_service sample_active)) = [''2'', ''3'']" by code_simp
  ultimately show ?thesis by auto
qed

text \<open>
  An execution whose node asks to wait has the status \<open>waiting\<close> while the node still runs. When it is
  stopped then, it is deleted from the map, its promise never settles and its place is not given back,
  although the run finishes: the next execution stays held back.
\<close>

definition stopped_while_waiting :: "active_event list" where
  "stopped_while_waiting = [AddNew Mode_webhook ''1'', Register ''1'' 5, AttachWorkflow ''1'' 7, SetStatus ''1'' Waiting,
     AddNew Mode_webhook ''2'', Stop ''1'', Finalize ''1'' None, FinallyRuns 0]"

theorem stopped_while_waiting_keeps_place:
  "ax_map (run_active True sample_service stopped_while_waiting) = [] \<and>
   ae_postExecute (ax_objects (run_active True sample_service stopped_while_waiting) ! 0) = None \<and>
   held_back Production (run_active True sample_service stopped_while_waiting) = [''2'']"
  by code_simp

end
