(* ===== verification/Effects.thy ===== *)
theory Effects
  imports Prelude
begin

text \<open>
  Routines that change a state and may throw: what they changed before they throw stays changed.
  \<open>wp m Q E s\<close> is their weakest precondition: \<open>Q\<close> holds of the value and the state when \<open>m\<close> returns from
  \<open>s\<close>, \<open>E\<close> of the error and the state when it throws. The rewrite rules \<open>wp\<close> compute it through a
  routine, loops take an invariant.
\<close>

named_theorems wp "weakest preconditions of routines"

type_synonym ('s, 'a) eff = "'s \<Rightarrow> 'a res \<times> 's"

definition ereturn :: "'a \<Rightarrow> ('s, 'a) eff" where
  "ereturn x = (\<lambda>s. (Inr x, s))"

definition ethrow :: "js_error \<Rightarrow> ('s, 'a) eff" where
  "ethrow e = (\<lambda>s. (Inl e, s))"

definition elift :: "'a res \<Rightarrow> ('s, 'a) eff" where
  "elift r = (\<lambda>s. (r, s))"

definition eget :: "('s \<Rightarrow> 'a) \<Rightarrow> ('s, 'a) eff" where
  "eget f = (\<lambda>s. (Inr (f s), s))"

definition emodify :: "('s \<Rightarrow> 's) \<Rightarrow> ('s, unit) eff" where
  "emodify f = (\<lambda>s. (Inr (), f s))"

definition ebind :: "('s, 'a) eff \<Rightarrow> ('a \<Rightarrow> ('s, 'b) eff) \<Rightarrow> ('s, 'b) eff" where
  "ebind m f = (\<lambda>s. case m s of (Inl e, s') \<Rightarrow> (Inl e, s') | (Inr x, s') \<Rightarrow> f x s')"

definition eseq :: "('s, unit) eff \<Rightarrow> ('s, 'b) eff \<Rightarrow> ('s, 'b) eff" where
  "eseq m n = ebind m (\<lambda>_. n)"

definition ecatch :: "('s, 'a) eff \<Rightarrow> (js_error \<Rightarrow> ('s, 'a) eff) \<Rightarrow> ('s, 'a) eff" where
  "ecatch m h = (\<lambda>s. case m s of (Inl e, s') \<Rightarrow> h e s' | (Inr x, s') \<Rightarrow> (Inr x, s'))"

definition ewhen :: "bool \<Rightarrow> ('s, unit) eff \<Rightarrow> ('s, unit) eff" where
  "ewhen b m = (if b then m else ereturn ())"

fun efor :: "'a list \<Rightarrow> ('a \<Rightarrow> ('s, unit) eff) \<Rightarrow> ('s, unit) eff" where
  "efor [] f = ereturn ()"
| "efor (x # xs) f = eseq (f x) (efor xs f)"

text \<open>A loop that collects what its body returns.\<close>

fun ecollect :: "'a list \<Rightarrow> ('a \<Rightarrow> ('s, 'b list) eff) \<Rightarrow> ('s, 'b list) eff" where
  "ecollect [] f = ereturn []"
| "ecollect (x # xs) f = ebind (f x) (\<lambda>ys. ebind (ecollect xs f) (\<lambda>zs. ereturn (ys @ zs)))"

text \<open>A routine on a part of the state.\<close>

definition eon :: "('s \<Rightarrow> 't) \<Rightarrow> ('t \<Rightarrow> 's \<Rightarrow> 's) \<Rightarrow> ('t, 'a) eff \<Rightarrow> ('s, 'a) eff" where
  "eon get put m = (\<lambda>s. case m (get s) of (r, t) \<Rightarrow> (r, put t s))"

section \<open>Weakest preconditions\<close>

definition wp_of :: "('s, 'a) eff \<Rightarrow> ('a \<Rightarrow> 's \<Rightarrow> bool) \<Rightarrow> (js_error \<Rightarrow> 's \<Rightarrow> bool) \<Rightarrow> 's \<Rightarrow> bool" where
  "wp_of m Q E s = (case m s of (Inl e, s') \<Rightarrow> E e s' | (Inr x, s') \<Rightarrow> Q x s')"

lemma wp_simps [wp]:
  "wp_of (ereturn x) Q E = Q x"
  "wp_of (ethrow e) Q E = E e"
  "wp_of (elift r) Q E = (\<lambda>s. case r of Inl e \<Rightarrow> E e s | Inr x \<Rightarrow> Q x s)"
  "wp_of (eget f) Q E = (\<lambda>s. Q (f s) s)"
  "wp_of (emodify g) Q' E = (\<lambda>s. Q' () (g s))"
  "wp_of (eseq n m) Q E = wp_of n (\<lambda>_. wp_of m Q E) E"
  "wp_of (ecatch m h) Q E = wp_of m Q (\<lambda>e. wp_of (h e) Q E)"
  "wp_of (ewhen b n) Q' E = (\<lambda>s. if b then wp_of n Q' E s else Q' () s)"
  "wp_of (efor [] l) Q' E = Q' ()"
  "wp_of (ecollect [] c) Q'' E = Q'' []"
  by (auto simp: wp_of_def ereturn_def ethrow_def elift_def eget_def emodify_def ebind_def eseq_def ecatch_def
      ewhen_def fun_eq_iff split: sum.splits prod.splits)

lemma wp_bind [wp]: "wp_of (ebind m f) Q E = wp_of m (\<lambda>x. wp_of (f x) Q E) E"
  by (auto simp: wp_of_def ebind_def fun_eq_iff split: sum.splits prod.splits)

lemma wp_on [wp]: "wp_of (eon get put m) Q E = (\<lambda>s. wp_of m (\<lambda>x t. Q x (put t s)) (\<lambda>e t. E e (put t s)) (get s))"
  by (auto simp: wp_of_def eon_def fun_eq_iff split: sum.splits prod.splits)

lemma wp_if [wp]: "wp_of (if b then m else n) Q E = (if b then wp_of m Q E else wp_of n Q E)"
  by simp

lemma wp_option [wp]:
  "wp_of (case x of None \<Rightarrow> m | Some y \<Rightarrow> f y) Q E = (case x of None \<Rightarrow> wp_of m Q E | Some y \<Rightarrow> wp_of (f y) Q E)"
  by (cases x) simp_all

lemma wp_mono:
  "wp_of m Q E s \<Longrightarrow> (\<And>x s'. Q x s' \<Longrightarrow> Q' x s') \<Longrightarrow> (\<And>e s'. E e s' \<Longrightarrow> E' e s') \<Longrightarrow> wp_of m Q' E' s"
  by (auto simp: wp_of_def split: sum.splits prod.splits)

lemma wp_for:
  assumes "I s" "\<And>x t. x \<in> set xs \<Longrightarrow> I t \<Longrightarrow> wp_of (f x) (\<lambda>_. I) E t"
  shows "wp_of (efor xs f) (\<lambda>_. I) E s"
  using assms
proof (induction xs arbitrary: s)
  case (Cons x xs)
  have "wp_of (f x) (\<lambda>_. I) E s" using Cons.prems by simp
  then have "wp_of (f x) (\<lambda>_. wp_of (efor xs f) (\<lambda>_. I) E) E s"
    by (rule wp_mono) (use Cons in auto)
  then show ?case by (simp add: wp)
qed (simp add: wp)

lemma wp_collect:
  assumes "I [] s" "\<And>x ys t. x \<in> set xs \<Longrightarrow> I ys t \<Longrightarrow> wp_of (f x) (\<lambda>zs. I (ys @ zs)) E t"
  shows "wp_of (ecollect xs f) I E s"
proof -
  have "I ys s \<Longrightarrow> (\<And>x ys t. x \<in> set xs \<Longrightarrow> I ys t \<Longrightarrow> wp_of (f x) (\<lambda>zs. I (ys @ zs)) E t) \<Longrightarrow>
    wp_of (ecollect xs f) (\<lambda>zs. I (ys @ zs)) E s" for ys
  proof (induction xs arbitrary: s ys)
    case (Cons x xs)
    have "wp_of (f x) (\<lambda>zs. I (ys @ zs)) E s" using Cons.prems by simp
    then have "wp_of (f x) (\<lambda>zs. wp_of (ecollect xs f) (\<lambda>us. I ((ys @ zs) @ us)) E) E s"
      by (rule wp_mono) (rule Cons.IH, use Cons.prems(2) in auto)
    then show ?case by (simp add: wp)
  qed (simp add: wp)
  from this [of "[]"] assms show ?thesis by simp
qed

text \<open>What holds of every outcome, and how to read it off a run.\<close>

definition keeps :: "('s \<Rightarrow> bool) \<Rightarrow> ('s, 'a) eff \<Rightarrow> bool" where
  "keeps I m \<longleftrightarrow> (\<forall>s. I s \<longrightarrow> wp_of m (\<lambda>_. I) (\<lambda>_. I) s)"

lemma keepsI: "(\<And>s. I s \<Longrightarrow> wp_of m (\<lambda>_. I) (\<lambda>_. I) s) \<Longrightarrow> keeps I m"
  by (simp add: keeps_def)

lemma keeps_wp: "keeps I m \<Longrightarrow> I s \<Longrightarrow> wp_of m (\<lambda>_. I) (\<lambda>_. I) s"
  by (simp add: keeps_def)

lemma wp_result: "wp_of m Q E s \<Longrightarrow> m s = (Inr x, s') \<Longrightarrow> Q x s'"
  by (simp add: wp_of_def)

lemma wp_error: "wp_of m Q E s \<Longrightarrow> m s = (Inl e, s') \<Longrightarrow> E e s'"
  by (simp add: wp_of_def)

lemma keepsD: "keeps I m \<Longrightarrow> I s \<Longrightarrow> I (snd (m s))"
  by (drule (1) keeps_wp) (cases "m s"; cases "fst (m s)"; simp add: wp_of_def)

lemma keeps_bind: "keeps I m \<Longrightarrow> (\<And>x. keeps I (f x)) \<Longrightarrow> keeps I (ebind m f)"
  by (rule keepsI) (simp only: wp, rule wp_mono [OF keeps_wp], assumption+, auto intro: keeps_wp)

lemma keeps_seq: "keeps I m \<Longrightarrow> keeps I n \<Longrightarrow> keeps I (eseq m n)"
  by (rule keepsI) (simp only: wp, rule wp_mono [OF keeps_wp], assumption+, auto intro: keeps_wp)

lemma keeps_catch: "keeps I m \<Longrightarrow> (\<And>e. keeps I (h e)) \<Longrightarrow> keeps I (ecatch m h)"
  by (rule keepsI) (simp only: wp, rule wp_mono [OF keeps_wp], assumption+, auto intro: keeps_wp)

lemma keeps_for: "(\<And>x. x \<in> set xs \<Longrightarrow> keeps I (f x)) \<Longrightarrow> keeps I (efor xs f)"
  by (rule keepsI) (rule wp_for, auto intro: keeps_wp)

lemma keeps_collect: "(\<And>x. x \<in> set xs \<Longrightarrow> keeps I (f x)) \<Longrightarrow> keeps I (ecollect xs f)"
  by (rule keepsI) (rule wp_collect, auto intro: keeps_wp)

lemma keeps_basic:
  "keeps I (ereturn x)" "keeps I (ethrow e)" "keeps I (elift r)" "keeps I (eget f)"
  "(\<And>s. I s \<Longrightarrow> I (g s)) \<Longrightarrow> keeps I (emodify g)"
  by (auto simp: keeps_def wp split: sum.splits)

lemma keeps_if: "(b \<Longrightarrow> keeps I m) \<Longrightarrow> (\<not> b \<Longrightarrow> keeps I n) \<Longrightarrow> keeps I (if b then m else n)"
  by simp

lemma keeps_when: "(b \<Longrightarrow> keeps I m) \<Longrightarrow> keeps I (ewhen b m)"
  by (simp add: keeps_def wp)

lemma keeps_option:
  "(x = None \<Longrightarrow> keeps I m) \<Longrightarrow> (\<And>y. x = Some y \<Longrightarrow> keeps I (f y)) \<Longrightarrow>
   keeps I (case x of None \<Rightarrow> m | Some y \<Rightarrow> f y)"
  by (cases x) simp_all

lemma keeps_on:
  "keeps J m \<Longrightarrow> (\<And>s. I s \<Longrightarrow> J (get s)) \<Longrightarrow> (\<And>s t. I s \<Longrightarrow> J t \<Longrightarrow> I (put t s)) \<Longrightarrow> keeps I (eon get put m)"
  by (rule keepsI) (simp only: wp, rule wp_mono [OF keeps_wp [of J]], auto)

lemmas keeps_rules = keeps_basic(1-4) keeps_bind keeps_seq keeps_catch keeps_for keeps_collect keeps_if keeps_when keeps_option

end
