(* ===== verification/ActiveWorkflows.thy ===== *)
theory ActiveWorkflows
  imports WorkflowGraph Effects
begin

text \<open>
  Workflows that are active in memory: the expressions of polling times (\<open>workflow/src/Cron.ts\<close>), the
  cron jobs of a workflow (\<open>scheduled-task-manager.ts\<close>), starting triggers and polls
  (\<open>triggers-and-pollers.ts\<close>) and the class \<open>ActiveWorkflows\<close> (\<open>active-workflows.ts\<close>), all of
  \<open>packages/core/src/execution-engine\<close>.

  What the nodes do is the record \<open>activation_env\<close>. Every call outside gets a number, so that it may
  behave differently each time; the numbers also identify cron jobs and started triggers. A trigger
  may register cron jobs, and returns a response with a function that closes it, or without.
\<close>

section \<open>Cron expressions\<close>

datatype TriggerTime =
    EveryMinute
  | EveryXMinutes int
  | EveryHour int
  | EveryXHours int
  | EveryDay int int
  | EveryWeek int int int
  | EveryMonth int int int
  | CustomTime string

definition cron_fields :: "string list \<Rightarrow> string" where
  "cron_fields parts = js_join '' '' parts"

text \<open>The two random numbers are below 60; \<open>EveryDay\<close> and the like have the hour first.\<close>

fun toCronExpression :: "nat \<Rightarrow> nat \<Rightarrow> TriggerTime \<Rightarrow> string" where
  "toCronExpression randomSecond randomMinute EveryMinute =
     cron_fields [nat_str randomSecond, ''*'', ''*'', ''*'', ''*'', ''*'']"
| "toCronExpression randomSecond randomMinute (EveryHour minute) =
     cron_fields [nat_str randomSecond, int_str minute, ''*'', ''*'', ''*'', ''*'']"
| "toCronExpression randomSecond randomMinute (EveryXMinutes value) =
     cron_fields [nat_str randomSecond, ''*/'' @ int_str value, ''*'', ''*'', ''*'', ''*'']"
| "toCronExpression randomSecond randomMinute (EveryXHours value) =
     cron_fields [nat_str randomSecond, nat_str randomMinute, ''*/'' @ int_str value, ''*'', ''*'', ''*'']"
| "toCronExpression randomSecond randomMinute (EveryDay hour minute) =
     cron_fields [nat_str randomSecond, int_str minute, int_str hour, ''*'', ''*'', ''*'']"
| "toCronExpression randomSecond randomMinute (EveryWeek hour minute weekday) =
     cron_fields [nat_str randomSecond, int_str minute, int_str hour, ''*'', ''*'', int_str weekday]"
| "toCronExpression randomSecond randomMinute (EveryMonth hour minute dayOfMonth) =
     cron_fields [nat_str randomSecond, int_str minute, int_str hour, int_str dayOfMonth, ''*'', ''*'']"
| "toCronExpression randomSecond randomMinute (CustomTime cronExpression) = js_trim cronExpression"

text \<open>The check of \<open>activatePolling\<close>: the seconds must not repeat.\<close>

definition too_short :: "string \<Rightarrow> bool" where
  "too_short cronTime = (let cronTimeParts = js_split CHR '' '' cronTime in
     length cronTimeParts > 0 \<and> CHR ''*'' \<in> set (hd cronTimeParts))"

section \<open>State\<close>

datatype close_behaviour = Closes | ThrowsTriggerCloseError | ThrowsOnClose string

record ITriggerResponse =
  tr_id :: nat
  tr_closeFunction :: "close_behaviour option"

datatype trigger_result =
    TriggerResponds "close_behaviour option"
  | TriggerReturnsNothing
  | TriggerThrows js_error

record trigger_outcome =
  to_crons :: "string list"
  to_result :: trigger_result

record activation_env =
  ve_trigger :: "nat \<Rightarrow> INode \<Rightarrow> trigger_outcome"
  ve_pollTimes :: "nat \<Rightarrow> INode \<Rightarrow> TriggerTime list res"
  ve_poll :: "nat \<Rightarrow> INode \<Rightarrow> json option res"
  ve_random :: "nat \<Rightarrow> nat"
  ve_cronError :: "string \<Rightarrow> js_error option"
  ve_message :: "js_error \<Rightarrow> string"

record cron_job =
  cj_id :: nat
  cj_workflow :: string
  cj_expression :: string

datatype activation_effect =
    EmitPolled string string json
  | EmitError string string js_error
  | CloseErrorReported string nat

text \<open>
  \<open>aw_cronJobs\<close> is the map of the \<open>ScheduledTaskManager\<close>, \<open>aw_running\<close> are the jobs that were started and
  not stopped, \<open>aw_open\<close> the triggers with a close function that were started and not closed.
\<close>

record ActiveWorkflows =
  aw_active :: "(string, ITriggerResponse list) js_map"
  aw_cronJobs :: "(string, cron_job list) js_map"
  aw_running :: "cron_job list"
  aw_open :: "nat list"
  aw_calls :: nat
  aw_effects :: "activation_effect list"

type_synonym 'a aw_eff = "(ActiveWorkflows, 'a) eff"

definition new_active_workflows :: ActiveWorkflows where
  "new_active_workflows = \<lparr>aw_active = [], aw_cronJobs = [], aw_running = [], aw_open = [], aw_calls = 0, aw_effects = []\<rparr>"

definition next_call :: "nat aw_eff" where
  "next_call = ebind (eget aw_calls) (\<lambda>n. eseq (emodify (\<lambda>s. s\<lparr>aw_calls := Suc n\<rparr>)) (ereturn n))"

definition aw_emit :: "activation_effect \<Rightarrow> unit aw_eff" where
  "aw_emit e = emodify (\<lambda>s. s\<lparr>aw_effects := aw_effects s @ [e]\<rparr>)"

section \<open>Cron jobs\<close>

text \<open>The constructor of a job throws on an expression it cannot read; otherwise the job runs at once.\<close>

definition add_job :: "string \<Rightarrow> cron_job \<Rightarrow> ActiveWorkflows \<Rightarrow> ActiveWorkflows" where
  "add_job workflowId cronJob s = s\<lparr>aw_running := aw_running s @ [cronJob],
     aw_cronJobs := (case map_of (aw_cronJobs s) workflowId of
        Some cronJobsForWorkflow \<Rightarrow> map_set workflowId (cronJobsForWorkflow @ [cronJob]) (aw_cronJobs s)
      | None \<Rightarrow> map_set workflowId [cronJob] (aw_cronJobs s))\<rparr>"

definition registerCron :: "activation_env \<Rightarrow> string \<Rightarrow> string \<Rightarrow> unit aw_eff" where
  "registerCron env workflowId cronExpression =
     (case ve_cronError env cronExpression of
        Some e \<Rightarrow> ethrow e
      | None \<Rightarrow> ebind next_call (\<lambda>n. emodify (add_job workflowId
                  \<lparr>cj_id = n, cj_workflow = workflowId, cj_expression = cronExpression\<rparr>)))"

definition stop_job :: "cron_job \<Rightarrow> ActiveWorkflows \<Rightarrow> ActiveWorkflows" where
  "stop_job cronJob s = s\<lparr>aw_running := filter (\<lambda>j. cj_id j \<noteq> cj_id cronJob) (aw_running s)\<rparr>"

text \<open>The jobs are popped off the array of the workflow, which stays in the map.\<close>

definition deregisterCrons :: "string \<Rightarrow> ActiveWorkflows \<Rightarrow> ActiveWorkflows" where
  "deregisterCrons workflowId s =
     (case map_of (aw_cronJobs s) workflowId of
        None \<Rightarrow> s
      | Some cronJobs \<Rightarrow>
          (foldl (\<lambda>t cronJob. stop_job cronJob t) s (rev cronJobs))
            \<lparr>aw_cronJobs := map_set workflowId [] (aw_cronJobs s)\<rparr>)"

text \<open>\<open>Object.keys\<close> of a \<open>Map\<close>: its entries are not properties.\<close>

definition object_keys_of_Map :: "('k, 'v) js_map \<Rightarrow> string list" where
  "object_keys_of_Map m = []"

definition deregisterAllCrons :: "ActiveWorkflows \<Rightarrow> ActiveWorkflows" where
  "deregisterAllCrons s = foldl (\<lambda>t workflowId. deregisterCrons workflowId t) s (object_keys_of_Map (aw_cronJobs s))"

section \<open>Triggers and polls\<close>

text \<open>The message of an error; the engine words those of its own errors (\<open>ve_message\<close>).\<close>

definition message_of :: "activation_env \<Rightarrow> js_error \<Rightarrow> string" where
  "message_of env e = (case e of ApplicationError message \<Rightarrow> message | _ \<Rightarrow> ve_message env e)"

text \<open>The type of a node, whose property is read: an unknown type throws.\<close>

definition node_type_of :: "Workflow \<Rightarrow> INode \<Rightarrow> INodeType res" where
  "node_type_of w node = (case wf_nodeTypes w (node_type node) (node_typeVersion node) of
     None \<Rightarrow> Inl TypeError | Some nodeType \<Rightarrow> Inr nodeType)"

definition start_trigger :: "activation_env \<Rightarrow> string \<Rightarrow> INode \<Rightarrow> ITriggerResponse option aw_eff" where
  "start_trigger env workflowId node =
     ebind next_call (\<lambda>n.
       let outcome = ve_trigger env n node in
       eseq (efor (to_crons outcome) (registerCron env workflowId))
         (case to_result outcome of
            TriggerThrows e \<Rightarrow> ethrow e
          | TriggerReturnsNothing \<Rightarrow> ereturn None
          | TriggerResponds close \<Rightarrow>
              eseq (ewhen (close \<noteq> None) (emodify (\<lambda>s. s\<lparr>aw_open := aw_open s @ [n]\<rparr>)))
                (ereturn (Some \<lparr>tr_id = n, tr_closeFunction = close\<rparr>))))"

text \<open>In manual mode a property of the response is set, which there must be.\<close>

definition runTrigger ::
  "activation_env \<Rightarrow> string \<Rightarrow> Workflow \<Rightarrow> INode \<Rightarrow> ExecutionMode \<Rightarrow> ITriggerResponse option aw_eff" where
  "runTrigger env workflowId w node mode =
     ebind (elift (node_type_of w node)) (\<lambda>nodeType.
       if \<not> nt_trigger nodeType then ethrow (ApplicationError ''Node type does not have a trigger function defined'')
       else ebind (start_trigger env workflowId node) (\<lambda>triggerResponse.
         if mode = Mode_manual \<and> triggerResponse = None then ethrow TypeError else ereturn triggerResponse))"

definition runPoll :: "activation_env \<Rightarrow> Workflow \<Rightarrow> INode \<Rightarrow> json option aw_eff" where
  "runPoll env w node =
     ebind (elift (node_type_of w node)) (\<lambda>nodeType.
       if \<not> nt_poll nodeType then ethrow (ApplicationError ''Node type does not have a poll function defined'')
       else ebind next_call (\<lambda>n. elift (ve_poll env n node)))"

section \<open>The class\<close>

definition isActive :: "ActiveWorkflows \<Rightarrow> string \<Rightarrow> bool" where
  "isActive s workflowId \<longleftrightarrow> map_of (aw_active s) workflowId \<noteq> None"

definition allActiveWorkflows :: "ActiveWorkflows \<Rightarrow> string list" where
  "allActiveWorkflows s = map_keys (aw_active s)"

definition activation_error :: "activation_env \<Rightarrow> js_error \<Rightarrow> js_error" where
  "activation_error env e = ApplicationError
     (''There was a problem activating the workflow: '' @ [CHR 0x22] @ message_of env e @ [CHR 0x22])"

definition run_triggers ::
  "activation_env \<Rightarrow> string \<Rightarrow> Workflow \<Rightarrow> ExecutionMode \<Rightarrow> ITriggerResponse list aw_eff" where
  "run_triggers env workflowId w mode =
     ecollect (getTriggerNodes w) (\<lambda>triggerNode.
       ecatch (ebind (runTrigger env workflowId w triggerNode mode) (\<lambda>triggerResponse.
           ereturn (case triggerResponse of None \<Rightarrow> [] | Some r \<Rightarrow> [r])))
         (\<lambda>e. ethrow (activation_error env e)))"

text \<open>\<open>executeTrigger\<close>: the first poll tests whether the trigger works, later ones report an error.\<close>

definition executeTrigger ::
  "activation_env \<Rightarrow> string \<Rightarrow> Workflow \<Rightarrow> INode \<Rightarrow> bool \<Rightarrow> unit aw_eff" where
  "executeTrigger env workflowId w node testingTrigger =
     ecatch (ebind (runPoll env w node) (\<lambda>pollResponse. case pollResponse of
         None \<Rightarrow> ereturn () | Some response \<Rightarrow> aw_emit (EmitPolled workflowId (node_name node) response)))
       (\<lambda>e. if testingTrigger then ethrow e else aw_emit (EmitError workflowId (node_name node) e))"

definition cron_time :: "activation_env \<Rightarrow> TriggerTime \<Rightarrow> string list aw_eff" where
  "cron_time env item = ebind next_call (\<lambda>n. ebind next_call (\<lambda>m.
     ereturn [toCronExpression (ve_random env n mod 60) (ve_random env m mod 60) item]))"

definition activatePolling :: "activation_env \<Rightarrow> string \<Rightarrow> Workflow \<Rightarrow> INode \<Rightarrow> unit aw_eff" where
  "activatePolling env workflowId w node =
     ebind next_call (\<lambda>n.
     ebind (elift (ve_pollTimes env n node)) (\<lambda>pollTimes.
     ebind (ecollect pollTimes (cron_time env)) (\<lambda>cronTimes.
     eseq (executeTrigger env workflowId w node True)
       (efor cronTimes (\<lambda>cronTime.
          if too_short cronTime then
            ethrow (ApplicationError ''The polling interval is too short. It has to be at least a minute.'')
          else registerCron env workflowId cronTime)))))"

text \<open>A cron job of a poll fires; only the leader polls.\<close>

definition poll_tick :: "activation_env \<Rightarrow> bool \<Rightarrow> string \<Rightarrow> Workflow \<Rightarrow> INode \<Rightarrow> unit aw_eff" where
  "poll_tick env isLeader workflowId w node = ewhen isLeader (executeTrigger env workflowId w node False)"

definition aw_add :: "activation_env \<Rightarrow> string \<Rightarrow> Workflow \<Rightarrow> ExecutionMode \<Rightarrow> unit aw_eff" where
  "aw_add env workflowId w mode =
     ebind (run_triggers env workflowId w mode) (\<lambda>triggerResponses.
     eseq (emodify (\<lambda>s. s\<lparr>aw_active := map_set workflowId triggerResponses (aw_active s)\<rparr>))
       (efor (getPollNodes w) (\<lambda>pollNode.
          ecatch (activatePolling env workflowId w pollNode) (\<lambda>e.
            eseq (ewhen (triggerResponses = [])
                   (emodify (\<lambda>s. s\<lparr>aw_active := map_delete workflowId (aw_active s)\<rparr>)))
              (ethrow (activation_error env e))))))"

definition closeTrigger :: "string \<Rightarrow> ITriggerResponse \<Rightarrow> unit aw_eff" where
  "closeTrigger workflowId response =
     (case tr_closeFunction response of
        None \<Rightarrow> ereturn ()
      | Some Closes \<Rightarrow> emodify (\<lambda>s. s\<lparr>aw_open := filter (\<lambda>i. i \<noteq> tr_id response) (aw_open s)\<rparr>)
      | Some ThrowsTriggerCloseError \<Rightarrow> aw_emit (CloseErrorReported workflowId (tr_id response))
      | Some (ThrowsOnClose message) \<Rightarrow> ethrow (ApplicationError
          (''Failed to deactivate trigger of workflow ID '' @ [CHR 0x22] @ workflowId @ [CHR 0x22] @ '': '' @
           [CHR 0x22] @ message @ [CHR 0x22])))"

definition aw_remove :: "string \<Rightarrow> bool aw_eff" where
  "aw_remove workflowId =
     ebind (eget (\<lambda>s. map_of (aw_active s) workflowId)) (\<lambda>w. case w of
       None \<Rightarrow> ereturn False
     | Some triggerResponses \<Rightarrow>
         eseq (emodify (deregisterCrons workflowId))
           (eseq (efor triggerResponses (closeTrigger workflowId))
             (eseq (emodify (\<lambda>s. s\<lparr>aw_active := map_delete workflowId (aw_active s)\<rparr>)) (ereturn True))))"

definition removeAllTriggerAndPollerBasedWorkflows :: "unit aw_eff" where
  "removeAllTriggerAndPollerBasedWorkflows =
     ebind (eget allActiveWorkflows) (\<lambda>ids. efor ids (\<lambda>workflowId. ebind (aw_remove workflowId) (\<lambda>_. ereturn ())))"

end
