(* ===== verification/Webhooks.thy ===== *)
theory Webhooks
  imports WorkflowTypes
begin

text \<open>
  Production webhooks: the stored webhook (\<open>webhook-entity.ts\<close>), the service that finds, stores
  and deletes them over a database table and a cache (\<open>webhook.service.ts\<close>), the path a node's
  webhook gets (\<open>NodeHelpers.ts\<close>), the request parameters of a dynamic path
  (\<open>live-webhooks.ts\<close>), and the keys of test webhooks (\<open>test-webhook-registrations.service.ts\<close>).

  The table is the list of its rows, with the query semantics of the repository calls the service
  makes; the cache is a map without expiry (an expired entry is one that \<open>cache_delete\<close> removed).
\<close>

section \<open>Strings\<close>

text \<open>\<open>toLowerCase\<close> and \<open>encodeURIComponent\<close> on the first 256 code points.\<close>

definition char_lower :: "char \<Rightarrow> char" where
  "char_lower c =
     (let n = (of_char c :: nat)
      in if (65 \<le> n \<and> n \<le> 90) \<or> (192 \<le> n \<and> n \<le> 222 \<and> n \<noteq> 215) then char_of (n + 32) else c)"

definition hex_digit :: "nat \<Rightarrow> char" where
  "hex_digit d = char_of (if d < 10 then 48 + d else 55 + d)"

definition percent_byte :: "nat \<Rightarrow> string" where
  "percent_byte b = [CHR ''%'', hex_digit (b div 16), hex_digit (b mod 16)]"

definition uri_unreserved :: "char \<Rightarrow> bool" where
  "uri_unreserved c =
     (let n = (of_char c :: nat)
      in (65 \<le> n \<and> n \<le> 90) \<or> (97 \<le> n \<and> n \<le> 122) \<or> (48 \<le> n \<and> n \<le> 57) \<or>
         c \<in> {CHR ''-'', CHR ''_'', CHR ''.'', CHR ''!'', CHR ''~'', CHR ''*'', CHR 0x27,
              CHR ''('', CHR '')''})"

definition encodeURIComponent :: "string \<Rightarrow> string" where
  "encodeURIComponent s =
     concat (map (\<lambda>c.
       let n = (of_char c :: nat)
       in if uri_unreserved c then [c]
          else if n < 128 then percent_byte n
          else percent_byte (192 + n div 64) @ percent_byte (128 + n mod 64)) s)"

section \<open>The stored webhook\<close>

record WebhookEntity =
  we_workflowId :: string
  we_webhookPath :: string
  we_method :: string
  we_node :: string
  we_webhookId :: "string option"
  we_pathLength :: "nat option"

definition uniquePath :: "WebhookEntity \<Rightarrow> string" where
  "uniquePath w =
     (if CHR '':'' \<in> set (we_webhookPath w)
      then js_join ''/'' [case we_webhookId w of None \<Rightarrow> [] | Some i \<Rightarrow> i, we_webhookPath w]
      else we_webhookPath w)"

definition webhook_key :: "string \<Rightarrow> string \<Rightarrow> string" where
  "webhook_key method path = ''webhook:'' @ method @ ''-'' @ path"

definition cacheKey :: "WebhookEntity \<Rightarrow> string" where
  "cacheKey w = webhook_key (we_method w) (uniquePath w)"

definition staticSegments :: "WebhookEntity \<Rightarrow> string list" where
  "staticSegments w = filter (\<lambda>s. \<not> starts_with s '':'') (js_split CHR ''/'' (we_webhookPath w))"

definition isDynamic :: "WebhookEntity \<Rightarrow> bool" where
  "isDynamic w = (\<exists>s \<in> set (js_split CHR ''/'' (we_webhookPath w)). starts_with s '':'')"

section \<open>The service\<close>

record WebhookService =
  ws_rows :: "WebhookEntity list"
  ws_cache :: "(string, WebhookEntity) js_map"

definition same_webhook :: "WebhookEntity \<Rightarrow> WebhookEntity \<Rightarrow> bool" where
  "same_webhook v w = (we_method v = we_method w \<and> we_webhookPath v = we_webhookPath w)"

definition cache_set :: "string \<Rightarrow> WebhookEntity option \<Rightarrow> WebhookService \<Rightarrow> WebhookService" where
  "cache_set key value s =
     (case value of
        None \<Rightarrow> s
      | Some w \<Rightarrow> if key = [] then s else s\<lparr>ws_cache := map_set key w (ws_cache s)\<rparr>)"

definition cache_delete :: "string \<Rightarrow> WebhookService \<Rightarrow> WebhookService" where
  "cache_delete key s = s\<lparr>ws_cache := map_delete key (ws_cache s)\<rparr>"

definition populateCache :: "WebhookService \<Rightarrow> WebhookService" where
  "populateCache s = foldl (\<lambda>t w. cache_set (cacheKey w) (Some w) t) s (ws_rows s)"

definition findStaticWebhook :: "WebhookService \<Rightarrow> string \<Rightarrow> string \<Rightarrow> WebhookEntity option" where
  "findStaticWebhook s method path =
     find (\<lambda>w. we_webhookPath w = path \<and> we_method w = method) (ws_rows s)"

text \<open>The \<open>reduce\<close> over the candidates: the accumulator is the best webhook and its matches.\<close>

definition better_match ::
  "string set \<Rightarrow> WebhookEntity option \<times> nat \<Rightarrow> WebhookEntity \<Rightarrow> WebhookEntity option \<times> nat" where
  "better_match requestSegments acc dw =
     (case acc of (webhook, maxMatches) \<Rightarrow>
       let allStaticSegmentsMatch = (\<forall>s \<in> set (staticSegments dw). s \<in> requestSegments)
       in if allStaticSegmentsMatch \<and> length (staticSegments dw) > maxMatches
          then (Some dw, length (staticSegments dw))
          else if length (staticSegments dw) = 0 \<and> webhook = None then (Some dw, maxMatches)
          else (webhook, maxMatches))"

definition dynamic_candidates :: "WebhookService \<Rightarrow> string \<Rightarrow> string \<Rightarrow> WebhookEntity list" where
  "dynamic_candidates s method path =
     (let segments = js_split CHR ''/'' path
      in filter (\<lambda>w. we_webhookId w = Some (hd segments) \<and> we_method w = method \<and>
                    we_pathLength w = Some (length (tl segments))) (ws_rows s))"

definition findDynamicWebhook :: "WebhookService \<Rightarrow> string \<Rightarrow> string \<Rightarrow> WebhookEntity option" where
  "findDynamicWebhook s method path =
     (let otherSegments = tl (js_split CHR ''/'' path);
          dynamicWebhooks = dynamic_candidates s method path
      in if dynamicWebhooks = [] then None
         else fst (foldl (better_match (set otherSegments)) (None, 0) dynamicWebhooks))"

definition findWebhook ::
  "WebhookService \<Rightarrow> string \<Rightarrow> string \<Rightarrow> WebhookEntity option \<times> WebhookService" where
  "findWebhook s method path =
     (let key = webhook_key method path
      in case map_of (ws_cache s) key of
        Some cachedWebhook \<Rightarrow> (Some cachedWebhook, s)
      | None \<Rightarrow>
          let dbWebhook =
                (case findStaticWebhook s method path of
                   None \<Rightarrow> findDynamicWebhook s method path
                 | Some w \<Rightarrow> Some w)
          in (dbWebhook, cache_set key dbWebhook s))"

definition storeWebhook :: "WebhookService \<Rightarrow> WebhookEntity \<Rightarrow> WebhookService" where
  "storeWebhook s w =
     (let s1 = cache_set (cacheKey w) (Some w) s
      in s1\<lparr>ws_rows :=
             (if \<exists>v \<in> set (ws_rows s1). same_webhook v w
              then map (\<lambda>v. if same_webhook v w then w else v) (ws_rows s1)
              else ws_rows s1 @ [w])\<rparr>)"

definition deleteWebhooks :: "WebhookService \<Rightarrow> WebhookEntity list \<Rightarrow> WebhookService" where
  "deleteWebhooks s webhooks =
     (let s1 = foldl (\<lambda>t w. cache_delete (cacheKey w) t) s webhooks
      in s1\<lparr>ws_rows := filter (\<lambda>v. \<not> (\<exists>w \<in> set webhooks. same_webhook v w)) (ws_rows s1)\<rparr>)"

definition deleteWorkflowWebhooks :: "WebhookService \<Rightarrow> string \<Rightarrow> WebhookService" where
  "deleteWorkflowWebhooks s workflowId =
     deleteWebhooks s (filter (\<lambda>w. we_workflowId w = workflowId) (ws_rows s))"

definition getWebhookMethods :: "WebhookService \<Rightarrow> string \<Rightarrow> string list" where
  "getWebhookMethods s path = map we_method (filter (\<lambda>w. we_webhookPath w = path) (ws_rows s))"

section \<open>The webhooks of a node\<close>

definition getNodeWebhookPath ::
  "string \<Rightarrow> INode \<Rightarrow> string \<Rightarrow> bool \<Rightarrow> bool \<Rightarrow> string" where
  "getNodeWebhookPath workflowId node path isFullPath restartWebhook =
     (if restartWebhook then path
      else case node_webhookId node of
        None \<Rightarrow> workflowId @ ''/'' @ encodeURIComponent (map char_lower (node_name node)) @ ''/'' @ path
      | Some webhookId \<Rightarrow> if isFullPath then path else webhookId @ ''/'' @ path)"

text \<open>A webhook description of a node type, its expressions evaluated for the node.\<close>

record WebhookDescription =
  wd_path :: "string option"
  wd_isFullPath :: bool
  wd_restartWebhook :: bool
  wd_httpMethod :: "string option"

record IWebhookData =
  wh_httpMethod :: string
  wh_node :: string
  wh_path :: string
  wh_description :: WebhookDescription
  wh_workflowId :: string
  wh_webhookId :: "string option"

definition trim_slashes :: "string \<Rightarrow> string" where
  "trim_slashes path =
     (let p = (if starts_with path ''/'' then tl path else path)
      in if p \<noteq> [] \<and> last p = CHR ''/'' then butlast p else p)"

definition is_dynamic_path :: "string \<Rightarrow> bool" where
  "is_dynamic_path path = (starts_with path '':'' \<or> str_includes path ''/:'')"

definition description_webhooks ::
  "string \<Rightarrow> INode \<Rightarrow> bool \<Rightarrow> WebhookDescription \<Rightarrow> IWebhookData list" where
  "description_webhooks workflowId node ignoreRestartWebhooks d =
     (if ignoreRestartWebhooks \<and> wd_restartWebhook d then []
      else case (wd_path d, wd_httpMethod d) of
        (Some nodeWebhookPath, Some webhookMethods) \<Rightarrow>
          let path = getNodeWebhookPath workflowId node (trim_slashes nodeWebhookPath)
                       (wd_isFullPath d) (wd_restartWebhook d);
              webhookId = (if is_dynamic_path path \<and> node_webhookId node \<noteq> Some []
                           then node_webhookId node else None)
          in map (\<lambda>httpMethod.
                    \<lparr>wh_httpMethod = js_trim httpMethod, wh_node = node_name node, wh_path = path,
                     wh_description = d, wh_workflowId = workflowId, wh_webhookId = webhookId\<rparr>)
               (filter (\<lambda>httpMethod. httpMethod \<noteq> []) (js_split CHR '','' webhookMethods))
      | _ \<Rightarrow> [])"

definition getNodeWebhooks ::
  "(INode \<Rightarrow> WebhookDescription list option) \<Rightarrow> string \<Rightarrow> INode \<Rightarrow> bool \<Rightarrow> IWebhookData list" where
  "getNodeWebhooks descriptions wid node ignoreRestartWebhooks =
     (if is_disabled node then []
      else case descriptions node of
        None \<Rightarrow> []
      | Some ds \<Rightarrow>
          let workflowId = (if wid = [] then ''__UNSAVED__'' else wid)
          in concat (map (description_webhooks workflowId node ignoreRestartWebhooks) ds))"

section \<open>Requests\<close>

definition live_findWebhook ::
  "WebhookService \<Rightarrow> string \<Rightarrow> string \<Rightarrow> WebhookEntity option \<times> WebhookService" where
  "live_findWebhook s path httpMethod =
     findWebhook s httpMethod (if path \<noteq> [] \<and> last path = CHR ''/'' then butlast path else path)"

definition request_params :: "WebhookEntity \<Rightarrow> string \<Rightarrow> (string, string option) js_map" where
  "request_params webhook path =
     (if isDynamic webhook then
        let pathElements = tl (js_split CHR ''/'' path)
        in foldl (\<lambda>params (index, ele).
             if starts_with ele '':'' then
               map_set (tl ele)
                 (if index < length pathElements then Some (pathElements ! index) else None) params
             else params)
           [] (enumerate 0 (js_split CHR ''/'' (we_webhookPath webhook)))
      else [])"

section \<open>Test webhooks\<close>

definition toKey :: "string option \<Rightarrow> string \<Rightarrow> string \<Rightarrow> string" where
  "toKey webhookId httpMethod webhookPath =
     (case webhookId of
        None \<Rightarrow> js_join ''|'' [httpMethod, webhookPath]
      | Some i \<Rightarrow>
          if i = [] then js_join ''|'' [httpMethod, webhookPath]
          else
            let path = (if starts_with webhookPath i
                        then (if CHR ''/'' \<in> set webhookPath
                              then tl (dropWhile (\<lambda>c. c \<noteq> CHR ''/'') webhookPath)
                              else webhookPath)
                        else webhookPath)
            in js_join ''|'' [httpMethod, i, nat_str (length (js_split CHR ''/'' path))])"

text \<open>The registrations, kept as a hash in the cache.\<close>

definition register_test ::
  "string option \<Rightarrow> string \<Rightarrow> string \<Rightarrow> 'r \<Rightarrow> (string, 'r) js_map \<Rightarrow> (string, 'r) js_map" where
  "register_test webhookId httpMethod path registration hash =
     map_set (toKey webhookId httpMethod path) registration hash"

definition deregister_test ::
  "string option \<Rightarrow> string \<Rightarrow> string \<Rightarrow> (string, 'r) js_map \<Rightarrow> (string, 'r) js_map" where
  "deregister_test webhookId httpMethod path hash = map_delete (toKey webhookId httpMethod path) hash"

definition get_test :: "string \<Rightarrow> (string, 'r) js_map \<Rightarrow> 'r option" where
  "get_test key hash = map_of hash key"


section \<open>Dynamic paths: the match\<close>

definition matches :: "string set \<Rightarrow> WebhookEntity \<Rightarrow> bool" where
  "matches segments w = (set (staticSegments w) \<subseteq> segments)"

definition best_so_far :: "string set \<Rightarrow> WebhookEntity list \<Rightarrow> WebhookEntity option \<times> nat \<Rightarrow> bool" where
  "best_so_far segments ws acc =
     (case fst acc of
        None \<Rightarrow> snd acc = 0 \<and> list_all (\<lambda>v. \<not> matches segments v) ws
      | Some w \<Rightarrow> w \<in> set ws \<and> matches segments w \<and> snd acc = length (staticSegments w) \<and>
          list_all (\<lambda>v. length (staticSegments v) \<le> length (staticSegments w)) (filter (matches segments) ws))"

lemma better_match_best:
  "best_so_far segments ws acc \<Longrightarrow> best_so_far segments (ws @ [w]) (better_match segments acc w)"
  by (cases acc; cases "fst acc")
    (auto simp: best_so_far_def better_match_def matches_def Let_def list_all_iff subset_iff
      split: option.splits)

lemma best_match: "best_so_far segments ws (foldl (better_match segments) (None, 0) ws)"
  by (induction ws rule: rev_induct) (simp_all add: better_match_best, simp add: best_so_far_def)

text \<open>C40: for a path without static match, the service picks among the webhooks of the id, method
  and length one all of whose static segments occur in the path, with the most static segments; it
  finds none exactly when no candidate qualifies.\<close>

theorem findDynamicWebhook_best:
  "case findDynamicWebhook s method path of
     None \<Rightarrow> list_all (\<lambda>v. \<not> matches (set (tl (js_split CHR ''/'' path))) v) (dynamic_candidates s method path)
   | Some w \<Rightarrow> w \<in> set (dynamic_candidates s method path) \<and>
       matches (set (tl (js_split CHR ''/'' path))) w \<and>
       list_all (\<lambda>v. length (staticSegments v) \<le> length (staticSegments w))
         (filter (matches (set (tl (js_split CHR ''/'' path)))) (dynamic_candidates s method path))"
  using best_match [of "set (tl (js_split CHR ''/'' path))" "dynamic_candidates s method path"]
  by (auto simp: findDynamicWebhook_def Let_def best_so_far_def split: option.splits)

definition empty_service :: WebhookService where
  "empty_service = \<lparr>ws_rows = [], ws_cache = []\<rparr>"

definition sample_webhook :: WebhookEntity where
  "sample_webhook = \<lparr>we_workflowId = ''1'', we_webhookPath = ''user/:id/posts'', we_method = ''GET'',
     we_node = ''Webhook'', we_webhookId = Some ''uuid'', we_pathLength = Some 3\<rparr>"

text \<open>The match looks at the set of segments, not at their places: a request for
  \<open>posts/7/user\<close> is answered by the webhook \<open>user/:id/posts\<close>.\<close>

theorem findDynamicWebhook_ignores_order:
  "fst (findWebhook (storeWebhook empty_service sample_webhook) ''GET'' ''uuid/posts/7/user'') =
     Some sample_webhook"
  by code_simp

section \<open>The cache\<close>

text \<open>
  The service as a machine. Tables whose webhooks are all static keep the cache coherent: each
  entry is a row of the table, under the row's own key.
\<close>

datatype webhook_event =
    StoreWebhook WebhookEntity
  | FindWebhook string string
  | DeleteWorkflow string

definition webhook_step :: "WebhookService \<Rightarrow> webhook_event \<Rightarrow> WebhookService" where
  "webhook_step s e =
     (case e of
        StoreWebhook w \<Rightarrow> storeWebhook s w
      | FindWebhook method path \<Rightarrow> snd (findWebhook s method path)
      | DeleteWorkflow workflowId \<Rightarrow> deleteWorkflowWebhooks s workflowId)"

definition static_webhook :: "WebhookEntity \<Rightarrow> bool" where
  "static_webhook w = (CHR '':'' \<notin> set (we_webhookPath w) \<and> we_webhookId w = None)"

definition coherent :: "WebhookService \<Rightarrow> bool" where
  "coherent s \<longleftrightarrow> distinct (map_keys (ws_cache s)) \<and>
     (\<forall>w \<in> set (ws_rows s). static_webhook w) \<and>
     (\<forall>(key, w) \<in> set (ws_cache s). key = cacheKey w \<and> w \<in> set (ws_rows s))"

lemma same_webhook_key:
  "static_webhook v \<Longrightarrow> static_webhook w \<Longrightarrow> same_webhook v w \<Longrightarrow> cacheKey v = cacheKey w"
  by (simp add: same_webhook_def cacheKey_def uniquePath_def static_webhook_def)

lemma same_webhook_refl [simp]: "same_webhook w w"
  by (simp add: same_webhook_def)

lemma coherent_store:
  assumes c: "coherent s" and w: "static_webhook w"
  shows "coherent (storeWebhook s w)"
proof -
  have key: "cacheKey w \<noteq> []" by (simp add: cacheKey_def webhook_key_def)
  have cache: "set (ws_cache (storeWebhook s w)) =
      insert (cacheKey w, w) {e \<in> set (ws_cache s). fst e \<noteq> cacheKey w}"
    using c key by (simp add: storeWebhook_def cache_set_def coherent_def set_map_set Let_def)
  have rows: "set (ws_rows (storeWebhook s w)) = insert w {v \<in> set (ws_rows s). \<not> same_webhook v w}"
    using key by (auto simp: storeWebhook_def cache_set_def Let_def)
  have "distinct (map_keys (ws_cache (storeWebhook s w)))"
    using c key by (simp add: storeWebhook_def cache_set_def coherent_def Let_def distinct_map_set)
  moreover have "v \<in> set (ws_rows (storeWebhook s w))"
    if "(key, v) \<in> set (ws_cache s)" "key \<noteq> cacheKey w" for key v
  proof -
    have v: "key = cacheKey v" "v \<in> set (ws_rows s)" "static_webhook v"
      using c that(1) by (auto simp: coherent_def)
    then have "\<not> same_webhook v w" using that(2) same_webhook_key [OF v(3) w] by auto
    with v(2) show ?thesis by (simp add: rows)
  qed
  ultimately show ?thesis using c w unfolding coherent_def cache rows by auto
qed

lemma coherent_find:
  assumes c: "coherent s"
  shows "coherent (snd (findWebhook s method path))"
proof (cases "map_of (ws_cache s) (webhook_key method path)")
  case (Some v)
  with c show ?thesis by (simp add: findWebhook_def)
next
  case None
  have "dynamic_candidates s method path = []"
    using c by (auto simp: dynamic_candidates_def Let_def coherent_def static_webhook_def filter_empty_conv)
  then have dyn: "findDynamicWebhook s method path = None" by (simp add: findDynamicWebhook_def)
  show ?thesis
  proof (cases "findStaticWebhook s method path")
    case (Some w)
    then have w: "w \<in> set (ws_rows s)" "we_webhookPath w = path" "we_method w = method"
      by (auto simp: findStaticWebhook_def find_Some_iff)
    then have "cacheKey w = webhook_key method path"
      using c by (auto simp: coherent_def static_webhook_def cacheKey_def uniquePath_def)
    then show ?thesis using None Some c w(1)
      by (auto simp: findWebhook_def Let_def cache_set_def coherent_def set_map_set webhook_key_def
          distinct_map_set)
  qed (use None dyn c in \<open>simp add: findWebhook_def cache_set_def\<close>)
qed

lemma delete_cache:
  "set (ws_cache (foldl (\<lambda>t w. cache_delete (cacheKey w) t) s ws)) =
     {e \<in> set (ws_cache s). fst e \<notin> cacheKey ` set ws}"
  "ws_rows (foldl (\<lambda>t w. cache_delete (cacheKey w) t) s ws) = ws_rows s"
  "distinct (map_keys (ws_cache s)) \<Longrightarrow>
   distinct (map_keys (ws_cache (foldl (\<lambda>t w. cache_delete (cacheKey w) t) s ws)))"
  by (induction ws arbitrary: s) (auto simp: cache_delete_def distinct_map_delete)

lemma coherent_delete:
  assumes c: "coherent s"
  shows "coherent (deleteWorkflowWebhooks s workflowId)"
proof -
  let ?ws = "filter (\<lambda>w. we_workflowId w = workflowId) (ws_rows s)"
  have "\<not> same_webhook v w"
    if "(key, v) \<in> set (ws_cache s)" "key \<notin> cacheKey ` set ?ws" "w \<in> set ?ws" for key v w
  proof
    assume "same_webhook v w"
    moreover have "static_webhook v" "static_webhook w" "key = cacheKey v"
      using c that by (auto simp: coherent_def)
    ultimately show False using that(2,3) same_webhook_key [of v w] by auto
  qed
  then show ?thesis using c
    by (auto simp: coherent_def deleteWorkflowWebhooks_def deleteWebhooks_def Let_def delete_cache)
qed

definition static_step :: "WebhookService \<Rightarrow> webhook_event \<Rightarrow> WebhookService" where
  "static_step s e =
     (case e of StoreWebhook w \<Rightarrow> if static_webhook w then webhook_step s e else s | _ \<Rightarrow> webhook_step s e)"

interpretation webhook_machine: invariant_machine static_step coherent
  by unfold_locales (auto simp: static_step_def webhook_step_def coherent_store coherent_find
      coherent_delete split: webhook_event.splits)

lemma found_in_rows:
  assumes "coherent s" "fst (findWebhook s method path) = Some w"
  shows "w \<in> set (ws_rows s)"
proof (cases "map_of (ws_cache s) (webhook_key method path)")
  case None
  have "dynamic_candidates s method path = []"
    using assms(1) by (auto simp: dynamic_candidates_def Let_def coherent_def static_webhook_def filter_empty_conv)
  then show ?thesis using assms(2) None
    by (auto simp: findWebhook_def Let_def findStaticWebhook_def findDynamicWebhook_def find_Some_iff
        split: option.splits)
qed (use assms in \<open>auto simp: findWebhook_def coherent_def dest!: map_of_SomeD\<close>)

text \<open>Whatever static webhooks were stored, looked up and deleted before, once the webhooks of a
  workflow are deleted no request is routed to that workflow.\<close>

theorem deleted_static_not_found:
  "case fst (findWebhook (deleteWorkflowWebhooks (foldl static_step empty_service events) workflowId)
      method path) of
     None \<Rightarrow> True
   | Some w \<Rightarrow> we_workflowId w \<noteq> workflowId"
proof -
  let ?s = "foldl static_step empty_service events"
  have "coherent empty_service" by (simp add: coherent_def empty_service_def)
  then have c: "coherent ?s" by (rule webhook_machine.run_inv)
  have "we_workflowId w \<noteq> workflowId"
    if "fst (findWebhook (deleteWorkflowWebhooks ?s workflowId) method path) = Some w" for w
    using found_in_rows [OF coherent_delete [OF c] that]
    by (auto simp: deleteWorkflowWebhooks_def deleteWebhooks_def Let_def delete_cache)
  then show ?thesis by (auto split: option.splits)
qed

text \<open>With a dynamic webhook this fails: the lookup of a concrete path left an entry under that
  path in the cache, which the deletion of the workflow's webhooks does not remove.\<close>

theorem deleted_dynamic_found:
  "fst (findWebhook (foldl webhook_step empty_service
     [StoreWebhook sample_webhook, FindWebhook ''GET'' ''uuid/user/7/posts'', DeleteWorkflow ''1''])
     ''GET'' ''uuid/user/7/posts'') = Some sample_webhook"
  by code_simp

end
