(* ===== verification/WorkflowActivation.thy ===== *)
theory WorkflowActivation
  imports ActiveWorkflows Webhooks
begin

text \<open>
  Activating and deactivating workflows (\<open>packages/cli/src/active-workflow-manager.ts\<close>): their webhooks
  are entered in the table of webhooks and created with the outside services, their triggers and polls
  are started in memory, errors are recorded, and a failed activation is tried again with a growing
  delay. Commands of other mains are in \<open>scaling/pubsub/pubsub-handler.ts\<close>.

  Calls of a database or an outside service get a number, as in \<open>ActiveWorkflows\<close>; of the database only
  storing a webhook may fail. Operations are taken one after the other, but a retry is two steps: its
  timer fires, and later it runs, so that other operations may come between. An activation is two steps,
  too: \<open>add\<close> reads whether the main is the leader before it first awaits the database, and acts on what
  it read afterwards, whatever happened in between. Static data, logging, the
  error workflow and messages to the editor are effects or left out; errors with a \<open>detail\<close> keep their
  message.
\<close>

section \<open>State\<close>

datatype WorkflowActivateMode =
    Activate_init | Activate_create | Activate_update | Activate_activate | Activate_manual | Activate_leadershipChange

definition WORKFLOW_REACTIVATE_INITIAL_TIMEOUT :: int where
  "WORKFLOW_REACTIVATE_INITIAL_TIMEOUT = 1000"

definition WORKFLOW_REACTIVATE_MAX_TIMEOUT :: int where
  "WORKFLOW_REACTIVATE_MAX_TIMEOUT = 24 * 60 * 60 * 1000"

definition STARTING_NODES :: "string list" where
  "STARTING_NODES = [''@n8n/n8n-nodes-langchain.manualChatTrigger'', ''n8n-nodes-base.start'',
     ''n8n-nodes-base.manualTrigger'']"

record WorkflowEntity =
  wfe_id :: string
  wfe_active :: bool
  wfe_workflow :: Workflow

record QueuedActivation =
  qa_activationMode :: WorkflowActivateMode
  qa_lastTimeout :: int
  qa_timeout :: nat
  qa_workflowData :: WorkflowEntity

record retry_timer =
  rt_id :: nat
  rt_delay :: int
  rt_activationMode :: WorkflowActivateMode
  rt_workflowData :: WorkflowEntity

datatype store_outcome = Stored | QueryFailedError | StoreThrows js_error

datatype webhook_method = CheckExists | CreateWebhook | DeleteWebhook

text \<open>\<open>me_method\<close> is \<open>None\<close> where the node type has no such method, or it returns nothing.\<close>

record manager_env =
  me_activation :: activation_env
  me_descriptions :: "INode \<Rightarrow> WebhookDescription list option"
  me_store :: "nat \<Rightarrow> WebhookEntity \<Rightarrow> store_outcome"
  me_method :: "nat \<Rightarrow> webhook_method \<Rightarrow> IWebhookData \<Rightarrow> bool option res"
  me_batchSize :: int

datatype manager_effect =
    PublishAdd string
  | PublishRemove string
  | PublishDisplay string
  | SaveStaticData string
  | UpdateTriggerCount string nat
  | ExecuteErrorWorkflow string js_error
  | ReportError js_error

text \<open>
  Who called \<open>add\<close> and handles its outcome: \<open>activateWorkflow\<close> at the start, a retry, the handler of the
  command of another main, or somebody outside. An activation that has begun keeps the two answers that
  \<open>add\<close> read before its first \<open>await\<close>.
\<close>

datatype add_caller =
    Outside
  | StartUp WorkflowEntity
  | Retry WorkflowActivateMode WorkflowEntity
  | Commanded string

record begun_activation =
  ba_id :: nat
  ba_caller :: add_caller
  ba_workflowId :: string
  ba_mode :: WorkflowActivateMode
  ba_existing :: "WorkflowEntity option"
  ba_webhooks :: bool
  ba_triggers :: bool

text \<open>
  \<open>am_inflight\<close> are the retries whose timer has fired and that have not run yet, \<open>am_begun\<close> the
  activations that wait for the database.
\<close>

record ActiveWorkflowManager =
  am_isLeader :: bool
  am_isMultiMain :: bool
  am_db :: "(string, WorkflowEntity) js_map"
  am_active :: ActiveWorkflows
  am_webhooks :: WebhookService
  am_queued :: "(string, QueuedActivation) js_map"
  am_timers :: "retry_timer list"
  am_inflight :: "retry_timer list"
  am_begun :: "begun_activation list"
  am_errors :: "(string, string) js_map"
  am_calls :: nat
  am_effects :: "manager_effect list"

type_synonym 'a am_eff = "(ActiveWorkflowManager, 'a) eff"

definition am_emit :: "manager_effect \<Rightarrow> unit am_eff" where
  "am_emit e = emodify (\<lambda>s. s\<lparr>am_effects := am_effects s @ [e]\<rparr>)"

definition am_next_call :: "nat am_eff" where
  "am_next_call = ebind (eget am_calls) (\<lambda>n. eseq (emodify (\<lambda>s. s\<lparr>am_calls := Suc n\<rparr>)) (ereturn n))"

definition on_active :: "'a aw_eff \<Rightarrow> 'a am_eff" where
  "on_active m = eon am_active (\<lambda>t s. s\<lparr>am_active := t\<rparr>) m"

definition on_webhooks :: "(WebhookService \<Rightarrow> WebhookService) \<Rightarrow> unit am_eff" where
  "on_webhooks f = emodify (\<lambda>s. s\<lparr>am_webhooks := f (am_webhooks s)\<rparr>)"

text \<open>The service of activation errors, a hash in the cache.\<close>

definition register_error :: "string \<Rightarrow> string \<Rightarrow> unit am_eff" where
  "register_error workflowId message = emodify (\<lambda>s. s\<lparr>am_errors := map_set workflowId message (am_errors s)\<rparr>)"

definition deregister_error :: "string \<Rightarrow> unit am_eff" where
  "deregister_error workflowId = emodify (\<lambda>s. s\<lparr>am_errors := map_delete workflowId (am_errors s)\<rparr>)"

definition clear_errors :: "unit am_eff" where
  "clear_errors = emodify (\<lambda>s. s\<lparr>am_errors := []\<rparr>)"

section \<open>Webhooks\<close>

definition getWorkflowWebhooks ::
  "manager_env \<Rightarrow> string \<Rightarrow> Workflow \<Rightarrow> string list option \<Rightarrow> bool \<Rightarrow> IWebhookData list" where
  "getWorkflowWebhooks env workflowId w parentNodes ignoreRestartWebhooks =
     concat (map (\<lambda>node. getNodeWebhooks (me_descriptions env) workflowId node ignoreRestartWebhooks)
       (filter (\<lambda>node. case parentNodes of None \<Rightarrow> True | Some names \<Rightarrow> node_name node \<in> set names)
         (map_values (wf_nodes w))))"

definition runWebhookMethod :: "manager_env \<Rightarrow> webhook_method \<Rightarrow> Workflow \<Rightarrow> IWebhookData \<Rightarrow> bool option am_eff" where
  "runWebhookMethod env method w webhookData =
     (case getNode w (wh_node webhookData) of
        None \<Rightarrow> ereturn None
      | Some node \<Rightarrow> ebind (elift (node_type_of w node)) (\<lambda>nodeType.
          ebind am_next_call (\<lambda>n. elift (me_method env n method webhookData))))"

definition createWebhookIfNotExists :: "manager_env \<Rightarrow> Workflow \<Rightarrow> IWebhookData \<Rightarrow> unit am_eff" where
  "createWebhookIfNotExists env w webhookData =
     ebind (runWebhookMethod env CheckExists w webhookData) (\<lambda>webhookExists.
       if webhookExists = Some True then ereturn ()
       else ebind (runWebhookMethod env CreateWebhook w webhookData) (\<lambda>_. ereturn ()))"

definition deleteWebhook :: "manager_env \<Rightarrow> Workflow \<Rightarrow> IWebhookData \<Rightarrow> unit am_eff" where
  "deleteWebhook env w webhookData = ebind (runWebhookMethod env DeleteWebhook w webhookData) (\<lambda>_. ereturn ())"

definition clearWebhooks :: "manager_env \<Rightarrow> string \<Rightarrow> unit am_eff" where
  "clearWebhooks env workflowId =
     ebind (eget (\<lambda>s. map_of (am_db s) workflowId)) (\<lambda>workflowData. case workflowData of
       None \<Rightarrow> ethrow (ApplicationError ''Could not find workflow'')
     | Some data \<Rightarrow>
         let w = wfe_workflow data; webhooks = getWorkflowWebhooks env workflowId w None True in
         eseq (efor webhooks (deleteWebhook env w))
           (eseq (am_emit (SaveStaticData workflowId))
             (on_webhooks (\<lambda>s. deleteWorkflowWebhooks s workflowId))))"

definition webhook_entity :: "INode \<Rightarrow> IWebhookData \<Rightarrow> WebhookEntity" where
  "webhook_entity node webhookData =
     (let path = wh_path webhookData;
          webhookPath = trim_slashes path;
          dynamic = is_dynamic_path path \<and> node_webhookId node \<noteq> None \<and> node_webhookId node \<noteq> Some []
      in \<lparr>we_workflowId = wh_workflowId webhookData, we_webhookPath = webhookPath, we_method = wh_httpMethod webhookData,
          we_node = wh_node webhookData, we_webhookId = (if dynamic then node_webhookId node else None),
          we_pathLength = (if dynamic then Some (length (js_split CHR ''/'' webhookPath)) else None)\<rparr>)"

text \<open>\<open>storeWebhook\<close> enters the webhook in the cache before the database may refuse it.\<close>

definition try_store :: "manager_env \<Rightarrow> WebhookEntity \<Rightarrow> store_outcome am_eff" where
  "try_store env webhook =
     ebind am_next_call (\<lambda>n. case me_store env n webhook of
       Stored \<Rightarrow> eseq (on_webhooks (\<lambda>s. storeWebhook s webhook)) (ereturn Stored)
     | outcome \<Rightarrow> eseq (on_webhooks (cache_set (cacheKey webhook) (Some webhook))) (ereturn outcome))"

definition path_taken :: "string \<Rightarrow> js_error" where
  "path_taken nodeName = ApplicationError (''The URL path that the '' @ [CHR 0x22] @ nodeName @ [CHR 0x22] @
     '' node uses is already taken. Please change it to something else.'')"

text \<open>After a failure the webhooks of the workflow are removed again.\<close>

definition webhook_failed :: "manager_env \<Rightarrow> string \<Rightarrow> js_error \<Rightarrow> unit am_eff" where
  "webhook_failed env workflowId e =
     eseq (ecatch (clearWebhooks env workflowId) (\<lambda>error1. am_emit (ReportError error1))) (ethrow e)"

definition add_webhook ::
  "manager_env \<Rightarrow> string \<Rightarrow> Workflow \<Rightarrow> WorkflowActivateMode \<Rightarrow> IWebhookData \<Rightarrow> unit am_eff" where
  "add_webhook env workflowId w activation webhookData =
     (case getNode w (wh_node webhookData) of
        None \<Rightarrow> ethrow TypeError
      | Some node \<Rightarrow>
          let webhook = webhook_entity node webhookData in
          ebind (try_store env webhook) (\<lambda>outcome. case outcome of
            Stored \<Rightarrow> ecatch (createWebhookIfNotExists env w webhookData) (webhook_failed env workflowId)
          | QueryFailedError \<Rightarrow>
              if activation = Activate_init then ereturn ()
              else webhook_failed env workflowId (path_taken (we_node webhook))
          | StoreThrows e \<Rightarrow> webhook_failed env workflowId e))"

definition addWebhooks :: "manager_env \<Rightarrow> string \<Rightarrow> Workflow \<Rightarrow> WorkflowActivateMode \<Rightarrow> unit am_eff" where
  "addWebhooks env workflowId w activation =
     (let webhooks = getWorkflowWebhooks env workflowId w None True in
      if webhooks = [] then ereturn ()
      else eseq (efor webhooks (add_webhook env workflowId w activation))
        (eseq (on_webhooks populateCache) (am_emit (SaveStaticData workflowId))))"

section \<open>Activation\<close>

definition shouldAddWebhooks :: "ActiveWorkflowManager \<Rightarrow> WorkflowActivateMode \<Rightarrow> bool" where
  "shouldAddWebhooks s activationMode =
     (if activationMode = Activate_init then True
      else if activationMode = Activate_leadershipChange then False
      else am_isLeader s)"

definition shouldAddTriggersAndPollers :: "ActiveWorkflowManager \<Rightarrow> bool" where
  "shouldAddTriggersAndPollers s = am_isLeader s"

definition checkIfWorkflowCanBeActivated :: "Workflow \<Rightarrow> string list option \<Rightarrow> bool" where
  "checkIfWorkflowCanBeActivated w ignoreNodeTypes =
     (\<exists>node \<in> set (map_values (wf_nodes w)). node_disabled node \<noteq> Some True \<and>
        (case ignoreNodeTypes of None \<Rightarrow> True | Some types \<Rightarrow> node_type node \<notin> set types) \<and>
        (case wf_nodeTypes w (node_type node) (node_typeVersion node) of
           None \<Rightarrow> False
         | Some nodeType \<Rightarrow> nt_poll nodeType \<or> nt_trigger nodeType \<or> nt_webhook nodeType))"

definition countTriggers :: "manager_env \<Rightarrow> string \<Rightarrow> Workflow \<Rightarrow> nat" where
  "countTriggers env workflowId w =
     length (queryNodes w (\<lambda>nodeType. nt_trigger nodeType \<and> \<not> str_includes (nt_name nodeType) ''manualTrigger'')) +
     length (getPollNodes w) + length (getWorkflowWebhooks env workflowId w None True)"

definition addTriggersAndPollers :: "manager_env \<Rightarrow> string \<Rightarrow> Workflow \<Rightarrow> unit am_eff" where
  "addTriggersAndPollers env workflowId w =
     ewhen (getTriggerNodes w \<noteq> [] \<or> getPollNodes w \<noteq> [])
       (on_active (aw_add (me_activation env) workflowId w Mode_trigger))"

definition find_timer :: "ActiveWorkflowManager \<Rightarrow> string \<Rightarrow> nat option" where
  "find_timer s workflowId = map_option qa_timeout (map_of (am_queued s) workflowId)"

definition removeQueuedWorkflowActivation :: "string \<Rightarrow> ActiveWorkflowManager \<Rightarrow> ActiveWorkflowManager" where
  "removeQueuedWorkflowActivation workflowId s =
     (case find_timer s workflowId of
        None \<Rightarrow> s
      | Some timer \<Rightarrow> s\<lparr>am_timers := filter (\<lambda>t. rt_id t \<noteq> timer) (am_timers s),
                         am_queued := map_delete workflowId (am_queued s)\<rparr>)"

definition no_start_message :: string where
  "no_start_message = ''Workflow has no node to start the workflow - at least one trigger, poller or webhook node is required''"

text \<open>The body of the \<open>try\<close> of \<open>add\<close>: \<open>False\<close> when it returns early.\<close>

definition add_body ::
  "manager_env \<Rightarrow> string \<Rightarrow> WorkflowActivateMode \<Rightarrow> WorkflowEntity option \<Rightarrow> bool \<Rightarrow> bool \<Rightarrow> bool am_eff" where
  "add_body env workflowId activationMode existingWorkflow webhooks triggers =
     ebind (eget (\<lambda>s. case existingWorkflow of Some data \<Rightarrow> Some data | None \<Rightarrow> map_of (am_db s) workflowId)) (\<lambda>dbWorkflow.
     case dbWorkflow of
       None \<Rightarrow> ethrow (ApplicationError (''Failed to find workflow with ID '' @ [CHR 0x22] @ workflowId @ [CHR 0x22]))
     | Some data \<Rightarrow>
         if activationMode \<in> {Activate_init, Activate_leadershipChange} \<and> \<not> wfe_active data then ereturn False
         else
           let w = wfe_workflow data in
           if \<not> checkIfWorkflowCanBeActivated w (Some STARTING_NODES) then ethrow (ApplicationError no_start_message)
           else
             eseq (ewhen webhooks (addWebhooks env (wfe_id data) w activationMode))
               (eseq (ewhen triggers (addTriggersAndPollers env (wfe_id data) w))
                 (eseq (emodify (removeQueuedWorkflowActivation workflowId))
                   (eseq (deregister_error workflowId)
                     (eseq (am_emit (UpdateTriggerCount (wfe_id data) (countTriggers env (wfe_id data) w)))
                       (eseq (am_emit (SaveStaticData (wfe_id data))) (ereturn True)))))))"

text \<open>\<open>add\<close> after it has read \<open>shouldAddWebhooks\<close> and \<open>shouldAddTriggersAndPollers\<close>.\<close>

definition add_rest ::
  "manager_env \<Rightarrow> string \<Rightarrow> WorkflowActivateMode \<Rightarrow> WorkflowEntity option \<Rightarrow> bool \<Rightarrow> bool \<Rightarrow> bool option am_eff" where
  "add_rest env workflowId activationMode existingWorkflow webhooks triggers =
     (let shouldDisplayActivationMessage = (webhooks \<or> triggers) \<and> activationMode \<in> {Activate_init, Activate_leadershipChange} in
      ebind (ecatch (add_body env workflowId activationMode existingWorkflow webhooks triggers)
              (\<lambda>e. eseq (register_error workflowId (message_of (me_activation env) e)) (ethrow e))) (\<lambda>added.
        ereturn (Some (added \<and> shouldDisplayActivationMessage))))"

definition left_to_leader :: "bool \<Rightarrow> ActiveWorkflowManager \<Rightarrow> bool" where
  "left_to_leader shouldPublish s \<longleftrightarrow> am_isMultiMain s \<and> shouldPublish"

text \<open>\<open>add\<close> without interruption; \<open>None\<close> is the result when it was left to the leader.\<close>

definition am_add ::
  "manager_env \<Rightarrow> string \<Rightarrow> WorkflowActivateMode \<Rightarrow> WorkflowEntity option \<Rightarrow> bool \<Rightarrow> bool option am_eff" where
  "am_add env workflowId activationMode existingWorkflow shouldPublish =
     ebind (eget (left_to_leader shouldPublish)) (\<lambda>published.
       if published then eseq (am_emit (PublishAdd workflowId)) (ereturn None)
       else
         ebind (eget (\<lambda>s. (shouldAddWebhooks s activationMode, shouldAddTriggersAndPollers s))) (\<lambda>(webhooks, triggers).
           add_rest env workflowId activationMode existingWorkflow webhooks triggers))"

section \<open>Retries\<close>

definition set_timer :: "int \<Rightarrow> WorkflowActivateMode \<Rightarrow> WorkflowEntity \<Rightarrow> nat am_eff" where
  "set_timer delay activationMode data =
     ebind am_next_call (\<lambda>n. eseq
       (emodify (\<lambda>s. s\<lparr>am_timers := am_timers s @ [\<lparr>rt_id = n, rt_delay = delay, rt_activationMode = activationMode,
                        rt_workflowData = data\<rparr>]\<rparr>))
       (ereturn n))"

definition addQueuedWorkflowActivation :: "WorkflowActivateMode \<Rightarrow> WorkflowEntity \<Rightarrow> unit am_eff" where
  "addQueuedWorkflowActivation activationMode data =
     eseq (emodify (removeQueuedWorkflowActivation (wfe_id data)))
       (ebind (set_timer WORKFLOW_REACTIVATE_INITIAL_TIMEOUT activationMode data) (\<lambda>timer.
         emodify (\<lambda>s. s\<lparr>am_queued := map_set (wfe_id data)
           \<lparr>qa_activationMode = activationMode, qa_lastTimeout = WORKFLOW_REACTIVATE_INITIAL_TIMEOUT,
            qa_timeout = timer, qa_workflowData = data\<rparr> (am_queued s)\<rparr>)))"

definition next_timeout :: "int \<Rightarrow> int" where
  "next_timeout lastTimeout =
     (if lastTimeout < WORKFLOW_REACTIVATE_MAX_TIMEOUT then min (lastTimeout * 2) WORKFLOW_REACTIVATE_MAX_TIMEOUT
      else lastTimeout)"

definition timer_fires :: "nat \<Rightarrow> ActiveWorkflowManager \<Rightarrow> ActiveWorkflowManager" where
  "timer_fires timer s =
     s\<lparr>am_timers := filter (\<lambda>t. rt_id t \<noteq> timer) (am_timers s),
       am_inflight := am_inflight s @ filter (\<lambda>t. rt_id t = timer) (am_timers s)\<rparr>"

text \<open>The \<open>catch\<close> of the retry reads the entry of the queue, which may be gone.\<close>

definition retry_failed :: "WorkflowActivateMode \<Rightarrow> WorkflowEntity \<Rightarrow> js_error \<Rightarrow> unit am_eff" where
  "retry_failed activationMode data e =
     eseq (am_emit (ReportError e))
       (ebind (eget (\<lambda>s. map_of (am_queued s) (wfe_id data))) (\<lambda>entry. case entry of
          None \<Rightarrow> ethrow TypeError
        | Some q \<Rightarrow>
            let lastTimeout = next_timeout (qa_lastTimeout q) in
            ebind (set_timer lastTimeout activationMode data) (\<lambda>timer.
              emodify (\<lambda>s. s\<lparr>am_queued := map_set (wfe_id data)
                (q\<lparr>qa_lastTimeout := lastTimeout, qa_timeout := timer\<rparr>) (am_queued s)\<rparr>))))"

text \<open>The \<open>catch\<close> of \<open>activateWorkflow\<close>, and that of the handler of the command \<open>add\<close>.\<close>

definition start_up_failed :: "manager_env \<Rightarrow> WorkflowEntity \<Rightarrow> js_error \<Rightarrow> unit am_eff" where
  "start_up_failed env data e =
     eseq (am_emit (ReportError e)) (eseq (am_emit (ExecuteErrorWorkflow (wfe_id data) e))
       (ewhen (\<not> str_includes (message_of (me_activation env) e) ''Authorization'')
         (addQueuedWorkflowActivation Activate_init data)))"

definition command_failed :: "string \<Rightarrow> js_error \<Rightarrow> unit am_eff" where
  "command_failed workflowId e =
     eseq (emodify (\<lambda>s. s\<lparr>am_db := map (\<lambda>(i, data). if i = workflowId then (i, data\<lparr>wfe_active := False\<rparr>) else (i, data))
            (am_db s)\<rparr>))
       (am_emit (PublishDisplay workflowId))"

text \<open>A call of \<open>add\<close> with what its caller does afterwards.\<close>

fun for_caller :: "manager_env \<Rightarrow> add_caller \<Rightarrow> bool option am_eff \<Rightarrow> unit am_eff" where
  "for_caller env Outside m = ebind m (\<lambda>_. ereturn ())"
| "for_caller env (StartUp data) m = ecatch (ebind m (\<lambda>_. ereturn ())) (start_up_failed env data)"
| "for_caller env (Retry activationMode data) m = ecatch (ebind m (\<lambda>_. ereturn ())) (retry_failed activationMode data)"
| "for_caller env (Commanded workflowId) m =
     ecatch (ebind m (\<lambda>_. am_emit (PublishDisplay workflowId))) (command_failed workflowId)"

definition retryFunction :: "manager_env \<Rightarrow> retry_timer \<Rightarrow> unit am_eff" where
  "retryFunction env t =
     for_caller env (Retry (rt_activationMode t) (rt_workflowData t))
       (am_add env (wfe_id (rt_workflowData t)) (rt_activationMode t) (Some (rt_workflowData t)) True)"

definition run_retry :: "manager_env \<Rightarrow> nat \<Rightarrow> unit am_eff" where
  "run_retry env timer =
     ebind (eget (\<lambda>s. find (\<lambda>t. rt_id t = timer) (am_inflight s))) (\<lambda>found. case found of
       None \<Rightarrow> ereturn ()
     | Some t \<Rightarrow> eseq (emodify (\<lambda>s. s\<lparr>am_inflight := filter (\<lambda>u. rt_id u \<noteq> timer) (am_inflight s)\<rparr>))
         (retryFunction env t))"

definition removeAllQueuedWorkflowActivations :: "ActiveWorkflowManager \<Rightarrow> ActiveWorkflowManager" where
  "removeAllQueuedWorkflowActivations s =
     foldl (\<lambda>t workflowId. removeQueuedWorkflowActivation workflowId t) s (map_keys (am_queued s))"

text \<open>A started trigger reports an error (\<open>emitError\<close>): the workflow is removed and queued again.\<close>

definition trigger_emits_error :: "manager_env \<Rightarrow> WorkflowActivateMode \<Rightarrow> WorkflowEntity \<Rightarrow> js_error \<Rightarrow> unit am_eff" where
  "trigger_emits_error env activation data e =
     eseq (ecatch (ebind (on_active (aw_remove (wfe_id data))) (\<lambda>_. ereturn ())) (\<lambda>e. ereturn ()))
       (eseq (register_error (wfe_id data) (message_of (me_activation env) e))
         (eseq (am_emit (ExecuteErrorWorkflow (wfe_id data) e))
           (addQueuedWorkflowActivation activation data)))"

section \<open>Start\<close>

definition activateWorkflow :: "manager_env \<Rightarrow> WorkflowActivateMode \<Rightarrow> string \<Rightarrow> unit am_eff" where
  "activateWorkflow env activationMode workflowId =
     ebind (eget (\<lambda>s. map_of (am_db s) workflowId)) (\<lambda>dbWorkflow. case dbWorkflow of
       None \<Rightarrow> ereturn ()
     | Some data \<Rightarrow> for_caller env (StartUp data) (am_add env (wfe_id data) activationMode (Some data) False))"

text \<open>The ids come in chunks; a chunk size below 1 gives none.\<close>

definition addActiveWorkflows :: "manager_env \<Rightarrow> WorkflowActivateMode \<Rightarrow> unit am_eff" where
  "addActiveWorkflows env activationMode =
     ebind (eget (\<lambda>s. map_keys (filter (\<lambda>(i, data). wfe_active data) (am_db s)))) (\<lambda>dbWorkflowIds.
       efor (if me_batchSize env < 1 then [] else dbWorkflowIds) (activateWorkflow env activationMode))"

definition am_init :: "manager_env \<Rightarrow> unit am_eff" where
  "am_init env = addActiveWorkflows env Activate_init"

definition addAllTriggerAndPollerBasedWorkflows :: "manager_env \<Rightarrow> unit am_eff" where
  "addAllTriggerAndPollerBasedWorkflows env = addActiveWorkflows env Activate_leadershipChange"

section \<open>Deactivation\<close>

definition removeWorkflowTriggersAndPollers :: "string \<Rightarrow> unit am_eff" where
  "removeWorkflowTriggersAndPollers workflowId =
     ebind (eget (\<lambda>s. isActive (am_active s) workflowId)) (\<lambda>active.
       ewhen active (ebind (on_active (aw_remove workflowId)) (\<lambda>_. ereturn ())))"

definition clear_or_report :: "manager_env \<Rightarrow> string \<Rightarrow> unit am_eff" where
  "clear_or_report env workflowId = ecatch (clearWebhooks env workflowId) (\<lambda>e. am_emit (ReportError e))"

definition am_remove :: "manager_env \<Rightarrow> string \<Rightarrow> unit am_eff" where
  "am_remove env workflowId =
     ebind (eget am_isMultiMain) (\<lambda>isMultiMain.
       if isMultiMain then eseq (clear_or_report env workflowId) (am_emit (PublishRemove workflowId))
       else eseq (clear_or_report env workflowId)
         (eseq (deregister_error workflowId)
           (eseq (emodify (removeQueuedWorkflowActivation workflowId))
             (removeWorkflowTriggersAndPollers workflowId))))"

definition etry :: "('s, 'a) eff \<Rightarrow> ('s, js_error option) eff" where
  "etry m = ecatch (ebind m (\<lambda>_. ereturn None)) (\<lambda>e. ereturn (Some e))"

text \<open>\<open>Promise.all\<close> over removals: all run, then the first error is thrown.\<close>

fun remove_each :: "manager_env \<Rightarrow> string list \<Rightarrow> js_error list am_eff" where
  "remove_each env [] = ereturn []"
| "remove_each env (workflowId # ids) =
     ebind (etry (am_remove env workflowId)) (\<lambda>failure. ebind (remove_each env ids) (\<lambda>es.
       ereturn (case failure of None \<Rightarrow> es | Some e \<Rightarrow> e # es)))"

definition getAllActiveIdsInStorage :: "ActiveWorkflowManager \<Rightarrow> string list" where
  "getAllActiveIdsInStorage s =
     filter (\<lambda>i. map_of (am_errors s) i \<in> {None, Some []}) (map_keys (filter (\<lambda>(i, data). wfe_active data) (am_db s)))"

definition am_removeAll :: "manager_env \<Rightarrow> unit am_eff" where
  "am_removeAll env =
     ebind (eget (\<lambda>s. js_set_of (allActiveWorkflows (am_active s) @ getAllActiveIdsInStorage s))) (\<lambda>ids.
     ebind (remove_each env ids) (\<lambda>es. case es of [] \<Rightarrow> ereturn () | e # _ \<Rightarrow> ethrow e))"

section \<open>Commands\<close>

text \<open>What the leader does with the commands of \<open>add\<close> and \<open>remove\<close>; followers ignore them.\<close>

definition handle_add_command :: "manager_env \<Rightarrow> string \<Rightarrow> unit am_eff" where
  "handle_add_command env workflowId =
     ebind (eget am_isLeader) (\<lambda>isLeader. ewhen isLeader
       (for_caller env (Commanded workflowId) (am_add env workflowId Activate_activate None False)))"

definition handle_remove_command :: "string \<Rightarrow> unit am_eff" where
  "handle_remove_command workflowId =
     ebind (eget am_isLeader) (\<lambda>isLeader. ewhen isLeader
       (eseq (deregister_error workflowId)
         (eseq (removeWorkflowTriggersAndPollers workflowId) (am_emit (PublishDisplay workflowId)))))"

section \<open>Interrupted activations\<close>

text \<open>\<open>add\<close> up to its first \<open>await\<close>, with what it read, and the rest of it, for its caller.\<close>

definition add_begins ::
  "manager_env \<Rightarrow> add_caller \<Rightarrow> string \<Rightarrow> WorkflowActivateMode \<Rightarrow> WorkflowEntity option \<Rightarrow> bool \<Rightarrow> unit am_eff" where
  "add_begins env caller workflowId activationMode existingWorkflow shouldPublish =
     ebind (eget (left_to_leader shouldPublish)) (\<lambda>published.
       if published then for_caller env caller (eseq (am_emit (PublishAdd workflowId)) (ereturn None))
       else
         ebind am_next_call (\<lambda>n. emodify (\<lambda>s. s\<lparr>am_begun := am_begun s @ [\<lparr>ba_id = n, ba_caller = caller,
           ba_workflowId = workflowId, ba_mode = activationMode, ba_existing = existingWorkflow,
           ba_webhooks = shouldAddWebhooks s activationMode, ba_triggers = shouldAddTriggersAndPollers s\<rparr>]\<rparr>)))"

definition add_continues :: "manager_env \<Rightarrow> nat \<Rightarrow> unit am_eff" where
  "add_continues env n =
     ebind (eget (\<lambda>s. find (\<lambda>a. ba_id a = n) (am_begun s))) (\<lambda>found. case found of
       None \<Rightarrow> ereturn ()
     | Some a \<Rightarrow> eseq (emodify (\<lambda>s. s\<lparr>am_begun := filter (\<lambda>b. ba_id b \<noteq> n) (am_begun s)\<rparr>))
         (for_caller env (ba_caller a)
           (add_rest env (ba_workflowId a) (ba_mode a) (ba_existing a) (ba_webhooks a) (ba_triggers a))))"

section \<open>Events\<close>

datatype manager_event =
    AddCalled string WorkflowActivateMode "WorkflowEntity option" bool
  | AddBegins add_caller string WorkflowActivateMode "WorkflowEntity option" bool
  | AddContinues nat
  | RemoveCalled string
  | RemoveAllCalled
  | InitCalled
  | AddAllCalled
  | RemoveAllTriggersCalled
  | TimerFires nat
  | RetryRuns nat
  | TriggerError WorkflowActivateMode WorkflowEntity js_error
  | RemoveQueuedCalled
  | AddCommand string
  | RemoveCommand string
  | LeaderChanges bool

fun manager_step :: "manager_env \<Rightarrow> ActiveWorkflowManager \<Rightarrow> manager_event \<Rightarrow> ActiveWorkflowManager" where
  "manager_step env s (AddCalled i mode existing publish) = snd (am_add env i mode existing publish s)"
| "manager_step env s (AddBegins caller i mode existing publish) = snd (add_begins env caller i mode existing publish s)"
| "manager_step env s (AddContinues n) = snd (add_continues env n s)"
| "manager_step env s (RemoveCalled i) = snd (am_remove env i s)"
| "manager_step env s RemoveAllCalled = snd (am_removeAll env s)"
| "manager_step env s InitCalled = snd (am_init env s)"
| "manager_step env s AddAllCalled = snd (addAllTriggerAndPollerBasedWorkflows env s)"
| "manager_step env s RemoveAllTriggersCalled = snd (on_active removeAllTriggerAndPollerBasedWorkflows s)"
| "manager_step env s (TimerFires timer) = timer_fires timer s"
| "manager_step env s (RetryRuns timer) = snd (run_retry env timer s)"
| "manager_step env s (TriggerError mode data e) = snd (trigger_emits_error env mode data e s)"
| "manager_step env s RemoveQueuedCalled = removeAllQueuedWorkflowActivations s"
| "manager_step env s (AddCommand i) = snd (handle_add_command env i s)"
| "manager_step env s (RemoveCommand i) = snd (handle_remove_command i s)"
| "manager_step env s (LeaderChanges leader) = s\<lparr>am_isLeader := leader\<rparr>"

definition manager_run :: "manager_env \<Rightarrow> ActiveWorkflowManager \<Rightarrow> manager_event list \<Rightarrow> ActiveWorkflowManager" where
  "manager_run env s es = foldl (manager_step env) s es"

fun changes_leader :: "manager_event \<Rightarrow> bool" where
  "changes_leader (LeaderChanges _) = True"
| "changes_leader _ = False"

end
