(* ===== verification/ActiveWorkflowsFacts.thy ===== *)
theory ActiveWorkflowsFacts
  imports ActiveWorkflows Samples
begin

text \<open>
  What activating and deactivating workflows leaves behind: every running cron job is accounted for under its
  workflow, whatever throws; after a removal that succeeds nothing of the workflow runs; the polling
  times of the editor's choices are never rejected as too short.
\<close>

section \<open>Running jobs are accounted for\<close>

definition jobs_of :: "ActiveWorkflows \<Rightarrow> string \<Rightarrow> cron_job list" where
  "jobs_of s workflowId = (case map_of (aw_cronJobs s) workflowId of None \<Rightarrow> [] | Some js \<Rightarrow> js)"

definition jobs_accounted :: "ActiveWorkflows \<Rightarrow> bool" where
  "jobs_accounted s \<longleftrightarrow> distinct (map cj_id (aw_running s)) \<and>
     (\<forall>j \<in> set (aw_running s). cj_id j < aw_calls s) \<and>
     (\<forall>workflowId. {j \<in> set (aw_running s). cj_workflow j = workflowId} = set (jobs_of s workflowId))"

lemma jobs_accounted_other:
  assumes "jobs_accounted s" "aw_cronJobs t = aw_cronJobs s" "aw_running t = aw_running s" "aw_calls s \<le> aw_calls t"
  shows "jobs_accounted t"
  using assms by (force simp: jobs_accounted_def jobs_of_def)

lemma add_job_jobs: "jobs_of (add_job workflowId j s) w = (if w = workflowId then jobs_of s w @ [j] else jobs_of s w)"
  by (auto simp: jobs_of_def add_job_def split: option.splits)

lemma add_job_accounted:
  assumes "jobs_accounted s" "cj_workflow j = workflowId" "cj_id j < aw_calls s" "\<forall>i \<in> set (aw_running s). cj_id i \<noteq> cj_id j"
  shows "jobs_accounted (add_job workflowId j s)"
proof -
  have "{i \<in> set (aw_running s @ [j]). cj_workflow i = w} = set (if w = workflowId then jobs_of s w @ [j] else jobs_of s w)" for w
    using assms(1,2) by (auto simp: jobs_accounted_def)
  moreover have "distinct (map cj_id (aw_running s @ [j]))" using assms(1,4) by (auto simp: jobs_accounted_def)
  moreover have "aw_running (add_job workflowId j s) = aw_running s @ [j]" "aw_calls (add_job workflowId j s) = aw_calls s"
    by (simp_all add: add_job_def)
  ultimately show ?thesis using assms(1,3) unfolding jobs_accounted_def add_job_jobs by auto
qed

lemma stop_jobs:
  "foldl (\<lambda>t cronJob. stop_job cronJob t) s js =
   s\<lparr>aw_running := filter (\<lambda>j. cj_id j \<notin> cj_id ` set js) (aw_running s)\<rparr>"
  by (induction js arbitrary: s) (auto simp: stop_job_def intro: filter_cong)

lemma deregisterCrons_running:
  assumes "jobs_accounted s"
  shows "aw_running (deregisterCrons workflowId s) = filter (\<lambda>j. cj_workflow j \<noteq> workflowId) (aw_running s)"
proof -
  let ?js = "jobs_of s workflowId"
  have "cj_id j \<notin> cj_id ` set ?js \<longleftrightarrow> cj_workflow j \<noteq> workflowId" if "j \<in> set (aw_running s)" for j
  proof -
    have "set ?js = {j \<in> set (aw_running s). cj_workflow j = workflowId}" "inj_on cj_id (set (aw_running s))"
      using assms by (auto simp: jobs_accounted_def distinct_map)
    with that show ?thesis by (auto dest: inj_onD)
  qed
  then have "filter (\<lambda>j. cj_id j \<notin> cj_id ` set ?js) (aw_running s) = filter (\<lambda>j. cj_workflow j \<noteq> workflowId) (aw_running s)"
    by (rule filter_cong [OF refl])
  then show ?thesis by (auto simp: deregisterCrons_def stop_jobs jobs_of_def split: option.split)
qed

lemma deregisterCrons_other:
  "aw_calls (deregisterCrons workflowId s) = aw_calls s" "aw_active (deregisterCrons workflowId s) = aw_active s"
  "aw_open (deregisterCrons workflowId s) = aw_open s"
  "jobs_of (deregisterCrons workflowId s) w = (if w = workflowId then [] else jobs_of s w)"
  by (auto simp: deregisterCrons_def stop_jobs jobs_of_def split: option.split)

lemma deregisterCrons_accounted:
  assumes "jobs_accounted s"
  shows "jobs_accounted (deregisterCrons workflowId s)"
proof -
  have "set (jobs_of s w) = {j \<in> set (aw_running s). cj_workflow j = w}" for w
    using assms by (simp add: jobs_accounted_def)
  then have "{j \<in> set (aw_running (deregisterCrons workflowId s)). cj_workflow j = w} = set (jobs_of (deregisterCrons workflowId s) w)" for w
    unfolding deregisterCrons_running [OF assms] deregisterCrons_other by auto
  then show ?thesis using assms unfolding jobs_accounted_def deregisterCrons_running [OF assms] deregisterCrons_other(1)
    by (auto simp: distinct_map inj_on_def)
qed

section \<open>Every routine keeps the account\<close>

lemma next_call_keeps: "keeps jobs_accounted next_call"
  by (rule keepsI) (auto simp: next_call_def wp intro: jobs_accounted_other)

lemma aw_emit_keeps: "keeps jobs_accounted (aw_emit e)"
  unfolding aw_emit_def by (rule keeps_basic(5)) (erule jobs_accounted_other, simp_all)

lemma registerCron_keeps: "keeps jobs_accounted (registerCron env workflowId expression)"
proof (rule keepsI)
  fix s
  assume s: "jobs_accounted s"
  let ?j = "\<lparr>cj_id = aw_calls s, cj_workflow = workflowId, cj_expression = expression\<rparr>"
  have "jobs_accounted (add_job workflowId ?j (s\<lparr>aw_calls := Suc (aw_calls s)\<rparr>))"
    by (rule add_job_accounted) (use s in \<open>auto simp: jobs_accounted_def jobs_of_def\<close>)
  with s show "wp_of (registerCron env workflowId expression) (\<lambda>_. jobs_accounted) (\<lambda>_. jobs_accounted) s"
    by (simp add: registerCron_def next_call_def wp split: option.split)
qed

lemmas account_rules = keeps_rules next_call_keeps aw_emit_keeps registerCron_keeps

lemma start_trigger_keeps: "keeps jobs_accounted (start_trigger env workflowId node)"
proof -
  have "keeps jobs_accounted (emodify (\<lambda>s. s\<lparr>aw_open := aw_open s @ [n]\<rparr>))" for n
    by (rule keeps_basic(5)) (erule jobs_accounted_other, simp_all)
  then show ?thesis unfolding start_trigger_def Let_def
    by (intro account_rules) (auto split: trigger_result.split intro!: account_rules)
qed

lemma executeTrigger_keeps: "keeps jobs_accounted (executeTrigger env workflowId w node testing)"
  unfolding executeTrigger_def runPoll_def by (intro account_rules)

lemma activatePolling_keeps: "keeps jobs_accounted (activatePolling env workflowId w node)"
  unfolding activatePolling_def cron_time_def by (intro account_rules executeTrigger_keeps)

lemma set_active_keeps: "keeps jobs_accounted (emodify (\<lambda>s. s\<lparr>aw_active := f s\<rparr>))"
  by (rule keeps_basic(5)) (erule jobs_accounted_other, simp_all)

lemma aw_add_keeps: "keeps jobs_accounted (aw_add env workflowId w mode)"
  unfolding aw_add_def run_triggers_def runTrigger_def
  by (intro account_rules start_trigger_keeps activatePolling_keeps set_active_keeps)

lemma closeTrigger_keeps: "keeps jobs_accounted (closeTrigger workflowId r)"
proof -
  have "keeps jobs_accounted (emodify (\<lambda>s. s\<lparr>aw_open := filter f (aw_open s)\<rparr>))" for f
    by (rule keeps_basic(5)) (erule jobs_accounted_other, simp_all)
  then show ?thesis unfolding closeTrigger_def
    by (auto split: option.split close_behaviour.split intro!: account_rules)
qed

lemma aw_remove_keeps: "keeps jobs_accounted (aw_remove workflowId)"
proof -
  have "keeps jobs_accounted (emodify (deregisterCrons workflowId))"
    by (rule keeps_basic(5)) (rule deregisterCrons_accounted)
  then show ?thesis unfolding aw_remove_def
    by (intro account_rules closeTrigger_keeps set_active_keeps)
qed


section \<open>Histories\<close>

datatype workflows_event =
    AddWorkflow string Workflow ExecutionMode
  | RemoveWorkflow string
  | RemoveAllWorkflows
  | PollTick bool string Workflow INode

fun workflows_step :: "activation_env \<Rightarrow> ActiveWorkflows \<Rightarrow> workflows_event \<Rightarrow> ActiveWorkflows" where
  "workflows_step env s (AddWorkflow workflowId w mode) = snd (aw_add env workflowId w mode s)"
| "workflows_step env s (RemoveWorkflow workflowId) = snd (aw_remove workflowId s)"
| "workflows_step env s RemoveAllWorkflows = snd (removeAllTriggerAndPollerBasedWorkflows s)"
| "workflows_step env s (PollTick isLeader workflowId w node) = snd (poll_tick env isLeader workflowId w node s)"

definition workflows_run :: "activation_env \<Rightarrow> workflows_event list \<Rightarrow> ActiveWorkflows" where
  "workflows_run env es = foldl (workflows_step env) new_active_workflows es"

lemma workflows_step_accounted: "jobs_accounted s \<Longrightarrow> jobs_accounted (workflows_step env s e)"
proof (cases e)
  case RemoveAllWorkflows
  have "keeps jobs_accounted removeAllTriggerAndPollerBasedWorkflows"
    unfolding removeAllTriggerAndPollerBasedWorkflows_def by (intro account_rules aw_remove_keeps)
  then show "jobs_accounted s \<Longrightarrow> ?thesis" using RemoveAllWorkflows by (auto intro: keepsD)
next
  case (PollTick isLeader workflowId w node)
  have "keeps jobs_accounted (poll_tick env isLeader workflowId w node)"
    unfolding poll_tick_def by (intro account_rules executeTrigger_keeps)
  then show "jobs_accounted s \<Longrightarrow> ?thesis" using PollTick by (auto intro: keepsD)
qed (auto intro: keepsD aw_add_keeps aw_remove_keeps)

interpretation workflows_machine: invariant_machine "workflows_step env" jobs_accounted for env
  by unfold_locales (rule workflows_step_accounted)

lemma workflows_run_accounted: "jobs_accounted (workflows_run env es)"
  unfolding workflows_run_def
  by (rule workflows_machine.run_inv) (simp add: jobs_accounted_def new_active_workflows_def jobs_of_def)

section \<open>Removing a workflow\<close>

lemma if_not: "(if \<not> b then x else y) = (if b then y else x)"
  by simp

text \<open>Closing triggers changes nothing but the open triggers, and closes those it can.\<close>

definition same_jobs :: "ActiveWorkflows \<Rightarrow> ActiveWorkflows \<Rightarrow> bool" where
  "same_jobs s t \<longleftrightarrow> aw_active t = aw_active s \<and> aw_cronJobs t = aw_cronJobs s \<and> aw_running t = aw_running s \<and>
     set (aw_open t) \<subseteq> set (aw_open s)"

lemma closeTrigger_wp:
  "same_jobs s t \<Longrightarrow> wp_of (closeTrigger workflowId r)
     (\<lambda>_ t'. same_jobs s t' \<and> set (aw_open t') \<subseteq> set (aw_open t) \<and> (tr_closeFunction r = Some Closes \<longrightarrow> tr_id r \<notin> set (aw_open t')))
     (\<lambda>_. same_jobs s) t"
  by (auto simp: closeTrigger_def aw_emit_def wp same_jobs_def split: option.splits close_behaviour.splits)

lemma closeTriggers_wp:
  "same_jobs s t \<Longrightarrow> wp_of (efor rs (closeTrigger workflowId))
     (\<lambda>_ t'. same_jobs s t' \<and> set (aw_open t') \<subseteq> set (aw_open t) \<and>
       (\<forall>r \<in> set rs. tr_closeFunction r = Some Closes \<longrightarrow> tr_id r \<notin> set (aw_open t')))
     (\<lambda>_. same_jobs s) t"
proof (induction rs arbitrary: t)
  case (Cons r rs)
  show ?case unfolding efor.simps wp
  proof (rule wp_mono [OF closeTrigger_wp [OF Cons.prems]], goal_cases)
    case (1 x t1)
    then show ?case by (intro wp_mono [OF Cons.IH [of t1]]) auto
  qed
qed (simp add: wp)

definition removal_outcome :: "string \<Rightarrow> ActiveWorkflows \<Rightarrow> bool res \<Rightarrow> ActiveWorkflows \<Rightarrow> bool" where
  "removal_outcome workflowId s r s' \<longleftrightarrow>
     (if \<not> isActive s workflowId then r = Inr False \<and> s' = s
      else aw_running s' = filter (\<lambda>j. cj_workflow j \<noteq> workflowId) (aw_running s) \<and>
        (case r of
           Inl e \<Rightarrow> aw_active s' = aw_active s
         | Inr b \<Rightarrow> b \<and> aw_active s' = map_delete workflowId (aw_active s) \<and>
             list_all (\<lambda>t. tr_closeFunction t = Some Closes \<longrightarrow> tr_id t \<notin> set (aw_open s'))
               (the (map_of (aw_active s) workflowId))))"

lemma aw_remove_wp:
  assumes "jobs_accounted s"
  shows "wp_of (aw_remove workflowId) (\<lambda>b. removal_outcome workflowId s (Inr b)) (\<lambda>e. removal_outcome workflowId s (Inl e)) s"
proof (cases "map_of (aw_active s) workflowId")
  case None
  then show ?thesis by (simp add: aw_remove_def wp removal_outcome_def isActive_def)
next
  case (Some rs)
  let ?t = "deregisterCrons workflowId s"
  have "same_jobs ?t ?t" by (simp add: same_jobs_def)
  from closeTriggers_wp [OF this, of rs workflowId] Some show ?thesis
    by (simp add: aw_remove_def wp)
      (erule wp_mono; simp add: removal_outcome_def isActive_def same_jobs_def deregisterCrons_running [OF assms]
        deregisterCrons_other list_all_iff)
qed

lemma wp_run: "wp_of m (\<lambda>x. Q (Inr x)) (\<lambda>e. Q (Inl e)) s \<Longrightarrow> Q (fst (m s)) (snd (m s))"
  by (auto simp: wp_of_def split: prod.splits sum.splits)

section \<open>Polling times\<close>

lemma hd_js_split: "c \<notin> set xs \<Longrightarrow> hd (js_split c (xs @ c # ys)) = xs"
proof (induction xs)
  case (Cons x xs)
  have "js_split c (xs @ c # ys) \<noteq> []" by (cases "xs @ c # ys") (auto split: list.split)
  with Cons show ?case by (auto split: list.split)
qed simp

lemma nat_str_no:
  assumes "(of_char c :: nat) < 48"
  shows "c \<notin> set (nat_str n)"
proof
  assume "c \<in> set (nat_str n)"
  then obtain d where "d < 10" "c = char_of (48 + d :: nat)" using nat_str_digits by blast
  then have "(of_char c :: nat) = 48 + d" by simp
  with assms show False by simp
qed

lemma cron_seconds:
  "too_short (cron_fields (nat_str n # s # ss)) = False"
proof -
  have "cron_fields (nat_str n # s # ss) = nat_str n @ CHR '' '' # js_join '' '' (s # ss)" by (simp add: cron_fields_def)
  then have "hd (js_split CHR '' '' (cron_fields (nat_str n # s # ss))) = nat_str n"
    using hd_js_split [OF nat_str_no [of "CHR '' ''" n]] by simp
  then show ?thesis using nat_str_no [of "CHR ''*''" n] by (simp add: too_short_def)
qed


section \<open>Properties\<close>

text \<open>Whatever is activated, fails to be activated, polled and deactivated in whatever order, no two
  running cron jobs are the same and those of a workflow are exactly the ones listed under it, so that
  deactivating it stops them.\<close>

theorem running_jobs_listed:
  "distinct (map cj_id (aw_running (workflows_run env es))) \<and>
   {j \<in> set (aw_running (workflows_run env es)). cj_workflow j = workflowId} =
     set (jobs_of (workflows_run env es) workflowId)"
  using workflows_run_accounted [of env es] by (simp add: jobs_accounted_def)

text \<open>Removing a workflow, after whatever happened before: if it is not active nothing changes and the
  answer is false. Otherwise its cron jobs are stopped and no others; if no close function throws, the
  answer is true, the workflow is not active any more and its triggers are closed; if one throws, the
  workflow stays active.\<close>

theorem remove_workflow_outcome:
  "case aw_remove workflowId (workflows_run env es) of (r, s') \<Rightarrow>
     if isActive (workflows_run env es) workflowId
     then aw_running s' = filter (\<lambda>j. cj_workflow j \<noteq> workflowId) (aw_running (workflows_run env es)) \<and>
       (case r of
          Inl e \<Rightarrow> aw_active s' = aw_active (workflows_run env es)
        | Inr b \<Rightarrow> b \<and> aw_active s' = map_delete workflowId (aw_active (workflows_run env es)) \<and>
            list_all (\<lambda>t. case tr_closeFunction t of Some Closes \<Rightarrow> tr_id t \<notin> set (aw_open s') | _ \<Rightarrow> True)
              (the (map_of (aw_active (workflows_run env es)) workflowId)))
     else r = Inr False \<and> s' = workflows_run env es"
proof -
  let ?m = "aw_remove workflowId" and ?s = "workflows_run env es"
  have "removal_outcome workflowId ?s (fst (?m ?s)) (snd (?m ?s))"
    by (rule wp_run) (rule aw_remove_wp [OF workflows_run_accounted])
  moreover have "(case c of Some Closes \<Rightarrow> P | _ \<Rightarrow> True) \<longleftrightarrow> (c = Some Closes \<longrightarrow> P)" for c P
    by (auto split: option.split close_behaviour.split)
  ultimately show ?thesis unfolding case_prod_unfold by (simp only: removal_outcome_def if_not)
qed

text \<open>None of the polling times that the editor offers is rejected as too short; of the expressions a
  user writes, exactly those are whose first field contains a star.\<close>

theorem polling_times_accepted:
  "too_short (toCronExpression randomSecond randomMinute item) =
     (case item of
        CustomTime cronExpression \<Rightarrow> CHR ''*'' \<in> set (takeWhile (\<lambda>c. c \<noteq> CHR '' '') (js_trim cronExpression))
      | _ \<Rightarrow> False)"
proof -
  have "js_split CHR '' '' xs \<noteq> [] \<and> hd (js_split CHR '' '' xs) = takeWhile (\<lambda>c. c \<noteq> CHR '' '') xs" for xs
    by (induction xs) (auto split: list.split)
  then have "too_short (js_trim c) \<longleftrightarrow> CHR ''*'' \<in> set (takeWhile (\<lambda>c. c \<noteq> CHR '' '') (js_trim c))" for c
    by (simp add: too_short_def Let_def)
  then show ?thesis by (cases item) (simp_all add: cron_seconds)
qed

section \<open>What a failed activation leaves\<close>

definition trigger_type :: "string \<Rightarrow> rat \<Rightarrow> INodeType option" where
  "trigger_type type version = Some \<lparr>nt_name = type, nt_group = [''trigger''], nt_trigger = True, nt_poll = False,
     nt_execute = False, nt_webhook = False, nt_requiredInputs = None, nt_inputs = 0\<rparr>"

definition two_triggers :: Workflow where
  "two_triggers = \<lparr>wf_nodes = [(''Schedule'', sample_node 1 ''Schedule'' ''schedule'' False),
       (''Mail'', sample_node 2 ''Mail'' ''mail'' False)],
     wf_connectionsBySourceNode = [], wf_connectionsByDestinationNode = [], wf_nodeTypes = trigger_type,
     wf_pinData = None, wf_executionOrder = None\<rparr>"

definition mail_fails :: activation_env where
  "mail_fails = \<lparr>ve_trigger = (\<lambda>n node. if node_name node = ''Mail''
       then \<lparr>to_crons = [], to_result = TriggerThrows (ApplicationError ''no connection'')\<rparr>
       else \<lparr>to_crons = [''0 * * * * *''], to_result = TriggerResponds (Some Closes)\<rparr>),
     ve_pollTimes = (\<lambda>n node. Inr []), ve_poll = (\<lambda>n node. Inr None), ve_random = (\<lambda>n. n), ve_cronError = (\<lambda>e. None),
     ve_message = (\<lambda>e. ''Cannot read properties of undefined'')\<rparr>"

text \<open>
  When a later trigger of a workflow throws, the earlier ones were started and their cron jobs run,
  but the workflow is not active: removing it answers that there is nothing to remove, and what was
  started goes on.
\<close>

theorem failed_activation_goes_on:
  "fst (aw_add mail_fails ''1'' two_triggers Mode_trigger new_active_workflows) \<noteq> Inr () \<and>
   fst (aw_remove ''1'' (workflows_run mail_fails [AddWorkflow ''1'' two_triggers Mode_trigger])) = Inr False \<and>
   aw_open (workflows_run mail_fails [AddWorkflow ''1'' two_triggers Mode_trigger, RemoveWorkflow ''1'']) = [0] \<and>
   length (aw_running (workflows_run mail_fails [AddWorkflow ''1'' two_triggers Mode_trigger, RemoveWorkflow ''1''])) = 1"
  by code_simp

text \<open>\<open>deregisterAllCrons\<close> reads the keys of a \<open>Map\<close> as if it were an object: it stops nothing.\<close>

theorem deregisterAllCrons_stops_nothing: "deregisterAllCrons s = s"
  by (simp add: deregisterAllCrons_def object_keys_of_Map_def)

end
