(* ===== verification/WorkflowActivationFacts.thy ===== *)
theory WorkflowActivationFacts
  imports WorkflowActivation ActiveWorkflowsFacts
begin

text \<open>
  What the manager of active workflows guarantees: only the leader starts triggers and polls, delays of
  retries stay in their range and double, an activation that fails is recorded and one that succeeds
  clears the record, and a removal leaves nothing queued.
\<close>

section \<open>Parts of the state that a routine leaves alone\<close>

text \<open>
  An invariant that reads neither webhooks, errors, effects nor the counter is kept by everything that
  changes only these. \<open>insensitive\<close> says so once for the invariants below.
\<close>

definition insensitive :: "(ActiveWorkflowManager \<Rightarrow> bool) \<Rightarrow> bool" where
  "insensitive I \<longleftrightarrow> (\<forall>s ws es effects n. I s \<longrightarrow> am_calls s \<le> n \<longrightarrow>
     I (s\<lparr>am_webhooks := ws, am_errors := es, am_effects := effects, am_calls := n\<rparr>))"

lemma insensitiveD:
  assumes "insensitive I" "I s"
  shows "I (s\<lparr>am_webhooks := ws\<rparr>)" "I (s\<lparr>am_errors := es\<rparr>)" "I (s\<lparr>am_effects := effects\<rparr>)"
    "am_calls s \<le> n \<Longrightarrow> I (s\<lparr>am_calls := n\<rparr>)"
proof -
  have I: "I (s\<lparr>am_webhooks := ws', am_errors := es', am_effects := effects', am_calls := n'\<rparr>)"
    if "am_calls s \<le> n'" for ws' es' effects' n' using assms that by (simp add: insensitive_def)
  show "I (s\<lparr>am_webhooks := ws\<rparr>)" "I (s\<lparr>am_errors := es\<rparr>)" "I (s\<lparr>am_effects := effects\<rparr>)"
    "am_calls s \<le> n \<Longrightarrow> I (s\<lparr>am_calls := n\<rparr>)"
    using I [of "am_calls s" "am_effects s" "am_errors s" ws] I [of "am_calls s" "am_effects s" es "am_webhooks s"]
      I [of "am_calls s" effects "am_errors s" "am_webhooks s"] I [of n "am_effects s" "am_errors s" "am_webhooks s"] by simp_all
qed

lemma keeps_emit: "insensitive I \<Longrightarrow> keeps I (am_emit e)"
  unfolding am_emit_def by (rule keeps_basic(5)) (rule insensitiveD(3))

lemma keeps_webhooks: "insensitive I \<Longrightarrow> keeps I (on_webhooks f)"
  unfolding on_webhooks_def by (rule keeps_basic(5)) (rule insensitiveD(1))

lemma keeps_errors: "insensitive I \<Longrightarrow> keeps I (register_error i m)" "insensitive I \<Longrightarrow> keeps I (deregister_error i)"
  unfolding register_error_def deregister_error_def by (rule keeps_basic(5); rule insensitiveD(2); assumption)+

lemma keeps_next_call: "insensitive I \<Longrightarrow> keeps I am_next_call"
  by (rule keepsI) (simp add: am_next_call_def wp insensitiveD(4))

lemmas outside_rules = keeps_rules keeps_emit keeps_webhooks keeps_errors keeps_next_call

lemma runWebhookMethod_keeps: "insensitive I \<Longrightarrow> keeps I (runWebhookMethod env method w d)"
  unfolding runWebhookMethod_def by (intro outside_rules)

lemma clearWebhooks_keeps: "insensitive I \<Longrightarrow> keeps I (clearWebhooks env i)"
  unfolding clearWebhooks_def deleteWebhook_def Let_def by (intro outside_rules runWebhookMethod_keeps)

lemma addWebhooks_keeps:
  assumes "insensitive I"
  shows "keeps I (addWebhooks env i w mode)"
proof -
  have store: "keeps I (try_store env webhook)" for webhook
    unfolding try_store_def using assms by (intro outside_rules) (auto split: store_outcome.split intro!: outside_rules)
  have failed: "keeps I (webhook_failed env i e)" for e
    unfolding webhook_failed_def using assms by (intro outside_rules clearWebhooks_keeps)
  have create: "keeps I (createWebhookIfNotExists env w d)" for d
    unfolding createWebhookIfNotExists_def using assms by (intro outside_rules runWebhookMethod_keeps)
  have one: "keeps I (add_webhook env i w mode d)" for d
    unfolding add_webhook_def Let_def using assms
    by (intro outside_rules store) (auto split: store_outcome.split intro!: outside_rules failed create)
  show ?thesis unfolding addWebhooks_def Let_def using assms by (intro outside_rules one)
qed


section \<open>What every operation keeps\<close>

text \<open>
  A property of the manager that does not read what \<open>insensitive\<close> leaves out is kept by every operation if
  the few routines keep it that change the rest: starting and stopping workflows in memory, the queue and
  its timers. Workflows are started by the leader only, or \<open>free\<close>ly where the property allows it: by an
  activation that began when the main was the leader.
\<close>

locale manager_property =
  fixes I :: "ActiveWorkflowManager \<Rightarrow> bool"
    and free :: bool
  assumes insens: "insensitive I"
    and starts: "I s \<Longrightarrow> am_isLeader s \<or> free \<Longrightarrow> wp_of (on_active (aw_add aenv i w mode)) (\<lambda>_. I) (\<lambda>_. I) s"
    and stops: "keeps I (on_active (aw_remove i))" "keeps I (on_active removeAllTriggerAndPollerBasedWorkflows)"
    and unqueues: "I s \<Longrightarrow> I (removeQueuedWorkflowActivation i s)"
    and queues: "keeps I (addQueuedWorkflowActivation amode data)" "keeps I (retry_failed amode data e)"
    and fires: "I s \<Longrightarrow> I (timer_fires timer s)" "I s \<Longrightarrow> I (s\<lparr>am_inflight := filter P (am_inflight s)\<rparr>)"
    and stores: "I s \<Longrightarrow> I (s\<lparr>am_db := db\<rparr>)"
    and begins: "I s \<Longrightarrow> (ba_triggers a \<longrightarrow> am_isLeader s) \<Longrightarrow> I (s\<lparr>am_begun := am_begun s @ [a]\<rparr>)"
    and begun: "I s \<Longrightarrow> a \<in> set (am_begun s) \<Longrightarrow> ba_triggers a \<Longrightarrow> free"
    and continues: "I s \<Longrightarrow> I (s\<lparr>am_begun := filter Q (am_begun s)\<rparr>)"
begin

lemma insens_leader: "insensitive (\<lambda>s. I s \<and> am_isLeader s = b)"
  using insens by (simp add: insensitive_def)

lemmas rules = keeps_rules keeps_emit [OF insens] keeps_webhooks [OF insens] keeps_errors [OF insens]
  keeps_next_call [OF insens]

lemma unqueue_keeps: "keeps I (emodify (removeQueuedWorkflowActivation i))"
  by (rule keeps_basic(5)) (rule unqueues)

text \<open>Whoever asks for triggers is the leader, or free.\<close>

definition may_start :: "bool \<Rightarrow> ActiveWorkflowManager \<Rightarrow> bool" where
  "may_start triggers s \<longleftrightarrow> I s \<and> (triggers \<longrightarrow> am_isLeader s \<or> free)"

lemma may_start_wp:
  "may_start triggers s \<Longrightarrow> wp_of (addTriggersAndPollers env i w) (\<lambda>_. I) (\<lambda>_. I) s" if triggers
  using that starts by (auto simp: addTriggersAndPollers_def may_start_def wp)

lemma may_start_I: "may_start triggers s \<Longrightarrow> I s"
  by (simp add: may_start_def)

lemma insens_may_start: "insensitive (may_start triggers)"
  using insens by (simp add: insensitive_def may_start_def)

lemma add_body_wp:
  assumes "may_start triggers s"
  shows "wp_of (add_body env i mode existing webhooks triggers) (\<lambda>_. I) (\<lambda>_. I) s"
proof -
  have trigger: "wp_of (ewhen triggers (addTriggersAndPollers env j w)) (\<lambda>_. wp_of rest (\<lambda>_. I) (\<lambda>_. I)) (\<lambda>_. I) t"
    if t: "may_start triggers t" and rest: "keeps I rest" for j w t and rest :: "bool am_eff"
  proof (cases triggers)
    case True
    have "wp_of (addTriggersAndPollers env j w) (\<lambda>_. wp_of rest (\<lambda>_. I) (\<lambda>_. I)) (\<lambda>_. I) t"
      by (rule wp_mono [OF may_start_wp [OF True t] keeps_wp [OF rest]])
    with True show ?thesis by (simp add: wp)
  qed (simp add: wp keeps_wp [OF rest may_start_I [OF t]])
  have webhooks: "wp_of (ewhen webhooks (addWebhooks env j w mode))
      (\<lambda>_. wp_of (ewhen triggers (addTriggersAndPollers env j w)) (\<lambda>_. wp_of rest (\<lambda>_. I) (\<lambda>_. I)) (\<lambda>_. I)) (\<lambda>_. I) s"
    if rest: "keeps I rest" for j w and rest :: "bool am_eff"
  proof -
    have "keeps (may_start triggers) (ewhen webhooks (addWebhooks env j w mode))"
      by (rule keeps_when) (rule addWebhooks_keeps [OF insens_may_start])
    from wp_mono [OF keeps_wp [OF this assms] trigger [OF _ rest] may_start_I] show ?thesis .
  qed
  have rest: "keeps I (eseq (emodify (removeQueuedWorkflowActivation i)) (eseq (deregister_error i)
      (eseq (am_emit e1) (eseq (am_emit e2) (ereturn True)))))" for e1 e2
    by (intro rules unqueue_keeps)
  have body: "wp_of (eseq (ewhen webhooks (addWebhooks env j w mode)) (eseq (ewhen triggers (addTriggersAndPollers env j w))
      (eseq (emodify (removeQueuedWorkflowActivation i)) (eseq (deregister_error i)
        (eseq (am_emit e1) (eseq (am_emit e2) (ereturn True))))))) (\<lambda>_. I) (\<lambda>_. I) s" for j w e1 e2
    using webhooks [OF rest] by (simp only: wp_simps)
  note I = may_start_I [OF assms]
  show ?thesis unfolding add_body_def Let_def
    by (simp only: wp_bind wp_option wp_if wp_simps(1,2,4) body I split: option.split if_split) simp
qed

lemma add_rest_wp:
  assumes "may_start triggers s"
  shows "wp_of (add_rest env i mode existing webhooks triggers) (\<lambda>_. I) (\<lambda>_. I) s"
proof -
  have "wp_of (eseq (register_error i m) (ethrow e)) Q (\<lambda>_. I) t" if "I t" for m e t and Q :: "bool \<Rightarrow> _"
    using insensitiveD(2) [OF insens that] by (simp add: register_error_def wp)
  then show ?thesis unfolding add_rest_def Let_def wp_bind wp_simps(1,7)
    by (intro wp_mono [OF add_body_wp [OF assms]])
qed

lemma am_add_keeps: "keeps I (am_add env i mode existing publish)"
proof (rule keepsI)
  fix s
  assume s: "I s"
  then have "may_start (shouldAddTriggersAndPollers s) s" by (simp add: may_start_def shouldAddTriggersAndPollers_def)
  from add_rest_wp [OF this] insensitiveD(3) [OF insens s]
  show "wp_of (am_add env i mode existing publish) (\<lambda>_. I) (\<lambda>_. I) s"
    by (simp add: am_add_def am_emit_def wp)
qed

lemma clear_or_report_keeps: "keeps I (clear_or_report env i)"
  unfolding clear_or_report_def by (intro rules clearWebhooks_keeps [OF insens])

lemma removeWorkflow_keeps: "keeps I (removeWorkflowTriggersAndPollers i)"
  unfolding removeWorkflowTriggersAndPollers_def by (intro rules stops)

lemma am_remove_keeps: "keeps I (am_remove env i)"
  unfolding am_remove_def by (intro rules clear_or_report_keeps removeWorkflow_keeps unqueue_keeps)

lemma remove_each_keeps: "keeps I (remove_each env ids)"
  by (induction ids) (auto simp: etry_def split: option.split intro!: rules am_remove_keeps)

lemma command_failed_keeps: "keeps I (command_failed i e)"
proof -
  have "keeps I (emodify (\<lambda>s. s\<lparr>am_db := f s\<rparr>))" for f by (rule keeps_basic(5)) (rule stores)
  then show ?thesis unfolding command_failed_def by (intro rules)
qed

text \<open>Whatever the caller does afterwards keeps the property.\<close>

lemma for_caller_wp:
  assumes "wp_of m (\<lambda>_. I) (\<lambda>_. I) s"
  shows "wp_of (for_caller env caller m) (\<lambda>_. I) (\<lambda>_. I) s"
proof -
  have start_up: "keeps I (start_up_failed env data e)" for data e
    unfolding start_up_failed_def by (intro rules queues)
  have emit: "wp_of (am_emit e) (\<lambda>_. I) E t" if "I t" for e E t
    using insensitiveD(3) [OF insens that] by (simp add: am_emit_def wp)
  show ?thesis
    by (cases caller) (auto simp: wp intro!: wp_mono [OF assms] keeps_wp [OF start_up] keeps_wp [OF queues(2)]
        keeps_wp [OF command_failed_keeps] emit)
qed

lemma for_caller_keeps: "keeps I m \<Longrightarrow> keeps I (for_caller env caller m)"
  by (rule keepsI) (rule for_caller_wp, rule keeps_wp)

lemma add_begins_keeps: "keeps I (add_begins env caller i mode existing publish)"
proof (rule keepsI)
  fix s
  assume s: "I s"
  have "keeps I (for_caller env caller (eseq (am_emit (PublishAdd i)) (ereturn None)))"
    by (intro for_caller_keeps rules)
  from keeps_wp [OF this s] begins [OF insensitiveD(4) [OF insens s]]
  show "wp_of (add_begins env caller i mode existing publish) (\<lambda>_. I) (\<lambda>_. I) s"
    by (simp add: add_begins_def am_next_call_def wp shouldAddTriggersAndPollers_def)
qed

lemma add_continues_keeps: "keeps I (add_continues env n)"
proof (rule keepsI)
  fix s
  assume s: "I s"
  have "wp_of (add_continues env n) (\<lambda>_. I) (\<lambda>_. I) s" if a: "find (\<lambda>a. ba_id a = n) (am_begun s) = Some a" for a
  proof -
    from a have "a \<in> set (am_begun s)" by (auto simp: find_Some_iff)
    with begun [OF s] continues [OF s] have
      "may_start (ba_triggers a) (s\<lparr>am_begun := filter (\<lambda>b. ba_id b \<noteq> n) (am_begun s)\<rparr>)" by (simp add: may_start_def)
    from for_caller_wp [OF add_rest_wp [OF this]] a show ?thesis by (simp add: add_continues_def wp)
  qed
  then show "wp_of (add_continues env n) (\<lambda>_. I) (\<lambda>_. I) s"
    using s by (cases "find (\<lambda>a. ba_id a = n) (am_begun s)") (simp_all add: add_continues_def wp)
qed

lemma addActive_keeps: "keeps I (addActiveWorkflows env mode)"
  unfolding addActiveWorkflows_def activateWorkflow_def
  by (intro rules for_caller_keeps am_add_keeps)

lemma run_retry_keeps: "keeps I (run_retry env timer)"
proof -
  have "keeps I (emodify (\<lambda>s. s\<lparr>am_inflight := filter P (am_inflight s)\<rparr>))" for P
    by (rule keeps_basic(5)) (rule fires(2))
  then show ?thesis unfolding run_retry_def retryFunction_def by (intro rules for_caller_keeps am_add_keeps)
qed

lemma unqueue_all: "I s \<Longrightarrow> I (removeAllQueuedWorkflowActivations s)"
proof -
  have "I s \<Longrightarrow> I (foldl (\<lambda>t i. removeQueuedWorkflowActivation i t) s is)" for "is"
    by (induction "is" arbitrary: s) (auto intro: unqueues)
  then show "I s \<Longrightarrow> ?thesis" by (simp add: removeAllQueuedWorkflowActivations_def)
qed

lemma commands_keep: "keeps I (handle_add_command env i)" "keeps I (handle_remove_command i)"
proof -
  show "keeps I (handle_add_command env i)" unfolding handle_add_command_def by (intro rules for_caller_keeps am_add_keeps)
  show "keeps I (handle_remove_command i)" unfolding handle_remove_command_def by (intro rules removeWorkflow_keeps)
qed

lemma trigger_error_keeps: "keeps I (trigger_emits_error env mode data e)"
  unfolding trigger_emits_error_def by (intro rules stops queues)

lemma removeAll_keeps: "keeps I (am_removeAll env)"
  unfolding am_removeAll_def by (intro rules remove_each_keeps) (auto split: list.split intro!: rules)

lemma step_keeps: "I s \<Longrightarrow> (\<And>b. e \<noteq> LeaderChanges b) \<Longrightarrow> I (manager_step env s e)"
  by (cases e) (auto simp: am_init_def addAllTriggerAndPollerBasedWorkflows_def
      intro: keepsD am_add_keeps add_begins_keeps add_continues_keeps am_remove_keeps removeAll_keeps addActive_keeps stops(2) fires(1) run_retry_keeps
        trigger_error_keeps unqueue_all commands_keep)

lemma run_keeps: "I s \<Longrightarrow> list_all (\<lambda>e. \<not> changes_leader e) es \<Longrightarrow> I (manager_run env s es)"
  unfolding manager_run_def
proof (induction es arbitrary: s)
  case (Cons e es)
  have "I (manager_step env s e)" by (rule step_keeps [OF Cons.prems(1)]) (use Cons.prems(2) in auto)
  with Cons show ?case by simp
qed simp

end

section \<open>Delays\<close>

abbreviation delay_range :: "int set" where
  "delay_range \<equiv> {WORKFLOW_REACTIVATE_INITIAL_TIMEOUT..WORKFLOW_REACTIVATE_MAX_TIMEOUT}"

definition delays_ok :: "ActiveWorkflowManager \<Rightarrow> bool" where
  "delays_ok s \<longleftrightarrow> (\<forall>(i, q) \<in> set (am_queued s). qa_lastTimeout q \<in> delay_range) \<and>
     (\<forall>t \<in> set (am_timers s) \<union> set (am_inflight s). rt_delay t \<in> delay_range)"

lemma map_set_entries: "e \<in> set (map_set k v m) \<Longrightarrow> e = (k, v) \<or> e \<in> set m"
  by (induction k v m rule: map_set.induct) (auto split: if_splits)

lemma next_timeout_range: "n \<in> delay_range \<Longrightarrow> next_timeout n \<in> delay_range"
  by (auto simp: next_timeout_def WORKFLOW_REACTIVATE_INITIAL_TIMEOUT_def WORKFLOW_REACTIVATE_MAX_TIMEOUT_def)

lemma initial_range: "WORKFLOW_REACTIVATE_INITIAL_TIMEOUT \<in> delay_range"
  by (simp add: WORKFLOW_REACTIVATE_INITIAL_TIMEOUT_def WORKFLOW_REACTIVATE_MAX_TIMEOUT_def)

lemma delays_ok_timer:
  assumes "delays_ok s" "n \<in> delay_range" "qa_lastTimeout q \<in> delay_range" "rt_delay t = n"
  shows "delays_ok (s\<lparr>am_calls := k, am_timers := am_timers s @ [t], am_queued := map_set i q (am_queued s)\<rparr>)"
  using assms by (auto simp: delays_ok_def dest!: map_set_entries)

lemma removeQueued_delays: "delays_ok s \<Longrightarrow> delays_ok (removeQueuedWorkflowActivation i s)"
  by (auto simp: delays_ok_def removeQueuedWorkflowActivation_def map_delete_def split: option.split)

lemma addQueued_delays: "keeps delays_ok (addQueuedWorkflowActivation mode data)"
proof (rule keepsI)
  fix s
  assume "delays_ok s"
  then have "delays_ok (removeQueuedWorkflowActivation (wfe_id data) s)" by (rule removeQueued_delays)
  from delays_ok_timer [OF this initial_range]
  show "wp_of (addQueuedWorkflowActivation mode data) (\<lambda>_. delays_ok) (\<lambda>_. delays_ok) s"
    unfolding addQueuedWorkflowActivation_def set_timer_def am_next_call_def wp using initial_range by simp
qed

lemma retry_failed_delays: "keeps delays_ok (retry_failed mode data e)"
proof (rule keepsI)
  fix s
  assume s: "delays_ok s"
  let ?s = "s\<lparr>am_effects := am_effects s @ [ReportError e]\<rparr>"
  have ok: "delays_ok ?s" using s by (simp add: delays_ok_def)
  have "qa_lastTimeout q \<in> delay_range" if "map_of (am_queued s) (wfe_id data) = Some q" for q
    using s map_of_SomeD [OF that] by (auto simp: delays_ok_def)
  then have q: "next_timeout (qa_lastTimeout q) \<in> delay_range" if "map_of (am_queued s) (wfe_id data) = Some q" for q
    using that next_timeout_range by blast
  show "wp_of (retry_failed mode data e) (\<lambda>_. delays_ok) (\<lambda>_. delays_ok) s"
    unfolding retry_failed_def set_timer_def am_next_call_def am_emit_def wp Let_def
    using ok q delays_ok_timer [OF ok] by (auto split: option.split)
qed

interpretation delays: manager_property delays_ok True
proof unfold_locales
  have on: "keeps delays_ok (on_active m)" for m
    unfolding on_active_def by (rule keepsI) (simp add: wp, auto simp: wp_of_def delays_ok_def split: prod.split sum.split)
  show "keeps delays_ok (on_active (aw_remove i))" "keeps delays_ok (on_active removeAllTriggerAndPollerBasedWorkflows)" for i
    by (rule on)+
  show "delays_ok s \<Longrightarrow> wp_of (on_active (aw_add aenv i w mode)) (\<lambda>_. delays_ok) (\<lambda>_. delays_ok) s" for s aenv i w mode
    using on by (rule keeps_wp)
  show "delays_ok s \<Longrightarrow> delays_ok (removeQueuedWorkflowActivation i s)" for i s by (rule removeQueued_delays)
  show "keeps delays_ok (addQueuedWorkflowActivation amode data)" "keeps delays_ok (retry_failed amode data e)" for amode data e
    by (rule addQueued_delays retry_failed_delays)+
qed (auto simp: insensitive_def delays_ok_def timer_fires_def)

lemma removeQueued_other [simp]:
  "am_isLeader (removeQueuedWorkflowActivation i s) = am_isLeader s"
  "am_active (removeQueuedWorkflowActivation i s) = am_active s"
  "am_errors (removeQueuedWorkflowActivation i s) = am_errors s"
  "am_webhooks (removeQueuedWorkflowActivation i s) = am_webhooks s"
  "am_effects (removeQueuedWorkflowActivation i s) = am_effects s"
  "am_begun (removeQueuedWorkflowActivation i s) = am_begun s"
  by (simp_all add: removeQueuedWorkflowActivation_def split: option.split)

section \<open>Followers\<close>

text \<open>A manager that is not the leader, whose active workflows are among those of \<open>a\<close>.\<close>

definition follows :: "ActiveWorkflows \<Rightarrow> ActiveWorkflowManager \<Rightarrow> bool" where
  "follows a s \<longleftrightarrow> \<not> am_isLeader s \<and> set (aw_running (am_active s)) \<subseteq> set (aw_running a) \<and>
     set (aw_open (am_active s)) \<subseteq> set (aw_open a) \<and> (\<forall>i. isActive (am_active s) i \<longrightarrow> isActive a i) \<and> list_all (\<lambda>b. \<not> ba_triggers b) (am_begun s)"

definition is_part :: "ActiveWorkflows \<Rightarrow> ActiveWorkflows \<Rightarrow> bool" where
  "is_part a s \<longleftrightarrow> set (aw_running s) \<subseteq> set (aw_running a) \<and> set (aw_open s) \<subseteq> set (aw_open a) \<and>
     (\<forall>i. isActive s i \<longrightarrow> isActive a i)"

lemma aw_remove_part: "keeps (is_part a) (aw_remove i)"
proof -
  have "keeps (is_part a) (emodify (deregisterCrons i))"
    by (rule keeps_basic(5)) (auto simp: is_part_def isActive_def deregisterCrons_def stop_jobs split: option.splits)
  moreover have "keeps (is_part a) (emodify (\<lambda>s. s\<lparr>aw_active := map_delete i (aw_active s)\<rparr>))"
    by (rule keeps_basic(5)) (auto simp: is_part_def isActive_def jsmap split: if_splits)
  moreover have "keeps (is_part a) (closeTrigger i r)" for r
    by (rule keepsI) (auto simp: closeTrigger_def aw_emit_def wp is_part_def isActive_def split: option.split close_behaviour.split)
  ultimately show ?thesis unfolding aw_remove_def by (intro keeps_rules)
qed

interpretation followers: manager_property "follows a" False for a
proof unfold_locales
  have follows: "follows a s \<longleftrightarrow> \<not> am_isLeader s \<and> is_part a (am_active s) \<and>
      list_all (\<lambda>b. \<not> ba_triggers b) (am_begun s)" for s
    by (auto simp: follows_def is_part_def)
  have on: "keeps (follows a) (on_active m)" if "keeps (is_part a) m" for m
    unfolding on_active_def by (rule keeps_on [OF that]) (simp_all add: follows)
  show "keeps (follows a) (on_active (aw_remove i))" for i by (rule on) (rule aw_remove_part)
  show "keeps (follows a) (on_active removeAllTriggerAndPollerBasedWorkflows)"
    unfolding removeAllTriggerAndPollerBasedWorkflows_def by (intro on keeps_rules aw_remove_part)
  show "follows a s \<Longrightarrow> follows a (removeQueuedWorkflowActivation i s)" for i s by (simp add: follows)
  show "keeps (follows a) (addQueuedWorkflowActivation amode data)" for amode data
    by (rule keepsI) (simp add: addQueuedWorkflowActivation_def set_timer_def am_next_call_def wp follows)
  show "keeps (follows a) (retry_failed amode data e)" for amode data e
    by (rule keepsI) (simp add: retry_failed_def set_timer_def am_next_call_def am_emit_def wp follows Let_def split: option.split)
qed (auto simp: follows_def insensitive_def timer_fires_def list_all_iff)

section \<open>Cron jobs\<close>

interpretation jobs: manager_property "\<lambda>s. jobs_accounted (am_active s)" True
proof unfold_locales
  have on: "keeps (\<lambda>s. jobs_accounted (am_active s)) (on_active m)" if "keeps jobs_accounted m" for m
    unfolding on_active_def by (rule keeps_on [OF that]) simp_all
  show "jobs_accounted (am_active s) \<Longrightarrow> wp_of (on_active (aw_add aenv i w mode)) (\<lambda>_ s. jobs_accounted (am_active s))
      (\<lambda>_ s. jobs_accounted (am_active s)) s" for s aenv i w mode
    using keeps_wp [OF on [OF aw_add_keeps]] .
  show "keeps (\<lambda>s. jobs_accounted (am_active s)) (on_active (aw_remove i))" for i by (rule on) (rule aw_remove_keeps)
  show "keeps (\<lambda>s. jobs_accounted (am_active s)) (on_active removeAllTriggerAndPollerBasedWorkflows)"
    unfolding removeAllTriggerAndPollerBasedWorkflows_def by (intro on account_rules aw_remove_keeps)
  show "jobs_accounted (am_active s) \<Longrightarrow> jobs_accounted (am_active (removeQueuedWorkflowActivation i s))" for i s
    by simp
  show "keeps (\<lambda>s. jobs_accounted (am_active s)) (addQueuedWorkflowActivation amode data)" for amode data
    by (rule keepsI) (simp add: addQueuedWorkflowActivation_def set_timer_def am_next_call_def wp)
  show "keeps (\<lambda>s. jobs_accounted (am_active s)) (retry_failed amode data e)" for amode data e
    by (rule keepsI) (simp add: retry_failed_def set_timer_def am_next_call_def am_emit_def wp Let_def split: option.split)
qed (simp_all add: insensitive_def timer_fires_def)

section \<open>Outcomes\<close>

lemma wp_any: "(\<And>x s. Q x s) \<Longrightarrow> (\<And>e s. E e s) \<Longrightarrow> wp_of m Q E s"
  by (auto simp: wp_of_def split: prod.split sum.split)

lemma removeQueued_gone: "map_of (am_queued (removeQueuedWorkflowActivation i s)) i = None"
  by (auto simp: removeQueuedWorkflowActivation_def find_timer_def jsmap split: option.split)

definition settled :: "string \<Rightarrow> ActiveWorkflowManager \<Rightarrow> bool" where
  "settled i s \<longleftrightarrow> map_of (am_errors s) i = None \<and> map_of (am_queued s) i = None"

lemma settled_insensitive: "settled i (s\<lparr>am_effects := es\<rparr>) = settled i s"
  by (simp add: settled_def)

text \<open>
  When a main starts or becomes the leader, a workflow that is no longer active is skipped.
\<close>

definition inactive_at_start :: "WorkflowActivateMode \<Rightarrow> string \<Rightarrow> WorkflowEntity option \<Rightarrow> ActiveWorkflowManager \<Rightarrow> bool" where
  "inactive_at_start mode i existing s \<longleftrightarrow> mode \<in> {Activate_init, Activate_leadershipChange} \<and>
     (case (case existing of Some data \<Rightarrow> Some data | None \<Rightarrow> map_of (am_db s) i) of
        None \<Rightarrow> False | Some data \<Rightarrow> \<not> wfe_active data)"

lemma add_body_outcome:
  "wp_of (add_body env i mode existing webhooks triggers)
     (\<lambda>added s'. if added then settled i s' \<and> \<not> inactive_at_start mode i existing s else s' = s \<and> inactive_at_start mode i existing s)
     (\<lambda>_ _. \<not> inactive_at_start mode i existing s) s"
  unfolding add_body_def Let_def am_emit_def deregister_error_def wp prod.case
  by (auto simp: settled_def inactive_at_start_def removeQueued_gone jsmap split: option.split intro!: wp_any)

lemma am_add_outcome:
  "wp_of (am_add env i mode existing publish)
     (\<lambda>r s'. case r of
          None \<Rightarrow> am_isMultiMain s \<and> publish \<and> s' = s\<lparr>am_effects := am_effects s @ [PublishAdd i]\<rparr>
        | Some shown \<Rightarrow> \<not> (am_isMultiMain s \<and> publish) \<and>
            (if inactive_at_start mode i existing s then s' = s \<and> \<not> shown else settled i s'))
     (\<lambda>e s'. \<not> (am_isMultiMain s \<and> publish) \<and> \<not> inactive_at_start mode i existing s \<and>
        map_of (am_errors s') i = Some (message_of (me_activation env) e)) s"
proof (cases "am_isMultiMain s \<and> publish")
  case True
  then show ?thesis by (simp add: am_add_def left_to_leader_def wp am_emit_def)
next
  case False
  then have published: "left_to_leader publish s = False" by (simp add: left_to_leader_def)
  show ?thesis
    unfolding am_add_def wp_bind wp_simps(4) wp_if prod.case published if_False add_rest_def Let_def wp_simps(1,2,6,7)
      register_error_def wp_simps(5)
    by (rule wp_mono [OF add_body_outcome]) (use False in \<open>auto split: if_splits\<close>)
qed

lemma deleteWorkflowWebhooks_rows: "\<forall>v \<in> set (ws_rows (deleteWorkflowWebhooks s i)). we_workflowId v \<noteq> i"
proof -
  have "ws_rows (foldl (\<lambda>t w. cache_delete (cacheKey w) t) s ws) = ws_rows s" for ws
    by (induction ws arbitrary: s) (simp_all add: cache_delete_def)
  then show ?thesis by (auto simp: deleteWorkflowWebhooks_def deleteWebhooks_def Let_def same_webhook_def)
qed

definition no_webhooks :: "string \<Rightarrow> ActiveWorkflowManager \<Rightarrow> bool" where
  "no_webhooks i s \<longleftrightarrow> list_all (\<lambda>v. we_workflowId v \<noteq> i) (ws_rows (am_webhooks s))"

definition failure_reported :: "nat \<Rightarrow> ActiveWorkflowManager \<Rightarrow> bool" where
  "failure_reported n s \<longleftrightarrow> list_ex (\<lambda>x. case x of ReportError _ \<Rightarrow> True | _ \<Rightarrow> False) (drop n (am_effects s))"

text \<open>The effects only grow.\<close>

definition grown :: "nat \<Rightarrow> ActiveWorkflowManager \<Rightarrow> bool" where
  "grown n s \<longleftrightarrow> n \<le> length (am_effects s)"

lemma clearWebhooks_grown: "keeps (grown n) (clearWebhooks env i)"
proof -
  have "keeps (grown n) (am_emit e)" for e
    unfolding am_emit_def by (rule keeps_basic(5)) (simp add: grown_def)
  moreover have "keeps (grown n) (on_webhooks f)" for f
    unfolding on_webhooks_def by (rule keeps_basic(5)) (simp add: grown_def)
  moreover have "keeps (grown n) am_next_call"
    by (rule keepsI) (simp add: am_next_call_def wp grown_def)
  ultimately show ?thesis unfolding clearWebhooks_def deleteWebhook_def runWebhookMethod_def Let_def
    by (intro keeps_rules)
qed

lemma clearWebhooks_rows: "wp_of (clearWebhooks env i) (\<lambda>_. no_webhooks i) (\<lambda>_ _. True) s"
  unfolding clearWebhooks_def Let_def am_emit_def on_webhooks_def wp
  by (auto simp: no_webhooks_def list_all_iff deleteWorkflowWebhooks_rows split: option.split intro!: wp_any)

lemma wp_conj: "wp_of m Q E s \<Longrightarrow> wp_of m Q' E' s \<Longrightarrow> wp_of m (\<lambda>x s. Q x s \<and> Q' x s) (\<lambda>e s. E e s \<and> E' e s) s"
  by (auto simp: wp_of_def split: prod.splits sum.splits)

lemma clear_or_report_outcome:
  assumes "n \<le> length (am_effects s)"
  shows "wp_of (clear_or_report env i) (\<lambda>_ s'. no_webhooks i s' \<or> failure_reported n s') (\<lambda>_ _. False) s"
  unfolding clear_or_report_def wp
proof (rule wp_mono [OF wp_conj [OF clearWebhooks_rows keeps_wp [OF clearWebhooks_grown [of n]]]])
  show "grown n s" using assms by (simp add: grown_def)
  show "no_webhooks i t \<and> grown n t \<Longrightarrow> no_webhooks i t \<or> failure_reported n t" for t by simp
  show "True \<and> grown n t \<Longrightarrow> wp_of (am_emit (ReportError e)) (\<lambda>_ s'. no_webhooks i s' \<or> failure_reported n s') (\<lambda>_ _. False) t" for e t
    by (simp add: am_emit_def wp failure_reported_def grown_def)
qed

lemma aw_remove_inactive: "wp_of (aw_remove i) (\<lambda>_ t. \<not> isActive t i) (\<lambda>_ _. True) t"
proof (cases "map_of (aw_active t) i")
  case None
  then show ?thesis by (simp add: aw_remove_def wp isActive_def)
next
  case (Some rs)
  then show ?thesis by (simp add: aw_remove_def wp isActive_def) (rule wp_any; simp add: jsmap)
qed

text \<open>What a removal in a single main leaves.\<close>

definition removed :: "nat \<Rightarrow> string \<Rightarrow> bool \<Rightarrow> ActiveWorkflowManager \<Rightarrow> bool" where
  "removed n i returned s \<longleftrightarrow> settled i s \<and> (no_webhooks i s \<or> failure_reported n s) \<and>
     (returned \<longrightarrow> \<not> isActive (am_active s) i)"

lemma am_remove_outcome:
  assumes "\<not> am_isMultiMain s"
  shows "wp_of (am_remove env i) (\<lambda>_. removed (length (am_effects s)) i True) (\<lambda>_. removed (length (am_effects s)) i False) s"
proof -
  let ?n = "length (am_effects s)"
  have last: "wp_of (removeWorkflowTriggersAndPollers i) (\<lambda>_. removed ?n i True) (\<lambda>_. removed ?n i False) t"
    if t: "settled i t" "no_webhooks i t \<or> failure_reported ?n t" for t
  proof -
    have "removed ?n i b (t\<lparr>am_active := a\<rparr>) \<longleftrightarrow> (b \<longrightarrow> \<not> isActive a i)" for a b
      using t by (simp add: removed_def settled_def no_webhooks_def failure_reported_def)
    moreover have "removed ?n i True t" if "\<not> isActive (am_active t) i" using t that by (simp add: removed_def)
    ultimately show ?thesis
      using wp_mono [OF aw_remove_inactive [of i "am_active t"]]
      by (simp add: removeWorkflowTriggersAndPollers_def on_active_def wp)
  qed
  have rest: "wp_of (eseq (deregister_error i) (eseq (emodify (removeQueuedWorkflowActivation i)) (removeWorkflowTriggersAndPollers i)))
      (\<lambda>_. removed ?n i True) (\<lambda>_. removed ?n i False) t" if "no_webhooks i t \<or> failure_reported ?n t" for t
    unfolding wp deregister_error_def
    by (rule last) (use that in \<open>simp_all add: settled_def removeQueued_gone jsmap no_webhooks_def failure_reported_def\<close>)
  show ?thesis using assms wp_mono [OF clear_or_report_outcome [of ?n s env i]] rest [unfolded wp]
    by (simp add: am_remove_def wp)
qed

section \<open>Properties\<close>

definition new_manager :: "bool \<Rightarrow> bool \<Rightarrow> (string, WorkflowEntity) js_map \<Rightarrow> ActiveWorkflowManager" where
  "new_manager isLeader isMultiMain db = \<lparr>am_isLeader = isLeader, am_isMultiMain = isMultiMain, am_db = db,
     am_active = new_active_workflows, am_webhooks = empty_service, am_queued = [], am_timers = [], am_inflight = [],
     am_begun = [],     am_errors = [], am_calls = 0, am_effects = []\<rparr>"

text \<open>C32: as long as a main is not the leader and no activation is under way in it that began when it was,
  nothing that happens starts a trigger, a poll or a cron job in it or makes a workflow active in its
  memory: what runs was running before.\<close>

theorem follower_starts_nothing:
  assumes "\<not> am_isLeader s" "list_all (\<lambda>a. \<not> ba_triggers a) (am_begun s)" "list_all (\<lambda>e. \<not> changes_leader e) es"
  shows "set (aw_running (am_active (manager_run env s es))) \<subseteq> set (aw_running (am_active s)) \<and>
    set (aw_open (am_active (manager_run env s es))) \<subseteq> set (aw_open (am_active s)) \<and>
    set (allActiveWorkflows (am_active (manager_run env s es))) \<subseteq> set (allActiveWorkflows (am_active s))"
proof -
  have "follows (am_active s) s" using assms(1,2) by (simp add: follows_def)
  from followers.run_keeps [OF this assms(3)]
  have "follows (am_active s) (manager_run env s es)" .
  then show ?thesis
    by (auto simp: follows_def isActive_def allActiveWorkflows_def map_of_eq_None_iff image_iff)
qed

text \<open>The delay before an activation is tried again starts at a second, doubles with each failure and
  stays at a day, for every queued workflow, pending timer and retry under way.\<close>

theorem retry_delays:
  "(next_timeout ^^ k) WORKFLOW_REACTIVATE_INITIAL_TIMEOUT =
     min (WORKFLOW_REACTIVATE_INITIAL_TIMEOUT * 2 ^ k) WORKFLOW_REACTIVATE_MAX_TIMEOUT \<and>
   list_all (\<lambda>(i, q). qa_lastTimeout q \<in> {WORKFLOW_REACTIVATE_INITIAL_TIMEOUT..WORKFLOW_REACTIVATE_MAX_TIMEOUT})
     (am_queued (manager_run env (new_manager isLeader isMultiMain db) es)) \<and>
   list_all (\<lambda>t. rt_delay t \<in> {WORKFLOW_REACTIVATE_INITIAL_TIMEOUT..WORKFLOW_REACTIVATE_MAX_TIMEOUT})
     (am_timers (manager_run env (new_manager isLeader isMultiMain db) es))"
proof -
  have "(next_timeout ^^ k) WORKFLOW_REACTIVATE_INITIAL_TIMEOUT =
     min (WORKFLOW_REACTIVATE_INITIAL_TIMEOUT * 2 ^ k) WORKFLOW_REACTIVATE_MAX_TIMEOUT" for k
    by (induction k) (auto simp: next_timeout_def WORKFLOW_REACTIVATE_INITIAL_TIMEOUT_def WORKFLOW_REACTIVATE_MAX_TIMEOUT_def)
  moreover have "delays_ok (manager_run env (new_manager isLeader isMultiMain db) es)"
  proof -
    have "delays_ok (manager_step env s e)" if "delays_ok s" for s e
      using delays.step_keeps [OF that, of e env] that by (cases e) (auto simp: delays_ok_def)
    then have run: "delays_ok s \<Longrightarrow> delays_ok (foldl (manager_step env) s es)" for s
      by (induction es arbitrary: s) auto
    show ?thesis unfolding manager_run_def
      by (rule run) (simp add: delays_ok_def new_manager_def)
  qed
  ultimately show ?thesis by (auto simp: delays_ok_def list_all_iff)
qed

text \<open>C33: an activation that may publish, in a setup with several mains, only sends a command to the
  leader. Any other one of a workflow that is no longer active, at the start of a main or when it becomes
  the leader, is skipped: it changes nothing, so an earlier error and a queued retry stay. Every other one
  either throws, and then the message of its error is recorded for the workflow, or succeeds, and then no
  error is recorded and no retry is queued for it.\<close>

theorem activation_recorded:
  "case am_add env i mode existing publish s of
     (Inl e, s') \<Rightarrow> \<not> (am_isMultiMain s \<and> publish) \<and> \<not> inactive_at_start mode i existing s \<and>
       map_of (am_errors s') i = Some (message_of (me_activation env) e)
   | (Inr None, s') \<Rightarrow> am_isMultiMain s \<and> publish \<and> s' = s\<lparr>am_effects := am_effects s @ [PublishAdd i]\<rparr>
   | (Inr (Some shown), s') \<Rightarrow> \<not> (am_isMultiMain s \<and> publish) \<and>
       (if inactive_at_start mode i existing s then s' = s \<and> \<not> shown
        else map_of (am_errors s') i = None \<and> map_of (am_queued s') i = None)"
  using am_add_outcome [of env i mode existing publish s]
  by (auto simp: wp_of_def settled_def split: prod.splits sum.splits option.splits)

text \<open>Deactivating a workflow in a single main leaves no error recorded, no retry queued, and no webhook in
  the table unless a failure was reported; if it does not throw, the workflow is not active in memory.\<close>

theorem deactivation_clears:
  assumes "\<not> am_isMultiMain s"
  shows "case am_remove env i s of (r, s') \<Rightarrow>
    map_of (am_errors s') i = None \<and> map_of (am_queued s') i = None \<and>
    (list_all (\<lambda>v. we_workflowId v \<noteq> i) (ws_rows (am_webhooks s')) \<or> failure_reported (length (am_effects s)) s') \<and>
    (isl r \<or> \<not> isActive (am_active s') i)"
  using am_remove_outcome [OF assms(1), of env i]
  by (auto simp: wp_of_def removed_def settled_def no_webhooks_def split: prod.splits sum.splits)

section \<open>Samples\<close>

definition sample_entity :: WorkflowEntity where
  "sample_entity = \<lparr>wfe_id = ''1'', wfe_active = True, wfe_workflow = two_triggers\<rparr>"

definition sample_manager :: "activation_env \<Rightarrow> manager_env" where
  "sample_manager aenv = \<lparr>me_activation = aenv, me_descriptions = (\<lambda>node. None), me_store = (\<lambda>n w. Stored),
     me_method = (\<lambda>n m d. Inr None), me_batchSize = 1\<rparr>"

definition mail_works :: activation_env where
  "mail_works = mail_fails\<lparr>ve_trigger := (\<lambda>n node. \<lparr>to_crons = [''0 * * * * *''], to_result = TriggerResponds (Some Closes)\<rparr>)\<rparr>"

theorem follower_starts_nothing_witness:
  "aw_running (am_active (manager_run (sample_manager mail_works) (new_manager False True [(''1'', sample_entity)])
     [InitCalled, AddBegins Outside ''1'' Activate_activate None False, AddContinues 2])) = []"
  using follower_starts_nothing [of "new_manager False True [(''1'', sample_entity)]"
      "[InitCalled, AddBegins Outside ''1'' Activate_activate None False, AddContinues 2]" "sample_manager mail_works"]
  by (simp add: new_manager_def new_active_workflows_def)

theorem deactivation_clears_witness:
  "\<not> isActive (am_active (snd (am_remove (sample_manager mail_works) ''1''
     (manager_run (sample_manager mail_works) (new_manager True False [(''1'', sample_entity)]) [InitCalled])))) ''1''"
proof -
  let ?s = "manager_run (sample_manager mail_works) (new_manager True False [(''1'', sample_entity)]) [InitCalled]"
  have "\<not> am_isMultiMain ?s" by code_simp
  moreover have "\<not> isl (fst (am_remove (sample_manager mail_works) ''1'' ?s))" by code_simp
  ultimately show ?thesis using deactivation_clears [of ?s "''1''" "sample_manager mail_works"]
    by (simp add: case_prod_unfold)
qed

text \<open>
  \<open>add\<close> reads whether the main is the leader before it awaits the database. A main that steps down while an
  activation waits, and removes all its triggers, starts those of that workflow afterwards: they run in a
  main that is not the leader.
\<close>

definition steps_down_meanwhile :: "manager_event list" where
  "steps_down_meanwhile = [AddBegins Outside ''1'' Activate_activate None False, LeaderChanges False,
     RemoveAllTriggersCalled]"

definition stepped_down :: ActiveWorkflowManager where
  "stepped_down = manager_run (sample_manager mail_works) (new_manager True True [(''1'', sample_entity)]) steps_down_meanwhile"

theorem triggers_started_after_stepdown:
  "(am_isLeader stepped_down, aw_running (am_active stepped_down)) = (False, []) \<and>
   map cj_workflow (aw_running (am_active (manager_step (sample_manager mail_works) stepped_down (AddContinues 0)))) =
     [''1'', ''1'']"
proof
  show "(am_isLeader stepped_down, aw_running (am_active stepped_down)) = (False, [])" by code_simp
  have begun: "find (\<lambda>a. ba_id a = 0) (am_begun stepped_down) = Some \<lparr>ba_id = 0, ba_caller = Outside, ba_workflowId = ''1'',
      ba_mode = Activate_activate, ba_existing = None, ba_webhooks = True, ba_triggers = True\<rparr>"
    by (simp add: stepped_down_def manager_run_def steps_down_meanwhile_def new_manager_def add_begins_def left_to_leader_def
        shouldAddWebhooks_def shouldAddTriggersAndPollers_def am_next_call_def ebind_def eseq_def eget_def emodify_def ereturn_def
        on_active_def eon_def split: prod.split)
  have "map cj_workflow (aw_running (am_active (snd (for_caller (sample_manager mail_works) Outside
      (add_rest (sample_manager mail_works) ''1'' Activate_activate None True True) (stepped_down\<lparr>am_begun := []\<rparr>))))) = [''1'', ''1'']"
    by code_simp
  moreover have "map ba_id (am_begun stepped_down) = [0]" by code_simp
  then have "filter (\<lambda>b. ba_id b \<noteq> 0) (am_begun stepped_down) = []" by auto
  ultimately show "map cj_workflow (aw_running (am_active (manager_step (sample_manager mail_works) stepped_down (AddContinues 0)))) =
     [''1'', ''1'']" using begun
    by (simp add: add_continues_def ebind_def eseq_def eget_def emodify_def del: for_caller.simps)
qed

text \<open>
  An activation fails, its retry starts, and meanwhile a trigger reports an error and queues the workflow
  again: when the retry fails, it overwrites the timer of the new entry, and two retries are pending.
\<close>

theorem two_retries_pending:
  "map (\<lambda>t. wfe_id (rt_workflowData t)) (am_timers (manager_run (sample_manager mail_fails)
     (new_manager True False [(''1'', sample_entity)])
     [InitCalled, TimerFires 0, TriggerError Activate_init sample_entity (ApplicationError ''lost''), RetryRuns 0])) = [''1'', ''1'']"
  by code_simp

text \<open>When the workflow is deactivated while its retry runs, the failing retry throws.\<close>

theorem retry_of_removed_throws:
  "fst (run_retry (sample_manager mail_fails) 0 (manager_run (sample_manager mail_fails)
     (new_manager True False [(''1'', sample_entity)]) [InitCalled, TimerFires 0, RemoveCalled ''1''])) = Inl TypeError"
  by code_simp

text \<open>
  With several mains a retry only publishes a command: the entry stays queued without a timer, and when
  the activation fails again, the handler of the command sets the workflow inactive.
\<close>

theorem multi_main_retries_once:
  "am_timers (manager_run (sample_manager mail_fails) (new_manager True True [(''1'', sample_entity)])
     [InitCalled, TimerFires 0, RetryRuns 0, AddCommand ''1'']) = [] \<and>
   map_keys (am_queued (manager_run (sample_manager mail_fails) (new_manager True True [(''1'', sample_entity)])
     [InitCalled, TimerFires 0, RetryRuns 0, AddCommand ''1''])) = [''1''] \<and>
   map (\<lambda>(i, data). wfe_active data) (am_db (manager_run (sample_manager mail_fails) (new_manager True True [(''1'', sample_entity)])
     [InitCalled, TimerFires 0, RetryRuns 0, AddCommand ''1''])) = [False]"
  by (intro conjI; code_simp)

end
