(* ===== verification/TaskMessages.thy ===== *)
theory TaskMessages
  imports WorkflowTypes
begin

text \<open>
  The messages between task broker, task runners and task requesters
  (\<open>packages/@n8n/task-runner/src/message-types.ts\<close>). Payloads the code passes on without looking
  at them (settings, results, parameters) are values of type \<open>json\<close>.
\<close>

datatype task_error =
    ErrorMessage string
  | ErrorValue json
  | TaskRunnerTimeoutError int bool bool  \<comment> \<open>the broker's: seconds, self-hosted, internal mode\<close>
  | TimeoutError int                      \<comment> \<open>the runner's own: seconds\<close>

datatype rpc_status = RpcSuccess | RpcError

text \<open>Broker to runner.\<close>

datatype to_runner =
    R_InfoRequest
  | R_RunnerRegistered
  | R_TaskOfferAccept string string        \<comment> \<open>task id, offer id\<close>
  | R_TaskCancel string string             \<comment> \<open>task id, reason\<close>
  | R_TaskSettings string json
  | R_RPCResponse string string rpc_status json  \<comment> \<open>call id, task id\<close>
  | R_TaskDataResponse string string json  \<comment> \<open>task id, request id\<close>
  | R_NodeTypes string string json

text \<open>Broker to requester.\<close>

datatype to_requester =
    Q_TaskReady string string              \<comment> \<open>request id, task id\<close>
  | Q_TaskDone string json
  | Q_TaskError string task_error
  | Q_TaskDataRequest string string json
  | Q_NodeTypesRequest string string json
  | Q_RPC string string string json        \<comment> \<open>call id, task id, name, parameters\<close>

text \<open>Requester to broker.\<close>

datatype from_requester =
    FQ_TaskSettings string json
  | FQ_TaskCancel string string
  | FQ_TaskDataResponse string string json
  | FQ_NodeTypesResponse string string json
  | FQ_RPCResponse string string rpc_status json  \<comment> \<open>task id, call id\<close>
  | FQ_TaskRequest string string           \<comment> \<open>request id, task type\<close>

text \<open>Runner to broker.\<close>

datatype from_runner =
    FR_Info string "string list"
  | FR_TaskAccepted string
  | FR_TaskRejected string string
  | FR_TaskDeferred string
  | FR_TaskDone string json
  | FR_TaskError string task_error
  | FR_TaskOffer string string int         \<comment> \<open>offer id, task type, valid for (ms)\<close>
  | FR_TaskDataRequest string string json
  | FR_NodeTypesRequest string string json
  | FR_RPC string string string json       \<comment> \<open>call id, task id, name, parameters\<close>

end
