(* ===== verification/TaskBroker.thy ===== *)
theory TaskBroker
  imports TaskMessages
begin

text \<open>
  The task broker (\<open>packages/cli/src/task-runners/task-broker/task-broker.service.ts\<close>): it matches
  task requests with task offers, hands tasks to runners and passes messages on.

  The code is asynchronous. A handler runs without interruption up to an \<open>await\<close> of a promise
  that other handlers settle; what follows is a step of its own. The model keeps the suspended
  calls: \<open>br_accepting\<close> holds the calls of \<open>acceptOffer\<close> that wait for the runner,
  \<open>br_awaiting\<close> those that wait for the settings, each with the state of its promise, and
  \<open>br_finishing\<close> the calls that still have to delete their task. A message callback is called at
  the end of the uninterrupted part, so the model records the message in \<open>br_out\<close>.

  Task requests are objects that are changed in place while several lists refer to them: they live
  in the store \<open>br_heap\<close>, and the list of pending requests holds addresses.
\<close>

section \<open>State\<close>

record TaskRunnerInfo =
  tr_id :: string
  tr_name :: string
  tr_taskTypes :: "string list"

record BrokerTask =
  bt_id :: string
  bt_runnerId :: string
  bt_requesterId :: string
  bt_taskType :: string
  bt_timeout :: bool  \<comment> \<open>a timeout timer was started\<close>

record TaskOffer =
  of_offerId :: string
  of_runnerId :: string
  of_taskType :: string
  of_validFor :: int
  of_validUntil :: int

record TaskRequest =
  rq_requestId :: string
  rq_requesterId :: string
  rq_taskType :: string
  rq_acceptInProgress :: bool

text \<open>A promise: the first settlement counts.\<close>

datatype 'a promise =
    Pending | Accepted 'a | RejectedWith string | DeferredByRunner | TimedOut

definition settle :: "'a promise \<Rightarrow> 'a promise \<Rightarrow> 'a promise" where
  "settle new old = (case old of Pending \<Rightarrow> new | _ \<Rightarrow> old)"

record accept_call =
  ac_offer :: TaskOffer
  ac_request :: nat
  ac_promise :: "unit promise"

record settings_call =
  sc_promise :: "json promise"

datatype broker_out =
    ToRunner string to_runner
  | ToRequester string to_requester
  | RunnerTimedOutDuringTask
  | UnhandledRejection string
  | LogError string

record Broker =
  br_runners :: "(string, TaskRunnerInfo) js_map"
  br_requesters :: "string js_set"
  br_tasks :: "(string, BrokerTask) js_map"
  br_runnerAcceptRejects :: "string js_set"
  br_requesterAcceptRejects :: "string js_set"
  br_pendingTaskOffers :: "TaskOffer list"
  br_pendingTaskRequests :: "nat list"
  br_heap :: "(nat, TaskRequest) js_map"
  br_accepting :: "(string, accept_call) js_map"
  br_awaiting :: "(string, settings_call) js_map"
  br_finishing :: "string list"
  br_taskCount :: nat
  br_refCount :: nat
  br_out :: "broker_out list"

record broker_config =
  bc_taskTimeout :: int
  bc_internal :: bool
  bc_selfHosted :: bool

definition new_broker :: "broker_config \<Rightarrow> Broker res" where
  "new_broker cfg =
     (if bc_taskTimeout cfg \<le> 0 then Inl (ApplicationError ''Task timeout must be greater than 0'')
      else Inr \<lparr>br_runners = [], br_requesters = [], br_tasks = [], br_runnerAcceptRejects = [],
                br_requesterAcceptRejects = [], br_pendingTaskOffers = [],
                br_pendingTaskRequests = [], br_heap = [], br_accepting = [], br_awaiting = [],
                br_finishing = [], br_taskCount = 0, br_refCount = 0, br_out = []\<rparr>)"

definition br_send :: "broker_out \<Rightarrow> Broker \<Rightarrow> Broker" where
  "br_send m b = b\<lparr>br_out := br_out b @ [m]\<rparr>"

definition messageRunner :: "Broker \<Rightarrow> string \<Rightarrow> to_runner \<Rightarrow> Broker" where
  "messageRunner b runnerId message =
     (if map_has (br_runners b) runnerId then br_send (ToRunner runnerId message) b else b)"

definition messageRequester :: "Broker \<Rightarrow> string \<Rightarrow> to_requester \<Rightarrow> Broker" where
  "messageRequester b requesterId message =
     (if requesterId \<in> set (br_requesters b) then br_send (ToRequester requesterId message) b else b)"

section \<open>Matching offers and requests\<close>

definition offer_expired :: "int \<Rightarrow> TaskOffer \<Rightarrow> bool" where
  "offer_expired now offer = (of_validFor offer \<noteq> -1 \<and> of_validUntil offer < now)"

definition expireTasks :: "int \<Rightarrow> Broker \<Rightarrow> Broker" where
  "expireTasks now b =
     b\<lparr>br_pendingTaskOffers := filter (\<lambda>offer. \<not> offer_expired now offer) (br_pendingTaskOffers b)\<rparr>"

definition request_at :: "Broker \<Rightarrow> nat \<Rightarrow> TaskRequest option" where
  "request_at b r = map_of (br_heap b) r"

definition set_acceptInProgress :: "nat \<Rightarrow> bool \<Rightarrow> Broker \<Rightarrow> Broker" where
  "set_acceptInProgress r v b =
     (case request_at b r of
        None \<Rightarrow> b
      | Some request \<Rightarrow> b\<lparr>br_heap := map_set r (request\<lparr>rq_acceptInProgress := v\<rparr>) (br_heap b)\<rparr>)"

text \<open>\<open>acceptOffer\<close> up to its first \<open>await\<close>; \<open>gen\<close> makes the task ids (\<open>nanoid\<close>).\<close>

definition acceptOffer :: "(nat \<Rightarrow> string) \<Rightarrow> Broker \<Rightarrow> TaskOffer \<Rightarrow> nat \<Rightarrow> Broker" where
  "acceptOffer gen b offer r =
     (let taskId = gen (br_taskCount b);
          b1 = b\<lparr>br_taskCount := Suc (br_taskCount b),
                 br_runnerAcceptRejects := set_add taskId (br_runnerAcceptRejects b),
                 br_accepting := map_set taskId
                   \<lparr>ac_offer = offer, ac_request = r, ac_promise = Pending\<rparr> (br_accepting b)\<rparr>
      in messageRunner b1 (of_runnerId offer) (R_TaskOfferAccept taskId (of_offerId offer)))"

definition settle_request :: "(nat \<Rightarrow> string) \<Rightarrow> Broker \<Rightarrow> nat \<Rightarrow> Broker" where
  "settle_request gen b r =
     (case request_at b r of
        None \<Rightarrow> b
      | Some request \<Rightarrow>
          if rq_acceptInProgress request then b
          else case find_index (\<lambda>offer. of_taskType offer = rq_taskType request)
                      (br_pendingTaskOffers b) of
            None \<Rightarrow> b
          | Some offerIndex \<Rightarrow>
              let offer = br_pendingTaskOffers b ! offerIndex;
                  b1 = set_acceptInProgress r True b;
                  b2 = b1\<lparr>br_pendingTaskOffers := remove_at offerIndex (br_pendingTaskOffers b1)\<rparr>
              in acceptOffer gen b2 offer r)"

definition settleTasks :: "(nat \<Rightarrow> string) \<Rightarrow> int \<Rightarrow> Broker \<Rightarrow> Broker" where
  "settleTasks gen now b =
     (let b1 = expireTasks now b in foldl (settle_request gen) b1 (br_pendingTaskRequests b1))"

definition taskRequested :: "(nat \<Rightarrow> string) \<Rightarrow> int \<Rightarrow> Broker \<Rightarrow> TaskRequest \<Rightarrow> Broker" where
  "taskRequested gen now b request =
     (let r = br_refCount b;
          b1 = b\<lparr>br_refCount := Suc r, br_heap := map_set r request (br_heap b),
                 br_pendingTaskRequests := br_pendingTaskRequests b @ [r]\<rparr>
      in settleTasks gen now b1)"

definition taskOffered :: "(nat \<Rightarrow> string) \<Rightarrow> int \<Rightarrow> Broker \<Rightarrow> TaskOffer \<Rightarrow> Broker" where
  "taskOffered gen now b offer =
     settleTasks gen now (b\<lparr>br_pendingTaskOffers := br_pendingTaskOffers b @ [offer]\<rparr>)"

section \<open>Settling the promises\<close>

definition settle_accepting :: "string \<Rightarrow> unit promise \<Rightarrow> Broker \<Rightarrow> Broker" where
  "settle_accepting taskId p b =
     (case map_of (br_accepting b) taskId of
        None \<Rightarrow> b
      | Some call \<Rightarrow>
          b\<lparr>br_accepting := map_set taskId (call\<lparr>ac_promise := settle p (ac_promise call)\<rparr>)
              (br_accepting b)\<rparr>)"

definition settle_awaiting :: "string \<Rightarrow> json promise \<Rightarrow> Broker \<Rightarrow> Broker" where
  "settle_awaiting taskId p b =
     (case map_of (br_awaiting b) taskId of
        None \<Rightarrow> b
      | Some call \<Rightarrow>
          b\<lparr>br_awaiting := map_set taskId (call\<lparr>sc_promise := settle p (sc_promise call)\<rparr>)
              (br_awaiting b)\<rparr>)"

definition settle_runner :: "string \<Rightarrow> unit promise \<Rightarrow> Broker \<Rightarrow> Broker" where
  "settle_runner taskId p b =
     (if taskId \<in> set (br_runnerAcceptRejects b) then
        let b1 = settle_accepting taskId p b
        in b1\<lparr>br_runnerAcceptRejects := set_delete taskId (br_runnerAcceptRejects b1)\<rparr>
      else b)"

definition handleRunnerAccept :: "string \<Rightarrow> Broker \<Rightarrow> Broker" where
  "handleRunnerAccept taskId b = settle_runner taskId (Accepted ()) b"

definition handleRunnerReject :: "string \<Rightarrow> string \<Rightarrow> Broker \<Rightarrow> Broker" where
  "handleRunnerReject taskId reason b = settle_runner taskId (RejectedWith reason) b"

definition handleRunnerDeferred :: "string \<Rightarrow> Broker \<Rightarrow> Broker" where
  "handleRunnerDeferred taskId b = settle_runner taskId DeferredByRunner b"

definition settle_requester :: "string \<Rightarrow> json promise \<Rightarrow> Broker \<Rightarrow> Broker" where
  "settle_requester taskId p b =
     (if taskId \<in> set (br_requesterAcceptRejects b) then
        let b1 = settle_awaiting taskId p b
        in b1\<lparr>br_requesterAcceptRejects := set_delete taskId (br_requesterAcceptRejects b1)\<rparr>
      else b)"

definition handleRequesterAccept :: "string \<Rightarrow> json \<Rightarrow> Broker \<Rightarrow> Broker" where
  "handleRequesterAccept taskId settings b = settle_requester taskId (Accepted settings) b"

definition handleRequesterReject :: "string \<Rightarrow> string \<Rightarrow> Broker \<Rightarrow> Broker" where
  "handleRequesterReject taskId reason b = settle_requester taskId (RejectedWith reason) b"

section \<open>Tasks\<close>

definition cancelTask :: "string \<Rightarrow> string \<Rightarrow> Broker \<Rightarrow> Broker" where
  "cancelTask taskId reason b =
     (case map_of (br_tasks b) taskId of
        None \<Rightarrow> b
      | Some task \<Rightarrow>
          messageRunner (b\<lparr>br_tasks := map_delete taskId (br_tasks b)\<rparr>) (bt_runnerId task)
            (R_TaskCancel taskId reason))"

definition failTask :: "string \<Rightarrow> task_error \<Rightarrow> Broker \<Rightarrow> Broker" where
  "failTask taskId error b =
     (case map_of (br_tasks b) taskId of
        None \<Rightarrow> b
      | Some task \<Rightarrow>
          messageRequester (b\<lparr>br_tasks := map_delete taskId (br_tasks b)\<rparr>) (bt_requesterId task)
            (Q_TaskError taskId error))"

text \<open>The runner of a task, or the error thrown; the state changes when the task is failed.\<close>

definition getRunnerOrFailTask :: "string \<Rightarrow> Broker \<Rightarrow> Broker \<times> (string + TaskRunnerInfo)" where
  "getRunnerOrFailTask taskId b =
     (case map_of (br_tasks b) taskId of
        None \<Rightarrow> (b, Inl (''Cannot find runner, failed to find task ('' @ taskId @ '')''))
      | Some task \<Rightarrow>
          (case map_of (br_runners b) (bt_runnerId task) of
             None \<Rightarrow>
               let message = ''Cannot find runner, failed to find runner ('' @ bt_runnerId task @ '')''
               in (failTask taskId (ErrorMessage message) b, Inl message)
           | Some runner \<Rightarrow> (b, Inr runner)))"

definition set_task_timeout :: "bool \<Rightarrow> BrokerTask \<Rightarrow> Broker \<Rightarrow> Broker" where
  "set_task_timeout v task b =
     b\<lparr>br_tasks := map_set (bt_id task) (task\<lparr>bt_timeout := v\<rparr>) (br_tasks b)\<rparr>"

definition sendTaskSettings :: "string \<Rightarrow> json \<Rightarrow> Broker \<Rightarrow> Broker \<times> string option" where
  "sendTaskSettings taskId settings b =
     (case getRunnerOrFailTask taskId b of
        (b1, Inl e) \<Rightarrow> (b1, Some e)
      | (b1, Inr runner) \<Rightarrow>
          (case map_of (br_tasks b1) taskId of
             None \<Rightarrow> (b1, None)
           | Some task \<Rightarrow>
               (messageRunner (set_task_timeout True task b1) (tr_id runner)
                  (R_TaskSettings taskId settings), None)))"

text \<open>
  Done and error handlers stop the timer and send the message; the task is deleted in a step of
  its own, after the requester's callback has returned.
\<close>

definition finish_with :: "string \<Rightarrow> (BrokerTask \<Rightarrow> to_requester) \<Rightarrow> Broker \<Rightarrow> Broker" where
  "finish_with taskId message b =
     (case map_of (br_tasks b) taskId of
        None \<Rightarrow> b
      | Some task \<Rightarrow>
          let b1 = messageRequester (set_task_timeout False task b) (bt_requesterId task) (message task)
          in b1\<lparr>br_finishing := br_finishing b1 @ [bt_id task]\<rparr>)"

definition taskDoneHandler :: "string \<Rightarrow> json \<Rightarrow> Broker \<Rightarrow> Broker" where
  "taskDoneHandler taskId data b = finish_with taskId (\<lambda>task. Q_TaskDone (bt_id task) data) b"

definition taskErrorHandler :: "string \<Rightarrow> task_error \<Rightarrow> Broker \<Rightarrow> Broker" where
  "taskErrorHandler taskId error b = finish_with taskId (\<lambda>task. Q_TaskError (bt_id task) error) b"

definition resume_finishing :: "string \<Rightarrow> Broker \<Rightarrow> Broker" where
  "resume_finishing taskId b =
     (case find_index (\<lambda>t. t = taskId) (br_finishing b) of
        None \<Rightarrow> b
      | Some i \<Rightarrow> b\<lparr>br_finishing := remove_at i (br_finishing b),
                   br_tasks := map_delete taskId (br_tasks b)\<rparr>)"

definition handleTaskTimeout :: "broker_config \<Rightarrow> string \<Rightarrow> Broker \<Rightarrow> Broker" where
  "handleTaskTimeout cfg taskId b =
     (case map_of (br_tasks b) taskId of
        None \<Rightarrow> b
      | Some task \<Rightarrow>
          let b1 = (if bc_internal cfg then br_send RunnerTimedOutDuringTask b
                    else messageRunner b (bt_runnerId task)
                           (R_TaskCancel taskId ''Task execution timed out''))
          in taskErrorHandler taskId
               (TaskRunnerTimeoutError (bc_taskTimeout cfg) (bc_selfHosted cfg) (bc_internal cfg)) b1)"

section \<open>The rest of \<open>acceptOffer\<close>\<close>

text \<open>
  After the first \<open>await\<close>. On rejection, deferral or timeout the request is free again; on a
  deferral it is also pushed to the list of pending requests. Otherwise the task is created and
  the request taken from the list.
\<close>

definition requests_index :: "Broker \<Rightarrow> string \<Rightarrow> nat option" where
  "requests_index b requestId =
     find_index (\<lambda>r. map_option rq_requestId (request_at b r) = Some requestId)
       (br_pendingTaskRequests b)"

definition runner_accepted :: "string \<Rightarrow> TaskOffer \<Rightarrow> TaskRequest \<Rightarrow> Broker \<Rightarrow> Broker" where
  "runner_accepted taskId offer request b =
     (let task = \<lparr>bt_id = taskId, bt_runnerId = of_runnerId offer,
                  bt_requesterId = rq_requesterId request, bt_taskType = of_taskType offer,
                  bt_timeout = False\<rparr>;
          b1 = b\<lparr>br_tasks := map_set taskId task (br_tasks b)\<rparr>
      in case requests_index b1 (rq_requestId request) of
           None \<Rightarrow> br_send (LogError (rq_requestId request)) b1
         | Some requestIndex \<Rightarrow>
             let b2 = b1\<lparr>br_pendingTaskRequests := remove_at requestIndex (br_pendingTaskRequests b1),
                         br_requesterAcceptRejects := set_add taskId (br_requesterAcceptRejects b1),
                         br_awaiting := map_set taskId \<lparr>sc_promise = Pending\<rparr> (br_awaiting b1)\<rparr>
             in messageRequester b2 (rq_requesterId request)
                  (Q_TaskReady (rq_requestId request) taskId))"

definition resume_accepting :: "string \<Rightarrow> Broker \<Rightarrow> Broker" where
  "resume_accepting taskId b =
     (case map_of (br_accepting b) taskId of
        None \<Rightarrow> b
      | Some call \<Rightarrow>
          let b1 = b\<lparr>br_accepting := map_delete taskId (br_accepting b)\<rparr>;
              r = ac_request call;
              freed = set_acceptInProgress r False b1
          in case ac_promise call of
               Pending \<Rightarrow> b
             | RejectedWith reason \<Rightarrow> freed
             | DeferredByRunner \<Rightarrow>
                 freed\<lparr>br_pendingTaskRequests := br_pendingTaskRequests freed @ [r]\<rparr>
             | TimedOut \<Rightarrow> br_send (UnhandledRejection ''Runner timed out'') freed
             | Accepted _ \<Rightarrow>
                 (case request_at b1 r of
                    None \<Rightarrow> b1
                  | Some request \<Rightarrow> runner_accepted taskId (ac_offer call) request b1))"

definition resume_awaiting :: "string \<Rightarrow> Broker \<Rightarrow> Broker" where
  "resume_awaiting taskId b =
     (case map_of (br_awaiting b) taskId of
        None \<Rightarrow> b
      | Some call \<Rightarrow>
          let b1 = b\<lparr>br_awaiting := map_delete taskId (br_awaiting b)\<rparr>
          in case sc_promise call of
               Pending \<Rightarrow> b
             | Accepted settings \<Rightarrow>
                 (case sendTaskSettings taskId settings b1 of
                    (b2, None) \<Rightarrow> b2
                  | (b2, Some e) \<Rightarrow>
                      br_send (UnhandledRejection e) (cancelTask taskId ''Unknown reason'' b2))
             | RejectedWith reason \<Rightarrow> cancelTask taskId reason b1
             | DeferredByRunner \<Rightarrow>
                 br_send (UnhandledRejection ''Task deferred until runner is ready'')
                   (cancelTask taskId ''Unknown reason'' b1)
             | TimedOut \<Rightarrow>
                 br_send (UnhandledRejection ''Requester timed out'')
                   (cancelTask taskId ''Unknown reason'' b1))"

section \<open>Runners and requesters\<close>

definition registerRunner :: "TaskRunnerInfo \<Rightarrow> Broker \<Rightarrow> Broker" where
  "registerRunner runner b =
     messageRunner (b\<lparr>br_runners := map_set (tr_id runner) runner (br_runners b)\<rparr>) (tr_id runner)
       R_RunnerRegistered"

definition deregisterRunner :: "string \<Rightarrow> string \<Rightarrow> Broker \<Rightarrow> Broker" where
  "deregisterRunner runnerId error b =
     (let b1 = b\<lparr>br_runners := map_delete runnerId (br_runners b),
                 br_pendingTaskOffers :=
                   filter (\<lambda>offer. of_runnerId offer \<noteq> runnerId) (br_pendingTaskOffers b)\<rparr>
      in foldl (\<lambda>b task.
           if bt_runnerId task = runnerId then
             handleRunnerReject (bt_id task)
               (''The Task Runner ('' @ runnerId @ '') has disconnected: '' @ error)
               (failTask (bt_id task) (ErrorMessage error) b)
           else b) b1 (map_values (br_tasks b1)))"

definition registerRequester :: "string \<Rightarrow> Broker \<Rightarrow> Broker" where
  "registerRequester requesterId b = b\<lparr>br_requesters := set_add requesterId (br_requesters b)\<rparr>"

definition deregisterRequester :: "string \<Rightarrow> Broker \<Rightarrow> Broker" where
  "deregisterRequester requesterId b = b\<lparr>br_requesters := set_delete requesterId (br_requesters b)\<rparr>"

section \<open>Messages that are passed on\<close>

definition to_task_requester :: "string \<Rightarrow> to_requester \<Rightarrow> Broker \<Rightarrow> Broker" where
  "to_task_requester taskId message b =
     (case map_of (br_tasks b) taskId of
        None \<Rightarrow> b
      | Some task \<Rightarrow> messageRequester b (bt_requesterId task) message)"

definition handleRpcRequest :: "string \<Rightarrow> string \<Rightarrow> string \<Rightarrow> json \<Rightarrow> Broker \<Rightarrow> Broker" where
  "handleRpcRequest taskId callId name params b =
     to_task_requester taskId (Q_RPC callId taskId name params) b"

definition handleDataRequest :: "string \<Rightarrow> string \<Rightarrow> json \<Rightarrow> Broker \<Rightarrow> Broker" where
  "handleDataRequest taskId requestId requestParams b =
     to_task_requester taskId (Q_TaskDataRequest taskId requestId requestParams) b"

definition handleNodeTypesRequest :: "string \<Rightarrow> string \<Rightarrow> json \<Rightarrow> Broker \<Rightarrow> Broker" where
  "handleNodeTypesRequest taskId requestId requestParams b =
     to_task_requester taskId (Q_NodeTypesRequest taskId requestId requestParams) b"

text \<open>As in the source: the message for the runner is addressed with the id of the requester.\<close>

definition handleResponse :: "string \<Rightarrow> string \<Rightarrow> json \<Rightarrow> Broker \<Rightarrow> Broker" where
  "handleResponse taskId requestId data b =
     (case map_of (br_tasks b) taskId of
        None \<Rightarrow> b
      | Some task \<Rightarrow> messageRunner b (bt_requesterId task) (R_TaskDataResponse taskId requestId data))"

text \<open>A response for the runner of a task; an error is an unhandled rejection of the handler.\<close>

definition to_task_runner :: "string \<Rightarrow> to_runner \<Rightarrow> Broker \<Rightarrow> Broker" where
  "to_task_runner taskId message b =
     (case getRunnerOrFailTask taskId b of
        (b1, Inl e) \<Rightarrow> br_send (UnhandledRejection e) b1
      | (b1, Inr runner) \<Rightarrow> messageRunner b1 (tr_id runner) message)"

definition handleRequesterRpcResponse :: "string \<Rightarrow> string \<Rightarrow> rpc_status \<Rightarrow> json \<Rightarrow> Broker \<Rightarrow> Broker" where
  "handleRequesterRpcResponse taskId callId status data b =
     to_task_runner taskId (R_RPCResponse callId taskId status data) b"

definition handleRequesterDataResponse :: "string \<Rightarrow> string \<Rightarrow> json \<Rightarrow> Broker \<Rightarrow> Broker" where
  "handleRequesterDataResponse taskId requestId data b =
     to_task_runner taskId (R_TaskDataResponse taskId requestId data) b"

definition handleRequesterNodeTypesResponse :: "string \<Rightarrow> string \<Rightarrow> json \<Rightarrow> Broker \<Rightarrow> Broker" where
  "handleRequesterNodeTypesResponse taskId requestId nodeTypes b =
     to_task_runner taskId (R_NodeTypes taskId requestId nodeTypes) b"

section \<open>Message handlers\<close>

definition onRunnerMessage ::
  "(nat \<Rightarrow> string) \<Rightarrow> int \<Rightarrow> string \<Rightarrow> from_runner \<Rightarrow> Broker \<Rightarrow> Broker" where
  "onRunnerMessage gen now runnerId message b =
     (if \<not> map_has (br_runners b) runnerId then b
      else case message of
        FR_TaskAccepted taskId \<Rightarrow> handleRunnerAccept taskId b
      | FR_TaskRejected taskId reason \<Rightarrow> handleRunnerReject taskId reason b
      | FR_TaskDeferred taskId \<Rightarrow> handleRunnerDeferred taskId b
      | FR_TaskOffer offerId taskType validFor \<Rightarrow>
          taskOffered gen now b
            \<lparr>of_offerId = offerId, of_runnerId = runnerId, of_taskType = taskType,
             of_validFor = validFor,
             of_validUntil = (if validFor = -1 then 0 else now + validFor * 1000000)\<rparr>
      | FR_TaskDone taskId data \<Rightarrow> taskDoneHandler taskId data b
      | FR_TaskError taskId error \<Rightarrow> taskErrorHandler taskId error b
      | FR_TaskDataRequest taskId requestId params \<Rightarrow> handleDataRequest taskId requestId params b
      | FR_NodeTypesRequest taskId requestId params \<Rightarrow> handleNodeTypesRequest taskId requestId params b
      | FR_RPC callId taskId name params \<Rightarrow> handleRpcRequest taskId callId name params b
      | FR_Info name types \<Rightarrow> b)"

definition onRequesterMessage ::
  "(nat \<Rightarrow> string) \<Rightarrow> int \<Rightarrow> string \<Rightarrow> from_requester \<Rightarrow> Broker \<Rightarrow> Broker" where
  "onRequesterMessage gen now requesterId message b =
     (case message of
        FQ_TaskSettings taskId settings \<Rightarrow> handleRequesterAccept taskId settings b
      | FQ_TaskCancel taskId reason \<Rightarrow> cancelTask taskId reason b
      | FQ_TaskRequest requestId taskType \<Rightarrow>
          taskRequested gen now b
            \<lparr>rq_requestId = requestId, rq_requesterId = requesterId, rq_taskType = taskType,
             rq_acceptInProgress = False\<rparr>
      | FQ_TaskDataResponse taskId requestId data \<Rightarrow> handleRequesterDataResponse taskId requestId data b
      | FQ_NodeTypesResponse taskId requestId nodeTypes \<Rightarrow>
          handleRequesterNodeTypesResponse taskId requestId nodeTypes b
      | FQ_RPCResponse taskId callId status data \<Rightarrow> handleRequesterRpcResponse taskId callId status data b)"

section \<open>Steps\<close>

datatype broker_event =
    RegisterRunner TaskRunnerInfo
  | DeregisterRunner string string
  | RegisterRequester string
  | DeregisterRequester string
  | RunnerMessage int string from_runner
  | RequesterMessage int string from_requester
  | RunnerAcceptTimeout string
  | RequesterAcceptTimeout string
  | ResumeAccepting string
  | ResumeAwaiting string
  | ResumeFinishing string
  | TaskTimeout string

text \<open>
  The timers of the two \<open>await\<close>s settle the promise and leave the entry of the accept and reject
  functions. The timer of a task fires only if it was started and not stopped.
\<close>

definition broker_step :: "(nat \<Rightarrow> string) \<Rightarrow> broker_config \<Rightarrow> Broker \<Rightarrow> broker_event \<Rightarrow> Broker" where
  "broker_step gen cfg b e =
     (case e of
        RegisterRunner runner \<Rightarrow> registerRunner runner b
      | DeregisterRunner runnerId error \<Rightarrow> deregisterRunner runnerId error b
      | RegisterRequester requesterId \<Rightarrow> registerRequester requesterId b
      | DeregisterRequester requesterId \<Rightarrow> deregisterRequester requesterId b
      | RunnerMessage now runnerId message \<Rightarrow> onRunnerMessage gen now runnerId message b
      | RequesterMessage now requesterId message \<Rightarrow> onRequesterMessage gen now requesterId message b
      | RunnerAcceptTimeout taskId \<Rightarrow> settle_accepting taskId TimedOut b
      | RequesterAcceptTimeout taskId \<Rightarrow> settle_awaiting taskId TimedOut b
      | ResumeAccepting taskId \<Rightarrow> resume_accepting taskId b
      | ResumeAwaiting taskId \<Rightarrow> resume_awaiting taskId b
      | ResumeFinishing taskId \<Rightarrow> resume_finishing taskId b
      | TaskTimeout taskId \<Rightarrow>
          (case map_of (br_tasks b) taskId of
             Some task \<Rightarrow> if bt_timeout task then handleTaskTimeout cfg taskId b else b
           | None \<Rightarrow> b))"

definition broker_run ::
  "(nat \<Rightarrow> string) \<Rightarrow> broker_config \<Rightarrow> Broker \<Rightarrow> broker_event list \<Rightarrow> Broker" where
  "broker_run gen cfg b es = foldl (broker_step gen cfg) b es"


section \<open>Invariant of the matching\<close>

text \<open>
  The calls of \<open>acceptOffer\<close> that wait for a runner, without their promises: task id, request,
  offer. The invariant: task ids and requests are not shared between calls, each call's request
  is marked as in progress and has the type of the offer; requests have addresses given out.
\<close>

definition calls :: "Broker \<Rightarrow> (string \<times> nat \<times> TaskOffer) list" where
  "calls b = map (\<lambda>(t, c). (t, ac_request c, ac_offer c)) (br_accepting b)"

definition in_progress :: "Broker \<Rightarrow> nat \<Rightarrow> bool" where
  "in_progress b r = (\<exists>request. request_at b r = Some request \<and> rq_acceptInProgress request)"

definition type_at :: "Broker \<Rightarrow> nat \<Rightarrow> string option" where
  "type_at b r = map_option rq_taskType (request_at b r)"

definition broker_inv :: "(nat \<Rightarrow> string) \<Rightarrow> Broker \<Rightarrow> bool" where
  "broker_inv gen b \<longleftrightarrow>
     distinct (map fst (calls b)) \<and> distinct (map (\<lambda>(t, r, offer). r) (calls b)) \<and>
     (\<forall>(t, r, offer) \<in> set (calls b). t \<in> gen ` {..<br_taskCount b} \<and> in_progress b r \<and>
        type_at b r = Some (of_taskType offer)) \<and>
     (\<forall>r \<in> fst ` set (br_heap b). r < br_refCount b)"

text \<open>What the invariant depends on; most handlers leave it alone.\<close>

definition core :: "Broker \<Rightarrow> (string \<times> nat \<times> TaskOffer) list \<times> (nat, TaskRequest) js_map \<times> nat \<times> nat" where
  "core b = (calls b, br_heap b, br_taskCount b, br_refCount b)"

lemma broker_inv_core: "core b = core b' \<Longrightarrow> broker_inv gen b = broker_inv gen b'"
  by (simp add: core_def broker_inv_def in_progress_def type_at_def request_at_def)

lemma broker_inv_frame: "broker_inv gen b \<Longrightarrow> core b' = core b \<Longrightarrow> broker_inv gen b'"
  using broker_inv_core by blast

lemma core_messages [simp]:
  "core (br_send m b) = core b" "core (messageRunner b i m') = core b" "core (messageRequester b i m'') = core b"
  by (simp_all add: core_def calls_def br_send_def messageRunner_def messageRequester_def)

lemma core_updates [simp]:
  "core (b\<lparr>br_tasks := x\<rparr>) = core b" "core (b\<lparr>br_runners := x1\<rparr>) = core b"
  "core (b\<lparr>br_requesters := x2\<rparr>) = core b" "core (b\<lparr>br_pendingTaskOffers := x3\<rparr>) = core b"
  "core (b\<lparr>br_pendingTaskRequests := x4\<rparr>) = core b" "core (b\<lparr>br_awaiting := x5\<rparr>) = core b"
  "core (b\<lparr>br_finishing := x6\<rparr>) = core b" "core (b\<lparr>br_runnerAcceptRejects := x7\<rparr>) = core b"
  "core (b\<lparr>br_requesterAcceptRejects := x8\<rparr>) = core b"
  by (simp_all add: core_def calls_def)

lemma calls_same_call:
  "map_of m t = Some c \<Longrightarrow> ac_request c' = ac_request c \<Longrightarrow> ac_offer c' = ac_offer c \<Longrightarrow>
   map (\<lambda>(t, c). (t, ac_request c, ac_offer c)) (map_set t c' m) =
   map (\<lambda>(t, c). (t, ac_request c, ac_offer c)) m"
  by (induction t c' m rule: map_set.induct) (auto split: if_splits)

lemma core_settle [simp]:
  "core (settle_accepting t p b) = core b" "core (settle_awaiting t q b) = core b"
  "core (settle_runner t p b) = core b" "core (settle_requester t q b) = core b"
proof -
  show "core (settle_accepting t p b) = core b" for b
    by (auto simp: settle_accepting_def core_def calls_def calls_same_call split: option.split)
  then show "core (settle_runner t p b) = core b" by (simp add: settle_runner_def Let_def)
  show "core (settle_awaiting t q b) = core b" for b
    by (simp add: settle_awaiting_def split: option.split)
  then show "core (settle_requester t q b) = core b" by (simp add: settle_requester_def Let_def)
qed

lemma core_tasks [simp]:
  "core (cancelTask t s b) = core b" "core (failTask t err b) = core b"
  "core (set_task_timeout v task b) = core b" "core (finish_with t f b) = core b"
  "core (resume_finishing t b) = core b" "core (handleTaskTimeout cfg t b) = core b"
  "core (to_task_requester t m b) = core b"
  by (simp_all add: cancelTask_def failTask_def set_task_timeout_def finish_with_def resume_finishing_def
      handleTaskTimeout_def taskErrorHandler_def to_task_requester_def Let_def split: option.split)

lemma core_getRunner [simp]: "core (fst (getRunnerOrFailTask t b)) = core b"
  by (simp add: getRunnerOrFailTask_def Let_def split: option.split)

lemma core_sendTaskSettings [simp]: "core (fst (sendTaskSettings t s b)) = core b"
  using core_getRunner [of t b]
  by (cases "getRunnerOrFailTask t b")
    (auto simp: sendTaskSettings_def split: sum.split option.split)

lemma core_to_task_runner [simp]: "core (to_task_runner t m b) = core b"
  using core_getRunner [of t b]
  by (cases "getRunnerOrFailTask t b") (auto simp: to_task_runner_def split: sum.split)

lemma core_resume_awaiting [simp]: "core (resume_awaiting t b) = core b"
proof (cases "map_of (br_awaiting b) t")
  case (Some c)
  show ?thesis
  proof (cases "sc_promise c")
    case (Accepted settings)
    let ?b = "b\<lparr>br_awaiting := map_delete t (br_awaiting b)\<rparr>"
    have "core (fst (sendTaskSettings t settings ?b)) = core b" by simp
    with Some Accepted show ?thesis
      by (cases "sendTaskSettings t settings ?b") (auto simp: resume_awaiting_def split: option.split)
  qed (use Some in \<open>simp_all add: resume_awaiting_def\<close>)
qed (simp add: resume_awaiting_def)

lemma core_register [simp]:
  "core (registerRunner runner b) = core b" "core (registerRequester q b) = core b"
  "core (deregisterRequester q b) = core b"
  by (simp_all add: registerRunner_def registerRequester_def deregisterRequester_def)

lemma core_deregisterRunner [simp]: "core (deregisterRunner i e b) = core b"
proof -
  have "core (foldl (\<lambda>b task. if P task then handleRunnerReject (bt_id task) x (failTask (bt_id task) y b)
      else b) b ts) = core b" for P :: "BrokerTask \<Rightarrow> bool" and x y ts b
    by (induction ts arbitrary: b) (simp_all add: handleRunnerReject_def)
  then show ?thesis by (simp add: deregisterRunner_def Let_def)
qed

text \<open>The three operations that change it.\<close>

lemma acceptOffer_core:
  assumes "gen (br_taskCount b) \<notin> fst ` set (calls b)"
  shows "core (acceptOffer gen b offer r) =
    (calls b @ [(gen (br_taskCount b), r, offer)], br_heap b, Suc (br_taskCount b), br_refCount b)"
proof -
  have "gen (br_taskCount b) \<notin> fst ` set (br_accepting b)" using assms by (force simp: calls_def)
  then show ?thesis
    by (simp add: acceptOffer_def Let_def) (simp add: core_def calls_def map_set_fresh)
qed

lemma in_progress_set:
  "in_progress (set_acceptInProgress r v b) r' =
     (if r' = r \<and> request_at b r \<noteq> None then v else in_progress b r')"
  "type_at (set_acceptInProgress r v b) r' = type_at b r'"
  by (auto simp: in_progress_def type_at_def set_acceptInProgress_def request_at_def split: option.splits)

lemma request_at_key: "request_at b r = Some q \<Longrightarrow> r \<in> fst ` set (br_heap b)"
  by (force simp: request_at_def dest: map_of_SomeD)

lemma set_acceptInProgress_fields [simp]:
  "calls (set_acceptInProgress r v b) = calls b"
  "br_taskCount (set_acceptInProgress r v b) = br_taskCount b"
  "br_refCount (set_acceptInProgress r v b) = br_refCount b"
  "fst ` set (br_heap (set_acceptInProgress r v b)) = fst ` set (br_heap b)"
  by (auto simp: set_acceptInProgress_def calls_def keys_map_set split: option.split dest: request_at_key)

lemma core_fields:
  assumes "core b = (cs, h, n, k)"
  shows "calls b = cs" "br_heap b = h" "br_taskCount b = n" "br_refCount b = k"
    "in_progress b r \<longleftrightarrow> (\<exists>request. map_of h r = Some request \<and> rq_acceptInProgress request)"
    "type_at b r = map_option rq_taskType (map_of h r)"
  using assms by (simp_all add: core_def in_progress_def type_at_def request_at_def)


lemma settle_request_cases:
  assumes fresh: "gen (br_taskCount b) \<notin> fst ` set (calls b)"
  obtains "settle_request gen b r = b"
  | offer where "offer \<in> set (br_pendingTaskOffers b)" "\<not> in_progress b r"
    "type_at b r = Some (of_taskType offer)"
    "calls (settle_request gen b r) = calls b @ [(gen (br_taskCount b), r, offer)]"
    "br_taskCount (settle_request gen b r) = Suc (br_taskCount b)"
    "br_refCount (settle_request gen b r) = br_refCount b"
    "fst ` set (br_heap (settle_request gen b r)) = fst ` set (br_heap b)"
    "\<And>r'. in_progress (settle_request gen b r) r' \<longleftrightarrow> r' = r \<or> in_progress b r'"
    "\<And>r'. type_at (settle_request gen b r) r' = type_at b r'"
    "set (br_pendingTaskOffers (settle_request gen b r)) \<subseteq> set (br_pendingTaskOffers b)"
proof (cases "settle_request gen b r = b")
  case False
  then obtain rq i where rq: "request_at b r = Some rq" "\<not> rq_acceptInProgress rq"
    and i: "find_index (\<lambda>offer. of_taskType offer = rq_taskType rq) (br_pendingTaskOffers b) = Some i"
    by (auto simp: settle_request_def split: option.splits if_splits)
  let ?b1 = "set_acceptInProgress r True b"
  have same: "br_pendingTaskOffers ?b1 = br_pendingTaskOffers b"
    by (simp add: set_acceptInProgress_def split: option.split)
  let ?b2 = "?b1\<lparr>br_pendingTaskOffers := remove_at i (br_pendingTaskOffers b)\<rparr>"
  let ?o = "br_pendingTaskOffers b ! i"
  have o: "?o \<in> set (br_pendingTaskOffers b)" "of_taskType ?o = rq_taskType rq"
    using find_index_Some [OF i] by auto
  have eq: "settle_request gen b r = acceptOffer gen ?b2 ?o r"
    using rq i same by (simp add: settle_request_def Let_def)
  have "core ?b2 = core ?b1" by simp
  then have fr: "calls ?b2 = calls b" "br_taskCount ?b2 = br_taskCount b" by (simp_all add: core_def)
  have "core (acceptOffer gen ?b2 ?o r) =
      (calls b @ [(gen (br_taskCount b), r, ?o)], br_heap ?b1, Suc (br_taskCount b), br_refCount b)"
    using acceptOffer_core [of gen ?b2 ?o r] fresh unfolding fr by simp
  note c = core_fields [OF this, folded eq]
  have p: "in_progress (settle_request gen b r) r' \<longleftrightarrow> in_progress ?b1 r'"
    "type_at (settle_request gen b r) r' = type_at ?b1 r'" for r'
    unfolding c(5,6) by (simp_all add: in_progress_def type_at_def request_at_def)
  have "br_pendingTaskOffers (acceptOffer gen ?b2 ?o r) = remove_at i (br_pendingTaskOffers b)"
    by (simp add: acceptOffer_def Let_def messageRunner_def br_send_def)
  then have "set (br_pendingTaskOffers (acceptOffer gen ?b2 ?o r)) \<subseteq> set (br_pendingTaskOffers b)"
    by (simp only: set_remove_at_subset)
  then show thesis
    using that(2) [of ?o] o rq c p by (simp add: in_progress_set eq) (simp add: in_progress_def type_at_def)
qed

lemma fresh_task:
  assumes "inj gen" "broker_inv gen b"
  shows "gen (br_taskCount b) \<notin> fst ` set (calls b)"
  using assms by (fastforce simp: broker_inv_def dest: injD)

lemma settle_request_inv:
  assumes g: "inj gen" and b: "broker_inv gen b"
  shows "broker_inv gen (settle_request gen b r)"
proof (rule settle_request_cases [of gen b r])
  show "gen (br_taskCount b) \<notin> fst ` set (calls b)" by (rule fresh_task [OF g b])
next
  assume "settle_request gen b r = b"
  with b show ?thesis by simp
next
  fix offer
  assume *: "\<not> in_progress b r" "type_at b r = Some (of_taskType offer)"
    "calls (settle_request gen b r) = calls b @ [(gen (br_taskCount b), r, offer)]"
    "br_taskCount (settle_request gen b r) = Suc (br_taskCount b)"
    "br_refCount (settle_request gen b r) = br_refCount b"
    "fst ` set (br_heap (settle_request gen b r)) = fst ` set (br_heap b)"
    "\<And>r'. in_progress (settle_request gen b r) r' \<longleftrightarrow> r' = r \<or> in_progress b r'"
    "\<And>r'. type_at (settle_request gen b r) r' = type_at b r'"
  have "(t, r, o') \<notin> set (calls b)" for t o'
    using b *(1) by (fastforce simp: broker_inv_def)
  then show ?thesis using b * fresh_task [OF g b]
    by (force simp: broker_inv_def less_Suc_eq)
qed

lemma settle_requests_inv:
  "inj gen \<Longrightarrow> broker_inv gen b \<Longrightarrow> broker_inv gen (foldl (settle_request gen) b rs)"
  by (induction rs arbitrary: b) (simp_all add: settle_request_inv)

lemma settleTasks_inv:
  assumes "inj gen" "broker_inv gen b"
  shows "broker_inv gen (settleTasks gen now b)"
proof -
  have "core (expireTasks now b) = core b" by (simp add: expireTasks_def)
  then show ?thesis using settle_requests_inv [OF assms(1)] assms(2) broker_inv_core
    unfolding settleTasks_def Let_def by blast
qed

lemma new_request_inv:
  assumes b: "broker_inv gen b"
  shows "broker_inv gen (b\<lparr>br_refCount := Suc (br_refCount b),
    br_heap := map_set (br_refCount b) request (br_heap b),
    br_pendingTaskRequests := br_pendingTaskRequests b @ [br_refCount b]\<rparr>)"
proof -
  let ?b = "b\<lparr>br_refCount := Suc (br_refCount b), br_heap := map_set (br_refCount b) request (br_heap b),
     br_pendingTaskRequests := br_pendingTaskRequests b @ [br_refCount b]\<rparr>"
  have f: "calls ?b = calls b" "br_taskCount ?b = br_taskCount b" "br_refCount ?b = Suc (br_refCount b)"
    by (simp_all add: calls_def)
  have p: "in_progress ?b r = in_progress b r" "type_at ?b r = type_at b r"
    if "r \<noteq> br_refCount b" for r
    using that by (simp_all add: in_progress_def type_at_def request_at_def)
  have k: "r < br_refCount b" if "(t, r, offer) \<in> set (calls b)" for t r offer
  proof -
    have "in_progress b r" using b that by (fastforce simp: broker_inv_def)
    then have "r \<in> fst ` set (br_heap b)"
      by (auto simp: in_progress_def request_at_def dest!: map_of_SomeD) force
    then show ?thesis using b by (auto simp: broker_inv_def)
  qed
  show "broker_inv gen ?b"
    unfolding broker_inv_def f
  proof (intro conjI)
    show "\<forall>(t, r, offer) \<in> set (calls b). t \<in> gen ` {..<br_taskCount b} \<and> in_progress ?b r \<and>
        type_at ?b r = Some (of_taskType offer)"
    proof (clarify, intro conjI)
      fix t r offer
      assume c: "(t, r, offer) \<in> set (calls b)"
      then have "r \<noteq> br_refCount b" using k by blast
      with c b p show "t \<in> gen ` {..<br_taskCount b}" "in_progress ?b r"
        "type_at ?b r = Some (of_taskType offer)" by (auto simp: broker_inv_def)
    qed
  qed (use b in \<open>auto simp: broker_inv_def keys_map_set\<close>)
qed

lemma taskRequested_inv:
  assumes "inj gen" "broker_inv gen b"
  shows "broker_inv gen (taskRequested gen now b request)"
  unfolding taskRequested_def Let_def by (rule settleTasks_inv [OF assms(1) new_request_inv [OF assms(2)]])

lemma taskOffered_inv:
  "inj gen \<Longrightarrow> broker_inv gen b \<Longrightarrow> broker_inv gen (taskOffered gen now b offer)"
  unfolding taskOffered_def by (rule settleTasks_inv) (simp, erule broker_inv_frame, simp)

lemma calls_delete: "calls (b\<lparr>br_accepting := map_delete t (br_accepting b)\<rparr>) =
    filter (\<lambda>e. fst e \<noteq> t) (calls b)"
  by (simp add: calls_def map_delete_def filter_map comp_def case_prod_unfold)

lemma runner_accepted_core: "core (runner_accepted t offer request b) = core b"
  by (simp add: runner_accepted_def Let_def split: option.split)

lemma resume_accepting_core:
  assumes "map_of (br_accepting b) t = Some c" "ac_promise c \<noteq> Pending"
  shows "core (resume_accepting t b) =
    core (let b1 = b\<lparr>br_accepting := map_delete t (br_accepting b)\<rparr>
          in if \<exists>u. ac_promise c = Accepted u then b1 else set_acceptInProgress (ac_request c) False b1)"
  using assms by (cases "ac_promise c")
    (simp_all add: resume_accepting_def Let_def runner_accepted_core split: option.split)

lemma shared_request:
  assumes "broker_inv gen b" "(t, r, offer) \<in> set (calls b)" "(t', r, offer') \<in> set (calls b)"
  shows "t' = t"
proof -
  have "inj_on (\<lambda>(t, r, offer). r) (set (calls b))" using assms(1) by (simp add: broker_inv_def distinct_map)
  from inj_onD [OF this _ assms(2,3)] show ?thesis by simp
qed

lemma resume_accepting_inv:
  assumes b: "broker_inv gen b"
  shows "broker_inv gen (resume_accepting t b)"
proof (cases "map_of (br_accepting b) t")
  case None
  with b show ?thesis by (simp add: resume_accepting_def)
next
  case (Some c)
  show ?thesis
  proof (cases "ac_promise c = Pending")
    case True
    with Some b show ?thesis by (simp add: resume_accepting_def)
  next
    case False
    let ?b1 = "b\<lparr>br_accepting := map_delete t (br_accepting b)\<rparr>"
    have mem: "(t, ac_request c, ac_offer c) \<in> set (calls b)"
      using Some by (force simp: calls_def dest: map_of_SomeD)
    have b1: "broker_inv gen ?b1"
      using b unfolding broker_inv_def calls_delete
      by (auto simp: distinct_map_filter in_progress_def type_at_def request_at_def)
    have other: "r \<noteq> ac_request c" if "(t', r, offer) \<in> set (calls ?b1)" for t' r offer
      using that shared_request [OF b mem] unfolding calls_delete by fastforce
    have "broker_inv gen (set_acceptInProgress (ac_request c) False ?b1)"
    proof -
      have "in_progress (set_acceptInProgress (ac_request c) False ?b1) r = in_progress ?b1 r"
        if "(t', r, offer) \<in> set (calls ?b1)" for t' r offer
        using other [OF that] by (simp add: in_progress_set)
      then show ?thesis using b1
        unfolding broker_inv_def set_acceptInProgress_fields in_progress_set(2) by blast
    qed
    with b1 have "broker_inv gen (let b1 = ?b1 in if \<exists>u. ac_promise c = Accepted u then b1
        else set_acceptInProgress (ac_request c) False b1)" by (simp add: Let_def)
    then show ?thesis using broker_inv_core [OF resume_accepting_core [OF Some False]] by blast
  qed
qed

lemma onRunnerMessage_inv:
  "inj gen \<Longrightarrow> broker_inv gen b \<Longrightarrow> broker_inv gen (onRunnerMessage gen now i m b)"
  by (cases m) (auto simp: onRunnerMessage_def taskOffered_inv handleRunnerAccept_def handleRunnerReject_def
      handleRunnerDeferred_def taskDoneHandler_def taskErrorHandler_def handleDataRequest_def
      handleNodeTypesRequest_def handleRpcRequest_def elim!: broker_inv_frame)

lemma onRequesterMessage_inv:
  "inj gen \<Longrightarrow> broker_inv gen b \<Longrightarrow> broker_inv gen (onRequesterMessage gen now i m b)"
  by (cases m) (auto simp: onRequesterMessage_def taskRequested_inv handleRequesterAccept_def
      handleRequesterRpcResponse_def handleRequesterDataResponse_def
      handleRequesterNodeTypesResponse_def elim!: broker_inv_frame)

lemma broker_step_inv:
  "inj gen \<Longrightarrow> broker_inv gen b \<Longrightarrow> broker_inv gen (broker_step gen cfg b e)"
  by (cases e) (auto simp: broker_step_def onRunnerMessage_inv onRequesterMessage_inv resume_accepting_inv
      elim!: broker_inv_frame split: option.split)


text \<open>The machine: its ids come from a generator that does not repeat.\<close>

interpretation broker_machine: invariant_machine "broker_step (if inj gen then gen else nat_str) cfg"
  "broker_inv (if inj gen then gen else nat_str)" for gen cfg
proof
  fix b e
  have "inj (if inj gen then gen else nat_str)"
    using inj_on_def [of nat_str UNIV] nat_str_inj by auto
  then show "broker_inv (if inj gen then gen else nat_str) b \<Longrightarrow>
      broker_inv (if inj gen then gen else nat_str) (broker_step (if inj gen then gen else nat_str) cfg b e)"
    by (rule broker_step_inv)
qed

lemma new_broker_inv: "new_broker cfg = Inr b \<Longrightarrow> broker_inv gen b"
  by (auto simp: new_broker_def broker_inv_def calls_def split: if_splits)

lemma broker_run_inv:
  assumes "inj gen" "broker_inv gen b"
  shows "broker_inv gen (broker_run gen cfg b events)"
  using broker_machine.run_inv [of gen b cfg events] assms by (simp add: broker_run_def)

section \<open>A request that was accepted stays accepted\<close>

definition taken :: "nat \<Rightarrow> Broker \<Rightarrow> bool" where
  "taken r b \<longleftrightarrow> in_progress b r \<and> (\<forall>(t, r', offer) \<in> set (calls b). r' \<noteq> r)"

lemma taken_frame: "taken r b \<Longrightarrow> core b' = core b \<Longrightarrow> taken r b'"
  by (simp add: taken_def core_def in_progress_def request_at_def)

lemma settle_request_taken:
  assumes "inj gen" "broker_inv gen b" "taken r b"
  shows "taken r (settle_request gen b r')"
proof (rule settle_request_cases [of gen b r'])
  show "gen (br_taskCount b) \<notin> fst ` set (calls b)" by (rule fresh_task [OF assms(1,2)])
qed (use assms(3) in \<open>auto simp: taken_def\<close>)

lemma settle_requests_taken:
  "inj gen \<Longrightarrow> broker_inv gen b \<Longrightarrow> taken r b \<Longrightarrow> taken r (foldl (settle_request gen) b rs)"
  by (induction rs arbitrary: b) (simp_all add: settle_request_taken settle_request_inv)

lemma settleTasks_taken:
  assumes "inj gen" "broker_inv gen b" "taken r b"
  shows "taken r (settleTasks gen now b)"
proof -
  have c: "core (expireTasks now b) = core b" by (simp add: expireTasks_def)
  show ?thesis unfolding settleTasks_def Let_def
    by (rule settle_requests_taken [OF assms(1) broker_inv_frame [OF assms(2) c] taken_frame [OF assms(3) c]])
qed

lemma resume_accepting_taken:
  assumes b: "broker_inv gen b" and r: "taken r b"
  shows "taken r (resume_accepting t b)"
proof (cases "map_of (br_accepting b) t")
  case None
  with r show ?thesis by (simp add: resume_accepting_def)
next
  case (Some c)
  show ?thesis
  proof (cases "ac_promise c = Pending")
    case True
    with Some r show ?thesis by (simp add: resume_accepting_def)
  next
    case False
    let ?b1 = "b\<lparr>br_accepting := map_delete t (br_accepting b)\<rparr>"
    have "(t, ac_request c, ac_offer c) \<in> set (calls b)"
      using Some by (force simp: calls_def dest: map_of_SomeD)
    then have "ac_request c \<noteq> r" using r by (auto simp: taken_def)
    moreover have "taken r ?b1"
      using r by (auto simp: taken_def calls_delete in_progress_def request_at_def)
    ultimately have "taken r (let b1 = ?b1 in if \<exists>u. ac_promise c = Accepted u then b1
        else set_acceptInProgress (ac_request c) False b1)"
      by (simp add: taken_def in_progress_set Let_def)
    then show ?thesis by (rule taken_frame) (rule resume_accepting_core [OF Some False])
  qed
qed

lemma taken_old: "broker_inv gen b \<Longrightarrow> taken r b \<Longrightarrow> r \<noteq> br_refCount b"
  by (auto simp: taken_def in_progress_def broker_inv_def dest!: request_at_key)

lemma taskRequested_taken:
  assumes "inj gen" "broker_inv gen b" "taken r b"
  shows "taken r (taskRequested gen now b request)"
proof -
  let ?b = "b\<lparr>br_refCount := Suc (br_refCount b), br_heap := map_set (br_refCount b) request (br_heap b),
     br_pendingTaskRequests := br_pendingTaskRequests b @ [br_refCount b]\<rparr>"
  have n: "r \<noteq> br_refCount b" using taken_old assms(2,3) by blast
  have "broker_inv gen ?b" by (rule new_request_inv [OF assms(2)])
  moreover have "taken r ?b"
    using assms(3) n by (simp add: taken_def in_progress_def request_at_def calls_def)
  ultimately show ?thesis unfolding taskRequested_def Let_def by (rule settleTasks_taken [OF assms(1)])
qed

lemma taskOffered_taken:
  "inj gen \<Longrightarrow> broker_inv gen b \<Longrightarrow> taken r b \<Longrightarrow> taken r (taskOffered gen now b offer)"
  unfolding taskOffered_def
  by (rule settleTasks_taken) (simp, erule broker_inv_frame, simp, erule taken_frame, simp)

lemma broker_step_taken:
  assumes "inj gen" "broker_inv gen b" "taken r b"
  shows "taken r (broker_step gen cfg b e)"
proof -
  have "taken r (onRunnerMessage gen now i m b)" for now i m
    by (cases m) (use assms in \<open>auto simp: onRunnerMessage_def taskOffered_taken handleRunnerAccept_def
      handleRunnerReject_def handleRunnerDeferred_def taskDoneHandler_def taskErrorHandler_def
      handleDataRequest_def handleNodeTypesRequest_def handleRpcRequest_def elim!: taken_frame\<close>)
  moreover have "taken r (onRequesterMessage gen now i m b)" for now i m
    by (cases m) (use assms in \<open>auto simp: onRequesterMessage_def taskRequested_taken handleRequesterAccept_def
      handleRequesterRpcResponse_def handleRequesterDataResponse_def
      handleRequesterNodeTypesResponse_def elim!: taken_frame\<close>)
  ultimately show ?thesis
    using assms resume_accepting_taken [OF assms(2,3)]
    by (cases e) (auto simp: broker_step_def elim!: taken_frame split: option.split)
qed

lemma broker_run_taken:
  assumes "inj gen" "broker_inv gen b" "taken r b"
  shows "taken r (broker_run gen cfg b events)"
  using assms
proof (induction events arbitrary: b)
  case Nil
  then show ?case by (simp add: broker_run_def)
next
  case (Cons e events)
  have "taken r (broker_run gen cfg (broker_step gen cfg b e) events)"
    using Cons broker_step_inv broker_step_taken by blast
  then show ?case by (simp add: broker_run_def)
qed

lemma accepted_taken:
  assumes b: "broker_inv gen b" and c: "map_of (br_accepting b) t = Some c" "ac_promise c = Accepted u"
  shows "taken (ac_request c) (resume_accepting t b)"
proof -
  let ?b1 = "b\<lparr>br_accepting := map_delete t (br_accepting b)\<rparr>"
  have mem: "(t, ac_request c, ac_offer c) \<in> set (calls b)"
    using c by (force simp: calls_def dest: map_of_SomeD)
  have "in_progress b (ac_request c)" using b mem by (auto simp: broker_inv_def)
  moreover have "r \<noteq> ac_request c" if "(t', r, offer) \<in> set (calls ?b1)" for t' r offer
    using that shared_request [OF b mem] unfolding calls_delete by fastforce
  ultimately have "taken (ac_request c) ?b1"
    by (auto simp: taken_def in_progress_def request_at_def)
  moreover have "core (resume_accepting t b) = core ?b1"
    using resume_accepting_core [OF c(1)] c(2) by (simp add: Let_def)
  ultimately show ?thesis by (rule taken_frame)
qed

section \<open>Properties\<close>

text \<open>C16: in every run no request is being accepted by two runners at the same time, and a request is
  only ever matched with an offer for its task type (ids are taken not to repeat, as \<open>nanoid\<close>'s).\<close>

theorem broker_matching:
  assumes "inj gen" "new_broker cfg = Inr b"
  shows "distinct (map (\<lambda>(t, r, offer). r) (calls (broker_run gen cfg b events))) \<and>
    list_all (\<lambda>(t, r, offer). type_at (broker_run gen cfg b events) r = Some (of_taskType offer))
      (calls (broker_run gen cfg b events))"
  using broker_run_inv [OF assms(1) new_broker_inv [OF assms(2)], of cfg events]
  by (auto simp: broker_inv_def list_all_iff)

definition sample_broker_config :: broker_config where
  "sample_broker_config = \<lparr>bc_taskTimeout = 60, bc_internal = True, bc_selfHosted = True\<rparr>"

definition sample_broker :: Broker where
  "sample_broker = \<lparr>br_runners = [], br_requesters = [], br_tasks = [], br_runnerAcceptRejects = [],
     br_requesterAcceptRejects = [], br_pendingTaskOffers = [], br_pendingTaskRequests = [], br_heap = [],
     br_accepting = [], br_awaiting = [], br_finishing = [], br_taskCount = 0, br_refCount = 0, br_out = []\<rparr>"

definition offer_and_request :: "broker_event list" where
  "offer_and_request =
     [RegisterRunner \<lparr>tr_id = ''r'', tr_name = ''R'', tr_taskTypes = [''js'']\<rparr>, RegisterRequester ''q'',
      RunnerMessage 0 ''r'' (FR_TaskOffer ''o1'' ''js'' (-1)),
      RequesterMessage 0 ''q'' (FQ_TaskRequest ''req'' ''js'')]"

theorem broker_matching_witness:
  "distinct (map (\<lambda>(t, r, offer). r) (calls (broker_run nat_str sample_broker_config sample_broker offer_and_request)))"
  using broker_matching [of nat_str sample_broker_config sample_broker offer_and_request]
  by (simp add: inj_def) (simp add: new_broker_def sample_broker_config_def sample_broker_def)

text \<open>Once a runner has accepted a request, no later event, in whatever order events come, gives
  that request to a runner again.\<close>

theorem accepted_request_never_rematched:
  assumes "inj gen" "broker_inv gen b" "map_of (br_accepting b) t = Some c" "ac_promise c = Accepted ()"
  shows "ac_request c \<notin> (\<lambda>(t, r, offer). r) ` set (calls (broker_run gen cfg (resume_accepting t b) events))"
  using broker_run_taken [OF assms(1) resume_accepting_inv [OF assms(2)] accepted_taken [OF assms(2-4)],
      of cfg events]
  by (auto simp: taken_def)

definition accepted_broker :: Broker where
  "accepted_broker = broker_run nat_str sample_broker_config sample_broker
     (offer_and_request @ [RunnerMessage 0 ''r'' (FR_TaskAccepted ''0'')])"

lemma inj_nat_str: "inj nat_str"
  by (simp add: inj_def)

lemma sample_broker_inv: "broker_inv nat_str sample_broker"
  by (simp add: broker_inv_def sample_broker_def calls_def)

theorem accepted_request_never_rematched_witness:
  "0 \<notin> (\<lambda>(t, r, offer). r) ` set (calls (broker_run nat_str sample_broker_config
     (resume_accepting ''0'' accepted_broker) offer_and_request))"
proof -
  let ?c = "\<lparr>ac_offer = \<lparr>of_offerId = ''o1'', of_runnerId = ''r'', of_taskType = ''js'', of_validFor = -1,
      of_validUntil = 0\<rparr>, ac_request = 0, ac_promise = Accepted ()\<rparr>"
  have "map_of (br_accepting accepted_broker) ''0'' = Some ?c" by code_simp
  moreover have "broker_inv nat_str accepted_broker"
    unfolding accepted_broker_def by (rule broker_run_inv [OF inj_nat_str sample_broker_inv])
  ultimately show ?thesis
    using accepted_request_never_rematched [OF inj_nat_str, of accepted_broker "''0''" ?c] by simp
qed

text \<open>An offer that has expired is never matched: every call that a settlement of tasks starts at
  time \<open>now\<close> is for an offer still valid then.\<close>

theorem settleTasks_no_expired_offer:
  assumes "inj gen" "broker_inv gen b" "(t, r, offer) \<in> set (calls (settleTasks gen now b)) - set (calls b)"
  shows "\<not> offer_expired now offer"
proof -
  have "\<forall>e \<in> set (calls (foldl (settle_request gen) b' rs)) - set (calls b').
      snd (snd e) \<in> set (br_pendingTaskOffers b')" if "broker_inv gen b'" for b' rs
    using that
  proof (induction rs arbitrary: b')
    case Nil
    then show ?case by simp
  next
    case (Cons r rs)
    let ?b = "settle_request gen b' r"
    have IH: "\<forall>e \<in> set (calls (foldl (settle_request gen) ?b rs)) - set (calls ?b).
        snd (snd e) \<in> set (br_pendingTaskOffers ?b)"
      by (rule Cons.IH) (rule settle_request_inv [OF assms(1) Cons.prems])
    show ?case
    proof (rule settle_request_cases [of gen b' r])
      show "gen (br_taskCount b') \<notin> fst ` set (calls b')" by (rule fresh_task [OF assms(1) Cons.prems])
    qed (use IH in auto)
  qed
  moreover have c: "core (expireTasks now b) = core b" by (simp add: expireTasks_def)
  ultimately have "offer \<in> set (br_pendingTaskOffers (expireTasks now b))"
    using assms(3) broker_inv_frame [OF assms(2) c] unfolding settleTasks_def Let_def
    by (force simp: core_def)
  then show ?thesis by (simp add: expireTasks_def)
qed

definition waiting_broker :: Broker where
  "waiting_broker = sample_broker
     \<lparr>br_pendingTaskOffers :=
        [\<lparr>of_offerId = ''old'', of_runnerId = ''r'', of_taskType = ''js'', of_validFor = 1, of_validUntil = 4\<rparr>,
         \<lparr>of_offerId = ''new'', of_runnerId = ''r'', of_taskType = ''js'', of_validFor = 1, of_validUntil = 9\<rparr>],
      br_pendingTaskRequests := [0], br_refCount := 1,
      br_heap := [(0, \<lparr>rq_requestId = ''req'', rq_requesterId = ''q'', rq_taskType = ''js'',
        rq_acceptInProgress = False\<rparr>)]\<rparr>"

theorem settleTasks_no_expired_offer_witness:
  "\<not> offer_expired 5 \<lparr>of_offerId = ''new'', of_runnerId = ''r'', of_taskType = ''js'', of_validFor = 1,
     of_validUntil = 9\<rparr>"
proof (rule settleTasks_no_expired_offer [OF inj_nat_str])
  show "broker_inv nat_str waiting_broker"
    by (simp add: waiting_broker_def broker_inv_def sample_broker_def calls_def)
  have "calls (settleTasks nat_str 5 waiting_broker) = [(''0'', 0, \<lparr>of_offerId = ''new'', of_runnerId = ''r'',
      of_taskType = ''js'', of_validFor = 1, of_validUntil = 9\<rparr>)]" by code_simp
  moreover have "calls waiting_broker = []" by code_simp
  ultimately show "(''0'', 0, \<lparr>of_offerId = ''new'', of_runnerId = ''r'', of_taskType = ''js'',
      of_validFor = 1, of_validUntil = 9\<rparr>) \<in> set (calls (settleTasks nat_str 5 waiting_broker)) -
      set (calls waiting_broker)" by simp
qed

text \<open>A request that a runner defers is pushed to the pending requests although it is still there.
  When it is accepted later, one of the two entries remains, marked as in progress for good.\<close>

theorem deferral_duplicates_request:
  "br_pendingTaskRequests (broker_run nat_str sample_broker_config sample_broker
     (offer_and_request @ [RunnerMessage 0 ''r'' (FR_TaskDeferred ''0''), ResumeAccepting ''0''])) = [0, 0] \<and>
   (let b = broker_run nat_str sample_broker_config sample_broker
      (offer_and_request @ [RunnerMessage 0 ''r'' (FR_TaskDeferred ''0''), ResumeAccepting ''0'',
       RunnerMessage 0 ''r'' (FR_TaskOffer ''o2'' ''js'' (-1)), RunnerMessage 0 ''r'' (FR_TaskAccepted ''1''),
       ResumeAccepting ''1''])
    in br_pendingTaskRequests b = [0] \<and> in_progress b 0 \<and> map_keys (br_tasks b) = [''1''])"
  unfolding in_progress_def Let_def
  by (intro conjI exI [of _ "\<lparr>rq_requestId = ''req'', rq_requesterId = ''q'', rq_taskType = ''js'',
        rq_acceptInProgress = True\<rparr>"]) code_simp+

text \<open>\<open>handleResponse\<close> addresses the runner with the requester's id: with a runner \<open>r\<close> that works
  on a task for the requester \<open>q\<close>, the data reaches nobody.\<close>

theorem handleResponse_lost:
  "handleResponse ''0'' ''d'' data (resume_accepting ''0'' accepted_broker) =
     resume_accepting ''0'' accepted_broker \<and>
   map_keys (br_tasks (resume_accepting ''0'' accepted_broker)) = [''0''] \<and>
   map_keys (br_runners (resume_accepting ''0'' accepted_broker)) = [''r'']"
proof (intro conjI)
  have t: "map_of (br_tasks (resume_accepting ''0'' accepted_broker)) ''0'' =
      Some \<lparr>bt_id = ''0'', bt_runnerId = ''r'', bt_requesterId = ''q'', bt_taskType = ''js'', bt_timeout = False\<rparr>"
    by code_simp
  show r: "map_keys (br_runners (resume_accepting ''0'' accepted_broker)) = [''r'']" by code_simp
  then have "\<not> map_has (br_runners (resume_accepting ''0'' accepted_broker)) ''q''"
    by (simp flip: list.set_map)
  then show "handleResponse ''0'' ''d'' data (resume_accepting ''0'' accepted_broker) =
      resume_accepting ''0'' accepted_broker"
    by (simp add: handleResponse_def t messageRunner_def)
  show "map_keys (br_tasks (resume_accepting ''0'' accepted_broker)) = [''0'']" by code_simp
qed

end
