(* ===== verification/TaskRunner.thy ===== *)
theory TaskRunner
  imports TaskMessages
begin

text \<open>
  A task runner (\<open>packages/@n8n/task-runner/src/task-runner.ts\<close> and \<open>task-state.ts\<close>): it offers
  slots to the broker, takes tasks, runs them and reports their end, with cancellation and timeouts.

  The execution of a task is code of the subclasses; the model has an event for its outcome. The
  state is the object's fields; what is sent or emitted is recorded in \<open>rn_out\<close>. Requests that wait
  for an answer are maps from request id to the task (or the call) that waits, and a settled
  promise shows as an entry of \<open>rn_settled\<close>.
\<close>

section \<open>Task state\<close>

datatype TaskStatus = WaitingForSettings | Running | AbortingCancelled | AbortingTimeout

record TaskState =
  ts_taskId :: string
  ts_status :: TaskStatus
  ts_timer :: bool
  ts_aborted :: "string option"

definition new_TaskState :: "string \<Rightarrow> TaskState" where
  "new_TaskState taskId =
     \<lparr>ts_taskId = taskId, ts_status = WaitingForSettings, ts_timer = True, ts_aborted = None\<rparr>"

definition cleanup :: "TaskState \<Rightarrow> TaskState" where
  "cleanup ts = ts\<lparr>ts_timer := False\<rparr>"

section \<open>The runner\<close>

datatype settled_promise =
    Resolved string json
  | RejectedValue string json
  | RejectedCancelled string string

datatype runner_out =
    Send from_runner
  | ReachedIdleTimeout
  | Unexpected string TaskStatus  \<comment> \<open>\<open>throwUnexpectedTaskStatus\<close>\<close>

record runner_config =
  rc_name :: string
  rc_taskType :: string
  rc_maxConcurrency :: nat
  rc_taskTimeout :: int
  rc_idleTimeout :: nat

record TaskRunner =
  rn_canSendOffers :: bool
  rn_runningTasks :: "(string, TaskState) js_map"
  rn_offerInterval :: bool
  rn_openOffers :: "(string, int) js_map"  \<comment> \<open>offer id, valid until (ns)\<close>
  rn_dataRequests :: "(string, string) js_map"
  rn_nodeTypesRequests :: "(string, string) js_map"
  rn_rpcCalls :: "string js_set"
  rn_idleTimer :: bool
  rn_idCount :: nat
  rn_settled :: "settled_promise list"
  rn_out :: "runner_out list"

text \<open>The clock, a random number for each offer, and the generator of ids, from outside.\<close>

record runner_env =
  env_now :: int
  env_random :: "nat \<Rightarrow> int"
  env_id :: "nat \<Rightarrow> string"

definition OFFER_VALID_TIME_MS :: int where "OFFER_VALID_TIME_MS = 5000"

definition OFFER_VALID_EXTRA_MS :: int where "OFFER_VALID_EXTRA_MS = 100"

definition msToNs :: "int \<Rightarrow> int" where "msToNs ms = ms * 1000000"

definition rn_send :: "from_runner \<Rightarrow> TaskRunner \<Rightarrow> TaskRunner" where
  "rn_send m r = r\<lparr>rn_out := rn_out r @ [Send m]\<rparr>"

definition resetIdleTimer :: "runner_config \<Rightarrow> TaskRunner \<Rightarrow> TaskRunner" where
  "resetIdleTimer cfg r = (if rc_idleTimeout cfg = 0 then r else r\<lparr>rn_idleTimer := True\<rparr>)"

definition clearIdleTimer :: "TaskRunner \<Rightarrow> TaskRunner" where
  "clearIdleTimer r = r\<lparr>rn_idleTimer := False\<rparr>"

definition new_TaskRunner :: "runner_config \<Rightarrow> TaskRunner" where
  "new_TaskRunner cfg = resetIdleTimer cfg
     \<lparr>rn_canSendOffers = False, rn_runningTasks = [], rn_offerInterval = False,
      rn_openOffers = [], rn_dataRequests = [], rn_nodeTypesRequests = [], rn_rpcCalls = [],
      rn_idleTimer = False, rn_idCount = 0, rn_settled = [], rn_out = []\<rparr>"

definition idle_timer_fires :: "TaskRunner \<Rightarrow> TaskRunner" where
  "idle_timer_fires r =
     (if rn_idleTimer r \<and> length (rn_runningTasks r) = 0
      then r\<lparr>rn_out := rn_out r @ [ReachedIdleTimeout]\<rparr> else r)"

definition stopTaskOffers :: "TaskRunner \<Rightarrow> TaskRunner" where
  "stopTaskOffers r = r\<lparr>rn_canSendOffers := False, rn_offerInterval := False\<rparr>"

definition startTaskOffers :: "TaskRunner \<Rightarrow> TaskRunner" where
  "startTaskOffers r = r\<lparr>rn_canSendOffers := True, rn_offerInterval := True\<rparr>"

section \<open>Offers\<close>

definition deleteStaleOffers :: "runner_env \<Rightarrow> TaskRunner \<Rightarrow> TaskRunner" where
  "deleteStaleOffers env r =
     r\<lparr>rn_openOffers := filter (\<lambda>(key, validUntil). \<not> validUntil < env_now env) (rn_openOffers r)\<rparr>"

definition send_offer :: "runner_config \<Rightarrow> runner_env \<Rightarrow> TaskRunner \<Rightarrow> nat \<Rightarrow> TaskRunner" where
  "send_offer cfg env r i =
     (let validForInMs = OFFER_VALID_TIME_MS + env_random env (rn_idCount r);
          validUntil = env_now env + msToNs (validForInMs + OFFER_VALID_EXTRA_MS);
          offerId = env_id env (rn_idCount r)
      in rn_send (FR_TaskOffer offerId (rc_taskType cfg) validForInMs)
           (r\<lparr>rn_idCount := Suc (rn_idCount r),
              rn_openOffers := map_set offerId validUntil (rn_openOffers r)\<rparr>))"

definition sendOffers :: "runner_config \<Rightarrow> runner_env \<Rightarrow> TaskRunner \<Rightarrow> TaskRunner" where
  "sendOffers cfg env r =
     (let r1 = deleteStaleOffers env r in
      if \<not> rn_canSendOffers r1 then r1
      else
        let offersToSend =
              rc_maxConcurrency cfg - (length (rn_openOffers r1) + length (rn_runningTasks r1))
        in foldl (send_offer cfg env) r1 [0..<offersToSend])"

section \<open>Tasks\<close>

definition hasOpenTasks :: "runner_config \<Rightarrow> TaskRunner \<Rightarrow> bool" where
  "hasOpenTasks cfg r = (length (rn_runningTasks r) < rc_maxConcurrency cfg)"

definition offerAccepted :: "runner_config \<Rightarrow> string \<Rightarrow> string \<Rightarrow> TaskRunner \<Rightarrow> TaskRunner" where
  "offerAccepted cfg offerId taskId r =
     (if \<not> hasOpenTasks cfg r then
        rn_send (FR_TaskRejected taskId ''No open task slots'')
          (r\<lparr>rn_openOffers := map_delete offerId (rn_openOffers r)\<rparr>)
      else case map_of (rn_openOffers r) offerId of
        None \<Rightarrow> rn_send (FR_TaskRejected taskId ''Offer expired and no open task slots'') r
      | Some offer \<Rightarrow>
          let r1 = r\<lparr>rn_openOffers := map_delete offerId (rn_openOffers r)\<rparr>;
              r2 = resetIdleTimer cfg r1;
              r3 = r2\<lparr>rn_runningTasks := map_set taskId (new_TaskState taskId) (rn_runningTasks r2)\<rparr>
          in rn_send (FR_TaskAccepted taskId) r3)"

definition finishTask :: "runner_config \<Rightarrow> runner_env \<Rightarrow> TaskState \<Rightarrow> TaskRunner \<Rightarrow> TaskRunner" where
  "finishTask cfg env ts r =
     (let ts' = cleanup ts;
          r1 = r\<lparr>rn_runningTasks := map_delete (ts_taskId ts') (rn_runningTasks r)\<rparr>
      in resetIdleTimer cfg (sendOffers cfg env r1))"

text \<open>Rejects and forgets the requests of a task.\<close>

definition cancelTaskRequests :: "string \<Rightarrow> string \<Rightarrow> TaskRunner \<Rightarrow> TaskRunner" where
  "cancelTaskRequests taskId reason r =
     (let rejections = (\<lambda>m. map (\<lambda>(requestId, t). RejectedCancelled requestId reason)
                               (filter (\<lambda>(requestId, t). t = taskId) m));
          others = (\<lambda>m. filter (\<lambda>(requestId, t). t \<noteq> taskId) m)
      in r\<lparr>rn_settled := rn_settled r @ rejections (rn_dataRequests r)
                           @ rejections (rn_nodeTypesRequests r),
           rn_dataRequests := others (rn_dataRequests r),
           rn_nodeTypesRequests := others (rn_nodeTypesRequests r)\<rparr>)"

definition abort_task :: "TaskState \<Rightarrow> TaskStatus \<Rightarrow> string \<Rightarrow> TaskRunner \<Rightarrow> TaskRunner" where
  "abort_task ts status signal r =
     r\<lparr>rn_runningTasks := map_set (ts_taskId ts)
         (ts\<lparr>ts_status := status, ts_aborted := Some signal\<rparr>) (rn_runningTasks r)\<rparr>"

definition unexpected_status :: "TaskState \<Rightarrow> TaskRunner \<Rightarrow> TaskRunner" where
  "unexpected_status ts r = r\<lparr>rn_out := rn_out r @ [Unexpected (ts_taskId ts) (ts_status ts)]\<rparr>"

definition taskCancelled :: "runner_config \<Rightarrow> runner_env \<Rightarrow> string \<Rightarrow> string \<Rightarrow> TaskRunner \<Rightarrow> TaskRunner" where
  "taskCancelled cfg env taskId reason r =
     (case map_of (rn_runningTasks r) taskId of
        None \<Rightarrow> r
      | Some ts \<Rightarrow>
          (case ts_status ts of
             WaitingForSettings \<Rightarrow> finishTask cfg env ts r
           | AbortingTimeout \<Rightarrow> r
           | AbortingCancelled \<Rightarrow> r
           | Running \<Rightarrow>
               cancelTaskRequests taskId reason (abort_task ts AbortingCancelled ''cancelled'' r)))"

definition timeout_message :: "int \<Rightarrow> task_error" where
  "timeout_message seconds = TimeoutError seconds"

definition taskTimedOut :: "runner_config \<Rightarrow> runner_env \<Rightarrow> string \<Rightarrow> TaskRunner \<Rightarrow> TaskRunner" where
  "taskTimedOut cfg env taskId r =
     (case map_of (rn_runningTasks r) taskId of
        None \<Rightarrow> r
      | Some ts \<Rightarrow>
          (case ts_status ts of
             WaitingForSettings \<Rightarrow>
               finishTask cfg env ts
                 (rn_send (FR_TaskError taskId (timeout_message (rc_taskTimeout cfg))) r)
           | AbortingTimeout \<Rightarrow> unexpected_status ts r
           | Running \<Rightarrow>
               cancelTaskRequests taskId ''timeout'' (abort_task ts AbortingTimeout ''timeout'' r)
           | AbortingCancelled \<Rightarrow> r))"

text \<open>\<open>receivedSettings\<close> up to the call of \<open>executeTask\<close>, whose outcome is an event of its own.\<close>

definition receivedSettings :: "string \<Rightarrow> json \<Rightarrow> TaskRunner \<Rightarrow> TaskRunner" where
  "receivedSettings taskId settings r =
     (case map_of (rn_runningTasks r) taskId of
        None \<Rightarrow> r
      | Some ts \<Rightarrow>
          (case ts_status ts of
             AbortingCancelled \<Rightarrow> unexpected_status ts r
           | AbortingTimeout \<Rightarrow> unexpected_status ts r
           | Running \<Rightarrow> unexpected_status ts r
           | WaitingForSettings \<Rightarrow>
               r\<lparr>rn_runningTasks := map_set taskId (ts\<lparr>ts_status := Running\<rparr>) (rn_runningTasks r)\<rparr>))"

definition taskExecutionFailed ::
  "runner_config \<Rightarrow> runner_env \<Rightarrow> TaskState \<Rightarrow> task_error \<Rightarrow> TaskRunner \<Rightarrow> TaskRunner" where
  "taskExecutionFailed cfg env ts error r =
     finishTask cfg env ts
       (case ts_status ts of
          WaitingForSettings \<Rightarrow> unexpected_status ts r
        | AbortingCancelled \<Rightarrow> r
        | AbortingTimeout \<Rightarrow> rn_send (FR_TaskError (ts_taskId ts) error) r
        | Running \<Rightarrow> rn_send (FR_TaskError (ts_taskId ts) error) r)"

definition taskExecutionSucceeded ::
  "runner_config \<Rightarrow> runner_env \<Rightarrow> TaskState \<Rightarrow> json \<Rightarrow> TaskRunner \<Rightarrow> TaskRunner" where
  "taskExecutionSucceeded cfg env ts data r =
     finishTask cfg env ts
       (case ts_status ts of
          WaitingForSettings \<Rightarrow> unexpected_status ts r
        | AbortingCancelled \<Rightarrow> r
        | AbortingTimeout \<Rightarrow> rn_send (FR_TaskDone (ts_taskId ts) data) r
        | Running \<Rightarrow> rn_send (FR_TaskDone (ts_taskId ts) data) r)"

section \<open>Requests of a task\<close>

definition requestNodeTypes :: "runner_env \<Rightarrow> string \<Rightarrow> json \<Rightarrow> TaskRunner \<Rightarrow> TaskRunner" where
  "requestNodeTypes env taskId requestParams r =
     (let requestId = env_id env (rn_idCount r)
      in rn_send (FR_NodeTypesRequest taskId requestId requestParams)
           (r\<lparr>rn_idCount := Suc (rn_idCount r),
              rn_nodeTypesRequests := map_set requestId taskId (rn_nodeTypesRequests r)\<rparr>))"

definition requestData :: "runner_env \<Rightarrow> string \<Rightarrow> json \<Rightarrow> TaskRunner \<Rightarrow> TaskRunner" where
  "requestData env taskId requestParams r =
     (let requestId = env_id env (rn_idCount r)
      in rn_send (FR_TaskDataRequest taskId requestId requestParams)
           (r\<lparr>rn_idCount := Suc (rn_idCount r),
              rn_dataRequests := map_set requestId taskId (rn_dataRequests r)\<rparr>))"

definition makeRpcCall :: "runner_env \<Rightarrow> string \<Rightarrow> string \<Rightarrow> json \<Rightarrow> TaskRunner \<Rightarrow> TaskRunner" where
  "makeRpcCall env taskId name params r =
     (let callId = env_id env (rn_idCount r)
      in rn_send (FR_RPC callId taskId name params)
           (r\<lparr>rn_idCount := Suc (rn_idCount r), rn_rpcCalls := set_add callId (rn_rpcCalls r)\<rparr>))"

text \<open>
  An answer resolves the promise; the \<open>finally\<close> block of the request then deletes the entry. The
  model does both in one step, as no other handler reads the entry in between.
\<close>

definition processDataResponse :: "string \<Rightarrow> json \<Rightarrow> TaskRunner \<Rightarrow> TaskRunner" where
  "processDataResponse requestId data r =
     (case map_of (rn_dataRequests r) requestId of
        None \<Rightarrow> r
      | Some _ \<Rightarrow> r\<lparr>rn_settled := rn_settled r @ [Resolved requestId data],
                    rn_dataRequests := map_delete requestId (rn_dataRequests r)\<rparr>)"

definition processNodeTypesResponse :: "string \<Rightarrow> json \<Rightarrow> TaskRunner \<Rightarrow> TaskRunner" where
  "processNodeTypesResponse requestId nodeTypes r =
     (case map_of (rn_nodeTypesRequests r) requestId of
        None \<Rightarrow> r
      | Some _ \<Rightarrow> r\<lparr>rn_settled := rn_settled r @ [Resolved requestId nodeTypes],
                    rn_nodeTypesRequests := map_delete requestId (rn_nodeTypesRequests r)\<rparr>)"

definition handleRpcResponse :: "string \<Rightarrow> rpc_status \<Rightarrow> json \<Rightarrow> TaskRunner \<Rightarrow> TaskRunner" where
  "handleRpcResponse callId status data r =
     (if callId \<notin> set (rn_rpcCalls r) then r
      else r\<lparr>rn_settled := rn_settled r @
               [case status of RpcSuccess \<Rightarrow> Resolved callId data | RpcError \<Rightarrow> RejectedValue callId data],
             rn_rpcCalls := set_delete callId (rn_rpcCalls r)\<rparr>)"

section \<open>Messages and steps\<close>

definition onMessage :: "runner_config \<Rightarrow> runner_env \<Rightarrow> to_runner \<Rightarrow> TaskRunner \<Rightarrow> TaskRunner" where
  "onMessage cfg env message r =
     (case message of
        R_InfoRequest \<Rightarrow> rn_send (FR_Info (rc_name cfg) [rc_taskType cfg]) r
      | R_RunnerRegistered \<Rightarrow> startTaskOffers r
      | R_TaskOfferAccept taskId offerId \<Rightarrow> offerAccepted cfg offerId taskId r
      | R_TaskCancel taskId reason \<Rightarrow> taskCancelled cfg env taskId reason r
      | R_TaskSettings taskId settings \<Rightarrow> receivedSettings taskId settings r
      | R_TaskDataResponse taskId requestId data \<Rightarrow> processDataResponse requestId data r
      | R_RPCResponse callId taskId status data \<Rightarrow> handleRpcResponse callId status data r
      | R_NodeTypes taskId requestId nodeTypes \<Rightarrow> processNodeTypesResponse requestId nodeTypes r)"

datatype runner_event =
    BrokerSent to_runner
  | OfferTick
  | SocketClosed
  | IdleTimerFires
  | TimeoutTimerFires string
  | ExecutionSucceeded string json
  | ExecutionFailed string task_error
  | AsksData string json
  | AsksNodeTypes string json
  | CallsRpc string string json

text \<open>
  The timer of a task fires at most once, while it is not cleared. An outcome of an execution
  comes for a task that was started, and each execution has one outcome.
\<close>

definition runner_step ::
  "runner_config \<Rightarrow> TaskRunner \<Rightarrow> runner_env \<times> runner_event \<Rightarrow> TaskRunner" where
  "runner_step cfg r ee =
     (case ee of (env, e) \<Rightarrow>
        (case e of
           BrokerSent message \<Rightarrow> onMessage cfg env message r
         | OfferTick \<Rightarrow> if rn_offerInterval r then sendOffers cfg env r else r
         | SocketClosed \<Rightarrow> stopTaskOffers r
         | IdleTimerFires \<Rightarrow> idle_timer_fires r
         | TimeoutTimerFires taskId \<Rightarrow>
             (case map_of (rn_runningTasks r) taskId of
                Some ts \<Rightarrow>
                  if ts_timer ts then
                    taskTimedOut cfg env taskId
                      (r\<lparr>rn_runningTasks := map_set taskId (ts\<lparr>ts_timer := False\<rparr>) (rn_runningTasks r)\<rparr>)
                  else r
              | None \<Rightarrow> r)
         | ExecutionSucceeded taskId data \<Rightarrow>
             (case map_of (rn_runningTasks r) taskId of
                Some ts \<Rightarrow> if ts_status ts \<noteq> WaitingForSettings
                           then taskExecutionSucceeded cfg env ts data r else r
              | None \<Rightarrow> r)
         | ExecutionFailed taskId error \<Rightarrow>
             (case map_of (rn_runningTasks r) taskId of
                Some ts \<Rightarrow> if ts_status ts \<noteq> WaitingForSettings
                           then taskExecutionFailed cfg env ts error r else r
              | None \<Rightarrow> r)
         | AsksData taskId params \<Rightarrow> requestData env taskId params r
         | AsksNodeTypes taskId params \<Rightarrow> requestNodeTypes env taskId params r
         | CallsRpc taskId name params \<Rightarrow> makeRpcCall env taskId name params r))"


section \<open>Invariant\<close>

text \<open>
  Open offers and running tasks together never exceed \<open>maxConcurrency\<close>; tasks are stored under
  their ids; and a task is answered at most as often as it was accepted, one answer being held
  back for a task that still runs.
\<close>

fun is_answer :: "string \<Rightarrow> runner_out \<Rightarrow> bool" where
  "is_answer t (Send (FR_TaskDone taskId data)) = (taskId = t)"
| "is_answer t (Send (FR_TaskError taskId error)) = (taskId = t)"
| "is_answer t _ = False"

fun is_acceptance :: "string \<Rightarrow> runner_out \<Rightarrow> bool" where
  "is_acceptance t (Send (FR_TaskAccepted taskId)) = (taskId = t)"
| "is_acceptance t _ = False"

definition answers :: "string \<Rightarrow> TaskRunner \<Rightarrow> nat" where
  "answers t r = length (filter (is_answer t) (rn_out r))"

definition acceptances :: "string \<Rightarrow> TaskRunner \<Rightarrow> nat" where
  "acceptances t r = length (filter (is_acceptance t) (rn_out r))"

definition holds_task :: "string \<Rightarrow> TaskRunner \<Rightarrow> nat" where
  "holds_task t r = (if t \<in> fst ` set (rn_runningTasks r) then 1 else 0)"

definition runner_inv :: "runner_config \<Rightarrow> TaskRunner \<Rightarrow> bool" where
  "runner_inv cfg r \<longleftrightarrow>
     distinct (map_keys (rn_openOffers r)) \<and> distinct (map_keys (rn_runningTasks r)) \<and>
     length (rn_openOffers r) + length (rn_runningTasks r) \<le> rc_maxConcurrency cfg \<and>
     (\<forall>(key, ts) \<in> set (rn_runningTasks r). key = ts_taskId ts) \<and>
     (\<forall>t. answers t r + holds_task t r \<le> acceptances t r)"

lemmas runner_defs = runner_inv_def answers_def acceptances_def holds_task_def

lemma runner_inv_cong:
  assumes "runner_inv cfg r" "rn_openOffers r' = rn_openOffers r"
    and "rn_runningTasks r' = rn_runningTasks r"
    and "\<And>t. answers t r' = answers t r" "\<And>t. acceptances t r' = acceptances t r"
  shows "runner_inv cfg r'"
  using assms by (simp add: runner_inv_def holds_task_def)

lemma send_other:
  assumes "runner_inv cfg r" "\<And>t. \<not> is_answer t (Send m)" "\<And>t. \<not> is_acceptance t (Send m)"
  shows "runner_inv cfg (rn_send m r)"
  using assms by (simp add: runner_defs rn_send_def)

lemma resetIdleTimer_inv [simp]: "runner_inv cfg (resetIdleTimer c r) = runner_inv cfg r"
  by (simp add: resetIdleTimer_def runner_defs)

lemma deleteStaleOffers_inv:
  "runner_inv cfg r \<Longrightarrow> runner_inv cfg (deleteStaleOffers env r)"
  unfolding runner_defs deleteStaleOffers_def
  by (auto simp: distinct_map_filter intro: order_trans [OF add_le_mono1 [OF length_filter_le]])

lemma send_offer_inv:
  assumes "runner_inv cfg r"
    and "length (rn_openOffers r) + length (rn_runningTasks r) < rc_maxConcurrency cfg"
  shows "runner_inv cfg (send_offer c env r i)"
  using assms by (auto simp: runner_defs send_offer_def rn_send_def Let_def length_map_set distinct_map_set)

lemma send_offer_length:
  "length (rn_openOffers (send_offer c env r i)) \<le> Suc (length (rn_openOffers r))"
  "rn_runningTasks (send_offer c env r i) = rn_runningTasks r"
  by (auto simp: send_offer_def rn_send_def Let_def length_map_set)

lemma send_offers_inv:
  assumes "runner_inv cfg r"
    and "length (rn_openOffers r) + length (rn_runningTasks r) + length is \<le> rc_maxConcurrency cfg"
  shows "runner_inv cfg (foldl (send_offer c env) r is)"
  using assms
proof (induction "is" arbitrary: r)
  case Nil
  then show ?case by simp
next
  case (Cons i "is")
  have "runner_inv cfg (send_offer c env r i)" using Cons.prems by (intro send_offer_inv) auto
  moreover have "length (rn_openOffers (send_offer c env r i)) +
      length (rn_runningTasks (send_offer c env r i)) + length is \<le> rc_maxConcurrency cfg"
    using Cons.prems(2) send_offer_length [of c env r i] by simp
  ultimately show ?case using Cons.IH by simp
qed

lemma sendOffers_inv:
  assumes "runner_inv cfg r"
  shows "runner_inv cfg (sendOffers cfg env r)"
proof -
  have 1: "runner_inv cfg (deleteStaleOffers env r)" by (rule deleteStaleOffers_inv [OF assms])
  then have "length (rn_openOffers (deleteStaleOffers env r)) +
      length (rn_runningTasks (deleteStaleOffers env r)) \<le> rc_maxConcurrency cfg"
    by (simp add: runner_inv_def)
  then show ?thesis unfolding sendOffers_def Let_def using 1 by (auto intro!: send_offers_inv)
qed

lemma smaller_tasks_inv:
  assumes r: "runner_inv cfg r" and "distinct (map_keys tasks)" "length tasks \<le> length (rn_runningTasks r)"
    and sub: "fst ` set tasks \<subseteq> fst ` set (rn_runningTasks r)"
    and "\<forall>(key, ts) \<in> set tasks. key = ts_taskId ts"
  shows "runner_inv cfg (r\<lparr>rn_runningTasks := tasks\<rparr>)"
proof -
  have "answers t (r\<lparr>rn_runningTasks := tasks\<rparr>) + holds_task t (r\<lparr>rn_runningTasks := tasks\<rparr>) \<le>
      acceptances t (r\<lparr>rn_runningTasks := tasks\<rparr>)" for t
  proof -
    have "answers t r + holds_task t r \<le> acceptances t r" using r by (simp add: runner_inv_def)
    moreover have "holds_task t (r\<lparr>rn_runningTasks := tasks\<rparr>) \<le> holds_task t r"
      using sub by (auto simp: holds_task_def)
    ultimately show ?thesis by (simp add: answers_def acceptances_def)
  qed
  with assms show ?thesis unfolding runner_inv_def by simp
qed

lemma remove_task_inv:
  assumes "runner_inv cfg r"
  shows "runner_inv cfg (r\<lparr>rn_runningTasks := map_delete taskId (rn_runningTasks r)\<rparr>)"
  using assms by (intro smaller_tasks_inv)
    (auto simp: runner_inv_def length_map_delete(1) distinct_map_delete)

lemma finishTask_inv: "runner_inv cfg r \<Longrightarrow> runner_inv cfg (finishTask cfg env ts r)"
  by (simp add: finishTask_def Let_def sendOffers_inv remove_task_inv)

text \<open>An answer uses up the acceptance that the running task held.\<close>

lemma answer_and_finish_inv:
  assumes r: "runner_inv cfg r" "map_of (rn_runningTasks r) (ts_taskId ts) \<noteq> None"
    and m: "\<And>t. is_answer t (Send m) \<longleftrightarrow> t = ts_taskId ts" "\<And>t. \<not> is_acceptance t (Send m)"
  shows "runner_inv cfg (finishTask cfg env ts (rn_send m r))"
proof -
  have k: "ts_taskId ts \<in> fst ` set (rn_runningTasks r)" using r(2) by (simp add: map_of_eq_None_iff)
  let ?r = "(rn_send m r)\<lparr>rn_runningTasks := map_delete (ts_taskId ts) (rn_runningTasks r)\<rparr>"
  have "answers t ?r + holds_task t ?r \<le> acceptances t ?r" for t
  proof -
    have "answers t r + holds_task t r \<le> acceptances t r" using r(1) by (simp add: runner_inv_def)
    then show ?thesis using k m
      by (cases "t = ts_taskId ts") (auto simp: answers_def acceptances_def holds_task_def rn_send_def
          split: if_splits)
  qed
  moreover have "length (map_delete (ts_taskId ts) (rn_runningTasks r)) \<le> length (rn_runningTasks r)"
    by (rule length_map_delete)
  ultimately have "runner_inv cfg ?r"
    using r(1) unfolding runner_inv_def by (auto simp: rn_send_def)
  moreover have "rn_runningTasks (rn_send m r) = rn_runningTasks r" by (simp add: rn_send_def)
  ultimately show ?thesis by (simp add: finishTask_def Let_def cleanup_def sendOffers_inv)
qed

lemma update_task_inv:
  assumes "runner_inv cfg r" "map_of (rn_runningTasks r) taskId = Some ts" "ts_taskId ts' = ts_taskId ts"
  shows "runner_inv cfg (r\<lparr>rn_runningTasks := map_set taskId ts' (rn_runningTasks r)\<rparr>)"
proof (rule smaller_tasks_inv [OF assms(1)])
  have k: "taskId \<in> fst ` set (rn_runningTasks r)" and id: "ts_taskId ts' = taskId"
    using assms by (force simp: runner_inv_def dest: map_of_SomeD)+
  from k show "length (map_set taskId ts' (rn_runningTasks r)) \<le> length (rn_runningTasks r)"
    and "fst ` set (map_set taskId ts' (rn_runningTasks r)) \<subseteq> fst ` set (rn_runningTasks r)"
    by (auto simp: length_map_set keys_map_set)
  show "\<forall>(key, u) \<in> set (map_set taskId ts' (rn_runningTasks r)). key = ts_taskId u"
    using set_map_set_subset [of taskId ts' "rn_runningTasks r"] assms(1) id by (fastforce simp: runner_inv_def)
qed (use assms(1) in \<open>simp add: runner_inv_def distinct_map_set\<close>)

lemma cancelTaskRequests_inv [simp]: "runner_inv cfg (cancelTaskRequests t reason r) = runner_inv cfg r"
  by (simp add: cancelTaskRequests_def Let_def runner_defs)

lemma unexpected_status_inv [simp]: "runner_inv cfg (unexpected_status ts r) = runner_inv cfg r"
  by (simp add: unexpected_status_def runner_defs)

lemma offerAccepted_inv:
  assumes "runner_inv cfg r"
  shows "runner_inv cfg (offerAccepted cfg offerId taskId r)"
proof -
  have del: "runner_inv cfg (r\<lparr>rn_openOffers := map_delete offerId (rn_openOffers r)\<rparr>)"
    using assms length_map_delete(1) [of offerId "rn_openOffers r"] by (auto simp: runner_defs)
  show ?thesis
  proof (cases "hasOpenTasks cfg r \<and> map_of (rn_openOffers r) offerId \<noteq> None")
    case False
    then show ?thesis using assms del
      by (auto simp: offerAccepted_def intro!: send_other split: option.splits)
  next
    case True
    let ?r = "offerAccepted cfg offerId taskId r"
    have f: "rn_openOffers ?r = map_delete offerId (rn_openOffers r)"
      "rn_runningTasks ?r = map_set taskId (new_TaskState taskId) (rn_runningTasks r)"
      "rn_out ?r = rn_out r @ [Send (FR_TaskAccepted taskId)]"
      using True by (auto simp: offerAccepted_def Let_def rn_send_def resetIdleTimer_def)
    have "length (map_delete offerId (rn_openOffers r)) < length (rn_openOffers r)"
      using True by (intro length_map_delete) (simp add: map_of_eq_None_iff)
    then have len: "length (rn_openOffers ?r) + length (rn_runningTasks ?r) \<le> rc_maxConcurrency cfg"
      using assms unfolding f by (simp add: runner_inv_def length_map_set)
    have bal: "answers t ?r + holds_task t ?r \<le> acceptances t ?r" for t
    proof -
      have "answers t r + holds_task t r \<le> acceptances t r" using assms by (simp add: runner_inv_def)
      then show ?thesis
        by (cases "t = taskId") (simp_all add: holds_task_def answers_def acceptances_def f keys_map_set)
    qed
    have "\<forall>(key, u) \<in> set (rn_runningTasks ?r). key = ts_taskId u"
      using set_map_set_subset [of taskId "new_TaskState taskId" "rn_runningTasks r"] assms
      unfolding f by (fastforce simp: runner_inv_def new_TaskState_def)
    then show ?thesis using assms len bal
      by (simp add: runner_inv_def f distinct_map_set distinct_map_delete)
  qed
qed

lemma running_id: "runner_inv cfg r \<Longrightarrow> map_of (rn_runningTasks r) t = Some ts \<Longrightarrow> ts_taskId ts = t"
  by (force simp: runner_inv_def dest: map_of_SomeD)

lemma abort_task_inv:
  assumes "runner_inv cfg r" "map_of (rn_runningTasks r) t = Some ts"
  shows "runner_inv cfg (abort_task ts status signal r)"
  unfolding abort_task_def running_id [OF assms] using assms by (intro update_task_inv) auto

lemma answer_inv:
  assumes "runner_inv cfg r" "map_of (rn_runningTasks r) t = Some ts"
  shows "runner_inv cfg (finishTask cfg env ts (rn_send (FR_TaskDone t data) r))"
    and "runner_inv cfg (finishTask cfg env ts (rn_send (FR_TaskError t error) r))"
  using running_id [OF assms] assms by (auto intro!: answer_and_finish_inv)

lemma taskTimedOut_inv:
  assumes "runner_inv cfg r"
  shows "runner_inv cfg (taskTimedOut cfg env taskId r)"
proof (cases "map_of (rn_runningTasks r) taskId")
  case (Some ts)
  with assms show ?thesis
    by (cases "ts_status ts") (simp_all add: taskTimedOut_def answer_inv abort_task_inv)
qed (use assms in \<open>simp add: taskTimedOut_def\<close>)

lemma taskCancelled_inv:
  assumes "runner_inv cfg r"
  shows "runner_inv cfg (taskCancelled cfg env taskId reason r)"
proof (cases "map_of (rn_runningTasks r) taskId")
  case (Some ts)
  with assms show ?thesis
    by (cases "ts_status ts") (simp_all add: taskCancelled_def finishTask_inv abort_task_inv)
qed (use assms in \<open>simp add: taskCancelled_def\<close>)

lemma receivedSettings_inv:
  assumes "runner_inv cfg r"
  shows "runner_inv cfg (receivedSettings taskId settings r)"
proof (cases "map_of (rn_runningTasks r) taskId")
  case (Some ts)
  with assms show ?thesis
    by (cases "ts_status ts") (auto simp: receivedSettings_def intro!: update_task_inv)
qed (use assms in \<open>simp add: receivedSettings_def\<close>)

lemma execution_inv:
  assumes "runner_inv cfg r" "map_of (rn_runningTasks r) t = Some ts"
  shows "runner_inv cfg (taskExecutionSucceeded cfg env ts data r)"
    and "runner_inv cfg (taskExecutionFailed cfg env ts error r)"
  using running_id [OF assms] assms
  by (cases "ts_status ts";
      simp add: taskExecutionSucceeded_def taskExecutionFailed_def finishTask_inv answer_inv)+

lemma onMessage_inv:
  assumes "runner_inv cfg r"
  shows "runner_inv cfg (onMessage cfg env m r)"
proof (cases m)
  case R_InfoRequest
  with assms show ?thesis by (simp add: onMessage_def send_other)
next
  case R_RunnerRegistered
  then show ?thesis
    by (intro runner_inv_cong [OF assms])
      (simp_all add: onMessage_def startTaskOffers_def answers_def acceptances_def)
next
  case (R_TaskDataResponse t i d)
  then show ?thesis
    by (intro runner_inv_cong [OF assms])
      (simp_all add: onMessage_def processDataResponse_def answers_def acceptances_def split: option.split)
next
  case (R_NodeTypes t i d)
  then show ?thesis
    by (intro runner_inv_cong [OF assms])
      (simp_all add: onMessage_def processNodeTypesResponse_def answers_def acceptances_def split: option.split)
next
  case (R_RPCResponse c t st d)
  then show ?thesis
    by (intro runner_inv_cong [OF assms])
      (simp_all add: onMessage_def handleRpcResponse_def answers_def acceptances_def)
qed (use assms in \<open>simp_all add: onMessage_def offerAccepted_inv taskCancelled_inv receivedSettings_inv\<close>)

lemma runner_step_inv:
  assumes "runner_inv cfg r"
  shows "runner_inv cfg (runner_step cfg r ee)"
proof -
  obtain env e where ee: "ee = (env, e)" by (cases ee)
  have timer: "runner_inv cfg (taskTimedOut cfg env t
      (r\<lparr>rn_runningTasks := map_set t (ts\<lparr>ts_timer := False\<rparr>) (rn_runningTasks r)\<rparr>))"
    if "map_of (rn_runningTasks r) t = Some ts" for t ts
    using that assms by (intro taskTimedOut_inv update_task_inv) auto
  have simple: "runner_inv cfg (requestData env t p r)" "runner_inv cfg (requestNodeTypes env t p r)"
    "runner_inv cfg (makeRpcCall env t n p r)" "runner_inv cfg (idle_timer_fires r)"
    "runner_inv cfg (stopTaskOffers r)" for t p n
    by (rule runner_inv_cong [OF assms]; simp add: requestData_def requestNodeTypes_def makeRpcCall_def
        rn_send_def idle_timer_fires_def stopTaskOffers_def Let_def answers_def acceptances_def)+
  show ?thesis
    by (cases e) (use assms timer simple ee in
      \<open>auto simp: runner_step_def onMessage_inv sendOffers_inv execution_inv split: option.splits\<close>)
qed

interpretation runner_machine: invariant_machine "runner_step cfg" "runner_inv cfg" for cfg
  by unfold_locales (rule runner_step_inv)

definition runner_run :: "runner_config \<Rightarrow> (runner_env \<times> runner_event) list \<Rightarrow> TaskRunner" where
  "runner_run cfg events = foldl (runner_step cfg) (new_TaskRunner cfg) events"

lemma runner_run_inv: "runner_inv cfg (runner_run cfg events)"
  unfolding runner_run_def
  by (rule runner_machine.run_inv) (simp add: new_TaskRunner_def, simp add: runner_defs)

text \<open>C29: whatever the broker sends and in whatever order offers are made, accepted, cancelled, timed
  out and executed, the runner never has more than \<open>maxConcurrency\<close> tasks, and never offers more
  than it has room for: open offers and tasks together stay within \<open>maxConcurrency\<close>.\<close>

theorem runner_respects_concurrency:
  "length (rn_openOffers (runner_run cfg events)) + length (rn_runningTasks (runner_run cfg events)) \<le>
   rc_maxConcurrency cfg"
  using runner_run_inv [of cfg events] by (simp add: runner_inv_def)

text \<open>C30: a task is answered (with its result or an error) at most once per acceptance, and an
  accepted task that still runs has an answer left: time-outs, cancellations and late results
  never produce a second answer.\<close>

theorem runner_answers_once:
  "answers t (runner_run cfg events) + holds_task t (runner_run cfg events) \<le>
   acceptances t (runner_run cfg events)"
  using runner_run_inv [of cfg events] by (simp add: runner_inv_def)

text \<open>The result of a cancelled task is dropped: the task leaves the runner, a free slot is
  offered again, and nothing is sent about it.\<close>

theorem cancelled_result_dropped:
  assumes "map_of (rn_runningTasks r) t = Some ts" "ts_status ts = AbortingCancelled" "ts_taskId ts = t"
  shows "runner_step cfg r (env, ExecutionSucceeded t data) = finishTask cfg env ts r \<and>
    answers t (finishTask cfg env ts r) = answers t r \<and>
    map_of (rn_runningTasks (finishTask cfg env ts r)) t = None"
proof -
  have o: "answers t (sendOffers cfg env q) = answers t q \<and> rn_runningTasks (sendOffers cfg env q) = rn_runningTasks q" for q
  proof -
    have "answers t (foldl (send_offer cfg env) q is) = answers t q \<and>
        rn_runningTasks (foldl (send_offer cfg env) q is) = rn_runningTasks q" for q "is"
      by (induction "is" arbitrary: q) (simp_all add: send_offer_def rn_send_def answers_def Let_def)
    then show ?thesis
      by (auto simp: sendOffers_def Let_def deleteStaleOffers_def answers_def)
  qed
  show ?thesis using assms o
    by (simp add: runner_step_def taskExecutionSucceeded_def finishTask_def cleanup_def Let_def
        resetIdleTimer_def answers_def)
qed

definition sample_config :: runner_config where
  "sample_config = \<lparr>rc_name = ''runner'', rc_taskType = ''javascript'', rc_maxConcurrency = 2,
     rc_taskTimeout = 60, rc_idleTimeout = 0\<rparr>"

definition sample_env :: runner_env where
  "sample_env = \<lparr>env_now = 0, env_random = (\<lambda>n. 0), env_id = nat_str\<rparr>"

definition cancelled_runner :: TaskRunner where
  "cancelled_runner = runner_run sample_config (map (Pair sample_env)
     [BrokerSent R_RunnerRegistered, OfferTick, BrokerSent (R_TaskOfferAccept ''t'' ''0''),
      BrokerSent (R_TaskSettings ''t'' JNull), BrokerSent (R_TaskCancel ''t'' ''stop'')])"

theorem cancelled_result_dropped_witness:
  "map_of (rn_runningTasks (runner_step sample_config cancelled_runner
     (sample_env, ExecutionSucceeded ''t'' JNull))) ''t'' = None"
proof -
  let ?ts = "\<lparr>ts_taskId = ''t'', ts_status = AbortingCancelled, ts_timer = True, ts_aborted = Some ''cancelled''\<rparr>"
  have "map_of (rn_runningTasks cancelled_runner) ''t'' = Some ?ts" by code_simp
  then show ?thesis using cancelled_result_dropped [of cancelled_runner "''t''" ?ts] by simp
qed

end
