(* ===== verification/TaskRunnerWatch.thy ===== *)
theory TaskRunnerWatch
  imports Prelude
begin

text \<open>
  What the main process watches of the task runner's process
  (\<open>packages/cli/src/task-runners\<close>): \<open>SlidingWindowSignal\<close>, the last event of an emitter within a
  time window, and \<open>TaskRunnerProcessRestartLoopDetector\<close>, which reports a process that keeps
  restarting. Times are milliseconds, and every \<open>Date.now()\<close> is an argument.
\<close>

section \<open>Sliding window\<close>

text \<open>
  A call of \<open>getSignal\<close> answers at once or leaves a waiter: a listener registered with \<open>once\<close> and
  a timer, of which the first to fire answers the call. \<open>sw_answers\<close> collects the answers by call.
\<close>

record 'e SlidingWindowSignal =
  sw_lastSignal :: "'e option"
  sw_lastSignalTime :: int
  sw_windowSizeInMs :: int
  sw_waiting :: "nat list"
  sw_answers :: "(nat \<times> 'e option) list"

definition new_signal :: "int option \<Rightarrow> 'e SlidingWindowSignal" where
  "new_signal windowSizeInMs =
     \<lparr>sw_lastSignal = None, sw_lastSignalTime = 0,
      sw_windowSizeInMs = (case windowSizeInMs of None \<Rightarrow> 500 | Some ms \<Rightarrow> ms),
      sw_waiting = [], sw_answers = []\<rparr>"

definition signal_emitted :: "'e \<Rightarrow> int \<Rightarrow> 'e SlidingWindowSignal \<Rightarrow> 'e SlidingWindowSignal" where
  "signal_emitted signal now w =
     w\<lparr>sw_lastSignal := Some signal, sw_lastSignalTime := now, sw_waiting := [],
       sw_answers := sw_answers w @ map (\<lambda>call. (call, Some signal)) (sw_waiting w)\<rparr>"

definition getSignal :: "nat \<Rightarrow> int \<Rightarrow> 'e SlidingWindowSignal \<Rightarrow> 'e SlidingWindowSignal" where
  "getSignal call now w =
     (if now - sw_lastSignalTime w \<le> sw_windowSizeInMs w
      then w\<lparr>sw_answers := sw_answers w @ [(call, sw_lastSignal w)]\<rparr>
      else w\<lparr>sw_waiting := sw_waiting w @ [call]\<rparr>)"

text \<open>The timer of a waiting call fires. The source sets it without a delay.\<close>

definition signal_timer :: "nat \<Rightarrow> 'e SlidingWindowSignal \<Rightarrow> 'e SlidingWindowSignal" where
  "signal_timer call w =
     (if call \<in> set (sw_waiting w)
      then w\<lparr>sw_waiting := filter (\<lambda>c. c \<noteq> call) (sw_waiting w),
             sw_answers := sw_answers w @ [(call, None)]\<rparr>
      else w)"

section \<open>Restart loops\<close>

definition MAX_RESTARTS :: nat where
  "MAX_RESTARTS = 5"

definition RESTARTS_WINDOW :: int where
  "RESTARTS_WINDOW = 2 * 1000"

text \<open>\<open>rd_reports\<close> holds the errors emitted: the restarts counted and the time they took.\<close>

record RestartLoopDetector =
  rd_maxCount :: nat
  rd_restartsWindow :: int
  rd_numRestarts :: nat
  rd_firstRestartedAt :: int
  rd_reports :: "(nat \<times> int) list"

definition new_detector :: "int \<Rightarrow> RestartLoopDetector" where
  "new_detector now =
     \<lparr>rd_maxCount = MAX_RESTARTS, rd_restartsWindow = RESTARTS_WINDOW, rd_numRestarts = 0,
      rd_firstRestartedAt = now, rd_reports = []\<rparr>"

definition rd_reset :: "int \<Rightarrow> RestartLoopDetector \<Rightarrow> RestartLoopDetector" where
  "rd_reset now d = d\<lparr>rd_numRestarts := 0, rd_firstRestartedAt := now\<rparr>"

definition rd_increment :: "int \<Rightarrow> RestartLoopDetector \<Rightarrow> RestartLoopDetector" where
  "rd_increment now d =
     (let d1 = (if now > rd_firstRestartedAt d + rd_restartsWindow d then rd_reset now d else d)
      in d1\<lparr>rd_numRestarts := rd_numRestarts d1 + 1\<rparr>)"

definition isMaxCountExceeded :: "RestartLoopDetector \<Rightarrow> bool" where
  "isMaxCountExceeded d = (rd_numRestarts d \<ge> rd_maxCount d)"

definition msSinceFirstIncrement :: "int \<Rightarrow> RestartLoopDetector \<Rightarrow> int" where
  "msSinceFirstIncrement now d = now - rd_firstRestartedAt d"

text \<open>The listener of the process's \<open>exit\<close>; the clock is read once per event.\<close>

definition process_exit :: "RestartLoopDetector \<Rightarrow> int \<Rightarrow> RestartLoopDetector" where
  "process_exit d now =
     (let d1 = rd_increment now d
      in if isMaxCountExceeded d1
         then d1\<lparr>rd_reports := rd_reports d1 @ [(rd_numRestarts d1, msSinceFirstIncrement now d1)]\<rparr>
         else d1)"


section \<open>What the restart-loop detector detects\<close>

definition detector_run :: "int \<Rightarrow> int list \<Rightarrow> RestartLoopDetector" where
  "detector_run start exits = foldl process_exit (new_detector start) exits"

lemma process_exit_fields:
  "rd_maxCount (process_exit d t) = rd_maxCount d"
  "rd_restartsWindow (process_exit d t) = rd_restartsWindow d"
  "rd_firstRestartedAt (process_exit d t) =
     (if t > rd_firstRestartedAt d + rd_restartsWindow d then t else rd_firstRestartedAt d)"
  "rd_numRestarts (process_exit d t) =
     (if t > rd_firstRestartedAt d + rd_restartsWindow d then 1 else rd_numRestarts d + 1)"
  "rd_reports (process_exit d t) =
     (if rd_maxCount d \<le> rd_numRestarts (process_exit d t)
      then rd_reports d @ [(rd_numRestarts (process_exit d t), t - rd_firstRestartedAt (process_exit d t))]
      else rd_reports d)"
  by (simp_all add: process_exit_def rd_increment_def rd_reset_def isMaxCountExceeded_def
      msSinceFirstIncrement_def Let_def)

lemma run_constants [simp]:
  "rd_maxCount (foldl process_exit d ts) = rd_maxCount d"
  "rd_restartsWindow (foldl process_exit d ts) = rd_restartsWindow d"
  by (induction ts arbitrary: d) (simp_all add: process_exit_fields)

lemma reports_grow: "length (rd_reports d) \<le> length (rd_reports (foldl process_exit d ts))"
proof (induction ts arbitrary: d)
  case Nil
  then show ?case by simp
next
  case (Cons t ts)
  have "length (rd_reports d) \<le> length (rd_reports (process_exit d t))"
    by (simp add: process_exit_fields(5))
  also have "\<dots> \<le> length (rd_reports (foldl process_exit (process_exit d t) ts))" by (rule Cons)
  finally show ?case by simp
qed

text \<open>The exits counted are the last ones, and all of them lie in the window that is open.\<close>

lemma counted_exits:
  assumes "rd_numRestarts d = 0" "0 \<le> rd_restartsWindow d"
    and "\<forall>t \<in> set ts. rd_firstRestartedAt d \<le> t" "sorted ts"
  shows "rd_numRestarts (foldl process_exit d ts) \<le> length ts \<and>
    (\<forall>t \<in> set (drop (length ts - rd_numRestarts (foldl process_exit d ts)) ts).
       rd_firstRestartedAt (foldl process_exit d ts) \<le> t \<and>
       t \<le> rd_firstRestartedAt (foldl process_exit d ts) + rd_restartsWindow d) \<and>
    (\<forall>t. (\<forall>u \<in> set ts. u \<le> t) \<longrightarrow> rd_firstRestartedAt d \<le> t \<longrightarrow> rd_firstRestartedAt (foldl process_exit d ts) \<le> t)"
  using assms
proof (induction ts rule: rev_induct)
  case Nil
  then show ?case by simp
next
  case (snoc t ts)
  let ?e = "foldl process_exit d ts"
  have IH: "rd_numRestarts ?e \<le> length ts"
    "\<forall>t \<in> set (drop (length ts - rd_numRestarts ?e) ts).
       rd_firstRestartedAt ?e \<le> t \<and> t \<le> rd_firstRestartedAt ?e + rd_restartsWindow d"
    "rd_firstRestartedAt ?e \<le> t"
    using snoc by (auto simp: sorted_append)
  show ?case
  proof (cases "t > rd_firstRestartedAt ?e + rd_restartsWindow d")
    case True
    with snoc.prems show ?thesis by (simp add: process_exit_fields)
  next
    case False
    have "drop (length (ts @ [t]) - Suc (rd_numRestarts ?e)) (ts @ [t]) =
        drop (length ts - rd_numRestarts ?e) ts @ [t]" using IH(1) by simp
    then show ?thesis using False IH snoc.IH snoc.prems by (simp add: process_exit_fields sorted_append)
  qed
qed

text \<open>A report is justified: if the exit at time \<open>now\<close> makes the detector report a loop, then
  that exit and at least four before it all happened within the last two seconds.\<close>

theorem restart_loop_sound:
  assumes "sorted (exits @ [now])" "\<forall>t \<in> set (exits @ [now]). start \<le> t"
    and "rd_reports (detector_run start (exits @ [now])) \<noteq> rd_reports (detector_run start exits)"
  shows "\<exists>n \<ge> MAX_RESTARTS. n \<le> length (exits @ [now]) \<and>
    (\<forall>t \<in> set (drop (length (exits @ [now]) - n) (exits @ [now])). now - t \<le> RESTARTS_WINDOW)"
proof -
  let ?d = "detector_run start (exits @ [now])"
  let ?n = "rd_numRestarts ?d" and ?f = "rd_firstRestartedAt ?d"
  have c: "?n \<le> length (exits @ [now])"
    "\<forall>t \<in> set (drop (length (exits @ [now]) - ?n) (exits @ [now])). ?f \<le> t \<and> t \<le> ?f + RESTARTS_WINDOW"
    using counted_exits [of "new_detector start" "exits @ [now]"] assms(1,2)
    unfolding detector_run_def by (simp_all add: new_detector_def RESTARTS_WINDOW_def)
  have n: "MAX_RESTARTS \<le> ?n"
    using assms(3) unfolding detector_run_def
    by (simp add: process_exit_fields(5) new_detector_def split: if_splits)
  then have "now \<in> set (drop (length (exits @ [now]) - ?n) (exits @ [now]))"
    using c(1) by (auto simp: MAX_RESTARTS_def)
  then have "now \<le> ?f + RESTARTS_WINDOW" using c(2) by blast
  then have "now - t \<le> RESTARTS_WINDOW"
    if "t \<in> set (drop (length (exits @ [now]) - ?n) (exits @ [now]))" for t
    using c(2) that by fastforce
  with n c(1) show ?thesis by blast
qed

theorem restart_loop_sound_witness:
  "\<exists>n \<ge> MAX_RESTARTS. n \<le> length ([100, 200, 300, 400] @ [500 :: int])"
  using restart_loop_sound [of "[100, 200, 300, 400]" 500 0]
  by (auto simp: detector_run_def process_exit_fields new_detector_def MAX_RESTARTS_def RESTARTS_WINDOW_def)

lemma no_reset_reports:
  assumes "\<forall>t \<in> set ts. t \<le> rd_firstRestartedAt d + rd_restartsWindow d" "ts \<noteq> []"
    and "rd_maxCount d \<le> rd_numRestarts d + length ts"
  shows "length (rd_reports d) < length (rd_reports (foldl process_exit d ts))"
  using assms
proof (induction ts arbitrary: d)
  case Nil
  then show ?case by simp
next
  case (Cons t ts)
  show ?case
  proof (cases "ts = []")
    case True
    with Cons.prems show ?thesis by (simp add: process_exit_fields)
  next
    case False
    have "length (rd_reports (process_exit d t)) <
        length (rd_reports (foldl process_exit (process_exit d t) ts))"
      using Cons.prems False by (intro Cons.IH) (auto simp: process_exit_fields)
    then show ?thesis by (simp add: process_exit_fields(5) split: if_splits)
  qed
qed

lemma first_reset:
  assumes "\<exists>t \<in> set ts. t > b"
  shows "\<exists>us t vs. ts = us @ t # vs \<and> (\<forall>u \<in> set us. u \<le> b) \<and> t > (b :: int)"
  using assms split_list_first_prop [of ts "\<lambda>t. t > b"] by (metis not_less)

lemma keeps_first:
  "\<forall>t \<in> set ts. t \<le> rd_firstRestartedAt d + rd_restartsWindow d \<Longrightarrow>
   rd_firstRestartedAt (foldl process_exit d ts) = rd_firstRestartedAt d"
  by (induction ts arbitrary: d) (simp_all add: process_exit_fields)

text \<open>A loop does not go unnoticed for long: of any nine exits in a row within two seconds, from
  whatever state the detector is in, at least one makes it report.\<close>

theorem restart_loop_complete:
  assumes "rd_maxCount d = MAX_RESTARTS" "rd_restartsWindow d = RESTARTS_WINDOW"
    and "length exits = 9" "\<forall>t \<in> set exits. \<forall>u \<in> set exits. u - t \<le> RESTARTS_WINDOW"
  shows "length (rd_reports d) < length (rd_reports (foldl process_exit d exits))"
proof (cases "\<exists>t \<in> set (take 5 exits). t > rd_firstRestartedAt d + rd_restartsWindow d")
  case False
  have "length (rd_reports d) < length (rd_reports (foldl process_exit d (take 5 exits)))"
    using False assms(1,3) by (intro no_reset_reports) (auto simp: MAX_RESTARTS_def not_less)
  also have "\<dots> \<le> length (rd_reports (foldl process_exit (foldl process_exit d (take 5 exits)) (drop 5 exits)))"
    by (rule reports_grow)
  finally show ?thesis by (simp flip: foldl_append)
next
  case True
  then obtain us t vs where s: "take 5 exits = us @ t # vs"
    "\<forall>u \<in> set us. u \<le> rd_firstRestartedAt d + rd_restartsWindow d"
    "t > rd_firstRestartedAt d + rd_restartsWindow d" using first_reset by blast
  let ?e = "process_exit (foldl process_exit d us) t" and ?rest = "vs @ drop 5 exits"
  have e: "exits = us @ t # ?rest" using s(1) append_take_drop_id [of 5 exits] by simp
  have "length (take 5 exits) = 5" using assms(3) by simp
  then have len: "4 \<le> length ?rest" using assms(3) by simp
  have f: "rd_firstRestartedAt ?e = t" "rd_numRestarts ?e = 1"
    using s(2,3) by (simp_all add: process_exit_fields keeps_first)
  have "t \<in> set exits" by (subst e) simp
  moreover have "set vs \<subseteq> set (take 5 exits)" unfolding s(1) by auto
  then have "set ?rest \<subseteq> set exits" using set_take_subset set_drop_subset by fastforce
  ultimately have "\<forall>u \<in> set ?rest. u \<le> t + RESTARTS_WINDOW" using assms(4) by fastforce
  then have "length (rd_reports ?e) < length (rd_reports (foldl process_exit ?e ?rest))"
    using len f assms(1,2)
    by (intro no_reset_reports) (auto simp: process_exit_fields(1,2) MAX_RESTARTS_def)
  moreover have "length (rd_reports d) \<le> length (rd_reports (foldl process_exit d (us @ [t])))"
    by (rule reports_grow)
  ultimately have "length (rd_reports d) < length (rd_reports (foldl process_exit d (us @ t # ?rest)))"
    by simp
  then show ?thesis by (simp only: e [symmetric])
qed

theorem restart_loop_complete_witness:
  "length (rd_reports (new_detector 0)) <
   length (rd_reports (foldl process_exit (new_detector 0) [1, 2, 3, 4, 5, 6, 7, 8, 9]))"
  by (rule restart_loop_complete) (simp_all add: new_detector_def RESTARTS_WINDOW_def)

text \<open>Five exits within two seconds can go unreported: here five fall within 600 ms, but the
  window that opened earlier closes between them and the count starts again.\<close>

theorem restart_loop_missed:
  "rd_reports (detector_run 0 [1500, 1600, 1700, 1800, 2100]) = []"
  by (simp add: detector_run_def process_exit_fields new_detector_def MAX_RESTARTS_def RESTARTS_WINDOW_def)

end
