(* ===== verification/Permissions.thy ===== *)
theory Permissions
  imports Prelude
begin

text \<open>
  Scopes, roles and the access check: the package \<open>@n8n/permissions\<close> (\<open>constants.ee.ts\<close>,
  \<open>combineScopes.ee.ts\<close>, \<open>hasScope.ee.ts\<close>), the role tables of \<open>packages/cli/src/permissions.ee\<close>,
  \<open>RoleService\<close> (\<open>services/role.service.ts\<close>) and \<open>userHasScopes\<close> (\<open>check-access.ts\<close>).

  A scope is the string \<open>resource:operation\<close>. The rows of the database that the access check
  queries are arguments; a query is the selection the repository call states.
\<close>

type_synonym Scope = string

section \<open>Resources\<close>

definition DEFAULT_OPERATIONS :: "string list" where
  "DEFAULT_OPERATIONS = [''create'', ''read'', ''update'', ''delete'', ''list'']"

definition RESOURCES :: "(string \<times> string list) list" where
  "RESOURCES =
     [(''annotationTag'', DEFAULT_OPERATIONS),
      (''auditLogs'', [''manage'']),
      (''banner'', [''dismiss'']),
      (''community'', [''register'']),
      (''communityPackage'', [''install'', ''uninstall'', ''update'', ''list'', ''manage'']),
      (''credential'', [''share'', ''move''] @ DEFAULT_OPERATIONS),
      (''externalSecretsProvider'', [''sync''] @ DEFAULT_OPERATIONS),
      (''externalSecret'', [''list'', ''use'']),
      (''eventBusDestination'', [''test''] @ DEFAULT_OPERATIONS),
      (''ldap'', [''sync'', ''manage'']),
      (''license'', [''manage'']),
      (''logStreaming'', [''manage'']),
      (''orchestration'', [''read'', ''list'']),
      (''project'', DEFAULT_OPERATIONS),
      (''saml'', [''manage'']),
      (''securityAudit'', [''generate'']),
      (''sourceControl'', [''pull'', ''push'', ''manage'']),
      (''tag'', DEFAULT_OPERATIONS),
      (''user'', [''resetPassword'', ''changeRole''] @ DEFAULT_OPERATIONS),
      (''variable'', DEFAULT_OPERATIONS),
      (''workersView'', [''manage'']),
      (''workflow'', [''share'', ''execute'', ''move''] @ DEFAULT_OPERATIONS)]"

text \<open>The type \<open>Scope\<close>: \<open>resource:operation\<close> for a resource and one of its operations.\<close>

definition ALL_SCOPES :: "Scope list" where
  "ALL_SCOPES = concat (map (\<lambda>(r, ops). map (\<lambda>op. r @ '':'' @ op) ops) RESOURCES)"

section \<open>Combining and checking scopes\<close>

text \<open>Scopes by level (\<open>global\<close>, \<open>project\<close>, \<open>resource\<close>); a mask of the level \<open>sharing\<close>.\<close>

type_synonym ScopeLevels = "(string, Scope list) js_map"

definition mask_level :: "Scope list \<Rightarrow> string \<Rightarrow> ScopeLevels \<Rightarrow> ScopeLevels" where
  "mask_level sharing level scopes =
     (case map_of scopes level of
        None \<Rightarrow> scopes
      | Some ss \<Rightarrow> map_set level (filter (\<lambda>v. v \<in> set sharing) ss) scopes)"

definition combineScopes :: "ScopeLevels \<Rightarrow> Scope list option \<Rightarrow> Scope js_set" where
  "combineScopes userScopes masks =
     (let maskedScopes = userScopes;
          maskedScopes' = (case masks of
            None \<Rightarrow> maskedScopes
          | Some sharing \<Rightarrow> mask_level sharing ''resource'' (mask_level sharing ''project'' maskedScopes))
      in js_set_of (concat (map_values maskedScopes')))"

datatype ScopeMode = OneOf | AllOf

definition hasScope :: "Scope list \<Rightarrow> ScopeLevels \<Rightarrow> Scope list option \<Rightarrow> ScopeMode \<Rightarrow> bool" where
  "hasScope scope userScopes masks mode =
     (let userScopeSet = combineScopes userScopes masks in
      if mode = AllOf then scope \<noteq> [] \<and> (\<forall>s \<in> set scope. s \<in> set userScopeSet)
      else (\<exists>s \<in> set scope. s \<in> set userScopeSet))"

section \<open>Role tables\<close>

definition GLOBAL_OWNER_SCOPES :: "Scope list" where
  "GLOBAL_OWNER_SCOPES =
     [''annotationTag:create'', ''annotationTag:read'', ''annotationTag:update'',
      ''annotationTag:delete'', ''annotationTag:list'', ''auditLogs:manage'',
      ''banner:dismiss'', ''credential:create'', ''credential:read'', ''credential:update'',
      ''credential:delete'', ''credential:list'', ''credential:share'', ''credential:move'',
      ''community:register'', ''communityPackage:install'', ''communityPackage:uninstall'',
      ''communityPackage:update'', ''communityPackage:list'', ''eventBusDestination:create'',
      ''eventBusDestination:read'', ''eventBusDestination:update'',
      ''eventBusDestination:delete'', ''eventBusDestination:list'',
      ''eventBusDestination:test'', ''externalSecretsProvider:create'',
      ''externalSecretsProvider:read'', ''externalSecretsProvider:update'',
      ''externalSecretsProvider:delete'', ''externalSecretsProvider:list'',
      ''externalSecretsProvider:sync'', ''externalSecret:list'', ''externalSecret:use'',
      ''ldap:manage'', ''ldap:sync'', ''license:manage'', ''logStreaming:manage'',
      ''orchestration:read'', ''saml:manage'', ''securityAudit:generate'',
      ''sourceControl:pull'', ''sourceControl:push'', ''sourceControl:manage'', ''tag:create'',
      ''tag:read'', ''tag:update'', ''tag:delete'', ''tag:list'', ''user:create'',
      ''user:read'', ''user:update'', ''user:delete'', ''user:list'', ''user:resetPassword'',
      ''user:changeRole'', ''variable:create'', ''variable:read'', ''variable:update'',
      ''variable:delete'', ''variable:list'', ''workflow:create'', ''workflow:read'',
      ''workflow:update'', ''workflow:delete'', ''workflow:list'', ''workflow:share'',
      ''workflow:execute'', ''workflow:move'', ''workersView:manage'', ''project:list'',
      ''project:create'', ''project:read'', ''project:update'', ''project:delete'']"

definition GLOBAL_ADMIN_SCOPES :: "Scope list" where
  "GLOBAL_ADMIN_SCOPES = GLOBAL_OWNER_SCOPES @ []"

definition GLOBAL_MEMBER_SCOPES :: "Scope list" where
  "GLOBAL_MEMBER_SCOPES =
     [''annotationTag:create'', ''annotationTag:read'', ''annotationTag:update'',
      ''annotationTag:delete'', ''annotationTag:list'', ''eventBusDestination:list'',
      ''eventBusDestination:test'', ''tag:create'', ''tag:read'', ''tag:update'', ''tag:list'',
      ''user:list'', ''variable:list'', ''variable:read'']"

definition REGULAR_PROJECT_ADMIN_SCOPES :: "Scope list" where
  "REGULAR_PROJECT_ADMIN_SCOPES =
     [''workflow:create'', ''workflow:read'', ''workflow:update'', ''workflow:delete'',
      ''workflow:list'', ''workflow:execute'', ''workflow:move'', ''credential:create'',
      ''credential:read'', ''credential:update'', ''credential:delete'', ''credential:list'',
      ''credential:move'', ''credential:share'', ''project:list'', ''project:read'',
      ''project:update'', ''project:delete'']"

definition PERSONAL_PROJECT_OWNER_SCOPES :: "Scope list" where
  "PERSONAL_PROJECT_OWNER_SCOPES =
     [''workflow:create'', ''workflow:read'', ''workflow:update'', ''workflow:delete'',
      ''workflow:list'', ''workflow:execute'', ''workflow:share'', ''workflow:move'',
      ''credential:create'', ''credential:read'', ''credential:update'', ''credential:delete'',
      ''credential:list'', ''credential:share'', ''credential:move'', ''project:list'',
      ''project:read'']"

definition PROJECT_EDITOR_SCOPES :: "Scope list" where
  "PROJECT_EDITOR_SCOPES =
     [''workflow:create'', ''workflow:read'', ''workflow:update'', ''workflow:delete'',
      ''workflow:list'', ''workflow:execute'', ''credential:create'', ''credential:read'',
      ''credential:update'', ''credential:delete'', ''credential:list'', ''project:list'',
      ''project:read'']"

definition PROJECT_VIEWER_SCOPES :: "Scope list" where
  "PROJECT_VIEWER_SCOPES =
     [''credential:list'', ''credential:read'', ''project:list'', ''project:read'',
      ''workflow:list'', ''workflow:read'']"

definition CREDENTIALS_SHARING_OWNER_SCOPES :: "Scope list" where
  "CREDENTIALS_SHARING_OWNER_SCOPES =
     [''credential:read'', ''credential:update'', ''credential:delete'', ''credential:share'',
      ''credential:move'']"

definition CREDENTIALS_SHARING_USER_SCOPES :: "Scope list" where
  "CREDENTIALS_SHARING_USER_SCOPES =
     [''credential:read'']"

definition WORKFLOW_SHARING_OWNER_SCOPES :: "Scope list" where
  "WORKFLOW_SHARING_OWNER_SCOPES =
     [''workflow:read'', ''workflow:update'', ''workflow:delete'', ''workflow:execute'',
      ''workflow:share'', ''workflow:move'']"

definition WORKFLOW_SHARING_EDITOR_SCOPES :: "Scope list" where
  "WORKFLOW_SHARING_EDITOR_SCOPES =
     [''workflow:read'', ''workflow:update'', ''workflow:execute'']"

section \<open>The role service\<close>

type_synonym role_map = "(string, Scope list) js_map"

definition GLOBAL_SCOPE_MAP :: role_map where
  "GLOBAL_SCOPE_MAP =
     [(''global:owner'', GLOBAL_OWNER_SCOPES), (''global:admin'', GLOBAL_ADMIN_SCOPES),
      (''global:member'', GLOBAL_MEMBER_SCOPES)]"

definition PROJECT_SCOPE_MAP :: role_map where
  "PROJECT_SCOPE_MAP =
     [(''project:admin'', REGULAR_PROJECT_ADMIN_SCOPES),
      (''project:personalOwner'', PERSONAL_PROJECT_OWNER_SCOPES),
      (''project:editor'', PROJECT_EDITOR_SCOPES),
      (''project:viewer'', PROJECT_VIEWER_SCOPES)]"

definition CREDENTIALS_SHARING_SCOPE_MAP :: role_map where
  "CREDENTIALS_SHARING_SCOPE_MAP =
     [(''credential:owner'', CREDENTIALS_SHARING_OWNER_SCOPES),
      (''credential:user'', CREDENTIALS_SHARING_USER_SCOPES)]"

definition WORKFLOW_SHARING_SCOPE_MAP :: role_map where
  "WORKFLOW_SHARING_SCOPE_MAP =
     [(''workflow:owner'', WORKFLOW_SHARING_OWNER_SCOPES),
      (''workflow:editor'', WORKFLOW_SHARING_EDITOR_SCOPES)]"

datatype RoleNamespace = NsGlobal | NsProject | NsCredential | NsWorkflow

fun ALL_MAPS :: "RoleNamespace \<Rightarrow> role_map" where
  "ALL_MAPS NsGlobal = GLOBAL_SCOPE_MAP"
| "ALL_MAPS NsProject = PROJECT_SCOPE_MAP"
| "ALL_MAPS NsCredential = CREDENTIALS_SHARING_SCOPE_MAP"
| "ALL_MAPS NsWorkflow = WORKFLOW_SHARING_SCOPE_MAP"

definition COMBINED_MAP :: role_map where
  "COMBINED_MAP = GLOBAL_SCOPE_MAP @ PROJECT_SCOPE_MAP @ CREDENTIALS_SHARING_SCOPE_MAP
     @ WORKFLOW_SHARING_SCOPE_MAP"

definition ROLE_NAMES :: "(string, string) js_map" where
  "ROLE_NAMES =
     [(''global:owner'', ''Owner''), (''global:admin'', ''Admin''), (''global:member'', ''Member''),
      (''project:personalOwner'', ''Project Owner''), (''project:admin'', ''Project Admin''),
      (''project:editor'', ''Project Editor''), (''project:viewer'', ''Project Viewer''),
      (''credential:user'', ''Credential User''), (''credential:owner'', ''Credential Owner''),
      (''workflow:owner'', ''Workflow Owner''), (''workflow:editor'', ''Workflow Editor'')]"

definition rolesWithScope :: "RoleNamespace \<Rightarrow> Scope list \<Rightarrow> string list" where
  "rolesWithScope namespace scopes =
     filter (\<lambda>k. \<forall>s \<in> set scopes.
         case map_of (ALL_MAPS namespace) k of None \<Rightarrow> False | Some ss \<Rightarrow> s \<in> set ss)
       (map_keys (ALL_MAPS namespace))"

definition getRoles :: "RoleNamespace \<Rightarrow> string list" where
  "getRoles namespace = map_keys (ALL_MAPS namespace)"

definition getRoleName :: "string \<Rightarrow> string option" where
  "getRoleName role = map_of ROLE_NAMES role"

text \<open>\<open>scopes.filter\<close> on the scopes of an unknown role reads a property of \<open>undefined\<close>.\<close>

definition scope_resource :: "Scope \<Rightarrow> string" where
  "scope_resource s = takeWhile (\<lambda>c. c \<noteq> CHR '':'') s"

definition getRoleScopes :: "string \<Rightarrow> string list option \<Rightarrow> Scope list option res" where
  "getRoleScopes role filters =
     (case (map_of COMBINED_MAP role, filters) of
        (scopes, None) \<Rightarrow> Inr scopes
      | (None, Some _) \<Rightarrow> Inl TypeError
      | (Some scopes, Some fs) \<Rightarrow> Inr (Some (filter (\<lambda>s. scope_resource s \<in> set fs) scopes)))"

definition getScopesBy :: "string js_set \<Rightarrow> Scope js_set" where
  "getScopesBy projectRoles =
     foldl (\<lambda>acc projectRole.
         foldl (\<lambda>acc scope. set_add scope acc) acc
           (case map_of PROJECT_SCOPE_MAP projectRole of None \<Rightarrow> [] | Some ss \<Rightarrow> ss))
       [] projectRoles"

text \<open>The order of \<open>Array.prototype.sort\<close> without comparator: by the codes of the characters.\<close>

fun str_le :: "string \<Rightarrow> string \<Rightarrow> bool" where
  "str_le [] t = True"
| "str_le (a # s) [] = False"
| "str_le (a # s) (b # t) =
     (if a = b then str_le s t else (of_char a :: nat) < of_char b)"

fun str_insert :: "string \<Rightarrow> string list \<Rightarrow> string list" where
  "str_insert x [] = [x]"
| "str_insert x (y # ys) = (if str_le x y then x # y # ys else y # str_insert x ys)"

definition str_sort :: "string list \<Rightarrow> string list" where
  "str_sort xs = foldr str_insert xs []"

record SharedEntity =
  se_projectId :: string
  se_entityId :: string
  se_role :: string

record ProjectRelation =
  prl_userId :: string
  prl_projectId :: string
  prl_role :: string

datatype entity_kind = WorkflowEntity | CredentialEntity

definition kind_name :: "entity_kind \<Rightarrow> string" where
  "kind_name k = (case k of WorkflowEntity \<Rightarrow> ''workflow'' | CredentialEntity \<Rightarrow> ''credential'')"

text \<open>
  One step of the loop of \<open>combineResourceScopes\<close>. Spreading the scopes of an unknown role throws.
\<close>

definition merge_shared ::
  "Scope list \<Rightarrow> ProjectRelation list \<Rightarrow> Scope js_set \<Rightarrow> SharedEntity \<Rightarrow> Scope js_set res" where
  "merge_shared globalScopes userProjectRelations scopesSet sharedEntity =
     res_bind (case find (\<lambda>p. prl_projectId p = se_projectId sharedEntity) userProjectRelations of
                 None \<Rightarrow> Inr []
               | Some pr \<Rightarrow> (case map_of COMBINED_MAP (prl_role pr) of
                               None \<Rightarrow> Inl TypeError | Some ss \<Rightarrow> Inr ss))
       (\<lambda>projectScopes.
          let resourceMask = map_of COMBINED_MAP (se_role sharedEntity);
              mergedScopes = combineScopes
                [(''global'', globalScopes), (''project'', projectScopes)] resourceMask
          in Inr (foldl (\<lambda>acc s. set_add s acc) scopesSet mergedScopes))"

definition combineResourceScopes ::
  "entity_kind \<Rightarrow> string \<Rightarrow> SharedEntity list \<Rightarrow> ProjectRelation list \<Rightarrow> Scope list res" where
  "combineResourceScopes type userRole shared userProjectRelations =
     res_bind (getRoleScopes userRole (Some [kind_name type])) (\<lambda>globalScopes_opt.
       let globalScopes = (case globalScopes_opt of None \<Rightarrow> [] | Some ss \<Rightarrow> ss) in
       res_bind (fold_res (merge_shared globalScopes userProjectRelations) (js_set_of globalScopes) shared)
         (\<lambda>scopesSet. Inr (str_sort scopesSet)))"

text \<open>
  The entity of \<open>addScopes\<close>: whether it has the properties \<open>active\<close> and \<open>type\<close>, and its sharings.
\<close>

record RawEntity =
  re_active :: bool
  re_type :: bool
  re_shared :: "SharedEntity list option"

definition addScopes :: "RawEntity \<Rightarrow> string \<Rightarrow> ProjectRelation list \<Rightarrow> Scope list res" where
  "addScopes rawEntity userRole userProjectRelations =
     (case re_shared rawEntity of
        None \<Rightarrow> Inr []
      | Some shared \<Rightarrow>
          if \<not> re_active rawEntity \<and> \<not> re_type rawEntity
          then Inl (ApplicationError ''Cannot detect if entity is a workflow or credential.'')
          else combineResourceScopes
                 (if re_active rawEntity then WorkflowEntity else CredentialEntity)
                 userRole shared userProjectRelations)"

text \<open>What the licence allows.\<close>

record role_licenses =
  lic_projectAdmin :: bool
  lic_projectEditor :: bool
  lic_projectViewer :: bool
  lic_advancedPermissions :: bool

definition isRoleLicensed :: "role_licenses \<Rightarrow> string \<Rightarrow> bool" where
  "isRoleLicensed lic role =
     (if role = ''project:admin'' then lic_projectAdmin lic
      else if role = ''project:editor'' then lic_projectEditor lic
      else if role = ''project:viewer'' then lic_projectViewer lic
      else if role = ''global:admin'' then lic_advancedPermissions lic
      else True)"

section \<open>The access check\<close>

record access_target =
  at_credentialId :: "string option"
  at_workflowId :: "string option"
  at_projectId :: "string option"

record access_db =
  db_projectRelations :: "ProjectRelation list"
  db_sharedCredentials :: "SharedEntity list"
  db_sharedWorkflows :: "SharedEntity list"

definition given :: "string option \<Rightarrow> bool" where
  "given x = (case x of None \<Rightarrow> False | Some s \<Rightarrow> s \<noteq> [])"

definition shared_with ::
  "SharedEntity list \<Rightarrow> string \<Rightarrow> string list \<Rightarrow> string list \<Rightarrow> bool" where
  "shared_with rows entityId projectIds roles =
     (\<exists>row \<in> set rows. se_entityId row = entityId \<and> se_projectId row \<in> set projectIds \<and>
        se_role row \<in> set roles)"

definition userHasScopes ::
  "access_db \<Rightarrow> string \<Rightarrow> Scope list \<Rightarrow> Scope list \<Rightarrow> bool \<Rightarrow> access_target \<Rightarrow> bool res" where
  "userHasScopes db userId userGlobalScopes scopes globalOnly target =
     (if hasScope scopes [(''global'', userGlobalScopes)] None AllOf then Inr True
      else if globalOnly then Inr False
      else
        let projectRoles = rolesWithScope NsProject scopes;
            userProjectIds = map prl_projectId
              (filter (\<lambda>pr. prl_userId pr = userId \<and> prl_role pr \<in> set projectRoles)
                (db_projectRelations db))
        in if given (at_credentialId target) then
             Inr (shared_with (db_sharedCredentials db) (the (at_credentialId target)) userProjectIds
                    (rolesWithScope NsCredential scopes))
           else if given (at_workflowId target) then
             Inr (shared_with (db_sharedWorkflows db) (the (at_workflowId target)) userProjectIds
                    (rolesWithScope NsWorkflow scopes))
           else if given (at_projectId target) then
             Inr (the (at_projectId target) \<in> set userProjectIds)
           else Inl (ApplicationError ''ProjectScope used without a credential, workflow or project id''))"


section \<open>The role tables\<close>

text \<open>Lists of scopes by inclusion: each list of a role is compared with the smallest list that has it.\<close>

definition subscopes :: "Scope list \<Rightarrow> Scope list \<Rightarrow> bool" where
  "subscopes ss ts = list_all (\<lambda>s. List.member ts s) ss"

lemma subscopes_iff: "subscopes ss ts \<longleftrightarrow> set ss \<subseteq> set ts"
  by (auto simp: subscopes_def list_all_iff)

lemma subscopes_trans: "subscopes ss ts \<Longrightarrow> subscopes ts us \<Longrightarrow> subscopes ss us"
  by (auto simp: subscopes_iff)

lemma owner_scopes: "subscopes GLOBAL_OWNER_SCOPES ALL_SCOPES" by code_simp
lemma member_scopes: "subscopes GLOBAL_MEMBER_SCOPES GLOBAL_OWNER_SCOPES" by code_simp
lemma admin_scopes: "GLOBAL_ADMIN_SCOPES = GLOBAL_OWNER_SCOPES" by code_simp
lemma project_admin_scopes: "subscopes REGULAR_PROJECT_ADMIN_SCOPES ALL_SCOPES" by code_simp
lemma personal_owner_scopes: "subscopes PERSONAL_PROJECT_OWNER_SCOPES ALL_SCOPES" by code_simp
lemma editor_scopes: "subscopes PROJECT_EDITOR_SCOPES REGULAR_PROJECT_ADMIN_SCOPES" by code_simp
lemma viewer_scopes: "subscopes PROJECT_VIEWER_SCOPES PROJECT_EDITOR_SCOPES" by code_simp
lemma sharing_scopes:
  "subscopes (CREDENTIALS_SHARING_OWNER_SCOPES @ CREDENTIALS_SHARING_USER_SCOPES @
     WORKFLOW_SHARING_OWNER_SCOPES @ WORKFLOW_SHARING_EDITOR_SCOPES) ALL_SCOPES" by code_simp

text \<open>Every scope a role is given is a scope that exists, and the project roles are ordered:
  a viewer may do nothing an editor may not, nor an editor anything an admin may not; the global
  admin has exactly the owner's scopes.\<close>

theorem role_tables_sound:
  "list_all (\<lambda>(role, ss). list_all (\<lambda>s. List.member ALL_SCOPES s) ss) COMBINED_MAP \<and>
   list_all (\<lambda>s. List.member PROJECT_EDITOR_SCOPES s) PROJECT_VIEWER_SCOPES \<and>
   list_all (\<lambda>s. List.member REGULAR_PROJECT_ADMIN_SCOPES s) PROJECT_EDITOR_SCOPES \<and>
   list_all (\<lambda>s. List.member GLOBAL_OWNER_SCOPES s) GLOBAL_MEMBER_SCOPES \<and>
   GLOBAL_ADMIN_SCOPES = GLOBAL_OWNER_SCOPES"
  using owner_scopes member_scopes admin_scopes project_admin_scopes personal_owner_scopes editor_scopes viewer_scopes
    sharing_scopes subscopes_trans [OF editor_scopes project_admin_scopes]
    subscopes_trans [OF viewer_scopes subscopes_trans [OF editor_scopes project_admin_scopes]]
    subscopes_trans [OF member_scopes owner_scopes]
  unfolding subscopes_def [symmetric] COMBINED_MAP_def GLOBAL_SCOPE_MAP_def PROJECT_SCOPE_MAP_def
    CREDENTIALS_SHARING_SCOPE_MAP_def WORKFLOW_SHARING_SCOPE_MAP_def
  by (simp add: subscopes_iff)

text \<open>The difference between the admin of a team project and the owner of a personal one is more
  than renaming and inviting: the team admin cannot share workflows.\<close>

theorem project_admin_difference:
  "filter (\<lambda>s. \<not> List.member PERSONAL_PROJECT_OWNER_SCOPES s) REGULAR_PROJECT_ADMIN_SCOPES =
     [''project:update'', ''project:delete''] \<and>
   filter (\<lambda>s. \<not> List.member REGULAR_PROJECT_ADMIN_SCOPES s) PERSONAL_PROJECT_OWNER_SCOPES =
     [''workflow:share'']"
  by code_simp

section \<open>Scopes on a shared entity\<close>

lemma set_combineScopes_mask:
  "set (combineScopes [(''global'', g), (''project'', p)] masks) =
   set g \<union> {s \<in> set p. case masks of None \<Rightarrow> True | Some sharing \<Rightarrow> s \<in> set sharing}"
  by (cases masks) (auto simp: combineScopes_def mask_level_def Let_def)

lemma str_le_total: "str_le s t \<or> str_le t s"
  by (induction s t rule: str_le.induct) (auto simp: less_le not_less)

lemma str_le_trans: "str_le s t \<Longrightarrow> str_le t u \<Longrightarrow> str_le s u"
proof (induction s t arbitrary: u rule: str_le.induct)
  case (3 a s b t)
  then show ?case by (cases u) (auto split: if_splits)
qed simp_all

lemma set_str_insert [simp]: "set (str_insert x ys) = insert x (set ys)"
  by (induction ys) auto

lemma sorted_str_insert:
  assumes "sorted_wrt str_le ys"
  shows "sorted_wrt str_le (str_insert x ys)"
  using assms
proof (induction ys)
  case Nil
  then show ?case by simp
next
  case (Cons y ys)
  then show ?case using str_le_total [of x y] str_le_trans [of x y] by auto
qed

lemma set_str_sort [simp]: "set (str_sort xs) = set xs"
  by (induction xs) (simp_all add: str_sort_def)

lemma sorted_str_sort: "sorted_wrt str_le (str_sort xs)"
  by (induction xs) (simp_all add: str_sort_def sorted_str_insert)

lemma distinct_str_insert: "distinct ys \<Longrightarrow> x \<notin> set ys \<Longrightarrow> distinct (str_insert x ys)"
  by (induction ys) auto

lemma distinct_str_sort: "distinct xs \<Longrightarrow> distinct (str_sort xs)"
proof (induction xs)
  case Nil
  then show ?case by (simp add: str_sort_def)
next
  case (Cons x xs)
  then have "distinct (str_insert x (str_sort xs))" by (intro distinct_str_insert) auto
  then show ?case by (simp add: str_sort_def)
qed

definition role_scopes :: "string \<Rightarrow> Scope set" where
  "role_scopes role = (case map_of COMBINED_MAP role of None \<Rightarrow> {} | Some ss \<Rightarrow> set ss)"

definition relation_of :: "ProjectRelation list \<Rightarrow> SharedEntity \<Rightarrow> ProjectRelation option" where
  "relation_of rels e = find (\<lambda>p. prl_projectId p = se_projectId e) rels"

definition passes_mask :: "SharedEntity \<Rightarrow> Scope \<Rightarrow> bool" where
  "passes_mask e s = (case map_of COMBINED_MAP (se_role e) of None \<Rightarrow> True | Some m \<Rightarrow> s \<in> set m)"

definition shared_scopes :: "ProjectRelation list \<Rightarrow> SharedEntity \<Rightarrow> Scope set" where
  "shared_scopes rels e =
     (case relation_of rels e of None \<Rightarrow> {} | Some pr \<Rightarrow> {s \<in> role_scopes (prl_role pr). passes_mask e s})"

definition unknown_role :: "ProjectRelation list \<Rightarrow> SharedEntity \<Rightarrow> bool" where
  "unknown_role rels e =
     (case relation_of rels e of None \<Rightarrow> False | Some pr \<Rightarrow> map_of COMBINED_MAP (prl_role pr) = None)"

lemma merge_shared_cases:
  "merge_shared g rels acc e =
     (if unknown_role rels e then Inl TypeError
      else Inr (foldl (\<lambda>acc s. set_add s acc) acc
        (combineScopes [(''global'', g), (''project'',
            case relation_of rels e of None \<Rightarrow> [] | Some pr \<Rightarrow> the (map_of COMBINED_MAP (prl_role pr)))]
          (map_of COMBINED_MAP (se_role e)))))"
  by (auto simp: merge_shared_def unknown_role_def relation_of_def split: option.splits)

lemma merge_shared_set:
  assumes "merge_shared g rels acc e = Inr acc'" "set g \<subseteq> set acc"
  shows "set acc' = set acc \<union> shared_scopes rels e" "distinct acc \<Longrightarrow> distinct acc'"
proof -
  have e: "\<not> unknown_role rels e" and a: "acc' = foldl (\<lambda>acc s. set_add s acc) acc
        (combineScopes [(''global'', g), (''project'',
            case relation_of rels e of None \<Rightarrow> [] | Some pr \<Rightarrow> the (map_of COMBINED_MAP (prl_role pr)))]
          (map_of COMBINED_MAP (se_role e)))"
    using assms(1) by (auto simp: merge_shared_cases split: if_splits)
  show "set acc' = set acc \<union> shared_scopes rels e"
    using assms(2) e unfolding a
    by (auto simp: set_combineScopes_mask shared_scopes_def role_scopes_def passes_mask_def
        unknown_role_def split: option.splits)
  show "distinct acc \<Longrightarrow> distinct acc'" unfolding a by simp
qed

lemma merge_all:
  assumes "set g \<subseteq> set acc" "distinct acc"
  shows "case fold_res (merge_shared g rels) acc es of
     Inl e \<Rightarrow> e = TypeError \<and> (\<exists>x \<in> set es. unknown_role rels x)
   | Inr acc' \<Rightarrow> distinct acc' \<and> set acc' = set acc \<union> (\<Union>x \<in> set es. shared_scopes rels x)"
  using assms
proof (induction es arbitrary: acc)
  case Nil
  then show ?case by simp
next
  case (Cons e es)
  show ?case
  proof (cases "merge_shared g rels acc e")
    case (Inl err)
    then show ?thesis by (auto simp: merge_shared_cases split: if_splits)
  next
    case (Inr acc')
    note m = merge_shared_set [OF Inr Cons.prems(1)]
    have "set g \<subseteq> set acc'" using m(1) Cons.prems(1) by blast
    from Cons.IH [OF this m(2) [OF Cons.prems(2)]] show ?thesis
      using Inr m(1) by (cases "fold_res (merge_shared g rels) acc' es") (auto simp: Un_assoc)
  qed
qed

text \<open>The scopes a user has on a workflow or credential are sorted and without repetition; they
  are the scopes of the user's global role on that kind of entity and, for every project of the
  user with which the entity is shared, those scopes of the project role that the sharing role
  allows. The only error is a role that no table knows.\<close>

theorem combineResourceScopes_exact:
  "case combineResourceScopes type userRole shared rels of
     Inl e \<Rightarrow> e = TypeError \<and>
       (map_of COMBINED_MAP userRole = None \<or> (\<exists>x \<in> set shared. unknown_role rels x))
   | Inr scopes \<Rightarrow> distinct scopes \<and> sorted_wrt str_le scopes \<and>
       set scopes = {s \<in> role_scopes userRole. scope_resource s = kind_name type} \<union>
         (\<Union>x \<in> set shared. shared_scopes rels x)"
proof (cases "map_of COMBINED_MAP userRole")
  case None
  then show ?thesis by (simp add: combineResourceScopes_def getRoleScopes_def)
next
  case (Some ss)
  let ?g = "filter (\<lambda>s. scope_resource s = kind_name type) ss"
  have "combineResourceScopes type userRole shared rels =
      res_bind (fold_res (merge_shared ?g rels) (js_set_of ?g) shared) (\<lambda>x. Inr (str_sort x))"
    using Some by (simp add: combineResourceScopes_def getRoleScopes_def Let_def)
  with merge_all [where g = ?g and acc = "js_set_of ?g" and rels = rels and es = shared] Some show ?thesis
    by (auto simp: role_scopes_def sorted_str_sort distinct_str_sort split: sum.splits)
qed

section \<open>Access to a workflow\<close>

definition grants :: "role_map \<Rightarrow> string \<Rightarrow> Scope list \<Rightarrow> bool" where
  "grants table role scopes = (\<exists>ss. map_of table role = Some ss \<and> set scopes \<subseteq> set ss)"

lemma rolesWithScope_iff:
  "scopes \<noteq> [] \<Longrightarrow> role \<in> set (rolesWithScope ns scopes) \<longleftrightarrow> grants (ALL_MAPS ns) role scopes"
proof (cases "map_of (ALL_MAPS ns) role")
  case None
  assume "scopes \<noteq> []"
  with None show ?thesis by (cases scopes) (auto simp: rolesWithScope_def grants_def)
next
  case (Some ss)
  then have "role \<in> fst ` set (ALL_MAPS ns)" by (force dest: map_of_SomeD)
  with Some show ?thesis by (auto simp: rolesWithScope_def grants_def)
qed

text \<open>C39: outside the global check, a user passes the check for a workflow exactly when one of the
  user's projects holds a sharing of that workflow such that both the user's role in the project
  and the role of the sharing contain all the scopes asked for.\<close>

theorem userHasScopes_workflow:
  assumes "scopes \<noteq> []"
  shows "userHasScopes db userId globalScopes scopes globalOnly
      \<lparr>at_credentialId = None, at_workflowId = Some (c # cs), at_projectId = None\<rparr> =
    Inr (set scopes \<subseteq> set globalScopes \<or>
      (\<not> globalOnly \<and>
       (\<exists>pr \<in> set (db_projectRelations db). \<exists>row \<in> set (db_sharedWorkflows db).
          prl_userId pr = userId \<and> se_entityId row = c # cs \<and> se_projectId row = prl_projectId pr \<and>
          grants PROJECT_SCOPE_MAP (prl_role pr) scopes \<and>
          grants WORKFLOW_SHARING_SCOPE_MAP (se_role row) scopes)))"
proof -
  have g: "hasScope scopes [(''global'', globalScopes)] None AllOf \<longleftrightarrow> set scopes \<subseteq> set globalScopes"
    using assms by (auto simp: hasScope_def combineScopes_def)
  show ?thesis
    unfolding userHasScopes_def g Let_def shared_with_def
    using rolesWithScope_iff [OF assms, of _ NsProject] rolesWithScope_iff [OF assms, of _ NsWorkflow]
    by (auto simp: given_def image_iff Bex_def)
qed

definition sample_db :: access_db where
  "sample_db = \<lparr>db_projectRelations = [\<lparr>prl_userId = ''u'', prl_projectId = ''p'', prl_role = ''project:viewer''\<rparr>],
     db_sharedCredentials = [],
     db_sharedWorkflows = [\<lparr>se_projectId = ''p'', se_entityId = ''w'', se_role = ''workflow:owner''\<rparr>]\<rparr>"

theorem userHasScopes_workflow_witness:
  "userHasScopes sample_db ''u'' [] [''workflow:update''] False
     \<lparr>at_credentialId = None, at_workflowId = Some ''w'', at_projectId = None\<rparr> = Inr False"
  by (subst userHasScopes_workflow)
    (simp_all add: sample_db_def grants_def PROJECT_SCOPE_MAP_def PROJECT_VIEWER_SCOPES_def)

end
