(* ===== verification/MultiMain.thy ===== *)
theory MultiMain
  imports Prelude
begin

text \<open>
  The choice of a leader among several mains (\<open>packages/cli/src/scaling/multi-main-setup.ee.ts\<close>) over a key of
  Redis that expires. Every call of Redis is asynchronous: it is sent, executed by Redis, and its answer
  resumes the routine. So a system of mains is a step relation: any pending call may go on next, time
  may pass, an instance may be shut down or die. Instances and their pending calls are in one state
  with the key; the operations of Redis are \<open>get\<close>, \<open>setnx\<close>, \<open>expire\<close> and \<open>del\<close> of
  \<open>publisher.service.ts\<close>.
\<close>

section \<open>State\<close>

text \<open>Where a routine is suspended: a call that was sent, or answered.\<close>

datatype leader_call =
    SentGet | AnsweredGet "string option"
  | SentRenew
  | SentSet | AnsweredSet bool
  | SentExpiration | AnsweredExpiration
  | SentClear

datatype leader_event = LeaderTakeover string | LeaderStepdown string

text \<open>
  The key: who holds it, and for how long (\<open>None\<close> without expiry). \<open>mm_lapsed\<close> records, for the proofs
  only, the instances that held the key, lost it and have not got it back.
\<close>

record multi_main =
  mm_key :: "(string \<times> nat option) option"
  mm_ttl :: nat
  mm_up :: "string set"
  mm_leaders :: "string set"
  mm_calls :: "(string \<times> leader_call) list"
  mm_events :: "leader_event list"
  mm_lapsed :: "string set"

definition new_multi_main :: "nat \<Rightarrow> string set \<Rightarrow> multi_main" where
  "new_multi_main ttl hosts = \<lparr>mm_key = None, mm_ttl = ttl, mm_up = hosts, mm_leaders = {}, mm_calls = [],
     mm_events = [], mm_lapsed = {}\<rparr>"

definition key_holder :: "multi_main \<Rightarrow> string option" where
  "key_holder s = map_option fst (mm_key s)"

section \<open>Redis\<close>

definition setIfNotExists :: "string \<Rightarrow> multi_main \<Rightarrow> bool \<times> multi_main" where
  "setIfNotExists host s = (case mm_key s of
     None \<Rightarrow> (True, s\<lparr>mm_key := Some (host, None), mm_lapsed := mm_lapsed s - {host}\<rparr>)
   | Some _ \<Rightarrow> (False, s))"

definition setExpiration :: "multi_main \<Rightarrow> multi_main" where
  "setExpiration s = s\<lparr>mm_key := map_option (\<lambda>(host, _). (host, Some (mm_ttl s))) (mm_key s)\<rparr>"

text \<open>The key is gone; its holder has lost it.\<close>

definition drop_key :: "multi_main \<Rightarrow> multi_main" where
  "drop_key s = s\<lparr>mm_key := None, mm_lapsed := mm_lapsed s \<union> set_option (key_holder s)\<rparr>"

text \<open>A unit of time passes.\<close>

definition tick :: "multi_main \<Rightarrow> multi_main" where
  "tick s = (case mm_key s of
     Some (host, Some (Suc (Suc n))) \<Rightarrow> s\<lparr>mm_key := Some (host, Some (Suc n))\<rparr>
   | Some (host, Some _) \<Rightarrow> drop_key s
   | _ \<Rightarrow> s)"

section \<open>The routines\<close>

definition mm_emit :: "leader_event \<Rightarrow> multi_main \<Rightarrow> multi_main" where
  "mm_emit e s = s\<lparr>mm_events := mm_events s @ [e]\<rparr>"

definition call :: "string \<Rightarrow> leader_call \<Rightarrow> multi_main \<Rightarrow> multi_main" where
  "call host c s = s\<lparr>mm_calls := mm_calls s @ [(host, c)]\<rparr>"

definition markAsFollower :: "string \<Rightarrow> multi_main \<Rightarrow> multi_main" where
  "markAsFollower host s = s\<lparr>mm_leaders := mm_leaders s - {host}\<rparr>"

definition markAsLeader :: "string \<Rightarrow> multi_main \<Rightarrow> multi_main" where
  "markAsLeader host s = s\<lparr>mm_leaders := insert host (mm_leaders s)\<rparr>"

definition tryBecomeLeader :: "string \<Rightarrow> multi_main \<Rightarrow> multi_main" where
  "tryBecomeLeader host s = call host SentSet s"

definition set_answered :: "string \<Rightarrow> bool \<Rightarrow> multi_main \<Rightarrow> multi_main" where
  "set_answered host keySetSuccessfully s =
     (if keySetSuccessfully then call host SentExpiration (markAsLeader host s) else markAsFollower host s)"

definition get_answered :: "string \<Rightarrow> string option \<Rightarrow> multi_main \<Rightarrow> multi_main" where
  "get_answered host leaderId s =
     (case leaderId of
        Some i \<Rightarrow>
          if i = host then call host SentRenew s
          else if host \<in> mm_leaders s then mm_emit (LeaderStepdown host) (markAsFollower host s)
          else s
      | None \<Rightarrow> tryBecomeLeader host (mm_emit (LeaderStepdown host) (markAsFollower host s)))"

definition mm_shutdown :: "string \<Rightarrow> multi_main \<Rightarrow> multi_main" where
  "mm_shutdown host s =
     (let s1 = s\<lparr>mm_up := mm_up s - {host}\<rparr> in
      if host \<in> mm_leaders s then call host SentClear s1 else s1)"

text \<open>The process ends: it leads no more, and its pending calls are not resumed.\<close>

definition mm_exit :: "string \<Rightarrow> multi_main \<Rightarrow> multi_main" where
  "mm_exit host s = s\<lparr>mm_up := mm_up s - {host}, mm_leaders := mm_leaders s - {host},
     mm_calls := filter (\<lambda>(h, c). h \<noteq> host) (mm_calls s)\<rparr>"

definition answer :: "nat \<Rightarrow> leader_call \<Rightarrow> multi_main \<Rightarrow> multi_main" where
  "answer i c s = s\<lparr>mm_calls := (mm_calls s)[i := (fst (mm_calls s ! i), c)]\<rparr>"

definition finish :: "nat \<Rightarrow> multi_main \<Rightarrow> multi_main" where
  "finish i s = s\<lparr>mm_calls := remove_at i (mm_calls s)\<rparr>"

definition pending :: "multi_main \<Rightarrow> nat \<Rightarrow> string \<Rightarrow> leader_call \<Rightarrow> bool" where
  "pending s i host c \<longleftrightarrow> i < length (mm_calls s) \<and> mm_calls s ! i = (host, c)"

section \<open>Steps\<close>

text \<open>
  \<open>init\<close> tries to become leader and then checks at intervals; the checks of an instance may overlap.
  A call of Redis may have been executed although its instance has died since.
\<close>

inductive mm_step :: "multi_main \<Rightarrow> multi_main \<Rightarrow> bool" where
  init: "host \<in> mm_up s \<Longrightarrow> mm_step s (tryBecomeLeader host s)"
| interval: "host \<in> mm_up s \<Longrightarrow> mm_step s (call host SentGet s)"
| redis_get: "pending s i host SentGet \<Longrightarrow> mm_step s (answer i (AnsweredGet (key_holder s)) s)"
| redis_set: "pending s i host SentSet \<Longrightarrow> setIfNotExists host s = (success, t) \<Longrightarrow> mm_step s (answer i (AnsweredSet success) t)"
| redis_renew: "pending s i host SentRenew \<Longrightarrow> mm_step s (finish i (setExpiration s))"
| redis_expire: "pending s i host SentExpiration \<Longrightarrow> mm_step s (answer i AnsweredExpiration (setExpiration s))"
| redis_clear: "pending s i host SentClear \<Longrightarrow> mm_step s (finish i (drop_key s))"
| resume_get: "pending s i host (AnsweredGet leaderId) \<Longrightarrow> mm_step s (get_answered host leaderId (finish i s))"
| resume_set: "pending s i host (AnsweredSet success) \<Longrightarrow> mm_step s (set_answered host success (finish i s))"
| resume_expire: "pending s i host AnsweredExpiration \<Longrightarrow> mm_step s (mm_emit (LeaderTakeover host) (finish i s))"
| time_passes: "mm_step s (tick s)"
| shut_down: "host \<in> mm_up s \<Longrightarrow> mm_step s (mm_shutdown host s)"
| dies: "mm_step s (mm_exit host s)"

inductive_cases mm_stepE: "mm_step s t"

inductive mm_reachable :: "nat \<Rightarrow> string set \<Rightarrow> multi_main \<Rightarrow> bool" for ttl hosts where
  start: "mm_reachable ttl hosts (new_multi_main ttl hosts)"
| step: "mm_reachable ttl hosts s \<Longrightarrow> mm_step s t \<Longrightarrow> mm_reachable ttl hosts t"

section \<open>One leader\<close>

definition leads_or_lapsed :: "multi_main \<Rightarrow> bool" where
  "leads_or_lapsed s \<longleftrightarrow> (\<forall>h \<in> mm_leaders s. h \<in> mm_lapsed s \<or> key_holder s = Some h) \<and>
     (\<forall>(h, c) \<in> set (mm_calls s). c = AnsweredSet True \<longrightarrow> h \<in> mm_lapsed s \<or> key_holder s = Some h)"

lemmas mm_defs = call_def markAsFollower_def markAsLeader_def tryBecomeLeader_def set_answered_def get_answered_def
  mm_shutdown_def mm_exit_def answer_def finish_def mm_emit_def

lemma holds_simps [simp]:
  "key_holder (setExpiration s) = key_holder s" "mm_leaders (setExpiration s) = mm_leaders s"
  "mm_lapsed (setExpiration s) = mm_lapsed s" "mm_calls (setExpiration s) = mm_calls s"
  "key_holder (drop_key s) = None" "mm_leaders (drop_key s) = mm_leaders s" "mm_calls (drop_key s) = mm_calls s"
  "mm_lapsed (drop_key s) = mm_lapsed s \<union> set_option (key_holder s)"
  by (simp_all add: setExpiration_def drop_key_def key_holder_def map_option_case split: option.split)

lemma drop_key_inv: "leads_or_lapsed s \<Longrightarrow> leads_or_lapsed (drop_key s)"
  unfolding leads_or_lapsed_def holds_simps by (fastforce split: prod.splits)

lemma tick_inv: "leads_or_lapsed s \<Longrightarrow> leads_or_lapsed (tick s)"
  by (auto simp: tick_def drop_key_inv split: option.split nat.split)
    (auto simp: leads_or_lapsed_def key_holder_def)

lemma calls_inv:
  assumes "leads_or_lapsed s" "key_holder t = key_holder s" "mm_lapsed t = mm_lapsed s" "mm_leaders t \<subseteq> mm_leaders s"
    and "\<forall>(h, c) \<in> set (mm_calls t). c = AnsweredSet True \<longrightarrow> (h, c) \<in> set (mm_calls s)"
  shows "leads_or_lapsed t"
  using assms by (fastforce simp: leads_or_lapsed_def)

lemma finish_calls: "set (mm_calls (finish i s)) \<subseteq> set (mm_calls s)"
  by (simp add: finish_def set_remove_at_subset)

lemma answer_calls: "e \<in> set (mm_calls (answer i c s)) \<Longrightarrow> e \<in> set (mm_calls s) \<or> snd e = c"
  by (auto simp: answer_def dest!: subsetD [OF set_update_subset_insert])

lemma finish_inv: "leads_or_lapsed s \<Longrightarrow> leads_or_lapsed (finish i s)"
  by (erule calls_inv) (use finish_calls [of i s] in \<open>auto simp: finish_def key_holder_def\<close>)

lemma mm_step_inv: "mm_step s t \<Longrightarrow> leads_or_lapsed s \<Longrightarrow> leads_or_lapsed t"
proof (induction rule: mm_step.induct)
  case (redis_set s i host success t)
  show ?case
  proof (cases "mm_key s")
    case None
    with redis_set have t: "t = s\<lparr>mm_key := Some (host, None), mm_lapsed := mm_lapsed s - {host}\<rparr>" "success"
      by (auto simp: setIfNotExists_def)
    have calls: "mm_calls s ! i = (host, SentSet)" using redis_set(1) by (simp add: pending_def)
    have lapsed: "h \<in> mm_lapsed s" if "h \<in> mm_leaders s \<or> (h, AnsweredSet True) \<in> set (mm_calls s)" for h
      using that redis_set(3) None by (auto simp: leads_or_lapsed_def key_holder_def)
    have "h = host \<or> (h, c) \<in> set (mm_calls s)" if "(h, c) \<in> set (mm_calls (answer i (AnsweredSet success) t))" for h c
      using that calls t(1) by (auto simp: answer_def dest!: subsetD [OF set_update_subset_insert])
    with lapsed show ?thesis using t by (fastforce simp: leads_or_lapsed_def key_holder_def answer_def)
  next
    case (Some k)
    with redis_set have "t = s" "success = False" by (auto simp: setIfNotExists_def)
    with redis_set(3) show ?thesis
      by - (rule calls_inv, auto simp: answer_def key_holder_def dest!: subsetD [OF set_update_subset_insert])
  qed
next
  case (resume_set s i host success)
  show ?case
  proof (cases success)
    case True
    with resume_set have "host \<in> mm_lapsed s \<or> key_holder s = Some host"
      using nth_mem [of i "mm_calls s"] by (fastforce simp: leads_or_lapsed_def pending_def)
    with True finish_inv [OF resume_set(2), of i] show ?thesis
      by (auto simp: leads_or_lapsed_def mm_defs key_holder_def)
  next
    case False
    with finish_inv [OF resume_set(2), of i] show ?thesis
      by - (rule calls_inv, auto simp: set_answered_def markAsFollower_def key_holder_def)
  qed
next
  case (redis_clear s i host)
  from finish_inv [OF drop_key_inv [OF redis_clear(2)]] show ?case .
next
  case (time_passes s)
  then show ?case by (rule tick_inv)
next
  case (redis_renew s i host)
  show ?case
    by - (rule calls_inv [OF finish_inv [OF redis_renew(2), of i]],
        auto simp: finish_def key_holder_def setExpiration_def map_option_case split: option.split)
next
  case (redis_expire s i host)
  then show ?case
    by - (rule calls_inv, auto simp: answer_def key_holder_def setExpiration_def map_option_case split: option.split
        dest!: subsetD [OF set_update_subset_insert])
next
  case (redis_get s i host)
  then show ?case
    by - (rule calls_inv, auto simp: answer_def key_holder_def dest!: subsetD [OF set_update_subset_insert])
next
  case (resume_get s i host leaderId)
  show ?case
    by (rule calls_inv [OF finish_inv [OF resume_get(2), of i]])
      (auto simp: mm_defs key_holder_def split: option.split)
next
  case (resume_expire s i host)
  show ?case
    by (rule calls_inv [OF finish_inv [OF resume_expire(2), of i]]) (auto simp: mm_defs key_holder_def)
next
  case (shut_down host s)
  then show ?case by - (rule calls_inv [of s], auto simp: mm_defs key_holder_def Let_def)
next
  case (dies s host)
  then show ?case by - (rule calls_inv [of s], auto simp: mm_defs key_holder_def)
qed (rule calls_inv, auto simp: mm_defs key_holder_def)+

lemma start_inv: "leads_or_lapsed (new_multi_main ttl hosts)"
  by (simp add: leads_or_lapsed_def new_multi_main_def)

lemma mm_reachable_inv: "mm_reachable ttl hosts s \<Longrightarrow> leads_or_lapsed s"
  by (induction rule: mm_reachable.induct) (auto intro: start_inv mm_step_inv)

text \<open>C35: Several mains: of two instances that lead at the same time, at least one held the key before,
  has lost it and has not got it back; and a leader that has not lost it is the one the key names. So
  while no leader fails to renew the key in time there is one leader at most.\<close>

theorem one_current_leader:
  assumes "mm_reachable ttl hosts s"
  shows "mm_leaders s - mm_lapsed s \<subseteq> set_option (key_holder s) \<and> card (mm_leaders s - mm_lapsed s) \<le> 1"
proof -
  have sub: "mm_leaders s - mm_lapsed s \<subseteq> set_option (key_holder s)"
    using mm_reachable_inv [OF assms] by (auto simp: leads_or_lapsed_def)
  then show ?thesis using card_mono [OF _ sub] by (cases "key_holder s") auto
qed

section \<open>A key without expiry\<close>

text \<open>
  A main sets the key and then its expiry; when it dies between the two calls the key stays. The state
  that follows: nobody leads, the key names an instance that is gone, and no call is pending that
  could change that.
\<close>

definition harmless :: "string \<Rightarrow> string \<times> leader_call \<Rightarrow> bool" where
  "harmless holder e = (case e of (host, c) \<Rightarrow> host \<noteq> holder \<and>
     (c = SentGet \<or> c = AnsweredGet (Some holder) \<or> c = SentSet \<or> c = AnsweredSet False))"

definition orphaned :: "string \<Rightarrow> multi_main \<Rightarrow> bool" where
  "orphaned holder s \<longleftrightarrow> mm_key s = Some (holder, None) \<and> mm_leaders s = {} \<and> holder \<notin> mm_up s \<and>
     list_all (harmless holder) (mm_calls s)"

lemma harmless_pending: "pending s i host c \<Longrightarrow> list_all (harmless holder) (mm_calls s) \<Longrightarrow> harmless holder (host, c)"
  by (auto simp: pending_def list_all_length)

lemma harmless_calls:
  "list_all P xs \<Longrightarrow> list_all P (remove_at i xs)"
  "list_all P xs \<Longrightarrow> list_all P (filter Q xs)"
  "list_all P xs \<Longrightarrow> P y \<Longrightarrow> list_all P (xs[i := y])"
  using set_remove_at_subset [of i xs]
  by (auto simp: list_all_iff dest!: subsetD [OF set_update_subset_insert])

lemma harmless_simps [simp]:
  "harmless h (host, SentGet) \<longleftrightarrow> host \<noteq> h" "harmless h (host, SentSet) \<longleftrightarrow> host \<noteq> h"
  "harmless h (host, AnsweredGet i) \<longleftrightarrow> host \<noteq> h \<and> i = Some h"
  "harmless h (host, AnsweredSet b) \<longleftrightarrow> host \<noteq> h \<and> \<not> b"
  "\<not> harmless h (host, SentRenew)" "\<not> harmless h (host, SentExpiration)"
  "\<not> harmless h (host, AnsweredExpiration)" "\<not> harmless h (host, SentClear)"
  by (auto simp: harmless_def)

lemma orphaned_pending: "pending s i host c \<Longrightarrow> orphaned h s \<Longrightarrow> harmless h (host, c)"
  using harmless_pending by (simp add: orphaned_def)

lemma orphaned_step: "mm_step s t \<Longrightarrow> orphaned holder s \<Longrightarrow> orphaned holder t"
proof (induction rule: mm_step.induct)
  case (redis_get s i host)
  then show ?case using orphaned_pending [OF redis_get]
    by (auto simp: orphaned_def answer_def key_holder_def pending_def intro!: harmless_calls)
next
  case (redis_set s i host success t)
  then show ?case using orphaned_pending [OF redis_set(1,3)]
    by (auto simp: orphaned_def answer_def setIfNotExists_def pending_def intro!: harmless_calls)
next
  case (resume_get s i host leaderId)
  then show ?case using orphaned_pending [OF resume_get]
    by (auto simp: orphaned_def get_answered_def finish_def intro!: harmless_calls)
next
  case (resume_set s i host success)
  then show ?case using orphaned_pending [OF resume_set]
    by (auto simp: orphaned_def set_answered_def markAsFollower_def finish_def intro!: harmless_calls)
next
  case (redis_renew s i host) then show ?case by (auto dest: orphaned_pending)
next
  case (redis_expire s i host) then show ?case by (auto dest: orphaned_pending)
next
  case (redis_clear s i host) then show ?case by (auto dest: orphaned_pending)
next
  case (resume_expire s i host) then show ?case by (auto dest: orphaned_pending)
qed (auto simp: orphaned_def mm_defs tick_def Let_def intro!: harmless_calls)

lemma orphaned_steps: "mm_step\<^sup>*\<^sup>* s t \<Longrightarrow> orphaned holder s \<Longrightarrow> orphaned holder t"
  by (induction rule: rtranclp_induct) (auto intro: orphaned_step)

section \<open>A leader is found\<close>

lemma tick_steps: "mm_key s = Some (h, Some n) \<Longrightarrow> \<exists>t. mm_step\<^sup>*\<^sup>* s t \<and> mm_key t = None \<and> mm_up t = mm_up s"
proof (induction n arbitrary: s)
  case 0
  then have "mm_key (tick s) = None" "mm_up (tick s) = mm_up s" by (simp_all add: tick_def drop_key_def)
  then show ?case using mm_step.time_passes by blast
next
  case (Suc n)
  show ?case
  proof (cases n)
    case 0
    with Suc have "mm_key (tick s) = None" "mm_up (tick s) = mm_up s" by (simp_all add: tick_def drop_key_def)
    then show ?thesis using mm_step.time_passes by blast
  next
    case (Suc m)
    with Suc.prems have "mm_key (tick s) = Some (h, Some n)" "mm_up (tick s) = mm_up s" by (simp_all add: tick_def)
    then show ?thesis using Suc.IH [of "tick s"] mm_step.time_passes [of s]
      by (metis converse_rtranclp_into_rtranclp)
  qed
qed

lemma remove_last [simp]: "remove_at (length xs) (xs @ [y]) = xs"
  by (simp add: remove_at_def)

lemma vacant_key_taken:
  assumes "mm_key s = None" "host \<in> mm_up s"
  shows "\<exists>t. mm_step\<^sup>*\<^sup>* s t \<and> host \<in> mm_leaders t \<and> key_holder t = Some host"
proof -
  let ?i = "length (mm_calls s)"
  let ?a = "call host SentSet s" let ?b = "answer ?i (AnsweredSet True) (snd (setIfNotExists host ?a))"
  let ?c = "set_answered host True (finish ?i ?b)"
  have "mm_step s ?a" using mm_step.init [OF assms(2)] by (simp add: tryBecomeLeader_def)
  moreover have "mm_step ?a ?b"
    by (rule mm_step.redis_set [of _ _ host]) (simp_all add: pending_def call_def setIfNotExists_def assms(1))
  moreover have "mm_step ?b ?c"
    by (rule mm_step.resume_set) (simp add: pending_def call_def setIfNotExists_def answer_def assms(1))
  moreover have "host \<in> mm_leaders ?c \<and> key_holder ?c = Some host"
    by (simp add: mm_defs setIfNotExists_def key_holder_def assms(1))
  ultimately show ?thesis by (meson converse_rtranclp_into_rtranclp rtranclp.rtrancl_refl)
qed

lemma expiring_key_taken:
  assumes "mm_key s = Some (h, Some n)" "host \<in> mm_up s"
  shows "\<exists>t. mm_step\<^sup>*\<^sup>* s t \<and> host \<in> mm_leaders t \<and> key_holder t = Some host"
  using tick_steps [OF assms(1)] vacant_key_taken assms(2) by (metis rtranclp_trans)

text \<open>A key without expiry is about to get one, unless the instance that set it has gone.\<close>

definition expiry_due :: "multi_main \<Rightarrow> bool" where
  "expiry_due s = (case mm_key s of
     Some (h, None) \<Rightarrow> h \<in> mm_up s \<longrightarrow> (h, AnsweredSet True) \<in> set (mm_calls s) \<or> (h, SentExpiration) \<in> set (mm_calls s)
   | _ \<Rightarrow> True)"

lemma expiry_due_keep:
  assumes "expiry_due s" "mm_key t = mm_key s" "mm_up t \<subseteq> mm_up s"
    and "\<And>h. h \<in> mm_up t \<Longrightarrow> (h, AnsweredSet True) \<in> set (mm_calls s) \<Longrightarrow>
      (h, AnsweredSet True) \<in> set (mm_calls t) \<or> (h, SentExpiration) \<in> set (mm_calls t)"
    and "\<And>h. h \<in> mm_up t \<Longrightarrow> (h, SentExpiration) \<in> set (mm_calls s) \<Longrightarrow> (h, SentExpiration) \<in> set (mm_calls t)"
  shows "expiry_due t"
  using assms by (fastforce simp: expiry_due_def split: option.splits prod.splits)

lemma kept_remove: "pending s i host c \<Longrightarrow> e \<in> set (mm_calls s) \<Longrightarrow> e = (host, c) \<or> e \<in> set (remove_at i (mm_calls s))"
  using insert_remove_at [of i "mm_calls s"] by (auto simp: pending_def)

lemma kept_update: "pending s i host c \<Longrightarrow> e \<in> set (mm_calls s) \<Longrightarrow> e = (host, c) \<or> e \<in> set ((mm_calls s)[i := x])"
  unfolding pending_def in_set_conv_nth by (metis length_list_update nth_list_update_neq)

lemma expiry_due_step: "mm_step s t \<Longrightarrow> expiry_due s \<Longrightarrow> expiry_due t"
proof (induction rule: mm_step.induct)
  case (redis_get s i host)
  then show ?case
    by - (rule expiry_due_keep [of s], auto simp: answer_def dest: kept_update [OF redis_get(1)])
next
  case (redis_set s i host success t)
  show ?case
  proof (cases "mm_key s")
    case None
    with redis_set show ?thesis by (auto simp: setIfNotExists_def expiry_due_def answer_def pending_def set_update_memI)
  next
    case (Some k)
    with redis_set have "t = s" "\<not> success" by (auto simp: setIfNotExists_def)
    with redis_set show ?thesis
      by - (rule expiry_due_keep [of s], auto simp: answer_def dest: kept_update [OF redis_set(1)])
  qed
next
  case (resume_get s i host leaderId)
  then show ?case
    by - (rule expiry_due_keep [of s], auto simp: mm_defs dest: kept_remove [OF resume_get(1)] split: option.split)
next
  case (resume_set s i host success)
  then show ?case
    by - (rule expiry_due_keep [of s], auto simp: mm_defs dest: kept_remove [OF resume_set(1)])
next
  case (resume_expire s i host)
  then show ?case
    by - (rule expiry_due_keep [of s], auto simp: mm_defs dest: kept_remove [OF resume_expire(1)])
next
  case (time_passes s)
  then show ?case by (auto simp: expiry_due_def tick_def drop_key_def split: option.splits nat.splits)
next
  case (redis_renew s i host)
  then show ?case by (auto simp: expiry_due_def finish_def setExpiration_def split: option.splits)
next
  case (redis_expire s i host)
  then show ?case by (auto simp: expiry_due_def answer_def setExpiration_def split: option.splits)
next
  case (redis_clear s i host)
  then show ?case by (auto simp: expiry_due_def finish_def drop_key_def)
next
  case (dies s host)
  then show ?case by - (rule expiry_due_keep [of s], auto simp: mm_exit_def)
next
  case (shut_down host s)
  then show ?case by - (rule expiry_due_keep [of s], auto simp: mm_shutdown_def Let_def call_def)
qed (rule expiry_due_keep, assumption, auto simp: mm_defs)+

lemma expiry_comes:
  assumes "mm_key s = Some (h, None)" "(h, AnsweredSet True) \<in> set (mm_calls s) \<or> (h, SentExpiration) \<in> set (mm_calls s)"
  shows "\<exists>t n. mm_step\<^sup>*\<^sup>* s t \<and> mm_key t = Some (h, Some n) \<and> mm_up t = mm_up s"
proof -
  have expire: "\<exists>t n. mm_step\<^sup>*\<^sup>* s t \<and> mm_key t = Some (h, Some n) \<and> mm_up t = mm_up s"
    if key: "mm_key s = Some (h, None)" and sent: "(h, SentExpiration) \<in> set (mm_calls s)" for s
  proof -
    from sent obtain i where "pending s i h SentExpiration" by (auto simp: pending_def in_set_conv_nth)
    from mm_step.redis_expire [OF this] key show ?thesis
      by (intro exI [of _ "answer i AnsweredExpiration (setExpiration s)"]) (auto simp: answer_def setExpiration_def)
  qed
  show ?thesis
  proof (cases "(h, SentExpiration) \<in> set (mm_calls s)")
    case False
    with assms obtain i where "pending s i h (AnsweredSet True)" by (auto simp: pending_def in_set_conv_nth)
    note step = mm_step.resume_set [OF this]
    have "\<exists>t n. mm_step\<^sup>*\<^sup>* (set_answered h True (finish i s)) t \<and> mm_key t = Some (h, Some n) \<and> mm_up t = mm_up s"
      using expire [of "set_answered h True (finish i s)"] assms(1) by (simp add: mm_defs)
    with step show ?thesis by (meson converse_rtranclp_into_rtranclp)
  qed (use expire assms(1) in blast)
qed

lemma mm_reachable_due: "mm_reachable ttl hosts s \<Longrightarrow> expiry_due s"
proof (induction rule: mm_reachable.induct)
  case start
  show ?case by (simp add: expiry_due_def new_multi_main_def)
qed (auto intro: expiry_due_step)

text \<open>C36: Unless the main that set the key has gone before it set the expiry, every main that is up can
  become the leader and then holds the key.\<close>

theorem leader_found:
  assumes "mm_reachable ttl hosts s" "host \<in> mm_up s" "\<forall>h. mm_key s = Some (h, None) \<longrightarrow> h \<in> mm_up s"
  shows "\<exists>t. mm_step\<^sup>*\<^sup>* s t \<and> host \<in> mm_leaders t \<and> key_holder t = Some host"
proof (cases "\<exists>h. mm_key s = Some (h, None)")
  case True
  then obtain h t n where "mm_step\<^sup>*\<^sup>* s t" "mm_key t = Some (h, Some n)" "mm_up t = mm_up s"
    using expiry_comes mm_reachable_due [OF assms(1)] assms(3) by (fastforce simp: expiry_due_def)
  with expiring_key_taken [of t h n host] assms(2) show ?thesis by (metis rtranclp_trans)
next
  case False
  then consider "mm_key s = None" | h n where "mm_key s = Some (h, Some n)" by (cases "mm_key s") fastforce+
  then show ?thesis by cases (use vacant_key_taken expiring_key_taken assms(2) in blast)+
qed

section \<open>Examples\<close>

text \<open>Two mains; the first sets the key and dies before it sets the expiry.\<close>

definition two_mains :: multi_main where
  "two_mains = new_multi_main 10 {''a'', ''b''}"

definition a_set :: multi_main where
  "a_set = answer 0 (AnsweredSet True) (snd (setIfNotExists ''a'' (tryBecomeLeader ''a'' two_mains)))"

definition a_died :: multi_main where
  "a_died = mm_exit ''a'' a_set"

lemmas example_defs = two_mains_def a_set_def a_died_def new_multi_main_def setIfNotExists_def

lemma a_set_reachable: "mm_reachable 10 {''a'', ''b''} a_set"
proof -
  have "mm_step two_mains (tryBecomeLeader ''a'' two_mains)"
    by (rule mm_step.init) (simp add: example_defs)
  moreover have "mm_step (tryBecomeLeader ''a'' two_mains) a_set" unfolding a_set_def
    by (rule mm_step.redis_set [of _ _ "''a''"]) (simp_all add: example_defs pending_def mm_defs)
  ultimately show ?thesis using mm_reachable.intros by (metis two_mains_def)
qed

theorem one_current_leader_witness:
  "mm_leaders (set_answered ''a'' True (finish 0 a_set)) = {''a''} \<and>
   card (mm_leaders (set_answered ''a'' True (finish 0 a_set)) - mm_lapsed (set_answered ''a'' True (finish 0 a_set))) = 1"
proof -
  have "mm_step a_set (set_answered ''a'' True (finish 0 a_set))"
    by (rule mm_step.resume_set) (simp add: example_defs pending_def mm_defs)
  from one_current_leader [OF mm_reachable.step [OF a_set_reachable this]] show ?thesis
    by (simp add: example_defs mm_defs)
qed

theorem leader_found_witness:
  "\<exists>t. mm_step\<^sup>*\<^sup>* a_set t \<and> ''b'' \<in> mm_leaders t \<and> key_holder t = Some ''b''"
  by (rule leader_found [OF a_set_reachable]) (simp_all add: example_defs mm_defs)

text \<open>A main that sets the key and dies before it sets the expiry leaves a reachable state after which
  nobody leads any more, whatever happens, although another main is up.\<close>

theorem dead_main_blocks_key:
  "mm_reachable 10 {''a'', ''b''} a_died \<and> ''b'' \<in> mm_up a_died \<and> {t. mm_step\<^sup>*\<^sup>* a_died t} \<subseteq> {t. mm_leaders t = {}}"
proof -
  have "mm_reachable 10 {''a'', ''b''} a_died"
    unfolding a_died_def by (rule mm_reachable.step [OF a_set_reachable mm_step.dies])
  moreover have "orphaned ''a'' a_died" by (simp add: orphaned_def example_defs mm_defs)
  ultimately show ?thesis using orphaned_steps [of a_died _ "''a''"]
    by (auto simp: orphaned_def example_defs mm_defs)
qed

end
