(* ===== verification/WaitTracker.thy ===== *)
theory WaitTracker
  imports ActiveExecutions
begin

text \<open>
  Executions that wait (\<open>packages/cli/src/wait-tracker.ts\<close>) and how an execution is stopped
  (\<open>packages/cli/src/executions/execution.service.ts\<close>), over the rows of the executions in the database
  and the executions that are active in the process.

  The tracker has a timer for each execution that is due within 70 seconds. Timers, intervals and the
  answers of the database are pending in the state until an event handles them: a query takes its
  answer when it is sent, and the rest of \<open>getWaitingExecutions\<close> or \<open>stop\<close> works on that answer.
\<close>

section \<open>State\<close>

record execution_row =
  row_id :: string
  row_mode :: ExecutionMode
  row_status :: ExecutionStatus
  row_finished :: bool
  row_waitTill :: "int option"
  row_stoppedAt :: "int option"
  row_workflowSaved :: bool
  row_parent :: "string option"

text \<open>
  A timer has a handle, the execution it starts and the time at which it is due. \<open>wt_runs\<close> are the calls of
  \<open>run\<close> that have not registered their execution yet, with the parent to resume; \<open>wt_children\<close> those that
  have, with the address of the execution; \<open>wt_stops\<close> the requests to stop an execution that wait for the
  answer to their query, with that answer.
\<close>

record tracker_state =
  wt_regular :: bool
  wt_rows :: "execution_row list"
  wt_active :: ActiveExecutions
  wt_waiting :: "(string, nat) js_map"
  wt_timers :: "(nat \<times> string \<times> int) list"
  wt_handles :: nat
  wt_mainTimer :: "nat option"
  wt_intervals :: "nat list"
  wt_polls :: "(string \<times> int) list list"
  wt_starts :: "string list"
  wt_runs :: "(string \<times> string option) list"
  wt_children :: "(nat \<times> string) list"
  wt_stops :: "(string \<times> execution_row option) list"
  wt_errors :: "js_error list"

definition new_tracker :: "bool \<Rightarrow> ConcurrencyControlService \<Rightarrow> execution_row list \<Rightarrow> tracker_state" where
  "new_tracker regular service rows = \<lparr>wt_regular = regular, wt_rows = rows, wt_active = new_active regular service,
     wt_waiting = [], wt_timers = [], wt_handles = 0, wt_mainTimer = None, wt_intervals = [], wt_polls = [],
     wt_starts = [], wt_runs = [], wt_children = [], wt_stops = [], wt_errors = []\<rparr>"

section \<open>The rows\<close>

definition findSingleExecution :: "string \<Rightarrow> tracker_state \<Rightarrow> execution_row option" where
  "findSingleExecution executionId s = find (\<lambda>r. row_id r = executionId) (wt_rows s)"

definition update_row :: "string \<Rightarrow> (execution_row \<Rightarrow> execution_row) \<Rightarrow> tracker_state \<Rightarrow> tracker_state" where
  "update_row executionId f s = s\<lparr>wt_rows := map (\<lambda>r. if row_id r = executionId then f r else r) (wt_rows s)\<rparr>"

text \<open>The executions to resume in the next 70 seconds, by time.\<close>

definition upcoming :: "int \<Rightarrow> execution_row \<Rightarrow> bool" where
  "upcoming now r = (case row_waitTill r of
     None \<Rightarrow> False | Some t \<Rightarrow> t \<le> now + 70000 \<and> row_status r \<noteq> Crashed)"

definition find_waiting_rows :: "int \<Rightarrow> execution_row list \<Rightarrow> (string \<times> int) list" where
  "find_waiting_rows now rows =
     sort_key snd (map (\<lambda>r. (row_id r, case row_waitTill r of Some t \<Rightarrow> t | None \<Rightarrow> 0)) (filter (upcoming now) rows))"

definition stopBeforeRun :: "int \<Rightarrow> execution_row \<Rightarrow> execution_row" where
  "stopBeforeRun now r = r\<lparr>row_status := Canceled, row_stoppedAt := Some now\<rparr>"

definition stopDuringRun :: "int \<Rightarrow> execution_row \<Rightarrow> execution_row" where
  "stopDuringRun now r = r\<lparr>row_status := Canceled, row_stoppedAt := Some now, row_waitTill := None\<rparr>"

section \<open>The tracker\<close>

definition wt_has :: "tracker_state \<Rightarrow> string \<Rightarrow> bool" where
  "wt_has s executionId \<longleftrightarrow> map_of (wt_waiting s) executionId \<noteq> None"

definition clear_timer :: "nat \<Rightarrow> tracker_state \<Rightarrow> tracker_state" where
  "clear_timer h s = s\<lparr>wt_timers := filter (\<lambda>(h', _). h' \<noteq> h) (wt_timers s)\<rparr>"

definition getWaitingExecutions :: "int \<Rightarrow> tracker_state \<Rightarrow> tracker_state" where
  "getWaitingExecutions now s = s\<lparr>wt_polls := wt_polls s @ [find_waiting_rows now (wt_rows s)]\<rparr>"

definition track_execution :: "tracker_state \<Rightarrow> string \<times> int \<Rightarrow> tracker_state" where
  "track_execution s execution = (case execution of (executionId, waitTill) \<Rightarrow>
     if wt_has s executionId then s
     else s\<lparr>wt_waiting := map_set executionId (wt_handles s) (wt_waiting s),
            wt_timers := wt_timers s @ [(wt_handles s, executionId, waitTill)],
            wt_handles := Suc (wt_handles s)\<rparr>)"

text \<open>The rest of \<open>getWaitingExecutions\<close>, for a query that has been answered.\<close>

definition poll_answered :: "nat \<Rightarrow> tracker_state \<Rightarrow> tracker_state" where
  "poll_answered i s = (if i < length (wt_polls s)
     then foldl track_execution (s\<lparr>wt_polls := remove_at i (wt_polls s)\<rparr>) (wt_polls s ! i) else s)"

definition startTracking :: "int \<Rightarrow> tracker_state \<Rightarrow> tracker_state" where
  "startTracking now s = getWaitingExecutions now (s\<lparr>wt_mainTimer := Some (wt_handles s),
     wt_intervals := wt_intervals s @ [wt_handles s], wt_handles := Suc (wt_handles s)\<rparr>)"

definition interval_fires :: "nat \<Rightarrow> int \<Rightarrow> tracker_state \<Rightarrow> tracker_state" where
  "interval_fires h now s = (if h \<in> set (wt_intervals s) then getWaitingExecutions now s else s)"

definition stopTracking :: "tracker_state \<Rightarrow> tracker_state" where
  "stopTracking s = foldl (\<lambda>t h. clear_timer h t)
     (s\<lparr>wt_intervals := (case wt_mainTimer s of None \<Rightarrow> wt_intervals s | Some h \<Rightarrow> removeAll h (wt_intervals s))\<rparr>)
     (map_values (wt_waiting s))"

definition wt_init :: "bool \<Rightarrow> int \<Rightarrow> tracker_state \<Rightarrow> tracker_state" where
  "wt_init isLeader now s = (if isLeader then startTracking now s else s)"

definition wt_stopExecution :: "string \<Rightarrow> tracker_state \<Rightarrow> tracker_state" where
  "wt_stopExecution executionId s =
     (case map_of (wt_waiting s) executionId of
        None \<Rightarrow> s
      | Some h \<Rightarrow> (clear_timer h s)\<lparr>wt_waiting := map_delete executionId (wt_waiting s)\<rparr>)"

text \<open>\<open>startExecution\<close> up to its query.\<close>

definition startExecution :: "string \<Rightarrow> tracker_state \<Rightarrow> tracker_state" where
  "startExecution executionId s = s\<lparr>wt_waiting := map_delete executionId (wt_waiting s),
     wt_starts := wt_starts s @ [executionId]\<rparr>"

definition wt_timer_fires :: "nat \<Rightarrow> tracker_state \<Rightarrow> tracker_state" where
  "wt_timer_fires h s = (case find (\<lambda>(h', _). h' = h) (wt_timers s) of
     None \<Rightarrow> s
   | Some (_, executionId, _) \<Rightarrow> startExecution executionId (clear_timer h s))"

text \<open>Why an execution cannot be resumed.\<close>

definition resume_error :: "execution_row option \<Rightarrow> js_error option" where
  "resume_error found = (case found of
     None \<Rightarrow> Some (ApplicationError ''Execution does not exist.'')
   | Some r \<Rightarrow>
       if row_finished r then Some (ApplicationError ''The execution did succeed and can so not be started again.'')
       else if \<not> row_workflowSaved r then Some (ApplicationError ''Only saved workflows can be resumed.'')
       else None)"

text \<open>The rest of \<open>startExecution\<close>, up to the promise of \<open>run\<close>.\<close>

definition start_answered :: "nat \<Rightarrow> tracker_state \<Rightarrow> tracker_state" where
  "start_answered i s =
     (if i < length (wt_starts s) then
        let executionId = wt_starts s ! i;
            fullExecutionData = findSingleExecution executionId s;
            s1 = s\<lparr>wt_starts := remove_at i (wt_starts s)\<rparr>
        in case (resume_error fullExecutionData, fullExecutionData) of
             (None, Some r) \<Rightarrow> s1\<lparr>wt_active := add_execution (row_mode r) executionId True (wt_active s1),
                                  wt_runs := wt_runs s1 @ [(executionId, row_parent r)]\<rparr>
           | (Some e, _) \<Rightarrow> s1\<lparr>wt_errors := wt_errors s1 @ [e]\<rparr>
           | _ \<Rightarrow> s1
      else s)"

text \<open>
  The call of \<open>add\<close> that may go on: it updates the row of an execution that is resumed, and
  registers it. Then the parent of a resumed execution waits for it.
\<close>

definition run_registered :: "string \<Rightarrow> nat \<Rightarrow> tracker_state \<Rightarrow> tracker_state" where
  "run_registered executionId a s =
     (case find_index (\<lambda>(i, _). i = executionId) (wt_runs s) of
        None \<Rightarrow> s
      | Some i \<Rightarrow> s\<lparr>wt_runs := remove_at i (wt_runs s),
          wt_children := (case snd (wt_runs s ! i) of None \<Rightarrow> wt_children s | Some p \<Rightarrow> wt_children s @ [(a, p)])\<rparr>)"

definition tracker_register :: "string \<Rightarrow> int \<Rightarrow> tracker_state \<Rightarrow> tracker_state" where
  "tracker_register executionId now s =
     (case find (\<lambda>p. pa_id p = executionId \<and> pa_go p) (ax_pending (wt_active s)) of
        None \<Rightarrow> s
      | Some p \<Rightarrow>
          let a = length (ax_objects (wt_active s));
              s1 = s\<lparr>wt_active := register executionId now (wt_active s)\<rparr>;
              s2 = update_row executionId (\<lambda>r. if pa_resuming p then r\<lparr>row_waitTill := None, row_status := Running\<rparr>
                                              else r\<lparr>row_status := Running\<rparr>) s1
          in if pa_resuming p then run_registered executionId a s2 else s2)"

text \<open>\<open>getPostExecutePromise(executionId).then(...)\<close>: a child that was cancelled does not resume its parent.\<close>

definition resume_parent :: "nat \<Rightarrow> tracker_state \<Rightarrow> tracker_state" where
  "resume_parent i s =
     (if i < length (wt_children s) then
        case wt_children s ! i of (a, p) \<Rightarrow>
          case ae_postExecute (ax_objects (wt_active s) ! a) of
            Some (ResolvedWith r) \<Rightarrow> startExecution p (s\<lparr>wt_children := remove_at i (wt_children s)\<rparr>)
          | _ \<Rightarrow> s
      else s)"

section \<open>Stopping an execution\<close>

datatype stop_error = MissingExecutionStopError string | WorkflowOperationError string ExecutionStatus

definition assertStoppable :: "execution_row \<Rightarrow> stop_error option" where
  "assertStoppable r = (if row_status r \<in> {NewStatus, UnknownStatus, Waiting, Running} then None
     else Some (WorkflowOperationError (row_id r) (row_status r)))"

definition stop_active_and_waiting :: "string \<Rightarrow> tracker_state \<Rightarrow> tracker_state" where
  "stop_active_and_waiting executionId s =
     (let s1 = (if ax_has (wt_active s) executionId then s\<lparr>wt_active := stopExecution executionId (wt_active s)\<rparr> else s)
      in if wt_has s1 executionId then wt_stopExecution executionId s1 else s1)"

text \<open>\<open>stopDuringRun\<close> saves the whole execution as it was when it was read.\<close>

definition save_stopped :: "int \<Rightarrow> execution_row \<Rightarrow> tracker_state \<Rightarrow> tracker_state" where
  "save_stopped now r s = update_row (row_id r) (\<lambda>_. stopDuringRun now r) s"

definition stopInRegularMode :: "int \<Rightarrow> execution_row \<Rightarrow> tracker_state \<Rightarrow> tracker_state" where
  "stopInRegularMode now r s =
     (if ccs_has (ax_concurrency (wt_active s)) (row_id r) then
        update_row (row_id r) (stopBeforeRun now)
          (s\<lparr>wt_active := removeHeldBack (row_mode r) (row_id r) (wt_active s)\<rparr>)
      else save_stopped now r (stop_active_and_waiting (row_id r) s))"

definition stopInScalingMode :: "int \<Rightarrow> execution_row \<Rightarrow> tracker_state \<Rightarrow> tracker_state" where
  "stopInScalingMode now r s =
     save_stopped now r (stop_active_and_waiting (row_id r) s)"

text \<open>\<open>stop\<close> up to its query, and the rest for the answer; the answer may be old by then.\<close>

definition stop_requested :: "string \<Rightarrow> tracker_state \<Rightarrow> tracker_state" where
  "stop_requested executionId s = s\<lparr>wt_stops := wt_stops s @ [(executionId, findSingleExecution executionId s)]\<rparr>"

definition stop :: "string \<Rightarrow> execution_row option \<Rightarrow> int \<Rightarrow> tracker_state \<Rightarrow> stop_error + tracker_state" where
  "stop executionId execution now s =
     (case execution of
        None \<Rightarrow> Inl (MissingExecutionStopError executionId)
      | Some r \<Rightarrow> (case assertStoppable r of
          Some e \<Rightarrow> Inl e
        | None \<Rightarrow> Inr (if wt_regular s then stopInRegularMode now r s else stopInScalingMode now r s)))"

definition stop_answered :: "nat \<Rightarrow> int \<Rightarrow> tracker_state \<Rightarrow> tracker_state" where
  "stop_answered k now s =
     (if k < length (wt_stops s) then
        let s1 = s\<lparr>wt_stops := remove_at k (wt_stops s)\<rparr> in
        case wt_stops s ! k of (executionId, execution) \<Rightarrow>
          (case stop executionId execution now s1 of Inl e \<Rightarrow> s1 | Inr s2 \<Rightarrow> s2)
      else s)"

section \<open>Events\<close>

text \<open>
  \<open>Created\<close> and \<open>Ended\<close> stand for what other parts do: a new execution is added, and one that runs ends
  or starts to wait, is saved and settles its promise.
\<close>

datatype tracker_event =
    Created ExecutionMode string
  | Registers string int
  | Ended string ExecutionStatus "int option" json
  | Settles nat
  | Leads int
  | LosesLead
  | IntervalFires nat int
  | PollAnswered nat
  | TimerFires nat
  | StartAnswered nat
  | ChildEnded nat
  | StopRequested string
  | StopAnswered nat int

definition create_execution :: "ExecutionMode \<Rightarrow> string \<Rightarrow> tracker_state \<Rightarrow> tracker_state" where
  "create_execution mode executionId s =
     (if findSingleExecution executionId s \<noteq> None then s
      else s\<lparr>wt_rows := wt_rows s @ [\<lparr>row_id = executionId, row_mode = mode, row_status = NewStatus, row_finished = False,
               row_waitTill = None, row_stoppedAt = None, row_workflowSaved = True, row_parent = None\<rparr>],
             wt_active := add_execution mode executionId False (wt_active s)\<rparr>)"

definition end_execution :: "string \<Rightarrow> ExecutionStatus \<Rightarrow> int option \<Rightarrow> json \<Rightarrow> tracker_state \<Rightarrow> tracker_state" where
  "end_execution executionId status waitTill result s =
     (if ax_has (wt_active s) executionId then
        update_row executionId (\<lambda>r. r\<lparr>row_status := status, row_waitTill := waitTill, row_finished := (status = Success)\<rparr>)
          (s\<lparr>wt_active := finalizeExecution executionId (Some result)
               (or_unchanged (wt_active s) (setStatus executionId status (wt_active s)))\<rparr>)
      else s)"

fun tracker_step :: "tracker_state \<Rightarrow> tracker_event \<Rightarrow> tracker_state" where
  "tracker_step s (Created mode i) = create_execution mode i s"
| "tracker_step s (Registers i now) = tracker_register i now s"
| "tracker_step s (Ended i status waitTill result) = end_execution i status waitTill result s"
| "tracker_step s (Settles a) = s\<lparr>wt_active := run_finally a (wt_active s)\<rparr>"
| "tracker_step s (Leads now) = startTracking now s"
| "tracker_step s LosesLead = stopTracking s"
| "tracker_step s (IntervalFires h now) = interval_fires h now s"
| "tracker_step s (PollAnswered i) = poll_answered i s"
| "tracker_step s (TimerFires h) = wt_timer_fires h s"
| "tracker_step s (StartAnswered i) = start_answered i s"
| "tracker_step s (ChildEnded i) = resume_parent i s"
| "tracker_step s (StopRequested i) = stop_requested i s"
| "tracker_step s (StopAnswered k now) = stop_answered k now s"

definition tracker_run :: "tracker_state \<Rightarrow> tracker_event list \<Rightarrow> tracker_state" where
  "tracker_run s es = foldl tracker_step s es"

end
