(* ===== verification/WaitTrackerFacts.thy ===== *)
theory WaitTrackerFacts
  imports WaitTracker
begin

text \<open>
  What holds of the timers of the wait tracker in every history, what stopping an execution
  leaves whatever happens afterwards, and what a lost leadership does to the executions that were tracked.
\<close>

section \<open>Timers and entries\<close>

text \<open>The handles of the timers of an execution.\<close>

definition timers_of :: "string \<Rightarrow> tracker_state \<Rightarrow> nat set" where
  "timers_of i s = {h. \<exists>d. (h, i, d) \<in> set (wt_timers s)}"

definition handles_ok :: "tracker_state \<Rightarrow> bool" where
  "handles_ok s \<longleftrightarrow> distinct (map_keys (wt_waiting s)) \<and> distinct (map_values (wt_waiting s)) \<and>
     distinct (map fst (wt_timers s)) \<and> (\<forall>h \<in> set (map_values (wt_waiting s)). h < wt_handles s) \<and>
     (\<forall>h \<in> fst ` set (wt_timers s). h < wt_handles s)"

text \<open>Every timer of an execution is the one of its entry, and every entry has its timer.\<close>

definition owned :: "string \<Rightarrow> tracker_state \<Rightarrow> bool" where
  "owned i s \<longleftrightarrow> handles_ok s \<and> (\<forall>h \<in> timers_of i s. map_of (wt_waiting s) i = Some h)"

definition live :: "string \<Rightarrow> tracker_state \<Rightarrow> bool" where
  "live i s \<longleftrightarrow> (\<forall>h. map_of (wt_waiting s) i = Some h \<longrightarrow> h \<in> timers_of i s)"

lemma tracker_simps [simp]:
  "wt_waiting (update_row i f s) = wt_waiting s" "wt_timers (update_row i f s) = wt_timers s"
  "wt_handles (update_row i f s) = wt_handles s" "wt_active (update_row i f s) = wt_active s"
  "wt_starts (update_row i f s) = wt_starts s" "wt_polls (update_row i f s) = wt_polls s"
  "wt_runs (update_row i f s) = wt_runs s" "wt_children (update_row i f s) = wt_children s"
  "wt_stops (update_row i f s) = wt_stops s"
  "wt_waiting (getWaitingExecutions now s) = wt_waiting s" "wt_timers (getWaitingExecutions now s) = wt_timers s"
  "wt_handles (getWaitingExecutions now s) = wt_handles s"
  by (simp_all add: update_row_def getWaitingExecutions_def)

lemma quiet:
  assumes "wt_waiting t = wt_waiting s" "wt_timers t = wt_timers s" "wt_handles s \<le> wt_handles t"
  shows "owned i s \<Longrightarrow> owned i t" "live i s \<Longrightarrow> live i t"
  using assms by (fastforce simp: owned_def live_def handles_ok_def timers_of_def)+

lemma map_value: "map_of m k = Some v \<Longrightarrow> v \<in> set (map_values m)"
  by (force dest: map_of_SomeD)

lemma same_handle:
  assumes "distinct (map_values m)" "map_of m i = Some h" "map_of m j = Some h"
  shows "i = j"
  using assms inj_onD [of snd "set m" "(i, h)" "(j, h)"] by (auto simp: distinct_map dest: map_of_SomeD)

lemma same_timer:
  assumes "handles_ok s" "(h, i, d) \<in> set (wt_timers s)" "(h, j, d') \<in> set (wt_timers s)"
  shows "i = j"
  using assms inj_onD [of fst "set (wt_timers s)" "(h, i, d)" "(h, j, d')"] by (auto simp: handles_ok_def distinct_map)

text \<open>Deleting the entry of an execution \<open>j\<close> and clearing some timers.\<close>

lemma deleted:
  assumes "owned i s" "wt_waiting t = map_delete j (wt_waiting s)" "wt_timers t = filter P (wt_timers s)"
    "wt_handles t = wt_handles s" "j = i \<Longrightarrow> timers_of i t = {}"
  shows "owned i t"
    and "live i s \<Longrightarrow> (\<And>h d. j \<noteq> i \<Longrightarrow> map_of (wt_waiting s) i = Some h \<Longrightarrow> (h, i, d) \<in> set (wt_timers s) \<Longrightarrow> P (h, i, d)) \<Longrightarrow>
      live i t"
proof -
  from assms(1-4) have "handles_ok t"
    by (auto simp: owned_def handles_ok_def distinct_map_filter map_delete_def)
  moreover have "map_of (wt_waiting t) i = Some h" if "h \<in> timers_of i t" for h
    using that assms by (cases "j = i") (auto simp: owned_def timers_of_def)
  ultimately show "owned i t" by (simp add: owned_def)
  show "live i t" if "live i s"
    "\<And>h d. j \<noteq> i \<Longrightarrow> map_of (wt_waiting s) i = Some h \<Longrightarrow> (h, i, d) \<in> set (wt_timers s) \<Longrightarrow> P (h, i, d)"
    using that assms(2,3) by (cases "j = i") (auto simp: live_def timers_of_def, blast)
qed

lemma track_execution_ok:
  assumes "owned i s"
  shows "owned i (track_execution s e)" and "live i s \<Longrightarrow> live i (track_execution s e)"
proof -
  obtain j d where e: "e = (j, d)" by fastforce
  let ?h = "wt_handles s"
  have fresh: "?h \<notin> set (map_values (wt_waiting s))" "?h \<notin> fst ` set (wt_timers s)"
    using assms by (auto simp: owned_def handles_ok_def)
  show "owned i (track_execution s e)"
  proof (cases "wt_has s j")
    case False
    then have new: "j \<notin> set (map_keys (wt_waiting s))" by (simp add: wt_has_def map_of_eq_None_iff)
    have "timers_of i s = {}" if "j = i" using assms False that by (auto simp: owned_def wt_has_def)
    moreover have "handles_ok (track_execution s e)" using assms new fresh False
      by (auto simp: e track_execution_def owned_def handles_ok_def map_set_fresh less_Suc_eq)
    ultimately show ?thesis using assms False by (auto simp: e track_execution_def owned_def timers_of_def)
  qed (use assms in \<open>simp add: e track_execution_def\<close>)
  show "live i (track_execution s e)" if "live i s"
    using that by (auto simp: e track_execution_def live_def timers_of_def)
qed

lemma tracked_ok:
  "owned i s \<Longrightarrow> owned i (foldl track_execution s es)"
  "owned i s \<Longrightarrow> live i s \<Longrightarrow> live i (foldl track_execution s es)"
  by (induction es arbitrary: s) (simp_all add: track_execution_ok)

lemma poll_answered_ok:
  assumes "owned i s"
  shows "owned i (poll_answered k s)" and "live i s \<Longrightarrow> live i (poll_answered k s)"
proof -
  let ?s = "s\<lparr>wt_polls := remove_at k (wt_polls s)\<rparr>"
  have "owned i ?s" "live i s \<Longrightarrow> live i ?s" using assms quiet [of ?s s i] by simp_all
  with tracked_ok [of i ?s "wt_polls s ! k"] assms show "owned i (poll_answered k s)"
    and "live i s \<Longrightarrow> live i (poll_answered k s)" by (simp_all add: poll_answered_def)
qed

lemma wt_stopExecution_ok:
  assumes "owned i s"
  shows "owned i (wt_stopExecution j s)" and "live i s \<Longrightarrow> live i (wt_stopExecution j s)"
proof -
  have "owned i (wt_stopExecution j s) \<and> (live i s \<longrightarrow> live i (wt_stopExecution j s))"
  proof (cases "map_of (wt_waiting s) j")
    case None
    with assms show ?thesis by (simp add: wt_stopExecution_def)
  next
    case (Some h)
    let ?t = "wt_stopExecution j s" and ?P = "\<lambda>e. fst e \<noteq> h"
    have t: "wt_waiting ?t = map_delete j (wt_waiting s)" "wt_timers ?t = filter ?P (wt_timers s)" "wt_handles ?t = wt_handles s"
      using Some by (simp_all add: wt_stopExecution_def clear_timer_def case_prod_unfold)
    have none: "timers_of i ?t = {}" if "j = i"
      using assms Some that unfolding timers_of_def t(2) owned_def by auto
    have "j = i" if "map_of (wt_waiting s) i = Some h" using same_handle [OF _ Some that] assms by (simp add: owned_def handles_ok_def)
    with deleted [OF assms t none] show ?thesis by auto
  qed
  then show "owned i (wt_stopExecution j s)" "live i s \<Longrightarrow> live i (wt_stopExecution j s)" by simp_all
qed

lemma wt_timer_fires_ok:
  assumes "owned i s"
  shows "owned i (wt_timer_fires h s)" and "live i s \<Longrightarrow> live i (wt_timer_fires h s)"
proof -
  have "owned i (wt_timer_fires h s) \<and> (live i s \<longrightarrow> live i (wt_timer_fires h s))"
  proof (cases "find (\<lambda>(h', _). h' = h) (wt_timers s)")
    case None
    with assms show ?thesis by (simp add: wt_timer_fires_def)
  next
    case (Some e)
    then obtain j d where e: "e = (h, j, d)" "(h, j, d) \<in> set (wt_timers s)"
      by (auto simp: find_Some_iff dest: nth_mem)
    let ?t = "wt_timer_fires h s" and ?P = "\<lambda>e. fst e \<noteq> h"
    have t: "wt_waiting ?t = map_delete j (wt_waiting s)" "wt_timers ?t = filter ?P (wt_timers s)" "wt_handles ?t = wt_handles s"
      using Some e(1) by (simp_all add: wt_timer_fires_def startExecution_def clear_timer_def case_prod_unfold)
    have none: "timers_of i ?t = {}" if "j = i"
    proof -
      have "map_of (wt_waiting s) i = Some h" using assms e(2) that by (auto simp: owned_def timers_of_def)
      with assms show ?thesis by (auto simp: owned_def timers_of_def t(2))
    qed
    have "j = i" if "(h, i, d') \<in> set (wt_timers s)" for d'
      using same_timer [OF _ e(2) that] assms by (simp add: owned_def)
    with deleted [OF assms t none] show ?thesis by auto
  qed
  then show "owned i (wt_timer_fires h s)" "live i s \<Longrightarrow> live i (wt_timer_fires h s)" by simp_all
qed

lemma startExecution_ok:
  assumes "owned i s" "j \<noteq> i"
  shows "owned i (startExecution j s)" and "live i s \<Longrightarrow> live i (startExecution j s)"
  using deleted [OF assms(1), of "startExecution j s" j "\<lambda>_. True"] assms(2)
  by (simp_all add: startExecution_def)

lemma clear_all:
  "wt_waiting (foldl (\<lambda>t h. clear_timer h t) s hs) = wt_waiting s"
  "wt_handles (foldl (\<lambda>t h. clear_timer h t) s hs) = wt_handles s"
  "wt_timers (foldl (\<lambda>t h. clear_timer h t) s hs) = filter (\<lambda>(h, _). h \<notin> set hs) (wt_timers s)"
  by (induction hs arbitrary: s) (auto simp: clear_timer_def intro!: filter_cong)

lemma clear_other:
  "wt_starts (foldl (\<lambda>t h. clear_timer h t) s hs) = wt_starts s"
  "wt_rows (foldl (\<lambda>t h. clear_timer h t) s hs) = wt_rows s"
  "wt_runs (foldl (\<lambda>t h. clear_timer h t) s hs) = wt_runs s"
  "wt_children (foldl (\<lambda>t h. clear_timer h t) s hs) = wt_children s"
  "wt_stops (foldl (\<lambda>t h. clear_timer h t) s hs) = wt_stops s"
  "wt_polls (foldl (\<lambda>t h. clear_timer h t) s hs) = wt_polls s"
  "wt_active (foldl (\<lambda>t h. clear_timer h t) s hs) = wt_active s"
  by (induction hs arbitrary: s) (auto simp: clear_timer_def)

lemma stopTracking_ok:
  assumes "owned i s"
  shows "owned i (stopTracking s)" "timers_of i (stopTracking s) = {}" "wt_waiting (stopTracking s) = wt_waiting s"
proof -
  show waiting: "wt_waiting (stopTracking s) = wt_waiting s" by (simp add: stopTracking_def clear_all)
  have timers: "wt_timers (stopTracking s) = filter (\<lambda>(h, _). h \<notin> snd ` set (wt_waiting s)) (wt_timers s)"
    and handles: "wt_handles (stopTracking s) = wt_handles s"
    by (simp_all add: stopTracking_def clear_all)
  show none: "timers_of i (stopTracking s) = {}"
    using assms map_value by (fastforce simp: owned_def timers_of_def timers)
  with assms waiting timers handles show "owned i (stopTracking s)"
    by (auto simp: owned_def handles_ok_def distinct_map_filter)
qed

section \<open>Histories\<close>

text \<open>
  The parents that executions name: in the table, in the calls of \<open>run\<close>, of the children that run, and in the
  answers to the requests to stop. No event adds one.
\<close>

definition named_parents :: "tracker_state \<Rightarrow> string option set" where
  "named_parents s = row_parent ` set (wt_rows s) \<union> snd ` set (wt_runs s) \<union> Some ` snd ` set (wt_children s) \<union>
     row_parent ` {r. Some r \<in> snd ` set (wt_stops s)}"

definition stops_ok :: "tracker_state \<Rightarrow> bool" where
  "stops_ok s \<longleftrightarrow> (\<forall>j r. (j, Some r) \<in> set (wt_stops s) \<longrightarrow> row_id r = j \<and> j \<in> row_id ` set (wt_rows s))"

lemma found_row: "findSingleExecution i s = Some r \<Longrightarrow> r \<in> set (wt_rows s) \<and> row_id r = i"
  by (auto simp: findSingleExecution_def find_Some_iff)


lemma updated_rows: "set (wt_rows (update_row j f s)) = (\<lambda>r. if row_id r = j then f r else r) ` set (wt_rows s)"
  by (simp add: update_row_def)

lemma update_row_ids:
  assumes "\<And>r. row_id r = j \<Longrightarrow> row_id (f r) = j"
  shows "row_id ` set (wt_rows (update_row j f s)) = row_id ` set (wt_rows s)"
  unfolding updated_rows image_image by (rule image_cong [OF refl]) (simp add: assms)

lemma update_row_parents:
  assumes "named_parents s \<subseteq> N" "\<And>r. r \<in> set (wt_rows s) \<Longrightarrow> row_parent (f r) \<in> N"
  shows "named_parents (update_row j f s) \<subseteq> N"
proof -
  have "row_parent (if row_id r = j then f r else r) \<in> N" if "r \<in> set (wt_rows s)" for r
    using assms that by (cases "row_id r = j") (auto simp: named_parents_def)
  then have "row_parent ` set (wt_rows (update_row j f s)) \<subseteq> N" unfolding updated_rows image_image by blast
  with assms(1) show ?thesis by (simp add: named_parents_def)
qed

lemma set_remove_at: "set (remove_at k xs) \<subseteq> set xs"
  by (auto simp: remove_at_def dest: in_set_takeD in_set_dropD)

lemma tracked_same:
  "wt_rows (foldl track_execution s es) = wt_rows s" "wt_runs (foldl track_execution s es) = wt_runs s"
  "wt_children (foldl track_execution s es) = wt_children s" "wt_stops (foldl track_execution s es) = wt_stops s"
  "wt_starts (foldl track_execution s es) = wt_starts s" "wt_polls (foldl track_execution s es) = wt_polls s"
  "wt_active (foldl track_execution s es) = wt_active s"
  by (induction es arbitrary: s) (auto simp: track_execution_def split: prod.split)

lemma stop_waiting_same:
  "wt_rows (stop_active_and_waiting j s) = wt_rows s" "wt_runs (stop_active_and_waiting j s) = wt_runs s"
  "wt_children (stop_active_and_waiting j s) = wt_children s" "wt_stops (stop_active_and_waiting j s) = wt_stops s"
  "wt_starts (stop_active_and_waiting j s) = wt_starts s" "wt_polls (stop_active_and_waiting j s) = wt_polls s"
  by (simp_all add: stop_active_and_waiting_def wt_stopExecution_def clear_timer_def Let_def split: option.split)

lemma parents_same:
  assumes "wt_rows t = wt_rows s" "set (wt_runs t) \<subseteq> set (wt_runs s)" "set (wt_children t) \<subseteq> set (wt_children s)"
    "set (wt_stops t) \<subseteq> set (wt_stops s)"
  shows "named_parents t \<subseteq> named_parents s"
  unfolding named_parents_def assms(1) using assms(2-4) by (intro Un_mono image_mono) auto

lemma parents_active: "named_parents (s\<lparr>wt_active := x\<rparr>) = named_parents s"
  by (simp add: named_parents_def)

lemma parents_stop:
  assumes N: "named_parents s \<subseteq> N" "\<And>r. x = Some r \<Longrightarrow> row_parent r \<in> N" and t: "stop j x now s = Inr t"
  shows "named_parents t \<subseteq> N"
proof -
  from t obtain r where x: "x = Some r" and t': "t = (if wt_regular s then stopInRegularMode now r s else stopInScalingMode now r s)"
    by (auto simp: stop_def split: option.splits)
  have "named_parents (stop_active_and_waiting (row_id r) s) \<subseteq> N"
    using N(1) by (rule order_trans [OF parents_same, rotated 4]) (simp_all add: stop_waiting_same)
  then have save: "named_parents (save_stopped now r (stop_active_and_waiting (row_id r) s)) \<subseteq> N"
    unfolding save_stopped_def by (rule update_row_parents) (simp add: stopDuringRun_def N(2) [OF x])
  have "named_parents (update_row (row_id r) (stopBeforeRun now) (s\<lparr>wt_active := a\<rparr>)) \<subseteq> N" for a
    by (rule update_row_parents) (use N(1) in \<open>auto simp: parents_active stopBeforeRun_def named_parents_def\<close>)
  with save show ?thesis by (simp add: t' stopInRegularMode_def stopInScalingMode_def)
qed

lemma parents_register:
  assumes "named_parents s \<subseteq> N"
  shows "named_parents (tracker_register j now s) \<subseteq> N"
proof -
  have rows: "named_parents (update_row j f (s\<lparr>wt_active := x\<rparr>)) \<subseteq> N" if "\<And>r. row_parent (f r) = row_parent r" for f x
    by (rule update_row_parents) (use assms that in \<open>auto simp: parents_active named_parents_def\<close>)
  have registered: "named_parents (run_registered j a u) \<subseteq> N" if u: "named_parents u \<subseteq> N" for a u
  proof (cases "find_index (\<lambda>(i, _). i = j) (wt_runs u)")
    case None
    with u show ?thesis by (simp only: run_registered_def option.case)
  next
    case (Some k)
    from find_index_Some [OF this] have "snd (wt_runs u ! k) \<in> snd ` set (wt_runs u)" by auto
    with u have "snd (wt_runs u ! k) \<in> N" by (auto simp: named_parents_def)
    moreover have "snd ` set (remove_at k (wt_runs u)) \<subseteq> N"
      by (rule order_trans [OF image_mono [OF set_remove_at]]) (use u in \<open>simp add: named_parents_def\<close>)
    ultimately show ?thesis using u by (auto simp: run_registered_def Some named_parents_def split: option.split)
  qed
  show ?thesis unfolding tracker_register_def Let_def using assms rows registered by (auto split: option.split)
qed

lemma parents_start:
  assumes "named_parents s \<subseteq> N"
  shows "named_parents (start_answered k s) \<subseteq> N"
proof -
  have "row_parent r \<in> N" if "findSingleExecution j s = Some r" for j r
    using found_row [OF that] assms by (auto simp: named_parents_def)
  with assms show ?thesis by (auto simp: start_answered_def Let_def named_parents_def split: option.split)
qed

lemma parents_step:
  assumes "named_parents s \<subseteq> N" "None \<in> N"
  shows "named_parents (tracker_step s e) \<subseteq> N"
proof (cases e)
  case (Created mode j)
  with assms show ?thesis by (auto simp: create_execution_def named_parents_def)
next
  case (Registers j now)
  with parents_register [OF assms(1)] show ?thesis by simp
next
  case (StartAnswered k)
  with parents_start [OF assms(1)] show ?thesis by simp
next
  case (StopAnswered k now)
  let ?s = "s\<lparr>wt_stops := remove_at k (wt_stops s)\<rparr>"
  have "named_parents ?s \<subseteq> N"
    by (rule order_trans [OF parents_same assms(1)]) (simp_all add: set_remove_at)
  moreover have "row_parent r \<in> N" if "k < length (wt_stops s)" "wt_stops s ! k = (j, Some r)" for j r
  proof -
    from nth_mem [OF that(1)] that(2) have "Some r \<in> snd ` set (wt_stops s)" by (metis image_eqI snd_conv)
    then show ?thesis using assms(1) unfolding named_parents_def by blast
  qed
  ultimately have "named_parents t \<subseteq> N"
    if "k < length (wt_stops s)" "stop (fst (wt_stops s ! k)) (snd (wt_stops s ! k)) now ?s = Inr t" for t
    using parents_stop [of ?s N "snd (wt_stops s ! k)"] that by (metis prod.collapse)
  with StopAnswered assms(1) \<open>named_parents ?s \<subseteq> N\<close> show ?thesis
    by (simp add: stop_answered_def Let_def case_prod_unfold split: sum.split)
next
  case (StopRequested j)
  have "row_parent r \<in> N" if "Some r = findSingleExecution j s" for r
    using found_row [OF that [symmetric]] assms(1) by (auto simp: named_parents_def)
  moreover have "row_parent r \<in> N" if "Some r \<in> snd ` set (wt_stops s)" for r
    using that assms(1) unfolding named_parents_def by blast
  moreover have "snd ` set (wt_stops (stop_requested j s)) = insert (findSingleExecution j s) (snd ` set (wt_stops s))"
    by (simp add: stop_requested_def)
  ultimately have "row_parent ` {r. Some r \<in> snd ` set (wt_stops (stop_requested j s))} \<subseteq> N" by auto
  with StopRequested assms(1) show ?thesis by (simp add: named_parents_def) (simp add: stop_requested_def)
next
  case (Ended j status w r)
  have "named_parents (update_row j (\<lambda>r. r\<lparr>row_status := status, row_waitTill := w, row_finished := b\<rparr>) (s\<lparr>wt_active := x\<rparr>)) \<subseteq> N" for b x
    by (rule update_row_parents) (use assms in \<open>auto simp: parents_active named_parents_def\<close>)
  with Ended assms(1) show ?thesis by (simp add: end_execution_def)
next
  case (PollAnswered k)
  have "named_parents (poll_answered k s) \<subseteq> named_parents s"
    by (rule parents_same) (simp_all add: poll_answered_def tracked_same)
  with PollAnswered assms(1) show ?thesis by simp
next
  case LosesLead
  have "named_parents (stopTracking s) \<subseteq> named_parents s"
    by (rule parents_same) (simp_all add: stopTracking_def clear_other)
  with LosesLead assms(1) show ?thesis by simp
next
  case (ChildEnded k)
  have "named_parents (resume_parent k s) \<subseteq> named_parents s"
    by (rule parents_same) (auto simp: resume_parent_def startExecution_def split: prod.split option.split settlement.split dest: subsetD [OF set_remove_at])
  with ChildEnded assms(1) show ?thesis by simp
qed (use assms(1) in \<open>auto simp: named_parents_def startTracking_def interval_fires_def getWaitingExecutions_def
    wt_timer_fires_def startExecution_def clear_timer_def split: option.split\<close>)

text \<open>Operations that neither set nor clear a timer of an execution.\<close>

lemma no_timer_ops:
  "wt_waiting (create_execution mode i s) = wt_waiting s" "wt_timers (create_execution mode i s) = wt_timers s"
  "wt_handles (create_execution mode i s) = wt_handles s"
  "wt_waiting (tracker_register i now s) = wt_waiting s" "wt_timers (tracker_register i now s) = wt_timers s"
  "wt_handles (tracker_register i now s) = wt_handles s"
  "wt_waiting (end_execution i st w r s) = wt_waiting s" "wt_timers (end_execution i st w r s) = wt_timers s"
  "wt_handles (end_execution i st w r s) = wt_handles s"
  "wt_waiting (start_answered k s) = wt_waiting s" "wt_timers (start_answered k s) = wt_timers s"
  "wt_handles (start_answered k s) = wt_handles s"
  "wt_waiting (startTracking now s) = wt_waiting s" "wt_timers (startTracking now s) = wt_timers s"
  "wt_handles s \<le> wt_handles (startTracking now s)"
  "wt_waiting (interval_fires h now s) = wt_waiting s" "wt_timers (interval_fires h now s) = wt_timers s"
  "wt_handles (interval_fires h now s) = wt_handles s"
  "wt_waiting (stop_requested j s) = wt_waiting s" "wt_timers (stop_requested j s) = wt_timers s"
  "wt_handles (stop_requested j s) = wt_handles s"
  by (simp_all add: create_execution_def tracker_register_def run_registered_def end_execution_def start_answered_def
      startTracking_def interval_fires_def stop_requested_def Let_def split: option.split)

lemma stop_active_ok:
  assumes "owned i s"
  shows "owned i (stop_active_and_waiting j s)" and "live i s \<Longrightarrow> live i (stop_active_and_waiting j s)"
proof -
  let ?s = "if ax_has (wt_active s) j then s\<lparr>wt_active := stopExecution j (wt_active s)\<rparr> else s"
  have "owned i ?s" "live i s \<Longrightarrow> live i ?s" using assms quiet [of ?s s i] by simp_all
  with wt_stopExecution_ok [of i ?s j] show "owned i (stop_active_and_waiting j s)"
    "live i s \<Longrightarrow> live i (stop_active_and_waiting j s)"
    unfolding stop_active_and_waiting_def Let_def by simp_all
qed

lemma stop_ok:
  assumes "owned i s" "stop j x now s = Inr t"
  shows "owned i t" and "live i s \<Longrightarrow> live i t"
proof -
  from assms(2) obtain r where t: "t = (if wt_regular s then stopInRegularMode now r s else stopInScalingMode now r s)"
    by (auto simp: stop_def split: option.splits)
  have before: "owned i (update_row j f (s\<lparr>wt_active := x\<rparr>))" "live i s \<Longrightarrow> live i (update_row j f (s\<lparr>wt_active := x\<rparr>))" for j f x
    using quiet [of "update_row j f (s\<lparr>wt_active := x\<rparr>)" s i] assms(1) by simp_all
  have save: "owned i (save_stopped now r (stop_active_and_waiting k s))"
    "live i s \<Longrightarrow> live i (save_stopped now r (stop_active_and_waiting k s))" for k
    using quiet [of "save_stopped now r (stop_active_and_waiting k s)" "stop_active_and_waiting k s" i] stop_active_ok [OF assms(1), of k]
    by (simp_all add: save_stopped_def)
  show "owned i t" "live i s \<Longrightarrow> live i t"
    using before save by (simp_all add: t stopInRegularMode_def stopInScalingMode_def)
qed

lemma stop_answered_ok:
  assumes "owned i s"
  shows "owned i (stop_answered k now s)" and "live i s \<Longrightarrow> live i (stop_answered k now s)"
proof -
  let ?s = "s\<lparr>wt_stops := remove_at k (wt_stops s)\<rparr>"
  have s: "owned i ?s" "live i s \<Longrightarrow> live i ?s" using assms quiet [of ?s s i] by simp_all
  with stop_ok [OF s(1)] assms show "owned i (stop_answered k now s)" "live i s \<Longrightarrow> live i (stop_answered k now s)"
    by (auto simp: stop_answered_def Let_def split: prod.split sum.split)
qed

lemma resume_parent_ok:
  assumes "owned i s" "Some i \<notin> named_parents s"
  shows "owned i (resume_parent k s)" and "live i s \<Longrightarrow> live i (resume_parent k s)"
proof -
  let ?s = "s\<lparr>wt_children := remove_at k (wt_children s)\<rparr>"
  have s: "owned i ?s" "live i s \<Longrightarrow> live i ?s" using assms quiet [of ?s s i] by simp_all
  have p: "p \<noteq> i" if "k < length (wt_children s)" "wt_children s ! k = (a, p)" for a p
  proof -
    from nth_mem [OF that(1)] that(2) have "p \<in> snd ` set (wt_children s)" by (metis image_eqI snd_conv)
    with assms(2) show ?thesis by (auto simp: named_parents_def)
  qed
  show "owned i (resume_parent k s)" "live i s \<Longrightarrow> live i (resume_parent k s)"
    using assms(1) startExecution_ok [OF s(1) p] s(2)
    by (auto simp: resume_parent_def split: prod.split option.split settlement.split)
qed

text \<open>An execution that nobody names as its parent, in every step.\<close>

lemma tracker_step_ok:
  assumes "owned i s" "Some i \<notin> named_parents s"
  shows "owned i (tracker_step s e)" and "live i s \<Longrightarrow> e \<noteq> LosesLead \<Longrightarrow> live i (tracker_step s e)"
proof -
  have quiet: "owned i t" "live i s \<Longrightarrow> live i t"
    if "wt_waiting t = wt_waiting s" "wt_timers t = wt_timers s" "wt_handles s \<le> wt_handles t" for t
    using that quiet [of t s i] assms(1) by auto
  show "owned i (tracker_step s e)"
    using assms by (cases e)
      (auto simp: no_timer_ops stopTracking_ok poll_answered_ok wt_timer_fires_ok stop_answered_ok(1) resume_parent_ok(1) intro!: quiet(1))
  show "live i (tracker_step s e)" if "live i s" "e \<noteq> LosesLead"
    using assms that by (cases e)
      (auto simp: no_timer_ops poll_answered_ok(2) wt_timer_fires_ok(2) stop_answered_ok(2) resume_parent_ok(2) intro!: quiet(2))
qed

lemma tracker_run_ok:
  assumes "owned i s" "Some i \<notin> named_parents s"
  shows "owned i (tracker_run s es)" and "Some i \<notin> named_parents (tracker_run s es)"
    and "live i s \<Longrightarrow> LosesLead \<notin> set es \<Longrightarrow> live i (tracker_run s es)"
proof -
  have "owned i (tracker_run s es) \<and> Some i \<notin> named_parents (tracker_run s es) \<and>
    (live i s \<longrightarrow> LosesLead \<notin> set es \<longrightarrow> live i (tracker_run s es))"
    using assms unfolding tracker_run_def
  proof (induction es arbitrary: s)
    case (Cons e es)
    have "named_parents (tracker_step s e) \<subseteq> insert None (named_parents s)" by (rule parents_step) auto
    with Cons.prems(2) have "Some i \<notin> named_parents (tracker_step s e)" by blast
    with Cons.IH [of "tracker_step s e"] tracker_step_ok [OF Cons.prems, of e] show ?case
      by (auto simp del: tracker_step.simps)
  qed simp
  then show "owned i (tracker_run s es)" "Some i \<notin> named_parents (tracker_run s es)"
    "live i s \<Longrightarrow> LosesLead \<notin> set es \<Longrightarrow> live i (tracker_run s es)" by simp_all
qed

text \<open>Is an execution named as a parent in the table?\<close>

definition is_parent :: "execution_row list \<Rightarrow> string \<Rightarrow> bool" where
  "is_parent rows i \<longleftrightarrow> list_ex (\<lambda>r. row_parent r = Some i) rows"

lemma new_tracker_ok:
  "owned i (new_tracker regular service rows)" "live i (new_tracker regular service rows)"
  "\<not> is_parent rows i \<Longrightarrow> Some i \<notin> named_parents (new_tracker regular service rows)"
  by (auto simp: owned_def live_def handles_ok_def timers_of_def named_parents_def is_parent_def list_ex_iff new_tracker_def)

lemma one_key: "distinct (map fst xs) \<Longrightarrow> (\<And>e. e \<in> set xs \<Longrightarrow> fst e = h) \<Longrightarrow> length xs \<le> 1"
  by (cases xs; cases "tl xs") auto

lemma one_timer_each:
  assumes "owned i s"
  shows "length (filter (\<lambda>(h, j, d). j = i) (wt_timers s)) \<le> 1"
proof (cases "map_of (wt_waiting s) i")
  case None
  with assms have "filter (\<lambda>(h, j, d). j = i) (wt_timers s) = []" by (auto simp: owned_def timers_of_def filter_empty_conv)
  then show ?thesis by simp
next
  case (Some h)
  show ?thesis
  proof (rule one_key)
    show "distinct (map fst (filter (\<lambda>(h, j, d). j = i) (wt_timers s)))"
      using assms by (simp add: owned_def handles_ok_def distinct_map_filter)
    show "fst e = h" if "e \<in> set (filter (\<lambda>(h, j, d). j = i) (wt_timers s))" for e
      by (cases e; use that Some assms in \<open>auto simp: owned_def timers_of_def\<close>)
  qed
qed

text \<open>C38: In every history of the tracker, an execution that no execution names as its parent has at most
  one pending timer, which is the one of its entry; and as long as the leadership is not lost its entry has
  its timer, so that a tracked execution is resumed.\<close>

theorem one_timer_per_execution:
  assumes "\<not> is_parent rows i" "s = tracker_run (new_tracker regular service rows) es"
  shows "length (filter (\<lambda>(h, j, d). j = i) (wt_timers s)) \<le> 1 \<and>
    list_all (\<lambda>(h, j, d). j \<noteq> i \<or> map_of (wt_waiting s) i = Some h) (wt_timers s) \<and>
    (LosesLead \<notin> set es \<longrightarrow> (case map_of (wt_waiting s) i of
       None \<Rightarrow> True | Some h \<Rightarrow> list_ex (\<lambda>(h', j, d). h' = h \<and> j = i) (wt_timers s)))"
proof -
  note run = tracker_run_ok [OF new_tracker_ok(1) new_tracker_ok(3) [OF assms(1)], of regular service es, folded assms(2)]
  have "live i s" if "LosesLead \<notin> set es"
    using run(3) that new_tracker_ok(2) by simp
  then have "case map_of (wt_waiting s) i of None \<Rightarrow> True | Some h \<Rightarrow> list_ex (\<lambda>(h', j, d). h' = h \<and> j = i) (wt_timers s)"
    if "LosesLead \<notin> set es"
    using that by (fastforce simp: live_def timers_of_def list_ex_iff split: option.split)
  moreover have "list_all (\<lambda>(h, j, d). j \<noteq> i \<or> map_of (wt_waiting s) i = Some h) (wt_timers s)"
    using run(1) by (auto simp: owned_def timers_of_def list_all_iff)
  ultimately show ?thesis using one_timer_each [OF run(1)] by blast
qed

section \<open>Stopping\<close>









definition saved_cancelled :: "string \<Rightarrow> tracker_state \<Rightarrow> bool" where
  "saved_cancelled i s \<longleftrightarrow> i \<in> row_id ` set (wt_rows s) \<and>
     (\<forall>r \<in> set (wt_rows s). row_id r = i \<longrightarrow> row_status r = Canceled \<and> row_waitTill r = None)"




lemma saved_active [simp]: "saved_cancelled i (s\<lparr>wt_active := x\<rparr>) = saved_cancelled i s"
  by (simp add: saved_cancelled_def)













text \<open>The answers to requests to stop are rows of the executions that were asked for.\<close>

lemma stops_answer:
  assumes "stops_ok s" "k < length (wt_stops s)" "wt_stops s ! k = (j, x)" "x = Some r"
  shows "row_id r = j" "j \<in> row_id ` set (wt_rows s)"
proof -
  from nth_mem [OF assms(2)] assms(3,4) have "(j, Some r) \<in> set (wt_stops s)" by simp
  with assms(1) show "row_id r = j" "j \<in> row_id ` set (wt_rows s)" by (auto simp: stops_ok_def)
qed

lemma stop_rows:
  assumes "stop j x now s = Inr t" "\<And>r. x = Some r \<Longrightarrow> row_id r = j"
  shows "row_id ` set (wt_rows t) = row_id ` set (wt_rows s)" "wt_stops t = wt_stops s"
proof -
  from assms(1) obtain r where x: "x = Some r" and t: "t = (if wt_regular s then stopInRegularMode now r s else stopInScalingMode now r s)"
    by (auto simp: stop_def split: option.splits)
  have save: "row_id ` set (wt_rows (save_stopped now r u)) = row_id ` set (wt_rows u)" for u
    unfolding save_stopped_def by (rule update_row_ids) (simp add: stopDuringRun_def)
  have before: "row_id ` set (wt_rows (update_row (row_id r) (stopBeforeRun now) u)) = row_id ` set (wt_rows u)" for u
    by (rule update_row_ids) (simp add: stopBeforeRun_def)
  show "row_id ` set (wt_rows t) = row_id ` set (wt_rows s)" "wt_stops t = wt_stops s"
    using save before by (simp_all add: t stopInRegularMode_def stopInScalingMode_def stop_waiting_same) (simp_all add: save_stopped_def stop_waiting_same)
qed

lemma stops_ok_keep:
  assumes "stops_ok s" "row_id ` set (wt_rows s) \<subseteq> row_id ` set (wt_rows t)" "set (wt_stops t) \<subseteq> set (wt_stops s)"
  shows "stops_ok t"
  using assms unfolding stops_ok_def by blast

lemma registered_rows: "wt_rows (run_registered j a s) = wt_rows s" "wt_stops (run_registered j a s) = wt_stops s"
  by (simp_all add: run_registered_def split: option.split)

lemma event_rows:
  "row_id ` set (wt_rows (tracker_register j now s)) = row_id ` set (wt_rows s)"
  "row_id ` set (wt_rows (end_execution j status w r s)) = row_id ` set (wt_rows s)"
  "wt_stops (tracker_register j now s) = wt_stops s" "wt_stops (end_execution j status w r s) = wt_stops s"
  by (simp_all add: tracker_register_def end_execution_def Let_def registered_rows update_row_ids split: option.split)

lemma stops_ok_step:
  assumes "stops_ok s"
  shows "stops_ok (tracker_step s e)"
proof (cases e)
  case (StopAnswered k now)
  let ?s = "s\<lparr>wt_stops := remove_at k (wt_stops s)\<rparr>"
  have answered: "row_id ` set (wt_rows t) = row_id ` set (wt_rows ?s) \<and> wt_stops t = wt_stops ?s"
    if "k < length (wt_stops s)" "wt_stops s ! k = (j, x)" "stop j x now ?s = Inr t" for j x t
    using stop_rows [OF that(3)] stops_answer(1) [OF assms that(1,2)] by blast
  have "stops_ok t" if "k < length (wt_stops s)" "wt_stops s ! k = (j, x)" "stop j x now ?s = Inr t" for j x t
    by (rule stops_ok_keep [OF assms]) (use answered [OF that] set_remove_at [of k "wt_stops s"] in auto)
  moreover have "stops_ok ?s" by (rule stops_ok_keep [OF assms]) (simp_all add: set_remove_at)
  ultimately show ?thesis
    using StopAnswered assms by (simp add: stop_answered_def Let_def split: prod.split sum.split)
next
  case (StopRequested j)
  have "row_id r = j \<and> j \<in> row_id ` set (wt_rows s)" if "Some r = findSingleExecution j s" for r
    using found_row [OF that [symmetric]] by auto
  with StopRequested assms show ?thesis by (auto simp: stop_requested_def stops_ok_def)
next
  case (Registers j now)
  then show ?thesis
    by (intro stops_ok_keep [OF assms]) (simp_all add: event_rows)
next
  case (Ended j status w r)
  then show ?thesis
    by (intro stops_ok_keep [OF assms]) (simp_all add: event_rows)
next
  case LosesLead
  then show ?thesis by (intro stops_ok_keep [OF assms]) (simp_all add: stopTracking_def clear_other)
qed (rule stops_ok_keep [OF assms]; auto simp: create_execution_def startTracking_def getWaitingExecutions_def interval_fires_def poll_answered_def tracked_same wt_timer_fires_def startExecution_def clear_timer_def
    start_answered_def resume_parent_def Let_def split: option.split prod.split settlement.split)+


lemma tracker_stops_ok: "stops_ok s \<Longrightarrow> stops_ok (tracker_run s es)"
  unfolding tracker_run_def by (induction es arbitrary: s) (simp_all add: stops_ok_step del: tracker_step.simps)







section \<open>Losing the leadership\<close>

definition forgotten :: "string \<Rightarrow> nat \<Rightarrow> tracker_state \<Rightarrow> bool" where
  "forgotten i n s \<longleftrightarrow> wt_has s i \<and> timers_of i s = {} \<and> i \<notin> fst ` set (wt_stops s) \<and> count_list (wt_starts s) i \<le> n"

definition deletes_entry :: "string \<Rightarrow> tracker_event \<Rightarrow> bool" where
  "deletes_entry i e = (case e of ChildEnded _ \<Rightarrow> True | StopRequested j \<Rightarrow> j = i | _ \<Rightarrow> False)"

lemma forgotten_track: "forgotten i n s \<Longrightarrow> forgotten i n (track_execution s e)"
  by (auto simp: forgotten_def track_execution_def wt_has_def timers_of_def split: prod.splits)

lemma forgotten_tracked: "forgotten i n s \<Longrightarrow> forgotten i n (foldl track_execution s es)"
  by (induction es arbitrary: s) (simp_all add: forgotten_track)

lemma count_remove_at: "count_list (remove_at k xs) x \<le> count_list xs x"
proof (induction xs arbitrary: k)
  case (Cons y ys)
  then show ?case by (cases k) (auto simp: le_SucI)
qed (simp add: remove_at_def)

text \<open>Steps that keep the entry of an execution and set no timer for it.\<close>

lemma forgotten_keep:
  assumes "forgotten i n s" "map_of (wt_waiting t) i = map_of (wt_waiting s) i" "set (wt_timers t) \<subseteq> set (wt_timers s)"
    "count_list (wt_starts t) i \<le> count_list (wt_starts s) i" "i \<notin> fst ` set (wt_stops t)"
  shows "forgotten i n t"
proof -
  have "timers_of i t = {}" using assms(1,3) by (auto simp: forgotten_def timers_of_def)
  then show ?thesis using assms(1,2,4,5) by (simp add: forgotten_def wt_has_def)
qed

lemma starts_kept:
  "wt_starts (create_execution mode j s) = wt_starts s" "wt_starts (tracker_register j now s) = wt_starts s"
  "wt_starts (end_execution j st w r s) = wt_starts s" "wt_starts (startTracking now s) = wt_starts s"
  "wt_starts (interval_fires h now s) = wt_starts s" "count_list (wt_starts (start_answered k s)) i \<le> count_list (wt_starts s) i"
  "wt_stops (create_execution mode j s) = wt_stops s" "wt_stops (tracker_register j now s) = wt_stops s"
  "wt_stops (end_execution j st w r s) = wt_stops s" "wt_stops (startTracking now s) = wt_stops s"
  "wt_stops (interval_fires h now s) = wt_stops s" "wt_stops (start_answered k s) = wt_stops s"
  by (auto simp: create_execution_def tracker_register_def run_registered_def end_execution_def start_answered_def
      startTracking_def interval_fires_def getWaitingExecutions_def update_row_def Let_def count_remove_at split: option.split)

lemma forgotten_fires:
  assumes "forgotten i n s"
  shows "forgotten i n (wt_timer_fires h s)"
proof (cases "find (\<lambda>(h', _). h' = h) (wt_timers s)")
  case None
  with assms show ?thesis by (simp add: wt_timer_fires_def)
next
  case (Some e)
  then obtain j d where e: "e = (h, j, d)" "(h, j, d) \<in> set (wt_timers s)"
    by (auto simp: find_Some_iff dest: nth_mem)
  with assms have "j \<noteq> i" by (auto simp: forgotten_def timers_of_def)
  with Some e assms show ?thesis
    by (intro forgotten_keep [OF assms]) (auto simp: wt_timer_fires_def startExecution_def clear_timer_def forgotten_def)
qed

lemma forgotten_stop:
  assumes "forgotten i n s" "j \<noteq> i" "\<And>r. x = Some r \<Longrightarrow> row_id r = j" "stop j x now s = Inr t"
  shows "forgotten i n t"
proof -
  from assms(4) obtain r where x: "x = Some r" and t: "t = (if wt_regular s then stopInRegularMode now r s else stopInScalingMode now r s)"
    by (auto simp: stop_def split: option.splits)
  have waiting: "map_of (wt_waiting (stop_active_and_waiting j s)) i = map_of (wt_waiting s) i"
    "set (wt_timers (stop_active_and_waiting j s)) \<subseteq> set (wt_timers s)"
    using assms(2) by (auto simp: stop_active_and_waiting_def wt_stopExecution_def clear_timer_def Let_def split: option.split)
  have save: "forgotten i n (save_stopped now r (stop_active_and_waiting j s))"
    by (rule forgotten_keep [OF assms(1)]) (use waiting assms(1) in \<open>simp_all add: save_stopped_def stop_waiting_same forgotten_def\<close>)
  have "forgotten i n (update_row j f (s\<lparr>wt_active := a\<rparr>))" for f a
    by (rule forgotten_keep [OF assms(1)]) (use assms(1) in \<open>simp_all add: forgotten_def\<close>)
  with save assms(3) [OF x] show ?thesis by (simp add: t stopInRegularMode_def stopInScalingMode_def)
qed

lemma forgotten_step:
  assumes "forgotten i n s" "stops_ok s" "\<not> deletes_entry i e"
  shows "forgotten i n (tracker_step s e)"
proof (cases e)
  case (PollAnswered k)
  have "forgotten i n (s\<lparr>wt_polls := remove_at k (wt_polls s)\<rparr>)"
    by (rule forgotten_keep [OF assms(1)]) (use assms(1) in \<open>simp_all add: forgotten_def\<close>)
  with assms PollAnswered show ?thesis by (simp add: poll_answered_def forgotten_tracked)
next
  case (StopAnswered k now)
  let ?s = "s\<lparr>wt_stops := remove_at k (wt_stops s)\<rparr>"
  have removed: "forgotten i n ?s"
    by (rule forgotten_keep [OF assms(1)]) (use assms(1) set_remove_at [of k "wt_stops s"] in \<open>auto simp: forgotten_def\<close>)
  have "forgotten i n t" if "k < length (wt_stops s)" "wt_stops s ! k = (j, x)" "stop j x now ?s = Inr t" for j x t
  proof -
    from nth_mem [OF that(1)] that(2) have "j \<in> fst ` set (wt_stops s)" by (metis image_eqI fst_conv)
    with assms(1) have "j \<noteq> i" by (auto simp: forgotten_def)
    from forgotten_stop [OF removed this stops_answer(1) [OF assms(2) that(1,2)] that(3)] show ?thesis by blast
  qed
  with StopAnswered assms(1) removed show ?thesis
    by (simp add: stop_answered_def Let_def split: prod.split sum.split)
next
  case (TimerFires h)
  with assms show ?thesis by (simp add: forgotten_fires)
next
  case LosesLead
  then show ?thesis using assms(1)
    by (intro forgotten_keep [OF assms(1)]) (auto simp: stopTracking_def clear_all clear_other forgotten_def)
next
  case (StopRequested j)
  with assms show ?thesis
    by (intro forgotten_keep [OF assms(1)]) (auto simp: stop_requested_def deletes_entry_def forgotten_def)
qed (use assms in \<open>auto simp: deletes_entry_def no_timer_ops starts_kept forgotten_def wt_has_def timers_of_def
    intro: order_trans [OF starts_kept(6)]\<close>)

text \<open>When a main loses the leadership its timers are cleared but the entries stay. So an execution
  that was tracked is never started by this main again, also when it leads again and finds the
  execution in the database, unless it is stopped or a child resumes its parent.\<close>

theorem stepdown_forgets_waiting:
  assumes "\<not> is_parent rows i" "s = tracker_run (new_tracker regular service rows) es"
    and "wt_has s i" "list_all (\<lambda>(j, x). j \<noteq> i) (wt_stops s)" "list_all (\<lambda>e. \<not> deletes_entry i e) es'"
    and "t = tracker_run s (LosesLead # es')"
  shows "wt_has t i \<and> list_all (\<lambda>(h, j, d). j \<noteq> i) (wt_timers t) \<and> count_list (wt_starts t) i \<le> count_list (wt_starts s) i"
proof -
  let ?n = "count_list (wt_starts s) i"
  note run = tracker_run_ok [OF new_tracker_ok(1) new_tracker_ok(3) [OF assms(1)], of regular service es, folded assms(2)]
  have "stops_ok (new_tracker regular service rows)" by (simp add: stops_ok_def new_tracker_def)
  then have ok: "stops_ok s" unfolding assms(2) by (rule tracker_stops_ok)
  have "forgotten i ?n (stopTracking s)" using stopTracking_ok(2,3) [OF run(1)] assms(3,4)
    by (auto simp: forgotten_def wt_has_def stopTracking_def clear_other list_all_iff)
  moreover have "stops_ok (stopTracking s)" using stops_ok_step [OF ok, of LosesLead] by simp
  ultimately have "forgotten i ?n (tracker_run (stopTracking s) es')"
    using assms(5) unfolding tracker_run_def
    by (induction es' arbitrary: s rule: rev_induct)
      (simp_all add: forgotten_step tracker_stops_ok [unfolded tracker_run_def] del: tracker_step.simps)
  with assms(6) show ?thesis by (auto simp: forgotten_def tracker_run_def timers_of_def list_all_iff)
qed

section \<open>Examples\<close>

text \<open>An execution that waits, and a concurrency control that lets one execution through.\<close>

definition waiting_row :: execution_row where
  "waiting_row = \<lparr>row_id = ''5'', row_mode = Mode_webhook, row_status = Waiting, row_finished = False,
     row_waitTill = Some 1000, row_stoppedAt = None, row_workflowSaved = True, row_parent = None\<rparr>"

definition one_place :: ConcurrencyControlService where
  "one_place = \<lparr>ccs_isEnabled = True, ccs_limits = [(Production, 1)], ccs_queues = [(Production, new_queue 1)],
     ccs_cancelled = []\<rparr>"

definition waiting_start :: tracker_state where
  "waiting_start = new_tracker True one_place [waiting_row]"

lemmas tracker_example_defs = waiting_row_def one_place_def waiting_start_def

definition tracked :: "tracker_event list" where
  "tracked = [Leads 0, PollAnswered 0]"

theorem one_timer_per_execution_witness:
  "wt_timers (tracker_run waiting_start tracked) = [(1, ''5'', 1000)] \<and>
   map_of (wt_waiting (tracker_run waiting_start tracked)) ''5'' = Some 1"
proof -
  have no_parent: "\<not> is_parent [waiting_row] ''5''" by (simp add: is_parent_def waiting_row_def)
  have "wt_timers (tracker_run waiting_start tracked) = [(1, ''5'', 1000)]" by code_simp
  with one_timer_per_execution [OF no_parent refl, of True one_place tracked] show ?thesis
    by (simp add: waiting_start_def)
qed





text \<open>
  A query of the tracker that was sent before the stop, and is answered after it, sets a timer for the
  stopped execution: it runs again.
\<close>

definition stop_during_query :: "tracker_event list" where
  "stop_during_query = [Leads 0, StopRequested ''5'', StopAnswered 0 7, PollAnswered 0, TimerFires 1, StartAnswered 0, Registers ''5'' 8]"

theorem stopped_execution_runs:
  "map row_status (wt_rows (tracker_run waiting_start (take 3 stop_during_query))) = [Canceled] \<and>
   map row_status (wt_rows (tracker_run waiting_start stop_during_query)) = [Running]"
  by code_simp

text \<open>
  An execution that ends after it was read for the stop and before it is saved as stopped: its result is
  overwritten, the row says that it was cancelled and did not finish.
\<close>

definition stop_after_end :: "tracker_event list" where
  "stop_after_end = [Created Mode_webhook ''6'', Registers ''6'' 0, StopRequested ''6'', Ended ''6'' Success None JNull, StopAnswered 0 7]"

theorem stop_overwrites_result:
  "map (\<lambda>r. (row_id r, row_status r, row_finished r)) (wt_rows (tracker_run waiting_start (take 4 stop_after_end))) =
     [(''5'', Waiting, False), (''6'', Success, True)] \<and>
   map (\<lambda>r. (row_id r, row_status r, row_finished r)) (wt_rows (tracker_run waiting_start stop_after_end)) =
     [(''5'', Waiting, False), (''6'', Canceled, False)]"
  by code_simp

theorem stepdown_forgets_waiting_witness:
  "wt_has (tracker_run (tracker_run waiting_start tracked) [LosesLead, Leads 5000, PollAnswered 0]) ''5'' \<and>
   list_all (\<lambda>(h, j, d). j \<noteq> ''5'') (wt_timers (tracker_run (tracker_run waiting_start tracked) [LosesLead, Leads 5000, PollAnswered 0]))"
proof -
  have no_parent: "\<not> is_parent [waiting_row] ''5''" by (simp add: is_parent_def waiting_row_def)
  have s: "tracker_run waiting_start tracked = tracker_run (new_tracker True one_place [waiting_row]) tracked" by (simp add: waiting_start_def)
  have has: "wt_has (tracker_run waiting_start tracked) ''5''" by code_simp
  have "map fst (wt_stops (tracker_run waiting_start tracked)) = []" by code_simp
  then have none: "list_all (\<lambda>(j, x). j \<noteq> ''5'') (wt_stops (tracker_run waiting_start tracked))" by simp
  have keep: "list_all (\<lambda>e. \<not> deletes_entry ''5'' e) [Leads 5000, PollAnswered 0]" by (simp add: deletes_entry_def)
  from stepdown_forgets_waiting [OF no_parent s has none keep refl] show ?thesis by blast
qed

text \<open>
  A parent waits and has its timer when its child ends and starts it: the entry is deleted, the timer is
  not. The next query gives it an entry and a timer again, so two timers of one execution are pending.
\<close>

definition parent_row :: execution_row where
  "parent_row = waiting_row\<lparr>row_id := ''9'', row_waitTill := Some 50000\<rparr>"

definition child_row :: execution_row where
  "child_row = waiting_row\<lparr>row_parent := Some ''9''\<rparr>"

definition family_start :: tracker_state where
  "family_start = new_tracker True one_place [child_row, parent_row]"

definition child_resumes_parent :: "tracker_event list" where
  "child_resumes_parent = [Leads 0, PollAnswered 0, TimerFires 1, StartAnswered 0, Registers ''5'' 1001,
     Ended ''5'' Success None JNull, ChildEnded 0, IntervalFires 0 2000, PollAnswered 0]"

theorem two_timers_for_parent:
  "map (\<lambda>(h, i, d). i) (wt_timers (tracker_run family_start child_resumes_parent)) = [''9'', ''9''] \<and>
   is_parent [child_row, parent_row] ''9''"
  by code_simp

text \<open>
  The only place is taken, so an execution that is resumed is held back. Its row still says that it
  waits, and the next query resumes it again: it is twice in the queue.
\<close>

definition held_back_events :: "tracker_event list" where
  "held_back_events = [Created Mode_webhook ''6'', Registers ''6'' 0, Leads 0, PollAnswered 0, TimerFires 1, StartAnswered 0]"

theorem resumed_twice:
  "map (\<lambda>(type, q). cq_queue q) (ccs_queues (ax_concurrency (wt_active
     (tracker_run waiting_start (held_back_events @ [IntervalFires 0 60000, PollAnswered 0, TimerFires 2, StartAnswered 0])))))
   = [[''5'', ''5'']]"
  by code_simp

text \<open>
  Stopping it while it is held back saves it as cancelled but leaves the time until which it waits, so
  the next query resumes the cancelled execution, and it runs.
\<close>

theorem cancelled_execution_runs:
  "let s = tracker_run waiting_start (held_back_events @ [StopRequested ''5'', StopAnswered 0 100]);
       t = tracker_run s [Ended ''6'' Success None JNull, Settles 0, IntervalFires 0 60000, PollAnswered 0, TimerFires 2,
         StartAnswered 0, Registers ''5'' 60001]
   in map row_status (wt_rows s) = [Canceled, Running] \<and> map row_status (wt_rows t) = [Running, Success]"
  by code_simp

end
