(* ===== verification/RunnerData.thy ===== *)
theory RunnerData
  imports WorkflowTypes
begin

text \<open>
  The data of a task on its way from the node that runs code to the task runner: built and stripped down by
  the requester (\<open>packages/cli/src/task-runners/task-managers\<close>), reconstructed by the runner
  (\<open>packages/@n8n/task-runner/src/data-request\<close>), with what the code needs as found by the parser of
  built-ins (\<open>js-task-runner/built-ins-parser\<close>). The syntax tree and the order in which it is walked
  come from a library; a visit is what the visitors read of a node.
\<close>

section \<open>Task data\<close>

record EnvProviderState =
  ep_env :: "(string, string) js_map"
  ep_isEnvAccessBlocked :: bool
  ep_isProcessAvailable :: bool

record task_workflow =
  tw_id :: "string option"
  tw_name :: "string option"
  tw_active :: bool
  tw_connectionsBySourceNode :: IConnections
  tw_nodes :: "(string, INode) js_map"
  tw_pinData :: "IPinData option"
  tw_settings :: json
  tw_staticData :: json

record WorkflowParameters =
  wp_id :: "string option"
  wp_name :: "string option"
  wp_active :: bool
  wp_connections :: IConnections
  wp_nodes :: "INode list"
  wp_pinData :: "IPinData option"
  wp_settings :: json
  wp_staticData :: json

record task_result_data =
  tr_error :: "ExecutionError option"
  tr_lastNodeExecuted :: "string option"
  tr_metadata :: "(string, json) js_map option"
  tr_runData :: IRunData
  tr_pinData :: "IPinData option"

record task_execution_data =
  te_contextData :: json
  te_metadata :: json
  te_nodeExecutionStack :: "IExecuteData list"
  te_waitingExecution :: IWaitingForExecution
  te_waitingExecutionSource :: "IWaitingForExecutionSource option"

record task_run_data =
  tn_startData :: "json option"
  tn_resultData :: task_result_data
  tn_executionData :: "task_execution_data option"

record TaskData =
  td_workflow :: task_workflow
  td_inputData :: ITaskDataConnections
  td_node :: INode
  td_runExecutionData :: task_run_data
  td_runIndex :: nat
  td_itemIndex :: nat
  td_activeNodeName :: string
  td_connectionInputData :: "INodeExecutionData list"
  td_siblingParameters :: json
  td_mode :: ExecutionMode
  td_envProviderState :: EnvProviderState
  td_executeData :: "IExecuteData option"
  td_defaultReturnRunIndex :: int
  td_selfData :: json
  td_contextNodeName :: string
  td_additionalData :: "(string, json) js_map"

record DataRequestResponse =
  dr_workflow :: WorkflowParameters
  dr_inputData :: ITaskDataConnections
  dr_connectionInputSource :: "ITaskDataConnectionsSource option"
  dr_node :: INode
  dr_runExecutionData :: task_run_data
  dr_runIndex :: nat
  dr_itemIndex :: nat
  dr_activeNodeName :: string
  dr_siblingParameters :: json
  dr_mode :: ExecutionMode
  dr_envProviderState :: EnvProviderState
  dr_defaultReturnRunIndex :: int
  dr_selfData :: json
  dr_contextNodeName :: string
  dr_additionalData :: "(string, json) js_map"

section \<open>Building\<close>

definition partial_additional_keys :: "string list" where
  "partial_additional_keys = [''formWaitingBaseUrl'', ''instanceBaseUrl'', ''restApiUrl'', ''variables'', ''webhookBaseUrl'',
     ''webhookTestBaseUrl'', ''webhookWaitingBaseUrl'', ''currentNodeParameters'', ''executionId'',
     ''executionTimeoutTimestamp'', ''restartExecutionId'', ''userId'']"

definition buildAdditionalData :: "(string, json) js_map \<Rightarrow> (string, json) js_map" where
  "buildAdditionalData additionalData = map (\<lambda>k. (k, case map_of additionalData k of None \<Rightarrow> JUndefined | Some v \<Rightarrow> v))
     partial_additional_keys"

definition buildWorkflow :: "task_workflow \<Rightarrow> WorkflowParameters" where
  "buildWorkflow w = \<lparr>wp_id = tw_id w, wp_name = tw_name w, wp_active = tw_active w,
     wp_connections = tw_connectionsBySourceNode w, wp_nodes = map_values (tw_nodes w), wp_pinData = tw_pinData w,
     wp_settings = tw_settings w, wp_staticData = tw_staticData w\<rparr>"

definition buildRunExecutionData :: "task_run_data \<Rightarrow> task_run_data" where
  "buildRunExecutionData r = \<lparr>tn_startData = tn_startData r, tn_resultData = tn_resultData r,
     tn_executionData = (case tn_executionData r of
        None \<Rightarrow> None
      | Some x \<Rightarrow> Some \<lparr>te_contextData = te_contextData x, te_metadata = te_metadata x, te_nodeExecutionStack = [],
          te_waitingExecution = [], te_waitingExecutionSource = None\<rparr>)\<rparr>"

definition buildFromTaskData :: "TaskData \<Rightarrow> DataRequestResponse" where
  "buildFromTaskData d = \<lparr>dr_workflow = buildWorkflow (td_workflow d), dr_inputData = td_inputData d,
     dr_connectionInputSource = (case td_executeData d of None \<Rightarrow> None | Some e \<Rightarrow> ex_source e),
     dr_node = td_node d, dr_runExecutionData = buildRunExecutionData (td_runExecutionData d),
     dr_runIndex = td_runIndex d, dr_itemIndex = td_itemIndex d, dr_activeNodeName = td_activeNodeName d,
     dr_siblingParameters = td_siblingParameters d, dr_mode = td_mode d, dr_envProviderState = td_envProviderState d,
     dr_defaultReturnRunIndex = td_defaultReturnRunIndex d, dr_selfData = td_selfData d,
     dr_contextNodeName = td_contextNodeName d, dr_additionalData = buildAdditionalData (td_additionalData d)\<rparr>"

section \<open>Stripping\<close>

record InputDataChunkDefinition =
  chunk_startIndex :: nat
  chunk_count :: nat

datatype data_of_nodes = AllNodes | NodeNames "string list"

record TaskDataRequestParams =
  rp_dataOfNodes :: data_of_nodes
  rp_prevNode :: bool
  rp_include :: bool
  rp_chunk :: "InputDataChunkDefinition option"
  rp_env :: bool

definition determinePrevNodeName :: "DataRequestResponse \<Rightarrow> string" where
  "determinePrevNodeName dr = (case dr_connectionInputSource dr of
     None \<Rightarrow> []
   | Some source \<Rightarrow> (case map_of source Main of
       None \<Rightarrow> []
     | Some sources \<Rightarrow> (case slot_value (slot_at sources 0) of None \<Rightarrow> [] | Some s \<Rightarrow> src_previousNode s)))"

text \<open>The set of requested names, for a request of single nodes.\<close>

definition requestedNodeNames :: "DataRequestResponse \<Rightarrow> bool \<Rightarrow> string list \<Rightarrow> string js_set" where
  "requestedNodeNames dr prevNode names =
     (let requested = js_set_of names in if prevNode then set_add (determinePrevNodeName dr) requested else requested)"

definition filterObjectByNodeNames :: "string js_set \<Rightarrow> (string, 'a) js_map \<Rightarrow> (string, 'a) js_map" where
  "filterObjectByNodeNames requested obj = filter (\<lambda>(nodeName, _). nodeName \<in> set requested) obj"

definition stripRunExecutionData :: "DataRequestResponse \<Rightarrow> TaskDataRequestParams \<Rightarrow> task_run_data \<Rightarrow> task_run_data" where
  "stripRunExecutionData dr params r =
     (case rp_dataOfNodes params of
        AllNodes \<Rightarrow> r
      | NodeNames names \<Rightarrow>
          let requested = requestedNodeNames dr (rp_prevNode params) names; res = tn_resultData r in
          \<lparr>tn_startData = tn_startData r,
           tn_resultData = \<lparr>tr_error = tr_error res, tr_lastNodeExecuted = tr_lastNodeExecuted res,
             tr_metadata = tr_metadata res, tr_runData = filterObjectByNodeNames requested (tr_runData res),
             tr_pinData = map_option (filterObjectByNodeNames requested) (tr_pinData res)\<rparr>,
           tn_executionData = tn_executionData r\<rparr>)"

definition stripEnvProviderState :: "TaskDataRequestParams \<Rightarrow> EnvProviderState \<Rightarrow> EnvProviderState" where
  "stripEnvProviderState params e = (if rp_env params then e else e\<lparr>ep_env := []\<rparr>)"

text \<open>\<open>inputData.main?.[0]\<close>.\<close>

definition first_input :: "ITaskDataConnections \<Rightarrow> INodeExecutionData list option" where
  "first_input inputData = (case map_of inputData Main of
     None \<Rightarrow> None | Some inputs \<Rightarrow> slot_value (slot_at inputs 0))"

definition js_slice :: "'a list \<Rightarrow> nat \<Rightarrow> nat \<Rightarrow> 'a list" where
  "js_slice xs i j = drop i (take j xs)"

definition stripChunkedInputData :: "InputDataChunkDefinition \<Rightarrow> ITaskDataConnections \<Rightarrow> ITaskDataConnections" where
  "stripChunkedInputData chunk inputData =
     (case first_input inputData of
        None \<Rightarrow> inputData
      | Some inputItems \<Rightarrow> map_set Main
          [Filled (js_slice inputItems (chunk_startIndex chunk) (chunk_startIndex chunk + chunk_count chunk))] inputData)"

definition stripInputData :: "TaskDataRequestParams \<Rightarrow> ITaskDataConnections \<Rightarrow> ITaskDataConnections" where
  "stripInputData params inputData =
     (if \<not> rp_include params then []
      else case rp_chunk params of None \<Rightarrow> inputData | Some chunk \<Rightarrow> stripChunkedInputData chunk inputData)"

definition strip :: "DataRequestResponse \<Rightarrow> TaskDataRequestParams \<Rightarrow> DataRequestResponse" where
  "strip dr params = dr\<lparr>dr_inputData := stripInputData params (dr_inputData dr),
     dr_envProviderState := stripEnvProviderState params (dr_envProviderState dr),
     dr_runExecutionData := stripRunExecutionData dr params (dr_runExecutionData dr)\<rparr>"

section \<open>Reconstruction\<close>

text \<open>An array length is never negative: \<open>Array.from\<close> of a negative length is empty.\<close>

definition reconstructConnectionInputItems ::
  "ITaskDataConnections \<Rightarrow> InputDataChunkDefinition option \<Rightarrow> INodeExecutionData option list" where
  "reconstructConnectionInputItems inputData chunk =
     (let inputItems = (case first_input inputData of None \<Rightarrow> [] | Some items \<Rightarrow> items) in
      case chunk of
        None \<Rightarrow> map Some inputItems
      | Some c \<Rightarrow> replicate (chunk_startIndex c) None @ map Some inputItems @
          replicate (nat (int (length inputItems) - int (chunk_startIndex c) - int (chunk_count c))) None)"

section \<open>What the code needs\<close>

record BuiltInsParserState =
  bp_neededNodeNames :: "string js_set"
  bp_needsAllNodes :: bool
  bp_needs_env :: bool
  bp_needs_input :: bool
  bp_needs_execution :: bool
  bp_needs_prevNode :: bool

definition new_parser_state :: BuiltInsParserState where
  "new_parser_state = \<lparr>bp_neededNodeNames = [], bp_needsAllNodes = False, bp_needs_env = False, bp_needs_input = False,
     bp_needs_execution = False, bp_needs_prevNode = False\<rparr>"

definition markNeedsAllNodes :: "BuiltInsParserState \<Rightarrow> BuiltInsParserState" where
  "markNeedsAllNodes s = s\<lparr>bp_needsAllNodes := True, bp_needs_input := True, bp_neededNodeNames := []\<rparr>"

definition markNodeAsNeeded :: "string \<Rightarrow> BuiltInsParserState \<Rightarrow> BuiltInsParserState" where
  "markNodeAsNeeded nodeName s =
     (if bp_needsAllNodes s then s else s\<lparr>bp_neededNodeNames := set_add nodeName (bp_neededNodeNames s)\<rparr>)"

definition toDataRequestParams :: "BuiltInsParserState \<Rightarrow> InputDataChunkDefinition option \<Rightarrow> TaskDataRequestParams" where
  "toDataRequestParams s chunk = \<lparr>rp_dataOfNodes = (if bp_needsAllNodes s then AllNodes else NodeNames (bp_neededNodeNames s)),
     rp_prevNode = bp_needs_prevNode s, rp_include = bp_needs_input s, rp_chunk = chunk, rp_env = bp_needs_env s\<rparr>"

definition newNeedsAllDataState :: BuiltInsParserState where
  "newNeedsAllDataState = (markNeedsAllNodes new_parser_state)\<lparr>bp_needs_env := True, bp_needs_input := True,
     bp_needs_execution := True, bp_needs_prevNode := True\<rparr>"

text \<open>The value of a literal, and the nodes whose kind the visitors look at.\<close>

datatype literal = StringLiteral string | OtherLiteral

datatype js_node =
    Identifier string
  | Literal literal
  | MemberExpression js_node bool  \<comment> \<open>the property, computed or not\<close>
  | VariableDeclarator
  | AssignmentExpression
  | OtherNode

text \<open>A visit of a call has the callee, the arguments and the direct parent of the call.\<close>

datatype visit =
    VisitCall js_node "js_node list" js_node
  | VisitIdentifier string

definition isPairedItemProperty :: "string \<Rightarrow> bool" where
  "isPairedItemProperty p \<longleftrightarrow> p = ''item'' \<or> p = ''pairedItem'' \<or> p = ''itemMatching''"

definition handlePrevNodeCall :: "js_node \<Rightarrow> BuiltInsParserState \<Rightarrow> BuiltInsParserState" where
  "handlePrevNodeCall directParent s =
     (case directParent of
        MemberExpression accessedProperty computed \<Rightarrow>
          if computed then
            (case accessedProperty of
               Literal v \<Rightarrow> (case v of
                   StringLiteral p \<Rightarrow> if isPairedItemProperty p then markNeedsAllNodes s else s
                 | OtherLiteral \<Rightarrow> s)
             | Identifier _ \<Rightarrow> markNeedsAllNodes s
             | _ \<Rightarrow> s)
          else (case accessedProperty of
              Identifier p \<Rightarrow> if isPairedItemProperty p then markNeedsAllNodes s else s
            | _ \<Rightarrow> s)
      | VariableDeclarator \<Rightarrow> markNeedsAllNodes s
      | AssignmentExpression \<Rightarrow> markNeedsAllNodes s
      | _ \<Rightarrow> markNeedsAllNodes s)"

definition visitCallExpression :: "js_node \<Rightarrow> js_node list \<Rightarrow> js_node \<Rightarrow> BuiltInsParserState \<Rightarrow> BuiltInsParserState" where
  "visitCallExpression callee arguments directParent s =
     (if callee \<noteq> Identifier ''$'' then s
      else case arguments of
        [] \<Rightarrow> s
      | firstArg # _ \<Rightarrow> (case firstArg of
          Literal v \<Rightarrow> (case v of
              StringLiteral nodeName \<Rightarrow> handlePrevNodeCall directParent (markNodeAsNeeded nodeName s)
            | OtherLiteral \<Rightarrow> s)
        | _ \<Rightarrow> markNeedsAllNodes s))"

definition visitIdentifier :: "string \<Rightarrow> BuiltInsParserState \<Rightarrow> BuiltInsParserState" where
  "visitIdentifier name s =
     (if name = ''$env'' then s\<lparr>bp_needs_env := True\<rparr>
      else if name = ''$item'' then markNeedsAllNodes s
      else if name = ''$input'' \<or> name = ''$json'' \<or> name = ''items'' \<or> name = ''item'' then s\<lparr>bp_needs_input := True\<rparr>
      else if name = ''$node'' then markNeedsAllNodes s
      else if name = ''$execution'' then s\<lparr>bp_needs_execution := True\<rparr>
      else if name = ''$prevNode'' then s\<lparr>bp_needs_prevNode := True\<rparr>
      else s)"

fun visit_node :: "BuiltInsParserState \<Rightarrow> visit \<Rightarrow> BuiltInsParserState" where
  "visit_node s (VisitCall callee arguments directParent) = visitCallExpression callee arguments directParent s"
| "visit_node s (VisitIdentifier name) = visitIdentifier name s"

definition identifyBuiltInsByWalkingAst :: "visit list \<Rightarrow> BuiltInsParserState" where
  "identifyBuiltInsByWalkingAst visits = foldl visit_node new_parser_state visits"

text \<open>Code that cannot be parsed gets all data.\<close>

definition needed_built_ins :: "visit list option \<Rightarrow> BuiltInsParserState" where
  "needed_built_ins parsed = (case parsed of None \<Rightarrow> newNeedsAllDataState | Some visits \<Rightarrow> identifyBuiltInsByWalkingAst visits)"

end
