(* ===== verification/RunnerCode.thy ===== *)
theory RunnerCode
  imports RunnerData
begin

text \<open>
  Running the code of a Code node in the JavaScript task runner
  (\<open>packages/@n8n/task-runner/src/js-task-runner\<close>), and the node's side of it, which sends the input items in
  chunks (\<open>packages/nodes-base/nodes/Code/JsTaskRunnerSandbox.ts\<close>). The virtual machine is a parameter: what
  the code returns or throws for the data and the item it gets. Values that the code returns are JSON.
\<close>

section \<open>Results of code\<close>

datatype code_error =
    AssertionFailed string
  | ValidationError string "nat option"
  | NodeValidationError string string nat nat  \<comment> \<open>message, description, item, line\<close>
  | InconsistentItemFormat
  | TypeErrorThrown
  | Thrown json
  | TimedOut

datatype code_outcome = Returned json | Failed code_error

type_synonym 'a code_result = "code_error + 'a"

fun bind_code :: "'a code_result \<Rightarrow> ('a \<Rightarrow> 'b code_result) \<Rightarrow> 'b code_result" where
  "bind_code (Inl e) f = Inl e"
| "bind_code (Inr x) f = f x"

fun each_code :: "('a \<Rightarrow> unit code_result) \<Rightarrow> 'a list \<Rightarrow> unit code_result" where
  "each_code f [] = Inr ()"
| "each_code f (x # xs) = bind_code (f x) (\<lambda>_. each_code f xs)"

text \<open>\<open>some\<close> and \<open>every\<close> of a test that may throw stop at the first answer.\<close>

fun some_code :: "('a \<Rightarrow> bool code_result) \<Rightarrow> 'a list \<Rightarrow> bool code_result" where
  "some_code P [] = Inr False"
| "some_code P (x # xs) = bind_code (P x) (\<lambda>b. if b then Inr True else some_code P xs)"

fun every_code :: "('a \<Rightarrow> bool code_result) \<Rightarrow> 'a list \<Rightarrow> bool code_result" where
  "every_code P [] = Inr True"
| "every_code P (x # xs) = bind_code (P x) (\<lambda>b. if b then every_code P xs else Inr False)"

section \<open>Values\<close>

text \<open>\<open>typeof v === 'object'\<close>, which holds of \<open>null\<close>, and \<open>isObject\<close>.\<close>

fun typeof_object :: "json \<Rightarrow> bool" where
  "typeof_object JNull = True"
| "typeof_object (JArr _) = True"
| "typeof_object (JObj _) = True"
| "typeof_object _ = False"

fun isObject :: "json \<Rightarrow> bool" where
  "isObject (JObj _) = True"
| "isObject _ = False"

fun json_truthy :: "json \<Rightarrow> bool" where
  "json_truthy JNull = False"
| "json_truthy JUndefined = False"
| "json_truthy (JBool b) = b"
| "json_truthy (JNum n) = (n \<noteq> 0)"
| "json_truthy (JStr s) = (s \<noteq> [])"
| "json_truthy _ = True"

text \<open>\<open>v[key]\<close> for the keys \<open>json\<close> and \<open>binary\<close>, of a value that is not \<open>null\<close> or \<open>undefined\<close>.\<close>

fun prop_of :: "json \<Rightarrow> string \<Rightarrow> json" where
  "prop_of (JObj kvs) k = (case map_of kvs k of None \<Rightarrow> JUndefined | Some v \<Rightarrow> v)"
| "prop_of _ k = JUndefined"

text \<open>\<open>typeof item === 'object' && key in item\<close>.\<close>

fun object_has :: "string \<Rightarrow> json \<Rightarrow> bool code_result" where
  "object_has k JNull = Inl TypeErrorThrown"
| "object_has k (JObj kvs) = Inr (k \<in> fst ` set kvs)"
| "object_has k _ = Inr False"

text \<open>The own keys that \<open>for ... in\<close> visits; indexes of an array or a string are printed.\<close>

fun own_keys :: "json \<Rightarrow> string list" where
  "own_keys (JObj kvs) = map fst kvs"
| "own_keys (JArr xs) = map nat_str [0..<length xs]"
| "own_keys (JStr s) = map nat_str [0..<length s]"
| "own_keys _ = []"

fun own_object_keys :: "json \<Rightarrow> string list code_result" where
  "own_object_keys JNull = Inl TypeErrorThrown"
| "own_object_keys JUndefined = Inl TypeErrorThrown"
| "own_object_keys v = Inr (own_keys v)"

section \<open>Validation\<close>

definition REQUIRED_N8N_ITEM_KEYS :: "string list" where
  "REQUIRED_N8N_ITEM_KEYS = [''json'', ''binary'', ''pairedItem'', ''error'', ''index'']"

definition validateTopLevelKeys :: "json \<Rightarrow> nat \<Rightarrow> unit code_result" where
  "validateTopLevelKeys item itemIndex =
     (case find (\<lambda>k. k \<notin> set REQUIRED_N8N_ITEM_KEYS) (own_keys item) of
        None \<Rightarrow> Inr ()
      | Some key \<Rightarrow> Inl (ValidationError (''Unknown top-level item key: '' @ key) (Some itemIndex)))"

definition validateItem :: "json \<Rightarrow> nat \<Rightarrow> unit code_result" where
  "validateItem item itemIndex =
     (if \<not> isObject (prop_of item ''json'') then
        Inl (ValidationError ''A 'json' property isn't an object'' (Some itemIndex))
      else if prop_of item ''binary'' \<noteq> JUndefined \<and> \<not> isObject (prop_of item ''binary'') then
        Inl (ValidationError ''A 'binary' property isn't an object'' (Some itemIndex))
      else Inr ())"

text \<open>An item whose other keys become its \<open>json\<close>.\<close>

definition split_binary :: "json \<Rightarrow> json" where
  "split_binary item = JObj [(''json'', JObj (case item of JObj kvs \<Rightarrow> map_delete ''binary'' kvs | _ \<Rightarrow> [])),
     (''binary'', prop_of item ''binary'')]"

definition normalize_list :: "json list \<Rightarrow> json list code_result" where
  "normalize_list items =
     bind_code (every_code (object_has ''json'') items) (\<lambda>all_json.
       if all_json then Inr items
       else bind_code (some_code (object_has ''json'') items) (\<lambda>some_json.
         if some_json then Inl InconsistentItemFormat
         else bind_code (every_code (object_has ''binary'') items) (\<lambda>all_binary.
           if all_binary then Inr (map split_binary items)
           else bind_code (some_code (object_has ''binary'') items) (\<lambda>some_binary.
             if some_binary then Inl InconsistentItemFormat
             else Inr (map (\<lambda>item. JObj [(''json'', item)]) items)))))"

definition normalizeItems :: "json \<Rightarrow> json list code_result" where
  "normalizeItems v = (case v of
     JArr items \<Rightarrow> normalize_list items
   | JObj kvs \<Rightarrow> normalize_list (if json_truthy (prop_of v ''json'') then [v] else [JObj [(''json'', v)]])
   | _ \<Rightarrow> Inl TypeErrorThrown)"

definition validate_indexed :: "(json \<Rightarrow> nat \<Rightarrow> unit code_result) \<Rightarrow> json list \<Rightarrow> unit code_result" where
  "validate_indexed f items = each_code (\<lambda>(i, item). f item i) (enumerate 0 items)"

definition has_n8n_key :: "json \<Rightarrow> bool code_result" where
  "has_n8n_key item = bind_code (own_object_keys item) (\<lambda>keys. Inr (\<exists>k \<in> set keys. k \<in> set REQUIRED_N8N_ITEM_KEYS))"

definition validateRunForAllItemsOutput :: "json \<Rightarrow> json list code_result" where
  "validateRunForAllItemsOutput v =
     (if \<not> typeof_object v then Inl (ValidationError ''Code doesn't return items properly'' None)
      else bind_code (case v of
          JArr items \<Rightarrow> bind_code (some_code has_n8n_key items) (\<lambda>mustHaveTopLevelN8nKey.
            if mustHaveTopLevelN8nKey then validate_indexed validateTopLevelKeys items else Inr ())
        | _ \<Rightarrow> Inr ()) (\<lambda>_.
        bind_code (normalizeItems v) (\<lambda>returnData.
        bind_code (validate_indexed validateItem returnData) (\<lambda>_. Inr returnData))))"

definition validateRunForEachItemOutput :: "json \<Rightarrow> nat \<Rightarrow> json code_result" where
  "validateRunForEachItemOutput v itemIndex =
     (if \<not> typeof_object v then Inl (ValidationError ''Code doesn't return an object'' (Some itemIndex))
      else case v of
        JArr _ \<Rightarrow> Inl (ValidationError ''Code doesn't return a single object'' (Some itemIndex))
      | _ \<Rightarrow> bind_code (normalize_list [v]) (\<lambda>items.
          bind_code (validateItem (hd items) itemIndex) (\<lambda>_.
          bind_code (validateTopLevelKeys (hd items) itemIndex) (\<lambda>_. Inr (hd items)))))"

section \<open>The runner\<close>

datatype CodeExecutionMode = RunOnceForAllItems | RunOnceForEachItem

record JSExecSettings =
  js_code :: string
  js_nodeMode :: CodeExecutionMode
  js_continueOnFail :: bool
  js_chunk :: "InputDataChunkDefinition option"

text \<open>
  The virtual machine, for the code, the data and the item (or all of them), the message of an error,
  and the parser of the code.
\<close>

record code_machine =
  run_item :: "string \<Rightarrow> DataRequestResponse \<Rightarrow> nat \<Rightarrow> INodeExecutionData option \<Rightarrow> code_outcome"
  run_all :: "string \<Rightarrow> DataRequestResponse \<Rightarrow> INodeExecutionData option list \<Rightarrow> code_outcome"
  error_message :: "code_error \<Rightarrow> string"
  parse_code :: "string \<Rightarrow> visit list option"

definition validateTaskSettings :: "JSExecSettings \<Rightarrow> unit code_result" where
  "validateTaskSettings settings =
     (if js_code settings = [] then Inl (AssertionFailed ''No code to execute'')
      else if js_nodeMode settings = RunOnceForAllItems \<and> js_chunk settings \<noteq> None then
        Inl (AssertionFailed ''Chunking is not supported for runOnceForAllItems'')
      else Inr ())"

definition paired_key :: "nat \<Rightarrow> string \<times> json" where
  "paired_key index = (''pairedItem'', JObj [(''item'', JNum (of_nat index))])"

definition error_json :: "code_machine \<Rightarrow> code_error \<Rightarrow> string \<times> json" where
  "error_json env e = (''json'', JObj [(''error'', JStr (error_message env e))])"

definition runForAllItems ::
  "code_machine \<Rightarrow> JSExecSettings \<Rightarrow> DataRequestResponse \<Rightarrow> INodeExecutionData option list \<Rightarrow> json list code_result" where
  "runForAllItems env settings data inputItems =
     (let result = (case run_all env (js_code settings) data inputItems of
          Failed e \<Rightarrow> Inl e
        | Returned v \<Rightarrow> if v = JNull then Inr [] else validateRunForAllItemsOutput v)
      in case result of
          Inl e \<Rightarrow> if js_continueOnFail settings then Inr [JObj [error_json env e]] else Inl e
        | Inr items \<Rightarrow> Inr items)"

text \<open>One item: an error, no output, or an output item.\<close>

definition item_output :: "nat \<Rightarrow> code_outcome \<Rightarrow> json option code_result" where
  "item_output index outcome = (case outcome of
     Failed e \<Rightarrow> Inl e
   | Returned v \<Rightarrow>
       if v = JNull then Inr None
       else bind_code (validateRunForEachItemOutput v index) (\<lambda>result.
         Inr (Some (JObj ([(''json'', prop_of result ''json''), paired_key index] @
           (if json_truthy (prop_of result ''binary'') then [(''binary'', prop_of result ''binary'')] else []))))))"

fun run_indexes :: "code_machine \<Rightarrow> bool \<Rightarrow> (nat \<Rightarrow> code_outcome) \<Rightarrow> nat list \<Rightarrow> json list code_result" where
  "run_indexes env continueOnFail f [] = Inr []"
| "run_indexes env continueOnFail f (index # rest) =
     (case item_output index (f index) of
        Inl e \<Rightarrow>
          if continueOnFail then
            bind_code (run_indexes env continueOnFail f rest) (\<lambda>items. Inr (JObj [error_json env e, paired_key index] # items))
          else Inl e
      | Inr None \<Rightarrow> run_indexes env continueOnFail f rest
      | Inr (Some item) \<Rightarrow> bind_code (run_indexes env continueOnFail f rest) (\<lambda>items. Inr (item # items)))"

text \<open>An index beyond the items reads \<open>undefined\<close>.\<close>

definition item_at :: "'a option list \<Rightarrow> nat \<Rightarrow> 'a option" where
  "item_at items index = (if index < length items then items ! index else None)"

definition runForEachItem ::
  "code_machine \<Rightarrow> JSExecSettings \<Rightarrow> DataRequestResponse \<Rightarrow> INodeExecutionData option list \<Rightarrow> json list code_result" where
  "runForEachItem env settings data inputItems =
     (let (chunkStartIdx, chunkEndIdx) = (case js_chunk settings of
          None \<Rightarrow> (0, length inputItems)
        | Some chunk \<Rightarrow> (chunk_startIndex chunk, chunk_startIndex chunk + chunk_count chunk))
      in run_indexes env (js_continueOnFail settings)
           (\<lambda>index. run_item env (js_code settings) data index (item_at inputItems index)) [chunkStartIdx..<chunkEndIdx])"

text \<open>\<open>executeTask\<close>; the answer to the request of data is a function of its parameters.\<close>

definition executeTask ::
  "code_machine \<Rightarrow> JSExecSettings \<Rightarrow> (TaskDataRequestParams \<Rightarrow> DataRequestResponse) \<Rightarrow> json list code_result" where
  "executeTask env settings requestData =
     bind_code (validateTaskSettings settings) (\<lambda>_.
       let neededBuiltIns = needed_built_ins (parse_code env (js_code settings));
           data = requestData (toDataRequestParams neededBuiltIns (js_chunk settings));
           inputItems = reconstructConnectionInputItems (dr_inputData data) (js_chunk settings)
       in case js_nodeMode settings of
            RunOnceForAllItems \<Rightarrow> runForAllItems env settings data inputItems
          | RunOnceForEachItem \<Rightarrow> runForEachItem env settings data inputItems)"

section \<open>The Code node\<close>

definition startJob :: "code_machine \<Rightarrow> TaskData \<Rightarrow> JSExecSettings \<Rightarrow> json list code_result" where
  "startJob env taskData settings = executeTask env settings (\<lambda>params. strip (buildFromTaskData taskData) params)"

definition runCodeAllItems :: "code_machine \<Rightarrow> TaskData \<Rightarrow> string \<Rightarrow> bool \<Rightarrow> json list code_result" where
  "runCodeAllItems env taskData jsCode continueOnFail = startJob env taskData
     \<lparr>js_code = jsCode, js_nodeMode = RunOnceForAllItems, js_continueOnFail = continueOnFail, js_chunk = None\<rparr>"

text \<open>\<open>Math.ceil(n / chunkSize)\<close> chunks, the last of which may be shorter.\<close>

definition chunkInputItems :: "nat \<Rightarrow> nat \<Rightarrow> InputDataChunkDefinition list" where
  "chunkInputItems chunkSize numInputItems =
     (let numChunks = (numInputItems + chunkSize - 1) div chunkSize in
      map (\<lambda>i. let startIdx = i * chunkSize in
        \<lparr>chunk_startIndex = startIdx,
         chunk_count = (if i = numChunks - 1 then numInputItems - startIdx else chunkSize)\<rparr>) [0..<numChunks])"

fun run_chunks :: "(InputDataChunkDefinition \<Rightarrow> json list code_result) \<Rightarrow> InputDataChunkDefinition list \<Rightarrow> json list code_result" where
  "run_chunks job [] = Inr []"
| "run_chunks job (chunk # chunks) =
     bind_code (job chunk) (\<lambda>items. bind_code (run_chunks job chunks) (\<lambda>rest. Inr (items @ rest)))"

text \<open>
  Before the first chunk (\<open>JsCodeValidator.ts\<close>): the first place where the pattern
  \<open>$input.(first|last|all|itemMatching)\<close> matches, and the first line that has the method and is not a comment.
\<close>

fun disallowed_method :: "string \<Rightarrow> string option" where
  "disallowed_method [] = None"
| "disallowed_method (c # cs) =
     (case (if starts_with (c # cs) ''$input.''
            then find (starts_with (drop 7 (c # cs))) [''first'', ''last'', ''all'', ''itemMatching'']
            else None) of
        Some m \<Rightarrow> Some m
      | None \<Rightarrow> disallowed_method cs)"

definition uses_method :: "string \<Rightarrow> string \<Rightarrow> bool" where
  "uses_method disallowedMethod line =
     (let line = dropWhile is_js_space line in
      str_includes line disallowedMethod \<and> \<not> starts_with line ''//'' \<and> \<not> starts_with line ''/*'' \<and>
      \<not> starts_with line ''*'')"

definition validateNoDisallowedMethodsInRunForEach :: "string \<Rightarrow> nat \<Rightarrow> unit code_result" where
  "validateNoDisallowedMethodsInRunForEach code itemIndex =
     (case disallowed_method code of
        None \<Rightarrow> Inr ()
      | Some m \<Rightarrow>
          (case find (\<lambda>(i, line). uses_method m line) (enumerate 1 (js_split (CHR 10) code)) of
             None \<Rightarrow> Inr ()
           | Some (lineNumber, _) \<Rightarrow> Inl (NodeValidationError
               (''Can'' @ [CHR 0x27] @ ''t use .'' @ m @ ''() here [line '' @ nat_str lineNumber @
                '', for item '' @ nat_str itemIndex @ '']'')
               (''This is only available in '' @ [CHR 0x27] @ ''Run Once for All Items'' @ [CHR 0x27] @ '' mode'')
               itemIndex lineNumber)))"

definition runCodeForEachItem ::
  "nat \<Rightarrow> code_machine \<Rightarrow> TaskData \<Rightarrow> string \<Rightarrow> bool \<Rightarrow> nat \<Rightarrow> json list code_result" where
  "runCodeForEachItem chunkSize env taskData jsCode continueOnFail numInputItems =
     bind_code (validateNoDisallowedMethodsInRunForEach jsCode 0) (\<lambda>_.
       run_chunks (\<lambda>chunk. startJob env taskData
         \<lparr>js_code = jsCode, js_nodeMode = RunOnceForEachItem, js_continueOnFail = continueOnFail, js_chunk = Some chunk\<rparr>)
         (chunkInputItems chunkSize numInputItems))"

section \<open>Node types of the runner\<close>

type_synonym description = "(string, json) js_map"

record INodeTypeDescription =
  nt_name :: string
  nt_versions :: "rat list option"  \<comment> \<open>\<open>None\<close> without a version\<close>
  nt_properties :: description

type_synonym versioned_types = "(rat, description) js_map"
type_synonym node_types = "(string, versioned_types) js_map"

definition DEFAULT_NODETYPE_VERSION :: rat where
  "DEFAULT_NODETYPE_VERSION = 1"

definition spread_into :: "description \<Rightarrow> description \<Rightarrow> description" where
  "spread_into base extra = foldl (\<lambda>d (k, v). map_set k v d) base extra"

definition add_version :: "INodeTypeDescription \<Rightarrow> versioned_types \<Rightarrow> rat \<Rightarrow> versioned_types" where
  "add_version nt versioned version =
     map_set version (spread_into (case map_of versioned version of None \<Rightarrow> [] | Some d \<Rightarrow> d) (nt_properties nt)) versioned"

definition parse_type :: "node_types \<Rightarrow> INodeTypeDescription \<Rightarrow> node_types" where
  "parse_type types nt =
     (let versions = (case nt_versions nt of None \<Rightarrow> [DEFAULT_NODETYPE_VERSION] | Some vs \<Rightarrow> vs);
          versioned = (case map_of types (nt_name nt) of None \<Rightarrow> [] | Some v \<Rightarrow> v)
      in map_set (nt_name nt) (foldl (add_version nt) versioned versions) types)"

definition parseNodeTypes :: "INodeTypeDescription list \<Rightarrow> node_types" where
  "parseNodeTypes nodeTypes = foldl parse_type [] nodeTypes"

definition merge_types :: "node_types \<Rightarrow> string \<times> versioned_types \<Rightarrow> node_types" where
  "merge_types types entry = (case entry of (name, newVersions) \<Rightarrow>
     case map_of types name of
       None \<Rightarrow> map_set name newVersions types
     | Some existingVersions \<Rightarrow> map_set name (foldl (\<lambda>m (v, d). map_set v d m) existingVersions newVersions) types)"

definition addNodeTypeDescriptions :: "INodeTypeDescription list \<Rightarrow> node_types \<Rightarrow> node_types" where
  "addNodeTypeDescriptions descriptions types = foldl merge_types types (parseNodeTypes descriptions)"

definition getByNameAndVersion :: "node_types \<Rightarrow> string \<Rightarrow> rat option \<Rightarrow> description option" where
  "getByNameAndVersion types nodeType version =
     (case map_of types nodeType of
        None \<Rightarrow> None
      | Some versions \<Rightarrow> (case version of
          Some v \<Rightarrow> map_of versions v
        | None \<Rightarrow> (case map_keys versions of [] \<Rightarrow> None | v # vs \<Rightarrow> map_of versions (foldl max v vs))))"

definition onlyUnknown :: "node_types \<Rightarrow> (string \<times> rat) list \<Rightarrow> (string \<times> rat) list" where
  "onlyUnknown types needed = filter (\<lambda>(name, version). case map_of types name of
     None \<Rightarrow> True | Some existingVersions \<Rightarrow> map_of existingVersions version = None) needed"

text \<open>The types and versions of the nodes of a workflow, each once; only unknown ones are asked for.\<close>

definition uniqueNodeTypes :: "INode list \<Rightarrow> (string \<times> rat) list" where
  "uniqueNodeTypes nodes = js_set_of (map (\<lambda>node. (node_type node, node_typeVersion node)) nodes)"

definition requestNodeTypeIfNeeded ::
  "BuiltInsParserState \<Rightarrow> WorkflowParameters \<Rightarrow> ((string \<times> rat) list \<Rightarrow> INodeTypeDescription list) \<Rightarrow> node_types \<Rightarrow> node_types" where
  "requestNodeTypeIfNeeded neededBuiltIns workflow requestNodeTypes types =
     (if bp_needsAllNodes neededBuiltIns then
        addNodeTypeDescriptions (requestNodeTypes (onlyUnknown types (uniqueNodeTypes (wp_nodes workflow)))) types
      else types)"

end
