(* ===== verification/RunnerCodeFacts.thy ===== *)
theory RunnerCodeFacts
  imports RunnerCode "HOL-Library.Sublist"
begin

text \<open>
  What the runner's handling of code guarantees: the data that the code names is sent, running in chunks is
  running item by item, what the outputs look like, and which node types are known.
\<close>

section \<open>The data that the code names\<close>

text \<open>
  What one expression asks for: all nodes, by \<open>$node\<close>, \<open>$item\<close>, a name that is not a literal, or a use of
  a node that may follow paired items; the node it names; or the input.
\<close>

fun plain_access :: "js_node \<Rightarrow> bool" where
  "plain_access (MemberExpression (Identifier p) computed) = (\<not> computed \<and> \<not> isPairedItemProperty p)"
| "plain_access (MemberExpression (Literal (StringLiteral p)) computed) = (\<not> computed \<or> \<not> isPairedItemProperty p)"
| "plain_access (MemberExpression _ computed) = True"
| "plain_access _ = False"

fun wants_all :: "visit \<Rightarrow> bool" where
  "wants_all (VisitIdentifier name) = (name = ''$node'' \<or> name = ''$item'')"
| "wants_all (VisitCall callee arguments parent) = (callee = Identifier ''$'' \<and>
     (case arguments of
        [] \<Rightarrow> False
      | Literal (StringLiteral x) # _ \<Rightarrow> \<not> plain_access parent
      | Literal OtherLiteral # _ \<Rightarrow> False
      | _ \<Rightarrow> True))"

fun names_node :: "string \<Rightarrow> visit \<Rightarrow> bool" where
  "names_node x (VisitIdentifier name) = False"
| "names_node x (VisitCall callee arguments parent) = (callee = Identifier ''$'' \<and>
     (case arguments of Literal (StringLiteral y) # _ \<Rightarrow> y = x | _ \<Rightarrow> False))"

fun uses_input :: "visit \<Rightarrow> bool" where
  "uses_input (VisitIdentifier name) = (name = ''$input'' \<or> name = ''$json'' \<or> name = ''items'' \<or> name = ''item'')"
| "uses_input (VisitCall callee arguments parent) = False"

lemma handlePrevNodeCall_plain: "handlePrevNodeCall parent s = (if plain_access parent then s else markNeedsAllNodes s)"
  by (induction parent rule: plain_access.induct)
    (auto simp: handlePrevNodeCall_def split: js_node.split literal.split)

lemma visited_call:
  "visitCallExpression callee arguments parent s =
     (if wants_all (VisitCall callee arguments parent)
      then markNeedsAllNodes (case arguments of Literal (StringLiteral x) # _ \<Rightarrow> markNodeAsNeeded x s | _ \<Rightarrow> s)
      else if callee = Identifier ''$'' then (case arguments of Literal (StringLiteral x) # _ \<Rightarrow> markNodeAsNeeded x s | _ \<Rightarrow> s)
      else s)"
  by (auto simp: visitCallExpression_def handlePrevNodeCall_plain split: list.split js_node.split literal.split)

lemma marked_node [simp]:
  "bp_needsAllNodes (markNodeAsNeeded x s) = bp_needsAllNodes s" "bp_needs_env (markNodeAsNeeded x s) = bp_needs_env s"
  "bp_needs_input (markNodeAsNeeded x s) = bp_needs_input s" "bp_needs_prevNode (markNodeAsNeeded x s) = bp_needs_prevNode s"
  "\<not> bp_needsAllNodes s \<Longrightarrow> set (bp_neededNodeNames (markNodeAsNeeded x s)) = insert x (set (bp_neededNodeNames s))"
  by (auto simp: markNodeAsNeeded_def set_add_def)

lemma marked_all [simp]:
  "bp_needsAllNodes (markNeedsAllNodes s)" "bp_needs_env (markNeedsAllNodes s) = bp_needs_env s"
  "bp_needs_input (markNeedsAllNodes s)" "bp_needs_prevNode (markNeedsAllNodes s) = bp_needs_prevNode s"
  by (simp_all add: markNeedsAllNodes_def)

lemma visit_marks:
  "bp_needsAllNodes (visit_node s v) \<longleftrightarrow> bp_needsAllNodes s \<or> wants_all v"
  "bp_needs_env (visit_node s v) \<longleftrightarrow> bp_needs_env s \<or> v = VisitIdentifier ''$env''"
  "bp_needs_input (visit_node s v) \<longleftrightarrow> bp_needs_input s \<or> wants_all v \<or> uses_input v"
  "bp_needs_prevNode (visit_node s v) \<longleftrightarrow> bp_needs_prevNode s \<or> v = VisitIdentifier ''$prevNode''"
  by (cases v; simp add: visitIdentifier_def visited_call split: list.split js_node.split literal.split)+

lemma visit_names:
  assumes "\<not> bp_needsAllNodes (visit_node s v)"
  shows "x \<in> set (bp_neededNodeNames (visit_node s v)) \<longleftrightarrow> x \<in> set (bp_neededNodeNames s) \<or> names_node x v"
proof (cases v)
  case (VisitCall callee arguments parent)
  with assms show ?thesis by (auto simp: visited_call split: list.splits js_node.splits literal.splits if_splits)
next
  case (VisitIdentifier name)
  with assms visit_marks(1) [of s v] have "name \<noteq> ''$node''" "name \<noteq> ''$item''" by simp_all
  with VisitIdentifier show ?thesis by (simp add: visitIdentifier_def)
qed

lemma visits_marks:
  "bp_needsAllNodes (foldl visit_node s vs) \<longleftrightarrow> bp_needsAllNodes s \<or> list_ex wants_all vs"
  "bp_needs_env (foldl visit_node s vs) \<longleftrightarrow> bp_needs_env s \<or> VisitIdentifier ''$env'' \<in> set vs"
  "bp_needs_input (foldl visit_node s vs) \<longleftrightarrow> bp_needs_input s \<or> list_ex wants_all vs \<or> list_ex uses_input vs"
  "bp_needs_prevNode (foldl visit_node s vs) \<longleftrightarrow> bp_needs_prevNode s \<or> VisitIdentifier ''$prevNode'' \<in> set vs"
  "\<not> bp_needsAllNodes (foldl visit_node s vs) \<Longrightarrow>
     x \<in> set (bp_neededNodeNames (foldl visit_node s vs)) \<longleftrightarrow> x \<in> set (bp_neededNodeNames s) \<or> list_ex (names_node x) vs"
proof (induction vs arbitrary: s)
  case Nil
  { case 1 show ?case by simp next case 2 show ?case by simp next case 3 show ?case by simp
    next case 4 show ?case by simp next case 5 show ?case by simp }
next
  case (Cons v vs)
  { case 1 show ?case by (simp add: Cons.IH(1) visit_marks disj_assoc)
    next case 2 show ?case by (auto simp: Cons.IH(2) visit_marks)
    next case 3 show ?case by (auto simp: Cons.IH(3) visit_marks)
    next case 4 show ?case by (auto simp: Cons.IH(4) visit_marks)
    next case 5 then show ?case using Cons.IH(1) Cons.IH(5) [of "visit_node s v"] visit_names [of s v x] by auto }
qed

text \<open>The runs and the pinned data of a node are sent if one of these holds.\<close>

definition is_sent :: "TaskData \<Rightarrow> visit list \<Rightarrow> string \<Rightarrow> bool" where
  "is_sent td visits x = (list_ex wants_all visits \<or> list_ex (names_node x) visits \<or>
     VisitIdentifier ''$prevNode'' \<in> set visits \<and> x = determinePrevNodeName (buildFromTaskData td))"

lemma requested_sent:
  assumes "\<not> bp_needsAllNodes (identifyBuiltInsByWalkingAst visits)"
  shows "x \<in> set (requestedNodeNames (buildFromTaskData td) (bp_needs_prevNode (identifyBuiltInsByWalkingAst visits))
      (bp_neededNodeNames (identifyBuiltInsByWalkingAst visits))) \<longleftrightarrow> is_sent td visits x"
proof -
  let ?s = "identifyBuiltInsByWalkingAst visits"
  have all: "\<not> list_ex wants_all visits" and prev: "bp_needs_prevNode ?s = (VisitIdentifier ''$prevNode'' \<in> set visits)"
    using assms visits_marks(1,4) [of new_parser_state visits]
    by (simp_all add: identifyBuiltInsByWalkingAst_def new_parser_state_def)
  have names: "x \<in> set (bp_neededNodeNames ?s) \<longleftrightarrow> list_ex (names_node x) visits"
    using assms visits_marks(5) [of new_parser_state visits x]
    by (simp add: identifyBuiltInsByWalkingAst_def new_parser_state_def)
  show ?thesis
    by (cases "bp_needs_prevNode ?s")
      (simp_all only: requestedNodeNames_def is_sent_def Let_def prev [symmetric] all names if_True if_False
        set_set_add set_js_set_of insert_iff simp_thms disj_commute)
qed

text \<open>C18: The answer to the request of data that the code makes has exactly what the forms that the parser knows ask for:
  the runs and the pinned data of the nodes named by \<open>$('name')\<close>, of all nodes if there is a computed name, a use
  that may follow paired items, \<open>$node\<close> or \<open>$item\<close>, and of the previous node for \<open>$prevNode\<close>; the environment for
  \<open>$env\<close>; and the input, or the requested chunk of it, for \<open>$input\<close>, \<open>$json\<close>, \<open>items\<close>, \<open>item\<close> or if all nodes are
  needed. Everything that is sent is as the task has it; nothing else is sent of these.\<close>

theorem named_data_is_sent:
  "let answer = strip (buildFromTaskData td) (toDataRequestParams (needed_built_ins (Some visits)) chunk);
       sent = tn_resultData (dr_runExecutionData answer); whole = tn_resultData (td_runExecutionData td)
   in tr_runData sent = filter (\<lambda>(x, _). is_sent td visits x) (tr_runData whole) \<and>
      tr_pinData sent = map_option (filter (\<lambda>(x, _). is_sent td visits x)) (tr_pinData whole) \<and>
      dr_envProviderState answer =
        (if VisitIdentifier ''$env'' \<in> set visits then td_envProviderState td else (td_envProviderState td) \<lparr> ep_env := [] \<rparr>) \<and>
      dr_inputData answer =
        (if list_ex wants_all visits \<or> list_ex uses_input visits
         then (case chunk of None \<Rightarrow> td_inputData td | Some c \<Rightarrow> stripChunkedInputData c (td_inputData td))
         else [])"
proof -
  let ?s = "identifyBuiltInsByWalkingAst visits"
  let ?answer = "strip (buildFromTaskData td) (toDataRequestParams ?s chunk)"
  have needed: "needed_built_ins (Some visits) = ?s" by (simp add: needed_built_ins_def)
  have marks: "bp_needsAllNodes ?s = list_ex wants_all visits" "bp_needs_env ?s = (VisitIdentifier ''$env'' \<in> set visits)"
    "bp_needs_input ?s = (list_ex wants_all visits \<or> list_ex uses_input visits)"
    using visits_marks [of new_parser_state visits] by (simp_all add: identifyBuiltInsByWalkingAst_def new_parser_state_def)
  have runs: "tr_runData (tn_resultData (dr_runExecutionData ?answer)) =
        filter (\<lambda>(x, _). is_sent td visits x) (tr_runData (tn_resultData (td_runExecutionData td))) \<and>
      tr_pinData (tn_resultData (dr_runExecutionData ?answer)) =
        map_option (filter (\<lambda>(x, _). is_sent td visits x)) (tr_pinData (tn_resultData (td_runExecutionData td)))"
  proof (cases "bp_needsAllNodes ?s")
    case True
    then have "is_sent td visits x" for x by (simp add: is_sent_def marks)
    with True show ?thesis
      by (simp add: strip_def toDataRequestParams_def stripRunExecutionData_def buildFromTaskData_def
          buildRunExecutionData_def case_prod_unfold) (cases "tr_pinData (tn_resultData (td_runExecutionData td))"; simp)
  next
    case False
    note requested = requested_sent [OF False]
    have d: "dr_runExecutionData (buildFromTaskData td) = buildRunExecutionData (td_runExecutionData td)"
      by (simp add: buildFromTaskData_def)
    from False show ?thesis
      by (simp add: strip_def toDataRequestParams_def stripRunExecutionData_def Let_def d filterObjectByNodeNames_def requested
          buildRunExecutionData_def)
        (intro option.map_cong refl, simp add: filterObjectByNodeNames_def requested)
  qed
  have "dr_envProviderState ?answer =
      (if VisitIdentifier ''$env'' \<in> set visits then td_envProviderState td else (td_envProviderState td) \<lparr> ep_env := [] \<rparr>)"
    by (simp add: strip_def stripEnvProviderState_def toDataRequestParams_def buildFromTaskData_def marks)
  moreover have "dr_inputData ?answer = (if list_ex wants_all visits \<or> list_ex uses_input visits
      then (case chunk of None \<Rightarrow> td_inputData td | Some c \<Rightarrow> stripChunkedInputData c (td_inputData td)) else [])"
    by (simp add: strip_def stripInputData_def toDataRequestParams_def buildFromTaskData_def marks)
  ultimately show ?thesis using runs unfolding needed Let_def by blast
qed

section \<open>Chunks\<close>

lemma run_indexes_append:
  "run_indexes env c f (xs @ ys) = bind_code (run_indexes env c f xs) (\<lambda>a. bind_code (run_indexes env c f ys) (\<lambda>b. Inr (a @ b)))"
proof (induction xs)
  case Nil
  show ?case by (cases "run_indexes env c f ys") simp_all
next
  case (Cons x xs)
  then show ?case
    by (cases "run_indexes env c f xs"; cases "run_indexes env c f ys") (auto split: sum.split option.split)
qed

lemma run_indexes_cong:
  "(\<And>i. i \<in> set xs \<Longrightarrow> f i = g i) \<Longrightarrow> run_indexes env c f xs = run_indexes env c g xs"
  by (induction xs) (auto split: sum.split option.split)

lemma run_chunks_concat:
  assumes "\<And>ch. ch \<in> set chunks \<Longrightarrow> job ch = run_indexes env c f (rng ch)"
  shows "run_chunks job chunks = run_indexes env c f (concat (map rng chunks))"
  using assms by (induction chunks) (simp_all add: run_indexes_append)

definition chunk_range :: "InputDataChunkDefinition \<Rightarrow> nat list" where
  "chunk_range ch = [chunk_startIndex ch..<chunk_startIndex ch + chunk_count ch]"

lemma full_ranges: "concat (map (\<lambda>i. [i * c..<i * c + c]) [0..<m]) = [0..<m * c]" for c :: nat
proof (induction m)
  case (Suc m)
  have "[0..<m * c + c] = [0..<m * c] @ [m * c..<m * c + c]" by (rule upt_add_eq_append) simp
  with Suc show ?case by (simp add: add.commute)
qed simp

lemma chunks_cover:
  assumes "0 < c"
  shows "concat (map chunk_range (chunkInputItems c n)) = [0..<n]"
    and "\<And>ch. ch \<in> set (chunkInputItems c n) \<Longrightarrow>
      0 < chunk_count ch \<and> chunk_count ch \<le> c \<and> chunk_startIndex ch + chunk_count ch \<le> n"
proof -
  define k where "k = (n + c - 1) div c"
  have lower: "k * c < n + c" unfolding k_def
    by (rule le_less_trans [OF div_times_less_eq_dividend]) (use assms in simp)
  have upper: "n \<le> k * c" using dividend_less_div_times [OF assms, of "n + c - 1"] assms by (simp add: k_def)
  have chunks: "chunkInputItems c n = map (\<lambda>i. \<lparr>chunk_startIndex = i * c,
      chunk_count = (if i = k - 1 then n - i * c else c)\<rparr>) [0..<k]"
    by (simp add: chunkInputItems_def k_def Let_def)
  have last: "(k - 1) * c < n" if "0 < k" using that lower by (cases k) auto
  have inner: "i * c + c \<le> n" if "i < k - 1" for i
  proof -
    from that have "i * c + c \<le> (k - 1) * c" using mult_le_mono1 [of "Suc i" "k - 1" c] by simp
    moreover have "0 < k" using that by simp
    ultimately show ?thesis using last by simp
  qed
  show "concat (map chunk_range (chunkInputItems c n)) = [0..<n]"
  proof (cases "k = 0")
    case True
    with upper show ?thesis unfolding chunks by simp
  next
    case False
    then obtain m where m: "k = Suc m" by (cases k) auto
    have "concat (map chunk_range (chunkInputItems c n)) =
        concat (map (\<lambda>i. [i * c..<i * c + (if i = m then n - i * c else c)]) [0..<m]) @ [m * c..<n]"
      using last m unfolding chunks by (simp add: chunk_range_def comp_def)
    also have "map (\<lambda>i. [i * c..<i * c + (if i = m then n - i * c else c)]) [0..<m] = map (\<lambda>i. [i * c..<i * c + c]) [0..<m]"
      by (rule map_cong) auto
    also have "concat (map (\<lambda>i. [i * c..<i * c + c]) [0..<m]) @ [m * c..<n] = [0..<n]"
      using last m upt_add_eq_append [of 0 "m * c" "n - m * c"] by (simp add: full_ranges)
    finally show ?thesis .
  qed
  show "0 < chunk_count ch \<and> chunk_count ch \<le> c \<and> chunk_startIndex ch + chunk_count ch \<le> n"
    if "ch \<in> set (chunkInputItems c n)" for ch
  proof -
    from that obtain i where i: "i < k" "ch = \<lparr>chunk_startIndex = i * c, chunk_count = (if i = k - 1 then n - i * c else c)\<rparr>"
      by (auto simp: chunks)
    show ?thesis
    proof (cases "i = k - 1")
      case True
      have "n \<le> (k - 1) * c + c" using upper i(1) by (cases k) auto
      with i last True show ?thesis by auto
    qed (use i inner assms in auto)
  qed
qed

lemma first_input_set [simp]: "first_input (map_set Main [Filled xs] m) = Some xs"
  by (simp add: first_input_def slot_at_def)

lemma chunk_item:
  assumes "first_input inputData = Some items" "chunk_startIndex ch + chunk_count ch \<le> length items"
    "i \<in> set (chunk_range ch)"
  shows "item_at (reconstructConnectionInputItems (stripInputData (toDataRequestParams s (Some ch)) inputData) (Some ch)) i =
    (if bp_needs_input s then Some (items ! i) else None)"
proof (cases "bp_needs_input s")
  case True
  let ?slice = "js_slice items (chunk_startIndex ch) (chunk_startIndex ch + chunk_count ch)"
  have len: "length ?slice = chunk_count ch" using assms(2) by (simp add: js_slice_def)
  define j where "j = i - chunk_startIndex ch"
  from assms(3) have j: "j < chunk_count ch" "i = chunk_startIndex ch + j" by (auto simp: chunk_range_def j_def)
  have "?slice ! j = items ! i" using j assms(2) by (simp add: js_slice_def)
  with True assms(1) len j show ?thesis
    by (simp add: stripInputData_def toDataRequestParams_def stripChunkedInputData_def
        reconstructConnectionInputItems_def item_at_def nth_append)
next
  case False
  then show ?thesis
    by (auto simp: stripInputData_def toDataRequestParams_def reconstructConnectionInputItems_def item_at_def
        first_input_def)
qed

text \<open>What the code sees beside its item: the data of the chunk that its item is in.\<close>

definition chunk_data :: "nat \<Rightarrow> code_machine \<Rightarrow> TaskData \<Rightarrow> string \<Rightarrow> nat \<Rightarrow> nat \<Rightarrow> DataRequestResponse" where
  "chunk_data chunkSize env td jsCode numInputItems i =
     strip (buildFromTaskData td) (toDataRequestParams (needed_built_ins (parse_code env jsCode))
       (Some (chunkInputItems chunkSize numInputItems ! (i div chunkSize))))"

lemma chunk_of_index:
  assumes "0 < c" "ch \<in> set (chunkInputItems c n)" "i \<in> set (chunk_range ch)"
  shows "chunkInputItems c n ! (i div c) = ch"
proof -
  let ?k = "(n + c - 1) div c"
  from assms(2) obtain j where j: "j < ?k" "ch = chunkInputItems c n ! j" "chunk_startIndex ch = j * c"
    by (auto simp: chunkInputItems_def Let_def)
  from chunks_cover(2) [OF assms(1,2)] have "chunk_count ch \<le> c" by blast
  with assms(3) j(3) have "j * c \<le> i" "i < j * c + c" by (auto simp: chunk_range_def)
  then have "i div c = j" by (intro div_nat_eqI) (simp_all add: mult.commute)
  with j(2) show ?thesis by simp
qed

text \<open>C17: Running code for each item in chunks, once the check for disallowed methods has passed, gives what running
  it over all items in order gives, whatever the size of the chunks: the same outputs, or the error of the
  first item that fails. The code runs for every item once and gets the item itself (if it uses the
  input) and the data of the chunk that the item is in; code that looks at its own item only cannot
  tell the chunks.\<close>

theorem chunks_run_like_whole:
  assumes "0 < chunkSize" "jsCode \<noteq> []" "first_input (td_inputData td) = Some items"
  shows "runCodeForEachItem chunkSize env td jsCode continueOnFail (length items) =
    bind_code (validateNoDisallowedMethodsInRunForEach jsCode 0) (\<lambda>_. run_indexes env continueOnFail
      (\<lambda>i. run_item env jsCode (chunk_data chunkSize env td jsCode (length items) i) i
        (if bp_needs_input (needed_built_ins (parse_code env jsCode)) then Some (items ! i) else None))
      [0..<length items])"
proof -
  let ?s = "needed_built_ins (parse_code env jsCode)"
  let ?f = "\<lambda>i. run_item env jsCode (chunk_data chunkSize env td jsCode (length items) i) i
    (if bp_needs_input ?s then Some (items ! i) else None)"
  let ?job = "\<lambda>chunk. startJob env td \<lparr>js_code = jsCode, js_nodeMode = RunOnceForEachItem,
    js_continueOnFail = continueOnFail, js_chunk = Some chunk\<rparr>"
  have "?job ch = run_indexes env continueOnFail ?f (chunk_range ch)"
    if "ch \<in> set (chunkInputItems chunkSize (length items))" for ch
  proof -
    have within_items: "chunk_startIndex ch + chunk_count ch \<le> length items"
      using chunks_cover(2) [OF assms(1) that] by blast
    have data: "dr_inputData (strip (buildFromTaskData td) (toDataRequestParams ?s (Some ch))) =
        stripInputData (toDataRequestParams ?s (Some ch)) (td_inputData td)"
      by (simp add: strip_def buildFromTaskData_def)
    have job: "?job ch = run_indexes env continueOnFail
        (\<lambda>i. run_item env jsCode (strip (buildFromTaskData td) (toDataRequestParams ?s (Some ch))) i
          (item_at (reconstructConnectionInputItems (stripInputData (toDataRequestParams ?s (Some ch)) (td_inputData td)) (Some ch)) i))
        (chunk_range ch)"
      unfolding startJob_def executeTask_def validateTaskSettings_def runForEachItem_def
      using assms(2) by (simp add: Let_def data chunk_range_def)
    show ?thesis unfolding job
      by (rule run_indexes_cong)
        (simp add: chunk_data_def chunk_of_index [OF assms(1) that] chunk_item [OF assms(3) within_items])
  qed
  from run_chunks_concat [OF this] chunks_cover(1) [OF assms(1), of "length items"]
  show ?thesis by (simp add: runCodeForEachItem_def)
qed

section \<open>Outputs of the code\<close>

lemma bind_code_Inr [simp]: "bind_code r f = Inr y \<longleftrightarrow> (\<exists>x. r = Inr x \<and> f x = Inr y)"
  by (cases r) auto

text \<open>An output of code that runs for each item: JSON that is an object, paired with its item.\<close>

definition output_of :: "nat \<Rightarrow> json \<Rightarrow> bool" where
  "output_of i out \<longleftrightarrow> (\<exists>kvs rest. out = JObj ((''json'', JObj kvs) # paired_key i # rest) \<and>
     (rest = [] \<or> (\<exists>b. rest = [(''binary'', JObj b)])))"

lemma isObject_iff: "isObject v \<longleftrightarrow> (\<exists>kvs. v = JObj kvs)"
  by (cases v) auto

lemma validated_item:
  assumes "validateRunForEachItemOutput v i = Inr item"
  shows "isObject (prop_of item ''json'') \<and> (prop_of item ''binary'' = JUndefined \<or> isObject (prop_of item ''binary''))"
  using assms by (cases v)
    (auto simp: validateRunForEachItemOutput_def validateItem_def split: if_splits)

lemma item_output_shape:
  assumes "item_output i r = Inr (Some out)"
  shows "output_of i out"
proof -
  from assms obtain v item where "validateRunForEachItemOutput v i = Inr item"
    and out: "out = JObj ([(''json'', prop_of item ''json''), paired_key i] @
      (if json_truthy (prop_of item ''binary'') then [(''binary'', prop_of item ''binary'')] else []))"
    by (auto simp: item_output_def split: code_outcome.splits if_splits)
  with validated_item [of v i item] show ?thesis
    by (auto simp: output_of_def isObject_iff)
qed

lemma subseq_sorted: "subseq xs ys \<Longrightarrow> sorted_wrt R ys \<Longrightarrow> sorted_wrt R xs"
proof (induction rule: list_emb.induct)
  case (list_emb_Cons2 x y xs ys)
  then show ?case using list_emb_set [OF list_emb_Cons2.hyps(2)] by fastforce
qed auto

lemma run_indexes_outputs:
  assumes "run_indexes env c f xs = Inr outs"
  shows "\<exists>is. subseq is xs \<and> list_all2 output_of is outs"
  using assms
proof (induction xs arbitrary: outs)
  case (Cons x xs)
  show ?case
  proof (cases "item_output x (f x)")
    case (Inl e)
    with Cons.prems obtain rest where "run_indexes env c f xs = Inr rest"
      and outs: "outs = JObj [error_json env e, paired_key x] # rest"
      by (auto split: if_splits)
    with Cons.IH obtain "is" where "subseq is xs" "list_all2 output_of is rest" by blast
    moreover have "output_of x (JObj [error_json env e, paired_key x])" by (auto simp: output_of_def error_json_def)
    ultimately have "subseq (x # is) (x # xs)" "list_all2 output_of (x # is) outs"
      using outs by (auto)
    then show ?thesis by blast
  next
    case (Inr r)
    show ?thesis
    proof (cases r)
      case None
      with Inr Cons.prems have "run_indexes env c f xs = Inr outs" by simp
      with Cons.IH obtain "is" where "subseq is xs" "list_all2 output_of is outs" by blast
      then show ?thesis by (meson list_emb_Cons)
    next
      case (Some out)
      with Inr Cons.prems obtain rest where "run_indexes env c f xs = Inr rest" "outs = out # rest"
        by (auto)
      moreover from Inr Some have "output_of x out" by (simp add: item_output_shape)
      moreover obtain "is" where "subseq is xs" "list_all2 output_of is rest" using Cons.IH calculation(1) by blast
      ultimately have "subseq (x # is) (x # xs)" "list_all2 output_of (x # is) outs" by auto
      then show ?thesis by blast
    qed
  qed
qed auto

text \<open>Running code for each item gives at most one output per item, in the order of the items: JSON that is
  an object, paired with the index of its item, with binary data that is an object if it has any. When it
  continues on failures it always succeeds, whatever the code does.\<close>

theorem each_output_paired:
  "case runForEachItem env settings data inputItems of
      Inl e \<Rightarrow> \<not> js_continueOnFail settings
    | Inr outs \<Rightarrow> (\<exists>is. sorted_wrt (<) is \<and> list_all2 output_of is outs)"
proof (cases "runForEachItem env settings data inputItems")
  case (Inl e)
  have "\<exists>outs. run_indexes env True f xs = Inr outs" for f xs
    by (induction xs) (auto split: sum.split option.split)
  then have never: "run_indexes env True f xs \<noteq> Inl e" for f xs by (metis sum.distinct(1))
  from Inl obtain f a b where "run_indexes env (js_continueOnFail settings) f [a..<b] = Inl e"
    by (auto simp: runForEachItem_def Let_def split: prod.splits)
  with never Inl show ?thesis by auto
next
  case (Inr outs)
  then obtain f a b where "run_indexes env (js_continueOnFail settings) f [a..<b] = Inr outs"
    by (auto simp: runForEachItem_def Let_def split: prod.splits)
  then obtain "is" where subs: "subseq is [a..<b]" and outs: "list_all2 output_of is outs" using run_indexes_outputs by blast
  from subseq_sorted [OF subs] have "sorted_wrt (<) is" by simp
  with Inr outs show ?thesis by auto
qed

section \<open>Validation is stable\<close>

lemma each_code_iff: "each_code f xs = Inr () \<longleftrightarrow> (\<forall>x \<in> set xs. f x = Inr ())"
proof (induction xs)
  case (Cons x xs)
  then show ?case by (cases "f x") auto
qed simp

lemma every_code_iff: "every_code P xs = Inr True \<longleftrightarrow> (\<forall>x \<in> set xs. P x = Inr True)"
proof (induction xs)
  case (Cons x xs)
  show ?case using Cons by (cases "P x") auto
qed simp

lemma some_code_false: "some_code P xs = Inr False \<longleftrightarrow> (\<forall>x \<in> set xs. P x = Inr False)"
proof (induction xs)
  case (Cons x xs)
  show ?case using Cons by (cases "P x") auto
qed simp

lemma object_has_iff [simp]: "object_has k v = Inr True \<longleftrightarrow> (\<exists>kvs. v = JObj kvs \<and> k \<in> fst ` set kvs)"
  by (cases v) auto

definition good_keys :: "json \<Rightarrow> bool" where
  "good_keys v \<longleftrightarrow> set (own_keys v) \<subseteq> set REQUIRED_N8N_ITEM_KEYS"

lemma top_level_ok: "validateTopLevelKeys v i = Inr () \<longleftrightarrow> good_keys v"
proof (cases "find (\<lambda>k. k \<notin> set REQUIRED_N8N_ITEM_KEYS) (own_keys v)")
  case None
  then have "good_keys v" by (auto simp: good_keys_def find_None_iff)
  with None show ?thesis by (simp add: validateTopLevelKeys_def)
next
  case (Some k)
  then have "k \<in> set (own_keys v)" "k \<notin> set REQUIRED_N8N_ITEM_KEYS"
    by (metis find_Some_iff nth_mem)+
  with Some show ?thesis by (auto simp: validateTopLevelKeys_def good_keys_def)
qed

lemma indexed_ok: "validate_indexed f items = Inr () \<longleftrightarrow> (\<forall>i < length items. f (items ! i) i = Inr ())"
proof -
  have "set (enumerate 0 items) = (\<lambda>i. (i, items ! i)) ` {..<length items}"
    by (auto simp: in_set_enumerate_eq image_iff)
  then show ?thesis by (auto simp: validate_indexed_def each_code_iff)
qed

text \<open>What normalization gives for a list: items that all have the key \<open>json\<close>.\<close>

lemma normalize_cases:
  assumes "normalize_list items = Inr out"
  obtains "every_code (object_has ''json'') items = Inr True" "out = items"
    | "out = map split_binary items" | "out = map (\<lambda>item. JObj [(''json'', item)]) items"
proof -
  from assms obtain a where a: "every_code (object_has ''json'') items = Inr a" by (auto simp: normalize_list_def)
  show thesis
  proof (cases a)
    case True
    with a assms show ?thesis by (intro that(1)) (simp_all add: normalize_list_def)
  next
    case False
    with a assms have "out = map split_binary items \<or> out = map (\<lambda>item. JObj [(''json'', item)]) items"
      by (force simp: normalize_list_def split: if_splits)
    with that(2,3) show ?thesis by blast
  qed
qed

lemma normalized_json:
  assumes "normalize_list items = Inr out"
  shows "\<forall>v \<in> set out. \<exists>kvs. v = JObj kvs \<and> ''json'' \<in> fst ` set kvs"
  using assms
proof (cases rule: normalize_cases)
  case 1
  then show ?thesis by (simp add: every_code_iff)
qed (auto simp: split_binary_def)

lemma normalize_again: "\<forall>v \<in> set out. \<exists>kvs. v = JObj kvs \<and> ''json'' \<in> fst ` set kvs \<Longrightarrow> normalize_list out = Inr out"
  using every_code_iff [of "object_has ''json''" out] by (simp add: normalize_list_def)

text \<open>Either a result was checked for its keys, or normalization wrapped it.\<close>

lemma validated_keys:
  assumes "bind_code (some_code has_n8n_key items) (\<lambda>b. if b then validate_indexed validateTopLevelKeys items else Inr ()) = Inr ()"
    "normalize_list items = Inr out"
  shows "\<forall>v \<in> set out. good_keys v"
proof -
  from assms(1) obtain b where b: "some_code has_n8n_key items = Inr b"
    and "(if b then validate_indexed validateTopLevelKeys items else Inr ()) = Inr ()"
    unfolding bind_code_Inr by blast
  then have checked: "b \<longrightarrow> (\<forall>v \<in> set items. good_keys v)"
    by (cases b) (auto simp: indexed_ok top_level_ok in_set_conv_nth)
  have wrapped: "good_keys (JObj [(''json'', v)])" "good_keys (split_binary v)" for v
    by (simp_all add: good_keys_def REQUIRED_N8N_ITEM_KEYS_def split_binary_def)
  from assms(2) show ?thesis
  proof (cases rule: normalize_cases)
    case 1
    show ?thesis
    proof (cases b)
      case True
      with 1 checked show ?thesis by simp
    next
      case False
      have "v \<notin> set items" for v
      proof
        assume v: "v \<in> set items"
        with b False have "has_n8n_key v = Inr False" using some_code_false [of has_n8n_key items] by simp
        moreover from v 1(1) obtain kvs where "v = JObj kvs" "''json'' \<in> fst ` set kvs"
          unfolding every_code_iff object_has_iff by blast
        ultimately show False by (auto simp: has_n8n_key_def REQUIRED_N8N_ITEM_KEYS_def)
      qed
      with 1 show ?thesis by blast
    qed
  qed (use wrapped in auto)
qed

lemma json_has_key: "''json'' \<in> fst ` set kvs \<Longrightarrow> has_n8n_key (JObj kvs) = Inr True"
proof -
  assume "''json'' \<in> fst ` set kvs"
  then have "\<exists>k \<in> set (map fst kvs). k \<in> set REQUIRED_N8N_ITEM_KEYS"
    by (intro bexI [of _ "''json''"]) (simp_all add: REQUIRED_N8N_ITEM_KEYS_def)
  then show "has_n8n_key (JObj kvs) = Inr True" by (simp add: has_n8n_key_def)
qed

text \<open>What the validation of a list of outputs lets through is accepted again and left as it is: every item
  has JSON that is an object, binary data that is an object if it has any, and no unknown key.\<close>

theorem validated_outputs_stable:
  assumes "validateRunForAllItemsOutput (JArr items) = Inr out"
  shows "validateRunForAllItemsOutput (JArr out) = Inr out \<and>
    list_all (\<lambda>v. good_keys v \<and> isObject (prop_of v ''json'')) out"
proof -
  from assms have keys: "bind_code (some_code has_n8n_key items) (\<lambda>b. if b then validate_indexed validateTopLevelKeys items else Inr ()) = Inr ()"
    and norm: "normalize_list items = Inr out" and valid: "validate_indexed validateItem out = Inr ()"
    by (auto simp: validateRunForAllItemsOutput_def normalizeItems_def)
  have good: "\<forall>v \<in> set out. good_keys v" by (rule validated_keys [OF keys norm])
  have json: "\<forall>v \<in> set out. \<exists>kvs. v = JObj kvs \<and> ''json'' \<in> fst ` set kvs" by (rule normalized_json [OF norm])
  have again: "normalize_list out = Inr out" by (rule normalize_again [OF json])
  have "some_code has_n8n_key out = Inr (out \<noteq> [])"
  proof (cases out)
    case (Cons v vs)
    with json json_has_key have "has_n8n_key v = Inr True" by (metis list.set_intros(1))
    with Cons show ?thesis by simp
  qed simp
  moreover have "validate_indexed validateTopLevelKeys out = Inr ()" using good by (simp add: indexed_ok top_level_ok)
  ultimately have "validateRunForAllItemsOutput (JArr out) = Inr out"
    using again valid by (simp add: validateRunForAllItemsOutput_def normalizeItems_def)
  moreover have "list_all (\<lambda>v. isObject (prop_of v ''json'')) out"
    using valid by (auto simp: indexed_ok validateItem_def list_all_length split: if_splits)
  ultimately show ?thesis using good by (simp add: list_all_iff)
qed

section \<open>Node types\<close>

definition known_type :: "node_types \<Rightarrow> string \<times> rat \<Rightarrow> bool" where
  "known_type types nv = (case map_of types (fst nv) of None \<Rightarrow> False | Some versions \<Rightarrow> snd nv \<in> fst ` set versions)"

lemma onlyUnknown_iff: "onlyUnknown types needed = filter (\<lambda>nv. \<not> known_type types nv) needed"
  unfolding onlyUnknown_def known_type_def
proof (rule filter_cong)
  show "(case nv of (name, version) \<Rightarrow> case map_of types name of None \<Rightarrow> True | Some existing \<Rightarrow> map_of existing version = None) =
      (\<not> (case map_of types (fst nv) of None \<Rightarrow> False | Some versions \<Rightarrow> snd nv \<in> fst ` set versions))" for nv
  proof (cases "map_of types (fst nv)")
    case None
    then show ?thesis by (simp add: case_prod_beta)
  next
    case (Some versions)
    then show ?thesis by (simp add: case_prod_beta map_of_eq_None_iff)
  qed
qed simp

lemma add_versions_keys: "fst ` set (foldl (add_version nt) versioned versions) = fst ` set versioned \<union> set versions"
  by (induction versions arbitrary: versioned) (auto simp: add_version_def)

lemma set_versions_keys: "fst ` set (foldl (\<lambda>m (v, d). map_set v d m) old new) = fst ` set old \<union> fst ` set new"
  by (induction new arbitrary: old) (simp_all add: case_prod_beta)

definition versions_of :: "INodeTypeDescription \<Rightarrow> rat list" where
  "versions_of nt = (case nt_versions nt of None \<Rightarrow> [DEFAULT_NODETYPE_VERSION] | Some vs \<Rightarrow> vs)"

lemma parse_type_known:
  "known_type (parse_type types nt) nv \<longleftrightarrow> known_type types nv \<or> (fst nv = nt_name nt \<and> snd nv \<in> set (versions_of nt))"
  by (auto simp: known_type_def parse_type_def versions_of_def Let_def add_versions_keys split: option.split)

lemma parseNodeTypes_known:
  "known_type (parseNodeTypes nts) nv \<longleftrightarrow> (\<exists>nt \<in> set nts. fst nv = nt_name nt \<and> snd nv \<in> set (versions_of nt))"
proof -
  have "known_type (foldl parse_type types nts) nv \<longleftrightarrow>
      known_type types nv \<or> (\<exists>nt \<in> set nts. fst nv = nt_name nt \<and> snd nv \<in> set (versions_of nt))" for types
    by (induction nts arbitrary: types) (auto simp: parse_type_known)
  from this [of "[]"] show ?thesis by (simp add: parseNodeTypes_def known_type_def)
qed

lemma merge_types_known:
  "known_type (merge_types types (name, new)) nv \<longleftrightarrow> known_type types nv \<or> (fst nv = name \<and> snd nv \<in> fst ` set new)"
  by (auto simp: known_type_def merge_types_def set_versions_keys split: option.split)

lemma distinct_parse: "distinct (map_keys (parseNodeTypes nts))"
proof -
  have "distinct (map_keys types) \<Longrightarrow> distinct (map_keys (foldl parse_type types nts))" for types
    by (induction nts arbitrary: types) (simp_all add: parse_type_def Let_def)
  then show ?thesis by (simp add: parseNodeTypes_def)
qed

lemma merge_all_known:
  "distinct (map_keys new) \<Longrightarrow>
     known_type (foldl merge_types types new) nv \<longleftrightarrow> known_type types nv \<or> known_type new nv"
proof (induction new arbitrary: types)
  case (Cons e new)
  obtain name versions where e: "e = (name, versions)" by fastforce
  have "known_type (e # new) nv \<longleftrightarrow> (fst nv = name \<and> snd nv \<in> fst ` set versions) \<or> known_type new nv"
    using Cons.prems by (auto simp: e known_type_def map_of_eq_None_iff [THEN iffD2] split: option.split)
  with Cons show ?case by (auto simp: e merge_types_known)
qed (simp add: known_type_def)

lemma addNodeTypeDescriptions_known:
  "known_type (addNodeTypeDescriptions nts types) nv \<longleftrightarrow>
     known_type types nv \<or> (\<exists>nt \<in> set nts. fst nv = nt_name nt \<and> snd nv \<in> set (versions_of nt))"
  by (simp add: addNodeTypeDescriptions_def merge_all_known [OF distinct_parse] parseNodeTypes_known)

text \<open>When the code may need any node, the runner knows the type of every node of the workflow before the
  code runs, provided that the answer describes the types it is asked for; it asks for unknown types
  only, each once, and what it knew stays known.\<close>

theorem node_types_known:
  assumes "bp_needsAllNodes needed"
    and answered: "\<And>asked. list_all (\<lambda>(name, version). \<exists>nt \<in> set (answer asked). nt_name nt = name \<and> version \<in> set (versions_of nt)) asked"
  shows "list_all (\<lambda>node. known_type (requestNodeTypeIfNeeded needed w answer types) (node_type node, node_typeVersion node)) (wp_nodes w) \<and>
    distinct (onlyUnknown types (uniqueNodeTypes (wp_nodes w))) \<and>
    list_all (\<lambda>nv. \<not> known_type types nv) (onlyUnknown types (uniqueNodeTypes (wp_nodes w))) \<and>
    {nv. known_type types nv} \<subseteq> {nv. known_type (requestNodeTypeIfNeeded needed w answer types) nv}"
proof (intro conjI)
  let ?asked = "onlyUnknown types (uniqueNodeTypes (wp_nodes w))"
  have result: "requestNodeTypeIfNeeded needed w answer types = addNodeTypeDescriptions (answer ?asked) types"
    by (simp add: requestNodeTypeIfNeeded_def assms(1))
  show "list_all (\<lambda>nv. \<not> known_type types nv) ?asked" by (simp add: onlyUnknown_iff list_all_iff)
  show "distinct ?asked" by (simp add: onlyUnknown_def uniqueNodeTypes_def)
  show "{nv. known_type types nv} \<subseteq> {nv. known_type (requestNodeTypeIfNeeded needed w answer types) nv}"
    by (auto simp: result addNodeTypeDescriptions_known)
  have "known_type (addNodeTypeDescriptions (answer ?asked) types) nv"
    if "nv \<in> set (uniqueNodeTypes (wp_nodes w))" for nv
  proof (cases "known_type types nv")
    case False
    with that have "nv \<in> set ?asked" by (simp add: onlyUnknown_iff)
    with answered [of ?asked] show ?thesis by (fastforce simp: addNodeTypeDescriptions_known list_all_iff)
  qed (simp add: addNodeTypeDescriptions_known)
  then show "list_all (\<lambda>node. known_type (requestNodeTypeIfNeeded needed w answer types) (node_type node, node_typeVersion node)) (wp_nodes w)"
    by (simp add: list_all_iff result uniqueNodeTypes_def)
qed

section \<open>Examples\<close>

definition sample_code_node :: INode where
  "sample_code_node = \<lparr>node_ref = 0, node_name = ''Code'', node_typeVersion = 2, node_type = ''code'', node_position = (0, 0),
     node_disabled = None, node_retryOnFail = None, node_maxTries = None, node_waitBetweenTries = None,
     node_alwaysOutputData = None, node_executeOnce = None, node_onError = None, node_continueOnFail = None,
     node_webhookId = None, node_parameters = JObj []\<rparr>"

definition number_item :: "rat \<Rightarrow> INodeExecutionData" where
  "number_item n = \<lparr>item_json = JObj [(''n'', JNum n)], item_binary = None, item_error = None, item_pairedItem = None\<rparr>"

definition three_items :: "INodeExecutionData list" where
  "three_items = map number_item [1, 2, 3]"

definition sample_run :: ITaskData where
  "sample_run = \<lparr>task_startTime = 0, task_executionTime = 0, task_executionStatus = Some Success, task_data = None,
     task_error = None, task_hints = [], task_source = [], task_metadata = None\<rparr>"

definition sample_code_task :: TaskData where
  "sample_code_task = \<lparr>
     td_workflow = \<lparr>tw_id = Some ''1'', tw_name = Some ''w'', tw_active = False, tw_connectionsBySourceNode = [],
       tw_nodes = [(''Code'', sample_code_node)], tw_pinData = None, tw_settings = JObj [], tw_staticData = JObj []\<rparr>,
     td_inputData = [(Main, [Filled three_items])], td_node = sample_code_node,
     td_runExecutionData = \<lparr>tn_startData = None,
       tn_resultData = \<lparr>tr_error = None, tr_lastNodeExecuted = None, tr_metadata = None,
         tr_runData = [(''A'', [sample_run]), (''B'', [])], tr_pinData = None\<rparr>, tn_executionData = None\<rparr>,
     td_runIndex = 0, td_itemIndex = 0, td_activeNodeName = ''Code'', td_connectionInputData = three_items,
     td_siblingParameters = JObj [], td_mode = Mode_manual,
     td_envProviderState = \<lparr>ep_env = [(''HOME'', ''/'')], ep_isEnvAccessBlocked = False, ep_isProcessAvailable = True\<rparr>,
     td_executeData = None, td_defaultReturnRunIndex = -1, td_selfData = JObj [], td_contextNodeName = ''Code'',
     td_additionalData = []\<rparr>"

lemmas task_sample_defs = sample_code_task_def three_items_def number_item_def sample_code_node_def

text \<open>Code that reads a node by name, at a property that is not about paired items.\<close>

text \<open>\<open>$('A').json\<close> asks for \<open>A\<close> only.\<close>

definition reads_A :: "visit list" where
  "reads_A = [VisitCall (Identifier ''$'') [Literal (StringLiteral ''A'')] (MemberExpression (Identifier ''json'') False)]"

lemma named_data_example:
  "is_sent sample_code_task reads_A ''A''" "\<not> is_sent sample_code_task reads_A ''B''"
  "tr_runData (tn_resultData (dr_runExecutionData
     (strip (buildFromTaskData sample_code_task) (toDataRequestParams (needed_built_ins (Some reads_A)) None)))) = [(''A'', [sample_run])]"
  by code_simp+

text \<open>Code that returns its item, and fails for the third.\<close>

definition echo_env :: code_machine where
  "echo_env = \<lparr>
     run_item = (\<lambda>code data i item. if i = 2 then Failed (Thrown JNull)
        else case item of None \<Rightarrow> Returned JUndefined | Some x \<Rightarrow> Returned (item_json x)),
     run_all = (\<lambda>code data items. Returned JNull), error_message = (\<lambda>e. ''failed''),
     parse_code = (\<lambda>code. Some [VisitIdentifier ''item''])\<rparr>"

theorem chunks_run_like_whole_witness:
  "map_sum (\<lambda>_. ()) length (runCodeForEachItem 2 echo_env sample_code_task ''return item'' True 3) = Inr 3 \<and>
   runCodeForEachItem 2 echo_env sample_code_task ''return item'' True 3 = run_indexes echo_env True
     (\<lambda>i. if i = 2 then Failed (Thrown JNull) else Returned (item_json (three_items ! i))) [0..<3]"
proof -
  have input: "first_input (td_inputData sample_code_task) = Some three_items"
    by (simp add: sample_code_task_def first_input_def slot_at_def)
  have len: "length three_items = 3" by (simp add: three_items_def)
  have uses_input: "bp_needs_input (needed_built_ins (parse_code echo_env ''return item''))" by code_simp
  have allowed: "validateNoDisallowedMethodsInRunForEach ''return item'' 0 = Inr ()" by code_simp
  let ?f = "\<lambda>i item. if i = 2 then Failed (Thrown JNull)
    else case item of None \<Rightarrow> Returned JUndefined | Some x \<Rightarrow> Returned (item_json x)"
  have code: "run_item echo_env ''return item'' data = ?f" for data by (simp add: echo_env_def fun_eq_iff)
  have "runCodeForEachItem 2 echo_env sample_code_task ''return item'' True (length three_items) =
    bind_code (validateNoDisallowedMethodsInRunForEach ''return item'' 0) (\<lambda>_. run_indexes echo_env True
      (\<lambda>i. run_item echo_env ''return item'' (chunk_data 2 echo_env sample_code_task ''return item'' (length three_items) i) i
        (if bp_needs_input (needed_built_ins (parse_code echo_env ''return item'')) then Some (three_items ! i) else None))
      [0..<length three_items])"
    by (rule chunks_run_like_whole) (simp_all add: input)
  then have whole: "runCodeForEachItem 2 echo_env sample_code_task ''return item'' True (length three_items) =
      run_indexes echo_env True (\<lambda>i. ?f i (Some (three_items ! i))) [0..<length three_items]"
    by (simp only: code allowed uses_input if_True bind_code.simps)
  have "map_sum (\<lambda>_. ()) length (runCodeForEachItem 2 echo_env sample_code_task ''return item'' True 3) = Inr 3" by code_simp
  with whole show ?thesis by (simp add: len cong: if_cong)
qed

text \<open>A method of all items is refused before anything runs, wherever the pattern is, unless it is in a comment.\<close>

lemma disallowed_examples:
  "isl (validateNoDisallowedMethodsInRunForEach ''return $input.all()'' 0)"
  "\<not> isl (validateNoDisallowedMethodsInRunForEach ''// $input.all()'' 0)"
  by code_simp+

theorem validated_outputs_stable_witness:
  "validateRunForAllItemsOutput (JArr [JObj [(''n'', JNum 1)]]) = Inr [JObj [(''json'', JObj [(''n'', JNum 1)])]] \<and>
   validateRunForAllItemsOutput (JArr [JObj [(''json'', JObj [(''n'', JNum 1)])]]) = Inr [JObj [(''json'', JObj [(''n'', JNum 1)])]]"
proof -
  have "validateRunForAllItemsOutput (JArr [JObj [(''n'', JNum 1)]]) = Inr [JObj [(''json'', JObj [(''n'', JNum 1)])]]"
    by code_simp
  with validated_outputs_stable [OF this] show ?thesis by simp
qed

definition describe :: "(string \<times> rat) list \<Rightarrow> INodeTypeDescription list" where
  "describe asked = map (\<lambda>(name, version). \<lparr>nt_name = name, nt_versions = Some [version], nt_properties = []\<rparr>) asked"

theorem node_types_known_witness:
  "known_type (requestNodeTypeIfNeeded newNeedsAllDataState (buildWorkflow (td_workflow sample_code_task)) describe []) (''code'', 2)"
proof -
  have "bp_needsAllNodes newNeedsAllDataState" by code_simp
  moreover have "list_all (\<lambda>(name, version). \<exists>nt \<in> set (describe asked). nt_name nt = name \<and> version \<in> set (versions_of nt)) asked" for asked
    by (auto simp: describe_def list_all_iff versions_of_def intro!: rev_bexI)
  ultimately have "list_all (\<lambda>node. known_type (requestNodeTypeIfNeeded newNeedsAllDataState (buildWorkflow (td_workflow sample_code_task)) describe [])
      (node_type node, node_typeVersion node)) (wp_nodes (buildWorkflow (td_workflow sample_code_task)))"
    using node_types_known [of newNeedsAllDataState describe "buildWorkflow (td_workflow sample_code_task)" "[]"] by blast
  then show ?thesis by (simp add: buildWorkflow_def sample_code_task_def sample_code_node_def)
qed

text \<open>The items after the requested chunk are not filled in: of three items one is left.\<close>

theorem reconstruction_is_shorter:
  "let chunk = \<lparr>chunk_startIndex = 0, chunk_count = 1\<rparr>;
       sent = stripChunkedInputData chunk (td_inputData sample_code_task)
   in length (reconstructConnectionInputItems sent (Some chunk)) = 1 \<and> length three_items = 3"
  by code_simp

end
