(* ===== verification/TaskRequester.thy ===== *)
theory TaskRequester
  imports RunnerCode TaskMessages
begin

text \<open>
  The side of the task runner's protocol that wants tasks run
  (\<open>packages/cli/src/task-runners/task-managers/task-requester.ts\<close>).

  A call of \<open>startTask\<close> is suspended twice: until the broker says that a runner has taken the task, and until
  its result or error comes. Between them it is in one of the maps of the class or, when the promise
  it waits for has settled, in the list of calls that may go on. A remote procedure call is suspended
  while the function runs. The identifiers of requests and tasks come from outside.
\<close>

section \<open>State\<close>

text \<open>\<open>executeFunctions\<close>: an object with functions and objects.\<close>

datatype exec_function = ExecFunction nat | ExecObject "(string \<times> exec_function) list"

record start_call =
  ta_requestId :: string
  ta_taskType :: string
  ta_settings :: json
  ta_data :: TaskData
  ta_functions :: exec_function

text \<open>What a call returned: the result or the error, and the run data and static data it leaves.\<close>

record task_return =
  rt_requestId :: string
  rt_result :: "task_error + json"
  rt_runExecutionData :: task_run_data
  rt_staticData :: json

record rpc_call =
  rp_taskId :: string
  rp_callId :: string
  rp_result :: "json + json"

record TaskRequester =
  tq_requestAcceptRejects :: "(string, start_call) js_map"
  tq_taskAcceptRejects :: "(string, start_call) js_map"
  tq_pendingRequests :: "(string, start_call) js_map"
  tq_tasks :: "(string, start_call) js_map"
  tq_accepted :: "(string \<times> start_call) list"
  tq_settled :: "(string \<times> start_call \<times> (task_error + json)) list"
  tq_returned :: "task_return list"
  tq_rpcs :: "rpc_call list"
  tq_sent :: "from_requester list"

definition new_requester :: TaskRequester where
  "new_requester = \<lparr>tq_requestAcceptRejects = [], tq_taskAcceptRejects = [], tq_pendingRequests = [], tq_tasks = [],
     tq_accepted = [], tq_settled = [], tq_returned = [], tq_rpcs = [], tq_sent = []\<rparr>"

text \<open>The messages as JSON, the node types of the server, buffers, and what a function returns or throws.\<close>

record requester_env =
  qe_response :: "DataRequestResponse \<Rightarrow> json"
  qe_params :: "json \<Rightarrow> TaskDataRequestParams"
  qe_nodeTypeDescriptions :: "json \<Rightarrow> json"
  qe_toBuffer :: "json \<Rightarrow> json"
  qe_call :: "nat \<Rightarrow> json list \<Rightarrow> json + json"

definition sendMessage :: "from_requester \<Rightarrow> TaskRequester \<Rightarrow> TaskRequester" where
  "sendMessage m s = s\<lparr>tq_sent := tq_sent s @ [m]\<rparr>"

section \<open>Starting a task\<close>

text \<open>\<open>startTask\<close> up to its first promise.\<close>

definition startTask :: "start_call \<Rightarrow> TaskRequester \<Rightarrow> TaskRequester" where
  "startTask c s = sendMessage (FQ_TaskRequest (ta_requestId c) (ta_taskType c))
     (s\<lparr>tq_pendingRequests := map_set (ta_requestId c) c (tq_pendingRequests s),
        tq_requestAcceptRejects := map_set (ta_requestId c) c (tq_requestAcceptRejects s)\<rparr>)"

text \<open>From the task id to the second promise.\<close>

definition task_accepted :: "nat \<Rightarrow> TaskRequester \<Rightarrow> TaskRequester" where
  "task_accepted i s =
     (if i < length (tq_accepted s) then
        case tq_accepted s ! i of (taskId, c) \<Rightarrow>
          sendMessage (FQ_TaskSettings taskId (ta_settings c))
            (s\<lparr>tq_accepted := remove_at i (tq_accepted s), tq_tasks := map_set taskId c (tq_tasks s),
               tq_taskAcceptRejects := map_set taskId c (tq_taskAcceptRejects s)\<rparr>)
      else s)"

text \<open>Custom data of the execution that the code has set is added to the metadata.\<close>

definition set_custom_data :: "json \<Rightarrow> task_run_data \<Rightarrow> task_run_data" where
  "set_custom_data customData r =
     (case customData of
        JObj kvs \<Rightarrow> r\<lparr>tn_resultData := (tn_resultData r)\<lparr>tr_metadata :=
          (if kvs = [] then tr_metadata (tn_resultData r)
           else Some (foldl (\<lambda>m (k, v). map_set k v m)
             (case tr_metadata (tn_resultData r) of None \<Rightarrow> [] | Some m \<Rightarrow> m) kvs))\<rparr>\<rparr>
      | _ \<Rightarrow> r)"

definition task_result :: "start_call \<Rightarrow> task_error + json \<Rightarrow> task_return" where
  "task_result c outcome =
     (let unchanged = \<lparr>rt_requestId = ta_requestId c, rt_result = outcome,
            rt_runExecutionData = td_runExecutionData (ta_data c), rt_staticData = tw_staticData (td_workflow (ta_data c))\<rparr>
      in case outcome of
           Inl e \<Rightarrow> unchanged
         | Inr resultData \<Rightarrow>
             unchanged\<lparr>rt_result := Inr (prop_of resultData ''result''),
               rt_runExecutionData := set_custom_data (prop_of resultData ''customData'') (rt_runExecutionData unchanged),
               rt_staticData := (if json_truthy (prop_of resultData ''staticData'') then prop_of resultData ''staticData''
                                 else rt_staticData unchanged)\<rparr>)"

text \<open>From the result to the return.\<close>

definition task_settled :: "nat \<Rightarrow> TaskRequester \<Rightarrow> TaskRequester" where
  "task_settled i s =
     (if i < length (tq_settled s) then
        case tq_settled s ! i of (taskId, c, outcome) \<Rightarrow>
          s\<lparr>tq_settled := remove_at i (tq_settled s), tq_tasks := map_delete taskId (tq_tasks s),
            tq_returned := tq_returned s @ [task_result c outcome]\<rparr>
      else s)"

section \<open>Messages of the broker\<close>

definition rejectTask :: "string \<Rightarrow> string \<Rightarrow> TaskRequester \<Rightarrow> TaskRequester" where
  "rejectTask jobId reason s = sendMessage (FQ_TaskCancel jobId reason) s"

definition taskReady :: "string \<Rightarrow> string \<Rightarrow> TaskRequester \<Rightarrow> TaskRequester" where
  "taskReady requestId taskId s =
     (case map_of (tq_requestAcceptRejects s) requestId of
        None \<Rightarrow> rejectTask taskId ''Request ID not found. In multi-main setup, it is possible for one of the mains to have reported ready state already.'' s
      | Some c \<Rightarrow> s\<lparr>tq_accepted := tq_accepted s @ [(taskId, c)],
                    tq_requestAcceptRejects := map_delete requestId (tq_requestAcceptRejects s)\<rparr>)"

definition settle_task :: "string \<Rightarrow> task_error + json \<Rightarrow> TaskRequester \<Rightarrow> TaskRequester" where
  "settle_task taskId outcome s =
     (case map_of (tq_taskAcceptRejects s) taskId of
        None \<Rightarrow> s
      | Some c \<Rightarrow> s\<lparr>tq_settled := tq_settled s @ [(taskId, c, outcome)],
                    tq_taskAcceptRejects := map_delete taskId (tq_taskAcceptRejects s)\<rparr>)"

definition taskDone :: "string \<Rightarrow> json \<Rightarrow> TaskRequester \<Rightarrow> TaskRequester" where
  "taskDone taskId resultData = settle_task taskId (Inr resultData)"

definition taskError :: "string \<Rightarrow> task_error \<Rightarrow> TaskRequester \<Rightarrow> TaskRequester" where
  "taskError taskId error = settle_task taskId (Inl error)"

definition sendTaskData :: "requester_env \<Rightarrow> string \<Rightarrow> string \<Rightarrow> json \<Rightarrow> TaskRequester \<Rightarrow> TaskRequester" where
  "sendTaskData env taskId requestId requestParams s =
     (case map_of (tq_tasks s) taskId of
        None \<Rightarrow> s
      | Some job \<Rightarrow> sendMessage (FQ_TaskDataResponse taskId requestId
          (qe_response env (strip (buildFromTaskData (ta_data job)) (qe_params env requestParams)))) s)"

definition sendNodeTypes :: "requester_env \<Rightarrow> string \<Rightarrow> string \<Rightarrow> json \<Rightarrow> TaskRequester \<Rightarrow> TaskRequester" where
  "sendNodeTypes env taskId requestId neededNodeTypes s =
     sendMessage (FQ_NodeTypesResponse taskId requestId (qe_nodeTypeDescriptions env neededNodeTypes)) s"

section \<open>Remote procedure calls\<close>

definition AVAILABLE_RPC_METHODS :: "string list" where
  "AVAILABLE_RPC_METHODS = [''helpers.assertBinaryData'', ''helpers.getBinaryDataBuffer'', ''helpers.prepareBinaryData'',
     ''helpers.setBinaryDataBuffer'', ''helpers.binaryToString'', ''helpers.httpRequest'', ''logNodeOutput'']"

text \<open>A function has none of the properties that are looked up.\<close>

fun find_method :: "exec_function option \<Rightarrow> string list \<Rightarrow> exec_function option" where
  "find_method f [] = f"
| "find_method None (part # path) = None"
| "find_method (Some (ExecFunction n)) (part # path) = None"
| "find_method (Some (ExecObject kvs)) (part # path) = find_method (map_of kvs part) path"

definition isSerializedBuffer :: "json \<Rightarrow> bool" where
  "isSerializedBuffer candidate \<longleftrightarrow> isObject candidate \<and> prop_of candidate ''type'' = JStr ''Buffer'' \<and>
     (case prop_of candidate ''data'' of JArr _ \<Rightarrow> True | _ \<Rightarrow> False)"

definition rpc_error :: "string \<Rightarrow> string \<Rightarrow> string \<Rightarrow> from_requester" where
  "rpc_error taskId callId message = FQ_RPCResponse taskId callId RpcError (JStr message)"

definition handleRpc :: "requester_env \<Rightarrow> string \<Rightarrow> string \<Rightarrow> string \<Rightarrow> json list \<Rightarrow> TaskRequester \<Rightarrow> TaskRequester" where
  "handleRpc env taskId callId name params s =
     (case map_of (tq_tasks s) taskId of
        None \<Rightarrow> s
      | Some job \<Rightarrow>
          if name \<notin> set AVAILABLE_RPC_METHODS then sendMessage (rpc_error taskId callId ''Method not allowed'') s
          else case find_method (Some (ta_functions job)) (js_split CHR ''.'' name) of
              None \<Rightarrow> sendMessage (rpc_error taskId callId ''Could not find method'') s
            | Some (ExecObject _) \<Rightarrow> sendMessage (rpc_error taskId callId ''func.call is not a function'') s
            | Some (ExecFunction n) \<Rightarrow>
                s\<lparr>tq_rpcs := tq_rpcs s @ [\<lparr>rp_taskId = taskId, rp_callId = callId,
                   rp_result = qe_call env n (map (\<lambda>v. if isSerializedBuffer v then qe_toBuffer env v else v) params)\<rparr>]\<rparr>)"

definition rpc_returned :: "nat \<Rightarrow> TaskRequester \<Rightarrow> TaskRequester" where
  "rpc_returned i s =
     (if i < length (tq_rpcs s) then
        let r = tq_rpcs s ! i in
        sendMessage (case rp_result r of
            Inr value \<Rightarrow> FQ_RPCResponse (rp_taskId r) (rp_callId r) RpcSuccess value
          | Inl e \<Rightarrow> FQ_RPCResponse (rp_taskId r) (rp_callId r) RpcError e)
          (s\<lparr>tq_rpcs := remove_at i (tq_rpcs s)\<rparr>)
      else s)"

definition rpc_params :: "json \<Rightarrow> json list" where
  "rpc_params params = (case params of JArr vs \<Rightarrow> vs | _ \<Rightarrow> [])"

fun requester_message :: "requester_env \<Rightarrow> to_requester \<Rightarrow> TaskRequester \<Rightarrow> TaskRequester" where
  "requester_message env (Q_TaskReady requestId taskId) s = taskReady requestId taskId s"
| "requester_message env (Q_TaskDone taskId resultData) s = taskDone taskId resultData s"
| "requester_message env (Q_TaskError taskId error) s = taskError taskId error s"
| "requester_message env (Q_TaskDataRequest taskId requestId params) s = sendTaskData env taskId requestId params s"
| "requester_message env (Q_NodeTypesRequest taskId requestId needed) s = sendNodeTypes env taskId requestId needed s"
| "requester_message env (Q_RPC callId taskId name params) s = handleRpc env taskId callId name (rpc_params params) s"

section \<open>Events\<close>

datatype requester_event =
    Starts start_call
  | Receives to_requester
  | GoesOnAccepted nat
  | GoesOnSettled nat
  | RpcReturns nat

fun requester_step :: "requester_env \<Rightarrow> TaskRequester \<Rightarrow> requester_event \<Rightarrow> TaskRequester" where
  "requester_step env s (Starts c) = startTask c s"
| "requester_step env s (Receives m) = requester_message env m s"
| "requester_step env s (GoesOnAccepted i) = task_accepted i s"
| "requester_step env s (GoesOnSettled i) = task_settled i s"
| "requester_step env s (RpcReturns i) = rpc_returned i s"

definition requester_run :: "requester_env \<Rightarrow> requester_event list \<Rightarrow> TaskRequester" where
  "requester_run env es = foldl (requester_step env) new_requester es"

section \<open>No call is lost\<close>

fun started_by :: "requester_event \<Rightarrow> string list" where
  "started_by (Starts c) = [ta_requestId c]"
| "started_by _ = []"

fun readied_by :: "requester_event \<Rightarrow> string list" where
  "readied_by (Receives (Q_TaskReady requestId taskId)) = [taskId]"
| "readied_by _ = []"

text \<open>The calls that have not returned and those that have, by their request.\<close>

definition awaiting_ids :: "TaskRequester \<Rightarrow> string list" where
  "awaiting_ids s = map_keys (tq_requestAcceptRejects s) @ map (ta_requestId \<circ> snd) (tq_accepted s) @
     map (ta_requestId \<circ> snd) (tq_taskAcceptRejects s) @ map (\<lambda>(_, c, _). ta_requestId c) (tq_settled s)"

definition returned_ids :: "TaskRequester \<Rightarrow> string list" where
  "returned_ids s = map rt_requestId (tq_returned s)"

text \<open>The task ids in use.\<close>

definition task_ids :: "TaskRequester \<Rightarrow> string list" where
  "task_ids s = map fst (tq_accepted s) @ map_keys (tq_taskAcceptRejects s) @ map fst (tq_settled s)"

definition requester_ok :: "string list \<Rightarrow> string list \<Rightarrow> TaskRequester \<Rightarrow> bool" where
  "requester_ok started readied s \<longleftrightarrow>
     mset (awaiting_ids s) + mset (returned_ids s) = mset started \<and>
     list_all (\<lambda>(k, c). k = ta_requestId c) (tq_requestAcceptRejects s) \<and>
     distinct (task_ids s) \<and> set (task_ids s) \<subseteq> set readied \<and> distinct (map_keys (tq_tasks s)) \<and>
     set (map_keys (tq_tasks s)) = set (map_keys (tq_taskAcceptRejects s)) \<union> set (map fst (tq_settled s)) \<and>
     set (map_keys (tq_pendingRequests s)) = set started"

text \<open>What a call has of each place is told by these multisets and sets.\<close>

definition places :: "TaskRequester \<Rightarrow> string multiset" where
  "places s = mset (awaiting_ids s) + mset (returned_ids s)"

lemma sent_irrelevant [simp]:
  "tq_requestAcceptRejects (sendMessage m s) = tq_requestAcceptRejects s"
  "tq_taskAcceptRejects (sendMessage m s) = tq_taskAcceptRejects s" "tq_pendingRequests (sendMessage m s) = tq_pendingRequests s"
  "tq_tasks (sendMessage m s) = tq_tasks s" "tq_accepted (sendMessage m s) = tq_accepted s"
  "tq_settled (sendMessage m s) = tq_settled s" "tq_returned (sendMessage m s) = tq_returned s"
  "tq_rpcs (sendMessage m s) = tq_rpcs s"
  by (simp_all add: sendMessage_def)

lemma requester_ok_cong:
  assumes "requester_ok st rd s" "tq_requestAcceptRejects t = tq_requestAcceptRejects s"
    "tq_taskAcceptRejects t = tq_taskAcceptRejects s" "tq_pendingRequests t = tq_pendingRequests s"
    "tq_tasks t = tq_tasks s" "tq_accepted t = tq_accepted s" "tq_settled t = tq_settled s" "tq_returned t = tq_returned s"
  shows "requester_ok st rd t"
  using assms by (simp add: requester_ok_def awaiting_ids_def returned_ids_def task_ids_def)

lemma quiet_messages:
  assumes "requester_ok st rd s"
  shows "requester_ok st rd (sendMessage m s)" "requester_ok st rd (sendTaskData env t r p s)"
    "requester_ok st rd (sendNodeTypes env t r p s)" "requester_ok st rd (handleRpc env t c n ps s)"
    "requester_ok st rd (rpc_returned i s)"
  by (rule requester_ok_cong [OF assms]; simp add: sendTaskData_def sendNodeTypes_def handleRpc_def rpc_returned_def Let_def
      split: option.split exec_function.split)+

lemma distinct_waiting: "requester_ok st rd s \<Longrightarrow> distinct st \<Longrightarrow> distinct (map_keys (tq_requestAcceptRejects s))"
proof -
  assume ok: "requester_ok st rd s" "distinct st"
  then have "mset (awaiting_ids s @ returned_ids s) = mset st" by (simp add: requester_ok_def)
  with ok(2) have "distinct (awaiting_ids s @ returned_ids s)" by (metis mset_eq_imp_distinct_iff)
  then show "distinct (map_keys (tq_requestAcceptRejects s))" by (simp add: awaiting_ids_def)
qed

lemma startTask_ok:
  assumes "requester_ok st rd s" "ta_requestId c \<notin> set st"
  shows "requester_ok (st @ [ta_requestId c]) rd (startTask c s)"
proof -
  have "set (awaiting_ids s @ returned_ids s) = set st"
    using assms(1) unfolding requester_ok_def by (metis mset_append mset_eq_setD)
  with assms(2) have "ta_requestId c \<notin> fst ` set (tq_requestAcceptRejects s)" by (auto simp: awaiting_ids_def)
  then have fresh: "map_set (ta_requestId c) c (tq_requestAcceptRejects s) = tq_requestAcceptRejects s @ [(ta_requestId c, c)]"
    by (rule map_set_fresh)
  show ?thesis
    using assms(1) by (simp add: requester_ok_def startTask_def fresh awaiting_ids_def returned_ids_def task_ids_def)
qed

lemma taskReady_ok:
  assumes "requester_ok st rd s" "distinct st" "taskId \<notin> set rd"
  shows "requester_ok st (rd @ [taskId]) (taskReady requestId taskId s)"
proof (cases "map_of (tq_requestAcceptRejects s) requestId")
  case None
  with assms show ?thesis
    by (auto simp: taskReady_def rejectTask_def requester_ok_def awaiting_ids_def returned_ids_def task_ids_def)
next
  case (Some c)
  have id: "requestId = ta_requestId c"
    using assms(1) map_of_SomeD [OF Some] by (auto simp: requester_ok_def list_all_iff)
  note removed = image_mset_delete [OF Some distinct_waiting [OF assms(1,2)], of fst]
  have "list_all (\<lambda>(k, c). k = ta_requestId c) (map_delete requestId (tq_requestAcceptRejects s))"
    using assms(1) by (auto simp: requester_ok_def list_all_iff)
  with assms removed Some id show ?thesis
    by (auto simp: taskReady_def requester_ok_def awaiting_ids_def returned_ids_def task_ids_def)
qed

lemma task_accepted_ok:
  assumes "requester_ok st rd s"
  shows "requester_ok st rd (task_accepted i s)"
proof (cases "i < length (tq_accepted s)")
  case True
  obtain taskId c where e: "tq_accepted s ! i = (taskId, c)" by fastforce
  note ids = image_mset_remove_at [OF True, of fst] image_mset_remove_at [OF True, of "ta_requestId \<circ> snd"]
  have used: "taskId \<in> set (map fst (tq_accepted s))" using e True by (metis fst_conv nth_map nth_mem length_map)
  have dist: "distinct (task_ids s)" using assms by (simp add: requester_ok_def)
  with used have fresh: "taskId \<notin> fst ` set (tq_taskAcceptRejects s)" "taskId \<notin> fst ` set (tq_settled s)"
    by (auto simp: task_ids_def)
  let ?t = "task_accepted i s"
  have accepts: "tq_taskAcceptRejects ?t = tq_taskAcceptRejects s @ [(taskId, c)]"
    using True e by (simp add: task_accepted_def map_set_fresh [OF fresh(1)])
  have same: "mset (task_ids ?t) = mset (task_ids s)" "places ?t = places s"
    using True e ids accepts
    by (simp_all add: task_accepted_def task_ids_def places_def awaiting_ids_def returned_ids_def)
  have "distinct (task_ids ?t)" "set (task_ids ?t) = set (task_ids s)"
    using same(1) dist by (metis mset_eq_imp_distinct_iff, metis mset_eq_setD)
  moreover have "distinct (map_keys (tq_tasks ?t))" "set (map_keys (tq_tasks ?t)) = insert taskId (set (map_keys (tq_tasks s)))"
    using assms True e by (simp_all add: requester_ok_def task_accepted_def)
  moreover have "set (map_keys (tq_taskAcceptRejects ?t)) = insert taskId (set (map_keys (tq_taskAcceptRejects s)))"
    by (simp add: accepts)
  ultimately show ?thesis
    using assms same(2) True e unfolding requester_ok_def places_def by (simp add: task_accepted_def)
qed (use assms in \<open>simp add: task_accepted_def\<close>)

lemma settle_task_ok:
  assumes "requester_ok st rd s"
  shows "requester_ok st rd (settle_task taskId outcome s)"
proof (cases "map_of (tq_taskAcceptRejects s) taskId")
  case (Some c)
  let ?t = "settle_task taskId outcome s"
  have dist: "distinct (task_ids s)" using assms by (simp add: requester_ok_def)
  then have keys: "distinct (map_keys (tq_taskAcceptRejects s))" by (simp add: task_ids_def)
  note ids = image_mset_delete [OF Some keys, of fst] image_mset_delete [OF Some keys, of "ta_requestId \<circ> snd"]
  have same: "mset (task_ids ?t) = mset (task_ids s)" "places ?t = places s"
    using Some ids by (simp_all add: settle_task_def task_ids_def places_def awaiting_ids_def returned_ids_def)
  have "distinct (task_ids ?t)" "set (task_ids ?t) = set (task_ids s)"
    using same(1) dist by (metis mset_eq_imp_distinct_iff, metis mset_eq_setD)
  moreover have "taskId \<in> fst ` set (tq_taskAcceptRejects s)" using map_of_SomeD [OF Some] by force
  then have "set (map_keys (tq_taskAcceptRejects ?t)) \<union> set (map fst (tq_settled ?t)) =
      set (map_keys (tq_taskAcceptRejects s)) \<union> set (map fst (tq_settled s))"
    using Some by (auto simp: settle_task_def)
  ultimately show ?thesis
    using assms same(2) Some unfolding requester_ok_def places_def by (simp add: settle_task_def)
qed (use assms in \<open>simp add: settle_task_def\<close>)

lemma task_settled_ok:
  assumes "requester_ok st rd s"
  shows "requester_ok st rd (task_settled i s)"
proof (cases "i < length (tq_settled s)")
  case True
  obtain taskId c outcome where e: "tq_settled s ! i = (taskId, c, outcome)" by (metis prod_cases3)
  let ?t = "task_settled i s"
  note ids = image_mset_remove_at [OF True, of fst] image_mset_remove_at [OF True, of "\<lambda>(_, c, _). ta_requestId c"]
  have dist: "distinct (task_ids s)" using assms by (simp add: requester_ok_def)
  have "mset (task_ids s) = add_mset taskId (mset (task_ids ?t))" and same: "places ?t = places s"
    using True e ids by (simp_all add: task_settled_def task_result_def task_ids_def places_def awaiting_ids_def
        returned_ids_def Let_def split: sum.split)
  then have ids': "distinct (taskId # task_ids ?t)" "set (task_ids s) = insert taskId (set (task_ids ?t))"
    using dist by (metis mset.simps(2) mset_eq_imp_distinct_iff, metis list.set(2) mset.simps(2) mset_eq_setD)
  have "set (map fst (tq_settled s)) = insert taskId (set (map fst (tq_settled ?t)))"
    using insert_remove_at [OF True] True e by (simp add: task_settled_def) (metis fst_conv image_insert)
  moreover have "taskId \<notin> fst ` set (tq_taskAcceptRejects ?t) \<union> fst ` set (tq_settled ?t)"
    using ids'(1) by (auto simp: task_ids_def)
  moreover have "fst ` set (tq_tasks ?t) = fst ` set (tq_tasks s) - {taskId}"
    using True e by (auto simp: task_settled_def)
  moreover have "distinct (map_keys (tq_tasks ?t))" "tq_taskAcceptRejects ?t = tq_taskAcceptRejects s"
    using assms True e by (simp_all add: task_settled_def requester_ok_def)
  ultimately show ?thesis
    using assms same ids' True e unfolding requester_ok_def places_def by (auto simp: task_settled_def)
qed (use assms in \<open>simp add: task_settled_def\<close>)

lemma requester_step_ok:
  assumes "requester_ok st rd s" "distinct (st @ started_by e)" "set (readied_by e) \<inter> set rd = {}"
  shows "requester_ok (st @ started_by e) (rd @ readied_by e) (requester_step env s e)"
proof (cases e)
  case (Receives m)
  with assms show ?thesis
    by (cases m) (simp_all add: taskReady_ok taskDone_def taskError_def settle_task_ok quiet_messages)
qed (use assms in \<open>simp_all add: startTask_ok task_accepted_ok task_settled_ok quiet_messages\<close>)

lemma requester_run_ok:
  assumes "distinct (concat (map started_by es))" "distinct (concat (map readied_by es))"
  shows "requester_ok (concat (map started_by es)) (concat (map readied_by es)) (requester_run env es)"
  using assms
proof (induction es rule: rev_induct)
  case Nil
  show ?case
    by (simp add: requester_run_def new_requester_def requester_ok_def awaiting_ids_def returned_ids_def task_ids_def)
next
  case (snoc e es)
  then show ?case
    using requester_step_ok [of "concat (map started_by es)" "concat (map readied_by es)" "requester_run env es" e env]
    by (auto simp: requester_run_def)
qed

text \<open>C19: With fresh identifiers no call of a task is lost or doubled, whatever the broker sends and however
  the calls interleave: each is either awaited at one place or has returned once. The tasks that are
  known are exactly those whose settings were sent and whose call has not returned. The requests are
  kept for ever.\<close>

theorem task_calls_conserved:
  assumes "distinct (concat (map started_by es))" "distinct (concat (map readied_by es))" "s = requester_run env es"
  shows "mset (awaiting_ids s) + mset (returned_ids s) = mset (concat (map started_by es)) \<and>
    distinct (awaiting_ids s @ returned_ids s) \<and>
    set (map_keys (tq_tasks s)) = set (map_keys (tq_taskAcceptRejects s)) \<union> set (map fst (tq_settled s)) \<and>
    set (map_keys (tq_pendingRequests s)) = set (concat (map started_by es))"
proof -
  have ok: "requester_ok (concat (map started_by es)) (concat (map readied_by es)) s"
    unfolding assms(3) by (rule requester_run_ok [OF assms(1,2)])
  then have "mset (awaiting_ids s @ returned_ids s) = mset (concat (map started_by es))"
    by (simp add: requester_ok_def)
  with assms(1) have "distinct (awaiting_ids s @ returned_ids s)" by (metis mset_eq_imp_distinct_iff)
  with ok show ?thesis by (simp add: requester_ok_def)
qed

section \<open>Every question is answered once\<close>

definition rpc_responses :: "string \<Rightarrow> TaskRequester \<Rightarrow> nat" where
  "rpc_responses callId s = length (filter (\<lambda>m. case m of FQ_RPCResponse _ c _ _ \<Rightarrow> c = callId | _ \<Rightarrow> False) (tq_sent s)) +
     length (filter (\<lambda>r. rp_callId r = callId) (tq_rpcs s))"

text \<open>A question of a runner for a task that the requester knows is answered exactly once, at once or
  when the function returns, and one for any other task never: a request of data by what the task
  needs, a remote procedure call with the value or the error, a method that is not allowed or not
  there with an error. An answer under way is sent whatever else happens.\<close>

theorem questions_answered:
  "(case map_of (tq_tasks s) taskId of
      None \<Rightarrow> requester_message env (Q_TaskDataRequest taskId requestId params) s = s \<and>
        requester_message env (Q_RPC callId taskId name args) s = s
    | Some job \<Rightarrow>
        tq_sent (requester_message env (Q_TaskDataRequest taskId requestId params) s) = tq_sent s @
          [FQ_TaskDataResponse taskId requestId (qe_response env (strip (buildFromTaskData (ta_data job)) (qe_params env params)))] \<and>
        rpc_responses callId (requester_message env (Q_RPC callId taskId name args) s) = Suc (rpc_responses callId s)) \<and>
   rpc_responses c (rpc_returned i s) = rpc_responses c s"
proof -
  have "rpc_responses c (rpc_returned i s) = rpc_responses c s"
  proof (cases "i < length (tq_rpcs s)")
    case True
    let ?P = "\<lambda>r. rp_callId r = c"
    have "mset (filter ?P (tq_rpcs s)) = filter_mset ?P (add_mset (tq_rpcs s ! i) (mset (remove_at i (tq_rpcs s))))"
      by (simp only: mset_filter mset_remove_at [OF True])
    then have "length (filter ?P (tq_rpcs s)) =
        (if ?P (tq_rpcs s ! i) then 1 else 0) + length (filter ?P (remove_at i (tq_rpcs s)))"
      by (drule_tac arg_cong [of _ _ size]) (simp flip: mset_filter)
    with True show ?thesis
      by (simp add: rpc_responses_def rpc_returned_def sendMessage_def Let_def split: sum.split)
  qed (simp add: rpc_returned_def)
  then show ?thesis
    by (auto simp: sendTaskData_def handleRpc_def rpc_responses_def rpc_error_def sendMessage_def
        split: option.split exec_function.split)
qed

section \<open>Examples\<close>

text \<open>Two calls: the first returns, the second is taken by a runner and awaited.\<close>

definition plain_env :: requester_env where
  "plain_env = \<lparr>qe_response = (\<lambda>_. JNull),
     qe_params = (\<lambda>_. \<lparr>rp_dataOfNodes = AllNodes, rp_prevNode = False, rp_include = True, rp_chunk = None, rp_env = True\<rparr>),
     qe_nodeTypeDescriptions = id, qe_toBuffer = id, qe_call = (\<lambda>n vs. Inr JNull)\<rparr>"

definition two_calls :: "(string \<Rightarrow> start_call) \<Rightarrow> requester_event list" where
  "two_calls call = [Starts (call ''r1''), Starts (call ''r2''), Receives (Q_TaskReady ''r1'' ''t1''), GoesOnAccepted 0,
     Receives (Q_TaskReady ''r2'' ''t2''), Receives (Q_TaskDone ''t1'' JNull), GoesOnSettled 0]"

theorem task_calls_conserved_witness:
  "\<exists>call. mset (awaiting_ids (requester_run plain_env (two_calls call))) +
      mset (returned_ids (requester_run plain_env (two_calls call))) = {#''r1'', ''r2''#} \<and>
    returned_ids (requester_run plain_env (two_calls call)) = [''r1'']"
proof -
  define call :: "string \<Rightarrow> start_call" where
    "call i = \<lparr>ta_requestId = i, ta_taskType = ''javascript'', ta_settings = JNull, ta_data = undefined,
       ta_functions = ExecObject []\<rparr>" for i
  have ids: "concat (map started_by (two_calls call)) = [''r1'', ''r2'']"
    "concat (map readied_by (two_calls call)) = [''t1'', ''t2'']"
    by (simp_all add: two_calls_def call_def)
  have "returned_ids (requester_run plain_env (two_calls call)) = [''r1'']"
    by (simp add: requester_run_def two_calls_def new_requester_def startTask_def taskReady_def task_accepted_def
        taskDone_def settle_task_def task_settled_def sendMessage_def returned_ids_def task_result_def call_def
        map_delete_def Let_def)
  moreover have "mset (awaiting_ids (requester_run plain_env (two_calls call))) +
      mset (returned_ids (requester_run plain_env (two_calls call))) = mset (concat (map started_by (two_calls call)))"
    by (rule task_calls_conserved [THEN conjunct1, OF _ _ refl]) (simp_all only: ids, simp_all)
  ultimately show ?thesis unfolding ids by (intro exI [of _ call]) simp
qed

end
