(* ===== verification/TypeValidation.thy ===== *)
theory TypeValidation
  imports NodeParameters
begin

text \<open>
  The validation of values against a declared type (\<open>packages/workflow/src/TypeValidation.ts\<close>)
  with the lenient parser of objects it uses (\<open>utils.ts\<close>): the values of the runtime, their
  conversions to text and numbers, one \<open>tryToParse\<close> function per type, \<open>validateFieldType\<close> over
  all types, and the parser of the form fields. Arrays, objects and dates carry the address they
  are compared by; \<open>None\<close> is an object that was just made and that nothing else refers to.
  The parser of JSON, esprima, the printing of numbers and luxon's date formats are the fields of
  \<open>js_runtime\<close>; a regular expression of the source is written with the combinators \<open>rx_\<close>.
\<close>

section \<open>Values\<close>

datatype js_num = NaN | NegInf | Fin rat | PosInf

datatype val =
    VUndefined
  | VNull
  | VBool bool
  | VNum js_num
  | VStr string
  | VArr "nat option" "val list"
  | VObj "nat option" "(string \<times> val) list"
  | VDate "nat option" "int option"
  | VDateTime "nat option" "int option"

text \<open>The syntax trees of esprima, as far as the sources look at them.\<close>

datatype SyntaxNode =
    ObjectExpression "ObjectProperty list"
  | Identifier string
  | Literal val
  | ArrayExpression "SyntaxNode option list"
  | OtherNode
and ObjectProperty = Property SyntaxNode SyntaxNode | SpreadElement

datatype Statement = ExpressionStatement SyntaxNode | OtherStatement

record js_runtime =
  rt_number_text :: "rat \<Rightarrow> string"
  rt_date_text :: "val \<Rightarrow> string"
  rt_JSON_parse :: "string \<Rightarrow> val option"
  rt_JSON_stringify :: "val \<Rightarrow> string"
  rt_esprimaParse :: "string \<Rightarrow> Statement list option"
  rt_fromISO :: "string \<Rightarrow> int option"
  rt_fromHTTP :: "string \<Rightarrow> int option"
  rt_fromRFC2822 :: "string \<Rightarrow> int option"
  rt_fromSQL :: "string \<Rightarrow> int option"
  rt_Date_parse :: "string \<Rightarrow> int option"
  rt_DateTime_keys :: "string list"
  rt_regex :: "string \<Rightarrow> string \<Rightarrow> string \<Rightarrow> bool option"

definition js_typeof :: "val \<Rightarrow> string" where
  "js_typeof v = (case v of
     VUndefined \<Rightarrow> ''undefined'' | VBool _ \<Rightarrow> ''boolean'' | VNum _ \<Rightarrow> ''number'' | VStr _ \<Rightarrow> ''string''
   | _ \<Rightarrow> ''object'')"

definition is_array :: "val \<Rightarrow> bool" where
  "is_array v = (case v of VArr _ _ \<Rightarrow> True | _ \<Rightarrow> False)"

definition nullish :: "val \<Rightarrow> bool" where
  "nullish v = (case v of VUndefined \<Rightarrow> True | VNull \<Rightarrow> True | _ \<Rightarrow> False)"

definition val_truthy :: "val \<Rightarrow> bool" where
  "val_truthy v = (case v of
     VUndefined \<Rightarrow> False | VNull \<Rightarrow> False | VBool b \<Rightarrow> b | VNum n \<Rightarrow> n \<noteq> NaN \<and> n \<noteq> Fin 0
   | VStr s \<Rightarrow> s \<noteq> [] | _ \<Rightarrow> True)"

text \<open>\<open>a === b\<close>, and the comparison of \<open>includes\<close>, for which \<open>NaN\<close> is itself.\<close>

definition same_ref :: "nat option \<Rightarrow> nat option \<Rightarrow> bool" where
  "same_ref a b = (a \<noteq> None \<and> a = b)"

fun val_eq :: "val \<Rightarrow> val \<Rightarrow> bool" where
  "val_eq (VNum m) (VNum n) = (m \<noteq> NaN \<and> m = n)"
| "val_eq (VArr a _) (VArr b _) = same_ref a b"
| "val_eq (VObj a _) (VObj b _) = same_ref a b"
| "val_eq (VDate a _) (VDate b _) = same_ref a b"
| "val_eq (VDateTime a _) (VDateTime b _) = same_ref a b"
| "val_eq (VArr _ _) b = False"
| "val_eq (VObj _ _) b = False"
| "val_eq (VDate _ _) b = False"
| "val_eq (VDateTime _ _) b = False"
| "val_eq a b = (a = b)"

definition same_value_zero :: "val \<Rightarrow> val \<Rightarrow> bool" where
  "same_value_zero a b = (a = VNum NaN \<and> b = VNum NaN \<or> val_eq a b)"

text \<open>What a parser returns is new: no other value shares its addresses.\<close>

fun fresh :: "val \<Rightarrow> val" where
  "fresh (VArr _ vs) = VArr None (map fresh vs)"
| "fresh (VObj _ ps) = VObj None (map (\<lambda>(k, v). (k, fresh v)) ps)"
| "fresh (VDate _ t) = VDate None t"
| "fresh (VDateTime _ t) = VDateTime None t"
| "fresh v = v"

section \<open>Text and numbers\<close>

definition num_text :: "js_runtime \<Rightarrow> js_num \<Rightarrow> string" where
  "num_text R n = (case n of
     NaN \<Rightarrow> ''NaN'' | NegInf \<Rightarrow> ''-Infinity'' | PosInf \<Rightarrow> ''Infinity'' | Fin q \<Rightarrow> rt_number_text R q)"

text \<open>\<open>String(v)\<close>; an array joins its elements, without a text for the missing ones.\<close>

fun to_text :: "js_runtime \<Rightarrow> val \<Rightarrow> string" where
  "to_text R VUndefined = ''undefined''"
| "to_text R VNull = ''null''"
| "to_text R (VBool b) = (if b then ''true'' else ''false'')"
| "to_text R (VNum n) = num_text R n"
| "to_text R (VStr s) = s"
| "to_text R (VArr _ vs) = js_join '','' (map (\<lambda>v. if nullish v then [] else to_text R v) vs)"
| "to_text R (VObj _ _) = ''[object Object]''"
| "to_text R (VDate a t) = rt_date_text R (VDate a t)"
| "to_text R (VDateTime a t) = rt_date_text R (VDateTime a t)"

text \<open>Integer literals with a prefix, as \<open>Number\<close> reads them.\<close>

definition digit_of :: "char \<Rightarrow> nat option" where
  "digit_of c = (let n = of_char c :: nat in
     if 48 \<le> n \<and> n \<le> 57 then Some (n - 48)
     else if 65 \<le> n \<and> n \<le> 70 then Some (n - 55)
     else if 97 \<le> n \<and> n \<le> 102 then Some (n - 87) else None)"

definition radix_number :: "nat \<Rightarrow> string \<Rightarrow> js_num" where
  "radix_number base s =
     (if s \<noteq> [] \<and> list_all (\<lambda>c. case digit_of c of Some d \<Rightarrow> d < base | None \<Rightarrow> False) s
      then Fin (of_nat (foldl (\<lambda>n c. base * n + the (digit_of c)) 0 s)) else NaN)"

text \<open>\<open>Number(s)\<close> of a text.\<close>

definition text_number :: "string \<Rightarrow> js_num" where
  "text_number s = (let t = trim s in
     if t = ''Infinity'' \<or> t = ''+Infinity'' then PosInf
     else if t = ''-Infinity'' then NegInf
     else if take 2 t \<in> {''0x'', ''0X''} then radix_number 16 (drop 2 t)
     else if take 2 t \<in> {''0o'', ''0O''} then radix_number 8 (drop 2 t)
     else if take 2 t \<in> {''0b'', ''0B''} then radix_number 2 (drop 2 t)
     else case str_number s of Some q \<Rightarrow> Fin q | None \<Rightarrow> NaN)"

text \<open>\<open>Number(v)\<close>.\<close>

definition millis :: "int option \<Rightarrow> js_num" where
  "millis t = (case t of Some i \<Rightarrow> Fin (of_int i) | None \<Rightarrow> NaN)"

definition to_number :: "js_runtime \<Rightarrow> val \<Rightarrow> js_num" where
  "to_number R v = (case v of
     VUndefined \<Rightarrow> NaN | VNull \<Rightarrow> Fin 0 | VBool b \<Rightarrow> Fin (if b then 1 else 0) | VNum n \<Rightarrow> n
   | VStr s \<Rightarrow> text_number s | VDate _ t \<Rightarrow> millis t | VDateTime _ t \<Rightarrow> millis t
   | _ \<Rightarrow> text_number (to_text R v))"

text \<open>\<open>toLowerCase()\<close> on the characters up to 255.\<close>

definition lower_char :: "char \<Rightarrow> char" where
  "lower_char c = (let n = of_char c :: nat in
     if 65 \<le> n \<and> n \<le> 90 \<or> 192 \<le> n \<and> n \<le> 222 \<and> n \<noteq> 215 then char_of (n + 32) else c)"

definition to_lower :: "string \<Rightarrow> string" where
  "to_lower s = map lower_char s"

definition quoted :: "string \<Rightarrow> string" where
  "quoted s = [CHR 0x27] @ s @ [CHR 0x27]"

section \<open>Regular expressions\<close>

text \<open>A matcher gives the rests of the text after each way to match a prefix of it.\<close>

type_synonym rx = "string \<Rightarrow> string list"

definition rx_class :: "(char \<Rightarrow> bool) \<Rightarrow> rx" where
  "rx_class P s = (case s of [] \<Rightarrow> [] | c # cs \<Rightarrow> if P c then [cs] else [])"

definition rx_seq :: "rx \<Rightarrow> rx \<Rightarrow> rx" where
  "rx_seq r r' s = concat (map r' (r s))"

definition rx_opt :: "rx \<Rightarrow> rx" where
  "rx_opt r s = r s @ [s]"

fun rx_star :: "(char \<Rightarrow> bool) \<Rightarrow> rx" where
  "rx_star P [] = [[]]"
| "rx_star P (c # cs) = (if P c then rx_star P cs else []) @ [c # cs]"

definition rx_text :: "string \<Rightarrow> rx" where
  "rx_text t s = (if starts_with s t then [drop (length t) s] else [])"

definition rx_seqs :: "rx list \<Rightarrow> rx" where
  "rx_seqs rs = foldr rx_seq rs (\<lambda>s. [s])"

definition rx_full :: "rx \<Rightarrow> string \<Rightarrow> bool" where
  "rx_full r s = list_ex (\<lambda>t. t = []) (r s)"

definition rx_starts :: "rx \<Rightarrow> string \<Rightarrow> bool" where
  "rx_starts r s = (r s \<noteq> [])"

fun rx_finds :: "rx \<Rightarrow> string \<Rightarrow> bool" where
  "rx_finds r [] = (r [] \<noteq> [])"
| "rx_finds r (c # cs) = (r (c # cs) \<noteq> [] \<or> rx_finds r cs)"

definition is_digit :: "char \<Rightarrow> bool" where
  "is_digit c = (let n = of_char c :: nat in 48 \<le> n \<and> n \<le> 57)"

definition is_letter :: "char \<Rightarrow> bool" where
  "is_letter c = (let n = of_char c :: nat in 65 \<le> n \<and> n \<le> 90 \<or> 97 \<le> n \<and> n \<le> 122)"

definition is_sign :: "char \<Rightarrow> bool" where
  "is_sign c = (c = CHR ''-'' \<or> c = CHR ''+'')"

definition alphanumeric_rx :: rx where
  "alphanumeric_rx = rx_seqs [rx_class (\<lambda>c. is_letter c \<or> c = CHR ''_''),
     rx_star (\<lambda>c. is_letter c \<or> is_digit c \<or> c = CHR ''_'')]"

definition time_rx :: rx where
  "time_rx = (let d = rx_class is_digit; colon = rx_text '':''; sign = rx_class is_sign in
     rx_seqs [d, d, colon, d, d, rx_opt (rx_seqs [colon, d, d]), rx_opt (rx_seqs [sign, d, d, d, d]),
       rx_opt (rx_seqs [sign, d, rx_opt d, rx_opt (rx_seqs [colon, d, d])])])"

definition scheme_rx :: rx where
  "scheme_rx = (\<lambda>s. rx_text ''https'' s @ rx_text ''http'' s @ rx_text ''ftp'' s @ rx_text ''file'' s)"

definition not_space :: "char \<Rightarrow> bool" where
  "not_space c = (\<not> is_js_space c)"

definition url_pattern :: "string \<Rightarrow> bool" where
  "url_pattern s =
     (rx_starts (rx_seqs [scheme_rx, rx_text ''://'', rx_class not_space, rx_star not_space]) s \<or>
      rx_finds (rx_seqs [rx_text ''www.'', rx_class not_space, rx_star not_space]) s)"

definition jwt_char :: "char \<Rightarrow> bool" where
  "jwt_char c = (is_letter c \<or> is_digit c \<or> c = CHR ''-'' \<or> c = CHR ''_'')"

definition jwt_pattern :: rx where
  "jwt_pattern = (let part = rx_seq (rx_class jwt_char) (rx_star jwt_char) in
     rx_seqs [part, rx_text ''.'', part, rx_text ''.'',
       rx_star (\<lambda>c. jwt_char c \<or> c \<in> set ''.+/='')])"

section \<open>Parsing JSON and objects\<close>

definition JSON_parse :: "js_runtime \<Rightarrow> string \<Rightarrow> val option" where
  "JSON_parse R s = map_option fresh (rt_JSON_parse R s)"

text \<open>\<open>Object.fromEntries\<close>: a later entry of the same key replaces the value of the earlier one.\<close>

definition fromEntries :: "(string \<times> val) list \<Rightarrow> val" where
  "fromEntries es = VObj None (foldl (\<lambda>m (k, v). map_set k v m) [] es)"

fun syntaxNodeToValue :: "js_runtime \<Rightarrow> SyntaxNode option \<Rightarrow> val"
  and property_entries :: "js_runtime \<Rightarrow> ObjectProperty \<Rightarrow> (string \<times> val) list" where
  "syntaxNodeToValue R (Some (ObjectExpression ps)) = fromEntries (concat (map (property_entries R) ps))"
| "syntaxNodeToValue R (Some (Identifier x)) = VStr x"
| "syntaxNodeToValue R (Some (Literal v)) = v"
| "syntaxNodeToValue R (Some (ArrayExpression es)) = VArr None (map (syntaxNodeToValue R) es)"
| "syntaxNodeToValue R (Some OtherNode) = VUndefined"
| "syntaxNodeToValue R None = VUndefined"
| "property_entries R (Property k v) =
     [(to_text R (syntaxNodeToValue R (Some k)), syntaxNodeToValue R (Some v))]"
| "property_entries R SpreadElement = []"

definition is_object_statement :: "Statement \<Rightarrow> bool" where
  "is_object_statement s = (case s of ExpressionStatement (ObjectExpression _) \<Rightarrow> True | _ \<Rightarrow> False)"

definition parseJSObject :: "js_runtime \<Rightarrow> string \<Rightarrow> val option" where
  "parseJSObject R objectAsString =
     map_option (\<lambda>body. syntaxNodeToValue R
         (case find is_object_statement body of Some (ExpressionStatement e) \<Rightarrow> Some e | _ \<Rightarrow> None))
       (rt_esprimaParse R (''('' @ objectAsString @ '')''))"

text \<open>\<open>jsonParse(s, { acceptJSObject })\<close> without a fallback: \<open>None\<close> is the error of \<open>JSON.parse\<close>.\<close>

definition jsonParse :: "js_runtime \<Rightarrow> string \<Rightarrow> bool \<Rightarrow> val option" where
  "jsonParse R s acceptJSObject = (case JSON_parse R s of
     Some v \<Rightarrow> Some v
   | None \<Rightarrow> if acceptJSObject then map_option fresh (parseJSObject R s) else None)"

section \<open>Parsing values of a type\<close>

text \<open>\<open>None\<close> is the error that the function throws.\<close>

definition tryToParseNumber :: "js_runtime \<Rightarrow> val \<Rightarrow> val option" where
  "tryToParseNumber R value =
     (let n = to_number R value in if n = NaN then None else Some (VNum n))"

definition tryToParseString :: "js_runtime \<Rightarrow> val \<Rightarrow> string" where
  "tryToParseString R value =
     (if js_typeof value = ''object'' then rt_JSON_stringify R value
      else if js_typeof value = ''undefined'' then []
      else to_text R value)"

definition tryToParseAlphanumericString :: "js_runtime \<Rightarrow> val \<Rightarrow> val option" where
  "tryToParseAlphanumericString R value =
     (let parsed = tryToParseString R value in
      if rx_full alphanumeric_rx parsed then Some (VStr parsed) else None)"

definition tryToParseBoolean :: "js_runtime \<Rightarrow> val \<Rightarrow> val option" where
  "tryToParseBoolean R value =
     (let by_number = (let num = to_number R value in
            if num = Fin 0 then Some (VBool False) else if num = Fin 1 then Some (VBool True) else None)
      in case value of
           VBool b \<Rightarrow> Some (VBool b)
         | VStr s \<Rightarrow>
             if to_lower s = ''true'' \<or> to_lower s = ''false'' then Some (VBool (to_lower s = ''true''))
             else if trim s = [] then None else by_number
         | _ \<Rightarrow> by_number)"

text \<open>The formats of luxon in the order they are tried, then the parser of \<open>Date\<close>.\<close>

definition parse_date_text :: "js_runtime \<Rightarrow> string \<Rightarrow> int option" where
  "parse_date_text R s =
     (case rt_fromISO R s of Some t \<Rightarrow> Some t
      | None \<Rightarrow> case rt_fromHTTP R s of Some t \<Rightarrow> Some t
      | None \<Rightarrow> case rt_fromRFC2822 R s of Some t \<Rightarrow> Some t
      | None \<Rightarrow> case rt_fromSQL R s of Some t \<Rightarrow> Some t
      | None \<Rightarrow> rt_Date_parse R s)"

definition tryToParseDateTime :: "js_runtime \<Rightarrow> val \<Rightarrow> val option" where
  "tryToParseDateTime R value =
     (case value of
        VDateTime _ (Some t) \<Rightarrow> Some value
      | VDate _ (Some t) \<Rightarrow> Some (VDateTime None (Some t))
      | _ \<Rightarrow> map_option (\<lambda>t. VDateTime None (Some t)) (parse_date_text R (trim (to_text R value))))"

definition tryToParseTime :: "js_runtime \<Rightarrow> val \<Rightarrow> val option" where
  "tryToParseTime R value =
     (if rx_full time_rx (to_text R value) then Some (VStr (to_text R value)) else None)"

definition double_quoted :: "string \<Rightarrow> string" where
  "double_quoted s = map (\<lambda>c. if c = CHR 0x27 then CHR 0x22 else c) s"

definition tryToParseArray :: "js_runtime \<Rightarrow> val \<Rightarrow> val option" where
  "tryToParseArray R value =
     (if is_array value then Some value
      else case (case JSON_parse R (to_text R value) of
                   Some v \<Rightarrow> Some v | None \<Rightarrow> JSON_parse R (double_quoted (to_text R value))) of
             Some parsed \<Rightarrow> if is_array parsed then Some parsed else None
           | None \<Rightarrow> None)"

definition tryToParseObject :: "js_runtime \<Rightarrow> val \<Rightarrow> val option" where
  "tryToParseObject R value =
     (if val_truthy value \<and> js_typeof value = ''object'' \<and> \<not> is_array value then Some value
      else case jsonParse R (to_text R value) True of
             Some ob \<Rightarrow> if js_typeof ob \<noteq> ''object'' \<or> is_array ob then None else Some ob
           | None \<Rightarrow> None)"

definition tryToParseUrl :: "js_runtime \<Rightarrow> val \<Rightarrow> val option" where
  "tryToParseUrl R value =
     (let url = (case value of
            VStr s \<Rightarrow> if \<not> str_includes s ''://'' then ''http://'' @ s else s
          | _ \<Rightarrow> to_text R value)
      in if url_pattern url then Some (VStr url) else None)"

definition tryToParseJwt :: "js_runtime \<Rightarrow> val \<Rightarrow> val option" where
  "tryToParseJwt R value =
     (if \<not> val_truthy value then None
      else if rx_full jwt_pattern (to_text R value) then Some (VStr (to_text R value)) else None)"

definition getValueDescription :: "js_runtime \<Rightarrow> val \<Rightarrow> string" where
  "getValueDescription R value =
     (if js_typeof value = ''object''
      then (if value = VNull then quoted ''null'' else if is_array value then ''array'' else ''object'')
      else quoted (to_text R value))"

section \<open>Form fields\<close>

definition ALLOWED_FORM_FIELDS_KEYS :: "string list" where
  "ALLOWED_FORM_FIELDS_KEYS = [''fieldLabel'', ''fieldType'', ''placeholder'', ''fieldOptions'',
     ''multiselect'', ''multipleFiles'', ''acceptFileTypes'', ''formatDate'', ''requiredField'']"

definition ALLOWED_FIELD_TYPES :: "string list" where
  "ALLOWED_FIELD_TYPES =
     [''date'', ''dropdown'', ''email'', ''file'', ''number'', ''password'', ''text'', ''textarea'']"

text \<open>\<open>s.replace(/</g, '&lt;').replace(/>/g, '&gt;')\<close>.\<close>

definition escape_char :: "char \<Rightarrow> string" where
  "escape_char c = (if c = CHR ''<'' then ''&lt;'' else if c = CHR ''>'' then ''&gt;'' else [c])"

definition escaped :: "string \<Rightarrow> string" where
  "escaped s = concat (map escape_char s)"

text \<open>\<open>Object.keys(v)\<close> and \<open>v[key]\<close>; both throw for a value that is missing.\<close>

definition index_keys :: "nat \<Rightarrow> string list" where
  "index_keys n = map nat_str [0..<n]"

definition Object_keys :: "js_runtime \<Rightarrow> val \<Rightarrow> string list res" where
  "Object_keys R v = (case v of
     VUndefined \<Rightarrow> Inl TypeError | VNull \<Rightarrow> Inl TypeError
   | VObj _ ps \<Rightarrow> Inr (map fst ps)
   | VArr _ vs \<Rightarrow> Inr (index_keys (length vs))
   | VStr s \<Rightarrow> Inr (index_keys (length s))
   | VDateTime _ _ \<Rightarrow> Inr (rt_DateTime_keys R)
   | _ \<Rightarrow> Inr [])"

definition js_prop :: "val \<Rightarrow> string \<Rightarrow> val res" where
  "js_prop v key = (case v of
     VUndefined \<Rightarrow> Inl TypeError | VNull \<Rightarrow> Inl TypeError
   | VObj _ ps \<Rightarrow> Inr (case map_of ps key of Some w \<Rightarrow> w | None \<Rightarrow> VUndefined)
   | _ \<Rightarrow> Inr VUndefined)"

definition Array_entries :: "val \<Rightarrow> (nat \<times> val) list res" where
  "Array_entries v = (case v of VArr _ vs \<Rightarrow> Inr (enumerate 0 vs) | _ \<Rightarrow> Inl TypeError)"

definition check_option :: "js_runtime \<Rightarrow> nat \<Rightarrow> nat \<times> val \<Rightarrow> unit res" where
  "check_option R index = (\<lambda>(optionIndex, opt).
     res_bind (Object_keys R opt) (\<lambda>ks.
     res_bind (js_prop opt ''option'') (\<lambda>text.
       if length ks \<noteq> 1 \<or> js_typeof text \<noteq> ''string''
       then Inl (ApplicationError (''Field dropdown in field '' @ nat_str index @
              '' has an invalid option '' @ nat_str optionIndex))
       else Inr ())))"

text \<open>\<open>field.fieldOptions\<close>: an array is wrapped, then every option is checked.\<close>

definition check_options :: "js_runtime \<Rightarrow> nat \<Rightarrow> val \<Rightarrow> val res" where
  "check_options R index v =
     (let w = (if is_array v then VObj None [(''values'', v)] else v);
          missing = Inl (ApplicationError (''Field dropdown in field '' @ nat_str index @
            '' does has no '' @ quoted ''values'' @ '' property that contain an array of options''))
      in if js_typeof w \<noteq> ''object'' then missing
         else res_bind (js_prop w ''values'') (\<lambda>vs.
           if \<not> val_truthy vs then missing
           else res_bind (Array_entries vs) (\<lambda>es.
             res_bind (fold_res (\<lambda>_. check_option R index) () es) (\<lambda>_. Inr w))))"

text \<open>One key of a field; the fields are those of an object, so that an assignment keeps the order.\<close>

definition check_form_key ::
  "js_runtime \<Rightarrow> nat \<Rightarrow> (string \<times> val) list \<Rightarrow> string \<Rightarrow> (string \<times> val) list res" where
  "check_form_key R index field key =
     (if key \<notin> set ALLOWED_FORM_FIELDS_KEYS
      then Inl (ApplicationError (''Key '' @ quoted key @ '' in field '' @ nat_str index @
             '' is not valid for form fields''))
      else let v = (case map_of field key of Some w \<Rightarrow> w | None \<Rightarrow> VUndefined);
               v1 = (if key \<noteq> ''fieldOptions'' \<and> js_typeof v \<notin> {''string'', ''number'', ''boolean''}
                     then VStr (to_text R v)
                     else case v of VStr s \<Rightarrow> VStr (escaped s) | _ \<Rightarrow> v)
      in if key = ''fieldType'' \<and> v1 \<notin> VStr ` set ALLOWED_FIELD_TYPES
         then Inl (ApplicationError (''Field type '' @ quoted (to_text R v1) @ '' in field '' @
                nat_str index @ '' is not valid for form fields''))
         else if key = ''fieldOptions''
         then res_bind (check_options R index v1) (\<lambda>v2. Inr (map_set key v2 field))
         else Inr (map_set key v1 field))"

text \<open>
  One element of the list. An object has its keys checked; the indices of a non-empty text or
  array are no allowed keys, and a number, a truth value or a date has no keys to check.
\<close>

definition check_form_field :: "js_runtime \<Rightarrow> val list \<Rightarrow> nat \<times> val \<Rightarrow> val list res" where
  "check_form_field R checked = (\<lambda>(index, field).
     case field of
       VObj a ps \<Rightarrow> res_bind (fold_res (check_form_key R index) ps (map fst ps))
                      (\<lambda>ps'. Inr (checked @ [VObj a ps']))
     | _ \<Rightarrow> res_bind (Object_keys R field) (\<lambda>ks.
              res_bind (fold_res (check_form_key R index) [] ks) (\<lambda>_. Inr (checked @ [field]))))"

definition tryToParseJsonToFormFields :: "js_runtime \<Rightarrow> val \<Rightarrow> string + val" where
  "tryToParseJsonToFormFields R value =
     (case (case jsonParse R (to_text R value) True of
              None \<Rightarrow> Inl TypeError
            | Some rawFields \<Rightarrow> res_bind (Array_entries rawFields) (fold_res (check_form_field R) []))
      of Inr fs \<Rightarrow> Inr (VArr None fs)
       | Inl (ApplicationError m) \<Rightarrow> Inl m
       | Inl _ \<Rightarrow> Inl ''Value is not valid JSON'')"

section \<open>Validation\<close>

datatype ValidationResult = Valid val | Invalid string

record ValidateFieldTypeOptions =
  valueOptions :: "val list"
  strict :: bool
  parseStrings :: bool

definition no_options :: ValidateFieldTypeOptions where
  "no_options = \<lparr> valueOptions = [], strict = False, parseStrings = False \<rparr>"

definition or_invalid :: "val option \<Rightarrow> string \<Rightarrow> ValidationResult" where
  "or_invalid parsed errorMessage = (case parsed of Some v \<Rightarrow> Valid v | None \<Rightarrow> Invalid errorMessage)"

definition luxon_hint :: string where
  "luxon_hint = '' <br/><br/> Consider using <a href=\"https://moment.github.io/luxon/api-docs/index.html#datetimefromformat\" target=\"_blank\"><code>DateTime.fromFormat</code></a> to work with custom date formats.''"

text \<open>lodash's \<open>isObject\<close>: arrays and dates are objects too.\<close>

definition is_lodash_object :: "val \<Rightarrow> bool" where
  "is_lodash_object v = (js_typeof v = ''object'' \<and> v \<noteq> VNull)"

definition validateFieldType ::
  "js_runtime \<Rightarrow> string \<Rightarrow> val \<Rightarrow> string \<Rightarrow> ValidateFieldTypeOptions \<Rightarrow> ValidationResult" where
  "validateFieldType R fieldName value type options =
     (if nullish value then Valid VUndefined
      else let got = '' but we got '' @ getValueDescription R value;
               defaultErrorMessage = quoted fieldName @ '' expects a '' @ type @ got;
               t = to_lower type
      in if t = ''string'' then
           (if \<not> parseStrings options then Valid value
            else if strict options \<and> js_typeof value \<noteq> ''string'' then Invalid defaultErrorMessage
            else Valid (VStr (tryToParseString R value)))
         else if t = ''string-alphanumeric'' then
           or_invalid (tryToParseAlphanumericString R value)
             ''Value is not a valid alphanumeric string, only letters, numbers and underscore allowed''
         else if t = ''number'' then
           (if strict options \<and> js_typeof value \<noteq> ''number'' then Invalid defaultErrorMessage
            else or_invalid (tryToParseNumber R value) defaultErrorMessage)
         else if t = ''boolean'' then
           (if strict options \<and> js_typeof value \<noteq> ''boolean'' then Invalid defaultErrorMessage
            else or_invalid (tryToParseBoolean R value) defaultErrorMessage)
         else if t = ''datetime'' then
           or_invalid (tryToParseDateTime R value) (defaultErrorMessage @ luxon_hint)
         else if t = ''time'' then
           or_invalid (tryToParseTime R value)
             (quoted fieldName @ '' expects time (hh:mm:(:ss))'' @ got @ ''.'')
         else if t = ''object'' then
           (if strict options \<and> \<not> is_lodash_object value then Invalid defaultErrorMessage
            else or_invalid (tryToParseObject R value) defaultErrorMessage)
         else if t = ''array'' then
           (if strict options \<and> \<not> is_array value then Invalid defaultErrorMessage
            else or_invalid (tryToParseArray R value) defaultErrorMessage)
         else if t = ''options'' then
           (if \<not> list_ex (\<lambda>v. val_eq v value) (valueOptions options)
            then Invalid (quoted fieldName @ '' expects one of the following values: ['' @
                   js_join '', '' (map (\<lambda>v. if nullish v then [] else to_text R v) (valueOptions options)) @
                   '']'' @ got)
            else Valid value)
         else if t = ''url'' then or_invalid (tryToParseUrl R value) defaultErrorMessage
         else if t = ''jwt'' then
           or_invalid (tryToParseJwt R value) ''Value is not a valid JWT token''
         else if t = ''form-fields'' then
           (case tryToParseJsonToFormFields R value of Inr v \<Rightarrow> Valid v | Inl m \<Rightarrow> Invalid m)
         else Valid value)"

end
