(* ===== verification/TypeValidationFacts.thy ===== *)
theory TypeValidationFacts
  imports TypeValidation
begin

text \<open>
  What the validation of values guarantees: an accepted value is of the declared type, accepting it
  again changes nothing, and in strict mode a value is accepted only as it is; and what is known of
  the form fields that are let through.
\<close>

section \<open>The type of an accepted value\<close>

text \<open>
  A value \<open>w\<close> of the type \<open>t\<close> that was accepted for \<open>value\<close>. A text is made of every value if texts are to be
  parsed, else the value is not looked at; \<open>options\<close> admits the listed values; an object may be
  \<open>null\<close>, which is what the text of that name parses to; other types admit everything as it is.
\<close>

definition has_declared_type :: "ValidateFieldTypeOptions \<Rightarrow> val \<Rightarrow> string \<Rightarrow> val \<Rightarrow> bool" where
  "has_declared_type options value t w =
     (if t = ''string'' then (if parseStrings options then js_typeof w = ''string'' else w = value)
      else if t = ''string-alphanumeric'' then
        (case w of VStr s \<Rightarrow> s \<noteq> [] \<and> \<not> is_digit (hd s) \<and>
           list_all (\<lambda>c. is_letter c \<or> is_digit c \<or> c = CHR ''_'') s | _ \<Rightarrow> False)
      else if t = ''number'' then (case w of VNum n \<Rightarrow> n \<noteq> NaN | _ \<Rightarrow> False)
      else if t = ''boolean'' then (case w of VBool _ \<Rightarrow> True | _ \<Rightarrow> False)
      else if t = ''datetime'' then (case w of VDateTime _ (Some _) \<Rightarrow> True | _ \<Rightarrow> False)
      else if t = ''time'' then (case w of VStr s \<Rightarrow> rx_full time_rx s | _ \<Rightarrow> False)
      else if t = ''object'' then w = VNull \<or> is_lodash_object w \<and> \<not> is_array w
      else if t = ''array'' then is_array w
      else if t = ''options'' then w = value \<and> list_ex (\<lambda>v. val_eq v w) (valueOptions options)
      else if t = ''url'' then (case w of VStr s \<Rightarrow> url_pattern s | _ \<Rightarrow> False)
      else if t = ''jwt'' then (case w of VStr s \<Rightarrow> rx_full jwt_pattern s | _ \<Rightarrow> False)
      else if t = ''form-fields'' then is_array w
      else w = value)"

lemma rx_star_end: "list_ex (\<lambda>t. t = []) (rx_star P s) = list_all P s"
  by (induction s) auto

lemma rx_full_class_star:
  "rx_full (rx_seqs [rx_class P, rx_star Q]) s \<longleftrightarrow> (case s of [] \<Rightarrow> False | c # cs \<Rightarrow> P c \<and> list_all Q cs)"
proof -
  have "concat (map (\<lambda>s. [s]) ts) = ts" for ts :: "string list"
    by (induction ts) auto
  then have "rx_seq (rx_star Q) (\<lambda>s. [s]) = rx_star Q"
    by (simp add: rx_seq_def fun_eq_iff)
  then show ?thesis
    by (auto simp: rx_full_def rx_seqs_def rx_seq_def rx_class_def rx_star_end split: list.splits)
qed

lemma alphanumeric_chars:
  assumes "rx_full alphanumeric_rx s"
  shows "s \<noteq> [] \<and> \<not> is_digit (hd s) \<and> list_all (\<lambda>c. is_letter c \<or> is_digit c \<or> c = CHR ''_'') s"
proof -
  obtain c cs where s: "s = c # cs" "is_letter c \<or> c = CHR ''_''"
      "list_all (\<lambda>c. is_letter c \<or> is_digit c \<or> c = CHR ''_'') cs"
    using assms by (auto simp: alphanumeric_rx_def rx_full_class_star split: list.splits)
  moreover have "\<not> is_digit c"
    using s(2) by (auto simp: is_digit_def is_letter_def Let_def)
  ultimately show ?thesis by auto
qed

text \<open>What each parser returns.\<close>

lemma parsed_number: "tryToParseNumber R v = Some w \<longleftrightarrow> to_number R v \<noteq> NaN \<and> w = VNum (to_number R v)"
  by (auto simp: tryToParseNumber_def Let_def)

lemma parsed_boolean: "tryToParseBoolean R v = Some w \<Longrightarrow> \<exists>b. w = VBool b"
  by (auto simp: tryToParseBoolean_def Let_def split: val.splits if_splits)

lemma parsed_datetime: "tryToParseDateTime R v = Some w \<Longrightarrow> \<exists>a t. w = VDateTime a (Some t)"
  by (auto simp: tryToParseDateTime_def split: val.splits option.splits)

lemma parsed_time: "tryToParseTime R v = Some w \<Longrightarrow> \<exists>s. w = VStr s \<and> rx_full time_rx s"
  by (auto simp: tryToParseTime_def split: if_splits)

lemma parsed_array: "tryToParseArray R v = Some w \<Longrightarrow> is_array w"
  by (auto simp: tryToParseArray_def split: option.splits if_splits)

lemma parsed_object: "tryToParseObject R v = Some w \<Longrightarrow> js_typeof w = ''object'' \<and> \<not> is_array w"
  by (auto simp: tryToParseObject_def split: option.splits if_splits)

lemma parsed_url: "tryToParseUrl R v = Some w \<Longrightarrow> \<exists>s. w = VStr s \<and> url_pattern s"
  by (auto simp: tryToParseUrl_def Let_def split: if_splits)

lemma parsed_jwt: "tryToParseJwt R v = Some w \<Longrightarrow> \<exists>s. w = VStr s \<and> rx_full jwt_pattern s"
  by (auto simp: tryToParseJwt_def split: if_splits)

lemma parsed_alphanumeric:
  "tryToParseAlphanumericString R v = Some w \<Longrightarrow> \<exists>s. w = VStr s \<and> rx_full alphanumeric_rx s"
  by (auto simp: tryToParseAlphanumericString_def Let_def split: if_splits)

lemma parsed_form_fields: "tryToParseJsonToFormFields R v = Inr w \<Longrightarrow> is_array w"
  by (auto simp: tryToParseJsonToFormFields_def is_array_def split: option.splits sum.splits js_error.splits)

lemma or_invalid_iff [simp]: "or_invalid p m = Valid w \<longleftrightarrow> p = Some w"
  by (auto simp: or_invalid_def split: option.splits)

text \<open>The branches of \<open>validateFieldType\<close>, by type.\<close>

lemma validate_nullish: "nullish value \<Longrightarrow> validateFieldType R f value type options = Valid VUndefined"
  by (simp add: validateFieldType_def)

lemma valid_iff:
  "(if c then p else q) = Valid w \<longleftrightarrow> (if c then p = Valid w else q = Valid w)"
  "Invalid m = Valid w \<longleftrightarrow> False"
  "(if c then False else A) \<longleftrightarrow> \<not> c \<and> A"
  "(case r of Inr v \<Rightarrow> Valid v | Inl m \<Rightarrow> Invalid m) = Valid w \<longleftrightarrow> r = Inr w"
  "Valid v = Valid w \<longleftrightarrow> v = w"
  by (auto split: sum.splits)

lemma validated_by_type:
  assumes "\<not> nullish value"
  shows "validateFieldType R f value type options = Valid w \<longleftrightarrow>
    (if to_lower type = ''string'' then
       (if \<not> parseStrings options then value = w
        else (strict options \<longrightarrow> js_typeof value = ''string'') \<and> VStr (tryToParseString R value) = w)
     else if to_lower type = ''string-alphanumeric'' then tryToParseAlphanumericString R value = Some w
     else if to_lower type = ''number'' then
       (strict options \<longrightarrow> js_typeof value = ''number'') \<and> tryToParseNumber R value = Some w
     else if to_lower type = ''boolean'' then
       (strict options \<longrightarrow> js_typeof value = ''boolean'') \<and> tryToParseBoolean R value = Some w
     else if to_lower type = ''datetime'' then tryToParseDateTime R value = Some w
     else if to_lower type = ''time'' then tryToParseTime R value = Some w
     else if to_lower type = ''object'' then
       (strict options \<longrightarrow> is_lodash_object value) \<and> tryToParseObject R value = Some w
     else if to_lower type = ''array'' then (strict options \<longrightarrow> is_array value) \<and> tryToParseArray R value = Some w
     else if to_lower type = ''options'' then list_ex (\<lambda>v. val_eq v value) (valueOptions options) \<and> value = w
     else if to_lower type = ''url'' then tryToParseUrl R value = Some w
     else if to_lower type = ''jwt'' then tryToParseJwt R value = Some w
     else if to_lower type = ''form-fields'' then tryToParseJsonToFormFields R value = Inr w
     else value = w)"
  unfolding validateFieldType_def Let_def if_not_P [OF assms]
  by (simp only: valid_iff or_invalid_iff de_Morgan_conj not_not imp_conv_disj)

lemma validated_as:
  assumes "validateFieldType R f value type options = Valid w" "\<not> nullish value"
  shows "to_lower type = ''string'' \<Longrightarrow> if \<not> parseStrings options then value = w
           else (strict options \<longrightarrow> js_typeof value = ''string'') \<and> VStr (tryToParseString R value) = w"
    and "to_lower type = ''string-alphanumeric'' \<Longrightarrow> tryToParseAlphanumericString R value = Some w"
    and "to_lower type = ''number'' \<Longrightarrow>
           (strict options \<longrightarrow> js_typeof value = ''number'') \<and> tryToParseNumber R value = Some w"
    and "to_lower type = ''boolean'' \<Longrightarrow>
           (strict options \<longrightarrow> js_typeof value = ''boolean'') \<and> tryToParseBoolean R value = Some w"
    and "to_lower type = ''datetime'' \<Longrightarrow> tryToParseDateTime R value = Some w"
    and "to_lower type = ''time'' \<Longrightarrow> tryToParseTime R value = Some w"
    and "to_lower type = ''object'' \<Longrightarrow>
           (strict options \<longrightarrow> is_lodash_object value) \<and> tryToParseObject R value = Some w"
    and "to_lower type = ''array'' \<Longrightarrow> (strict options \<longrightarrow> is_array value) \<and> tryToParseArray R value = Some w"
    and "to_lower type = ''options'' \<Longrightarrow> list_ex (\<lambda>v. val_eq v value) (valueOptions options) \<and> value = w"
    and "to_lower type = ''url'' \<Longrightarrow> tryToParseUrl R value = Some w"
    and "to_lower type = ''jwt'' \<Longrightarrow> tryToParseJwt R value = Some w"
    and "to_lower type = ''form-fields'' \<Longrightarrow> tryToParseJsonToFormFields R value = Inr w"
  using assms(1) unfolding validated_by_type [OF assms(2)] by auto

lemma ifI: "(c \<Longrightarrow> A) \<Longrightarrow> (\<not> c \<Longrightarrow> B) \<Longrightarrow> if c then A else B"
  by simp

lemma has_declared_typeI:
  assumes "\<not> nullish value" "validateFieldType R f value type options = Valid w"
  shows "has_declared_type options value (to_lower type) w"
proof -
  note as = validated_as [OF assms(2,1)]
  note by_type = assms(2) [unfolded validated_by_type [OF assms(1)]]
  show ?thesis
    unfolding has_declared_type_def
    apply (rule ifI, drule as(1), force simp: js_typeof_def split: if_splits)
    apply (rule ifI, drule as(2), drule parsed_alphanumeric, fastforce dest: alphanumeric_chars)
    apply (rule ifI, drule as(3), force simp: parsed_number)
    apply (rule ifI, drule as(4), drule conjunct2, drule parsed_boolean, force)
    apply (rule ifI, drule as(5), drule parsed_datetime, force)
    apply (rule ifI, drule as(6), drule parsed_time, force)
    apply (rule ifI, drule as(7), drule conjunct2, drule parsed_object, force simp: is_lodash_object_def)
    apply (rule ifI, drule as(8), drule conjunct2, drule parsed_array, assumption)
    apply (rule ifI, drule as(9), force)
    apply (rule ifI, drule as(10), drule parsed_url, force)
    apply (rule ifI, drule as(11), drule parsed_jwt, force)
    apply (rule ifI, drule as(12), drule parsed_form_fields, assumption)
    using by_type by simp
qed

text \<open>C24: a value that is missing is accepted as missing; any other accepted value has the type it was validated
  against: a number, truth value, date, time, list, address, token or list of form fields is one; an
  object is one or \<open>null\<close>; an option is one of the options; a text is a text if texts are to be
  parsed. Otherwise a text, and a value of an unknown type, is accepted as it is.\<close>

theorem validated_value_has_type:
  "case validateFieldType R f value type options of
     Valid w \<Rightarrow> if nullish value then w = VUndefined else has_declared_type options value (to_lower type) w
   | Invalid _ \<Rightarrow> \<not> nullish value"
  by (auto simp: validate_nullish has_declared_typeI split: ValidationResult.splits)

section \<open>Accepting a value again\<close>

text \<open>Each parser leaves what it has returned as it is.\<close>

lemma number_again: "tryToParseNumber R v = Some w \<Longrightarrow> js_typeof w = ''number'' \<and> tryToParseNumber R w = Some w"
  by (auto simp: parsed_number to_number_def js_typeof_def)

lemma boolean_again: "tryToParseBoolean R v = Some w \<Longrightarrow> js_typeof w = ''boolean'' \<and> tryToParseBoolean R w = Some w"
  by (drule parsed_boolean) (auto simp: tryToParseBoolean_def js_typeof_def)

lemma datetime_again: "tryToParseDateTime R v = Some w \<Longrightarrow> tryToParseDateTime R w = Some w"
  by (drule parsed_datetime) (auto simp: tryToParseDateTime_def)

lemma time_again: "tryToParseTime R v = Some w \<Longrightarrow> tryToParseTime R w = Some w"
  by (drule parsed_time) (auto simp: tryToParseTime_def)

lemma array_again: "tryToParseArray R v = Some w \<Longrightarrow> is_array w \<and> tryToParseArray R w = Some w"
  by (drule parsed_array) (auto simp: tryToParseArray_def)

lemma object_again:
  "tryToParseObject R v = Some w \<Longrightarrow> w \<noteq> VNull \<Longrightarrow> is_lodash_object w \<and> tryToParseObject R w = Some w"
  by (frule parsed_object)
     (auto simp: tryToParseObject_def is_lodash_object_def js_typeof_def val_truthy_def split: val.splits)

lemma alphanumeric_again:
  "tryToParseAlphanumericString R v = Some w \<Longrightarrow> tryToParseAlphanumericString R w = Some w"
  by (drule parsed_alphanumeric)
    (auto simp: tryToParseAlphanumericString_def tryToParseString_def js_typeof_def Let_def)

lemma str_includes_append: "str_includes (s @ p @ t) p"
proof (induction s)
  case Nil
  have "starts_with (p @ t) p" by (simp add: starts_with_def)
  then show ?case by (cases "p @ t") (auto simp: starts_with_def)
qed simp

lemma url_again:
  assumes "tryToParseUrl R v = Some w" "js_typeof v = ''string''"
  shows "tryToParseUrl R w = Some w"
proof -
  obtain s where v: "v = VStr s" using assms(2) by (cases v) (auto simp: js_typeof_def)
  have "str_includes (''http://'' @ s) ''://''" using str_includes_append [of "''http''" "''://''" s] by simp
  with assms(1) show ?thesis
    unfolding v by (auto simp: tryToParseUrl_def Let_def split: if_splits)
qed

lemma jwt_again: "tryToParseJwt R v = Some w \<Longrightarrow> tryToParseJwt R w = Some w"
proof -
  assume "tryToParseJwt R v = Some w"
  then obtain s where s: "w = VStr s" "rx_full jwt_pattern s" using parsed_jwt by blast
  moreover have "s \<noteq> []"
    using s(2) by (auto simp: rx_full_def jwt_pattern_def Let_def rx_seqs_def rx_seq_def rx_class_def)
  ultimately show ?thesis by (simp add: tryToParseJwt_def val_truthy_def)
qed

text \<open>C25: validating is idempotent: a value that was accepted and converted is accepted unchanged the next
  time, in both modes, except that \<open>null\<close>, which the text of that name gives as an object, then counts as
  missing. This is for every type but \<open>form-fields\<close>, whose values are texts before and lists after, and
  for addresses that are given as texts: a list of one address passes through its text.
\<close>

theorem validation_idempotent:
  assumes "validateFieldType R f value type options = Valid w"
    and "to_lower type \<noteq> ''form-fields''"
    and "to_lower type = ''url'' \<Longrightarrow> js_typeof value = ''string''"
  shows "validateFieldType R f w type options = Valid (if w = VNull then VUndefined else w)"
proof (cases "nullish value \<or> nullish w")
  case True
  show ?thesis
  proof (cases "nullish value")
    case False
    with True have "w = VUndefined \<or> w = VNull" by (auto simp: nullish_def split: val.splits)
    then show ?thesis by (auto simp: validate_nullish nullish_def)
  qed (use assms(1) in \<open>auto simp: validate_nullish nullish_def\<close>)
next
  case False
  then have n: "\<not> nullish value" and m: "\<not> nullish w" and no_null: "w \<noteq> VNull" by (auto simp: nullish_def)
  note as = validated_as [OF assms(1) n]
  have "validateFieldType R f w type options = Valid w"
    unfolding validated_by_type [OF m]
    apply (rule ifI, drule as, force simp: tryToParseString_def js_typeof_def split: if_splits)
    apply (rule ifI, drule as, erule alphanumeric_again)
    apply (rule ifI, drule as, use number_again in blast)
    apply (rule ifI, drule as, use boolean_again in blast)
    apply (rule ifI, drule as, erule datetime_again)
    apply (rule ifI, drule as, erule time_again)
    apply (rule ifI, drule as, use object_again no_null in blast)
    apply (rule ifI, drule as, use array_again in blast)
    apply (rule ifI, frule as, metis)
    apply (rule ifI, frule as, erule url_again, erule assms(3))
    apply (rule ifI, drule as, erule jwt_again)
    apply (rule ifI, simp add: assms(2))
    by simp
  with no_null show ?thesis by simp
qed

lemma strict_as_is:
  assumes "validateFieldType R f value type options = Valid w"
    and "strict options" and "parseStrings options"
    and "to_lower type \<in> {''string'', ''number'', ''boolean'', ''array''}"
    and "\<not> nullish value"
  shows "w = value \<and> (if to_lower type = ''array'' then is_array value else js_typeof value = to_lower type)"
proof -
  note as = validated_as [OF assms(1,5)]
  consider (s) "to_lower type = ''string''" | (n) "to_lower type = ''number''"
    | (b) "to_lower type = ''boolean''" | (a) "to_lower type = ''array''"
    using assms(4) by blast
  then show ?thesis
  proof cases
    case s
    with as(1) assms(2,3) show ?thesis
      by (cases "value") (auto simp: js_typeof_def tryToParseString_def)
  next
    case n
    with as(3) assms(2) show ?thesis
      by (cases "value") (auto simp: js_typeof_def parsed_number to_number_def)
  next
    case b
    with as(4) assms(2) show ?thesis
      by (cases "value") (auto simp: js_typeof_def tryToParseBoolean_def)
  next
    case a
    with as(8) assms(2) show ?thesis by (auto simp: tryToParseArray_def)
  qed
qed

text \<open>In strict mode with parsing of texts, a text, number, truth value or list is accepted only if
  the value is of that type already, and it is accepted as it is: nothing is converted.
\<close>

theorem strict_accepts_as_is:
  assumes "validateFieldType R f value type options = Valid w"
    and "strict options" and "parseStrings options"
    and "to_lower type \<in> {''string'', ''number'', ''boolean'', ''array''}"
    and "\<not> nullish value"
  shows "w = value \<and> (if to_lower type = ''array'' then is_array value else js_typeof value = to_lower type)"
  using strict_as_is [OF assms] .

section \<open>Form fields\<close>

text \<open>What a value of a form field may have become.\<close>

definition is_option_entry :: "val \<Rightarrow> bool" where
  "is_option_entry v = (case v of VObj _ [(k, VStr _)] \<Rightarrow> k = ''option'' | _ \<Rightarrow> False)"

definition has_options :: "val \<Rightarrow> bool" where
  "has_options v = (case v of
     VObj _ ps \<Rightarrow> (case map_of ps ''values'' of Some (VArr _ os) \<Rightarrow> list_all is_option_entry os | _ \<Rightarrow> False)
   | _ \<Rightarrow> False)"

definition checked_value :: "js_runtime \<Rightarrow> string \<times> val \<Rightarrow> string \<times> val \<Rightarrow> bool" where
  "checked_value R = (\<lambda>(k, v) (j, w). j = k \<and> k \<in> set ALLOWED_FORM_FIELDS_KEYS \<and>
     (if k = ''fieldOptions''
      then w = (if is_array v then VObj None [(''values'', v)] else v) \<and> has_options w
      else w = (case v of VStr s \<Rightarrow> VStr (escaped s) | VNum _ \<Rightarrow> v | VBool _ \<Rightarrow> v | _ \<Rightarrow> VStr (to_text R v)) \<and>
           (k = ''fieldType'' \<longrightarrow> w \<in> VStr ` set ALLOWED_FIELD_TYPES)))"

definition checked_field :: "js_runtime \<Rightarrow> val \<Rightarrow> val \<Rightarrow> bool" where
  "checked_field R raw f = (case raw of
     VObj a ps \<Rightarrow> (case f of VObj b qs \<Rightarrow> a = b \<and> list_all2 (checked_value R) ps qs | _ \<Rightarrow> False)
   | _ \<Rightarrow> f = raw)"

definition distinct_keys :: "val \<Rightarrow> bool" where
  "distinct_keys v = (case v of VObj _ ps \<Rightarrow> distinct (map fst ps) | _ \<Rightarrow> True)"

lemma escaped_no_tags: "CHR ''<'' \<notin> set (escaped s) \<and> CHR ''>'' \<notin> set (escaped s)"
  by (induction s) (auto simp: escaped_def escape_char_def)

lemma check_option_ok: "check_option R i (j, v) = Inr () \<Longrightarrow> is_option_entry v"
  by (auto simp: check_option_def Object_keys_def js_prop_def is_option_entry_def resI js_typeof_def
      length_Suc_conv index_keys_def split: val.splits if_splits option.splits)

lemma check_options_list:
  "fold_res (\<lambda>_. check_option R i) () (enumerate n os) = Inr u \<Longrightarrow> list_all is_option_entry os"
  by (induction os arbitrary: n) (auto simp: resI dest: check_option_ok)

lemma check_options_ok:
  assumes "check_options R i v = Inr w"
  shows "w = (if is_array v then VObj None [(''values'', v)] else v) \<and> has_options w"
proof -
  define u where "u = (if is_array v then VObj None [(''values'', v)] else v)"
  from assms have w: "w = u" and t: "js_typeof u = ''object''"
    by (auto simp: check_options_def u_def [symmetric] Let_def resI split: if_splits)
  from assms obtain vs es where vs: "js_prop u ''values'' = Inr vs" "val_truthy vs" "Array_entries vs = Inr es"
      "fold_res (\<lambda>_. check_option R i) () es = Inr ()"
    by (auto simp: check_options_def u_def [symmetric] Let_def resI split: if_splits)
  from vs(3) obtain a os where os: "vs = VArr a os" "es = enumerate 0 os"
    by (auto simp: Array_entries_def split: val.splits)
  have "list_all is_option_entry os" using vs(4) os(2) check_options_list by blast
  with vs(1) os(1) have "has_options u"
    by (auto simp: has_options_def js_prop_def split: val.splits option.splits)
  with w show ?thesis by (simp add: u_def)
qed

lemma check_form_key_ok:
  assumes "check_form_key R i field k = Inr field'" and "map_of field k = Some v"
  shows "\<exists>w. field' = map_set k w field \<and> checked_value R (k, v) (k, w)"
proof -
  define w where "w = (if k \<noteq> ''fieldOptions'' \<and> js_typeof v \<notin> {''string'', ''number'', ''boolean''}
                       then VStr (to_text R v)
                       else case v of VStr s \<Rightarrow> VStr (escaped s) | _ \<Rightarrow> v)"
  note def = assms(1) [unfolded check_form_key_def Let_def assms(2) option.case w_def [symmetric]]
  from def have allowed: "k \<in> set ALLOWED_FORM_FIELDS_KEYS" by (auto split: if_splits)
  show ?thesis
  proof (cases "k = ''fieldOptions''")
    case True
    with def obtain w' where w': "check_options R i w = Inr w'" "field' = map_set k w' field"
      by (auto simp: resI ALLOWED_FORM_FIELDS_KEYS_def)
    have "w = v"
    proof (cases v)
      case (VStr s)
      with True w'(1) show ?thesis by (simp add: w_def check_options_def is_array_def js_typeof_def)
    qed (use True in \<open>simp_all add: w_def\<close>)
    with w' check_options_ok [OF w'(1)] True allowed show ?thesis by (auto simp: checked_value_def)
  next
    case False
    with def have "field' = map_set k w field" "k = ''fieldType'' \<longrightarrow> w \<in> VStr ` set ALLOWED_FIELD_TYPES"
      by (auto split: if_splits)
    moreover have "w = (case v of VStr s \<Rightarrow> VStr (escaped s) | VNum _ \<Rightarrow> v | VBool _ \<Rightarrow> v | _ \<Rightarrow> VStr (to_text R v))"
      using False by (cases v) (auto simp: w_def js_typeof_def)
    ultimately show ?thesis using False allowed by (auto simp: checked_value_def)
  qed
qed

lemma check_form_keys_ok:
  assumes "fold_res (check_form_key R i) (checked @ ps) (map fst ps) = Inr qs"
    and "distinct (map fst ps)" and "fst ` set checked \<inter> fst ` set ps = {}"
  shows "\<exists>rest. qs = checked @ rest \<and> list_all2 (checked_value R) ps rest"
  using assms
proof (induction ps arbitrary: checked)
  case Nil
  then show ?case by simp
next
  case (Cons p ps)
  obtain k v where p: "p = (k, v)" by (cases p)
  have fresh: "k \<notin> fst ` set checked" using Cons.prems(3) by (auto simp: p)
  then have "map_of (checked @ p # ps) k = Some v"
    by (simp add: p map_add_def map_of_eq_None_iff [THEN iffD2])
  moreover from Cons.prems(1) obtain f where f: "check_form_key R i (checked @ p # ps) k = Inr f"
      "fold_res (check_form_key R i) f (map fst ps) = Inr qs"
    by (auto simp: p resI)
  ultimately obtain w where w: "f = map_set k w (checked @ p # ps)" "checked_value R (k, v) (k, w)"
    using check_form_key_ok by blast
  have "map_set k w (checked @ p # ps) = (checked @ [(k, w)]) @ ps"
    using fresh by (induction checked) (auto simp: p)
  with f(2) w(1) have "fold_res (check_form_key R i) ((checked @ [(k, w)]) @ ps) (map fst ps) = Inr qs"
    by simp
  moreover have "fst ` set (checked @ [(k, w)]) \<inter> fst ` set ps = {}"
    using Cons.prems(2,3) by (auto simp: p)
  ultimately obtain rest where "qs = (checked @ [(k, w)]) @ rest" "list_all2 (checked_value R) ps rest"
    using Cons.IH Cons.prems(2) by (metis distinct.simps(2) list.simps(9))
  with w(2) show ?case by (auto simp: p)
qed

lemma check_form_field_ok:
  assumes "check_form_field R fs (i, raw) = Inr fs'" and "distinct_keys raw"
  shows "\<exists>f. fs' = fs @ [f] \<and> checked_field R raw f"
proof (cases raw)
  case (VObj a ps)
  with assms obtain qs where "fold_res (check_form_key R i) ([] @ ps) (map fst ps) = Inr qs"
      "fs' = fs @ [VObj a qs]"
    by (auto simp: check_form_field_def resI)
  with check_form_keys_ok [of R i "[]"] assms(2) show ?thesis
    by (fastforce simp: VObj distinct_keys_def checked_field_def)
qed (use assms in \<open>auto simp: check_form_field_def checked_field_def resI\<close>)

lemma check_form_fields_ok:
  assumes "fold_res (check_form_field R) fs (enumerate n rs) = Inr fs'" and "list_all distinct_keys rs"
  shows "\<exists>gs. fs' = fs @ gs \<and> list_all2 (checked_field R) rs gs"
  using assms
proof (induction rs arbitrary: fs n)
  case Nil
  then show ?case by simp
next
  case (Cons r rs)
  then obtain g where "check_form_field R fs (n, r) = Inr g"
      "fold_res (check_form_field R) g (enumerate (Suc n) rs) = Inr fs'"
    by (auto simp: resI)
  with Cons check_form_field_ok [of R fs n r g] show ?case by fastforce
qed

text \<open>When a list of form fields is let through, it has the fields of the text one by one, each with
  the keys it had, all of them known: a text is the given one with the angle brackets replaced,
  numbers and truth values are kept, any other value is its text, the type is a known one, and the
  options are a list of single texts.
\<close>

theorem form_fields_exact:
  assumes "tryToParseJsonToFormFields R value = Inr w"
    and "jsonParse R (to_text R value) True = Some (VArr a rs)"
    and "list_all distinct_keys rs"
  shows "case w of VArr _ fs \<Rightarrow> list_all2 (checked_field R) rs fs | _ \<Rightarrow> False"
proof -
  from assms(1,2) obtain fs where "fold_res (check_form_field R) [] (enumerate 0 rs) = Inr fs" "w = VArr None fs"
    by (auto simp: tryToParseJsonToFormFields_def Array_entries_def split: sum.splits js_error.splits)
  with check_form_fields_ok [of R "[]" 0 rs fs] assms(3) show ?thesis by auto
qed

section \<open>Examples\<close>

definition plain_runtime :: js_runtime where
  "plain_runtime = \<lparr> rt_number_text = (\<lambda>q. int_str \<lfloor>q\<rfloor>), rt_date_text = (\<lambda>_. ''Invalid date''),
     rt_JSON_parse = (\<lambda>_. None), rt_JSON_stringify = (\<lambda>_. ''{}''), rt_esprimaParse = (\<lambda>_. None),
     rt_fromISO = (\<lambda>s. if s = ''1970-01-01'' then Some 0 else None), rt_fromHTTP = (\<lambda>_. None),
     rt_fromRFC2822 = (\<lambda>_. None), rt_fromSQL = (\<lambda>_. None), rt_Date_parse = (\<lambda>_. None),
     rt_DateTime_keys = [''ts'', ''zone''], rt_regex = (\<lambda>source flags s. Some (str_includes s source)) \<rparr>"

definition reads :: "string \<Rightarrow> val \<Rightarrow> js_runtime" where
  "reads t v = plain_runtime \<lparr> rt_JSON_parse := (\<lambda>s. if s = t then Some v else None) \<rparr>"

definition strict_options :: ValidateFieldTypeOptions where
  "strict_options = no_options \<lparr> strict := True, parseStrings := True \<rparr>"

text \<open>A number in a text is read once, and what was read is accepted again.\<close>

theorem validation_idempotent_witness:
  "validateFieldType plain_runtime ''f'' (VStr '' 42 '') ''number'' no_options = Valid (VNum (Fin 42)) \<and>
   validateFieldType plain_runtime ''f'' (VNum (Fin 42)) ''number'' no_options = Valid (VNum (Fin 42))"
proof -
  have "validateFieldType plain_runtime ''f'' (VStr '' 42 '') ''number'' no_options = Valid (VNum (Fin 42))"
    by code_simp
  moreover have "to_lower ''number'' = ''number''" by code_simp
  ultimately show ?thesis
    using validation_idempotent [of plain_runtime "''f''" "VStr '' 42 ''" "''number''" no_options "VNum (Fin 42)"]
    by simp
qed

theorem strict_accepts_as_is_witness:
  "validateFieldType plain_runtime ''f'' (VStr ''42'') ''string'' strict_options = Valid (VStr ''42'') \<and>
   js_typeof (VStr ''42'') = ''string''"
proof -
  have v: "validateFieldType plain_runtime ''f'' (VStr ''42'') ''string'' strict_options = Valid (VStr ''42'')"
    by code_simp
  moreover have "to_lower ''string'' = ''string''" by code_simp
  ultimately show ?thesis
    using strict_accepts_as_is [OF v] by (simp add: strict_options_def no_options_def nullish_def)
qed

text \<open>A label with tags in a text and in a list: the tags of the list are let through.\<close>

definition form_text :: string where
  "form_text = ''[{fieldLabel: <b>, fieldType: text}]''"

definition form_value :: val where
  "form_value = VArr None [VObj None [(''fieldLabel'', VStr ''<b>''), (''fieldType'', VStr ''text'')]]"

theorem form_fields_exact_witness:
  "tryToParseJsonToFormFields (reads form_text form_value) (VStr form_text) =
     Inr (VArr None [VObj None [(''fieldLabel'', VStr ''&lt;b&gt;''), (''fieldType'', VStr ''text'')]]) \<and>
   checked_field (reads form_text form_value)
     (VObj None [(''fieldLabel'', VStr ''<b>''), (''fieldType'', VStr ''text'')])
     (VObj None [(''fieldLabel'', VStr ''&lt;b&gt;''), (''fieldType'', VStr ''text'')])"
proof -
  let ?R = "reads form_text form_value"
  have p: "tryToParseJsonToFormFields ?R (VStr form_text) =
     Inr (VArr None [VObj None [(''fieldLabel'', VStr ''&lt;b&gt;''), (''fieldType'', VStr ''text'')]])"
    by code_simp
  have j: "jsonParse ?R (to_text ?R (VStr form_text)) True =
      Some (VArr None [VObj None [(''fieldLabel'', VStr ''<b>''), (''fieldType'', VStr ''text'')]])"
    by code_simp
  from form_fields_exact [OF p j] p show ?thesis by (simp add: distinct_keys_def)
qed

lemma tags_in_lists_kept:
  "tryToParseJsonToFormFields (reads ''t'' (VArr None [VObj None [(''fieldLabel'', VArr None [VStr ''<b>''])]]))
     (VStr ''t'') = Inr (VArr None [VObj None [(''fieldLabel'', VStr ''<b>'')]])"
  by code_simp

text \<open>In strict mode an object is expected, but a list whose text is an object passes.\<close>

lemma strict_object_accepts_list:
  "validateFieldType (reads ''{}'' (VObj None [])) ''f'' (VArr (Some 1) [VStr ''{}'']) ''object'' strict_options =
   Valid (VObj None [])"
  by code_simp

text \<open>The text \<open>null\<close> passes as an object; a list of one address passes as a URL.\<close>

lemma null_text_is_object:
  "validateFieldType (reads ''null'' VNull) ''f'' (VStr ''null'') ''object'' no_options = Valid VNull"
  by code_simp

lemma list_is_url:
  "validateFieldType plain_runtime ''f'' (VArr (Some 1) [VStr ''www.n8n.io'']) ''url'' no_options =
   Valid (VStr ''www.n8n.io'')"
  by code_simp

end
