(* ===== verification/FilterParameter.thy ===== *)
theory FilterParameter
  imports TypeValidation
begin

text \<open>
  The conditions of filters (\<open>packages/workflow/src/NodeParameters/FilterParameter.ts\<close>): how the two
  values of a condition are converted to the types of its operator, with the errors it reports; the
  operators of each type, with the cases of the source's \<open>switch\<close> that fall through to the next
  type; and the combination of conditions.
\<close>

section \<open>Conditions\<close>

record FilterOperatorValue =
  fo_type :: string
  fo_operation :: string
  fo_rightType :: "string option"
  fo_singleValue :: bool

record FilterConditionValue =
  fc_id :: string
  fc_leftValue :: val
  fc_operator :: FilterOperatorValue
  fc_rightValue :: val

record FilterOptionsValue =
  caseSensitive :: bool
  typeValidation :: string
  filter_version :: "nat option"

record FilterValue =
  fv_options :: FilterOptionsValue
  fv_conditions :: "FilterConditionValue list"
  fv_combinator :: string

record FilterConditionMetadata =
  fm_index :: "nat option"
  fm_unresolvedExpressions :: bool
  fm_itemIndex :: "nat option"
  fm_errorFormat :: "string option"

text \<open>
  What a condition can throw: its own error with a message and a description, the error of calling
  a method that a value does not have, and the error of a malformed regular expression.
\<close>

datatype filter_error = FilterError string string | NotAFunction | InvalidRegex

section \<open>Converting the values of a condition\<close>

definition parseSingleFilterValue ::
  "js_runtime \<Rightarrow> val \<Rightarrow> string \<Rightarrow> bool \<Rightarrow> nat \<Rightarrow> ValidationResult" where
  "parseSingleFilterValue R value type strct version =
     (if type = ''any'' \<or> nullish value then Valid value
      else if type = ''boolean'' \<and> \<not> strct then
        (case (if version \<ge> 2 then validateFieldType R ''filter'' value type no_options else Invalid []) of
           Valid w \<Rightarrow> Valid w
         | Invalid _ \<Rightarrow> Valid (VBool (val_truthy value)))
      else if type = ''number'' \<and> value = VNum NaN then Valid value
      else validateFieldType R ''filter'' value type
             (no_options \<lparr> strict := strct, parseStrings := True \<rparr>))"

definition withIndefiniteArticle :: "string \<Rightarrow> string" where
  "withIndefiniteArticle noun =
     (if str_includes ''aeiou'' (take 1 noun) then ''an '' @ noun else ''a '' @ noun)"

definition composeInvalidTypeMessage :: "bool \<Rightarrow> string \<Rightarrow> string \<Rightarrow> string \<Rightarrow> string \<Rightarrow> string" where
  "composeInvalidTypeMessage strct suff type fromType text =
     (if strct
      then ''Wrong type: '' @ quoted text @ '' is '' @ withIndefiniteArticle (to_lower fromType) @
        '' but was expecting '' @ withIndefiniteArticle type @ '' '' @ suff
      else ''Conversion error: the '' @ to_lower fromType @ '' '' @ quoted text @ '' can'' @ [CHR 0x27] @
        ''t be converted to '' @ withIndefiniteArticle type @ '' '' @ suff)"

definition getTypeDescription :: "bool \<Rightarrow> string" where
  "getTypeDescription isStrict =
     (if isStrict
      then ''Try changing the type of comparison. Alternatively you can enable '' @
        quoted ''Convert types where required'' @ ''.''
      else ''Try changing the type of the comparison.'')"

definition composeInvalidTypeDescription :: "bool \<Rightarrow> string \<Rightarrow> string \<Rightarrow> string" where
  "composeInvalidTypeDescription strct type valuePosition =
     (let convertionFunction =
            (if type = ''string'' then ''.toString()'' else if type = ''number'' then ''.toNumber()''
             else if type = ''boolean'' then ''.toBoolean()'' else [])
      in if strct \<and> convertionFunction \<noteq> [] then
           [CHR 10] @ ''<p>Try either:</p>'' @ [CHR 10] @ ''<ol>'' @ [CHR 10] @ ''  <li>Enabling '' @
           quoted ''Convert types where required'' @ ''</li>'' @ [CHR 10] @ ''  <li>Converting the '' @
           valuePosition @ '' field to '' @ withIndefiniteArticle type @ '' by adding <code>'' @
           convertionFunction @ ''</code></li>'' @ [CHR 10] @ ''</ol>'' @ [CHR 10] @ [CHR 9, CHR 9, CHR 9]
         else getTypeDescription strct)"

definition unresolved :: "FilterConditionMetadata \<Rightarrow> val \<Rightarrow> bool" where
  "unresolved metadata v =
     (fm_unresolvedExpressions metadata \<and> (case v of VStr s \<Rightarrow> starts_with s ''='' | _ \<Rightarrow> False))"

definition is_valid :: "ValidationResult \<Rightarrow> bool" where
  "is_valid r = (case r of Valid _ \<Rightarrow> True | Invalid _ \<Rightarrow> False)"

definition newValue :: "ValidationResult \<Rightarrow> val" where
  "newValue r = (case r of Valid v \<Rightarrow> v | Invalid _ \<Rightarrow> VUndefined)"

definition error_suffix :: "FilterConditionMetadata \<Rightarrow> string" where
  "error_suffix metadata =
     (let index = case_option 0 id (fm_index metadata);
          itemIndex = case_option 0 id (fm_itemIndex metadata)
      in if case_option ''full'' id (fm_errorFormat metadata) = ''full''
         then ''[condition '' @ nat_str index @ '', item '' @ nat_str itemIndex @ '']''
         else ''[item '' @ nat_str itemIndex @ '']'')"

text \<open>\<open>String(v)\<close>; the result is a value of type \<open>Result\<close>, an error is not thrown here.\<close>

definition parseFilterConditionValues ::
  "js_runtime \<Rightarrow> FilterConditionValue \<Rightarrow> FilterOptionsValue \<Rightarrow> FilterConditionMetadata \<Rightarrow>
   filter_error + val \<times> val" where
  "parseFilterConditionValues R condition options metadata =
     (let strct = (typeValidation options = ''strict'');
          version = case_option 1 id (filter_version options);
          operator = fc_operator condition;
          leftValue = fc_leftValue condition;
          rightValue = fc_rightValue condition;
          rightType = case_option (fo_type operator) id (fo_rightType operator);
          parsedLeftValue = parseSingleFilterValue R leftValue (fo_type operator) strct version;
          parsedRightValue = parseSingleFilterValue R rightValue rightType strct version;
          leftValid = (is_valid parsedLeftValue \<or> unresolved metadata leftValue);
          rightValid = (is_valid parsedRightValue \<or> fo_singleValue operator \<or> unresolved metadata rightValue);
          suff = error_suffix metadata
      in if \<not> leftValid \<and> \<not> rightValid \<and> js_typeof leftValue = js_typeof rightValue
         then Inl (FilterError (''Comparison type expects '' @ withIndefiniteArticle (fo_type operator) @
                '' but both fields are '' @ withIndefiniteArticle (js_typeof leftValue))
                (getTypeDescription strct))
         else if \<not> leftValid
         then Inl (FilterError
                (composeInvalidTypeMessage strct suff (fo_type operator) (js_typeof leftValue) (to_text R leftValue))
                (composeInvalidTypeDescription strct (fo_type operator) ''first''))
         else if \<not> rightValid
         then Inl (FilterError
                (composeInvalidTypeMessage strct suff rightType (js_typeof rightValue) (to_text R rightValue))
                (composeInvalidTypeDescription strct rightType ''second''))
         else Inr (newValue parsedLeftValue, newValue parsedRightValue))"

section \<open>Comparing\<close>

definition num_less :: "js_num \<Rightarrow> js_num \<Rightarrow> bool option" where
  "num_less m n =
     (if m = NaN \<or> n = NaN then None
      else Some (case (m, n) of
             (Fin p, Fin q) \<Rightarrow> p < q
           | (NegInf, _) \<Rightarrow> n \<noteq> NegInf
           | (_, PosInf) \<Rightarrow> m \<noteq> PosInf
           | _ \<Rightarrow> False))"

text \<open>\<open>a < b\<close>: texts by their characters, everything else as numbers; \<open>None\<close> is undefined.\<close>

definition to_primitive :: "js_runtime \<Rightarrow> val \<Rightarrow> val" where
  "to_primitive R v = (case v of
     VArr _ _ \<Rightarrow> VStr (to_text R v) | VObj _ _ \<Rightarrow> VStr (to_text R v)
   | VDate _ t \<Rightarrow> VNum (millis t) | VDateTime _ t \<Rightarrow> VNum (millis t) | _ \<Rightarrow> v)"

definition val_less :: "js_runtime \<Rightarrow> val \<Rightarrow> val \<Rightarrow> bool option" where
  "val_less R a b = (case (to_primitive R a, to_primitive R b) of
     (VStr s, VStr t) \<Rightarrow> Some (str_less s t)
   | (p, q) \<Rightarrow> num_less (to_number R p) (to_number R q))"

definition val_gt :: "js_runtime \<Rightarrow> val \<Rightarrow> val \<Rightarrow> bool" where "val_gt R a b = (val_less R b a = Some True)"
definition val_lt :: "js_runtime \<Rightarrow> val \<Rightarrow> val \<Rightarrow> bool" where "val_lt R a b = (val_less R a b = Some True)"
definition val_gte :: "js_runtime \<Rightarrow> val \<Rightarrow> val \<Rightarrow> bool" where "val_gte R a b = (val_less R a b = Some False)"
definition val_lte :: "js_runtime \<Rightarrow> val \<Rightarrow> val \<Rightarrow> bool" where "val_lte R a b = (val_less R b a = Some False)"

section \<open>Operators\<close>

text \<open>\<open>/source/flags\<close>, as the source's own expression takes it apart; the last slash ends the source.\<close>

definition regex_parts :: "string \<Rightarrow> (string \<times> string) option" where
  "regex_parts p = (case p of
     [] \<Rightarrow> None
   | c # body \<Rightarrow>
       if c = CHR ''/'' \<and> CHR ''/'' \<in> set body then
         (let flags = rev (takeWhile (\<lambda>d. d \<noteq> CHR ''/'') (rev body));
              source = rev (tl (dropWhile (\<lambda>d. d \<noteq> CHR ''/'') (rev body)))
          in if set flags \<subseteq> set ''gimusy'' \<and> CHR 10 \<notin> set source \<and> CHR 13 \<notin> set source
             then Some (source, flags) else None)
       else None)"

definition parseRegexPattern :: "val \<Rightarrow> filter_error + string \<times> string" where
  "parseRegexPattern v = (case (if val_truthy v then v else VStr []) of
     VStr p \<Rightarrow> Inr (case regex_parts p of Some parts \<Rightarrow> parts | None \<Rightarrow> (p, []))
   | _ \<Rightarrow> Inl NotAFunction)"

definition regex_test :: "js_runtime \<Rightarrow> val \<Rightarrow> string \<Rightarrow> filter_error + bool" where
  "regex_test R v s = (case parseRegexPattern v of
     Inl e \<Rightarrow> Inl e
   | Inr (source, flags) \<Rightarrow> (case rt_regex R source flags s of Some b \<Rightarrow> Inr b | None \<Rightarrow> Inl InvalidRegex))"

definition answered :: "bool \<Rightarrow> filter_error + val" where
  "answered b = Inr (VBool b)"

definition negated :: "filter_error + bool \<Rightarrow> filter_error + bool" where
  "negated r = map_sum id Not r"

definition string_operation :: "js_runtime \<Rightarrow> string \<Rightarrow> string \<Rightarrow> val \<Rightarrow> filter_error + val" where
  "string_operation R operation left right =
     (if operation = ''empty'' then answered (left = [])
      else if operation = ''notEmpty'' then answered (left \<noteq> [])
      else if operation = ''equals'' then answered (val_eq (VStr left) right)
      else if operation = ''notEquals'' then answered (\<not> val_eq (VStr left) right)
      else if operation = ''contains'' then answered (str_includes left (to_text R right))
      else if operation = ''notContains'' then answered (\<not> str_includes left (to_text R right))
      else if operation = ''startsWith'' then answered (starts_with left (to_text R right))
      else if operation = ''notStartsWith'' then answered (\<not> starts_with left (to_text R right))
      else if operation = ''endsWith'' then answered (ends_with (to_text R right) left)
      else if operation = ''notEndsWith'' then answered (\<not> ends_with (to_text R right) left)
      else if operation = ''regex'' then map_sum id VBool (regex_test R right left)
      else if operation = ''notRegex'' then map_sum id VBool (negated (regex_test R right left))
      else answered False)"

definition object_operation :: "js_runtime \<Rightarrow> string \<Rightarrow> val \<Rightarrow> filter_error + val" where
  "object_operation R operation left =
     (if operation = ''empty'' then answered (\<not> val_truthy left \<or> Object_keys R left = Inr [])
      else if operation = ''notEmpty'' then answered (val_truthy left \<and> Object_keys R left \<noteq> Inr [])
      else answered False)"

definition arrayContainsValue :: "val \<Rightarrow> val \<Rightarrow> bool \<Rightarrow> filter_error + bool" where
  "arrayContainsValue arr v ignoreCase = (case arr of
     VArr _ vs \<Rightarrow>
       Inr (case v of
         VStr s \<Rightarrow> if ignoreCase
                   then list_ex (\<lambda>item. case item of VStr t \<Rightarrow> to_lower t = to_lower s | _ \<Rightarrow> False) vs
                   else list_ex (\<lambda>item. same_value_zero item v) vs
       | _ \<Rightarrow> list_ex (\<lambda>item. same_value_zero item v) vs)
   | _ \<Rightarrow> Inl NotAFunction)"

definition js_length :: "val \<Rightarrow> val" where
  "js_length v = (case v of
     VArr _ vs \<Rightarrow> VNum (Fin (of_nat (length vs)))
   | VStr s \<Rightarrow> VNum (Fin (of_nat (length s)))
   | _ \<Rightarrow> (case js_prop v ''length'' of Inr w \<Rightarrow> w | Inl _ \<Rightarrow> VUndefined))"

definition array_operation :: "js_runtime \<Rightarrow> string \<Rightarrow> bool \<Rightarrow> val \<Rightarrow> val \<Rightarrow> filter_error + val" where
  "array_operation R operation ignoreCase leftValue rightValue =
     (let left = (if nullish leftValue then VArr None [] else leftValue) in
      if operation = ''contains'' then map_sum id VBool (arrayContainsValue left rightValue ignoreCase)
      else if operation = ''notContains'' then map_sum id VBool (negated (arrayContainsValue left rightValue ignoreCase))
      else if operation = ''lengthEquals'' then answered (val_eq (js_length left) rightValue)
      else if operation = ''lengthNotEquals'' then answered (\<not> val_eq (js_length left) rightValue)
      else if operation = ''lengthGt'' then answered (val_gt R (js_length left) rightValue)
      else if operation = ''lengthLt'' then answered (val_lt R (js_length left) rightValue)
      else if operation = ''lengthGte'' then answered (val_gte R (js_length left) rightValue)
      else if operation = ''lengthLte'' then answered (val_lte R (js_length left) rightValue)
      else if operation = ''empty'' then answered (val_eq (js_length left) (VNum (Fin 0)))
      else if operation = ''notEmpty'' then answered (\<not> val_eq (js_length left) (VNum (Fin 0)))
      else object_operation R operation leftValue)"

definition boolean_operation :: "js_runtime \<Rightarrow> string \<Rightarrow> bool \<Rightarrow> bool \<Rightarrow> val \<Rightarrow> val \<Rightarrow> filter_error + val" where
  "boolean_operation R operation ignoreCase ex left right =
     (if operation = ''empty'' then answered (\<not> ex)
      else if operation = ''notEmpty'' then answered ex
      else if operation = ''true'' then Inr left
      else if operation = ''false'' then answered (\<not> val_truthy left)
      else if operation = ''equals'' then answered (val_eq left right)
      else if operation = ''notEquals'' then answered (\<not> val_eq left right)
      else array_operation R operation ignoreCase left right)"

text \<open>\<open>toMillis()\<close> is a method of dates only; \<open>NaN\<close> is different from itself.\<close>

definition toMillis :: "val \<Rightarrow> (js_num \<Rightarrow> filter_error + val) \<Rightarrow> filter_error + val" where
  "toMillis v k = (case v of VDateTime _ t \<Rightarrow> k (millis t) | _ \<Rightarrow> Inl NotAFunction)"

definition compare_dates :: "(val \<Rightarrow> val \<Rightarrow> bool) \<Rightarrow> val \<Rightarrow> val \<Rightarrow> filter_error + val" where
  "compare_dates c left right = toMillis left (\<lambda>m. toMillis right (\<lambda>n. answered (c (VNum m) (VNum n))))"

definition dateTime_operation :: "js_runtime \<Rightarrow> string \<Rightarrow> bool \<Rightarrow> bool \<Rightarrow> val \<Rightarrow> val \<Rightarrow> filter_error + val" where
  "dateTime_operation R operation ignoreCase ex left right =
     (if operation = ''empty'' then answered (\<not> ex)
      else if operation = ''notEmpty'' then answered ex
      else if \<not> val_truthy left \<or> \<not> val_truthy right then answered False
      else if operation = ''equals'' then compare_dates val_eq left right
      else if operation = ''notEquals'' then compare_dates (\<lambda>a b. \<not> val_eq a b) left right
      else if operation = ''after'' then compare_dates (val_gt R) left right
      else if operation = ''before'' then compare_dates (val_lt R) left right
      else if operation = ''afterOrEquals'' then compare_dates (val_gte R) left right
      else if operation = ''beforeOrEquals'' then compare_dates (val_lte R) left right
      else boolean_operation R operation ignoreCase ex left right)"

definition number_operation :: "js_runtime \<Rightarrow> string \<Rightarrow> bool \<Rightarrow> bool \<Rightarrow> val \<Rightarrow> val \<Rightarrow> filter_error + val" where
  "number_operation R operation ignoreCase ex left right =
     (if operation = ''empty'' then answered (\<not> ex)
      else if operation = ''notEmpty'' then answered ex
      else if operation = ''equals'' then answered (val_eq left right)
      else if operation = ''notEquals'' then answered (\<not> val_eq left right)
      else if operation = ''gt'' then answered (val_gt R left right)
      else if operation = ''lt'' then answered (val_lt R left right)
      else if operation = ''gte'' then answered (val_gte R left right)
      else if operation = ''lte'' then answered (val_lte R left right)
      else dateTime_operation R operation ignoreCase ex left right)"

section \<open>A condition\<close>

definition value_exists :: "val \<Rightarrow> bool" where
  "value_exists v = (\<not> nullish v \<and> v \<noteq> VNum NaN)"

definition lower_text :: "val \<Rightarrow> val" where
  "lower_text v = (case v of VStr s \<Rightarrow> VStr (to_lower s) | _ \<Rightarrow> v)"

definition or_empty_text :: "val \<Rightarrow> val" where
  "or_empty_text v = (if nullish v then VStr [] else v)"

text \<open>
  The left value of an operator on texts is a text (lemma \<open>parsed_left_is_text\<close>); the last branch of
  its case distinction is not reached.
\<close>

definition execute_operation ::
  "js_runtime \<Rightarrow> FilterOperatorValue \<Rightarrow> bool \<Rightarrow> val \<Rightarrow> val \<Rightarrow> filter_error + val" where
  "execute_operation R operator ignoreCase leftValue rightValue =
     (let ex = value_exists leftValue; operation = fo_operation operator in
      if operation = ''exists'' then answered ex
      else if operation = ''notExists'' then answered (\<not> ex)
      else if fo_type operator = ''string'' then
        (let left = (if ignoreCase then lower_text leftValue else leftValue);
             right = (if ignoreCase \<and> \<not> (operation = ''regex'' \<or> operation = ''notRegex'')
                      then lower_text rightValue else rightValue)
         in case or_empty_text left of
              VStr s \<Rightarrow> string_operation R operation s (or_empty_text right)
            | _ \<Rightarrow> Inl NotAFunction)
      else if fo_type operator = ''number'' then
        number_operation R operation ignoreCase ex leftValue rightValue
      else if fo_type operator = ''dateTime'' then
        dateTime_operation R operation ignoreCase ex leftValue rightValue
      else if fo_type operator = ''boolean'' then
        boolean_operation R operation ignoreCase ex leftValue rightValue
      else if fo_type operator = ''array'' then
        array_operation R operation ignoreCase leftValue rightValue
      else if fo_type operator = ''object'' then object_operation R operation leftValue
      else answered False)"

definition executeFilterCondition ::
  "js_runtime \<Rightarrow> FilterConditionValue \<Rightarrow> FilterOptionsValue \<Rightarrow> FilterConditionMetadata \<Rightarrow>
   filter_error + val" where
  "executeFilterCondition R condition filterOptions metadata =
     (case parseFilterConditionValues R condition filterOptions metadata of
        Inl e \<Rightarrow> Inl e
      | Inr (leftValue, rightValue) \<Rightarrow>
          execute_operation R (fc_operator condition) (\<not> caseSensitive filterOptions) leftValue rightValue)"

section \<open>A filter\<close>

definition condition_metadata :: "nat option \<Rightarrow> nat \<Rightarrow> FilterConditionMetadata" where
  "condition_metadata itemIndex index =
     \<lparr> fm_index = Some index, fm_unresolvedExpressions = False, fm_itemIndex = itemIndex, fm_errorFormat = None \<rparr>"

text \<open>\<open>every\<close> and \<open>some\<close>: the first condition that decides, or throws, ends the search.\<close>

fun every_condition :: "(nat \<Rightarrow> 'c \<Rightarrow> 'e + val) \<Rightarrow> nat \<Rightarrow> 'c list \<Rightarrow> 'e + bool" where
  "every_condition f i [] = Inr True"
| "every_condition f i (c # cs) = (case f i c of
     Inl e \<Rightarrow> Inl e
   | Inr v \<Rightarrow> if val_truthy v then every_condition f (Suc i) cs else Inr False)"

fun some_condition :: "(nat \<Rightarrow> 'c \<Rightarrow> 'e + val) \<Rightarrow> nat \<Rightarrow> 'c list \<Rightarrow> 'e + bool" where
  "some_condition f i [] = Inr False"
| "some_condition f i (c # cs) = (case f i c of
     Inl e \<Rightarrow> Inl e
   | Inr v \<Rightarrow> if val_truthy v then Inr True else some_condition f (Suc i) cs)"

definition executeFilter :: "js_runtime \<Rightarrow> FilterValue \<Rightarrow> nat option \<Rightarrow> filter_error + bool" where
  "executeFilter R value itemIndex =
     (let conditionPass = (\<lambda>index condition.
            executeFilterCondition R condition (fv_options value) (condition_metadata itemIndex index))
      in if fv_combinator value = ''and'' then every_condition conditionPass 0 (fv_conditions value)
         else if fv_combinator value = ''or'' then some_condition conditionPass 0 (fv_conditions value)
         else Inr False)"

text \<open>
  The check in the editor. The call in the \<open>try\<close> block returns its errors (as a \<open>Result\<close>) and
  throws none, so it is \<open>Inr\<close>; the handler would push to the list of a key that has none yet.
\<close>

definition report_issue ::
  "string \<Rightarrow> (string, string list) js_map \<Rightarrow> filter_error + 'a \<Rightarrow> (string, string list) js_map res" where
  "report_issue key issues outcome = (case outcome of
     Inl (FilterError m _) \<Rightarrow>
       (case map_of issues key of Some ms \<Rightarrow> Inr (map_set key (ms @ [m]) issues) | None \<Rightarrow> Inl TypeError)
   | _ \<Rightarrow> Inr issues)"

definition validateFilterParameter ::
  "js_runtime \<Rightarrow> string \<Rightarrow> FilterValue \<Rightarrow> (string, string list) js_map res" where
  "validateFilterParameter R name value =
     fold_res (\<lambda>issues (index, condition).
        report_issue (name @ ''.'' @ nat_str index) issues
          (Inr (parseFilterConditionValues R condition (fv_options value)
             \<lparr> fm_index = Some index, fm_unresolvedExpressions = True, fm_itemIndex = None,
               fm_errorFormat = Some ''inline'' \<rparr>)))
       [] (enumerate 0 (fv_conditions value))"

end
