(* ===== verification/FilterFacts.thy ===== *)
theory FilterFacts
  imports TypeValidationFacts FilterParameter
begin

text \<open>
  What filters guarantee: a negated operator is the complement of the operator, so that the laws of
  De Morgan hold for whole filters, errors included; an operator of a type never calls a method its
  values do not have; in strict mode nothing is converted; letters compare without regard to their
  case; and the orders are total on numbers.
\<close>

section \<open>Verdicts\<close>

definition verdict :: "filter_error + val \<Rightarrow> filter_error + bool" where
  "verdict r = map_sum id val_truthy r"

lemma verdict_simps [simp]:
  "verdict (Inl e) = Inl e" "verdict (Inr v) = Inr (val_truthy v)" "verdict (answered b) = Inr b"
  "verdict (map_sum id VBool r) = r"
  by (auto simp: verdict_def answered_def val_truthy_def sum.map_comp comp_def sum.map_ident id_def)

lemma negated_simps [simp]:
  "negated (Inl e) = Inl e" "negated (Inr b) = Inr (\<not> b)" "negated (negated r) = r"
  by (cases r; simp add: negated_def)+

text \<open>The operators with a negation, by type.\<close>

definition negations :: "string \<Rightarrow> (string \<times> string) list" where
  "negations type =
     (''exists'', ''notExists'') #
     (if type = ''string'' then [(''empty'', ''notEmpty''), (''equals'', ''notEquals''),
        (''contains'', ''notContains''), (''startsWith'', ''notStartsWith''),
        (''endsWith'', ''notEndsWith''), (''regex'', ''notRegex'')]
      else if type = ''number'' then [(''empty'', ''notEmpty''), (''equals'', ''notEquals'')]
      else if type = ''dateTime'' then [(''empty'', ''notEmpty'')]
      else if type = ''boolean'' then [(''empty'', ''notEmpty''), (''equals'', ''notEquals''), (''true'', ''false'')]
      else if type = ''array'' then [(''empty'', ''notEmpty''), (''contains'', ''notContains''),
        (''lengthEquals'', ''lengthNotEquals'')]
      else if type = ''object'' then [(''empty'', ''notEmpty'')]
      else [])"

definition negation_of :: "string \<Rightarrow> string \<Rightarrow> string option" where
  "negation_of type operation =
     map_of (negations type @ map (\<lambda>(p, n). (n, p)) (negations type)) operation"

lemma negation_of_cases:
  "negation_of type p = Some n \<Longrightarrow> (p, n) \<in> set (negations type) \<or> (n, p) \<in> set (negations type)"
  unfolding negation_of_def by (drule map_of_SomeD) auto

definition with_operation :: "FilterConditionValue \<Rightarrow> string \<Rightarrow> FilterConditionValue" where
  "with_operation c operation = c \<lparr> fc_operator := (fc_operator c) \<lparr> fo_operation := operation \<rparr> \<rparr>"

definition negated_condition :: "FilterConditionValue \<Rightarrow> FilterConditionValue option" where
  "negated_condition c =
     map_option (with_operation c) (negation_of (fo_type (fc_operator c)) (fo_operation (fc_operator c)))"

lemma parse_ignores_operation:
  "parseFilterConditionValues R (with_operation c operation) options metadata =
   parseFilterConditionValues R c options metadata"
  by (cases "fo_rightType (fc_operator c)")
    (simp_all add: parseFilterConditionValues_def with_operation_def Let_def)

lemma string_negation:
  assumes "(p, n) \<in> {(''empty'', ''notEmpty''), (''equals'', ''notEquals''), (''contains'', ''notContains''),
    (''startsWith'', ''notStartsWith''), (''endsWith'', ''notEndsWith''), (''regex'', ''notRegex'')}"
  shows "verdict (string_operation R n l r) = negated (verdict (string_operation R p l r))"
  using assms by (elim insertE emptyE) (simp_all add: string_operation_def)

lemma object_negation:
  "verdict (object_operation R ''notEmpty'' l) = negated (verdict (object_operation R ''empty'' l))"
  by (simp add: object_operation_def)

lemma array_negation:
  assumes "(p, n) \<in> {(''empty'', ''notEmpty''), (''contains'', ''notContains''), (''lengthEquals'', ''lengthNotEquals'')}"
  shows "verdict (array_operation R n ic l r) = negated (verdict (array_operation R p ic l r))"
  using assms by (elim insertE emptyE) (simp_all add: array_operation_def Let_def)

lemma boolean_negation:
  assumes "(p, n) \<in> {(''empty'', ''notEmpty''), (''equals'', ''notEquals''), (''true'', ''false'')}"
  shows "verdict (boolean_operation R n ic ex l r) = negated (verdict (boolean_operation R p ic ex l r))"
  using assms by (elim insertE emptyE) (simp_all add: boolean_operation_def)

lemma dateTime_negation:
  "verdict (dateTime_operation R ''notEmpty'' ic ex l r) = negated (verdict (dateTime_operation R ''empty'' ic ex l r))"
  by (simp add: dateTime_operation_def)

lemma number_negation:
  assumes "(p, n) \<in> {(''empty'', ''notEmpty''), (''equals'', ''notEquals'')}"
  shows "verdict (number_operation R n ic ex l r) = negated (verdict (number_operation R p ic ex l r))"
  using assms by (elim insertE emptyE) (simp_all add: number_operation_def)

lemma execute_text:
  assumes "p \<noteq> ''exists''" "p \<noteq> ''notExists''" "fo_operation operator = p" "fo_type operator = ''string''"
  shows "execute_operation R operator ic l r =
    (case or_empty_text (if ic then lower_text l else l) of
       VStr s \<Rightarrow> string_operation R p s
         (or_empty_text (if ic \<and> \<not> (p = ''regex'' \<or> p = ''notRegex'') then lower_text r else r))
     | _ \<Rightarrow> Inl NotAFunction)"
  unfolding execute_operation_def Let_def by (simp only: assms if_True if_False simp_thms)

text \<open>The operators of each other type that \<open>execute_operation\<close> hands over.\<close>

lemma execute_by_type:
  assumes "fo_operation operator \<noteq> ''exists''" "fo_operation operator \<noteq> ''notExists''"
  shows
    "fo_type operator = ''number'' \<Longrightarrow> execute_operation R operator ic l r =
       number_operation R (fo_operation operator) ic (value_exists l) l r"
    "fo_type operator = ''dateTime'' \<Longrightarrow> execute_operation R operator ic l r =
       dateTime_operation R (fo_operation operator) ic (value_exists l) l r"
    "fo_type operator = ''boolean'' \<Longrightarrow> execute_operation R operator ic l r =
       boolean_operation R (fo_operation operator) ic (value_exists l) l r"
    "fo_type operator = ''array'' \<Longrightarrow> execute_operation R operator ic l r =
       array_operation R (fo_operation operator) ic l r"
    "fo_type operator = ''object'' \<Longrightarrow> execute_operation R operator ic l r =
       object_operation R (fo_operation operator) l"
    "fo_type operator = ''any'' \<Longrightarrow> execute_operation R operator ic l r = answered False"
  using assms unfolding execute_operation_def Let_def by simp_all

lemma execute_exists:
  "fo_operation operator = ''exists'' \<Longrightarrow> execute_operation R operator ic l r = answered (value_exists l)"
  "fo_operation operator = ''notExists'' \<Longrightarrow> execute_operation R operator ic l r = answered (\<not> value_exists l)"
  by (simp_all add: execute_operation_def Let_def)

lemma base_negation:
  assumes "(p, n) \<in> set (negations (fo_type op))"
  shows "verdict (execute_operation R (op \<lparr> fo_operation := n \<rparr>) ic l r) =
         negated (verdict (execute_operation R (op \<lparr> fo_operation := p \<rparr>) ic l r))"
proof (cases "p = ''exists''")
  case True
  with assms have "n = ''notExists''"
    unfolding negations_def by (auto split: if_splits)
  with True show ?thesis by (simp add: execute_exists)
next
  case False
  let ?pairs = "set (tl (negations (fo_type op)))"
  have pn: "(p, n) \<in> ?pairs" using assms False by (auto simp: negations_def)
  have "?pairs \<subseteq> {(''empty'', ''notEmpty''), (''equals'', ''notEquals''), (''contains'', ''notContains''),
    (''startsWith'', ''notStartsWith''), (''endsWith'', ''notEndsWith''), (''regex'', ''notRegex''),
    (''true'', ''false''), (''lengthEquals'', ''lengthNotEquals'')}"
    by (simp add: negations_def subset_iff)
  with pn have ops: "p \<noteq> ''exists''" "p \<noteq> ''notExists''" "n \<noteq> ''exists''" "n \<noteq> ''notExists''"
    "p = ''regex'' \<longleftrightarrow> n = ''notRegex''" "p \<noteq> ''notRegex''" "n \<noteq> ''regex''"
    by auto
  consider "fo_type op = ''string''" | "fo_type op = ''number''" | "fo_type op = ''dateTime''"
    | "fo_type op = ''boolean''" | "fo_type op = ''array''" | "fo_type op = ''object''"
    using pn by (auto simp: negations_def split: if_splits)
  then show ?thesis
  proof cases
    case 1
    with pn have "(p, n) \<in> {(''empty'', ''notEmpty''), (''equals'', ''notEquals''), (''contains'', ''notContains''),
      (''startsWith'', ''notStartsWith''), (''endsWith'', ''notEndsWith''), (''regex'', ''notRegex'')}"
      by (simp add: negations_def)
    note neg = string_negation [OF this]
    have q: "(n = ''regex'' \<or> n = ''notRegex'') = (p = ''regex'' \<or> p = ''notRegex'')"
      using ops(5-7) by blast
    have f: "fo_operation (op \<lparr> fo_operation := x \<rparr>) = x" "fo_type (op \<lparr> fo_operation := x \<rparr>) = ''string''" for x
      using 1 by simp_all
    show ?thesis
      unfolding execute_text [OF ops(3,4) f] execute_text [OF ops(1,2) f] q
      by (cases "or_empty_text (if ic then lower_text l else l)") (simp_all only: val.case neg verdict_simps negated_simps)
  next
    case 2
    with pn number_negation [of p n] ops show ?thesis by (auto simp: execute_by_type negations_def)
  next
    case 3
    with pn dateTime_negation ops show ?thesis by (auto simp: execute_by_type negations_def)
  next
    case 4
    with pn boolean_negation [of p n] ops show ?thesis by (auto simp: execute_by_type negations_def)
  next
    case 5
    with pn array_negation [of p n] ops show ?thesis by (auto simp: execute_by_type negations_def)
  next
    case 6
    with pn object_negation ops show ?thesis by (auto simp: execute_by_type negations_def)
  qed
qed

lemma operation_negation:
  assumes "negation_of (fo_type op) (fo_operation op) = Some n"
  shows "verdict (execute_operation R (op \<lparr> fo_operation := n \<rparr>) ic l r) =
         negated (verdict (execute_operation R op ic l r))"
proof -
  have same: "op \<lparr> fo_operation := fo_operation op \<rparr> = op" by simp
  from negation_of_cases [OF assms] show ?thesis
  proof
    assume "(fo_operation op, n) \<in> set (negations (fo_type op))"
    from base_negation [OF this, of R ic l r] show ?thesis by simp
  next
    assume "(n, fo_operation op) \<in> set (negations (fo_type op))"
    from base_negation [OF this, of R ic l r] show ?thesis by simp
  qed
qed

text \<open>A condition with a negated operator has the opposite verdict, or throws the same error.\<close>

lemma condition_negation:
  assumes "negated_condition c = Some c'"
  shows "verdict (executeFilterCondition R c' options metadata) =
         negated (verdict (executeFilterCondition R c options metadata))"
proof -
  from assms obtain n where n: "negation_of (fo_type (fc_operator c)) (fo_operation (fc_operator c)) = Some n"
      "c' = with_operation c n"
    by (auto simp: negated_condition_def)
  have "fc_operator c' = (fc_operator c) \<lparr> fo_operation := n \<rparr>" by (simp add: n(2) with_operation_def)
  with operation_negation [OF n(1)] show ?thesis
    by (cases "parseFilterConditionValues R c options metadata")
       (auto simp: executeFilterCondition_def n(2) parse_ignores_operation)
qed

section \<open>De Morgan's laws\<close>

text \<open>
  What the combinators rely on: conditions that can be negated. \<open>every\<close> over the negated conditions is then the
  negation of \<open>some\<close>, and the other way round.
\<close>

locale negatable_conditions =
  fixes test :: "nat \<Rightarrow> 'c \<Rightarrow> filter_error + val"
    and neg :: "'c \<Rightarrow> 'c option"
  assumes test_neg: "neg c = Some d \<Longrightarrow> verdict (test i d) = negated (verdict (test i c))"
begin

lemma de_morgan:
  assumes "list_all2 (\<lambda>c d. neg c = Some d) cs ds"
  shows "every_condition test i ds = negated (some_condition test i cs) \<and>
         some_condition test i ds = negated (every_condition test i cs)"
  using assms
proof (induction cs ds arbitrary: i rule: list_all2_induct)
  case Nil
  then show ?case by simp
next
  case (Cons c cs d ds)
  have "verdict (test i d) = negated (verdict (test i c))" by (rule test_neg [OF Cons.hyps(1)])
  then show ?case using Cons.IH [of "Suc i"] by (cases "test i c"; cases "test i d") auto
qed

end

interpretation fc: negatable_conditions
  "\<lambda>i c. executeFilterCondition R c options (condition_metadata itemIndex i)" negated_condition
  for R options itemIndex
  by unfold_locales (rule condition_negation)

definition other_combinator :: "string \<Rightarrow> string" where
  "other_combinator c = (if c = ''and'' then ''or'' else if c = ''or'' then ''and'' else c)"

definition negated_filter :: "FilterValue \<Rightarrow> FilterValue option" where
  "negated_filter v =
     (let cs = map negated_condition (fv_conditions v) in
      if None \<in> set cs \<or> fv_combinator v \<notin> {''and'', ''or''} then None
      else Some (v \<lparr> fv_conditions := map the cs, fv_combinator := other_combinator (fv_combinator v) \<rparr>))"

lemma filter_negation:
  assumes "negated_filter v = Some w"
  shows "executeFilter R w itemIndex = negated (executeFilter R v itemIndex)"
proof -
  from assms have comb: "fv_combinator v \<in> {''and'', ''or''}"
    and none: "None \<notin> set (map negated_condition (fv_conditions v))"
    and w: "w = v \<lparr> fv_conditions := map (the \<circ> negated_condition) (fv_conditions v),
                    fv_combinator := other_combinator (fv_combinator v) \<rparr>"
    by (auto simp: negated_filter_def Let_def split: if_splits)
  have "list_all2 (\<lambda>c d. negated_condition c = Some d) (fv_conditions v)
          (map (the \<circ> negated_condition) (fv_conditions v))"
    unfolding list.rel_map
  proof (rule list.rel_refl_strong)
    fix c assume "c \<in> set (fv_conditions v)"
    with none show "negated_condition c = Some ((the \<circ> negated_condition) c)"
      by (cases "negated_condition c") force+
  qed
  from fc.de_morgan [OF this] comb show ?thesis
    by (auto simp: w executeFilter_def other_combinator_def Let_def)
qed

text \<open>C23: let every operator of a filter have a complement: every operator with a twin that starts with \<open>not\<close> has one
  (\<open>exists\<close>, \<open>empty\<close>, \<open>equals\<close>, \<open>contains\<close>, \<open>startsWith\<close>, \<open>endsWith\<close>, \<open>regex\<close>, \<open>lengthEquals\<close>), and \<open>true\<close> and \<open>false\<close>;
  only \<open>equals\<close> of dates has none, since a missing date is neither equal nor not equal. Replacing each by its
  complement and exchanging the combinator negates the filter: it passes exactly the items the filter
  does not pass, and throws the same error when the filter throws. The orders (\<open>gt\<close>, \<open>after\<close>, ...) have no complement.
\<close>

theorem filter_de_morgan:
  "case negated_filter v of
     None \<Rightarrow> True
   | Some w \<Rightarrow> executeFilter R w itemIndex = negated (executeFilter R v itemIndex)"
  by (auto simp: filter_negation split: option.splits)

section \<open>Known operators\<close>

definition operations_of :: "string \<Rightarrow> string list" where
  "operations_of type =
     [''exists'', ''notExists''] @
     (if type = ''string'' then [''empty'', ''notEmpty'', ''equals'', ''notEquals'', ''contains'', ''notContains'',
        ''startsWith'', ''notStartsWith'', ''endsWith'', ''notEndsWith'', ''regex'', ''notRegex'']
      else if type = ''number'' then [''empty'', ''notEmpty'', ''equals'', ''notEquals'', ''gt'', ''lt'', ''gte'', ''lte'']
      else if type = ''dateTime'' then [''empty'', ''notEmpty'', ''equals'', ''notEquals'', ''after'', ''before'',
        ''afterOrEquals'', ''beforeOrEquals'']
      else if type = ''boolean'' then [''empty'', ''notEmpty'', ''true'', ''false'', ''equals'', ''notEquals'']
      else if type = ''array'' then [''contains'', ''notContains'', ''lengthEquals'', ''lengthNotEquals'',
        ''lengthGt'', ''lengthLt'', ''lengthGte'', ''lengthLte'', ''empty'', ''notEmpty'']
      else if type = ''object'' then [''empty'', ''notEmpty''] else [])"

text \<open>The operators without a complement are the orders and the equality of dates.\<close>

lemma operators_without_complement:
  "map (\<lambda>type. filter (\<lambda>operation. negation_of type operation = None) (operations_of type))
     [''string'', ''number'', ''dateTime'', ''boolean'', ''array'', ''object''] =
   [[], [''gt'', ''lt'', ''gte'', ''lte''],
    [''equals'', ''notEquals'', ''after'', ''before'', ''afterOrEquals'', ''beforeOrEquals''], [],
    [''lengthGt'', ''lengthLt'', ''lengthGte'', ''lengthLte''], []]"
  by code_simp

text \<open>The operator is one of its type, and the right value of dates and expressions is of that type.\<close>

definition known_operator :: "FilterOperatorValue \<Rightarrow> bool" where
  "known_operator op =
     (fo_operation op \<in> set (operations_of (fo_type op)) \<and>
      (fo_type op \<in> {''dateTime'', ''string''} \<longrightarrow> case_option (fo_type op) id (fo_rightType op) = fo_type op))"

definition has_filter_type :: "string \<Rightarrow> val \<Rightarrow> bool" where
  "has_filter_type type v =
     (nullish v \<or>
      (type = ''string'' \<and> (\<exists>s. v = VStr s)) \<or> (type = ''number'' \<and> (\<exists>n. v = VNum n)) \<or>
      (type = ''boolean'' \<and> (\<exists>b. v = VBool b)) \<or> (type = ''dateTime'' \<and> (\<exists>a t. v = VDateTime a (Some t))) \<or>
      (type = ''array'' \<and> is_array v) \<or> (type = ''object'' \<and> js_typeof v = ''object'' \<and> \<not> is_array v) \<or>
      type \<notin> {''string'', ''number'', ''boolean'', ''dateTime'', ''array'', ''object''})"

lemma lower_types:
  "to_lower ''string'' = ''string''" "to_lower ''number'' = ''number''" "to_lower ''boolean'' = ''boolean''"
  "to_lower ''dateTime'' = ''datetime''" "to_lower ''array'' = ''array''" "to_lower ''object'' = ''object''"
  by code_simp+

lemma validated_filter_type:
  assumes "validateFieldType R f v type opts = Valid w" "parseStrings opts \<or> type \<noteq> ''string''"
  shows "has_filter_type type w"
proof (cases "nullish v")
  case True
  with assms show ?thesis by (auto simp: validate_nullish has_filter_type_def nullish_def)
next
  case False
  note as = validated_as [OF assms(1) False]
  consider (s) "type = ''string''" | (n) "type = ''number''" | (b) "type = ''boolean''"
    | (d) "type = ''dateTime''" | (a) "type = ''array''" | (ob) "type = ''object''"
    | (x) "type \<notin> {''string'', ''number'', ''boolean'', ''dateTime'', ''array'', ''object''}"
    by (simp only: insert_iff empty_iff) argo
  then show ?thesis
  proof cases
    case s
    with as(1) assms(2) show ?thesis by (auto simp: lower_types has_filter_type_def)
  next
    case n
    with as(3) show ?thesis by (auto simp: lower_types has_filter_type_def parsed_number)
  next
    case b
    with as(4) show ?thesis by (auto simp: lower_types has_filter_type_def dest!: parsed_boolean)
  next
    case d
    with as(5) show ?thesis by (auto simp: lower_types has_filter_type_def dest!: parsed_datetime)
  next
    case a
    with as(8) show ?thesis by (auto simp: lower_types has_filter_type_def dest!: parsed_array)
  next
    case ob
    with as(7) show ?thesis by (auto simp: lower_types has_filter_type_def dest!: parsed_object)
  next
    case x
    then show ?thesis by (simp only: has_filter_type_def simp_thms)
  qed
qed

lemma parsed_single_type:
  assumes "parseSingleFilterValue R v type st ver = Valid w"
  shows "has_filter_type type w"
proof -
  note def = assms [unfolded parseSingleFilterValue_def]
  show ?thesis
  proof (cases "type = ''any'' \<or> nullish v")
    case True
    with def have "w = v" by (simp only: if_True ValidationResult.inject)
    with True show ?thesis by (elim disjE) (simp_all add: has_filter_type_def)
  next
    case one: False
    note def1 = def [unfolded if_not_P [OF one]]
    show ?thesis
    proof (cases "type = ''boolean'' \<and> \<not> st")
      case True
      note def2 = def1 [unfolded if_P [OF True]]
      show ?thesis
      proof (cases "2 \<le> ver \<and> is_valid (validateFieldType R ''filter'' v type no_options)")
        case True
        then have "validateFieldType R ''filter'' v type no_options = Valid w"
          using def2 by (auto simp: is_valid_def split: ValidationResult.splits)
        from validated_filter_type [OF this] \<open>type = ''boolean'' \<and> \<not> st\<close> show ?thesis by simp
      next
        case False
        then have "w = VBool (val_truthy v)"
          using def2 by (auto simp: is_valid_def split: ValidationResult.splits if_splits)
        with True show ?thesis by (simp add: has_filter_type_def)
      qed
    next
      case False
      note def2 = def1 [unfolded if_not_P [OF False]]
      show ?thesis
      proof (cases "type = ''number'' \<and> v = VNum NaN")
        case True
        with def2 have "type = ''number''" "w = VNum NaN" by simp_all
        then show ?thesis by (simp add: has_filter_type_def)
      next
        case False
        from def2 [unfolded if_not_P [OF False]] show ?thesis
          by (rule validated_filter_type) simp
      qed
    qed
  qed
qed

lemma newValue_type: "has_filter_type type (newValue (parseSingleFilterValue R v type st ver))"
  using parsed_single_type [of R v type st ver]
  by (cases "parseSingleFilterValue R v type st ver") (simp_all add: newValue_def has_filter_type_def nullish_def)

lemma if_Inl_iff: "(if c then Inl e else x) = Inr y \<longleftrightarrow> \<not> c \<and> x = Inr y"
  by simp

lemma parsed_values:
  assumes "parseFilterConditionValues R c options metadata = Inr (l, r)"
  defines "st \<equiv> (typeValidation options = ''strict'')"
    and "ver \<equiv> case_option 1 id (filter_version options)"
  shows "l = newValue (parseSingleFilterValue R (fc_leftValue c) (fo_type (fc_operator c)) st ver)"
    and "r = newValue (parseSingleFilterValue R (fc_rightValue c)
              (case_option (fo_type (fc_operator c)) id (fo_rightType (fc_operator c))) st ver)"
    and "is_valid (parseSingleFilterValue R (fc_leftValue c) (fo_type (fc_operator c)) st ver) \<or>
         unresolved metadata (fc_leftValue c)"
    and "is_valid (parseSingleFilterValue R (fc_rightValue c)
           (case_option (fo_type (fc_operator c)) id (fo_rightType (fc_operator c))) st ver) \<or>
         fo_singleValue (fc_operator c) \<or> unresolved metadata (fc_rightValue c)"
  using assms(1) unfolding parseFilterConditionValues_def Let_def st_def [symmetric] ver_def [symmetric]
    if_Inl_iff sum.inject prod.inject not_not
  by (elim conjE; simp only:; fail)+

lemma parsed_values_typed:
  assumes "parseFilterConditionValues R c options metadata = Inr (l, r)"
  shows "has_filter_type (fo_type (fc_operator c)) l"
    and "has_filter_type (case_option (fo_type (fc_operator c)) id (fo_rightType (fc_operator c))) r"
  unfolding parsed_values(1) [OF assms] parsed_values(2) [OF assms] by (rule newValue_type)+

lemma parsed_left_is_text:
  assumes "parseFilterConditionValues R c options metadata = Inr (l, r)" "fo_type (fc_operator c) = ''string''"
  shows "\<exists>s. or_empty_text (if ic then lower_text l else l) = VStr s"
  using parsed_values_typed(1) [OF assms(1)] assms(2)
  by (auto simp: has_filter_type_def or_empty_text_def lower_text_def nullish_def split: val.splits)

lemma has_filter_type_simps:
  "has_filter_type ''string'' v \<longleftrightarrow> nullish v \<or> (\<exists>s. v = VStr s)"
  "has_filter_type ''number'' v \<longleftrightarrow> nullish v \<or> (\<exists>n. v = VNum n)"
  "has_filter_type ''boolean'' v \<longleftrightarrow> nullish v \<or> (\<exists>b. v = VBool b)"
  "has_filter_type ''dateTime'' v \<longleftrightarrow> nullish v \<or> (\<exists>a t. v = VDateTime a (Some t))"
  "has_filter_type ''array'' v \<longleftrightarrow> nullish v \<or> is_array v"
  by (simp_all add: has_filter_type_def)

text \<open>A truth value, or nothing, or an error of the values or of the expression.\<close>

definition truth_answer :: "filter_error + val \<Rightarrow> bool" where
  "truth_answer r = (case r of
     Inl e \<Rightarrow> e \<noteq> NotAFunction
   | Inr v \<Rightarrow> (case v of VBool _ \<Rightarrow> True | _ \<Rightarrow> nullish v))"

lemma answers_simps [simp]:
  "truth_answer (answered b)" "truth_answer (Inr (VBool b))" "truth_answer (Inl e) \<longleftrightarrow> e \<noteq> NotAFunction"
  "truth_answer (map_sum id VBool r) \<longleftrightarrow> r \<noteq> Inl NotAFunction"
  by (cases r; simp add: truth_answer_def answered_def)+

lemma regex_test_text: "regex_test R (VStr p) s \<noteq> Inl NotAFunction"
  by (auto simp: regex_test_def parseRegexPattern_def split: option.splits prod.splits)

lemma negated_error [simp]: "negated r = Inl e \<longleftrightarrow> r = Inl e"
  by (cases r) simp_all

lemma string_answers: "truth_answer (string_operation R operation l (VStr r))"
  by (simp add: string_operation_def regex_test_text)

lemma number_answers:
  assumes "operation \<in> set (operations_of ''number'')" "operation \<noteq> ''exists''" "operation \<noteq> ''notExists''"
  shows "truth_answer (number_operation R operation ic ex l r)"
  using assms by (auto simp: operations_of_def number_operation_def)

lemma dateTime_answers:
  assumes "operation \<in> set (operations_of ''dateTime'')" "operation \<noteq> ''exists''" "operation \<noteq> ''notExists''"
    and "has_filter_type ''dateTime'' l" "has_filter_type ''dateTime'' r"
  shows "truth_answer (dateTime_operation R operation ic ex l r)"
proof (cases "val_truthy l \<and> val_truthy r")
  case True
  with assms(4,5) obtain a t b u where "l = VDateTime a (Some t)" "r = VDateTime b (Some u)"
    by (auto simp: has_filter_type_simps nullish_def val_truthy_def split: val.splits)
  with assms(1-3) show ?thesis
    by (auto simp: operations_of_def dateTime_operation_def compare_dates_def toMillis_def)
next
  case False
  then show ?thesis by (simp add: dateTime_operation_def)
qed

lemma boolean_answers:
  assumes "operation \<in> set (operations_of ''boolean'')" "operation \<noteq> ''exists''" "operation \<noteq> ''notExists''"
    and "has_filter_type ''boolean'' l"
  shows "truth_answer (boolean_operation R operation ic ex l r)"
proof -
  have "truth_answer (Inr l)"
    using assms(4) by (auto simp: has_filter_type_simps truth_answer_def nullish_def split: val.splits)
  with assms(1-3) show ?thesis by (auto simp: operations_of_def boolean_operation_def)
qed

lemma array_answers:
  assumes "operation \<in> set (operations_of ''array'')" "operation \<noteq> ''exists''" "operation \<noteq> ''notExists''"
    and "has_filter_type ''array'' l"
  shows "truth_answer (array_operation R operation ic l r)"
proof -
  have "arrayContainsValue (if nullish l then VArr None [] else l) r ic \<noteq> Inl NotAFunction"
    using assms(4) by (auto simp: has_filter_type_simps arrayContainsValue_def is_array_def split: val.splits)
  with assms(1-3) show ?thesis by (auto simp: operations_of_def array_operation_def Let_def)
qed

lemma object_answers: "truth_answer (object_operation R operation l)"
  by (simp add: object_operation_def)

text \<open>A condition with an operator its type has is answered with a truth value or nothing, or throws the
  error of its values or of its expression; it never calls a method that a value does not have.
\<close>

theorem known_operators_answer:
  assumes "known_operator (fc_operator c)"
  shows "truth_answer (executeFilterCondition R c options metadata)"
proof (cases "parseFilterConditionValues R c options metadata")
  case (Inl e)
  then have "e \<noteq> NotAFunction"
    unfolding parseFilterConditionValues_def Let_def by (simp split: if_splits) blast+
  with Inl show ?thesis by (simp add: executeFilterCondition_def)
next
  case (Inr lr)
  obtain l r where lr: "lr = (l, r)" by (cases lr)
  note typed = parsed_values_typed [OF Inr [unfolded lr]]
  define op where "op = fc_operator c"
  have known: "fo_operation op \<in> set (operations_of (fo_type op))"
    and right: "fo_type op \<in> {''dateTime'', ''string''} \<longrightarrow> case_option (fo_type op) id (fo_rightType op) = fo_type op"
    using assms unfolding known_operator_def op_def by - (erule conjunct1, erule conjunct2)
  note typed = typed [folded op_def]
  have "truth_answer (execute_operation R op ic l r)" for ic
  proof (cases "fo_operation op = ''exists'' \<or> fo_operation op = ''notExists''")
    case True
    then show ?thesis by (auto simp: execute_exists)
  next
    case False
    then have ops: "fo_operation op \<noteq> ''exists''" "fo_operation op \<noteq> ''notExists''" by simp_all
    consider "fo_type op = ''string''" | "fo_type op = ''number''" | "fo_type op = ''dateTime''"
      | "fo_type op = ''boolean''" | "fo_type op = ''array''" | "fo_type op = ''object''"
      using known ops by (auto simp: operations_of_def split: if_splits)
    then show ?thesis
    proof cases
      case 1
      with right have "case_option (fo_type op) id (fo_rightType op) = ''string''" by simp
      with typed 1 have "has_filter_type ''string'' l" "has_filter_type ''string'' r" by simp_all
      then have "\<exists>s. or_empty_text (if b then lower_text l else l) = VStr s"
          "\<exists>s. or_empty_text (if b then lower_text r else r) = VStr s" for b
        by (auto simp: has_filter_type_simps or_empty_text_def lower_text_def nullish_def split: val.splits)
      then obtain s t where s: "or_empty_text (if ic then lower_text l else l) = VStr s"
        and t: "or_empty_text (if ic \<and> \<not> (fo_operation op = ''regex'' \<or> fo_operation op = ''notRegex'')
                          then lower_text r else r) = VStr t"
        by meson
      show ?thesis
        unfolding execute_text [OF ops refl 1] s t val.case by (rule string_answers)
    next
      case 2
      with known ops show ?thesis by (simp only: execute_by_type number_answers not_False_eq_True)
    next
      case 3
      with right have "case_option (fo_type op) id (fo_rightType op) = ''dateTime''" by simp
      with typed 3 known ops show ?thesis by (simp only: execute_by_type dateTime_answers not_False_eq_True)
    next
      case 4
      with typed(1) known ops show ?thesis by (simp only: execute_by_type boolean_answers not_False_eq_True)
    next
      case 5
      with typed(1) known ops show ?thesis by (simp only: execute_by_type array_answers not_False_eq_True)
    next
      case 6
      then show ?thesis by (simp only: execute_by_type [OF ops] object_answers)
    qed
  qed
  with Inr show ?thesis by (simp add: executeFilterCondition_def op_def lr)
qed

text \<open>Dates compared with a number operator: the operator of numbers falls through to the one of dates.\<close>

lemma number_before_throws:
  "execute_operation R \<lparr> fo_type = ''number'', fo_operation = ''before'', fo_rightType = None, fo_singleValue = False \<rparr>
     ic (VNum (Fin 1)) (VNum (Fin 2)) = Inl NotAFunction"
  "execute_operation R \<lparr> fo_type = ''number'', fo_operation = ''true'', fo_rightType = None, fo_singleValue = False \<rparr>
     ic (VNum (Fin 1)) (VNum (Fin 2)) = Inr (VNum (Fin 1))"
  by (simp_all add: execute_operation_def Let_def number_operation_def dateTime_operation_def
      val_truthy_def compare_dates_def toMillis_def boolean_operation_def)

section \<open>Strict conditions\<close>

text \<open>In strict mode a condition on texts, numbers, truth values or lists that does not report an error
  of its values sees the two values of the item as they are, and they are missing or of their types.
\<close>

theorem strict_condition_converts_nothing:
  assumes "parseFilterConditionValues R c options metadata = Inr (l, r)"
    and "typeValidation options = ''strict''" and "\<not> fm_unresolvedExpressions metadata"
    and "\<not> fo_singleValue (fc_operator c)"
    and "fo_type (fc_operator c) \<in> {''string'', ''number'', ''boolean'', ''array''}"
    and "fo_rightType (fc_operator c) = None"
  shows "l = fc_leftValue c \<and> r = fc_rightValue c \<and>
    has_filter_type (fo_type (fc_operator c)) l \<and> has_filter_type (fo_type (fc_operator c)) r"
proof -
  let ?t = "fo_type (fc_operator c)"
  have t: "to_lower ?t = ?t" "?t \<noteq> ''any''" using assms(5) by (auto simp: lower_types)
  have unchanged: "newValue (parseSingleFilterValue R v ?t True ver) = v"
    if "is_valid (parseSingleFilterValue R v ?t True ver)" for v ver
  proof (cases "nullish v \<or> ?t = ''number'' \<and> v = VNum NaN")
    case True
    then show ?thesis by (auto simp: parseSingleFilterValue_def newValue_def)
  next
    case False
    with t(2) that obtain w where w: "validateFieldType R ''filter'' v ?t (no_options \<lparr> strict := True, parseStrings := True \<rparr>) = Valid w"
        "parseSingleFilterValue R v ?t True ver = Valid w"
      by (auto simp: parseSingleFilterValue_def is_valid_def split: ValidationResult.splits)
    with strict_as_is [OF w(1)] assms(5) False t(1) show ?thesis by (simp add: newValue_def)
  qed
  note vals = parsed_values [OF assms(1)]
  have "l = fc_leftValue c" "r = fc_rightValue c"
    using vals unchanged assms(2-6) by (simp_all add: unresolved_def)
  with parsed_values_typed [OF assms(1)] assms(6) show ?thesis by simp
qed

section \<open>Letters without case\<close>

lemma lower_char_idem [simp]: "lower_char (lower_char c) = lower_char c"
proof -
  have "of_char (char_of (n :: nat) :: char) = n mod 256" for n :: nat by simp
  then show ?thesis by (simp add: lower_char_def Let_def)
qed

lemma to_lower_idem [simp]: "to_lower (to_lower s) = to_lower s"
  by (simp add: to_lower_def)

lemma lower_text_idem [simp]: "lower_text (lower_text v) = lower_text v"
  by (simp add: lower_text_def split: val.splits)

lemma arrayContains_lower: "arrayContainsValue arr (lower_text v) True = arrayContainsValue arr v True"
  by (simp add: arrayContainsValue_def lower_text_def split: val.splits)

lemma parse_text:
  assumes "type = ''string'' \<or> type = ''any''"
  shows "parseSingleFilterValue R (VStr s) type st ver = Valid (VStr s)"
  using assms
  by (auto simp: parseSingleFilterValue_def validateFieldType_def nullish_def lower_types no_options_def
      tryToParseString_def js_typeof_def)

definition lower_condition :: "FilterConditionValue \<Rightarrow> FilterConditionValue" where
  "lower_condition c = c \<lparr> fc_leftValue := lower_text (fc_leftValue c), fc_rightValue := lower_text (fc_rightValue c) \<rparr>"

text \<open>A filter that ignores the case of letters gives the same answer on texts in lower case, for every
  operator on texts but the regular expressions.
\<close>

theorem case_is_ignored:
  assumes "\<not> caseSensitive options"
    and "fo_type (fc_operator c) = ''string''" and "fo_rightType (fc_operator c) = None"
    and "fc_leftValue c = VStr s" and "fc_rightValue c = VStr t"
    and "fo_operation (fc_operator c) \<noteq> ''regex'' \<and> fo_operation (fc_operator c) \<noteq> ''notRegex''"
  shows "executeFilterCondition R (lower_condition c) options metadata =
         executeFilterCondition R c options metadata"
proof -
  have p: "parseFilterConditionValues R c options metadata = Inr (VStr s, VStr t)"
    using assms(2-5) by (simp add: parseFilterConditionValues_def parse_text is_valid_def newValue_def Let_def)
  have q: "parseFilterConditionValues R (lower_condition c) options metadata = Inr (VStr (to_lower s), VStr (to_lower t))"
    using assms(2-5)
    by (simp add: parseFilterConditionValues_def parse_text is_valid_def newValue_def Let_def lower_condition_def lower_text_def)
  have e: "value_exists (VStr x)" for x by (simp add: value_exists_def nullish_def)
  show ?thesis
  proof (cases "fo_operation (fc_operator c) = ''exists'' \<or> fo_operation (fc_operator c) = ''notExists''")
    case True
    then show ?thesis
      unfolding executeFilterCondition_def p q by (auto simp: execute_exists e lower_condition_def)
  next
    case False
    then have ops: "fo_operation (fc_operator c) \<noteq> ''exists''" "fo_operation (fc_operator c) \<noteq> ''notExists''"
      by simp_all
    have op: "fc_operator (lower_condition c) = fc_operator c" by (simp add: lower_condition_def)
    show ?thesis
      unfolding executeFilterCondition_def p q sum.case prod.case op execute_text [OF ops refl assms(2)]
      using assms(1,6) by (simp add: lower_text_def or_empty_text_def nullish_def)
  qed
qed

section \<open>The order of numbers\<close>

definition number_test :: "js_runtime \<Rightarrow> bool \<Rightarrow> string \<Rightarrow> js_num \<Rightarrow> js_num \<Rightarrow> bool" where
  "number_test R ic operation m n =
     (verdict (number_operation R operation ic (value_exists (VNum m)) (VNum m) (VNum n)) = Inr True)"

lemma number_tests:
  "number_test R ic ''lt'' m n \<longleftrightarrow> num_less m n = Some True"
  "number_test R ic ''gt'' m n \<longleftrightarrow> num_less n m = Some True"
  "number_test R ic ''lte'' m n \<longleftrightarrow> num_less n m = Some False"
  "number_test R ic ''gte'' m n \<longleftrightarrow> num_less m n = Some False"
  "number_test R ic ''equals'' m n \<longleftrightarrow> m \<noteq> NaN \<and> m = n"
  by (simp_all add: number_test_def number_operation_def val_lt_def val_gt_def val_lte_def val_gte_def
      val_less_def to_primitive_def to_number_def)

lemma num_less_total:
  assumes "m \<noteq> NaN" "n \<noteq> NaN"
  shows "(num_less m n = Some True \<and> m \<noteq> n \<and> num_less n m = Some False) \<or>
         (num_less m n = Some False \<and> m = n \<and> num_less n m = Some False) \<or>
         (num_less m n = Some False \<and> m \<noteq> n \<and> num_less n m = Some True)"
  using assms by (cases m; cases n) (auto simp: num_less_def)

text \<open>For two numbers of which none is \<open>NaN\<close>, exactly one of \<open>lt\<close>, \<open>equals\<close> and \<open>gt\<close> holds, and \<open>lte\<close> and
  \<open>gte\<close> are the complements of \<open>gt\<close> and \<open>lt\<close>; with \<open>NaN\<close> none of the five holds.
\<close>

theorem number_operators_ordered:
  "if m = NaN \<or> n = NaN
   then list_all (\<lambda>operation. \<not> number_test R ic operation m n) [''lt'', ''equals'', ''gt'', ''lte'', ''gte'']
   else length (filter (\<lambda>operation. number_test R ic operation m n) [''lt'', ''equals'', ''gt'']) = 1 \<and>
        number_test R ic ''lte'' m n = (\<not> number_test R ic ''gt'' m n) \<and>
        number_test R ic ''gte'' m n = (\<not> number_test R ic ''lt'' m n)"
proof (cases "m = NaN \<or> n = NaN")
  case True
  then show ?thesis by (auto simp: number_tests num_less_def)
next
  case False
  with num_less_total [of m n] show ?thesis by (auto simp: number_tests)
qed

section \<open>The check in the editor\<close>

text \<open>The check of a filter in the editor never reports an issue, whatever its conditions: the errors of
  the values are returned to it, and it looks for thrown ones.
\<close>

theorem validateFilterParameter_reports_nothing: "validateFilterParameter R name v = Inr []"
proof -
  have "fold_res (\<lambda>issues (index, condition). report_issue (f index) issues (Inr (g index condition))) issues xs = Inr issues"
    for f g issues and xs :: "(nat \<times> FilterConditionValue) list"
    by (induction xs) (auto simp: report_issue_def)
  then show ?thesis by (simp add: validateFilterParameter_def)
qed

section \<open>Examples\<close>

definition sample_options :: FilterOptionsValue where
  "sample_options = \<lparr> caseSensitive = False, typeValidation = ''strict'', filter_version = Some 2 \<rparr>"

definition sample_condition :: "string \<Rightarrow> string \<Rightarrow> val \<Rightarrow> val \<Rightarrow> FilterConditionValue" where
  "sample_condition type operation l r =
     \<lparr> fc_id = [], fc_leftValue = l,
       fc_operator = \<lparr> fo_type = type, fo_operation = operation, fo_rightType = None, fo_singleValue = False \<rparr>,
       fc_rightValue = r \<rparr>"

definition sample_metadata :: FilterConditionMetadata where
  "sample_metadata = condition_metadata (Some 0) 0"

theorem known_operators_answer_witness:
  "known_operator (fc_operator (sample_condition ''number'' ''gt'' (VNum (Fin 3)) (VStr ''2''))) \<and>
   (case executeFilterCondition plain_runtime (sample_condition ''number'' ''gt'' (VNum (Fin 3)) (VStr ''2''))
      sample_options sample_metadata of
    Inl (FilterError m _) \<Rightarrow> m = ''Wrong type: '' @ quoted ''2'' @
      '' is a string but was expecting a number [condition 0, item 0]''
    | _ \<Rightarrow> False) \<and>
   truth_answer (executeFilterCondition plain_runtime (sample_condition ''number'' ''gt'' (VNum (Fin 3)) (VStr ''2''))
      sample_options sample_metadata)"
proof -
  let ?c = "sample_condition ''number'' ''gt'' (VNum (Fin 3)) (VStr ''2'')"
  have k: "known_operator (fc_operator ?c)" by code_simp
  moreover have "case executeFilterCondition plain_runtime ?c sample_options sample_metadata of
    Inl (FilterError m _) \<Rightarrow> m = ''Wrong type: '' @ quoted ''2'' @
      '' is a string but was expecting a number [condition 0, item 0]''
    | _ \<Rightarrow> False" by code_simp
  ultimately show ?thesis using known_operators_answer [OF k] by simp
qed

theorem strict_condition_witness:
  "parseFilterConditionValues plain_runtime (sample_condition ''number'' ''gt'' (VNum (Fin 3)) (VNum (Fin 2)))
     sample_options sample_metadata = Inr (VNum (Fin 3), VNum (Fin 2)) \<and>
   has_filter_type ''number'' (VNum (Fin 3))"
proof -
  let ?c = "sample_condition ''number'' ''gt'' (VNum (Fin 3)) (VNum (Fin 2))"
  have p: "parseFilterConditionValues plain_runtime ?c sample_options sample_metadata = Inr (VNum (Fin 3), VNum (Fin 2))"
    by code_simp
  from strict_condition_converts_nothing [OF p] p show ?thesis
    by (simp add: sample_options_def sample_metadata_def condition_metadata_def sample_condition_def)
qed

theorem case_is_ignored_witness:
  "executeFilterCondition plain_runtime (sample_condition ''string'' ''contains'' (VStr ''aBc'') (VStr ''Bc''))
     sample_options sample_metadata = answered True \<and>
   executeFilterCondition plain_runtime (sample_condition ''string'' ''contains'' (VStr ''abc'') (VStr ''bc''))
     sample_options sample_metadata = answered True"
proof -
  let ?c = "sample_condition ''string'' ''contains'' (VStr ''aBc'') (VStr ''Bc'')"
  have a: "executeFilterCondition plain_runtime ?c sample_options sample_metadata = answered True" by code_simp
  have l: "lower_condition ?c = sample_condition ''string'' ''contains'' (VStr ''abc'') (VStr ''bc'')" by code_simp
  have "\<not> caseSensitive sample_options" by code_simp
  from case_is_ignored [OF this, of ?c "''aBc''" "''Bc''" plain_runtime sample_metadata]
  have "executeFilterCondition plain_runtime (lower_condition ?c) sample_options sample_metadata =
        executeFilterCondition plain_runtime ?c sample_options sample_metadata"
    by (simp add: sample_condition_def)
  with a show ?thesis unfolding l by simp
qed

text \<open>Without regard to case the text is put in lower case and the expression is not.\<close>

lemma upper_case_expression_fails:
  "executeFilterCondition plain_runtime (sample_condition ''string'' ''regex'' (VStr ''A'') (VStr ''A''))
     sample_options sample_metadata = answered False"
  by code_simp

text \<open>A date that is missing is neither equal to a date nor not equal to it.\<close>

lemma missing_date_neither:
  "list_all (\<lambda>operation. executeFilterCondition plain_runtime
     (sample_condition ''dateTime'' operation VNull (VStr ''1970-01-01'')) sample_options sample_metadata =
     answered False) [''equals'', ''notEquals'']"
  by code_simp

end
