(* ===== verification/FlowNodes.thy ===== *)
theory FlowNodes
  imports FilterParameter
begin

text \<open>
  The nodes that route items by conditions: \<open>If\<close>, \<open>Filter\<close> and \<open>Switch\<close> (\<open>packages/nodes-base/nodes\<close>), with the
  errors of nodes (\<open>NodeOperationError\<close> and the descriptive messages of \<open>NodeError\<close>) and the evaluation
  of a filter parameter to a truth value (\<open>extract-value.ts\<close>). What \<open>getNodeParameter\<close> gives for an item, or
  the error it throws, is a function of the item's index; the wording of the runtime's own errors
  is not modelled.
\<close>

section \<open>Errors of nodes\<close>

datatype error_class = NodeOperationErrorClass | ApplicationErrorClass | OtherErrorClass

record node_error =
  ne_class :: error_class
  ne_message :: string
  ne_messages :: "string list"
  ne_description :: "string option"
  ne_itemIndex :: "nat option"
  ne_node :: "string option"

definition plain_error :: "error_class \<Rightarrow> string \<Rightarrow> string option \<Rightarrow> node_error" where
  "plain_error c m d = \<lparr> ne_class = c, ne_message = m, ne_messages = [], ne_description = d,
     ne_itemIndex = None, ne_node = None \<rparr>"

text \<open>Calling a method of \<open>undefined\<close>.\<close>

definition undefined_error :: node_error where
  "undefined_error = plain_error OtherErrorClass ''TypeError'' None"

definition COMMON_ERRORS :: "(string \<times> string) list" where
  "COMMON_ERRORS =
   [(''ECONNREFUSED'', ''The service refused the connection - perhaps it is offline''),
    (''ECONNRESET'', ''The connection to the server was closed unexpectedly, perhaps it is offline. You can retry the request immediately or wait and retry later.''),
    (''ENOTFOUND'', ''The connection cannot be established, this usually occurs due to an incorrect host (domain) value''),
    (''ETIMEDOUT'', ''The connection timed out, consider setting the '' @ quoted ''Retry on Fail'' @ '' option in the node settings''),
    (''ERRADDRINUSE'', ''The port is already occupied by some other application, if possible change the port or kill the application that is using it''),
    (''EADDRNOTAVAIL'', ''The address is not available, ensure that you have the right IP address''),
    (''ECONNABORTED'', ''The connection was aborted, perhaps the server is offline''),
    (''EHOSTUNREACH'', ''The host is unreachable, perhaps the server is offline''),
    (''EAI_AGAIN'', ''The DNS server returned an error, perhaps the server is offline''),
    (''ENOENT'', ''The file or directory does not exist''),
    (''EISDIR'', ''The file path was expected but the given path is a directory''),
    (''ENOTDIR'', ''The directory path was expected but the given path is a file''),
    (''EACCES'', ''Forbidden by access permissions, make sure you have the right permissions''),
    (''EEXIST'', ''The file or directory already exists''),
    (''EPERM'', ''Operation not permitted, make sure you have the right permissions''),
    (''GETADDRINFO'', ''The server closed the connection unexpectedly'')]"

text \<open>\<open>toUpperCase()\<close> as far as the codes can contain its result.\<close>

definition upper_char :: "char \<Rightarrow> string" where
  "upper_char c = (let n = of_char c :: nat in
     if 97 \<le> n \<and> n \<le> 122 \<or> 224 \<le> n \<and> n \<le> 254 \<and> n \<noteq> 247 then [char_of (n - 32)]
     else if n = 223 then ''SS'' else [c])"

definition to_upper :: "string \<Rightarrow> string" where
  "to_upper s = concat (map upper_char s)"

definition setDescriptiveErrorMessage :: "string \<Rightarrow> string list \<Rightarrow> string \<times> string list" where
  "setDescriptiveErrorMessage message messages =
     (case find (\<lambda>(code, _). str_includes (to_upper message) (to_upper code)) COMMON_ERRORS of
        Some (_, text) \<Rightarrow> (text, messages @ [message])
      | None \<Rightarrow> (message, messages))"

text \<open>\<open>new NodeOperationError(node, error, { itemIndex, description })\<close>.\<close>

definition addToMessages :: "string list \<Rightarrow> string \<Rightarrow> string list" where
  "addToMessages messages m = (if m \<noteq> [] \<and> m \<notin> set messages then messages @ [m] else messages)"

definition newNodeOperationError :: "string \<Rightarrow> node_error \<Rightarrow> nat option \<Rightarrow> string option \<Rightarrow> node_error" where
  "newNodeOperationError node err itemIndex description =
     (if ne_class err = NodeOperationErrorClass then err
      else case setDescriptiveErrorMessage (ne_message err) (foldl addToMessages [] (ne_messages err)) of
        (message, messages) \<Rightarrow>
          \<lparr> ne_class = NodeOperationErrorClass, ne_message = message, ne_messages = messages,
            ne_description = (if description = Some (ne_message err) then None else description),
            ne_itemIndex = itemIndex, ne_node = Some node \<rparr>)"

section \<open>The value of a filter parameter\<close>

definition thrown_by :: "filter_error \<Rightarrow> node_error" where
  "thrown_by e = (case e of
     FilterError m d \<Rightarrow> plain_error ApplicationErrorClass m (Some d)
   | NotAFunction \<Rightarrow> undefined_error
   | InvalidRegex \<Rightarrow> plain_error OtherErrorClass ''SyntaxError'' None)"

definition extractValueFilter :: "js_runtime \<Rightarrow> string \<Rightarrow> FilterValue \<Rightarrow> nat \<Rightarrow> node_error + val" where
  "extractValueFilter R node value itemIndex =
     (case executeFilter R value (Some itemIndex) of
        Inr b \<Rightarrow> Inr (VBool b)
      | Inl e \<Rightarrow> Inl (newNodeOperationError node (thrown_by e) None (ne_description (thrown_by e))))"

section \<open>If and Filter\<close>

record flow_context =
  fl_node :: string
  fl_typeVersion :: rat
  fl_continueOnFail :: bool
  fl_options :: "nat \<Rightarrow> node_error + bool"
  fl_conditions :: "nat \<Rightarrow> node_error + val"
  fl_looseTypeValidation :: "nat \<Rightarrow> node_error + bool"

definition getTypeValidationParameter ::
  "rat \<Rightarrow> rat \<Rightarrow> (nat \<Rightarrow> node_error + bool) \<Rightarrow> nat \<Rightarrow> bool \<Rightarrow> node_error + bool" where
  "getTypeValidationParameter version typeVersion looseTypeValidation itemIndex opt =
     (if typeVersion < version then Inr opt else looseTypeValidation itemIndex)"

definition ENABLE_LESS_STRICT_TYPE_VALIDATION :: string where
  "ENABLE_LESS_STRICT_TYPE_VALIDATION =
     ''Try changing the type of comparison. Alternatively you can enable '' @
     quoted ''Convert types where required'' @ ''.''"

text \<open>The handler around the evaluation of conditions; reading the setting may throw as well.\<close>

definition explain_error :: "string \<Rightarrow> nat \<Rightarrow> node_error + bool \<Rightarrow> node_error \<Rightarrow> node_error" where
  "explain_error node itemIndex loose err = (case loose of
     Inl e \<Rightarrow> e
   | Inr l \<Rightarrow>
       (if \<not> l \<and> (ne_description err = None \<or> ne_description err = Some [])
        then err \<lparr> ne_description := Some ENABLE_LESS_STRICT_TYPE_VALIDATION \<rparr> else err)
       \<lparr> ne_itemIndex := Some itemIndex, ne_node := Some node \<rparr>)"

text \<open>What is thrown from the handler of an item.\<close>

definition rethrow :: "string \<Rightarrow> nat \<Rightarrow> node_error \<Rightarrow> node_error" where
  "rethrow node itemIndex err =
     (if ne_class err = NodeOperationErrorClass then err
      else if ne_class err = ApplicationErrorClass then err \<lparr> ne_itemIndex := Some itemIndex \<rparr>
      else newNodeOperationError node err (Some itemIndex) None)"

definition evaluate_conditions :: "rat \<Rightarrow> flow_context \<Rightarrow> nat \<Rightarrow> node_error + bool" where
  "evaluate_conditions version ctx itemIndex =
     (case fl_options ctx itemIndex of
        Inl e \<Rightarrow> Inl e
      | Inr loose \<Rightarrow>
          (case fl_conditions ctx itemIndex of
             Inr pass \<Rightarrow> Inr (val_truthy pass)
           | Inl e \<Rightarrow> Inl (explain_error (fl_node ctx) itemIndex
               (getTypeValidationParameter version (fl_typeVersion ctx) (fl_looseTypeValidation ctx) itemIndex loose) e)))"

definition paired_with :: "nat \<Rightarrow> INodeExecutionData \<Rightarrow> INodeExecutionData" where
  "paired_with itemIndex item =
     item \<lparr> item_pairedItem := Some (JObj [(''item'', JNum (of_nat itemIndex))]) \<rparr>"

definition pair_if_missing :: "nat \<Rightarrow> INodeExecutionData \<Rightarrow> INodeExecutionData" where
  "pair_if_missing itemIndex item = (if item_pairedItem item = None then paired_with itemIndex item else item)"

text \<open>One call of the function given to \<open>forEach\<close>, on the two lists of items.\<close>

type_synonym branches = "INodeExecutionData list \<times> INodeExecutionData list"

definition if_item :: "flow_context \<Rightarrow> branches \<Rightarrow> nat \<times> INodeExecutionData \<Rightarrow> node_error + branches" where
  "if_item ctx = (\<lambda>(trueItems, falseItems) (itemIndex, item).
     case evaluate_conditions (21/10) ctx itemIndex of
       Inr True \<Rightarrow> Inr (trueItems @ [pair_if_missing itemIndex item], falseItems)
     | Inr False \<Rightarrow> Inr (trueItems, falseItems @ [pair_if_missing itemIndex item])
     | Inl e \<Rightarrow> if fl_continueOnFail ctx then Inr (trueItems, falseItems @ [item])
                else Inl (rethrow (fl_node ctx) itemIndex e))"

definition filter_item :: "flow_context \<Rightarrow> branches \<Rightarrow> nat \<times> INodeExecutionData \<Rightarrow> node_error + branches" where
  "filter_item ctx = (\<lambda>(keptItems, discardedItems) (itemIndex, item).
     case evaluate_conditions (21/10) ctx itemIndex of
       Inr True \<Rightarrow> Inr (keptItems @ [pair_if_missing itemIndex item], discardedItems)
     | Inr False \<Rightarrow> Inr (keptItems, discardedItems @ [pair_if_missing itemIndex item])
     | Inl e \<Rightarrow> if fl_continueOnFail ctx then Inr (keptItems, discardedItems @ [item])
                else Inl (rethrow (fl_node ctx) itemIndex e))"

fun for_each :: "('s \<Rightarrow> 'a \<Rightarrow> 'e + 's) \<Rightarrow> 's \<Rightarrow> 'a list \<Rightarrow> 'e + 's" where
  "for_each f s [] = Inr s"
| "for_each f s (x # xs) = (case f s x of Inl e \<Rightarrow> Inl e | Inr t \<Rightarrow> for_each f t xs)"

definition IfV2_execute :: "flow_context \<Rightarrow> INodeExecutionData list \<Rightarrow> node_error + INodeExecutionData list list" where
  "IfV2_execute ctx items =
     map_sum id (\<lambda>(trueItems, falseItems). [trueItems, falseItems])
       (for_each (if_item ctx) ([], []) (enumerate 0 items))"

definition FilterV2_execute :: "flow_context \<Rightarrow> INodeExecutionData list \<Rightarrow> node_error + INodeExecutionData list list" where
  "FilterV2_execute ctx items =
     map_sum id (\<lambda>(keptItems, discardedItems). [keptItems, discardedItems])
       (for_each (filter_item ctx) ([], []) (enumerate 0 items))"

section \<open>Switch\<close>

record switch_rule =
  rule_output :: val
  rule_conditions :: "node_error + val"

record switch_options =
  so_fallbackOutput :: val
  so_allMatchingOutputs :: bool
  so_looseTypeValidation :: bool

record switch_context =
  sw_runtime :: js_runtime
  sw_node :: string
  sw_typeVersion :: rat
  sw_continueOnFail :: bool
  sw_mode :: string
  sw_numberOutputs :: "nat \<Rightarrow> node_error + nat"
  sw_output :: "nat \<Rightarrow> node_error + val"
  sw_rules :: "nat \<Rightarrow> node_error + switch_rule list"
  sw_options :: "nat \<Rightarrow> node_error + switch_options"
  sw_loose :: "nat \<Rightarrow> node_error + bool"

type_synonym outputs = "INodeExecutionData list list"

text \<open>\<open>Number(index) === length\<close>, then \<open>index < 0 || index > length\<close>.\<close>

definition checkIndexRange :: "switch_context \<Rightarrow> nat \<Rightarrow> val \<Rightarrow> nat \<Rightarrow> node_error option" where
  "checkIndexRange ctx returnDataLength index itemIndex =
     (let R = sw_runtime ctx; len = VNum (Fin (of_nat returnDataLength));
          no = (\<lambda>m d. newNodeOperationError (sw_node ctx) (plain_error ApplicationErrorClass m None) (Some itemIndex) (Some d))
      in if to_number R index = Fin (of_nat returnDataLength)
         then Some (no (''The ouput '' @ to_text R index @ '' is not allowed. '')
           (''Output indexes are zero based, if you want to use the extra output use '' @
            rt_number_text R (of_nat returnDataLength - 1)))
         else if val_lt R index (VNum (Fin 0)) \<or> val_gt R index len
         then Some (no (''The ouput '' @ to_text R index @ '' is not allowed'')
           (''It has to be between 0 and '' @ rt_number_text R (of_nat returnDataLength - 1)))
         else None)"

text \<open>\<open>returnData[index].push(item)\<close>: an index is a number of the list, as a number or its text.\<close>

definition index_of :: "nat \<Rightarrow> val \<Rightarrow> nat option" where
  "index_of len index =
     find (\<lambda>n. index = VNum (Fin (of_nat n)) \<or> index = VStr (nat_str n)) [0..<len]"

definition push_to :: "outputs \<Rightarrow> nat option \<Rightarrow> INodeExecutionData \<Rightarrow> outputs \<times> node_error option" where
  "push_to outs index item = (case index of
     Some n \<Rightarrow> if n < length outs then (outs[n := outs ! n @ [item]], None) else (outs, Some undefined_error)
   | None \<Rightarrow> (outs, Some undefined_error))"

definition check_and_push ::
  "switch_context \<Rightarrow> outputs \<Rightarrow> val \<Rightarrow> nat option \<Rightarrow> nat \<Rightarrow> INodeExecutionData \<Rightarrow> outputs \<times> node_error option" where
  "check_and_push ctx outs checked index itemIndex item =
     (case checkIndexRange ctx (length outs) checked itemIndex of
        Some e \<Rightarrow> (outs, Some e)
      | None \<Rightarrow> push_to outs index item)"

text \<open>The loop over the rules: whether a rule matched, or the error; and whether the item is done.\<close>

datatype rules_end = RulesDone bool | NextItem | RulesThrow node_error

fun switch_rules ::
  "switch_context \<Rightarrow> switch_options \<Rightarrow> nat \<Rightarrow> INodeExecutionData \<Rightarrow> bool \<Rightarrow> outputs \<Rightarrow> (nat \<times> switch_rule) list \<Rightarrow>
   outputs \<times> rules_end" where
  "switch_rules ctx opts itemIndex item matchFound outs [] = (outs, RulesDone matchFound)"
| "switch_rules ctx opts itemIndex item matchFound outs ((ruleIndex, rule) # rules) =
     (case rule_conditions rule of
        Inl e \<Rightarrow> (outs, RulesThrow (explain_error (sw_node ctx) itemIndex
            (getTypeValidationParameter (31/10) (sw_typeVersion ctx) (sw_loose ctx) itemIndex
               (so_looseTypeValidation opts)) e))
      | Inr pass \<Rightarrow>
          if val_truthy pass then
            (case check_and_push ctx outs (rule_output rule) (Some ruleIndex) itemIndex item of
               (outs', Some e) \<Rightarrow> (outs', RulesThrow e)
             | (outs', None) \<Rightarrow>
                 if \<not> so_allMatchingOutputs opts then (outs', NextItem)
                 else switch_rules ctx opts itemIndex item True outs' rules)
          else switch_rules ctx opts itemIndex item matchFound outs rules)"

definition start_outputs :: "nat \<Rightarrow> outputs \<Rightarrow> nat \<Rightarrow> val \<Rightarrow> outputs" where
  "start_outputs itemIndex outs n fallbackOutput =
     (if itemIndex = 0 then replicate n [] @ (if fallbackOutput = VStr ''extra'' then [[]] else []) else outs)"

definition switch_fallback ::
  "switch_context \<Rightarrow> val \<Rightarrow> nat \<Rightarrow> INodeExecutionData \<Rightarrow> outputs \<Rightarrow> outputs \<times> node_error option" where
  "switch_fallback ctx fallbackOutput itemIndex item outs =
     (if fallbackOutput = VUndefined \<or> fallbackOutput = VStr ''none'' then (outs, None)
      else if fallbackOutput = VStr ''extra''
      then push_to outs (if outs = [] then None else Some (length outs - 1)) item
      else check_and_push ctx outs fallbackOutput (index_of (length outs) fallbackOutput) itemIndex item)"

text \<open>The body of the \<open>try\<close> block for one item: the outputs it leaves and what it throws.\<close>

definition switch_try :: "switch_context \<Rightarrow> outputs \<Rightarrow> nat \<Rightarrow> INodeExecutionData \<Rightarrow> outputs \<times> node_error option" where
  "switch_try ctx outs itemIndex item =
     (if sw_mode ctx = ''expression'' then
        (case sw_numberOutputs ctx itemIndex of
           Inl e \<Rightarrow> (outs, Some e)
         | Inr n \<Rightarrow>
             (let outs' = start_outputs itemIndex outs n VUndefined in
              case sw_output ctx itemIndex of
                Inl e \<Rightarrow> (outs', Some e)
              | Inr index \<Rightarrow> check_and_push ctx outs' index (index_of (length outs') index) itemIndex item))
      else if sw_mode ctx = ''rules'' then
        (case sw_rules ctx itemIndex of
           Inl e \<Rightarrow> (outs, Some e)
         | Inr rules \<Rightarrow>
             if rules = [] then (outs, None)
             else (case sw_options ctx itemIndex of
                Inl e \<Rightarrow> (outs, Some e)
              | Inr opts \<Rightarrow>
                  (case switch_rules ctx opts itemIndex item False
                          (start_outputs itemIndex outs (length rules) (so_fallbackOutput opts))
                          (enumerate 0 rules) of
                     (outs', RulesThrow e) \<Rightarrow> (outs', Some e)
                   | (outs', NextItem) \<Rightarrow> (outs', None)
                   | (outs', RulesDone True) \<Rightarrow> (outs', None)
                   | (outs', RulesDone False) \<Rightarrow>
                       switch_fallback ctx (so_fallbackOutput opts) itemIndex item outs')))
      else (outs, None))"

definition error_output_item :: "string \<Rightarrow> INodeExecutionData" where
  "error_output_item m = empty_item \<lparr> item_json := JObj [(''error'', JStr m)] \<rparr>"

definition switch_item :: "switch_context \<Rightarrow> outputs \<Rightarrow> nat \<times> INodeExecutionData \<Rightarrow> node_error + outputs" where
  "switch_item ctx outs = (\<lambda>(itemIndex, item).
     case switch_try ctx outs itemIndex (paired_with itemIndex item) of
       (outs', None) \<Rightarrow> Inr outs'
     | (outs', Some e) \<Rightarrow>
         if sw_continueOnFail ctx
         then (case push_to outs' (Some 0) (error_output_item (ne_message e)) of
                 (outs'', None) \<Rightarrow> Inr outs''
               | (_, Some e') \<Rightarrow> Inl e')
         else Inl (rethrow (sw_node ctx) itemIndex e))"

definition SwitchV3_execute :: "switch_context \<Rightarrow> INodeExecutionData list \<Rightarrow> node_error + outputs" where
  "SwitchV3_execute ctx items =
     map_sum id (\<lambda>outs. if outs = [] then [[]] else outs)
       (for_each (switch_item ctx) [] (enumerate 0 items))"

end
