(* ===== verification/FlowFacts.thy ===== *)
theory FlowFacts
  imports FilterFacts FlowNodes
begin

text \<open>
  Where the routing nodes send items: \<open>If\<close> and \<open>Filter\<close> split their input in order by the verdict of the
  conditions, an item whose conditions throw goes to the second output or stops the node, and
  negating the filters exchanges the outputs; \<open>Switch\<close> sends an item to the outputs of the rules
  that match it.
\<close>

section \<open>If and Filter\<close>

abbreviation passes :: "flow_context \<Rightarrow> nat \<Rightarrow> node_error + bool" where
  "passes ctx \<equiv> evaluate_conditions (21/10) ctx"

definition true_items :: "flow_context \<Rightarrow> (nat \<times> INodeExecutionData) list \<Rightarrow> INodeExecutionData list" where
  "true_items ctx xs = map (\<lambda>(i, item). pair_if_missing i item) (filter (\<lambda>(i, item). passes ctx i = Inr True) xs)"

definition false_items :: "flow_context \<Rightarrow> (nat \<times> INodeExecutionData) list \<Rightarrow> INodeExecutionData list" where
  "false_items ctx xs =
     map (\<lambda>(i, item). case passes ctx i of Inl e \<Rightarrow> item | Inr b \<Rightarrow> pair_if_missing i item)
       (filter (\<lambda>(i, item). passes ctx i \<noteq> Inr True) xs)"

definition first_error :: "flow_context \<Rightarrow> (nat \<times> INodeExecutionData) list \<Rightarrow> node_error option" where
  "first_error ctx xs =
     (if fl_continueOnFail ctx then None
      else map_option (\<lambda>(i, item). case passes ctx i of Inl e \<Rightarrow> rethrow (fl_node ctx) i e | Inr _ \<Rightarrow> undefined_error)
        (find (\<lambda>(i, item). case passes ctx i of Inl _ \<Rightarrow> True | Inr _ \<Rightarrow> False) xs))"

lemma filter_item_eq: "filter_item = if_item"
  by (simp add: filter_item_def if_item_def fun_eq_iff)

lemma if_item_simps:
  "passes ctx i = Inr True \<Longrightarrow> if_item ctx (ts, fs) (i, item) = Inr (ts @ [pair_if_missing i item], fs)"
  "passes ctx i = Inr False \<Longrightarrow> if_item ctx (ts, fs) (i, item) = Inr (ts, fs @ [pair_if_missing i item])"
  "passes ctx i = Inl e \<Longrightarrow> if_item ctx (ts, fs) (i, item) =
     (if fl_continueOnFail ctx then Inr (ts, fs @ [item]) else Inl (rethrow (fl_node ctx) i e))"
  by (simp_all add: if_item_def)

lemma for_each_if_item:
  "for_each (if_item ctx) (ts, fs) xs =
     (case first_error ctx xs of
        Some e \<Rightarrow> Inl e
      | None \<Rightarrow> Inr (ts @ true_items ctx xs, fs @ false_items ctx xs))"
proof (induction xs arbitrary: ts fs)
  case Nil
  show ?case by (simp add: first_error_def true_items_def false_items_def)
next
  case (Cons x xs)
  obtain i item where x: "x = (i, item)" by (cases x)
  show ?case
  proof (cases "passes ctx i")
    case (Inl e)
    then show ?thesis
      by (cases "fl_continueOnFail ctx")
         (simp_all add: x Cons.IH if_item_simps first_error_def true_items_def false_items_def)
  next
    case (Inr b)
    then show ?thesis
      by (cases b; cases "first_error ctx xs")
         (auto simp: x Cons.IH if_item_simps first_error_def true_items_def false_items_def split: if_splits)
  qed
qed

text \<open>C22: \<open>If\<close> and \<open>Filter\<close> give, in the order of the input, the items whose conditions hold and the items
  whose conditions do not; an item whose conditions throw goes to the second output as it is when
  the node continues on errors, and else the node throws the first such error.
\<close>

theorem if_routes_exactly:
  "IfV2_execute ctx items =
     (case first_error ctx (enumerate 0 items) of
        Some e \<Rightarrow> Inl e
      | None \<Rightarrow> Inr [true_items ctx (enumerate 0 items), false_items ctx (enumerate 0 items)]) \<and>
   FilterV2_execute ctx items = IfV2_execute ctx items"
  by (simp add: IfV2_execute_def FilterV2_execute_def filter_item_eq for_each_if_item split: option.split)

text \<open>The same node with other filters, evaluated by \<open>extractValueFilter\<close>.\<close>

definition with_filters :: "js_runtime \<Rightarrow> (nat \<Rightarrow> FilterValue) \<Rightarrow> flow_context \<Rightarrow> flow_context" where
  "with_filters R filters ctx =
     ctx \<lparr> fl_conditions := (\<lambda>i. extractValueFilter R (fl_node ctx) (filters i) i) \<rparr>"

lemma with_filters_simps [simp]:
  "fl_node (with_filters R f ctx) = fl_node ctx" "fl_options (with_filters R f ctx) = fl_options ctx"
  "fl_typeVersion (with_filters R f ctx) = fl_typeVersion ctx"
  "fl_continueOnFail (with_filters R f ctx) = fl_continueOnFail ctx"
  "fl_looseTypeValidation (with_filters R f ctx) = fl_looseTypeValidation ctx"
  by (simp_all add: with_filters_def)

lemma passes_filters:
  "passes (with_filters R f ctx) i =
     (case fl_options ctx i of
        Inl e \<Rightarrow> Inl e
      | Inr loose \<Rightarrow>
          (case executeFilter R (f i) (Some i) of
             Inr b \<Rightarrow> Inr b
           | Inl e \<Rightarrow> Inl (explain_error (fl_node ctx) i
               (getTypeValidationParameter (21/10) (fl_typeVersion ctx) (fl_looseTypeValidation ctx) i loose)
               (newNodeOperationError (fl_node ctx) (thrown_by e) None (ne_description (thrown_by e))))))"
  by (auto simp: evaluate_conditions_def with_filters_def extractValueFilter_def val_truthy_def split: sum.splits)

lemma negated_passes:
  assumes "executeFilter R (g i) (Some i) = negated (executeFilter R (f i) (Some i))"
  shows "passes (with_filters R g ctx) i = map_sum id Not (passes (with_filters R f ctx) i)"
  using assms
  by (cases "fl_options ctx i"; cases "executeFilter R (f i) (Some i)") (simp_all add: passes_filters)

lemma first_error_negated:
  assumes "list_all (\<lambda>(i, item). passes ctx' i = map_sum id Not (passes ctx i)) xs"
    and "fl_node ctx' = fl_node ctx" and "fl_continueOnFail ctx' = fl_continueOnFail ctx"
  shows "first_error ctx' xs = first_error ctx xs"
  unfolding first_error_def using assms by (induction xs) (auto split: sum.splits)

lemma items_negated:
  assumes "list_all (\<lambda>(i, item). passes ctx' i = map_sum id Not (passes ctx i)) xs"
    and "list_all (\<lambda>(i, item). \<not> isl (passes ctx i)) xs"
  shows "true_items ctx' xs = false_items ctx xs \<and> false_items ctx' xs = true_items ctx xs"
  using assms
proof (induction xs)
  case Nil
  show ?case by (simp add: true_items_def false_items_def)
next
  case (Cons x xs)
  obtain i item where x: "x = (i, item)" by (cases x)
  with Cons.prems obtain b where b: "passes ctx i = Inr b"
    by (cases "passes ctx i") auto
  with Cons x show ?case by (cases b) (simp_all add: true_items_def false_items_def)
qed

lemma no_first_error:
  "first_error ctx xs = None \<Longrightarrow> \<not> fl_continueOnFail ctx \<Longrightarrow> list_all (\<lambda>(i, item). \<not> isl (passes ctx i)) xs"
  by (auto simp: first_error_def find_None_iff list_all_iff isl_def split: sum.splits)

text \<open>C20: negating the filter of every item exchanges the two outputs of \<open>If\<close>, and of \<open>Filter\<close>, in the same order, and the
  node throws exactly when it threw before, and the same error. The filters are those that
  \<open>negated_filter\<close> can negate (every operator has a complement); and unless the node stops at an
  error, no conditions may throw: such an item goes to the second output whatever the filter.
\<close>

theorem negated_filters_exchange_outputs:
  assumes "list_all (\<lambda>i. negated_filter (f i) = Some (g i)) [0..<length items]"
    and "fl_continueOnFail ctx \<Longrightarrow>
      list_all (\<lambda>i. \<not> isl (evaluate_conditions (21/10) (with_filters R f ctx) i)) [0..<length items]"
  shows "IfV2_execute (with_filters R g ctx) items = map_sum id rev (IfV2_execute (with_filters R f ctx) items) \<and>
    FilterV2_execute (with_filters R g ctx) items = map_sum id rev (FilterV2_execute (with_filters R f ctx) items)"
proof -
  let ?F = "with_filters R f ctx" and ?G = "with_filters R g ctx" and ?xs = "enumerate 0 items"
  have "executeFilter R (g i) (Some i) = negated (executeFilter R (f i) (Some i))" if "i < length items" for i
  proof -
    from assms(1) that have "negated_filter (f i) = Some (g i)" by (simp add: list_all_iff)
    then show ?thesis by (rule filter_negation)
  qed
  then have neg: "list_all (\<lambda>(i, item). passes ?G i = map_sum id Not (passes ?F i)) ?xs"
    by (auto simp: list_all_iff in_set_enumerate_eq intro!: negated_passes)
  have same: "first_error ?G ?xs = first_error ?F ?xs"
    by (rule first_error_negated [OF neg]) simp_all
  have answered: "list_all (\<lambda>(i, item). \<not> isl (passes ?F i)) ?xs" if "first_error ?F ?xs = None"
  proof (cases "fl_continueOnFail ctx")
    case True
    from assms(2) [OF this] show ?thesis by (auto simp: list_all_iff in_set_enumerate_eq)
  qed (use no_first_error [OF that] in simp)
  have "IfV2_execute ?G items = map_sum id rev (IfV2_execute ?F items)"
  proof (cases "first_error ?F ?xs")
    case None
    with same items_negated [OF neg answered [OF None]] show ?thesis by (simp add: IfV2_execute_def for_each_if_item)
  qed (use same in \<open>simp add: IfV2_execute_def for_each_if_item\<close>)
  then show ?thesis by (simp add: IfV2_execute_def FilterV2_execute_def filter_item_eq)
qed

section \<open>Switch\<close>

text \<open>
  A switch by rules whose parameters can be read for every item: the same number of rules and the same
  options for all of them. The rules of this version have no field \<open>output\<close>, and the fallback is not
  set, none, the extra output, or one of the outputs.
\<close>

definition readable_rule :: "switch_rule \<Rightarrow> bool" where
  "readable_rule r = (rule_output r = VUndefined \<and> (case rule_conditions r of Inr _ \<Rightarrow> True | Inl _ \<Rightarrow> False))"

definition fallback_target :: "nat \<Rightarrow> val \<Rightarrow> nat list" where
  "fallback_target n v = (if v = VStr ''extra'' then [n] else filter (\<lambda>k. v = VNum (Fin (of_nat k))) [0..<n])"

definition readable_switch :: "switch_context \<Rightarrow> nat \<Rightarrow> switch_options \<Rightarrow> nat \<Rightarrow> bool" where
  "readable_switch ctx n opts m =
     (sw_mode ctx = ''rules'' \<and> 0 < n \<and>
      (so_fallbackOutput opts \<in> {VUndefined, VStr ''none'', VStr ''extra''} \<or>
       list_ex (\<lambda>k. so_fallbackOutput opts = VNum (Fin (of_nat k))) [0..<n]) \<and>
      list_all (\<lambda>i. sw_options ctx i = Inr opts \<and>
        (case sw_rules ctx i of Inr rules \<Rightarrow> length rules = n \<and> list_all readable_rule rules | Inl _ \<Rightarrow> False))
        [0..<m])"

definition rule_matches :: "switch_rule \<Rightarrow> bool" where
  "rule_matches r = (case rule_conditions r of Inr v \<Rightarrow> val_truthy v | Inl _ \<Rightarrow> False)"

text \<open>The outputs an item is sent to: of all rules that match or the first of them, else the fallback.\<close>

definition matching :: "(nat \<times> switch_rule) list \<Rightarrow> nat list" where
  "matching rules = map fst (filter (\<lambda>(j, r). rule_matches r) rules)"

definition destinations :: "switch_options \<Rightarrow> switch_rule list \<Rightarrow> nat list" where
  "destinations opts rules =
     (case matching (enumerate 0 rules) of
        [] \<Rightarrow> fallback_target (length rules) (so_fallbackOutput opts)
      | j # js \<Rightarrow> if so_allMatchingOutputs opts then j # js else [j])"

definition deliver :: "INodeExecutionData \<Rightarrow> outputs \<Rightarrow> nat list \<Rightarrow> outputs" where
  "deliver item outs js = foldl (\<lambda>os j. os[j := os ! j @ [item]]) outs js"

lemma deliver_simps [simp]:
  "deliver item outs [] = outs"
  "deliver item outs (j # js) = deliver item (outs[j := outs ! j @ [item]]) js"
  by (simp_all add: deliver_def)

lemma length_deliver [simp]: "length (deliver item outs js) = length outs"
  by (induction js arbitrary: outs) auto

lemma nth_deliver:
  "j < length outs \<Longrightarrow> distinct js \<Longrightarrow>
   deliver item outs js ! j = outs ! j @ (if j \<in> set js then [item] else [])"
proof (induction js arbitrary: outs)
  case (Cons a js)
  then show ?case by (cases "a = j") auto
qed simp

lemma range_ok_undefined [simp]: "checkIndexRange ctx len VUndefined i = None"
  by (simp add: checkIndexRange_def Let_def to_number_def val_lt_def val_gt_def val_less_def
      to_primitive_def num_less_def)

lemma range_ok_index:
  "k < len \<Longrightarrow> checkIndexRange ctx len (VNum (Fin (of_nat k))) i = None"
  by (simp add: checkIndexRange_def Let_def to_number_def val_lt_def val_gt_def val_less_def
      to_primitive_def num_less_def)

lemma switch_rules_all:
  assumes "list_all readable_rule rules" "k + length rules \<le> length outs" "so_allMatchingOutputs opts"
  shows "switch_rules ctx opts i item b outs (enumerate k rules) =
    (deliver item outs (matching (enumerate k rules)), RulesDone (b \<or> matching (enumerate k rules) \<noteq> []))"
  using assms
proof (induction rules arbitrary: k outs b)
  case Nil
  show ?case by (simp add: matching_def)
next
  case (Cons r rules)
  then obtain v where "rule_conditions r = Inr v" "rule_output r = VUndefined"
    by (auto simp: readable_rule_def split: sum.splits)
  with Cons show ?case
    by (cases "val_truthy v") (simp_all add: matching_def rule_matches_def check_and_push_def push_to_def)
qed

lemma switch_rules_first:
  assumes "list_all readable_rule rules" "k + length rules \<le> length outs" "\<not> so_allMatchingOutputs opts"
  shows "switch_rules ctx opts i item False outs (enumerate k rules) =
    (case matching (enumerate k rules) of
       [] \<Rightarrow> (outs, RulesDone False)
     | j # js \<Rightarrow> (deliver item outs [j], NextItem))"
  using assms
proof (induction rules arbitrary: k)
  case Nil
  show ?case by (simp add: matching_def)
next
  case (Cons r rules)
  then obtain v where "rule_conditions r = Inr v" "rule_output r = VUndefined"
    by (auto simp: readable_rule_def split: sum.splits)
  with Cons show ?case
    by (cases "val_truthy v") (simp_all add: matching_def rule_matches_def check_and_push_def push_to_def)
qed

definition output_count :: "nat \<Rightarrow> switch_options \<Rightarrow> nat" where
  "output_count n opts = (if so_fallbackOutput opts = VStr ''extra'' then Suc n else n)"

lemma fallback_delivers:
  assumes "length outs = output_count n opts" "0 < n"
    and "so_fallbackOutput opts \<in> {VUndefined, VStr ''none'', VStr ''extra''} \<or>
       list_ex (\<lambda>k. so_fallbackOutput opts = VNum (Fin (of_nat k))) [0..<n]"
  shows "switch_fallback ctx (so_fallbackOutput opts) i item outs =
    (deliver item outs (fallback_target n (so_fallbackOutput opts)), None)"
proof -
  consider "so_fallbackOutput opts = VUndefined" | "so_fallbackOutput opts = VStr ''none''"
    | "so_fallbackOutput opts = VStr ''extra''"
    | k where "k < n" "so_fallbackOutput opts = VNum (Fin (of_nat k))"
    using assms(3) by (auto simp: list_ex_iff)
  then show ?thesis
  proof cases
    case 3
    with assms(1) show ?thesis by (auto simp: switch_fallback_def fallback_target_def output_count_def push_to_def)
  next
    case 4
    have "filter (\<lambda>j. k = j) [0..<n] = [k]"
      using \<open>k < n\<close> by (induction n) (auto simp: less_Suc_eq filter_empty_conv)
    moreover have "find (\<lambda>j. k = j) [0..<n] = Some k"
      unfolding find_Some_iff using \<open>k < n\<close> by (intro exI [of _ k]) auto
    ultimately show ?thesis
      using 4 assms(1) by (simp add: switch_fallback_def fallback_target_def output_count_def check_and_push_def
          index_of_def range_ok_index push_to_def)
  qed (simp_all add: switch_fallback_def fallback_target_def)
qed

definition rules_of :: "switch_context \<Rightarrow> nat \<Rightarrow> switch_rule list" where
  "rules_of ctx i = (case sw_rules ctx i of Inr rules \<Rightarrow> rules | Inl _ \<Rightarrow> [])"

lemma readable_switchD:
  assumes "readable_switch ctx n opts m" "i < m"
  shows "sw_rules ctx i = Inr (rules_of ctx i)" "sw_options ctx i = Inr opts"
    "length (rules_of ctx i) = n" "list_all readable_rule (rules_of ctx i)"
proof -
  have "sw_options ctx i = Inr opts \<and>
      (case sw_rules ctx i of Inr rules \<Rightarrow> length rules = n \<and> list_all readable_rule rules | Inl _ \<Rightarrow> False)"
    using assms unfolding readable_switch_def by (simp add: list_all_iff)
  then show "sw_rules ctx i = Inr (rules_of ctx i)" "sw_options ctx i = Inr opts"
    "length (rules_of ctx i) = n" "list_all readable_rule (rules_of ctx i)"
    by (auto simp: rules_of_def split: sum.splits)
qed

lemma switch_item_delivers:
  assumes "readable_switch ctx n opts m" "i < m"
    and "i = 0 \<or> length outs = output_count n opts"
  shows "switch_item ctx outs (i, item) =
    Inr (deliver (paired_with i item) (if i = 0 then replicate (output_count n opts) [] else outs)
      (destinations opts (rules_of ctx i)))"
proof -
  let ?item = "paired_with i item"
  define start where "start = (if i = 0 then replicate (output_count n opts) [] else outs)"
  from assms(1) have mode: "sw_mode ctx = ''rules''" and n: "0 < n"
    and fb: "so_fallbackOutput opts \<in> {VUndefined, VStr ''none'', VStr ''extra''} \<or>
       list_ex (\<lambda>k. so_fallbackOutput opts = VNum (Fin (of_nat k))) [0..<n]"
    unfolding readable_switch_def by simp_all
  define rules where "rules = rules_of ctx i"
  have read: "sw_rules ctx i = Inr rules" and opts: "sw_options ctx i = Inr opts"
    and rules: "length rules = n" "list_all readable_rule rules"
    using readable_switchD [OF assms(1,2)] by (simp_all add: rules_def)
  have start: "start_outputs i outs (length rules) (so_fallbackOutput opts) = start"
    by (simp add: start_outputs_def start_def output_count_def rules(1) replicate_append_same)
  have len: "length start = output_count n opts" using assms(3) by (auto simp: start_def)
  then have room: "0 + length rules \<le> length start" by (simp add: output_count_def rules(1))
  have fallback: "switch_fallback ctx (so_fallbackOutput opts) i ?item start =
      (deliver ?item start (fallback_target n (so_fallbackOutput opts)), None)"
    by (rule fallback_delivers [OF len n fb])
  have "switch_try ctx outs i ?item = (deliver ?item start (destinations opts rules), None)"
  proof (cases "so_allMatchingOutputs opts")
    case True
    show ?thesis
      using mode read rules n opts fallback
      by (cases "matching (enumerate 0 rules)")
         (auto simp: switch_try_def start switch_rules_all [OF rules(2) room True] destinations_def True)
  next
    case False
    show ?thesis
      using mode read rules n opts fallback
      by (cases "matching (enumerate 0 rules)")
         (auto simp: switch_try_def start switch_rules_first [OF rules(2) room False] destinations_def False)
  qed
  then show ?thesis by (simp add: switch_item_def start_def rules_def)
qed

definition received ::
  "switch_context \<Rightarrow> switch_options \<Rightarrow> (nat \<times> INodeExecutionData) list \<Rightarrow> nat \<Rightarrow> INodeExecutionData list" where
  "received ctx opts xs j =
     map (\<lambda>(i, item). paired_with i item) (filter (\<lambda>(i, item). j \<in> set (destinations opts (rules_of ctx i))) xs)"

lemma destinations_distinct: "distinct (destinations opts rules)"
proof -
  have "distinct (map fst (filter P (enumerate k rules)))" for P k
    by (rule distinct_map_filter) (simp add: enumerate_eq_zip)
  then have "distinct (matching (enumerate 0 rules))" by (simp add: matching_def)
  then show ?thesis
    by (auto simp: destinations_def fallback_target_def split: list.splits)
qed

lemma switch_rest:
  assumes "readable_switch ctx n opts m" "0 < k" "k + length items \<le> m" "length outs = output_count n opts"
  shows "for_each (switch_item ctx) outs (enumerate k items) =
    Inr (map (\<lambda>j. outs ! j @ received ctx opts (enumerate k items) j) [0..<output_count n opts])"
  using assms
proof (induction items arbitrary: k outs)
  case Nil
  then show ?case by (simp add: received_def) (metis map_nth)
next
  case (Cons item items)
  let ?ds = "destinations opts (rules_of ctx k)"
  from switch_item_delivers [OF Cons.prems(1), of k outs item] Cons.prems(2-4)
  have step: "switch_item ctx outs (k, item) = Inr (deliver (paired_with k item) outs ?ds)" by simp
  show ?case
    using Cons.prems by (auto simp: step Cons.IH nth_deliver destinations_distinct received_def)
qed

text \<open>C21: a switch whose parameters can be read gives every output, in the order of the input, exactly the
  items it is a destination of: the rules that match, or the first of them, or the fallback.
\<close>

theorem switch_delivers_exactly:
  assumes "readable_switch ctx n opts (length items)" and "items \<noteq> []"
  shows "SwitchV3_execute ctx items =
    Inr (map (received ctx opts (enumerate 0 items)) [0..<output_count n opts])"
proof -
  obtain item rest where items: "items = item # rest" using assms(2) by (cases items) auto
  let ?ds = "destinations opts (rules_of ctx 0)" and ?start = "replicate (output_count n opts) []"
  from switch_item_delivers [OF assms(1), of 0 "[]" item]
  have step: "switch_item ctx [] (0, item) = Inr (deliver (paired_with 0 item) ?start ?ds)" by (simp add: items)
  have "for_each (switch_item ctx) [] (enumerate 0 items) =
      Inr (map (received ctx opts (enumerate 0 items)) [0..<output_count n opts])"
    using assms(1) by (auto simp: items step switch_rest nth_deliver destinations_distinct received_def)
  moreover have "0 < output_count n opts"
    using assms(1) by (simp add: readable_switch_def output_count_def)
  ultimately show ?thesis by (simp add: SwitchV3_execute_def)
qed

text \<open>With an extra output and the first match only, every item goes to exactly one output.\<close>

lemma one_destination:
  assumes "so_fallbackOutput opts = VStr ''extra''" "\<not> so_allMatchingOutputs opts"
  shows "length (destinations opts rules) = 1"
  using assms by (auto simp: destinations_def fallback_target_def split: list.splits)

section \<open>Examples\<close>

definition sample_item :: "string \<Rightarrow> INodeExecutionData" where
  "sample_item s = empty_item \<lparr> item_json := JObj [(''name'', JStr s)] \<rparr>"

definition sample_filter :: "string \<Rightarrow> val \<Rightarrow> FilterValue" where
  "sample_filter operation v = \<lparr> fv_options = sample_options,
     fv_conditions = [sample_condition ''string'' operation v (VStr ''A'')], fv_combinator = ''and'' \<rparr>"

definition sample_flow :: flow_context where
  "sample_flow = \<lparr> fl_node = ''If'', fl_typeVersion = 2, fl_continueOnFail = False,
     fl_options = (\<lambda>_. Inr False), fl_conditions = (\<lambda>_. Inr (VBool True)),
     fl_looseTypeValidation = (\<lambda>_. Inr False) \<rparr>"

definition sample_filters :: "string \<Rightarrow> nat \<Rightarrow> FilterValue" where
  "sample_filters operation i = sample_filter operation (VStr (if i = 0 then ''a'' else ''b''))"

theorem negated_filters_witness:
  "list_all (\<lambda>i. negated_filter (sample_filters ''equals'' i) =
      Some (sample_filters ''notEquals'' i \<lparr> fv_combinator := ''or'' \<rparr>)) [0..<2] \<and>
   IfV2_execute (with_filters plain_runtime (\<lambda>i. sample_filters ''notEquals'' i \<lparr> fv_combinator := ''or'' \<rparr>) sample_flow)
     [sample_item ''a'', sample_item ''b''] =
   map_sum id rev (IfV2_execute (with_filters plain_runtime (sample_filters ''equals'') sample_flow)
     [sample_item ''a'', sample_item ''b''])"
proof -
  have l: "list_all (\<lambda>i. negated_filter (sample_filters ''equals'' i) =
      Some (sample_filters ''notEquals'' i \<lparr> fv_combinator := ''or'' \<rparr>)) [0..<2]" by code_simp
  have two: "[0..<2] = [0..<length [sample_item ''a'', sample_item ''b'']]" by (simp add: numeral_2_eq_2)
  have c: "\<not> fl_continueOnFail sample_flow" by (simp add: sample_flow_def)
  from l negated_filters_exchange_outputs [OF l [unfolded two], of sample_flow plain_runtime] c show ?thesis
    by (simp only: simp_thms)
qed

definition sample_switch :: switch_context where
  "sample_switch = \<lparr> sw_runtime = plain_runtime, sw_node = ''Switch'', sw_typeVersion = 3, sw_continueOnFail = False,
     sw_mode = ''rules'', sw_numberOutputs = (\<lambda>_. Inr 0), sw_output = (\<lambda>_. Inr VUndefined),
     sw_rules = (\<lambda>i. Inr [\<lparr> rule_output = VUndefined, rule_conditions = Inr (VBool (i = 1)) \<rparr>,
                         \<lparr> rule_output = VUndefined, rule_conditions = Inr (VBool (i \<noteq> 0)) \<rparr>]),
     sw_options = (\<lambda>_. Inr \<lparr> so_fallbackOutput = VStr ''extra'', so_allMatchingOutputs = False,
                            so_looseTypeValidation = False \<rparr>),
     sw_loose = (\<lambda>_. Inr False) \<rparr>"

theorem switch_delivers_exactly_witness:
  "SwitchV3_execute sample_switch [sample_item ''a'', sample_item ''b'', sample_item ''c''] =
   Inr [[paired_with 1 (sample_item ''b'')], [paired_with 2 (sample_item ''c'')], [paired_with 0 (sample_item ''a'')]]"
proof -
  let ?opts = "\<lparr> so_fallbackOutput = VStr ''extra'', so_allMatchingOutputs = False, so_looseTypeValidation = False \<rparr>"
  let ?items = "[sample_item ''a'', sample_item ''b'', sample_item ''c'']"
  have r: "readable_switch sample_switch 2 ?opts (length ?items)" by code_simp
  have "map (received sample_switch ?opts (enumerate 0 ?items)) [0..<output_count 2 ?opts] =
     [[paired_with 1 (sample_item ''b'')], [paired_with 2 (sample_item ''c'')], [paired_with 0 (sample_item ''a'')]]"
    by code_simp
  with switch_delivers_exactly [OF r] show ?thesis by simp
qed

text \<open>
  When the parameters of the first item cannot be read there is no output yet: the handler that
  continues on errors throws itself.
\<close>

lemma first_error_not_continued:
  "SwitchV3_execute (sample_switch \<lparr> sw_continueOnFail := True, sw_options := (\<lambda>_. Inl undefined_error) \<rparr>)
     [sample_item ''a''] = Inl undefined_error"
  by code_simp

text \<open>A message that quotes a value with the code of a system error is replaced.\<close>

lemma message_replaced_by_code:
  "ne_message (newNodeOperationError ''If'' (plain_error ApplicationErrorClass
     (''Wrong type: '' @ quoted ''enoent'' @ '' is a string but was expecting a number [condition 0, item 0]'') None)
     (Some 0) None) = ''The file or directory does not exist''"
  by code_simp

end
