(* ===== verification/MergeNode.thy ===== *)
theory MergeNode
  imports FlowNodes
begin

text \<open>
  The node that merges its inputs (\<open>nodes-base/nodes/Merge/v3\<close>): the search for matching items by fields
  with strict or fuzzy comparison, the merging of matched items with the handling of clashes, and the
  modes that combine by fields, by position, all with all, append, or choose an input. lodash and
  the parser of JSON are the record \<open>merge_library\<close>.
\<close>

section \<open>Comparing\<close>

record merge_library =
  ml_get :: "json \<Rightarrow> string \<Rightarrow> json"
  ml_isEqual :: "json \<Rightarrow> json \<Rightarrow> bool"
  ml_parse :: "string \<Rightarrow> json option"
  ml_number_text :: "rat \<Rightarrow> string"
  ml_lower :: "string \<Rightarrow> string"
  ml_merge :: "json \<Rightarrow> json list \<Rightarrow> json"
  ml_mergeWith :: "(json \<Rightarrow> json \<Rightarrow> json) \<Rightarrow> json \<Rightarrow> json list \<Rightarrow> json"
  ml_assignWith :: "(json \<Rightarrow> json \<Rightarrow> json) \<Rightarrow> json \<Rightarrow> json list \<Rightarrow> json"

definition json_typeof :: "json \<Rightarrow> string" where
  "json_typeof v = (case v of
     JUndefined \<Rightarrow> ''undefined'' | JBool _ \<Rightarrow> ''boolean'' | JNum _ \<Rightarrow> ''number'' | JStr _ \<Rightarrow> ''string''
   | _ \<Rightarrow> ''object'')"

definition isFalsy :: "json \<Rightarrow> bool" where
  "isFalsy v = (v = JNull \<or> v = JStr [] \<or> v = JArr [])"

definition parseStringAndCompareToObject :: "merge_library \<Rightarrow> string \<Rightarrow> json \<Rightarrow> bool" where
  "parseStringAndCompareToObject lib s v =
     (case ml_parse lib s of Some p \<Rightarrow> ml_isEqual lib p v | None \<Rightarrow> False)"

text \<open>The pairs that are tried after the objects; \<open>None\<close> goes on to the last comparison.\<close>

definition boolean_like :: "merge_library \<Rightarrow> bool \<Rightarrow> json \<Rightarrow> bool" where
  "boolean_like lib b v = (case v of
     JStr s \<Rightarrow> ml_lower lib s = (if b then ''true'' else ''false'') \<or> s = (if b then ''1'' else ''0'')
   | JNum n \<Rightarrow> n = (if b then 1 else 0)
   | _ \<Rightarrow> False)"

definition fuzzyCompare :: "merge_library \<Rightarrow> bool \<Rightarrow> nat \<Rightarrow> json \<Rightarrow> json \<Rightarrow> bool" where
  "fuzzyCompare lib useFuzzyCompare compareVersion item1 item2 =
     (if \<not> useFuzzyCompare then ml_isEqual lib item1 item2
      else if item1 \<noteq> JNull \<and> item2 \<noteq> JNull \<and> json_typeof item1 = json_typeof item2 then ml_isEqual lib item1 item2
      else if compareVersion \<ge> 2 \<and> item1 = JNull \<and> (item2 = JNull \<or> item2 = JNum 0 \<or> item2 = JStr ''0'') then True
      else if compareVersion \<ge> 2 \<and> item2 = JNull \<and> (item1 = JNull \<or> item1 = JNum 0 \<or> item1 = JStr ''0'') then True
      else if isFalsy item1 \<and> isFalsy item2 then True
      else if isFalsy item1 \<and> item2 = JUndefined then True
      else if item1 = JUndefined \<and> isFalsy item2 then True
      else (case (item1, item2) of
          (JNum n, JStr s) \<Rightarrow> ml_number_text lib n = s
        | (JStr s, JNum n) \<Rightarrow> s = ml_number_text lib n
        | (JBool b, v) \<Rightarrow> boolean_like lib b v \<or> ml_isEqual lib item1 item2
        | (v, JBool b) \<Rightarrow> boolean_like lib b v \<or> ml_isEqual lib item1 item2
        | (v, JStr s) \<Rightarrow> if v \<noteq> JNull \<and> json_typeof v = ''object'' then parseStringAndCompareToObject lib s v
                         else ml_isEqual lib item1 item2
        | (JStr s, v) \<Rightarrow> if v \<noteq> JNull \<and> json_typeof v = ''object'' then parseStringAndCompareToObject lib s v
                         else ml_isEqual lib item1 item2
        | _ \<Rightarrow> ml_isEqual lib item1 item2))"

section \<open>Matching\<close>

record PairToMatch =
  pm_field1 :: string
  pm_field2 :: string

record EntryMatches =
  em_entry :: INodeExecutionData
  em_matches :: "INodeExecutionData list"

record MatchFieldsOptions =
  mo_joinMode :: string
  mo_outputDataFrom :: string
  mo_multipleMatches :: string
  mo_disableDotNotation :: bool
  mo_fuzzyCompare :: bool

record filtered_data =
  fd_matched :: "EntryMatches list"
  fd_matched2 :: "INodeExecutionData list"
  fd_unmatched1 :: "INodeExecutionData list"
  fd_unmatched2 :: "INodeExecutionData list"

definition field_value :: "merge_library \<Rightarrow> bool \<Rightarrow> INodeExecutionData \<Rightarrow> string \<Rightarrow> json" where
  "field_value lib disableDotNotation entry key =
     (if disableDotNotation then json_get (item_json entry) key else ml_get lib (item_json entry) key)"

text \<open>The loop over the keys of \<open>lookup\<close>, the same in both searches.\<close>

definition entry_matches ::
  "merge_library \<Rightarrow> bool \<Rightarrow> (json \<Rightarrow> json \<Rightarrow> bool) \<Rightarrow> (string, json) js_map \<Rightarrow> INodeExecutionData \<Rightarrow> bool" where
  "entry_matches lib disableDotNotation isEntriesEqual lookup entry2 =
     list_all (\<lambda>(key, expectedValue). isEntriesEqual expectedValue (field_value lib disableDotNotation entry2 key)) lookup"

definition findAllMatches ::
  "merge_library \<Rightarrow> INodeExecutionData list \<Rightarrow> (string, json) js_map \<Rightarrow> bool \<Rightarrow> (json \<Rightarrow> json \<Rightarrow> bool) \<Rightarrow>
   (nat \<times> INodeExecutionData) list" where
  "findAllMatches lib data lookup disableDotNotation isEntriesEqual =
     filter (\<lambda>(i, entry2). entry_matches lib disableDotNotation isEntriesEqual lookup entry2) (enumerate 0 data)"

definition findFirstMatch ::
  "merge_library \<Rightarrow> INodeExecutionData list \<Rightarrow> (string, json) js_map \<Rightarrow> bool \<Rightarrow> (json \<Rightarrow> json \<Rightarrow> bool) \<Rightarrow>
   (nat \<times> INodeExecutionData) list" where
  "findFirstMatch lib data lookup disableDotNotation isEntriesEqual =
     (case find (\<lambda>(i, entry2). entry_matches lib disableDotNotation isEntriesEqual lookup entry2) (enumerate 0 data) of
        Some match \<Rightarrow> [match] | None \<Rightarrow> [])"

definition lookup_of :: "merge_library \<Rightarrow> bool \<Rightarrow> PairToMatch list \<Rightarrow> INodeExecutionData \<Rightarrow> (string, json) js_map" where
  "lookup_of lib disableDotNotation fieldsToMatch entry1 =
     foldl (\<lambda>m p. map_set (pm_field2 p) (field_value lib disableDotNotation entry1 (pm_field1 p)) m) [] fieldsToMatch"

definition separate_matches :: "MatchFieldsOptions \<Rightarrow> bool" where
  "separate_matches options =
     (mo_outputDataFrom options = ''both'' \<or> mo_joinMode options = ''enrichInput1'' \<or>
      mo_joinMode options = ''enrichInput2'')"

text \<open>One round of \<open>matchesLoop\<close>, on the data found so far and the indices that were matched.\<close>

definition match_entry ::
  "merge_library \<Rightarrow> INodeExecutionData list \<Rightarrow> PairToMatch list \<Rightarrow> MatchFieldsOptions \<Rightarrow>
   filtered_data \<times> nat js_set \<Rightarrow> INodeExecutionData \<Rightarrow> filtered_data \<times> nat js_set" where
  "match_entry lib data2 fieldsToMatch options = (\<lambda>(fd, matchedInInput2) entry1.
     let isEntriesEqual = fuzzyCompare lib (mo_fuzzyCompare options) 1;
         multipleMatches = (if mo_multipleMatches options = [] then ''all'' else mo_multipleMatches options);
         lookup = lookup_of lib (mo_disableDotNotation options) fieldsToMatch entry1
     in if list_ex (\<lambda>(k, v). v = JUndefined) lookup
        then (fd \<lparr> fd_unmatched1 := fd_unmatched1 fd @ [entry1] \<rparr>, matchedInInput2)
        else (let foundedMatches =
                    (if multipleMatches = ''all''
                     then findAllMatches lib data2 lookup (mo_disableDotNotation options) isEntriesEqual
                     else findFirstMatch lib data2 lookup (mo_disableDotNotation options) isEntriesEqual);
                  matches = map snd foundedMatches;
                  matchedInInput2' = foldl (\<lambda>s (i, _). set_add i s) matchedInInput2 foundedMatches
              in if matches \<noteq> [] then
                   (fd \<lparr> fd_matched := fd_matched fd @
                       (if separate_matches options
                        then map (\<lambda>match. \<lparr> em_entry = entry1, em_matches = [match] \<rparr>) matches
                        else [\<lparr> em_entry = entry1, em_matches = matches \<rparr>]) \<rparr>, matchedInInput2')
                 else (fd \<lparr> fd_unmatched1 := fd_unmatched1 fd @ [entry1] \<rparr>, matchedInInput2')))"

definition findMatches ::
  "merge_library \<Rightarrow> INodeExecutionData list \<Rightarrow> INodeExecutionData list \<Rightarrow> PairToMatch list \<Rightarrow> MatchFieldsOptions \<Rightarrow>
   filtered_data" where
  "findMatches lib data1 data2 fieldsToMatch options =
     (case foldl (match_entry lib data2 fieldsToMatch options)
         (\<lparr> fd_matched = [], fd_matched2 = [], fd_unmatched1 = [], fd_unmatched2 = [] \<rparr>, []) data1 of
        (fd, matchedInInput2) \<Rightarrow>
          fd \<lparr> fd_matched2 := map snd (filter (\<lambda>(i, entry). i \<in> set matchedInInput2) (enumerate 0 data2)),
               fd_unmatched2 := map snd (filter (\<lambda>(i, entry). i \<notin> set matchedInInput2) (enumerate 0 data2)) \<rparr>)"

section \<open>Merging\<close>

record ClashResolveOptions =
  cr_resolveClash :: "string option"
  cr_mergeMode :: "string option"
  cr_overrideEmpty :: bool

definition addSuffixToEntriesKeys :: "INodeExecutionData list \<Rightarrow> string \<Rightarrow> INodeExecutionData list" where
  "addSuffixToEntriesKeys data suffix =
     map (\<lambda>entry. entry \<lparr> item_json := (case item_json entry of
        JObj kvs \<Rightarrow> JObj (foldl (\<lambda>m (k, v). map_set (k @ ''_'' @ suffix) v m) [] kvs)
      | _ \<Rightarrow> JObj []) \<rparr>) data"

text \<open>\<open>Object.assign({}, target, ...source)\<close>: a missing value has no properties.\<close>

definition props_of :: "json \<Rightarrow> (string, json) js_map" where
  "props_of v = (case v of JObj kvs \<Rightarrow> kvs | _ \<Rightarrow> [])"

definition js_assign :: "json list \<Rightarrow> json" where
  "js_assign vs = JObj (foldl (\<lambda>m v. foldl (\<lambda>m (k, w). map_set k w m) m (props_of v)) [] vs)"

text \<open>The customizer; \<open>undefined\<close> leaves the choice to lodash.\<close>

definition customizer :: "json \<Rightarrow> json \<Rightarrow> json" where
  "customizer targetValue srcValue =
     (if srcValue = JUndefined \<or> srcValue = JNull \<or> srcValue = JStr [] then targetValue else JUndefined)"

definition selectMergeMethod :: "merge_library \<Rightarrow> ClashResolveOptions \<Rightarrow> json \<Rightarrow> json list \<Rightarrow> json" where
  "selectMergeMethod lib options target sources =
     (if cr_overrideEmpty options \<and> cr_mergeMode options = Some ''deepMerge''
      then ml_mergeWith lib customizer (js_assign [target]) sources
      else if cr_overrideEmpty options \<and> cr_mergeMode options = Some ''shallowMerge''
      then ml_assignWith lib customizer (js_assign [target]) sources
      else if \<not> cr_overrideEmpty options \<and> cr_mergeMode options = Some ''shallowMerge''
      then js_assign (target # sources)
      else ml_merge lib (JObj []) (target # sources))"

definition preparePairedItemDataArray :: "json option \<Rightarrow> json list" where
  "preparePairedItemDataArray pairedItem = (case pairedItem of
     None \<Rightarrow> []
   | Some (JNum n) \<Rightarrow> [JObj [(''item'', JNum n)]]
   | Some (JArr ps) \<Rightarrow> ps
   | Some p \<Rightarrow> [p])"

definition binary_of :: "INodeExecutionData \<Rightarrow> json" where
  "binary_of item = (case item_binary item of Some b \<Rightarrow> b | None \<Rightarrow> JUndefined)"

definition merged_item :: "json \<Rightarrow> json \<Rightarrow> json list \<Rightarrow> INodeExecutionData" where
  "merged_item j b ps = \<lparr> item_json = j, item_binary = Some b, item_error = None, item_pairedItem = Some (JArr ps) \<rparr>"

text \<open>Merging items in the given order: the first is the target.\<close>

definition merge_items :: "merge_library \<Rightarrow> ClashResolveOptions \<Rightarrow> INodeExecutionData \<Rightarrow> INodeExecutionData list \<Rightarrow> INodeExecutionData" where
  "merge_items lib options first rest =
     merged_item (selectMergeMethod lib options (js_assign [item_json first]) (map item_json rest))
       (selectMergeMethod lib options (js_assign [binary_of first]) (map binary_of rest))
       (concat (map (\<lambda>item. preparePairedItemDataArray (item_pairedItem item)) (first # rest)))"

definition merge_match ::
  "merge_library \<Rightarrow> ClashResolveOptions \<Rightarrow> string option \<Rightarrow> EntryMatches \<Rightarrow> INodeExecutionData res" where
  "merge_match lib options joinMode match =
     (if cr_resolveClash options = Some ''addSuffix'' then
        (case addSuffixToEntriesKeys [em_entry match] ''1'' of
           entry # _ \<Rightarrow> Inr (merge_items lib options entry (addSuffixToEntriesKeys (em_matches match) ''2''))
         | [] \<Rightarrow> Inl TypeError)
      else
        (let resolveClash = (case cr_resolveClash options of
               Some r \<Rightarrow> r
             | None \<Rightarrow> if joinMode \<noteq> Some ''enrichInput2'' then ''preferLast'' else ''preferInput1'')
         in if resolveClash = ''preferInput1'' then
              (case em_matches match of
                 [] \<Rightarrow> Inl TypeError
               | firstMatch # restMatches \<Rightarrow>
                   Inr (merge_items lib options firstMatch (restMatches @ [em_entry match])))
            else if resolveClash = ''preferLast'' then
              Inr (merge_items lib options (em_entry match) (em_matches match))
            else Inr (merged_item (JObj []) (JObj []) [])))"

definition mergeMatched ::
  "merge_library \<Rightarrow> EntryMatches list \<Rightarrow> ClashResolveOptions \<Rightarrow> string option \<Rightarrow> INodeExecutionData list res" where
  "mergeMatched lib matched options joinMode = map_res (merge_match lib options joinMode) matched"

section \<open>Combining by fields\<close>

definition checkMatchFieldsInput :: "PairToMatch list \<Rightarrow> PairToMatch list res" where
  "checkMatchFieldsInput data =
     (if length data = 1 \<and> pm_field1 (hd data) = [] \<and> pm_field2 (hd data) = []
      then Inl (ApplicationError
        ''You need to define at least one pair of fields in \"Fields to Match\" to match on'')
      else case find (\<lambda>(i, p). pm_field1 p = [] \<or> pm_field2 p = []) (enumerate 0 data) of
          Some (i, p) \<Rightarrow> Inl (ApplicationError
            (''You need to define both fields in \"Fields to Match\" for pair '' @ nat_str (i + 1) @ '','' @
             [CHR 10] @ replicate 4 (CHR 9) @ '' field 1 = '' @ [CHR 0x27] @ pm_field1 p @ [CHR 0x27] @
             [CHR 10] @ replicate 4 (CHR 9) @ '' field 2 = '' @ [CHR 0x27] @ pm_field2 p @ [CHR 0x27]))
        | None \<Rightarrow> Inr data)"

text \<open>\<open>hasOwnProperty\<close>, or a value that lodash finds.\<close>

definition field_present :: "merge_library \<Rightarrow> bool \<Rightarrow> string \<Rightarrow> INodeExecutionData \<Rightarrow> bool" where
  "field_present lib disableDotNotation field entry =
     (if disableDotNotation then map_has (props_of (item_json entry)) field
      else ml_get lib (item_json entry) field \<noteq> JUndefined)"

definition checkInput ::
  "merge_library \<Rightarrow> INodeExecutionData list \<Rightarrow> string list \<Rightarrow> bool \<Rightarrow> string \<Rightarrow> INodeExecutionData list res" where
  "checkInput lib input names disableDotNotation inputLabel =
     (case find (\<lambda>field. \<not> list_ex (field_present lib disableDotNotation field) input) names of
        Some field \<Rightarrow> Inl (ApplicationError (''Field '' @ [CHR 0x27] @ field @ [CHR 0x27] @
          '' is not present in any of items in '' @ [CHR 0x27] @ inputLabel @ [CHR 0x27]))
      | None \<Rightarrow> Inr input)"

definition addSourceField :: "INodeExecutionData list \<Rightarrow> string \<Rightarrow> INodeExecutionData list" where
  "addSourceField data sourceField =
     map (\<lambda>entry. entry \<lparr> item_json := JObj (map_set ''_source'' (JStr sourceField) (props_of (item_json entry))) \<rparr>) data"

record combine_parameters =
  cp_advanced :: bool
  cp_mergeByFields :: "PairToMatch list"
  cp_fieldsToMatchString :: string
  cp_options :: MatchFieldsOptions
  cp_clashHandling :: ClashResolveOptions
  cp_typeVersion :: rat

definition match_fields :: "combine_parameters \<Rightarrow> PairToMatch list" where
  "match_fields ps =
     (if cp_advanced ps then cp_mergeByFields ps
      else map (\<lambda>f. let field = js_trim f in \<lparr> pm_field1 = field, pm_field2 = field \<rparr>)
             (js_split (CHR '','') (cp_fieldsToMatchString ps)))"

text \<open>What is returned when an input has no items.\<close>

definition empty_input_output ::
  "string \<Rightarrow> string \<Rightarrow> INodeExecutionData list \<Rightarrow> INodeExecutionData list \<Rightarrow> INodeExecutionData list list" where
  "empty_input_output joinMode outputDataFrom input1 input2 =
     (if input1 = [] \<and> joinMode = ''keepNonMatches'' \<and> outputDataFrom = ''input1'' then [[]]
      else if input2 = [] \<and> joinMode = ''keepNonMatches'' \<and> outputDataFrom = ''input2'' then [[]]
      else if joinMode = ''keepMatches'' then []
      else if joinMode = ''enrichInput1'' \<and> input1 = [] then []
      else if joinMode = ''enrichInput2'' \<and> input2 = [] then []
      else [input1 @ input2])"

definition suffixed_if :: "ClashResolveOptions \<Rightarrow> string \<Rightarrow> INodeExecutionData list \<Rightarrow> INodeExecutionData list" where
  "suffixed_if clash suffix data =
     (if cr_resolveClash clash = Some ''addSuffix'' then addSuffixToEntriesKeys data suffix else data)"

text \<open>The output of a join mode from the matches.\<close>

definition join_output ::
  "merge_library \<Rightarrow> string \<Rightarrow> string \<Rightarrow> ClashResolveOptions \<Rightarrow> filtered_data \<Rightarrow> INodeExecutionData list list res" where
  "join_output lib joinMode outputDataFrom clash matches =
     (if joinMode = ''keepMatches'' \<or> joinMode = ''keepEverything'' then
        res_bind (if outputDataFrom = ''input1'' then Inr (map em_entry (fd_matched matches))
                  else if outputDataFrom = ''input2'' then Inr (fd_matched2 matches)
                  else if outputDataFrom = ''both'' then mergeMatched lib (fd_matched matches) clash None
                  else Inr [])
          (\<lambda>output. Inr [output @ (if joinMode = ''keepEverything''
             then suffixed_if clash ''1'' (fd_unmatched1 matches) @ suffixed_if clash ''2'' (fd_unmatched2 matches)
             else [])])
      else if joinMode = ''keepNonMatches'' then
        Inr (if outputDataFrom = ''input1'' then [fd_unmatched1 matches]
             else if outputDataFrom = ''input2'' then [fd_unmatched2 matches]
             else if outputDataFrom = ''both''
             then [addSourceField (fd_unmatched1 matches) ''input1'' @ addSourceField (fd_unmatched2 matches) ''input2'']
             else [[]])
      else if joinMode = ''enrichInput1'' then
        res_bind (mergeMatched lib (fd_matched matches) clash (Some joinMode))
          (\<lambda>merged. Inr [merged @ suffixed_if clash ''1'' (fd_unmatched1 matches)])
      else if joinMode = ''enrichInput2'' then
        res_bind (mergeMatched lib (fd_matched matches) clash (Some joinMode))
          (\<lambda>merged. Inr [merged @ suffixed_if clash ''2'' (fd_unmatched2 matches)])
      else Inr [[]])"

text \<open>The node; it always has its two inputs.\<close>

definition combineByFields_execute ::
  "merge_library \<Rightarrow> combine_parameters \<Rightarrow> INodeExecutionData list \<Rightarrow> INodeExecutionData list \<Rightarrow>
   INodeExecutionData list list res" where
  "combineByFields_execute lib ps input1 input2 =
     res_bind (checkMatchFieldsInput (match_fields ps)) (\<lambda>matchFields.
     let joinMode = mo_joinMode (cp_options ps); outputDataFrom = mo_outputDataFrom (cp_options ps);
         dots = mo_disableDotNotation (cp_options ps) in
     res_bind (if cp_typeVersion ps < 21/10 then checkInput lib input1 (map pm_field1 matchFields) dots ''Input 1''
               else Inr input1) (\<lambda>input1.
     res_bind (if cp_typeVersion ps < 21/10 then checkInput lib input2 (map pm_field2 matchFields) dots ''Input 2''
               else Inr input2) (\<lambda>input2.
       if input1 = [] \<or> input2 = [] then Inr (empty_input_output joinMode outputDataFrom input1 input2)
       else if matchFields = [] then
         Inr (if joinMode = ''keepMatches'' \<or> joinMode = ''keepEverything'' \<or> joinMode = ''enrichInput2''
              then [[]] else [input1])
       else join_output lib joinMode outputDataFrom (cp_clashHandling ps)
              (findMatches lib input1 input2 matchFields (cp_options ps)))))"

section \<open>The other modes\<close>

definition pairedItem_value :: "INodeExecutionData \<Rightarrow> json" where
  "pairedItem_value item = (case item_pairedItem item of Some p \<Rightarrow> p | None \<Rightarrow> JUndefined)"

text \<open>All items of the first input with all of the second.\<close>

definition combineAll_execute ::
  "merge_library \<Rightarrow> ClashResolveOptions \<Rightarrow> INodeExecutionData list \<Rightarrow> INodeExecutionData list \<Rightarrow> INodeExecutionData list list" where
  "combineAll_execute lib clash inputA inputB =
     (case (if cr_resolveClash clash = Some ''preferInput1'' then (inputB, inputA) else (inputA, inputB)) of
        (input1, input2) \<Rightarrow>
          [concat (map (\<lambda>entry1. map (\<lambda>entry2.
              merged_item (js_assign [selectMergeMethod lib clash (item_json entry1) [item_json entry2]])
                (js_assign [ml_merge lib (JObj []) [binary_of entry1, binary_of entry2]])
                [pairedItem_value entry1, pairedItem_value entry2])
            (suffixed_if clash ''2'' input2)) (suffixed_if clash ''1'' input1))])"

definition append_execute :: "INodeExecutionData list list \<Rightarrow> INodeExecutionData list list" where
  "append_execute inputsData = [concat inputsData]"

text \<open>The position of the preferred input: the number after \<open>preferInput\<close>, else the last.\<close>

fun replace_first :: "string \<Rightarrow> string \<Rightarrow> string" where
  "replace_first p [] = []"
| "replace_first p (c # cs) = (if starts_with (c # cs) p then drop (length p) (c # cs) else c # replace_first p cs)"

definition preferred_input :: "ClashResolveOptions \<Rightarrow> INodeExecutionData list list \<Rightarrow> INodeExecutionData list option" where
  "preferred_input clash inputsData =
     (case cr_resolveClash clash of
        Some r \<Rightarrow>
          if str_includes r ''preferInput'' then
            (case str_number (replace_first ''preferInput'' r) of
               Some q \<Rightarrow> map_option (nth inputsData) (find (\<lambda>n. q - 1 = of_nat n) [0..<length inputsData])
             | None \<Rightarrow> None)
          else if inputsData = [] then None else Some (last inputsData)
      | None \<Rightarrow> if inputsData = [] then None else Some (last inputsData))"

definition entry_at :: "nat \<Rightarrow> INodeExecutionData list \<Rightarrow> INodeExecutionData option" where
  "entry_at i input = (if i < length input then Some (input ! i) else None)"

definition flat_paired :: "json \<Rightarrow> json list" where
  "flat_paired p = (case p of JArr ps \<Rightarrow> ps | _ \<Rightarrow> [p])"

definition combine_position ::
  "merge_library \<Rightarrow> ClashResolveOptions \<Rightarrow> INodeExecutionData list list \<Rightarrow> INodeExecutionData list \<Rightarrow> nat \<Rightarrow> INodeExecutionData" where
  "combine_position lib clash inputsData preferred i =
     (let rest = map (entry_at i) inputsData; prefer = entry_at i preferred;
          json_at = case_option (JObj []) item_json;
          binary_at = case_option (JObj []) (\<lambda>e. case_option (JObj []) id (item_binary e));
          paired_at = case_option JUndefined pairedItem_value
      in merged_item
           (js_assign [selectMergeMethod lib clash (JObj []) (map json_at rest @ [json_at prefer])])
           (js_assign [ml_merge lib (JObj []) (map binary_at rest @ [binary_at prefer])])
           (filter (\<lambda>p. p \<noteq> JUndefined) (concat (map (flat_paired \<circ> paired_at) rest) @ [paired_at prefer])))"

definition combineByPosition_execute ::
  "merge_library \<Rightarrow> ClashResolveOptions \<Rightarrow> bool \<Rightarrow> INodeExecutionData list list \<Rightarrow> INodeExecutionData list list res" where
  "combineByPosition_execute lib clash includeUnpaired inputsData =
     (case preferred_input clash inputsData of
        None \<Rightarrow> Inl TypeError
      | Some preferred \<Rightarrow>
          (let inputs = (if cr_resolveClash clash = Some ''addSuffix''
                 then map (\<lambda>(i, input). addSuffixToEntriesKeys input (nat_str (i + 1))) (enumerate 0 inputsData)
                 else inputsData);
               lengths = map length inputs @ [length preferred];
               numEntries = (if includeUnpaired then Max (set lengths) else Min (set lengths))
           in Inr [map (combine_position lib clash inputs preferred) [0..<numEntries]]))"

text \<open>The data of one input, or an empty item that is paired with everything.\<close>

definition chooseBranch_execute ::
  "string \<Rightarrow> string \<Rightarrow> string \<Rightarrow> int \<Rightarrow> INodeExecutionData list list \<Rightarrow> node_error + INodeExecutionData list list" where
  "chooseBranch_execute node chooseBranchMode output useDataOfInput inputsData =
     (if chooseBranchMode = ''waitForAll'' \<and> output = ''specifiedInput'' then
        (if useDataOfInput > int (length inputsData)
         then Inl (newNodeOperationError node
            (plain_error OtherErrorClass (''Input '' @ int_str useDataOfInput @ '' doesn'' @ [CHR 0x27] @ ''t exist'') None) None
            (Some (''The node has only '' @ nat_str (length inputsData) @ '' inputs, so selecting input '' @
               int_str useDataOfInput @ '' is not possible.'')))
         else Inr [if 1 \<le> useDataOfInput then inputsData ! (nat useDataOfInput - 1) else []])
      else if chooseBranchMode = ''waitForAll'' \<and> output = ''empty'' then
        (case inputsData of
           input0 # input1 # _ \<Rightarrow>
             Inr [[empty_item \<lparr> item_pairedItem := Some (JArr (concat
               (map (\<lambda>item. preparePairedItemDataArray (item_pairedItem item)) (input0 @ input1)))) \<rparr>]]
         | _ \<Rightarrow> Inl undefined_error)
      else Inr [[]])"

end
