(* ===== verification/LoopNode.thy ===== *)
theory LoopNode
  imports NodeParameters
begin

text \<open>
  The loop over items (\<open>nodes-base/nodes/SplitInBatches/v3\<close>). The node keeps what is left of its first
  input in its context; each call hands out the next batch on the second output and collects what
  comes back, and when nothing is left it gives what was collected on the first output.
\<close>

section \<open>The node and its context\<close>

record loop_context =
  lc_items :: "INodeExecutionData list option"
  lc_currentRunIndex :: nat
  lc_maxRunIndex :: "int option"
  lc_sourceData :: json
  lc_processedItems :: "INodeExecutionData list"
  lc_noItemsLeft :: bool
  lc_done :: bool

text \<open>One call: the input, the parameters, and \<open>getInputSourceData()\<close>.\<close>

record loop_call =
  call_items :: "INodeExecutionData list"
  call_batchSize :: int
  call_reset :: bool
  call_source :: json

definition fresh_context :: loop_context where
  "fresh_context = \<lparr> lc_items = None, lc_currentRunIndex = 0, lc_maxRunIndex = None, lc_sourceData = JUndefined,
     lc_processedItems = [], lc_noItemsLeft = False, lc_done = False \<rparr>"

text \<open>\<open>xs.splice(0, n)\<close>: what is removed, and what is left; a negative number removes nothing.\<close>

definition splice_front :: "int \<Rightarrow> 'a list \<Rightarrow> 'a list \<times> 'a list" where
  "splice_front n xs = (take (nat n) xs, drop (nat n) xs)"

text \<open>The properties that a spread copies.\<close>

definition spread_of :: "json \<Rightarrow> (string, json) js_map" where
  "spread_of v = (case v of
     JObj kvs \<Rightarrow> kvs
   | JArr vs \<Rightarrow> map (\<lambda>(i, x). (nat_str i, x)) (enumerate 0 vs)
   | JStr s \<Rightarrow> map (\<lambda>(i, c). (nat_str i, JStr [c])) (enumerate 0 s)
   | _ \<Rightarrow> [])"

definition addSourceOverwrite :: "json \<Rightarrow> json \<Rightarrow> json" where
  "addSourceOverwrite sourceData pairedItem = (case pairedItem of
     JNum n \<Rightarrow> JObj [(''item'', JNum n), (''sourceOverwrite'', sourceData)]
   | _ \<Rightarrow> JObj (map_set ''sourceOverwrite'' sourceData (spread_of pairedItem)))"

definition getPairedItemInformation :: "json \<Rightarrow> INodeExecutionData \<Rightarrow> json" where
  "getPairedItemInformation sourceData item = (case item_pairedItem item of
     None \<Rightarrow> JObj [(''item'', JNum 0), (''sourceOverwrite'', sourceData)]
   | Some (JArr ps) \<Rightarrow> JArr (map (addSourceOverwrite sourceData) ps)
   | Some p \<Rightarrow> addSourceOverwrite sourceData p)"

definition processed_item :: "json \<Rightarrow> nat \<times> INodeExecutionData \<Rightarrow> INodeExecutionData" where
  "processed_item sourceOverwrite = (\<lambda>(index, item).
     item \<lparr> item_pairedItem := Some (JObj [(''sourceOverwrite'', sourceOverwrite), (''item'', JNum (of_nat index))]) \<rparr>)"

definition first_call :: "loop_context \<Rightarrow> loop_call \<Rightarrow> loop_context \<times> INodeExecutionData list" where
  "first_call ctx c =
     (case splice_front (call_batchSize c) (call_items c) of (returnItems, rest) \<Rightarrow>
        (ctx \<lparr> lc_currentRunIndex := 0,
              lc_maxRunIndex := (if call_batchSize c = 0 then None
                else Some \<lceil>rat_of_nat (length (call_items c)) / rat_of_int (call_batchSize c)\<rceil>),
              lc_sourceData := call_source c, lc_items := Some rest, lc_processedItems := [] \<rparr>,
         returnItems))"

definition further_call :: "loop_context \<Rightarrow> INodeExecutionData list \<Rightarrow> loop_call \<Rightarrow> loop_context \<times> INodeExecutionData list" where
  "further_call ctx items c =
     (case splice_front (call_batchSize c) items of (returnItems, rest) \<Rightarrow>
        (ctx \<lparr> lc_currentRunIndex := lc_currentRunIndex ctx + 1, lc_items := Some rest,
              lc_processedItems := lc_processedItems ctx @
                map (processed_item (call_source c)) (enumerate 0 (call_items c)) \<rparr>,
         map (\<lambda>item. item \<lparr> item_pairedItem := Some (getPairedItemInformation (lc_sourceData ctx) item) \<rparr>) returnItems))"

text \<open>The two outputs: done, and loop.\<close>

definition SplitInBatchesV3_execute ::
  "loop_context \<Rightarrow> loop_call \<Rightarrow> loop_context \<times> (INodeExecutionData list \<times> INodeExecutionData list)" where
  "SplitInBatchesV3_execute ctx c =
     (case (case lc_items ctx of
              Some items \<Rightarrow> if call_reset c then first_call ctx c else further_call ctx items c
            | None \<Rightarrow> first_call ctx c) of
        (ctx1, returnItems) \<Rightarrow>
          (let ctx2 = ctx1 \<lparr> lc_noItemsLeft := (lc_items ctx1 = Some []) \<rparr> in
           if returnItems = [] then (ctx2 \<lparr> lc_done := True \<rparr>, (lc_processedItems ctx2, []))
           else (ctx2 \<lparr> lc_done := False \<rparr>, ([], returnItems))))"

section \<open>A run of the loop\<close>

text \<open>The calls of an execution one after the other, on the context that the node keeps.\<close>

fun loop_run :: "loop_context \<Rightarrow> loop_call list \<Rightarrow> (INodeExecutionData list \<times> INodeExecutionData list) list" where
  "loop_run ctx [] = []"
| "loop_run ctx (c # cs) = (case SplitInBatchesV3_execute ctx c of (ctx', out) \<Rightarrow> out # loop_run ctx' cs)"

text \<open>What the loop promises: the batches of the first input, and what has come back so far.\<close>

definition batch :: "nat \<Rightarrow> 'a list \<Rightarrow> nat \<Rightarrow> 'a list" where
  "batch b xs k = take b (drop (k * b) xs)"

definition collected :: "loop_call list \<Rightarrow> INodeExecutionData list" where
  "collected cs = concat (map (\<lambda>c. map (processed_item (call_source c)) (enumerate 0 (call_items c))) cs)"

definition same_items :: "INodeExecutionData list \<Rightarrow> INodeExecutionData list \<Rightarrow> bool" where
  "same_items xs ys = (map (\<lambda>x. x \<lparr> item_pairedItem := None \<rparr>) xs = map (\<lambda>y. y \<lparr> item_pairedItem := None \<rparr>) ys)"

lemma batch_empty: "0 < b \<Longrightarrow> batch b xs k = [] \<longleftrightarrow> length xs \<le> k * b"
  by (auto simp: batch_def)

lemma batches_are_all: "0 < b \<Longrightarrow> concat (map (batch b xs) [0..<k]) = take (k * b) xs"
proof (induction k)
  case (Suc k)
  have "take (Suc k * b) xs = take (k * b) xs @ take b (drop (k * b) xs)"
    by (metis add.commute mult_Suc take_add)
  with Suc show ?case by (simp add: batch_def)
qed simp

text \<open>In the middle of the loop: \<open>k\<close> batches are out and the rest is kept.\<close>

lemma loop_next:
  assumes "lc_items ctx = Some (drop (k * b) xs)" "call_batchSize c = int b" "\<not> call_reset c"
  shows "\<exists>ctx' bs. SplitInBatchesV3_execute ctx c =
      (ctx', if batch b xs k = [] then (lc_processedItems ctx @ collected [c], []) else ([], bs)) \<and>
    same_items bs (batch b xs k) \<and>
    lc_items ctx' = Some (drop (Suc k * b) xs) \<and>
    lc_processedItems ctx' = lc_processedItems ctx @ collected [c]"
  using assms
  by (auto simp: SplitInBatchesV3_execute_def further_call_def splice_front_def Let_def collected_def
      same_items_def batch_def add.commute)

definition loop_outcome ::
  "nat \<Rightarrow> INodeExecutionData list \<Rightarrow> loop_call list \<Rightarrow> nat \<Rightarrow> INodeExecutionData list \<times> INodeExecutionData list \<Rightarrow> bool" where
  "loop_outcome b xs cs k = (\<lambda>(finished, looped).
     if length xs \<le> k * b then finished = collected (take k cs) \<and> looped = []
     else finished = [] \<and> same_items looped (batch b xs k))"

lemma collected_append [simp]: "collected (xs @ ys) = collected xs @ collected ys"
  by (simp add: collected_def)

lemma loop_rest:
  assumes "lc_items ctx = Some (drop (Suc (length ds) * b) xs)" "lc_processedItems ctx = collected ds"
    and "list_all (\<lambda>d. call_batchSize d = int b \<and> \<not> call_reset d) rest" "0 < b"
  shows "list_all (\<lambda>(k, out). loop_outcome b xs (ds @ rest) k out)
    (enumerate (Suc (length ds)) (loop_run ctx rest))"
  using assms
proof (induction rest arbitrary: ctx ds)
  case Nil
  then show ?case by simp
next
  case (Cons c rest)
  let ?k = "Suc (length ds)"
  from Cons.prems obtain ctx' bs where e: "SplitInBatchesV3_execute ctx c =
      (ctx', if batch b xs ?k = [] then (lc_processedItems ctx @ collected [c], []) else ([], bs))"
    and bs: "same_items bs (batch b xs ?k)"
    and ctx': "lc_items ctx' = Some (drop (Suc ?k * b) xs)" "lc_processedItems ctx' = collected (ds @ [c])"
    using loop_next [of ctx ?k b xs c] by auto
  have "loop_outcome b xs (ds @ c # rest) ?k
      (if batch b xs ?k = [] then (lc_processedItems ctx @ collected [c], []) else ([], bs))"
    using bs Cons.prems(2,4) by (auto simp: loop_outcome_def batch_empty)
  moreover have "list_all (\<lambda>(k, out). loop_outcome b xs ((ds @ [c]) @ rest) k out)
      (enumerate (Suc (length (ds @ [c]))) (loop_run ctx' rest))"
    using Cons.prems ctx' by (intro Cons.IH) simp_all
  ultimately show ?case by (simp add: e)
qed

text \<open>C28: a loop that is started or reset hands out its input in batches, in order: call number \<open>k\<close> gives batch
  \<open>k\<close> while there is one, with every item unchanged but for what it is paired with; from then on it
  gives everything that has come back, in order, and nothing else.
\<close>

theorem loop_gives_batches:
  assumes "0 < b" and "lc_items ctx = None \<or> call_reset c" and "call_batchSize c = int b"
    and "list_all (\<lambda>d. call_batchSize d = int b \<and> \<not> call_reset d) cs"
  shows "length (loop_run ctx (c # cs)) = Suc (length cs) \<and>
    list_all (\<lambda>(k, out). loop_outcome b (call_items c) cs k out) (enumerate 0 (loop_run ctx (c # cs)))"
proof -
  obtain ctx' out where e: "SplitInBatchesV3_execute ctx c = (ctx', out)" by (cases "SplitInBatchesV3_execute ctx c")
  have first: "(case lc_items ctx of Some items \<Rightarrow> if call_reset c then first_call ctx c else further_call ctx items c
      | None \<Rightarrow> first_call ctx c) = first_call ctx c"
    using assms(2) by (auto split: option.splits)
  have ctx': "lc_items ctx' = Some (drop (Suc (length []) * b) (call_items c))" "lc_processedItems ctx' = collected []"
    and out: "loop_outcome b (call_items c) cs 0 out"
    using e assms(1,3) unfolding SplitInBatchesV3_execute_def first
    by (auto simp: first_call_def splice_front_def Let_def collected_def loop_outcome_def same_items_def batch_def
        split: if_splits)
  have len: "length (loop_run x ds) = length ds" for x ds
    by (induction x ds rule: loop_run.induct) (auto split: prod.splits)
  have "list_all (\<lambda>(k, out). loop_outcome b (call_items c) cs k out) (enumerate 1 (loop_run ctx' cs))"
    using loop_rest [of ctx' "[]" b "call_items c" cs] assms(1,4) ctx' by simp
  with out show ?thesis by (simp add: e len)
qed

text \<open>A context in which the loop runs over three items, two at a time.\<close>

definition letter_item :: "string \<Rightarrow> INodeExecutionData" where
  "letter_item s = empty_item \<lparr> item_json := JObj [(''id'', JStr s)] \<rparr>"

definition sample_call :: "INodeExecutionData list \<Rightarrow> loop_call" where
  "sample_call xs = \<lparr> call_items = xs, call_batchSize = 2, call_reset = False, call_source = JNull \<rparr>"

theorem loop_gives_batches_witness:
  "map (\<lambda>(finished, looped). (map item_json finished, map item_json looped))
     (loop_run fresh_context [sample_call [letter_item ''a'', letter_item ''b'', letter_item ''c''],
        sample_call [letter_item ''A''], sample_call [letter_item ''C'']]) =
   [([], [item_json (letter_item ''a''), item_json (letter_item ''b'')]), ([], [item_json (letter_item ''c'')]),
    ([item_json (letter_item ''A''), item_json (letter_item ''C'')], [])] \<and>
   list_all (\<lambda>(k, out). loop_outcome 2 [letter_item ''a'', letter_item ''b'', letter_item ''c'']
       [sample_call [letter_item ''A''], sample_call [letter_item ''C'']] k out)
     (enumerate 0 (loop_run fresh_context [sample_call [letter_item ''a'', letter_item ''b'', letter_item ''c''],
        sample_call [letter_item ''A''], sample_call [letter_item ''C'']]))"
proof -
  let ?c = "sample_call [letter_item ''a'', letter_item ''b'', letter_item ''c'']"
  let ?cs = "[sample_call [letter_item ''A''], sample_call [letter_item ''C'']]"
  have "map (\<lambda>(finished, looped). (map item_json finished, map item_json looped)) (loop_run fresh_context (?c # ?cs)) =
   [([], [item_json (letter_item ''a''), item_json (letter_item ''b'')]), ([], [item_json (letter_item ''c'')]),
    ([item_json (letter_item ''A''), item_json (letter_item ''C'')], [])]"
    by code_simp
  moreover have "list_all (\<lambda>(k, out). loop_outcome 2 (call_items ?c) ?cs k out) (enumerate 0 (loop_run fresh_context (?c # ?cs)))"
    using loop_gives_batches [of 2 fresh_context ?c ?cs] by (simp add: fresh_context_def sample_call_def)
  moreover have "call_items ?c = [letter_item ''a'', letter_item ''b'', letter_item ''c'']" by (simp add: sample_call_def)
  ultimately show ?thesis by (simp only: simp_thms)
qed

text \<open>With a batch size of zero the loop is done at once, and its items are lost.\<close>

lemma empty_batches_lose_items:
  "snd (SplitInBatchesV3_execute fresh_context (sample_call xs \<lparr> call_batchSize := 0 \<rparr>)) = ([], [])"
  by (simp add: SplitInBatchesV3_execute_def first_call_def splice_front_def Let_def sample_call_def fresh_context_def)

text \<open>A loop that is done and gets a new input does not loop over it: the input counts as come back.\<close>

lemma finished_loop_collects:
  assumes "lc_items ctx = Some []" "\<not> call_reset c"
  shows "snd (SplitInBatchesV3_execute ctx c) = (lc_processedItems ctx @ collected [c], [])"
  using assms by (simp add: SplitInBatchesV3_execute_def further_call_def splice_front_def Let_def collected_def)

end
