(* ===== verification/MergeFacts.thy ===== *)
theory MergeFacts
  imports MergeNode LoopNode
begin

text \<open>
  What merging by fields gives: the matches are exactly the pairs of items whose fields are equal, the
  modes that keep matches and that keep the others split an input between them, and enriching
  keeps every item of the input that is enriched.
\<close>

section \<open>The matches\<close>

text \<open>The items of the second input that are found for an item of the first, with their positions.\<close>

definition complete_lookup :: "merge_library \<Rightarrow> MatchFieldsOptions \<Rightarrow> PairToMatch list \<Rightarrow> INodeExecutionData \<Rightarrow> bool" where
  "complete_lookup lib options pairs e1 =
     (\<not> list_ex (\<lambda>(k, v). v = JUndefined) (lookup_of lib (mo_disableDotNotation options) pairs e1))"

definition joins :: "merge_library \<Rightarrow> MatchFieldsOptions \<Rightarrow> PairToMatch list \<Rightarrow> INodeExecutionData \<Rightarrow> INodeExecutionData \<Rightarrow> bool" where
  "joins lib options pairs e1 e2 =
     (complete_lookup lib options pairs e1 \<and>
      entry_matches lib (mo_disableDotNotation options) (fuzzyCompare lib (mo_fuzzyCompare options) 1)
        (lookup_of lib (mo_disableDotNotation options) pairs e1) e2)"

definition keeps_all :: "MatchFieldsOptions \<Rightarrow> bool" where
  "keeps_all options = (mo_multipleMatches options = [] \<or> mo_multipleMatches options = ''all'')"

definition found ::
  "merge_library \<Rightarrow> MatchFieldsOptions \<Rightarrow> PairToMatch list \<Rightarrow> INodeExecutionData list \<Rightarrow> INodeExecutionData \<Rightarrow>
   (nat \<times> INodeExecutionData) list" where
  "found lib options pairs data2 e1 =
     (let hits = filter (\<lambda>(i, e2). joins lib options pairs e1 e2) (enumerate 0 data2) in
      if keeps_all options then hits else take 1 hits)"

definition grouped ::
  "merge_library \<Rightarrow> MatchFieldsOptions \<Rightarrow> PairToMatch list \<Rightarrow> INodeExecutionData list \<Rightarrow> INodeExecutionData \<Rightarrow> EntryMatches list" where
  "grouped lib options pairs data2 e1 =
     (let matches = map snd (found lib options pairs data2 e1) in
      if separate_matches options then map (\<lambda>m. \<lparr> em_entry = e1, em_matches = [m] \<rparr>) matches
      else [\<lparr> em_entry = e1, em_matches = matches \<rparr>])"

lemma find_take: "(case find P xs of Some x \<Rightarrow> [x] | None \<Rightarrow> []) = take 1 (filter P xs)"
  by (induction xs) auto

lemma foldl_set_add: "set (foldl (\<lambda>s (i, e). set_add i s) s ms) = set s \<union> fst ` set ms"
  by (induction ms arbitrary: s) (simp_all add: set_set_add case_prod_beta)

lemma found_incomplete: "\<not> complete_lookup lib options pairs e1 \<Longrightarrow> found lib options pairs data2 e1 = []"
  by (simp add: found_def joins_def Let_def)

lemma found_complete:
  assumes "complete_lookup lib options pairs e1"
  shows "found lib options pairs data2 e1 =
    (let dots = mo_disableDotNotation options; eq = fuzzyCompare lib (mo_fuzzyCompare options) 1;
         lookup = lookup_of lib dots pairs e1 in
     if (if mo_multipleMatches options = [] then ''all'' else mo_multipleMatches options) = ''all''
     then findAllMatches lib data2 lookup dots eq else findFirstMatch lib data2 lookup dots eq)"
  using assms
  by (simp add: found_def joins_def findAllMatches_def findFirstMatch_def find_take keeps_all_def Let_def)

lemma match_entry_found:
  "match_entry lib data2 pairs options (fd, s) e1 =
     (if found lib options pairs data2 e1 = []
      then (fd \<lparr> fd_unmatched1 := fd_unmatched1 fd @ [e1] \<rparr>, s)
      else (fd \<lparr> fd_matched := fd_matched fd @ grouped lib options pairs data2 e1 \<rparr>,
            foldl (\<lambda>s (i, _). set_add i s) s (found lib options pairs data2 e1)))"
proof (cases "complete_lookup lib options pairs e1")
  case False
  then show ?thesis
    by (simp add: match_entry_def found_incomplete Let_def) (simp add: complete_lookup_def)
next
  case True
  then have "\<not> list_ex (\<lambda>(k, v). v = JUndefined) (lookup_of lib (mo_disableDotNotation options) pairs e1)"
    by (simp add: complete_lookup_def)
  moreover have "(if (if mo_multipleMatches options = [] then ''all'' else mo_multipleMatches options) = ''all''
      then findAllMatches lib data2 (lookup_of lib (mo_disableDotNotation options) pairs e1)
        (mo_disableDotNotation options) (fuzzyCompare lib (mo_fuzzyCompare options) 1)
      else findFirstMatch lib data2 (lookup_of lib (mo_disableDotNotation options) pairs e1)
        (mo_disableDotNotation options) (fuzzyCompare lib (mo_fuzzyCompare options) 1)) =
    found lib options pairs data2 e1"
    using found_complete [OF True] by (simp only: Let_def)
  ultimately show ?thesis
    unfolding match_entry_def grouped_def by (simp only: Let_def prod.case if_False) simp
qed

text \<open>The whole loop: what it has collected and which positions were matched.\<close>

lemma matches_loop:
  "\<exists>s'. foldl (match_entry lib data2 pairs options) (fd, s) data1 =
      (fd \<lparr> fd_matched := fd_matched fd @
              concat (map (grouped lib options pairs data2) (filter (\<lambda>e. found lib options pairs data2 e \<noteq> []) data1)),
           fd_unmatched1 := fd_unmatched1 fd @ filter (\<lambda>e. found lib options pairs data2 e = []) data1 \<rparr>, s') \<and>
    set s' = set s \<union> fst ` (\<Union>e \<in> set data1. set (found lib options pairs data2 e))"
proof (induction data1 arbitrary: fd s)
  case Nil
  show ?case by simp
next
  case (Cons e data1)
  show ?case
  proof (cases "found lib options pairs data2 e = []")
    case True
    with Cons [of "fd \<lparr> fd_unmatched1 := fd_unmatched1 fd @ [e] \<rparr>" s] show ?thesis
      by (simp add: match_entry_found)
  next
    case False
    with Cons [of "fd \<lparr> fd_matched := fd_matched fd @ grouped lib options pairs data2 e \<rparr>"
        "foldl (\<lambda>s (i, _). set_add i s) s (found lib options pairs data2 e)"] show ?thesis
      by (fastforce simp: match_entry_found foldl_set_add image_Un)
  qed
qed

lemma findMatches_found:
  defines "hit \<equiv> (\<lambda>lib options pairs data1 data2 i. \<exists>e \<in> set data1. i \<in> fst ` set (found lib options pairs data2 e))"
  shows "fd_matched (findMatches lib data1 data2 pairs options) =
      concat (map (grouped lib options pairs data2) (filter (\<lambda>e. found lib options pairs data2 e \<noteq> []) data1))"
    and "fd_unmatched1 (findMatches lib data1 data2 pairs options) =
      filter (\<lambda>e. found lib options pairs data2 e = []) data1"
    and "fd_matched2 (findMatches lib data1 data2 pairs options) =
      map snd (filter (\<lambda>(i, e). hit lib options pairs data1 data2 i) (enumerate 0 data2))"
    and "fd_unmatched2 (findMatches lib data1 data2 pairs options) =
      map snd (filter (\<lambda>(i, e). \<not> hit lib options pairs data1 data2 i) (enumerate 0 data2))"
proof -
  obtain s' where s': "foldl (match_entry lib data2 pairs options)
      (\<lparr> fd_matched = [], fd_matched2 = [], fd_unmatched1 = [], fd_unmatched2 = [] \<rparr>, []) data1 =
      (\<lparr> fd_matched = concat (map (grouped lib options pairs data2) (filter (\<lambda>e. found lib options pairs data2 e \<noteq> []) data1)),
         fd_matched2 = [], fd_unmatched1 = filter (\<lambda>e. found lib options pairs data2 e = []) data1, fd_unmatched2 = [] \<rparr>, s')"
    "set s' = fst ` (\<Union>e \<in> set data1. set (found lib options pairs data2 e))"
    using matches_loop [of lib data2 pairs options
        "\<lparr> fd_matched = [], fd_matched2 = [], fd_unmatched1 = [], fd_unmatched2 = [] \<rparr>" "[]" data1] by auto
  have "i \<in> set s' \<longleftrightarrow> hit lib options pairs data1 data2 i" for i
    by (auto simp: s'(2) hit_def)
  then show "fd_matched (findMatches lib data1 data2 pairs options) =
      concat (map (grouped lib options pairs data2) (filter (\<lambda>e. found lib options pairs data2 e \<noteq> []) data1))"
    "fd_unmatched1 (findMatches lib data1 data2 pairs options) = filter (\<lambda>e. found lib options pairs data2 e = []) data1"
    "fd_matched2 (findMatches lib data1 data2 pairs options) =
      map snd (filter (\<lambda>(i, e). hit lib options pairs data1 data2 i) (enumerate 0 data2))"
    "fd_unmatched2 (findMatches lib data1 data2 pairs options) =
      map snd (filter (\<lambda>(i, e). \<not> hit lib options pairs data1 data2 i) (enumerate 0 data2))"
    by (simp_all add: findMatches_def s'(1))
qed

lemma found_empty: "found lib options pairs data2 e1 = [] \<longleftrightarrow> \<not> list_ex (joins lib options pairs e1) data2"
proof -
  have "filter (\<lambda>(i, e2). P e2) (enumerate n data2) = [] \<longleftrightarrow> \<not> list_ex P data2" for P n
    by (induction data2 arbitrary: n) auto
  then show ?thesis by (simp add: found_def Let_def)
qed

lemma snd_filter_enumerate: "map snd (filter (\<lambda>(i, e). P e) (enumerate n xs)) = filter P xs"
  by (induction xs arbitrary: n) auto

definition matched_pairs :: "EntryMatches list \<Rightarrow> (INodeExecutionData \<times> INodeExecutionData) list" where
  "matched_pairs ms = concat (map (\<lambda>m. map (Pair (em_entry m)) (em_matches m)) ms)"

text \<open>
  The items join on every pair of fields; of several pairs with the same second field only the last
  counts, since the values to find are stored under the names of the second fields.
\<close>

fun last_pairs :: "PairToMatch list \<Rightarrow> PairToMatch list" where
  "last_pairs [] = []"
| "last_pairs (p # ps) = (if pm_field2 p \<in> pm_field2 ` set ps then last_pairs ps else p # last_pairs ps)"

definition fields_join :: "merge_library \<Rightarrow> MatchFieldsOptions \<Rightarrow> PairToMatch list \<Rightarrow> INodeExecutionData \<Rightarrow> INodeExecutionData \<Rightarrow> bool" where
  "fields_join lib options pairs e1 e2 =
     (let value_of = field_value lib (mo_disableDotNotation options) in
      list_all (\<lambda>p. value_of e1 (pm_field1 p) \<noteq> JUndefined \<and>
        fuzzyCompare lib (mo_fuzzyCompare options) 1 (value_of e1 (pm_field1 p)) (value_of e2 (pm_field2 p))) (last_pairs pairs))"

lemma last_pairs_distinct: "distinct (map pm_field2 pairs) \<Longrightarrow> last_pairs pairs = pairs"
  by (induction pairs) auto

lemma stored_pairs:
  "distinct (map_keys m) \<Longrightarrow>
   set (foldl (\<lambda>m p. map_set (pm_field2 p) (g p) m) m ps) =
     {e \<in> set m. fst e \<notin> pm_field2 ` set ps} \<union> (\<lambda>p. (pm_field2 p, g p)) ` set (last_pairs ps)"
proof (induction ps arbitrary: m)
  case (Cons p ps)
  have "distinct (map_keys (map_set (pm_field2 p) (g p) m))" using Cons.prems by simp
  from Cons.IH [OF this] Cons.prems show ?case by (auto simp: set_map_set)
qed simp

lemma joins_fields: "joins lib options pairs e1 e2 = fields_join lib options pairs e1 e2"
proof -
  have "set (lookup_of lib dots pairs e1) =
      (\<lambda>p. (pm_field2 p, field_value lib dots e1 (pm_field1 p))) ` set (last_pairs pairs)" for dots
    unfolding lookup_of_def by (subst stored_pairs) simp_all
  then show ?thesis
    by (auto simp: joins_def complete_lookup_def entry_matches_def fields_join_def Let_def list_all_iff list_ex_iff)
qed

lemma found_all_hits:
  assumes "keeps_all options"
  shows "i \<in> fst ` set (found lib options pairs data2 e1) \<longleftrightarrow> i < length data2 \<and> joins lib options pairs e1 (data2 ! i)"
  using assms by (force simp: found_def Let_def in_set_enumerate_eq image_iff)

lemma filter_by_position:
  assumes "\<And>i. i < length xs \<Longrightarrow> P i = Q (xs ! i)"
  shows "map snd (filter (\<lambda>(i, e). P i) (enumerate 0 xs)) = filter Q xs"
proof -
  have "filter (\<lambda>(i, e). P i) (enumerate 0 xs) = filter (\<lambda>(i, e). Q e) (enumerate 0 xs)"
    by (rule filter_cong) (auto simp: in_set_enumerate_eq assms)
  then show ?thesis by (simp add: snd_filter_enumerate)
qed

lemma pairs_of_group:
  "matched_pairs (grouped lib options pairs data2 e1) = map (Pair e1) (map snd (found lib options pairs data2 e1))"
proof -
  have "concat (map (\<lambda>m. map (Pair (em_entry m)) (em_matches m)) (map (\<lambda>m. \<lparr> em_entry = e, em_matches = [m] \<rparr>) ms)) =
      map (Pair e) ms" for e and ms :: "INodeExecutionData list"
    by (induction ms) auto
  then show ?thesis by (simp add: matched_pairs_def grouped_def Let_def del: map_map)
qed

lemma matched_pairs_groups:
  "matched_pairs (concat (map (grouped lib options pairs data2) (filter (\<lambda>e. found lib options pairs data2 e \<noteq> []) data1))) =
   concat (map (\<lambda>e1. map (Pair e1) (map snd (found lib options pairs data2 e1))) data1)"
proof (induction data1)
  case (Cons e data1)
  have "matched_pairs (xs @ ys) = matched_pairs xs @ matched_pairs ys" for xs ys by (simp add: matched_pairs_def)
  with Cons show ?case by (simp add: pairs_of_group)
qed (simp add: matched_pairs_def)

text \<open>In the mode of first matches: the position of an item that is the first to agree with some item.\<close>

lemma found_first_hit:
  assumes "\<not> keeps_all options"
  shows "i \<in> fst ` set (found lib options pairs data2 e1) \<longleftrightarrow>
    i < length data2 \<and> joins lib options pairs e1 (data2 ! i) \<and> \<not> list_ex (joins lib options pairs e1) (take i data2)"
proof -
  have "i \<in> fst ` set (take 1 (filter (\<lambda>(i, e). P e) (enumerate n xs))) \<longleftrightarrow>
      n \<le> i \<and> i - n < length xs \<and> P (xs ! (i - n)) \<and> \<not> list_ex P (take (i - n) xs)" for P n and xs :: "'a list"
  proof (induction xs arbitrary: n)
    case (Cons x xs)
    show ?case
    proof (cases "P x")
      case True
      then show ?thesis by (cases "i - n") auto
    next
      case False
      have "(i - n < length (x # xs) \<and> P ((x # xs) ! (i - n)) \<and> \<not> list_ex P (take (i - n) (x # xs)) \<and> n \<le> i) =
          (Suc n \<le> i \<and> i - Suc n < length xs \<and> P (xs ! (i - Suc n)) \<and> \<not> list_ex P (take (i - Suc n) xs))"
      proof (cases "Suc n \<le> i")
        case True
        then obtain k where "i = Suc n + k" using le_Suc_ex by blast
        then show ?thesis using False by simp
      qed (use False in auto)
      with False Cons.IH [of "Suc n"] show ?thesis by auto
    qed
  qed simp
  from this [of "joins lib options pairs e1" 0 data2] assms show ?thesis by (simp add: found_def Let_def)
qed

text \<open>C26: the matches are the join of the two inputs: an item of the first input is unmatched exactly when no item
  of the second agrees with it in every pair of fields (of pairs with the same second field, the last), and
  the pairs that are matched are, in order, all the pairs of items that agree. An item of the second
  input is matched exactly when some item of the first agrees with it, and unmatched otherwise. When only
  first matches are taken, each item of the first input is paired with the first item that agrees, and an
  item of the second input is matched exactly when it is the first to agree with some item.
\<close>

theorem matches_exact:
  "let m = findMatches lib data1 data2 pairs options; agree = fields_join lib options pairs;
       hit = (\<lambda>i e2. if keeps_all options then list_ex (\<lambda>e1. agree e1 e2) data1
                    else list_ex (\<lambda>e1. agree e1 e2 \<and> \<not> list_ex (agree e1) (take i data2)) data1) in
    fd_unmatched1 m = filter (\<lambda>e1. \<not> list_ex (agree e1) data2) data1 \<and>
    matched_pairs (fd_matched m) = concat (map (\<lambda>e1. map (Pair e1)
      (if keeps_all options then filter (agree e1) data2 else take 1 (filter (agree e1) data2))) data1) \<and>
    fd_matched2 m = map snd (filter (\<lambda>(i, e2). hit i e2) (enumerate 0 data2)) \<and>
    fd_unmatched2 m = map snd (filter (\<lambda>(i, e2). \<not> hit i e2) (enumerate 0 data2))"
proof -
  let ?m = "findMatches lib data1 data2 pairs options" and ?agree = "fields_join lib options pairs"
  let ?hit = "\<lambda>i e2. if keeps_all options then list_ex (\<lambda>e1. ?agree e1 e2) data1
    else list_ex (\<lambda>e1. ?agree e1 e2 \<and> \<not> list_ex (?agree e1) (take i data2)) data1"
  have agree: "joins lib options pairs = ?agree" by (intro ext) (rule joins_fields)
  have sent: "map snd (found lib options pairs data2 e1) =
      (if keeps_all options then filter (?agree e1) data2 else take 1 (filter (?agree e1) data2))" for e1
    using snd_filter_enumerate [of "?agree e1" 0 data2]
    by (simp add: found_def Let_def agree take_map [symmetric])
  have hit: "(\<exists>e \<in> set data1. i \<in> fst ` set (found lib options pairs data2 e)) = ?hit i e2"
    if "(i, e2) \<in> set (enumerate 0 data2)" for i e2
    using that by (cases "keeps_all options")
      (auto simp: found_all_hits found_first_hit agree list_ex_iff in_set_enumerate_eq)
  have "fd_unmatched1 ?m = filter (\<lambda>e1. \<not> list_ex (?agree e1) data2) data1"
    by (simp add: findMatches_found found_empty agree)
  moreover have "matched_pairs (fd_matched ?m) = concat (map (\<lambda>e1. map (Pair e1)
      (if keeps_all options then filter (?agree e1) data2 else take 1 (filter (?agree e1) data2))) data1)"
    by (simp only: findMatches_found matched_pairs_groups sent)
  moreover have "fd_matched2 ?m = map snd (filter (\<lambda>(i, e2). ?hit i e2) (enumerate 0 data2))"
    unfolding findMatches_found by (intro arg_cong [where f = "map snd"] filter_cong refl) (use hit in blast)
  moreover have "fd_unmatched2 ?m = map snd (filter (\<lambda>(i, e2). \<not> ?hit i e2) (enumerate 0 data2))"
    unfolding findMatches_found by (intro arg_cong [where f = "map snd"] filter_cong refl) (use hit in blast)
  ultimately show ?thesis by (simp only: Let_def)
qed

definition plain_merge_library :: merge_library where
  "plain_merge_library = \<lparr> ml_get = json_get, ml_isEqual = (\<lambda>v w. v = w), ml_parse = (\<lambda>s. None),
     ml_number_text = (\<lambda>q. int_str \<lfloor>q\<rfloor>), ml_lower = id, ml_merge = (\<lambda>t vs. js_assign (t # vs)),
     ml_mergeWith = (\<lambda>f t vs. js_assign (t # vs)), ml_assignWith = (\<lambda>f t vs. js_assign (t # vs)) \<rparr>"

definition keyed_item :: "string \<Rightarrow> string \<Rightarrow> INodeExecutionData" where
  "keyed_item k v = empty_item \<lparr> item_json := JObj [(''id'', JStr k), (''value'', JStr v)] \<rparr>"

definition id_pairs :: "PairToMatch list" where
  "id_pairs = [\<lparr> pm_field1 = ''id'', pm_field2 = ''id'' \<rparr>]"

definition match_options :: "string \<Rightarrow> string \<Rightarrow> string \<Rightarrow> MatchFieldsOptions" where
  "match_options joinMode outputDataFrom multiple = \<lparr> mo_joinMode = joinMode, mo_outputDataFrom = outputDataFrom,
     mo_multipleMatches = multiple, mo_disableDotNotation = False, mo_fuzzyCompare = False \<rparr>"

lemma matches_example:
  "(let m = findMatches plain_merge_library [keyed_item ''a'' ''1'', keyed_item ''b'' ''2'']
      [keyed_item ''b'' ''3'', keyed_item ''b'' ''4''] id_pairs (match_options ''keepMatches'' ''both'' []) in
    matched_pairs (fd_matched m) =
      [(keyed_item ''b'' ''2'', keyed_item ''b'' ''3''), (keyed_item ''b'' ''2'', keyed_item ''b'' ''4'')])"
  by code_simp

section \<open>The modes\<close>

definition side_name :: "bool \<Rightarrow> string" where
  "side_name first = (if first then ''input1'' else ''input2'')"

definition with_mode :: "string \<Rightarrow> string \<Rightarrow> combine_parameters \<Rightarrow> combine_parameters" where
  "with_mode joinMode outputDataFrom ps = ps \<lparr> cp_options := cp_options ps \<lparr> mo_joinMode := joinMode, mo_outputDataFrom := outputDataFrom \<rparr> \<rparr>"

lemma with_mode_simps [simp]:
  "match_fields (with_mode m d ps) = match_fields ps"
  "mo_joinMode (cp_options (with_mode m d ps)) = m" "mo_outputDataFrom (cp_options (with_mode m d ps)) = d"
  "mo_disableDotNotation (cp_options (with_mode m d ps)) = mo_disableDotNotation (cp_options ps)"
  "cp_typeVersion (with_mode m d ps) = cp_typeVersion ps" "cp_clashHandling (with_mode m d ps) = cp_clashHandling ps"
  "cp_options (with_mode m d ps) = cp_options ps \<lparr> mo_joinMode := m, mo_outputDataFrom := d \<rparr>"
  by (simp_all add: with_mode_def match_fields_def)

lemma found_mode: "found lib (options \<lparr> mo_joinMode := m, mo_outputDataFrom := d \<rparr>) = found lib options"
  by (simp add: fun_eq_iff found_def joins_def complete_lookup_def keeps_all_def Let_def)

lemma mset_by_position: "mset (map snd (filter (\<lambda>(i, e). P i) xs)) + mset (map snd (filter (\<lambda>(i, e). \<not> P i) xs)) = mset (map snd xs)"
  by (induction xs) auto

lemma matched2_partition:
  "mset (fd_matched2 (findMatches lib data1 data2 pairs options)) +
   mset (fd_unmatched2 (findMatches lib data1 data2 pairs options)) = mset data2"
  unfolding findMatches_found by (simp only: mset_by_position map_snd_enumerate)

lemma matched1_partition:
  assumes "\<not> separate_matches options"
  shows "mset (map em_entry (fd_matched (findMatches lib data1 data2 pairs options))) +
   mset (fd_unmatched1 (findMatches lib data1 data2 pairs options)) = mset data1"
proof -
  have "map em_entry (concat (map (grouped lib options pairs data2) xs)) = xs" for xs
    using assms by (induction xs) (simp_all add: grouped_def Let_def)
  then have "mset (map em_entry (fd_matched (findMatches lib data1 data2 pairs options))) +
      mset (fd_unmatched1 (findMatches lib data1 data2 pairs options)) =
    mset (filter (\<lambda>e. found lib options pairs data2 e \<noteq> []) data1) + mset (filter (\<lambda>e. found lib options pairs data2 e = []) data1)"
    by (simp only: findMatches_found)
  moreover have "mset (filter P xs) + mset (filter (\<lambda>e. \<not> P e) xs) = mset xs" for P and xs :: "INodeExecutionData list"
    by (induction xs) auto
  note this [of "\<lambda>e. found lib options pairs data2 e \<noteq> []" data1]
  ultimately show ?thesis by (simp only: not_not)
qed

lemma unmatched_mode:
  "fd_unmatched1 (findMatches lib data1 data2 pairs (options \<lparr> mo_joinMode := m, mo_outputDataFrom := d \<rparr>)) =
   fd_unmatched1 (findMatches lib data1 data2 pairs (options \<lparr> mo_joinMode := m', mo_outputDataFrom := d \<rparr>))"
  "fd_unmatched2 (findMatches lib data1 data2 pairs (options \<lparr> mo_joinMode := m, mo_outputDataFrom := d \<rparr>)) =
   fd_unmatched2 (findMatches lib data1 data2 pairs (options \<lparr> mo_joinMode := m', mo_outputDataFrom := d \<rparr>))"
  by (simp_all only: findMatches_found found_mode)

lemma checkInput_same: "checkInput lib input names dots label = Inr input' \<Longrightarrow> input' = input"
  by (auto simp: checkInput_def split: option.splits)

text \<open>The node after its checks.\<close>

definition mode_output ::
  "merge_library \<Rightarrow> combine_parameters \<Rightarrow> string \<Rightarrow> string \<Rightarrow> INodeExecutionData list \<Rightarrow> INodeExecutionData list \<Rightarrow>
   INodeExecutionData list list res" where
  "mode_output lib ps m d input1 input2 =
     (if input1 = [] \<or> input2 = [] then Inr (empty_input_output m d input1 input2)
      else if match_fields ps = [] then
        Inr (if m = ''keepMatches'' \<or> m = ''keepEverything'' \<or> m = ''enrichInput2'' then [[]] else [input1])
      else join_output lib m d (cp_clashHandling ps)
             (findMatches lib input1 input2 (match_fields ps)
                (cp_options ps \<lparr> mo_joinMode := m, mo_outputDataFrom := d \<rparr>)))"

definition merge_checks ::
  "merge_library \<Rightarrow> combine_parameters \<Rightarrow> INodeExecutionData list \<Rightarrow> INodeExecutionData list \<Rightarrow> unit res" where
  "merge_checks lib ps input1 input2 =
     res_bind (checkMatchFieldsInput (match_fields ps)) (\<lambda>fs.
     res_bind (if cp_typeVersion ps < 21/10
       then checkInput lib input1 (map pm_field1 fs) (mo_disableDotNotation (cp_options ps)) ''Input 1'' else Inr input1) (\<lambda>_.
     res_bind (if cp_typeVersion ps < 21/10
       then checkInput lib input2 (map pm_field2 fs) (mo_disableDotNotation (cp_options ps)) ''Input 2'' else Inr input2) (\<lambda>_.
     Inr ())))"

lemma checked_same:
  "(if b then checkInput lib input names dots label else Inr input) = Inr x \<Longrightarrow> x = input"
  by (cases b) (auto dest: checkInput_same)

lemma checked_fields: "checkMatchFieldsInput fs = Inr x \<Longrightarrow> x = fs"
  by (auto simp: checkMatchFieldsInput_def split: if_splits option.splits)

lemma res_bind_assoc: "res_bind (res_bind m f) g = res_bind m (\<lambda>x. res_bind (f x) g)"
  by (cases m) simp_all

lemma res_bind_fixed: "(\<And>x. m = Inr x \<Longrightarrow> x = a) \<Longrightarrow> f a = g \<Longrightarrow> res_bind m f = res_bind m (\<lambda>_. g)"
  by (cases m) simp_all

lemma execute_mode:
  "combineByFields_execute lib (with_mode m d ps) input1 input2 =
   res_bind (merge_checks lib ps input1 input2) (\<lambda>_. mode_output lib ps m d input1 input2)"
proof (cases "checkMatchFieldsInput (match_fields ps)")
  case (Inl e)
  then show ?thesis by (simp add: combineByFields_execute_def merge_checks_def)
next
  case (Inr fs)
  then have fs: "fs = match_fields ps" by (rule checked_fields)
  have dots: "mo_disableDotNotation (cp_options ps \<lparr> mo_joinMode := m, mo_outputDataFrom := d \<rparr>) = mo_disableDotNotation (cp_options ps)"
    "mo_joinMode (cp_options ps \<lparr> mo_joinMode := m, mo_outputDataFrom := d \<rparr>) = m"
    "mo_outputDataFrom (cp_options ps \<lparr> mo_joinMode := m, mo_outputDataFrom := d \<rparr>) = d" by simp_all
  show ?thesis
    unfolding combineByFields_execute_def merge_checks_def with_mode_simps Inr res_bind_assoc res_bind_simps Let_def dots
    by (intro res_bind_fixed checked_same) (assumption | simp only: mode_output_def fs)+
qed

lemma modes_partition:
  "\<exists>kept others. mode_output lib ps ''keepMatches'' (side_name first) input1 input2 = Inr kept \<and>
    mode_output lib ps ''keepNonMatches'' (side_name first) input1 input2 = Inr others \<and>
    mset (concat kept) + mset (concat others) =
      mset (if first \<or> match_fields ps = [] \<and> input1 \<noteq> [] \<and> input2 \<noteq> [] then input1 else input2)"
proof (cases "input1 = [] \<or> input2 = []")
  case True
  then show ?thesis by (cases "input1 = []"; cases "input2 = []"; cases first) (simp_all add: mode_output_def empty_input_output_def side_name_def)
next
  case nonempty: False
  show ?thesis
  proof (cases "match_fields ps = []")
    case True
    with nonempty show ?thesis by (simp add: mode_output_def)
  next
    case False
    have sep: "\<not> separate_matches (cp_options ps \<lparr> mo_joinMode := ''keepMatches'', mo_outputDataFrom := ''input1'' \<rparr>)"
      by (simp add: separate_matches_def)
    show ?thesis
    proof (cases first)
      case True
      with False nonempty matched1_partition [OF sep, of lib input1 input2 "match_fields ps"]
        unmatched_mode(1) [where m = "''keepNonMatches''" and m' = "''keepMatches''" and options = "cp_options ps" and d = "''input1''"]
      show ?thesis by (simp add: mode_output_def join_output_def side_name_def)
    next
      case other: False
      with False nonempty matched2_partition [of lib input1 input2 "match_fields ps"
          "cp_options ps \<lparr> mo_joinMode := ''keepMatches'', mo_outputDataFrom := ''input2'' \<rparr>"]
        unmatched_mode(2) [where m = "''keepNonMatches''" and m' = "''keepMatches''" and options = "cp_options ps" and d = "''input2''"]
      show ?thesis by (simp add: mode_output_def join_output_def side_name_def)
    qed
  qed
qed

text \<open>C27: the modes that keep matches and that keep non-matches of an input split it between them: they fail together
  with the same error, and otherwise the items of one output together with those of the other are exactly
  the items of that input, none lost and none twice. (With no pair of fields both modes speak of the
  first input, whichever was asked for.)
\<close>

theorem merge_modes_partition:
  "case (combineByFields_execute lib (with_mode ''keepMatches'' (side_name first) ps) input1 input2,
         combineByFields_execute lib (with_mode ''keepNonMatches'' (side_name first) ps) input1 input2) of
     (Inr kept, Inr others) \<Rightarrow>
       mset (concat kept) + mset (concat others) =
         mset (if first \<or> match_fields ps = [] \<and> input1 \<noteq> [] \<and> input2 \<noteq> [] then input1 else input2)
   | (Inl e, Inl e') \<Rightarrow> e = e'
   | _ \<Rightarrow> False"
proof (cases "merge_checks lib ps input1 input2")
  case (Inl e)
  then show ?thesis by (simp add: execute_mode)
next
  case (Inr u)
  with modes_partition [of lib ps first input1 input2] show ?thesis by (fastforce simp only: execute_mode res_bind_simps prod.case sum.case)
qed

section \<open>Clashes\<close>

lemma map_of_stored:
  "map_of (foldl (\<lambda>m (k, v). map_set (g k) v m) m kvs) = map_of m ++ map_of (rev (map (\<lambda>(k, v). (g k, v)) kvs))"
proof (induction kvs arbitrary: m)
  case (Cons kv kvs)
  obtain k v where "kv = (k, v)" by (cases kv)
  with Cons show ?case by (auto simp: map_add_def fun_eq_iff split: option.splits)
qed simp

lemma map_of_rev: "distinct (map fst kvs) \<Longrightarrow> map_of (rev kvs) = map_of kvs"
  by (intro map_of_inject_set [THEN iffD2]) (simp_all add: rev_map [symmetric])

lemma distinct_stored: "distinct (map fst m) \<Longrightarrow> distinct (map fst (foldl (\<lambda>m (k, v). map_set (g k) v m) m kvs))"
  by (induction kvs arbitrary: m) auto

lemma get_object: "json_get (JObj m) k = (case map_of m k of None \<Rightarrow> JUndefined | Some v \<Rightarrow> v)"
  by (simp add: json_get_def)

text \<open>\<open>Object.assign\<close> on objects: the later object wins.\<close>

lemma assign_two:
  assumes "distinct (map fst a)" "distinct (map fst b)"
  shows "json_get (js_assign [js_assign [JObj a], JObj b]) k =
    (case map_of b k of Some v \<Rightarrow> v | None \<Rightarrow> json_get (JObj a) k)"
proof -
  let ?s = "foldl (\<lambda>m (k, v). map_set k v m) [] a"
  have "map_of ?s = map_of a"
    using map_of_stored [of "\<lambda>k. k" "[]" a] by (simp add: map_of_rev assms)
  moreover have "map_of (foldl (\<lambda>m (k, v). map_set k v m) (foldl (\<lambda>m (k, v). map_set k v m) [] ?s) b) = map_of ?s ++ map_of b"
    using map_of_stored [of "\<lambda>k. k" _ b] map_of_stored [of "\<lambda>k. k" "[]" ?s] distinct_stored [of "[]" "\<lambda>k. k" a]
    by (simp add: map_of_rev assms)
  ultimately show ?thesis
    by (simp add: js_assign_def props_of_def json_get_def map_add_def split: option.splits)
qed

text \<open>The object with the suffixed names.\<close>

lemma suffixed_object:
  assumes "distinct (map fst kvs)" and "s = ''_'' @ suffix"
  shows "\<exists>m. addSuffixToEntriesKeys [e \<lparr> item_json := JObj kvs \<rparr>] suffix = [e \<lparr> item_json := JObj m \<rparr>] \<and> distinct (map fst m) \<and>
    (\<forall>k. map_of m (k @ s) = map_of kvs k) \<and> (\<forall>x. (\<forall>k. x \<noteq> k @ s) \<longrightarrow> map_of m x = None)"
proof -
  let ?m = "foldl (\<lambda>m (k, v). map_set (k @ s) v m) [] kvs"
  let ?l = "map (\<lambda>(k, v). (k @ s, v)) kvs"
  have "distinct (map fst ?l)" using assms(1) by (simp add: comp_def case_prod_beta distinct_map inj_on_def)
  then have "map_of ?m = map_of ?l"
    using map_of_stored [of "\<lambda>k. k @ s" "[]" kvs] by (simp add: map_of_rev)
  moreover have "map_of ?l (k @ s) = map_of kvs k" for k by (induction kvs) auto
  moreover have "\<forall>k. x \<noteq> k @ s \<Longrightarrow> map_of ?l x = None" for x by (induction kvs) auto
  moreover have "addSuffixToEntriesKeys [e \<lparr> item_json := JObj kvs \<rparr>] suffix = [e \<lparr> item_json := JObj ?m \<rparr>]"
    by (simp add: addSuffixToEntriesKeys_def assms(2))
  ultimately show ?thesis using distinct_stored [of "[]" "\<lambda>k. k @ s" kvs] by auto
qed

definition suffix_options :: ClashResolveOptions where
  "suffix_options = \<lparr> cr_resolveClash = Some ''addSuffix'', cr_mergeMode = Some ''shallowMerge'', cr_overrideEmpty = False \<rparr>"

text \<open>When clashes are resolved by suffixes, merging two items shallowly loses nothing: every field of either item
  is in the merged item under its own name with its own suffix and has the value it had, also when both
  items have the field, and no other field is there.
\<close>

theorem suffixed_merge_keeps_fields:
  assumes "distinct (map fst kvs1)" and "distinct (map fst kvs2)"
    and "item_json e1 = JObj kvs1" and "item_json e2 = JObj kvs2"
  shows "case merge_match lib suffix_options joinMode \<lparr> em_entry = e1, em_matches = [e2] \<rparr> of
      Inr merged \<Rightarrow>
        (\<forall>k. json_get (item_json merged) (k @ ''_1'') = json_get (item_json e1) k \<and>
             json_get (item_json merged) (k @ ''_2'') = json_get (item_json e2) k) \<and>
        (\<forall>x. (\<nexists>k. x = k @ ''_1'' \<or> x = k @ ''_2'') \<longrightarrow> json_get (item_json merged) x = JUndefined)
    | Inl e \<Rightarrow> False"
proof -
  have e1: "e1 \<lparr> item_json := JObj kvs1 \<rparr> = e1" and e2: "e2 \<lparr> item_json := JObj kvs2 \<rparr> = e2"
    using assms(3,4) by (metis INodeExecutionData.surjective INodeExecutionData.update_convs(1))+
  obtain m1 where m1: "addSuffixToEntriesKeys [e1] ''1'' = [e1 \<lparr> item_json := JObj m1 \<rparr>]" "distinct (map fst m1)"
    "\<And>k. map_of m1 (k @ ''_1'') = map_of kvs1 k" "\<And>x. (\<forall>k. x \<noteq> k @ ''_1'') \<Longrightarrow> map_of m1 x = None"
    using suffixed_object [OF assms(1), of "''_1''" "''1''" e1] unfolding e1 by auto
  obtain m2 where m2: "addSuffixToEntriesKeys [e2] ''2'' = [e2 \<lparr> item_json := JObj m2 \<rparr>]" "distinct (map fst m2)"
    "\<And>k. map_of m2 (k @ ''_2'') = map_of kvs2 k" "\<And>x. (\<forall>k. x \<noteq> k @ ''_2'') \<Longrightarrow> map_of m2 x = None"
    using suffixed_object [OF assms(2), of "''_2''" "''2''" e2] unfolding e2 by auto
  obtain merged where merged: "merge_match lib suffix_options joinMode \<lparr> em_entry = e1, em_matches = [e2] \<rparr> = Inr merged"
    "item_json merged = js_assign [js_assign [JObj m1], JObj m2]"
    by (simp add: merge_match_def suffix_options_def m1(1) m2(1) merge_items_def merged_item_def selectMergeMethod_def)
  have get: "json_get (item_json merged) x = (case map_of m2 x of Some v \<Rightarrow> v | None \<Rightarrow> json_get (JObj m1) x)" for x
    unfolding merged(2) by (rule assign_two [OF m1(2) m2(2)])
  have "json_get (item_json merged) (k @ ''_1'') = json_get (item_json e1) k" for k
    using m2(4) [of "k @ ''_1''"] by (simp add: get assms(3) get_object m1(3))
  moreover have "json_get (item_json merged) (k @ ''_2'') = json_get (item_json e2) k" for k
    using m1(4) [of "k @ ''_2''"] by (simp add: get assms(4) get_object m2(3) split: option.splits)
  moreover have "json_get (item_json merged) x = JUndefined" if "\<nexists>k. x = k @ ''_1'' \<or> x = k @ ''_2''" for x
    using that m1(4) [of x] m2(4) [of x] by (simp add: get get_object)
  ultimately show ?thesis by (simp add: merged(1))
qed

theorem suffixed_merge_keeps_fields_witness:
  "case merge_match plain_merge_library suffix_options None
      \<lparr> em_entry = keyed_item ''a'' ''1'', em_matches = [keyed_item ''a'' ''2''] \<rparr> of
     Inr merged \<Rightarrow> json_get (item_json merged) (''value'' @ ''_1'') = JStr ''1'' \<and>
       json_get (item_json merged) (''value'' @ ''_2'') = JStr ''2''
   | Inl e \<Rightarrow> False"
proof -
  let ?e = "keyed_item ''a'' ''1''" and ?f = "keyed_item ''a'' ''2''"
  have json: "item_json ?e = JObj [(''id'', JStr ''a''), (''value'', JStr ''1'')]"
    "item_json ?f = JObj [(''id'', JStr ''a''), (''value'', JStr ''2'')]" by (simp_all add: keyed_item_def)
  note kept = suffixed_merge_keeps_fields [OF _ _ json, of plain_merge_library None]
  show ?thesis
  proof (cases "merge_match plain_merge_library suffix_options None \<lparr> em_entry = ?e, em_matches = [?f] \<rparr>")
    case (Inl e)
    with kept show ?thesis by simp
  next
    case (Inr merged)
    with kept have "json_get (item_json merged) (''value'' @ ''_1'') = json_get (item_json ?e) ''value'' \<and>
        json_get (item_json merged) (''value'' @ ''_2'') = json_get (item_json ?f) ''value''"
      by (simp del: append_Cons append_Nil)
    with Inr show ?thesis by (simp add: json get_object)
  qed
qed

text \<open>Two items of the second input agree with the item of the first; when only first matches are included,
  enriching the second input leaves the second of them as it was.\<close>

lemma enrich_first_leaves_second:
  "case combineByFields_execute plain_merge_library
      \<lparr> cp_advanced = False, cp_mergeByFields = [], cp_fieldsToMatchString = ''id'',
        cp_options = match_options ''enrichInput2'' ''both'' ''first'',
        cp_clashHandling = \<lparr> cr_resolveClash = None, cr_mergeMode = None, cr_overrideEmpty = False \<rparr>, cp_typeVersion = 3 \<rparr>
      [empty_item \<lparr> item_json := JObj [(''id'', JStr ''a''), (''name'', JStr ''n'')] \<rparr>]
      [keyed_item ''a'' ''1'', keyed_item ''a'' ''2''] of
     Inr [out] \<Rightarrow> map (\<lambda>e. json_get (item_json e) ''name'') out = [JStr ''n'', JUndefined]
   | _ \<Rightarrow> False"
  by code_simp

text \<open>The preferred input is taken before the suffixes are added, and is merged as it was.\<close>

lemma suffixes_keep_preferred:
  "case combineByPosition_execute plain_merge_library suffix_options False [[keyed_item ''a'' ''1''], [keyed_item ''b'' ''2'']] of
     Inr [[e]] \<Rightarrow> json_get (item_json e) ''value_1'' = JStr ''1'' \<and> json_get (item_json e) ''value_2'' = JStr ''2'' \<and>
       json_get (item_json e) ''value'' = JStr ''2''
   | _ \<Rightarrow> False"
  by code_simp
end
