(* ===== verification/Spec2Isabelle.thy ===== *)
theory Spec2Isabelle
  imports GraphProperties PartialRun EngineExamples NodeParameterFacts ActiveFacts WorkflowActivationFacts TaskBroker TaskRunner TaskRunnerWatch Permissions MultiMain WaitTrackerFacts RunnerCodeFacts TaskRequester FlowFacts MergeFacts
begin

text \<open>
  A model of the core of n8n: how a workflow is stored as a graph, how an execution is prepared
  and which parts of the server route, queue and authorise executions. Definitions are translated
  from the TypeScript sources under \<open>src/packages\<close>; they are executable, and keep the names of the
  source where Isabelle allows it. Errors that the source throws are values of the sum type
  \<open>'a res\<close> (\<open>Inl\<close> the error), JavaScript maps and sets are insertion-ordered lists, objects that are
  compared with \<open>===\<close> carry an address. Code that is not in the repository (the registry of node
  types, the comparison of strings by locale, sorting with an inconsistent comparator) is an
  argument of the definitions that use it.

  \<^bold>\<open>Parts.\<close>

  \<^item> \<open>Prelude\<close>: results that may be errors, loops whose body may throw, insertion-ordered maps and
    sets, array operations, decimal printing; the locales \<open>keyed_store\<close> and \<open>invariant_machine\<close>.
  \<^item> \<open>WorkflowTypes\<close> (\<open>workflow/src/Interfaces.ts\<close>): nodes, connection tables, run, pin and waiting data.
  \<^item> \<open>WorkflowGraph\<close> (\<open>workflow/src/Workflow.ts\<close>): connection tables and their inversion, node
    queries, the walks over the tables, the start node. \<open>WorkflowFacts\<close> proves that the table by
    destination is the inversion of the table by source and that \<open>getConnectedNodes\<close> returns
    exactly what is within reach.
  \<^item> \<open>DirectedGraph\<close> (\<open>core/src/execution-engine/partial-execution-utils/directed-graph.ts\<close>): the
    whole class. \<open>GraphInvariant\<close> states its well-formedness and proves that the operations keep it
    and what removing a node does; \<open>GraphWalks\<close> proves the walks exact (the locale \<open>marking_walk\<close>
    covers the two that collect); \<open>GraphProperties\<close> collects the properties, \<open>Samples\<close> the inputs
    the theorems are applied to.
  \<^item> \<open>PartialExecution\<close>, \<open>ExecutionStack\<close> (the other files of \<open>partial-execution-utils\<close> and
    \<open>runPartialWorkflow2\<close> of \<open>workflow-execute.ts\<close>): the steps that prepare a partial execution. Their
    facts are in \<open>PartialFacts\<close> (disabled nodes), \<open>PartialStart\<close> (trigger, start nodes),
    \<open>PartialSubgraph\<close> (subgraph), \<open>PartialData\<close> (run data, groups of incoming connections, stack)
    and \<open>PartialRun\<close> (the composition).
  \<^item> \<open>Engine\<close>, \<open>EngineNode\<close>, \<open>EngineLoop\<close>, \<open>EngineRun\<close> (\<open>WorkflowExecute\<close> of
    \<open>core/src/execution-engine/workflow-execute.ts\<close>): the state of an execution and the hand-over of
    data to the next nodes (\<open>addNodeToBeExecuted\<close>); running one node, pairing and splitting its
    output; the tries of a node, the release of waiting nodes; one iteration, the loop, the result,
    and the three ways to start an execution. A prepared partial execution is executed by
    \<open>executePartialWorkflow2\<close>. What the engine does is proved in
    \<open>EngineWaiting\<close> (the cases of a hand-over as the relation \<open>handover\<close>),
    \<open>EngineConservation\<close> (the hand-over refines adding an element to the multiset \<open>held\<close>),
    \<open>EngineSteps\<close> (an item that is executed as the relation \<open>executed\<close>, an iteration as \<open>advanced\<close>),
    \<open>EngineInvariants\<close> (the locale \<open>run_property\<close>: what the hand-over, the release and the record of a
    run keep is kept by the loop), \<open>EngineResults\<close> (waiting nodes, the run filter, why the loop
    stops, the status), \<open>EngineTermination\<close>, \<open>EngineItems\<close> (items and tries), and \<open>EngineExamples\<close>
    (the theorems applied to executions built in \<open>EngineSamples\<close>).
  \<^item> \<open>NodeParameters\<close> (\<open>workflow/src/NodeHelpers.ts\<close>): when a parameter of a node is displayed, what it
    depends on, the order of resolution, and \<open>getNodeParameters\<close>, which collects the parameters and fills
    in or leaves out defaults; \<open>NodeParameterFacts\<close> shows that both end, that the order respects
    dependencies without cycles, and that leaving out the defaults loses nothing. lodash and regular
    expressions are the record \<open>js_library\<close>. The fuel of \<open>getNodeParameters\<close> is the depth of the properties.
  \<^item> \<open>Concurrency\<close> (\<open>cli/src/concurrency\<close>): the queue that limits concurrent executions, and the
    service that routes executions to queues by their mode.
  \<^item> \<open>ActiveExecutions\<close> (\<open>cli/src/active-executions.ts\<close>): the executions of a process, which wait for the
    concurrency control before they are registered, give their place back when their promise settles,
    and are stopped, also while they are held back, or dropped by a shutdown. \<open>ActiveFacts\<close> states what they
    rely on as the locale \<open>admission_queue\<close>, which the operations of the queue provide, and proves how far the
    limit holds for the executions in progress: each stop of a held-back execution may let one more through.
  \<^item> \<open>TaskMessages\<close>, \<open>TaskBroker\<close>, \<open>TaskRunner\<close>, \<open>TaskRunnerWatch\<close> (\<open>cli/src/task-runners\<close>,
    \<open>@n8n/task-runner/src\<close>): the broker that matches requests with offers of runners, a runner, and
    the supervision of the runner process.
  \<^item> \<open>Webhooks\<close> (\<open>cli/src/webhooks\<close>): storing, finding and deleting webhooks over cache and database.
  \<^item> \<open>Effects\<close>: routines that change a state and may throw, with their weakest preconditions.
    \<open>ActiveWorkflows\<close> (\<open>workflow/src/Cron.ts\<close>; \<open>active-workflows.ts\<close>, \<open>scheduled-task-manager.ts\<close>,
    \<open>triggers-and-pollers.ts\<close> of \<open>core/src/execution-engine\<close>): triggers, polls and cron jobs of the
    workflows that are active in memory; \<open>WorkflowActivation\<close> (\<open>cli/src/active-workflow-manager.ts\<close>):
    activating and deactivating workflows with their webhooks, recorded errors and retries. An activation is
    one step (\<open>am_add\<close>), or begins and continues after other events with what it had read (\<open>add_begins\<close>,
    \<open>add_continues\<close>); the other operations are single steps.
    \<open>ActiveWorkflowsFacts\<close> accounts for every running job; \<open>WorkflowActivationFacts\<close> states in the locale
    \<open>manager_property\<close> which routines a property of the manager depends on, and proves that followers
    start nothing, the delays of retries, and what an activation and a deactivation leave.
  \<^item> \<open>MultiMain\<close> (\<open>cli/src/scaling/multi-main-setup.ee.ts\<close>): the choice of a leader over a key of Redis. Calls of
    several mains are sent, executed and answered in any order (\<open>mm_step\<close>); proved are that two leaders
    at once mean that one has lost the key, when a leader can be found, and when never again.
  \<^item> \<open>WaitTracker\<close> (\<open>cli/src/wait-tracker.ts\<close>, \<open>cli/src/executions/execution.service.ts\<close>) composes the timers of
    waiting executions with the active executions and the rows in the database. A query takes its answer when
    it is sent and is handled later, also that of a stop; an update is one step. \<open>WaitTrackerFacts\<close> proves that
    an execution that is no parent has one timer at most, when a stopped execution stays stopped, and what a
    lost leadership does.
  \<^item> \<open>RunnerData\<close> (\<open>cli/src/task-runners/task-managers\<close>, \<open>@n8n/task-runner/src/data-request\<close>,
    \<open>js-task-runner/built-ins-parser\<close>): the data of a task, how it is stripped to what the code needs and rebuilt.
    \<open>RunnerCode\<close> (\<open>@n8n/task-runner/src/js-task-runner\<close>, \<open>nodes-base/nodes/Code\<close>) runs the code, validates what it
    returns and splits the items into chunks; \<open>RunnerCodeFacts\<close> composes both: the data that the code names is
    sent, chunks run like the whole once the check for disallowed methods has passed, outputs are paired and stable. \<open>TaskRequester\<close>
    (\<open>cli/src/task-runners/task-managers/task-requester.ts\<close>) accounts for every call and every question.
  \<^item> \<open>TypeValidation\<close> (\<open>workflow/src/TypeValidation.ts\<close>, \<open>utils.ts\<close>): values with their identity, the parsers of each
    type and \<open>validateFieldType\<close>; \<open>TypeValidationFacts\<close> shows that what is accepted has its type and is
    accepted again unchanged, and what is known of form fields. \<open>FilterParameter\<close>
    (\<open>workflow/src/NodeParameters/FilterParameter.ts\<close>) evaluates conditions with these values; \<open>FilterFacts\<close> proves the
    laws of De Morgan for filters from the locale \<open>negatable_conditions\<close>, and that known operators answer.
    \<open>FlowNodes\<close> (\<open>If/V2\<close>, \<open>Filter/V2\<close>, \<open>Switch/V3\<close> of \<open>nodes-base/nodes\<close>) routes items by filters, and
    \<open>FlowFacts\<close> says which output gets which items. JSON, esprima, luxon and regular expressions
    are the record \<open>js_runtime\<close>; numbers are rationals, without the rounding of doubles.
  \<^item> \<open>LoopNode\<close> (\<open>nodes-base/nodes/SplitInBatches/v3\<close>): the loop over items with the context it keeps between calls, as
    a run over a list of calls. \<open>MergeNode\<close> (\<open>nodes-base/nodes/Merge/v3\<close>): matching by fields, merging with the
    handling of clashes, and the modes; \<open>MergeFacts\<close> proves the matches to be a join, that the modes split
    an input, and that suffixes keep all fields. lodash is the record \<open>merge_library\<close>.
  \<^item> \<open>Permissions\<close> (\<open>@n8n/permissions\<close>, \<open>cli/src/permissions.ee\<close>, \<open>cli/src/services/role.service.ts\<close>).

  \<^bold>\<open>Fuel.\<close> Recursions of the source over a graph take fuel in the model. The public operations give
  one or two more than the number of nodes, names or connections, and the exactness theorems show
  that this never runs out on well-formed input: each call either stops or marks something new.
  \<open>OutOfFuel\<close> is therefore never the result where such a theorem applies.

  An execution may run forever: \<open>exec_loop\<close> counts iterations and is \<open>None\<close> when they do not suffice.
  \<open>execution_terminates\<close> gives a number that is enough for workflows without main cycles in version 1
  of the execution order. The search for waiting nodes takes one round more than there are waiting
  entries (\<open>release_waiting_nodes_ends\<close>).

  \<^bold>\<open>The engine's outside.\<close> The record \<open>engine_env\<close> holds what the engine calls: the code of the nodes
  (numbered by call, so that it may behave differently each time), the evaluation of the required
  inputs, the outputs and the parameter issues of a node, the origin of a paired item, the clock, the
  cancellation, and the sort of the runtime, whose result for an inconsistent comparator is
  not determined. A call of a node gives its result and possibly a time to wait until; that a real node can
  also write run data and metadata, as sub-nodes do (\<open>supply-data-context.ts\<close>), is not modelled, so nothing
  is claimed about what a call leaves in the run. The number of tries of a node is a whole number. Lifecycle hooks are taken to return, static data is left out. The model does not
  tell an absent source from one that is explicitly \<open>undefined\<close>, keeps node names in the order of
  insertion even when they look like array indexes, leaves the output unchanged where the split into
  error items throws half-way, and reports a missing start node of the first version of a partial execution
  when it is looked up.

  \<^bold>\<open>Not modelled.\<close> The implementations of the other nodes, the evaluation of expressions, the editor, HTTP
  controllers, the database mappings, configuration and logging: they are input and output, user
  code, or glue over libraries that are not in the repository.
\<close>

end
